(* ===== verification/Prelude.thy ===== *)
theory Prelude
  imports
    Main
    "HOL-Library.Product_Lexorder"
    "HOL-Library.List_Lexorder"
    "HOL-Library.Char_ord"
    "HOL-Library.AList"
begin

text \<open>
  Shared vocabulary of the development.

  \<^item> Time: an aware \<open>datetime\<close> normalised to UTC is an \<open>instant\<close>, the number of
    microseconds since the epoch, and a \<open>timedelta\<close> is a \<open>duration\<close> in microseconds
    (both are exact integers in Python too). The theory \<open>Timestamps\<close> justifies that the
    persisted text form of an instant may be compared as an instant.
  \<^item> Effects: an operation that may raise and may change the state is a function from a
    state to a result (\<open>Inl\<close> the exception, \<open>Inr\<close> the value) and a new state; an
    exception keeps whatever was written before it unless a \<open>transaction\<close> undoes it.
  \<^item> Tables: an SQL table is the list of its rows; \<open>update_where\<close> and \<open>rowcount\<close> are
    \<^verbatim>\<open>UPDATE ... WHERE\<close> and its row count.
  \<^item> Strings: a Python string is a HOL \<open>string\<close>, a list of code points below 256;
    \<open>List_Lexorder\<close> over \<open>Char_ord\<close> is Python's (and SQLite's binary) string order.
\<close>

named_theorems table_simps \<open>rewriting of table reads over table writes\<close>
named_theorems op_defs \<open>definitions of the state-changing operations\<close>

section \<open>Time\<close>

type_synonym instant = int
type_synonym duration = int

definition seconds :: "int \<Rightarrow> duration" where
  "seconds n = n * 1000000"

lemma seconds_mono: "seconds a \<le> seconds b \<longleftrightarrow> a \<le> b"
  by (simp add: seconds_def)

lemma seconds_pos: "0 < seconds a \<longleftrightarrow> 0 < a"
  by (simp add: seconds_def)

text \<open>SQL compares with NULL to NULL, which a WHERE clause reads as false.\<close>

fun sql_gt :: "instant option \<Rightarrow> instant \<Rightarrow> bool" where
  "sql_gt None t = False"
| "sql_gt (Some a) t = (t < a)"

fun sql_le :: "instant option \<Rightarrow> instant \<Rightarrow> bool" where
  "sql_le None t = False"
| "sql_le (Some a) t = (a \<le> t)"

lemma sql_gt_iff: "sql_gt x t \<longleftrightarrow> (\<exists>a. x = Some a \<and> t < a)"
  by (cases x) auto

lemma sql_le_iff: "sql_le x t \<longleftrightarrow> (\<exists>a. x = Some a \<and> a \<le> t)"
  by (cases x) auto

section \<open>Effects\<close>

type_synonym ('s, 'e, 'a) op = "'s \<Rightarrow> ('e + 'a) \<times> 's"

definition transaction :: "('s, 'e, 'a) op \<Rightarrow> ('s, 'e, 'a) op" where
  "transaction body s =
     (case body s of (Inl e, _) \<Rightarrow> (Inl e, s) | (Inr a, s') \<Rightarrow> (Inr a, s'))"

lemma transaction_Inl: "transaction body s = (Inl e, s') \<Longrightarrow> s' = s"
  by (auto simp: transaction_def split: prod.splits sum.splits)

lemma transaction_Inr: "transaction body s = (Inr a, s') \<longleftrightarrow> body s = (Inr a, s')"
  by (auto simp: transaction_def split: prod.splits sum.splits)

lemma map_sum_Inr: "map_sum f g x = Inr b \<longleftrightarrow> (\<exists>a. x = Inr a \<and> b = g a)"
  by (cases x) auto

section \<open>Tables\<close>

definition update_where :: "('r \<Rightarrow> bool) \<Rightarrow> ('r \<Rightarrow> 'r) \<Rightarrow> 'r list \<Rightarrow> 'r list" where
  "update_where P f rows = map (\<lambda>r. if P r then f r else r) rows"

definition rowcount :: "('r \<Rightarrow> bool) \<Rightarrow> 'r list \<Rightarrow> nat" where
  "rowcount P rows = length (filter P rows)"

text \<open>A read by key: the row of a table whose key column is \<open>k\<close>.\<close>

definition lookup_by :: "('r \<Rightarrow> 'k) \<Rightarrow> 'k \<Rightarrow> 'r list \<Rightarrow> 'r option" where
  "lookup_by key k rows = List.find (\<lambda>r. key r = k) rows"

lemma lookup_by_Nil [simp]: "lookup_by key k [] = None"
  by (simp add: lookup_by_def)

lemma lookup_by_Cons [simp]:
  "lookup_by key k (r # rs) = (if key r = k then Some r else lookup_by key k rs)"
  by (simp add: lookup_by_def)

lemma lookup_by_Some: "lookup_by key k rows = Some r \<Longrightarrow> r \<in> set rows \<and> key r = k"
  by (induction rows) (auto split: if_splits)

lemma lookup_by_None_iff: "lookup_by key k rows = None \<longleftrightarrow> k \<notin> key ` set rows"
  by (induction rows) auto

lemma lookup_by_append:
  "lookup_by key k (rows @ rows') =
     (case lookup_by key k rows of None \<Rightarrow> lookup_by key k rows' | Some r \<Rightarrow> Some r)"
  by (induction rows) auto

lemma lookup_by_unique:
  "distinct (map key rows) \<Longrightarrow> r \<in> set rows \<Longrightarrow> lookup_by key (key r) rows = Some r"
  by (induction rows) (auto simp: image_iff)

lemma lookup_by_update_where:
  assumes "\<And>r. P r \<Longrightarrow> key (f r) = key r"
  shows "lookup_by key k (update_where P f rows) =
    map_option (\<lambda>r. if P r then f r else r) (lookup_by key k rows)"
  using assms by (induction rows) (auto simp: update_where_def)

lemma update_where_keys:
  assumes "\<And>r. P r \<Longrightarrow> key (f r) = key r"
  shows "map key (update_where P f rows) = map key rows"
  using assms by (induction rows) (auto simp: update_where_def)

lemma set_update_where: "set (update_where P f rows) = (\<lambda>r. if P r then f r else r) ` set rows"
  by (simp add: update_where_def)

lemma update_where_idle: "\<forall>r \<in> set rows. \<not> P r \<Longrightarrow> update_where P f rows = rows"
  by (induction rows) (auto simp: update_where_def)

lemma length_update_where [simp]: "length (update_where P f rows) = length rows"
  by (simp add: update_where_def)

lemma rowcount_key:
  assumes "distinct (map key rows)"
  shows "rowcount (\<lambda>r. key r = k \<and> Q r) rows =
    (case lookup_by key k rows of None \<Rightarrow> 0 | Some r \<Rightarrow> if Q r then 1 else 0)"
  using assms
proof (induction rows)
  case Nil
  then show ?case by (simp add: rowcount_def)
next
  case (Cons x xs)
  have "filter (\<lambda>r. key r = k \<and> Q r) xs = []" if "key x = k"
    using that Cons.prems by (auto simp: filter_empty_conv image_iff)
  with Cons show ?case
    by (auto simp: rowcount_def split: option.splits)
qed

section \<open>Selection\<close>

text \<open>Python's \<open>min(xs, key=k)\<close> and \<open>max(xs, key=k)\<close>: the first extremal element.\<close>

fun min_by :: "('a \<Rightarrow> 'k::linorder) \<Rightarrow> 'a list \<Rightarrow> 'a option" where
  "min_by k [] = None"
| "min_by k (x # xs) =
     (case min_by k xs of None \<Rightarrow> Some x | Some y \<Rightarrow> Some (if k y < k x then y else x))"

fun max_by :: "('a \<Rightarrow> 'k::linorder) \<Rightarrow> 'a list \<Rightarrow> 'a option" where
  "max_by k [] = None"
| "max_by k (x # xs) =
     (case max_by k xs of None \<Rightarrow> Some x | Some y \<Rightarrow> Some (if k x < k y then y else x))"

lemma min_by_None_iff [simp]: "min_by k xs = None \<longleftrightarrow> xs = []"
  by (cases xs) (auto split: option.splits)

lemma max_by_None_iff [simp]: "max_by k xs = None \<longleftrightarrow> xs = []"
  by (cases xs) (auto split: option.splits)

lemma min_by_Some: "min_by k xs = Some x \<Longrightarrow> x \<in> set xs \<and> (\<forall>y \<in> set xs. k x \<le> k y)"
proof (induction xs arbitrary: x)
  case (Cons a xs)
  then show ?case
    by (cases "min_by k xs") (fastforce split: if_splits)+
qed simp

lemma max_by_Some: "max_by k xs = Some x \<Longrightarrow> x \<in> set xs \<and> (\<forall>y \<in> set xs. k y \<le> k x)"
proof (induction xs arbitrary: x)
  case (Cons a xs)
  then show ?case
    by (cases "max_by k xs") (fastforce split: if_splits)+
qed simp

lemma min_by_in: "min_by k xs = Some x \<Longrightarrow> x \<in> set xs"
  by (simp add: min_by_Some)

lemma strict_sorted_last:
  fixes xs :: "'a::linorder list"
  shows "sorted_wrt (<) xs \<Longrightarrow> x \<in> set xs \<Longrightarrow> x \<le> last xs"
  by (induction xs) (auto simp: order_less_imp_le)

text \<open>Python's truth value of an optional string.\<close>

fun truthy :: "string option \<Rightarrow> bool" where
  "truthy None = False"
| "truthy (Some s) = (s \<noteq> [])"

section \<open>Digests\<close>

text \<open>\<open>len(value) == 64\<close> and every character in \<open>"0123456789abcdef"\<close>.\<close>

definition hex64 :: "string \<Rightarrow> bool" where
  "hex64 s \<longleftrightarrow> length s = 64 \<and> list_all (\<lambda>c. c \<in> set ''0123456789abcdef'') s"

section \<open>Association lists as Python dictionaries\<close>

text \<open>
  \<open>AList.update\<close> replaces the value of a key in place and appends a new key at the end,
  as assignment to a Python dictionary does.
\<close>

lemma alist_update_keys_old:
  "k \<in> fst ` set d \<Longrightarrow> map fst (AList.update k v d) = map fst d"
  by (induction d) auto

lemma alist_update_keys_new:
  "k \<notin> fst ` set d \<Longrightarrow> AList.update k v d = d @ [(k, v)]"
  by (induction d) auto

lemma map_of_append_new [simp]:
  "k \<notin> fst ` set d \<Longrightarrow> map_of (d @ [(k, v)]) = (map_of d)(k \<mapsto> v)"
  by (induction d) (auto simp: fun_eq_iff)

lemma alist_update_set_distinct:
  "distinct (map fst d) \<Longrightarrow>
     set (AList.update k v d) = insert (k, v) {p \<in> set d. fst p \<noteq> k}"
  by (induction d) (auto simp: image_iff)

end
