(* ===== verification/Timestamps.thy ===== *)
theory Timestamps
  imports Prelude
begin

text \<open>
  Persisted timestamps: \<open>_timestamp\<close> of \<open>operational.py\<close> (and the identical
  \<open>utc_timestamp\<close> of the read contracts), \<open>parse_timestamp\<close> of \<open>canonical.py\<close>, and
  Python's calendar arithmetic underneath. A UTC datetime is a record of its fields.
  The tables store and compare the text; the lemmas show that on valid datetimes the text
  order is the order of the instants, so the other theories may keep instants in their
  columns, and that printing and strict parsing are mutually inverse.
\<close>

section \<open>Datetimes and instants\<close>

record datetime =
  dt_year :: nat
  dt_month :: nat
  dt_day :: nat
  dt_hour :: nat
  dt_minute :: nat
  dt_second :: nat
  dt_microsecond :: nat

definition is_leap :: "nat \<Rightarrow> bool" where
  "is_leap y \<longleftrightarrow> y mod 4 = 0 \<and> (y mod 100 \<noteq> 0 \<or> y mod 400 = 0)"

definition days_in_month :: "nat \<Rightarrow> nat \<Rightarrow> nat" where
  "days_in_month y m =
     (if m = 2 then (if is_leap y then 29 else 28)
      else if m \<in> {4, 6, 9, 11} then 30 else 31)"

text \<open>The days before the year \<open>y\<close> and before the month \<open>m\<close>, and the proleptic ordinal.\<close>

definition days_before_year :: "nat \<Rightarrow> nat" where
  "days_before_year y = (y - 1) * 365 + (y - 1) div 4 + (y - 1) div 400 - (y - 1) div 100"

primrec days_before_month :: "nat \<Rightarrow> nat \<Rightarrow> nat" where
  "days_before_month y 0 = 0"
| "days_before_month y (Suc m) = days_before_month y m + (if m = 0 then 0 else days_in_month y m)"

definition ymd2ord :: "nat \<Rightarrow> nat \<Rightarrow> nat \<Rightarrow> nat" where
  "ymd2ord y m d = days_before_year y + days_before_month y m + d"

definition valid_date :: "nat \<Rightarrow> nat \<Rightarrow> nat \<Rightarrow> bool" where
  "valid_date y m d \<longleftrightarrow>
     1 \<le> y \<and> y \<le> 9999 \<and> 1 \<le> m \<and> m \<le> 12 \<and> 1 \<le> d \<and> d \<le> days_in_month y m"

definition valid_datetime :: "datetime \<Rightarrow> bool" where
  "valid_datetime t \<longleftrightarrow>
     valid_date (dt_year t) (dt_month t) (dt_day t) \<and>
     dt_hour t \<le> 23 \<and> dt_minute t \<le> 59 \<and> dt_second t \<le> 59 \<and> dt_microsecond t \<le> 999999"

text \<open>Ordinal 719163 is 1 January 1970.\<close>

definition to_instant :: "datetime \<Rightarrow> instant" where
  "to_instant t =
     ((int (ymd2ord (dt_year t) (dt_month t) (dt_day t)) - 719163) * 86400
       + int (dt_hour t) * 3600 + int (dt_minute t) * 60 + int (dt_second t)) * 1000000
       + int (dt_microsecond t)"

text \<open>Python compares datetimes field by field, from the year down.\<close>

definition dt_fields :: "datetime \<Rightarrow> nat \<times> nat \<times> nat \<times> nat \<times> nat \<times> nat \<times> nat" where
  "dt_fields t = (dt_year t, dt_month t, dt_day t, dt_hour t, dt_minute t, dt_second t,
     dt_microsecond t)"

section \<open>The calendar\<close>

lemma div_Suc_carry: "Suc n div k = n div k + (if k dvd Suc n then 1 else 0)" if "0 < k"
  using that by (simp add: div_Suc dvd_eq_mod_eq_0)

lemma leap_carry:
  fixes q4 q100 q400 n :: nat
  assumes "q100 \<le> q4" and "l400 \<Longrightarrow> l100" and "l100 \<Longrightarrow> l4"
  shows "Suc n * 365 + (q4 + (if l4 then 1 else 0)) + (q400 + (if l400 then 1 else 0))
      - (q100 + (if l100 then 1 else 0))
    = n * 365 + q4 + q400 - q100 + (if l4 \<and> (\<not> l100 \<or> l400) then 366 else 365)"
  using assms by (cases l4; cases l100; cases l400) simp_all

lemma days_before_year_Suc:
  assumes "1 \<le> y"
  shows "days_before_year (Suc y) = days_before_year y + (if is_leap y then 366 else 365)"
proof -
  obtain n where y: "y = Suc n" using assms by (cases y) auto
  have "n div 100 \<le> n div 4" by (rule div_le_mono2) simp_all
  moreover have "100 dvd Suc n" if "400 dvd Suc n"
    by (rule dvd_trans [OF _ that]) simp
  moreover have "4 dvd Suc n" if "100 dvd Suc n"
    by (rule dvd_trans [OF _ that]) simp
  ultimately show ?thesis
    using leap_carry [of "n div 100" "n div 4" "400 dvd Suc n" "100 dvd Suc n" "4 dvd Suc n" n
        "n div 400"]
    by (simp only: y days_before_year_def is_leap_def diff_Suc_1 div_Suc_carry zero_less_numeral
        dvd_eq_mod_eq_0 [symmetric])
qed

lemma days_before_month_mono: "m \<le> m' \<Longrightarrow> days_before_month y m \<le> days_before_month y m'"
  by (induction m' rule: nat_induct) (auto simp: le_Suc_eq)

lemma days_before_month_next:
  "1 \<le> m \<Longrightarrow> m < m' \<Longrightarrow> days_before_month y m + days_in_month y m \<le> days_before_month y m'"
  using days_before_month_mono [of "Suc m" m' y] by simp

lemma days_before_month_13: "days_before_month y 13 = (if is_leap y then 366 else 365)"
  by (simp add: numeral_eq_Suc days_in_month_def)

lemma valid_date_in_year:
  assumes "valid_date y m d"
  shows "days_before_month y m + d \<le> (if is_leap y then 366 else 365)"
proof -
  have "days_before_month y m + days_in_month y m \<le> days_before_month y 13"
    using assms by (intro days_before_month_next) (auto simp: valid_date_def)
  then show ?thesis using assms by (auto simp: valid_date_def days_before_month_13)
qed

lemma days_before_year_mono:
  assumes "1 \<le> y" and "y < y'"
  shows "days_before_year y + (if is_leap y then 366 else 365) \<le> days_before_year y'"
  using assms(2)
proof (induction y' rule: nat_induct)
  case (Suc n)
  show ?case
  proof (cases "y = n")
    case True
    then show ?thesis using days_before_year_Suc [OF assms(1)] by simp
  next
    case False
    with Suc.prems have "y < n" by simp
    then show ?thesis using Suc.IH days_before_year_Suc [of n] assms(1) by simp
  qed
qed simp

lemma ymd2ord_less:
  assumes "valid_date y m d" and "valid_date y' m' d'" and "(y, m, d) < (y', m', d')"
  shows "ymd2ord y m d < ymd2ord y' m' d'"
proof -
  have d': "1 \<le> d'" and m: "1 \<le> m" and y: "1 \<le> y"
    using assms(1,2) by (auto simp: valid_date_def)
  consider "y < y'" | "y = y'" "m < m'" | "y = y'" "m = m'" "d < d'"
    using assms(3) by (auto simp: order.order_iff_strict)
  then show ?thesis
  proof cases
    case 1
    then show ?thesis
      using valid_date_in_year [OF assms(1)] days_before_year_mono [OF y 1] d'
      by (simp add: ymd2ord_def)
  next
    case 2
    have "d \<le> days_in_month y m" using assms(1) by (simp add: valid_date_def)
    then show ?thesis
      using days_before_month_next [OF m 2(2), of y] 2(1) d' by (simp add: ymd2ord_def)
  qed (simp add: ymd2ord_def)
qed

text \<open>A packing step of a positional number system keeps the order.\<close>

lemma positional_less:
  fixes a a' b b' n :: int
  assumes "0 \<le> b" "b < n" "0 \<le> b'" "b' < n"
  shows "a * n + b < a' * n + b' \<longleftrightarrow> a < a' \<or> a = a' \<and> b < b'"
proof -
  have "a * n + b < a' * n + b'" if "a < a'"
  proof -
    have "(a + 1) * n \<le> a' * n" using that assms by (intro mult_right_mono) auto
    then show ?thesis using assms by (simp add: algebra_simps)
  qed
  moreover have "\<not> a * n + b < a' * n + b'" if "a' < a"
  proof -
    have "(a' + 1) * n \<le> a * n" using that assms by (intro mult_right_mono) auto
    then show ?thesis using assms by (simp add: algebra_simps)
  qed
  ultimately show ?thesis by (cases a a' rule: linorder_cases) auto
qed

definition day_seconds :: "datetime \<Rightarrow> int" where
  "day_seconds t = int (dt_hour t) * 3600 + int (dt_minute t) * 60 + int (dt_second t)"

lemma day_seconds_bounds:
  "valid_datetime t \<Longrightarrow> 0 \<le> day_seconds t \<and> day_seconds t < 86400"
  by (auto simp: valid_datetime_def day_seconds_def)

lemma day_seconds_less:
  assumes "valid_datetime t" and "valid_datetime u"
  shows "day_seconds t < day_seconds u \<longleftrightarrow>
    (dt_hour t, dt_minute t, dt_second t) < (dt_hour u, dt_minute u, dt_second u)"
  using assms positional_less [of "int (dt_minute t) * 60 + int (dt_second t)" 3600
      "int (dt_minute u) * 60 + int (dt_second u)" "int (dt_hour t)" "int (dt_hour u)"]
    positional_less [of "int (dt_second t)" 60 "int (dt_second u)" "int (dt_minute t)"
      "int (dt_minute u)"]
  by (auto simp: day_seconds_def valid_datetime_def)

lemma day_seconds_eq:
  assumes "valid_datetime t" and "valid_datetime u"
  shows "day_seconds t = day_seconds u \<longleftrightarrow>
    (dt_hour t, dt_minute t, dt_second t) = (dt_hour u, dt_minute u, dt_second u)"
  using day_seconds_less [OF assms] day_seconds_less [OF assms(2,1)]
  by (metis linorder_neq_iff)

lemma to_instant_split:
  "to_instant t =
     ((int (ymd2ord (dt_year t) (dt_month t) (dt_day t)) - 719163) * 86400 + day_seconds t)
       * 1000000 + int (dt_microsecond t)"
  by (simp add: to_instant_def day_seconds_def)

lemma to_instant_less:
  assumes "valid_datetime t" and "valid_datetime u" and "dt_fields t < dt_fields u"
  shows "to_instant t < to_instant u"
proof -
  let ?o = "\<lambda>t. int (ymd2ord (dt_year t) (dt_month t) (dt_day t)) - 719163"
  have vt: "valid_date (dt_year t) (dt_month t) (dt_day t)"
    and vu: "valid_date (dt_year u) (dt_month u) (dt_day u)"
    and m: "int (dt_microsecond t) < 1000000" "int (dt_microsecond u) < 1000000"
    using assms(1,2) by (auto simp: valid_datetime_def)
  note b = day_seconds_bounds [OF assms(1)] day_seconds_bounds [OF assms(2)]
  consider "(dt_year t, dt_month t, dt_day t) < (dt_year u, dt_month u, dt_day u)"
    | "(dt_year t, dt_month t, dt_day t) = (dt_year u, dt_month u, dt_day u)"
      "(dt_hour t, dt_minute t, dt_second t) < (dt_hour u, dt_minute u, dt_second u)"
    | "(dt_year t, dt_month t, dt_day t) = (dt_year u, dt_month u, dt_day u)"
      "(dt_hour t, dt_minute t, dt_second t) = (dt_hour u, dt_minute u, dt_second u)"
      "dt_microsecond t < dt_microsecond u"
    using assms(3) by (auto simp: dt_fields_def order.order_iff_strict)
  then have "?o t * 86400 + day_seconds t < ?o u * 86400 + day_seconds u \<or>
    ?o t * 86400 + day_seconds t = ?o u * 86400 + day_seconds u \<and>
      dt_microsecond t < dt_microsecond u"
  proof cases
    case 1
    then have "?o t < ?o u" using ymd2ord_less [OF vt vu] by simp
    then show ?thesis using b by (subst positional_less) auto
  next
    case 2
    then show ?thesis using day_seconds_less [OF assms(1,2)] by simp
  next
    case 3
    then show ?thesis using day_seconds_eq [OF assms(1,2)] by simp
  qed
  then show ?thesis
    unfolding to_instant_split using m by (subst positional_less) auto
qed

lemma dt_fields_eq: "dt_fields t = dt_fields u \<longleftrightarrow> t = u"
  by (cases t, cases u) (auto simp: dt_fields_def)

lemma to_instant_less_iff:
  assumes "valid_datetime t" and "valid_datetime u"
  shows "to_instant t < to_instant u \<longleftrightarrow> dt_fields t < dt_fields u"
proof (cases "dt_fields t" "dt_fields u" rule: linorder_cases)
  case less
  then show ?thesis using to_instant_less [OF assms] by simp
next
  case equal
  then show ?thesis by (simp add: dt_fields_eq)
next
  case greater
  then show ?thesis using to_instant_less [OF assms(2,1)] by simp
qed

lemma to_instant_inj:
  assumes "valid_datetime t" and "valid_datetime u" and "to_instant t = to_instant u"
  shows "t = u"
  using to_instant_less_iff [OF assms(1,2)] to_instant_less_iff [OF assms(2,1)] assms(3)
  by (metis dt_fields_eq linorder_neq_iff)

section \<open>From instants back to datetimes\<close>

text \<open>
  \<open>date.fromordinal\<close> and \<open>datetime\<close> arithmetic: the year, then the month, are searched
  upwards from a lower bound. Python's range is the ordinals 1 to 3652059 (31 December 9999).
\<close>

lemma days_before_year_ge: "y \<le> days_before_year (Suc y)"
proof -
  have "y div 100 \<le> y div 4" by (rule div_le_mono2) simp_all
  then show ?thesis by (simp add: days_before_year_def)
qed

function find_year :: "nat \<Rightarrow> nat \<Rightarrow> nat" where
  "find_year y n = (if days_before_year (Suc y) < n then find_year (Suc y) n else y)"
  by pat_completeness auto
termination
proof (relation "measure (\<lambda>(y, n). n - y)")
  fix y n :: nat
  assume "days_before_year (Suc y) < n"
  then show "((Suc y, n), (y, n)) \<in> measure (\<lambda>(y, n). n - y)"
    using days_before_year_ge [of y] by simp
qed simp

function find_month :: "nat \<Rightarrow> nat \<Rightarrow> nat \<Rightarrow> nat" where
  "find_month y m r =
     (if m < 12 \<and> days_before_month y (Suc m) < r then find_month y (Suc m) r else m)"
  by pat_completeness auto
termination
  by (relation "measure (\<lambda>(y, m, r). 12 - m)") auto

declare find_year.simps [simp del] find_month.simps [simp del]

definition ord2ymd :: "nat \<Rightarrow> nat \<times> nat \<times> nat" where
  "ord2ymd n =
     (let y = find_year ((n - 1) div 366 + 1) n;
          r = n - days_before_year y;
          m = find_month y 1 r
      in (y, m, r - days_before_month y m))"

definition of_instant :: "instant \<Rightarrow> datetime" where
  "of_instant i =
     (let s = i div 1000000; d = s div 86400; r = nat (s mod 86400);
          (y, m, dd) = ord2ymd (nat (d + 719163))
      in \<lparr>dt_year = y, dt_month = m, dt_day = dd, dt_hour = r div 3600,
          dt_minute = r mod 3600 div 60, dt_second = r mod 60,
          dt_microsecond = nat (i mod 1000000)\<rparr>)"

lemma find_year_spec:
  "days_before_year y < n \<Longrightarrow> 1 \<le> y \<Longrightarrow>
     y \<le> find_year y n \<and> days_before_year (find_year y n) < n \<and>
     n \<le> days_before_year (Suc (find_year y n))"
proof (induction y n rule: find_year.induct)
  case (1 y n)
  then show ?case by (cases "days_before_year (Suc y) < n") (auto simp: find_year.simps [of y n])
qed

lemma find_month_spec:
  assumes "days_before_month y m < r" and "r \<le> days_before_month y 13" and "1 \<le> m" and "m \<le> 12"
  shows "m \<le> find_month y m r \<and> find_month y m r \<le> 12 \<and>
     days_before_month y (find_month y m r) < r \<and> r \<le> days_before_month y (Suc (find_month y m r))"
  using assms
proof (induction y m r rule: find_month.induct)
  case (1 y m r)
  show ?case
  proof (cases "m < 12 \<and> days_before_month y (Suc m) < r")
    case True
    then show ?thesis using "1.IH" "1.prems" by (auto simp: find_month.simps [of y m r])
  next
    case False
    then have "r \<le> days_before_month y (Suc m)"
      using "1.prems" by (cases "m = 12") (auto simp del: days_before_month.simps)
    then show ?thesis using False "1.prems" by (auto simp: find_month.simps [of y m r])
  qed
qed

lemma days_before_year_le: "days_before_year (Suc k) \<le> 366 * k"
proof -
  have "k div 4 \<le> k" and "k div 400 \<le> k div 100" by (simp_all add: div_le_mono2)
  then show ?thesis by (simp add: days_before_year_def)
qed

lemma ord2ymd_spec:
  assumes "1 \<le> n" and "n \<le> 3652059" and "ord2ymd n = (y, m, d)"
  shows "valid_date y m d \<and> ymd2ord y m d = n"
proof -
  let ?k = "(n - 1) div 366"
  have "366 * ?k \<le> n - 1" by (rule times_div_less_eq_dividend)
  then have "days_before_year (?k + 1) < n" using days_before_year_le [of ?k] assms(1) by simp
  then have y: "?k + 1 \<le> y" "days_before_year y < n" "n \<le> days_before_year (Suc y)"
    using find_year_spec [of "?k + 1" n] assms(3) by (auto simp: ord2ymd_def Let_def)
  then have y1: "1 \<le> y" by simp
  let ?r = "n - days_before_year y"
  have r: "?r \<le> days_before_month y 13"
    using y(3) days_before_year_Suc [OF y1] by (simp add: days_before_month_13)
  have m: "m = find_month y 1 ?r" and d: "d = ?r - days_before_month y m"
    using assms(3) by (auto simp: ord2ymd_def Let_def)
  have ms: "1 \<le> m" "m \<le> 12" "days_before_month y m < ?r" "?r \<le> days_before_month y (Suc m)"
    using find_month_spec [of y 1 ?r] r y(2) unfolding m by auto
  have "y \<le> 9999"
  proof (rule ccontr)
    assume "\<not> y \<le> 9999"
    then have "days_before_year 9999 + 365 \<le> days_before_year y"
      using days_before_year_mono [of 9999 y] by (simp add: is_leap_def)
    moreover have "days_before_year 9999 + 365 = 3652059" by (simp add: days_before_year_def)
    ultimately show False using y(2) assms(2) by simp
  qed
  moreover have "d \<le> days_in_month y m" using ms d by simp
  moreover have "1 \<le> d" using ms(3) d by simp
  moreover have "ymd2ord y m d = n" using y(2) ms(3) d by (simp add: ymd2ord_def)
  ultimately show ?thesis using y1 ms by (simp add: valid_date_def)
qed

text \<open>The instants of Python's datetime range.\<close>

definition instant_ok :: "instant \<Rightarrow> bool" where
  "instant_ok i \<longleftrightarrow>
     (1 - 719163) * 86400000000 \<le> i \<and> i < (3652060 - 719163) * 86400000000"

lemma valid_datetime_intro:
  "valid_date y m d \<Longrightarrow> h < 24 \<Longrightarrow> mi < 60 \<Longrightarrow> sec < 60 \<Longrightarrow> us < 1000000 \<Longrightarrow>
     valid_datetime \<lparr>dt_year = y, dt_month = m, dt_day = d, dt_hour = h, dt_minute = mi,
       dt_second = sec, dt_microsecond = us\<rparr>"
  by (simp add: valid_datetime_def)

lemma hms_split:
  "int (r div 3600) * 3600 + int (r mod 3600 div 60) * 60 + int (r mod 60) = int r"
proof -
  have "r mod 60 = r mod 3600 mod 60" by (rule mod_mod_cancel [symmetric]) simp
  then have "r div 3600 * 3600 + r mod 3600 div 60 * 60 + r mod 60 = r"
    using div_mult_mod_eq [of r 3600] div_mult_mod_eq [of "r mod 3600" 60] by simp
  then have "int (r div 3600 * 3600 + r mod 3600 div 60 * 60 + r mod 60) = int r" by simp
  then show ?thesis by (simp only: of_nat_add of_nat_mult of_nat_numeral)
qed

lemma day_range:
  assumes "instant_ok i" and "i = (d * 86400 + s) * 1000000 + u"
    and "0 \<le> s" and "s < 86400" and "0 \<le> u" and "u < 1000000"
  shows "1 \<le> d + 719163 \<and> d + 719163 \<le> 3652059"
  using assms unfolding instant_ok_def by simp

lemma of_instant_spec:
  assumes "instant_ok i"
  shows "valid_datetime (of_instant i) \<and> to_instant (of_instant i) = i"
proof -
  let ?s = "i div 1000000"
  let ?d = "?s div 86400"
  let ?r = "nat (?s mod 86400)"
  obtain y m dd where o: "ord2ymd (nat (?d + 719163)) = (y, m, dd)"
    by (cases "ord2ymd (nat (?d + 719163))") auto
  have i: "i = (?d * 86400 + ?s mod 86400) * 1000000 + i mod 1000000"
    using div_mult_mod_eq [of i 1000000] div_mult_mod_eq [of ?s 86400] by simp
  have sm: "0 \<le> ?s mod 86400" "?s mod 86400 < 86400" "0 \<le> i mod 1000000" "i mod 1000000 < 1000000"
    by simp_all
  have dr: "1 \<le> ?d + 719163" "?d + 719163 \<le> 3652059"
    using day_range [OF assms i sm] by simp_all
  then have v: "valid_date y m dd \<and> ymd2ord y m dd = nat (?d + 719163)"
    by (intro ord2ymd_spec [OF _ _ o]) linarith+
  have hms: "int (?r div 3600) * 3600 + int (?r mod 3600 div 60) * 60 + int (?r mod 60) = ?s mod 86400"
    using hms_split [of ?r] sm(1) by (simp only: int_nat_eq if_True)
  have f: "of_instant i = \<lparr>dt_year = y, dt_month = m, dt_day = dd, dt_hour = ?r div 3600,
      dt_minute = ?r mod 3600 div 60, dt_second = ?r mod 60, dt_microsecond = nat (i mod 1000000)\<rparr>"
    by (simp only: of_instant_def o Let_def prod.case)
  have n: "int (nat (?d + 719163)) - 719163 = ?d" "int (nat (i mod 1000000)) = i mod 1000000"
    using dr sm by simp_all
  have "to_instant (of_instant i) = (?d * 86400 + ?s mod 86400) * 1000000 + i mod 1000000"
    by (simp only: f to_instant_split day_seconds_def datetime.simps v n hms)
  then have "to_instant (of_instant i) = i" by (simp only: i [symmetric])
  moreover have "?r < 24 * 3600" using sm(1,2) by simp
  then have "?r div 3600 < 24" by (rule less_mult_imp_div_less)
  moreover have "?r mod 3600 < 60 * 60" by simp
  then have "?r mod 3600 div 60 < 60" by (rule less_mult_imp_div_less)
  moreover have "?r mod 60 < 60" by simp
  moreover have "nat (i mod 1000000) < 1000000" using sm by linarith
  ultimately show ?thesis
    unfolding f using v by (blast intro: valid_datetime_intro)
qed

lemma ymd2ord_range:
  assumes "valid_date y m d"
  shows "1 \<le> ymd2ord y m d \<and> ymd2ord y m d \<le> 3652059"
proof -
  have "days_before_year y + (if is_leap y then 366 else 365) \<le> days_before_year 10000"
    using assms by (intro days_before_year_mono) (auto simp: valid_date_def)
  also have "days_before_year 10000 = 3652059" by (simp add: days_before_year_def)
  finally show ?thesis
    using valid_date_in_year [OF assms] assms by (auto simp: valid_date_def ymd2ord_def)
qed

lemma to_instant_ok:
  assumes "valid_datetime t"
  shows "instant_ok (to_instant t)"
proof -
  let ?n = "int (ymd2ord (dt_year t) (dt_month t) (dt_day t))"
  have n: "1 \<le> ?n" "?n \<le> 3652059"
    using assms ymd2ord_range by (force simp: valid_datetime_def)+
  have "0 \<le> int (dt_microsecond t)" "int (dt_microsecond t) < 1000000"
    using assms by (auto simp: valid_datetime_def)
  then show ?thesis
    using n day_seconds_bounds [OF assms] unfolding instant_ok_def to_instant_split by simp
qed

lemma of_instant_to_instant: "valid_datetime t \<Longrightarrow> of_instant (to_instant t) = t"
  using of_instant_spec [OF to_instant_ok] to_instant_inj by blast

lemma ord2ymd_eq:
  assumes "valid_date y m d" and "ymd2ord y m d = n"
  shows "ord2ymd n = (y, m, d)"
proof -
  obtain y' m' d' where o: "ord2ymd n = (y', m', d')" by (cases "ord2ymd n") auto
  have "valid_date y' m' d' \<and> ymd2ord y' m' d' = n"
    using ymd2ord_range [OF assms(1)] assms(2) by (intro ord2ymd_spec [OF _ _ o]) auto
  then show ?thesis
    using ymd2ord_less assms o by (metis linorder_neqE nat_neq_iff)
qed

section \<open>Fixed-width decimals\<close>

definition digit :: "nat \<Rightarrow> char" where
  "digit n = char_of (48 + n mod 10)"

definition is_digit :: "char \<Rightarrow> bool" where
  "is_digit c \<longleftrightarrow> 48 \<le> (of_char c :: nat) \<and> (of_char c :: nat) \<le> 57"

fun decimal :: "nat \<Rightarrow> nat \<Rightarrow> string" where
  "decimal 0 n = []"
| "decimal (Suc w) n = decimal w (n div 10) @ [digit n]"

definition undecimal :: "string \<Rightarrow> nat" where
  "undecimal cs = foldl (\<lambda>a c. 10 * a + (of_char c - 48)) 0 cs"

lemma decimal_numeral:
  "decimal (numeral k) n = decimal (pred_numeral k) (n div 10) @ [digit n]"
  by (subst numeral_eq_Suc) (rule decimal.simps)

lemma of_char_digit [simp]: "of_char (digit n) = (48 + n mod 10 :: nat)"
  by (simp add: digit_def)

lemma is_digit_digit [simp]: "is_digit (digit n)"
proof -
  have "n mod 10 < 10" by simp
  then show ?thesis unfolding is_digit_def of_char_digit by linarith
qed

lemma digit_less: "a < 10 \<Longrightarrow> b < 10 \<Longrightarrow> digit a < digit b \<longleftrightarrow> a < b"
  by (simp add: less_char_def)

lemma is_digit_range: "is_digit c \<Longrightarrow> of_char c - 48 < (10::nat)"
  unfolding is_digit_def by linarith

lemma digit_of_is_digit: "is_digit c \<Longrightarrow> digit (of_char c - 48) = c"
proof -
  assume c: "is_digit c"
  then have "48 + (of_char c - 48) = (of_char c :: nat)" by (simp add: is_digit_def)
  then show ?thesis using is_digit_range [OF c] by (simp add: digit_def)
qed

lemma length_decimal [simp]: "length (decimal w n) = w"
  by (induction w arbitrary: n) auto

lemma decimal_is_digit: "list_all is_digit (decimal w n)"
  by (induction w arbitrary: n) auto

lemma undecimal_snoc: "undecimal (cs @ [c]) = 10 * undecimal cs + (of_char c - 48)"
  by (simp add: undecimal_def)

lemma undecimal_decimal: "n < 10 ^ w \<Longrightarrow> undecimal (decimal w n) = n"
proof (induction w arbitrary: n)
  case 0
  then show ?case by (simp add: undecimal_def)
next
  case (Suc w)
  then have "n div 10 < 10 ^ w" by (simp add: less_mult_imp_div_less)
  then show ?case using Suc.IH by (simp add: undecimal_snoc)
qed

lemma decimal_undecimal: "list_all is_digit cs \<Longrightarrow> decimal (length cs) (undecimal cs) = cs"
proof (induction cs rule: rev_induct)
  case (snoc c cs)
  then have c: "is_digit c" by simp
  then have "of_char c - 48 < (10::nat)" by (rule is_digit_range)
  then have "(10 * undecimal cs + (of_char c - 48)) div 10 = undecimal cs"
    and "(10 * undecimal cs + (of_char c - 48)) mod 10 = of_char c - 48" by simp_all
  moreover have "digit (10 * undecimal cs + (of_char c - 48)) = digit (of_char c - 48)"
    using calculation(2) \<open>of_char c - 48 < (10::nat)\<close> by (simp add: digit_def)
  ultimately show ?case
    using snoc digit_of_is_digit [OF c] by (simp add: undecimal_snoc)
qed simp

text \<open>The lexicographic order of texts of equal length, split at a position.\<close>

lemma lex_append:
  fixes xs ys us vs :: "'a::linorder list"
  assumes "length xs = length ys"
  shows "xs @ us < ys @ vs \<longleftrightarrow> xs < ys \<or> xs = ys \<and> us < vs"
  using assms by (induction xs ys rule: list_induct2) auto

lemma decimal_less:
  "a < 10 ^ w \<Longrightarrow> b < 10 ^ w \<Longrightarrow> decimal w a < decimal w b \<longleftrightarrow> a < b"
proof (induction w arbitrary: a b)
  case (Suc w)
  then have ab: "a div 10 < 10 ^ w" "b div 10 < 10 ^ w"
    by (simp_all add: less_mult_imp_div_less)
  have inj: "decimal w (a div 10) = decimal w (b div 10) \<longleftrightarrow> a div 10 = b div 10"
    using undecimal_decimal [OF ab(1)] undecimal_decimal [OF ab(2)] by metis
  have "digit a < digit b \<longleftrightarrow> a mod 10 < b mod 10"
    using digit_less [of "a mod 10" "b mod 10"] by (simp add: digit_def)
  moreover have "a < b \<longleftrightarrow> a div 10 < b div 10 \<or> a div 10 = b div 10 \<and> a mod 10 < b mod 10"
    using div_mult_mod_eq [of a 10] div_mult_mod_eq [of b 10]
      mod_less_divisor [of 10 a] mod_less_divisor [of 10 b] by linarith
  ultimately show ?case
    using Suc.IH [OF ab] inj by (simp add: lex_append)
qed simp

lemma decimal_eq: "a < 10 ^ w \<Longrightarrow> b < 10 ^ w \<Longrightarrow> decimal w a = decimal w b \<longleftrightarrow> a = b"
  using undecimal_decimal by metis

section \<open>Printing\<close>

text \<open>
  \<open>_as_utc(value).isoformat(timespec="microseconds").replace("+00:00", "Z")\<close>: the ISO text
  of a UTC datetime with six fractional digits.
\<close>

definition timestamp :: "datetime \<Rightarrow> string" where
  "timestamp t =
     decimal 4 (dt_year t) @ ''-'' @ decimal 2 (dt_month t) @ ''-'' @ decimal 2 (dt_day t) @ ''T'' @
     decimal 2 (dt_hour t) @ '':'' @ decimal 2 (dt_minute t) @ '':'' @ decimal 2 (dt_second t) @
     ''.'' @ decimal 6 (dt_microsecond t) @ ''Z''"

text \<open>\<open>parse_timestamp\<close>: the pattern \<open>_TIMESTAMP_RE\<close>, then the range checks of \<open>strptime\<close>.\<close>

definition timestamp_re :: "string \<Rightarrow> bool" where
  "timestamp_re s \<longleftrightarrow>
     list_all2 (\<lambda>p c. if p = CHR ''d'' then is_digit c else c = p)
       ''dddd-dd-ddTdd:dd:dd.ddddddZ'' s"

datatype canonicalization_error = CanonicalizationError string

definition parse_fields :: "string \<Rightarrow> datetime" where
  "parse_fields s =
     \<lparr>dt_year = undecimal (take 4 s), dt_month = undecimal (take 2 (drop 5 s)),
      dt_day = undecimal (take 2 (drop 8 s)), dt_hour = undecimal (take 2 (drop 11 s)),
      dt_minute = undecimal (take 2 (drop 14 s)), dt_second = undecimal (take 2 (drop 17 s)),
      dt_microsecond = undecimal (take 6 (drop 20 s))\<rparr>"

definition parse_timestamp :: "string \<Rightarrow> canonicalization_error + datetime" where
  "parse_timestamp s =
     (if \<not> timestamp_re s
      then Inl (CanonicalizationError ''timestamp must be UTC RFC 3339 with microseconds and Z suffix'')
      else if \<not> valid_datetime (parse_fields s)
      then Inl (CanonicalizationError ''invalid timestamp'')
      else Inr (parse_fields s))"

lemma valid_widths:
  assumes "valid_datetime t"
  shows "dt_year t < 10 ^ 4" "dt_month t < 10 ^ 2" "dt_day t < 10 ^ 2" "dt_hour t < 10 ^ 2"
    "dt_minute t < 10 ^ 2" "dt_second t < 10 ^ 2" "dt_microsecond t < 10 ^ 6"
proof -
  have "days_in_month (dt_year t) (dt_month t) \<le> 31" by (simp add: days_in_month_def)
  then show "dt_year t < 10 ^ 4" "dt_month t < 10 ^ 2" "dt_day t < 10 ^ 2" "dt_hour t < 10 ^ 2"
    "dt_minute t < 10 ^ 2" "dt_second t < 10 ^ 2" "dt_microsecond t < 10 ^ 6"
    using assms by (auto simp: valid_datetime_def valid_date_def)
qed

lemma timestamp_less:
  assumes "valid_datetime t" and "valid_datetime u"
  shows "timestamp t < timestamp u \<longleftrightarrow> dt_fields t < dt_fields u"
  using valid_widths [OF assms(1)] valid_widths [OF assms(2)]
  by (simp add: timestamp_def dt_fields_def lex_append decimal_less decimal_eq
      order.order_iff_strict del: decimal.simps)
    blast

lemma timestamp_pattern:
  "timestamp_re s \<longleftrightarrow> length s = 27 \<and> list_all is_digit (take 4 s) \<and> s ! 4 = CHR ''-'' \<and>
     list_all is_digit (take 2 (drop 5 s)) \<and> s ! 7 = CHR ''-'' \<and>
     list_all is_digit (take 2 (drop 8 s)) \<and> s ! 10 = CHR ''T'' \<and>
     list_all is_digit (take 2 (drop 11 s)) \<and> s ! 13 = CHR '':'' \<and>
     list_all is_digit (take 2 (drop 14 s)) \<and> s ! 16 = CHR '':'' \<and>
     list_all is_digit (take 2 (drop 17 s)) \<and> s ! 19 = CHR ''.'' \<and>
     list_all is_digit (take 6 (drop 20 s)) \<and> s ! 26 = CHR ''Z''"
proof (cases "length s = 27")
  case True
  then obtain a0 a1 a2 a3 a4 a5 a6 a7 a8 a9 b0 b1 b2 b3 b4 b5 b6 b7 b8 b9 c0 c1 c2 c3 c4 c5 c6
    where "s = [a0, a1, a2, a3, a4, a5, a6, a7, a8, a9, b0, b1, b2, b3, b4, b5, b6, b7, b8, b9,
      c0, c1, c2, c3, c4, c5, c6]"
    by (auto simp: length_Suc_conv numeral_eq_Suc)
  then show ?thesis by (auto simp: timestamp_re_def)
next
  case False
  then show ?thesis by (auto simp: timestamp_re_def dest: list_all2_lengthD)
qed

lemma parse_fields_timestamp:
  assumes "valid_datetime t"
  shows "parse_fields (timestamp t) = t"
  using valid_widths [OF assms]
  by (simp add: parse_fields_def timestamp_def undecimal_decimal del: decimal.simps)

lemma timestamp_re_timestamp: "timestamp_re (timestamp t)"
  by (simp add: timestamp_pattern timestamp_def nth_append decimal_is_digit del: decimal.simps)

lemma split_text:
  "length s = 27 \<Longrightarrow> s = take 4 s @ [s ! 4] @ take 2 (drop 5 s) @ [s ! 7] @ take 2 (drop 8 s) @
     [s ! 10] @ take 2 (drop 11 s) @ [s ! 13] @ take 2 (drop 14 s) @ [s ! 16] @
     take 2 (drop 17 s) @ [s ! 19] @ take 6 (drop 20 s) @ [s ! 26]"
  by (auto simp: length_Suc_conv numeral_eq_Suc)

lemma timestamp_parse_fields:
  assumes "timestamp_re s"
  shows "timestamp (parse_fields s) = s"
proof -
  have "decimal (length cs) (undecimal cs) = cs" if "list_all is_digit cs" for cs
    using that by (rule decimal_undecimal)
  note d = this [of "take 4 s"] this [of "take 2 (drop 5 s)"] this [of "take 2 (drop 8 s)"]
    this [of "take 2 (drop 11 s)"] this [of "take 2 (drop 14 s)"] this [of "take 2 (drop 17 s)"]
    this [of "take 6 (drop 20 s)"]
  have "timestamp (parse_fields s) = take 4 s @ [s ! 4] @ take 2 (drop 5 s) @ [s ! 7] @
     take 2 (drop 8 s) @ [s ! 10] @ take 2 (drop 11 s) @ [s ! 13] @ take 2 (drop 14 s) @
     [s ! 16] @ take 2 (drop 17 s) @ [s ! 19] @ take 6 (drop 20 s) @ [s ! 26]"
    using assms d by (simp add: timestamp_pattern timestamp_def parse_fields_def del: decimal.simps)
  then show ?thesis using split_text [of s] assms by (simp add: timestamp_pattern)
qed

section \<open>Properties\<close>

text \<open>
  The text that \<open>_timestamp\<close> persists for two valid UTC datetimes compares, as a string,
  exactly as the two instants do; so every \<^verbatim>\<open>lease_expires_at > ?\<close>, \<^verbatim>\<open>available_at <= ?\<close>
  and \<^verbatim>\<open>ORDER BY\<close> over timestamp columns is a comparison of instants.
\<close>

theorem timestamp_order:
  assumes "valid_datetime t" and "valid_datetime u"
  shows "timestamp t < timestamp u \<longleftrightarrow> to_instant t < to_instant u"
  using timestamp_less [OF assms] to_instant_less_iff [OF assms] by simp

theorem timestamp_order_witness:
  "timestamp \<lparr>dt_year = 2026, dt_month = 8, dt_day = 2, dt_hour = 9, dt_minute = 5,
     dt_second = 0, dt_microsecond = 1\<rparr> <
   timestamp \<lparr>dt_year = 2026, dt_month = 10, dt_day = 1, dt_hour = 0, dt_minute = 0,
     dt_second = 0, dt_microsecond = 0\<rparr>"
  by (subst timestamp_order)
    (simp_all add: valid_datetime_def valid_date_def days_in_month_def is_leap_def
      to_instant_less_iff dt_fields_def)

text \<open>
  Strict parsing inverts printing on every valid datetime, and printing inverts strict
  parsing on every text that parses: persisted timestamps and valid datetimes correspond
  one to one.
\<close>

theorem timestamp_roundtrip:
  "(valid_datetime t \<longrightarrow> parse_timestamp (timestamp t) = Inr t) \<and>
   (parse_timestamp s = Inr u \<longrightarrow> timestamp u = s \<and> valid_datetime u)"
  by (auto simp: parse_timestamp_def parse_fields_timestamp timestamp_re_timestamp
      timestamp_parse_fields split: if_splits)

theorem timestamp_roundtrip_witness:
  "parse_timestamp (timestamp \<lparr>dt_year = 2024, dt_month = 2, dt_day = 29, dt_hour = 23,
       dt_minute = 59, dt_second = 59, dt_microsecond = 1\<rparr>) =
     Inr \<lparr>dt_year = 2024, dt_month = 2, dt_day = 29, dt_hour = 23, dt_minute = 59,
       dt_second = 59, dt_microsecond = 1\<rparr> \<and>
   timestamp \<lparr>dt_year = 2024, dt_month = 2, dt_day = 29, dt_hour = 23, dt_minute = 59,
       dt_second = 59, dt_microsecond = 1\<rparr> = ''2024-02-29T23:59:59.000001Z''"
proof -
  have "timestamp \<lparr>dt_year = 2024, dt_month = 2, dt_day = 29, dt_hour = 23, dt_minute = 59,
       dt_second = 59, dt_microsecond = 1\<rparr> = ''2024-02-29T23:59:59.000001Z''"
    by (simp add: timestamp_def decimal_numeral digit_def char_of_def bit_0)
  moreover have "valid_datetime \<lparr>dt_year = 2024, dt_month = 2, dt_day = 29, dt_hour = 23,
      dt_minute = 59, dt_second = 59, dt_microsecond = 1\<rparr>"
    by (simp add: valid_datetime_def valid_date_def days_in_month_def is_leap_def)
  ultimately show ?thesis using timestamp_roundtrip by blast
qed

end
