(* ===== verification/Json.thy ===== *)
theory Json
  imports Timestamps
begin

text \<open>
  Canonical JSON (\<open>ingestion/canonical.py\<close>): the Python values that may reach
  \<open>normalize_json\<close>, the JSON values it produces, and \<open>normalize_json\<close> itself with every
  rejection. A model string holds code points below 256, on which Unicode's NFC
  normalisation is the identity, so \<open>_normalize_string\<close> is the identity here.
\<close>

section \<open>Values\<close>

datatype json =
    JNull
  | JBool bool
  | JInt int
  | JStr string
  | JList "json list"
  | JObj "(string \<times> json) list"

text \<open>\<open>isinstance(x, int)\<close> holds of the booleans too; \<open>d.get(k)\<close> reads a missing key as \<open>None\<close>.\<close>

fun as_int :: "json \<Rightarrow> int option" where
  "as_int (JInt n) = Some n"
| "as_int (JBool b) = Some (if b then 1 else 0)"
| "as_int _ = None"

definition dict_get :: "(string \<times> json) list \<Rightarrow> string \<Rightarrow> json" where
  "dict_get d k = (case map_of d k of None \<Rightarrow> JNull | Some v \<Rightarrow> v)"

text \<open>
  The argument of \<open>normalize_json\<close> is any Python value: a float is finite or not, a
  datetime is naive (\<open>None\<close>) or aware, a dictionary key may be a non-string, and bytes
  or other objects are unsupported.
\<close>

datatype pykey = KStr string | KOther

datatype pyval =
    PNone
  | PBool bool
  | PInt int
  | PStr string
  | PFloat bool
  | PDatetime "datetime option"
  | PDate nat nat nat
  | PList "pyval list"
  | PDict "(pykey \<times> pyval) list"
  | PUnsupported

definition normalize_string :: "string \<Rightarrow> string" where
  "normalize_string s = s"

definition format_date :: "nat \<Rightarrow> nat \<Rightarrow> nat \<Rightarrow> string" where
  "format_date y m d = decimal 4 y @ ''-'' @ decimal 2 m @ ''-'' @ decimal 2 d"

definition format_timestamp :: "datetime option \<Rightarrow> canonicalization_error + string" where
  "format_timestamp v =
     (case v of None \<Rightarrow> Inl (CanonicalizationError ''timestamp must be timezone-aware'')
      | Some t \<Rightarrow> Inr (timestamp t))"

section \<open>Normalisation\<close>

fun normalize_json :: "pyval \<Rightarrow> canonicalization_error + json"
  and normalize_items :: "pyval list \<Rightarrow> canonicalization_error + json list"
  and normalize_pairs ::
    "(pykey \<times> pyval) list \<Rightarrow> (string \<times> json) list \<Rightarrow> canonicalization_error + (string \<times> json) list"
where
  "normalize_json PNone = Inr JNull"
| "normalize_json (PBool b) = Inr (JBool b)"
| "normalize_json (PStr s) = Inr (JStr (normalize_string s))"
| "normalize_json (PInt i) = Inr (JInt i)"
| "normalize_json (PFloat is_finite) =
     (if \<not> is_finite then Inl (CanonicalizationError ''NaN and infinity are not canonical JSON'')
      else Inl (CanonicalizationError ''floats are not accepted in hash-sensitive canonical JSON; use a decimal string''))"
| "normalize_json (PDatetime v) =
     (case format_timestamp v of Inl e \<Rightarrow> Inl e | Inr s \<Rightarrow> Inr (JStr s))"
| "normalize_json (PDate y m d) = Inr (JStr (format_date y m d))"
| "normalize_json (PDict kvs) =
     (case normalize_pairs kvs [] of Inl e \<Rightarrow> Inl e | Inr ps \<Rightarrow> Inr (JObj ps))"
| "normalize_json (PList vs) =
     (case normalize_items vs of Inl e \<Rightarrow> Inl e | Inr js \<Rightarrow> Inr (JList js))"
| "normalize_json PUnsupported = Inl (CanonicalizationError ''unsupported canonical JSON value'')"
| "normalize_items [] = Inr []"
| "normalize_items (v # vs) =
     (case normalize_json v of Inl e \<Rightarrow> Inl e
      | Inr j \<Rightarrow> (case normalize_items vs of Inl e \<Rightarrow> Inl e | Inr js \<Rightarrow> Inr (j # js)))"
| "normalize_pairs [] acc = Inr acc"
| "normalize_pairs ((k, v) # kvs) acc =
     (case k of
        KOther \<Rightarrow> Inl (CanonicalizationError ''canonical JSON object keys must be strings'')
      | KStr key \<Rightarrow>
          (let n = normalize_string key
           in if n \<in> fst ` set acc
              then Inl (CanonicalizationError ''duplicate object key after Unicode normalization'')
              else (case normalize_json v of Inl e \<Rightarrow> Inl e
                    | Inr j \<Rightarrow> normalize_pairs kvs (acc @ [(n, j)]))))"

text \<open>A JSON value read back as a Python value (\<open>thaw_json\<close> of a frozen value).\<close>

fun of_json :: "json \<Rightarrow> pyval" where
  "of_json JNull = PNone"
| "of_json (JBool b) = PBool b"
| "of_json (JInt i) = PInt i"
| "of_json (JStr s) = PStr s"
| "of_json (JList js) = PList (map of_json js)"
| "of_json (JObj ps) = PDict (map (\<lambda>(k, j). (KStr k, of_json j)) ps)"

text \<open>JSON objects carry each key once, at every level.\<close>

fun wf_json :: "json \<Rightarrow> bool" where
  "wf_json (JList js) = list_all wf_json js"
| "wf_json (JObj ps) = (distinct (map fst ps) \<and> list_all (\<lambda>(k, j). wf_json j) ps)"
| "wf_json _ = True"

lemma normalize_wf:
  "normalize_json v = Inr j \<Longrightarrow> wf_json j"
  "normalize_items vs = Inr js \<Longrightarrow> list_all wf_json js"
  "normalize_pairs kvs acc = Inr ps \<Longrightarrow> wf_json (JObj acc) \<Longrightarrow> wf_json (JObj ps)"
  by (induction v and vs and kvs acc arbitrary: j and js and ps
      rule: normalize_json_normalize_items_normalize_pairs.induct)
    (auto simp: Let_def split: sum.splits if_splits pykey.splits)

lemma normalize_items_map:
  "(\<And>j. j \<in> set js \<Longrightarrow> normalize_json (of_json j) = Inr j) \<Longrightarrow>
     normalize_items (map of_json js) = Inr js"
  by (induction js) auto

lemma normalize_pairs_map:
  "(\<And>k j. (k, j) \<in> set ps \<Longrightarrow> normalize_json (of_json j) = Inr j) \<Longrightarrow>
     distinct (map fst (acc @ ps)) \<Longrightarrow>
     normalize_pairs (map (\<lambda>(k, j). (KStr k, of_json j)) ps) acc = Inr (acc @ ps)"
proof (induction ps arbitrary: acc)
  case (Cons p ps)
  obtain k j where p: "p = (k, j)" by fastforce
  have "normalize_pairs (map (\<lambda>(k, j). (KStr k, of_json j)) ps) (acc @ [p]) = Inr ((acc @ [p]) @ ps)"
    by (rule Cons.IH) (use Cons.prems in auto)
  moreover have "normalize_json (of_json j) = Inr j" using Cons.prems(1) [of k j] p by simp
  ultimately show ?case using Cons.prems(2) p by (auto simp: normalize_string_def Let_def)
qed simp

lemma normalize_of_json: "wf_json j \<Longrightarrow> normalize_json (of_json j) = Inr j"
proof (induction j)
  case (JList js)
  then have "normalize_items (map of_json js) = Inr js"
    by (intro normalize_items_map) (auto simp: list_all_iff)
  then show ?case by simp
next
  case (JObj ps)
  have "normalize_json (of_json j) = Inr j" if "(k, j) \<in> set ps" for k j
    by (rule JObj.IH [OF that]) (use JObj.prems that in \<open>auto simp: list_all_iff\<close>)
  then have "normalize_pairs (map (\<lambda>(k, j). (KStr k, of_json j)) ps) [] = Inr ([] @ ps)"
    using JObj.prems by (intro normalize_pairs_map) auto
  then show ?case by simp
qed (simp_all add: normalize_string_def)

lemma normalize_json_idem:
  "normalize_json v = Inr j \<Longrightarrow> normalize_json (of_json j) = Inr j"
  by (simp add: normalize_of_json normalize_wf)

section \<open>Canonical text\<close>

definition hex_digit :: "nat \<Rightarrow> char" where
  "hex_digit n = ''0123456789abcdef'' ! (n mod 16)"

fun nat_digits :: "nat \<Rightarrow> string" where
  "nat_digits n = (if n < 10 then [digit n] else nat_digits (n div 10) @ [digit n])"

declare nat_digits.simps [simp del]

definition int_text :: "int \<Rightarrow> string" where
  "int_text i = (if i < 0 then CHR ''-'' # nat_digits (nat (- i)) else nat_digits (nat i))"

fun join :: "string \<Rightarrow> string list \<Rightarrow> string" where
  "join sep [] = []"
| "join sep [x] = x"
| "join sep (x # y # xs) = x @ sep @ join sep (y # xs)"

text \<open>
  \<open>json.dumps(..., sort_keys=True, separators=(",", ":"), ensure_ascii=False)\<close>: object keys in
  code-point order, no spaces, and only the quote, the backslash and the control characters
  escaped.
\<close>

definition escape_char :: "char \<Rightarrow> string" where
  "escape_char c = (let n = of_char c :: nat
     in if n = 34 \<or> n = 92 then [CHR 0x5C, c]
        else if n = 8 then [CHR 0x5C, CHR ''b'']
        else if n = 9 then [CHR 0x5C, CHR ''t'']
        else if n = 10 then [CHR 0x5C, CHR ''n'']
        else if n = 12 then [CHR 0x5C, CHR ''f'']
        else if n = 13 then [CHR 0x5C, CHR ''r'']
        else if n < 32
        then [CHR 0x5C, CHR ''u'', CHR ''0'', CHR ''0'', hex_digit (n div 16), hex_digit n]
        else [c])"

definition quote_text :: "string \<Rightarrow> string" where
  "quote_text s = CHR 0x22 # concat (map escape_char s) @ [CHR 0x22]"

fun print_json :: "json \<Rightarrow> string" where
  "print_json JNull = ''null''"
| "print_json (JBool b) = (if b then ''true'' else ''false'')"
| "print_json (JInt n) = int_text n"
| "print_json (JStr s) = quote_text s"
| "print_json (JList js) = ''['' @ join '','' (map print_json js) @ '']''"
| "print_json (JObj kvs) =
     ''{'' @ join '','' (map (\<lambda>(k, t). quote_text k @ '':'' @ t)
        (sort_key fst (map (\<lambda>(k, v). (k, print_json v)) kvs))) @ ''}''"

definition canonical_json :: "pyval \<Rightarrow> canonicalization_error + string" where
  "canonical_json v = map_sum id print_json (normalize_json v)"

section \<open>Identity hashes\<close>

text \<open>
  \<open>hash_canonical\<close> over SHA-256 as an argument: a domain prefix that ends in a NUL byte, then
  the UTF-8 bytes of the canonical text.
\<close>

definition utf8 :: "string \<Rightarrow> string" where
  "utf8 s = concat (map (\<lambda>c. let n = of_char c :: nat
     in if n < 128 then [c] else [char_of (192 + n div 64), char_of (128 + n mod 64)]) s)"

definition hash_input :: "string \<Rightarrow> json \<Rightarrow> string" where
  "hash_input domain j = utf8 (''nan-fung/'' @ domain @ ''/v1'' @ [CHR 0x00]) @ utf8 (print_json j)"

definition hash_domain_ok :: "string \<Rightarrow> bool" where
  "hash_domain_ok d \<longleftrightarrow> d \<noteq> [] \<and> hd d \<in> set ''abcdefghijklmnopqrstuvwxyz'' \<and>
     list_all (\<lambda>c. c \<in> set ''abcdefghijklmnopqrstuvwxyz0123456789-'') d"

definition hash_canonical ::
  "(string \<Rightarrow> string) \<Rightarrow> string \<Rightarrow> json \<Rightarrow> canonicalization_error + string" where
  "hash_canonical sha domain j =
     (if \<not> hash_domain_ok domain
      then Inl (CanonicalizationError ''hash domain must be a lower-case identifier'')
      else Inr (sha (hash_input domain j)))"

definition request_hash :: "(string \<Rightarrow> string) \<Rightarrow> json \<Rightarrow> string" where
  "request_hash sha j = sha (hash_input ''request'' j)"

lemma request_hash_canonical: "hash_canonical sha ''request'' j = Inr (request_hash sha j)"
  by (simp add: hash_canonical_def hash_domain_ok_def request_hash_def)

end
