(* ===== verification/Redaction.thy ===== *)
theory Redaction
  imports Json "HOL-Library.Sublist"
begin

text \<open>
  The redaction half of \<open>ingestion/policies.py\<close>: the sensitive-key pattern, \<open>redact_url\<close>,
  \<open>redact_headers\<close> and \<open>redact_secrets\<close>, and Python's case mapping, stripping, \<open>str\<close> and
  \<open>repr\<close> on the strings of the model (code points below 256).

  \<open>urllib.parse\<close> is an argument: \<open>ul_parse\<close> is \<open>urlparse\<close> with the component properties read
  out (\<open>None\<close> where \<open>urlparse\<close> raises \<open>ValueError\<close>, \<open>up_port = None\<close> where \<open>.port\<close> does,
  \<open>up_port = Some None\<close> for no port), \<open>ul_qsl\<close> is
  \<open>parse_qsl(..., keep_blank_values=True)\<close>, \<open>ul_encode\<close> is \<open>urlencode(..., doseq=True)\<close> and
  \<open>ul_unparse\<close> is \<open>urlunparse\<close>. Nothing is assumed of them.
\<close>

section \<open>Strings\<close>

definition lower_char :: "char \<Rightarrow> char" where
  "lower_char c = (let n = of_char c :: nat
     in if (65 \<le> n \<and> n \<le> 90) \<or> (192 \<le> n \<and> n \<le> 222 \<and> n \<noteq> 215) then char_of (n + 32) else c)"

definition lower :: "string \<Rightarrow> string" where
  "lower s = map lower_char s"

text \<open>
  \<open>upper\<close> on ASCII and Latin-1; the three letters whose upper case is not a single code point
  below 256 (micro sign, sharp s, y with diaeresis) are left alone.
\<close>

definition upper_char :: "char \<Rightarrow> char" where
  "upper_char c = (let n = of_char c :: nat
     in if (97 \<le> n \<and> n \<le> 122) \<or> (224 \<le> n \<and> n \<le> 254 \<and> n \<noteq> 247) then char_of (n - 32) else c)"

definition upper :: "string \<Rightarrow> string" where
  "upper s = map upper_char s"

definition is_space :: "char \<Rightarrow> bool" where
  "is_space c = (let n = of_char c :: nat
     in (9 \<le> n \<and> n \<le> 13) \<or> (28 \<le> n \<and> n \<le> 32) \<or> n = 133 \<or> n = 160)"

definition rstrip :: "(char \<Rightarrow> bool) \<Rightarrow> string \<Rightarrow> string" where
  "rstrip P s = rev (dropWhile P (rev s))"

definition strip :: "string \<Rightarrow> string" where
  "strip s = rstrip is_space (dropWhile is_space s)"

text \<open>\<open>needle in haystack\<close>\<close>

definition contains :: "string \<Rightarrow> string \<Rightarrow> bool" where
  "contains needle s = list_ex (prefix needle) (suffixes s)"

lemma contains_sublist: "contains p s \<longleftrightarrow> sublist p s"
  by (auto simp: contains_def list_ex_iff sublist_altdef')

lemma lower_char_idem: "lower_char (lower_char c) = lower_char c"
proof -
  let ?n = "of_char c :: nat"
  have "of_char (char_of (?n + 32) :: char) = ?n + 32" if "?n \<le> 222"
    using that by simp
  then show ?thesis by (auto simp: lower_char_def Let_def)
qed

lemma lower_idem [simp]: "lower (lower s) = lower s"
  by (simp add: lower_def lower_char_idem)

section \<open>Python's text of a JSON value\<close>

definition repr_char :: "char \<Rightarrow> char \<Rightarrow> string" where
  "repr_char q c = (let n = of_char c :: nat
     in if c = q \<or> n = 92 then [CHR 0x5C, c]
        else if n = 9 then [CHR 0x5C, CHR ''t'']
        else if n = 10 then [CHR 0x5C, CHR ''n'']
        else if n = 13 then [CHR 0x5C, CHR ''r'']
        else if n < 32 \<or> (127 \<le> n \<and> n \<le> 160) \<or> n = 173
        then [CHR 0x5C, CHR ''x'', hex_digit (n div 16), hex_digit n]
        else [c])"

definition repr_string :: "string \<Rightarrow> string" where
  "repr_string s = (let q = (if CHR 0x27 \<in> set s \<and> CHR 0x22 \<notin> set s then CHR 0x22 else CHR 0x27)
     in q # concat (map (repr_char q) s) @ [q])"

fun repr_json :: "json \<Rightarrow> string" where
  "repr_json JNull = ''None''"
| "repr_json (JBool b) = (if b then ''True'' else ''False'')"
| "repr_json (JInt n) = int_text n"
| "repr_json (JStr s) = repr_string s"
| "repr_json (JList js) = ''['' @ join '', '' (map repr_json js) @ '']''"
| "repr_json (JObj kvs) =
     ''{'' @ join '', '' (map (\<lambda>(k, v). repr_string k @ '': '' @ repr_json v) kvs) @ ''}''"

text \<open>\<open>str(value)\<close>\<close>

fun py_str :: "json \<Rightarrow> string" where
  "py_str (JStr s) = s"
| "py_str j = repr_json j"

section \<open>Redaction\<close>

definition REDACTED_VALUE :: string where
  "REDACTED_VALUE = ''<redacted>''"

text \<open>
  The alternatives of \<open>_SENSITIVE_KEY\<close>, with the optional separator written out. Case-insensitive
  search on the model's strings is search in the lower-cased key.
\<close>

definition sensitive_words :: "string list" where
  "sensitive_words =
     [''authorization'', ''cookie'', ''apikey'', ''api_key'', ''api-key'', ''accesstoken'',
      ''access_token'', ''access-token'', ''refreshtoken'', ''refresh_token'', ''refresh-token'',
      ''token'', ''secret'', ''signature'', ''password'', ''passwd'', ''credential'',
      ''proxy-authorization'']"

definition sensitive_key :: "string \<Rightarrow> bool" where
  "sensitive_key k = list_ex (\<lambda>w. contains w (lower k)) sensitive_words"

definition safe_persisted_headers :: "string list" where
  "safe_persisted_headers =
     [''accept'', ''content-length'', ''content-type'', ''etag'', ''if-modified-since'',
      ''if-none-match'', ''last-modified'', ''location'', ''range'', ''retry-after'', ''user-agent'']"

datatype policy_error = PolicyError string | UrlValueError

record url_parts =
  up_scheme :: string
  up_username :: "string option"
  up_password :: "string option"
  up_hostname :: "string option"
  up_port :: "int option option"
  up_path :: string
  up_params :: string
  up_query :: string
  up_fragment :: string

record urllib =
  ul_parse :: "string \<Rightarrow> url_parts option"
  ul_qsl :: "string \<Rightarrow> (string \<times> string) list"
  ul_encode :: "(string \<times> string) list \<Rightarrow> string"
  ul_unparse :: "string \<times> string \<times> string \<times> string \<times> string \<times> string \<Rightarrow> string"

definition redact_query :: "(string \<times> string) list \<Rightarrow> (string \<times> string) list" where
  "redact_query q = map (\<lambda>(k, v). (k, if sensitive_key k then REDACTED_VALUE else v)) q"

definition redact_url :: "urllib \<Rightarrow> string \<Rightarrow> policy_error + string" where
  "redact_url ul url =
     (case ul_parse ul url of
        None \<Rightarrow> Inl UrlValueError
      | Some p \<Rightarrow>
          (let query = redact_query (ul_qsl ul (up_query p));
               host = (case up_hostname p of None \<Rightarrow> [] | Some h \<Rightarrow> h)
           in case up_port p of
                None \<Rightarrow> Inl UrlValueError
              | Some port \<Rightarrow>
                  (let netloc = (case port of None \<Rightarrow> host | Some n \<Rightarrow> host @ '':'' @ int_text n)
                   in Inr (ul_unparse ul
                        (up_scheme p, netloc, up_path p, up_params p, ul_encode ul query, [])))))"

definition redact_headers :: "string list \<Rightarrow> (string \<times> string) list \<Rightarrow> (string \<times> string) list" where
  "redact_headers allowed headers =
     map (\<lambda>(k, v). (k, if sensitive_key k then REDACTED_VALUE else v))
       (filter (\<lambda>(k, v). lower k \<in> lower ` set allowed) headers)"

definition url_keys :: "string list" where
  "url_keys = [''url'', ''source_url'', ''final_url'', ''base_url'']"

text \<open>
  \<open>{str(header): str(header_value) ...}\<close>: the keys of a JSON object are strings already.
\<close>

definition header_pairs :: "(string \<times> json) list \<Rightarrow> (string \<times> string) list" where
  "header_pairs kvs = map (\<lambda>(k, v). (k, py_str v)) kvs"

fun redact_secrets :: "urllib \<Rightarrow> json \<Rightarrow> policy_error + json"
  and redact_pairs :: "urllib \<Rightarrow> (string \<times> json) list \<Rightarrow> policy_error + (string \<times> json) list"
  and redact_list :: "urllib \<Rightarrow> json list \<Rightarrow> policy_error + json list"
where
  "redact_secrets ul (JObj kvs) = map_sum id JObj (redact_pairs ul kvs)"
| "redact_secrets ul (JList js) = map_sum id JList (redact_list ul js)"
| "redact_secrets ul JNull = Inr JNull"
| "redact_secrets ul (JBool b) = Inr (JBool b)"
| "redact_secrets ul (JInt n) = Inr (JInt n)"
| "redact_secrets ul (JStr s) = Inr (JStr s)"
| "redact_pairs ul [] = Inr []"
| "redact_pairs ul ((key, item) # kvs) =
     (let r = (if sensitive_key key then Inr (JStr REDACTED_VALUE)
               else case item of
                 JStr s \<Rightarrow> if lower key \<in> set url_keys then map_sum id JStr (redact_url ul s)
                           else redact_secrets ul item
               | JObj hs \<Rightarrow> if lower key = ''headers''
                     then Inr (JObj (map (\<lambda>(k, v). (k, JStr v))
                            (redact_headers safe_persisted_headers (header_pairs hs))))
                     else redact_secrets ul item
               | _ \<Rightarrow> redact_secrets ul item)
      in case r of Inl e \<Rightarrow> Inl e
         | Inr v \<Rightarrow> (case redact_pairs ul kvs of Inl e \<Rightarrow> Inl e | Inr vs \<Rightarrow> Inr ((key, v) # vs)))"
| "redact_list ul [] = Inr []"
| "redact_list ul (j # js) =
     (case redact_secrets ul j of Inl e \<Rightarrow> Inl e
      | Inr v \<Rightarrow> (case redact_list ul js of Inl e \<Rightarrow> Inl e | Inr vs \<Rightarrow> Inr (v # vs)))"

section \<open>Properties\<close>

text \<open>No object of the value carries anything but the marker under a sensitive key.\<close>

fun secret_free :: "json \<Rightarrow> bool" where
  "secret_free (JObj kvs) =
     list_all (\<lambda>(k, v). (sensitive_key k \<longrightarrow> v = JStr REDACTED_VALUE) \<and> secret_free v) kvs"
| "secret_free (JList js) = list_all secret_free js"
| "secret_free _ = True"

lemma redact_headers_secret_free:
  "secret_free (JObj (map (\<lambda>(k, v). (k, JStr v)) (redact_headers allowed hs)))"
  by (auto simp: redact_headers_def list_all_iff)

lemma redact_secret_free:
  "redact_secrets ul j = Inr j' \<Longrightarrow> secret_free j'"
  "redact_pairs ul kvs = Inr kvs' \<Longrightarrow> secret_free (JObj kvs')"
  "redact_list ul js = Inr js' \<Longrightarrow> secret_free (JList js')"
proof (induction ul j and ul kvs and ul js arbitrary: j' and kvs' and js'
    rule: redact_secrets_redact_pairs_redact_list.induct)
  case (8 ul key item kvs)
  then obtain v vs where vs: "kvs' = (key, v) # vs" "redact_pairs ul kvs = Inr vs"
    by (auto simp: Let_def split: sum.splits)
  have "(sensitive_key key \<longrightarrow> v = JStr REDACTED_VALUE) \<and> secret_free v"
    using 8 vs redact_headers_secret_free
    by (auto simp: Let_def map_sum_Inr split: sum.splits if_splits json.splits)
  then show ?case using 8 vs by (simp add: Let_def split: sum.splits)
qed (auto simp: map_sum_Inr split: sum.splits)

text \<open>The redacted object keeps its keys, in order; only values change.\<close>

lemma redact_pairs_keys: "redact_pairs ul kvs = Inr kvs' \<Longrightarrow> map fst kvs' = map fst kvs"
proof (induction kvs arbitrary: kvs')
  case (Cons kv kvs)
  obtain key item where kv: "kv = (key, item)" by (cases kv)
  show ?case using Cons.prems Cons.IH unfolding kv
    by (simp add: Let_def) (auto split: sum.splits)
qed simp

definition no_urls :: urllib where
  "no_urls = \<lparr>ul_parse = (\<lambda>_. None), ul_qsl = (\<lambda>_. []), ul_encode = (\<lambda>_. []),
     ul_unparse = (\<lambda>_. [])\<rparr>"

text \<open>
  What \<open>redact_secrets\<close> returns holds no secret: at every depth, an object entry whose key
  matches the sensitive-key pattern carries only the redaction marker. The keys of the
  outermost object are kept in order.
\<close>

theorem redaction_complete:
  assumes "redact_secrets ul (JObj kvs) = Inr j'"
  shows "secret_free j' \<and> (\<exists>kvs'. j' = JObj kvs' \<and> map fst kvs' = map fst kvs)"
proof -
  obtain kvs' where "redact_pairs ul kvs = Inr kvs'" "j' = JObj kvs'"
    using assms by (cases "redact_pairs ul kvs") auto
  then show ?thesis using redact_secret_free(1) [OF assms] redact_pairs_keys by blast
qed

theorem redaction_complete_witness:
  "\<exists>j'. redact_secrets no_urls
     (JObj [(''API-Key'', JStr ''k''), (''n'', JList [JObj [(''password'', JInt 1)]])]) = Inr j' \<and>
     secret_free j' \<and> j' \<noteq> JObj [(''API-Key'', JStr ''k''), (''n'', JList [JObj [(''password'', JInt 1)]])]"
proof -
  let ?j = "JObj [(''API-Key'', JStr REDACTED_VALUE),
    (''n'', JList [JObj [(''password'', JStr REDACTED_VALUE)]])]"
  have low: "lower ''API-Key'' = ''api-key''" "lower ''n'' = ''n''" "lower ''password'' = ''password''"
    by (simp_all add: lower_def lower_char_def char_of_def bit_0)
  have k: "sensitive_key ''API-Key''" "\<not> sensitive_key ''n''" "sensitive_key ''password''"
    unfolding sensitive_key_def low sensitive_words_def contains_def by simp_all
  have r: "redact_secrets no_urls
     (JObj [(''API-Key'', JStr ''k''), (''n'', JList [JObj [(''password'', JInt 1)]])]) = Inr ?j"
    by (simp add: k)
  show ?thesis using redaction_complete [OF r] r by (simp add: REDACTED_VALUE_def)
qed

end
