(* ===== verification/Policies.thy ===== *)
theory Policies
  imports Complex_Main Redaction
begin

text \<open>
  The acquisition half of \<open>ingestion/policies.py\<close>: \<open>ArtifactPolicy\<close> and \<open>SourcePolicy\<close>, host
  allow-listing, \<open>validate_request_url\<close>, and the artifact validators (size, media type, ZIP
  members, PDF, HTML), both on bytes in memory and on a file read in chunks.

  Arguments stand for the libraries the code calls: \<open>ul\<close> for \<open>urllib.parse\<close> (see
  \<open>Redaction\<close>), \<open>ip\<close> for \<open>ipaddress\<close>, the DNS resolver, and \<open>zip_infolist\<close> for
  \<open>ZipFile(...).infolist()\<close> (\<open>None\<close> for \<open>BadZipFile\<close>). Bytes are the characters of a HOL
  string. The float quotient \<open>file_size / compress_size\<close> is an exact rational.
\<close>

section \<open>Policies\<close>

record artifact_policy =
  ap_max_bytes :: int
  ap_allowed_media_types :: "string list"
  ap_max_archive_members :: int
  ap_max_expanded_bytes :: int
  ap_max_compression_ratio :: int

definition artifact_policy_post_init :: "artifact_policy \<Rightarrow> policy_error option" where
  "artifact_policy_post_init p =
     (if ap_max_bytes p < 0 then Some (PolicyError ''max_bytes must be non-negative'')
      else if ap_max_archive_members p < 1
      then Some (PolicyError ''max_archive_members must be at least one'')
      else if ap_max_expanded_bytes p < 0
      then Some (PolicyError ''max_expanded_bytes must be non-negative'')
      else if ap_max_compression_ratio p < 1
      then Some (PolicyError ''max_compression_ratio must be at least one'')
      else None)"

definition default_artifact_policy :: artifact_policy where
  "default_artifact_policy =
     \<lparr>ap_max_bytes = 25 * 1024 * 1024, ap_allowed_media_types = [], ap_max_archive_members = 1000,
      ap_max_expanded_bytes = 1024 * 1024 * 1024, ap_max_compression_ratio = 100\<rparr>"

record source_policy =
  sp_allowed_hosts :: "string list"
  sp_allowed_methods :: "string list"
  sp_allowed_query_keys :: "string list"
  sp_allowed_request_headers :: "string list"
  sp_require_https :: bool
  sp_max_redirects :: int
  sp_artifact :: artifact_policy

definition normalize_host :: "string \<Rightarrow> policy_error + string" where
  "normalize_host value =
     (let host = lower (rstrip (\<lambda>c. c = CHR ''.'') (strip value))
      in if prefix ''*.'' host
         then if host = ''*.'' \<or> CHR ''.'' \<notin> set (drop 2 host)
              then Inl (PolicyError (''invalid wildcard host: '' @ repr_string value))
              else Inr host
         else if host = [] \<or> CHR ''/'' \<in> set host \<or> CHR '':'' \<in> set host \<or> CHR ''@'' \<in> set host
         then Inl (PolicyError (''invalid host: '' @ repr_string value))
         else Inr host)"

fun normalize_hosts :: "string list \<Rightarrow> policy_error + string list" where
  "normalize_hosts [] = Inr []"
| "normalize_hosts (h # hs) =
     (case normalize_host h of Inl e \<Rightarrow> Inl e
      | Inr n \<Rightarrow> (case normalize_hosts hs of Inl e \<Rightarrow> Inl e | Inr ns \<Rightarrow> Inr (n # ns)))"

definition source_policy_init :: "source_policy \<Rightarrow> policy_error + source_policy" where
  "source_policy_init p =
     (case normalize_hosts (sp_allowed_hosts p) of
        Inl e \<Rightarrow> Inl e
      | Inr hosts \<Rightarrow>
          if hosts = [] then Inl (PolicyError ''at least one allowed host is required'')
          else if [] \<in> set hosts then Inl (PolicyError ''allowed hosts cannot be empty'')
          else if sp_allowed_methods p = []
          then Inl (PolicyError ''at least one allowed method is required'')
          else if sp_max_redirects p < 0 \<or> 5 < sp_max_redirects p
          then Inl (PolicyError ''max_redirects must be between 0 and 5'')
          else Inr (p\<lparr>sp_allowed_hosts := hosts,
                 sp_allowed_methods := map upper (sp_allowed_methods p),
                 sp_allowed_query_keys := map lower (sp_allowed_query_keys p),
                 sp_allowed_request_headers := map lower (sp_allowed_request_headers p)\<rparr>))"

section \<open>Request targets\<close>

fun host_in :: "string \<Rightarrow> string list \<Rightarrow> bool" where
  "host_in normalized [] = False"
| "host_in normalized (allowed # rest) =
     (if prefix ''*.'' allowed
      then (let tl_allowed = drop 1 allowed
            in if suffix tl_allowed normalized \<and> normalized \<noteq> drop 1 tl_allowed then True
               else host_in normalized rest)
      else if normalized = allowed then True else host_in normalized rest)"

definition host_allowed :: "string \<Rightarrow> string list \<Rightarrow> policy_error + bool" where
  "host_allowed host allowed_hosts =
     (case normalize_host host of Inl e \<Rightarrow> Inl e | Inr n \<Rightarrow> Inr (host_in n allowed_hosts))"

record iplib =
  ip_text :: "string \<Rightarrow> string option"
  ip_is_global :: "string \<Rightarrow> bool"
  ip_is_multicast :: "string \<Rightarrow> bool"

definition is_public_address :: "iplib \<Rightarrow> string \<Rightarrow> bool" where
  "is_public_address ip value =
     (case ip_text ip value of None \<Rightarrow> False
      | Some _ \<Rightarrow> ip_is_global ip value \<and> \<not> ip_is_multicast ip value)"

type_synonym resolver = "string \<Rightarrow> policy_error + string list"

definition resolve_public_addresses ::
  "iplib \<Rightarrow> string \<Rightarrow> resolver \<Rightarrow> policy_error + string list" where
  "resolve_public_addresses ip host resolver =
     (case resolver host of Inl e \<Rightarrow> Inl e
      | Inr addresses \<Rightarrow>
          if addresses = [] \<or> list_ex (\<lambda>a. \<not> is_public_address ip a) addresses
          then Inl (PolicyError ''URL resolves to a non-public address'')
          else Inr addresses)"

text \<open>The checks that need only the parsed URL, up to the host name.\<close>

definition check_target :: "iplib \<Rightarrow> source_policy \<Rightarrow> url_parts \<Rightarrow> policy_error + string" where
  "check_target ip policy p =
     (if truthy (up_username p) \<or> truthy (up_password p)
      then Inl (PolicyError ''URL userinfo is not allowed'')
      else if up_fragment p \<noteq> []
      then Inl (PolicyError ''URL fragments are not valid acquisition targets'')
      else if sp_require_https policy \<and> lower (up_scheme p) \<noteq> ''https''
      then Inl (PolicyError ''HTTPS is required by source policy'')
      else if lower (up_scheme p) \<notin> {''https'', ''http''}
      then Inl (PolicyError ''unsupported URL scheme'')
      else case up_hostname p of
        None \<Rightarrow> Inl (PolicyError ''URL hostname is required'')
      | Some h \<Rightarrow>
          if h = [] then Inl (PolicyError ''URL hostname is required'')
          else if (case ip_text ip h of None \<Rightarrow> False | Some a \<Rightarrow> \<not> is_public_address ip a)
          then Inl (PolicyError ''URL uses a private, loopback, or otherwise unsafe IP literal'')
          else Inr h)"

definition validate_request_url ::
  "urllib \<Rightarrow> iplib \<Rightarrow> string \<Rightarrow> source_policy \<Rightarrow> string \<Rightarrow> resolver option \<Rightarrow>
   policy_error + url_parts" where
  "validate_request_url ul ip url policy meth resolver =
     (if url = [] then Inl (PolicyError ''URL is required'')
      else case ul_parse ul url of
        None \<Rightarrow> Inl UrlValueError
      | Some p \<Rightarrow>
          (case check_target ip policy p of
             Inl e \<Rightarrow> Inl e
           | Inr h \<Rightarrow>
               (case up_port p of
                  None \<Rightarrow> Inl UrlValueError
                | Some port \<Rightarrow>
                    if port \<noteq> None \<and> port \<noteq> Some 443
                    then Inl (PolicyError ''non-default URL port is not allowed'')
                    else case host_allowed h (sp_allowed_hosts policy) of
                      Inl e \<Rightarrow> Inl e
                    | Inr ok \<Rightarrow>
                        if \<not> ok then Inl (PolicyError ''URL host is not allowlisted'')
                        else if upper meth \<notin> set (sp_allowed_methods policy)
                        then Inl (PolicyError (''method is not allowed: '' @ upper meth))
                        else let query_keys = map (\<lambda>(k, _). lower k) (ul_qsl ul (up_query p))
                             in if sp_allowed_query_keys policy \<noteq> [] \<and>
                                   \<not> set query_keys \<subseteq> set (sp_allowed_query_keys policy)
                                then Inl (PolicyError
                                  ''URL includes a query key not approved by source policy'')
                                else case resolver of
                                  None \<Rightarrow> Inr p
                                | Some r \<Rightarrow>
                                    (case resolve_public_addresses ip h r of
                                       Inl e \<Rightarrow> Inl e | Inr _ \<Rightarrow> Inr p))))"

definition validate_source_url ::
  "urllib \<Rightarrow> iplib \<Rightarrow> string \<Rightarrow> source_policy \<Rightarrow> string \<Rightarrow> resolver option \<Rightarrow>
   policy_error + url_parts" where
  "validate_source_url = validate_request_url"

text \<open>The validation without a resolver, then one resolution: \<open>r\<close> is the given or the default one.\<close>

definition validated_source_addresses ::
  "urllib \<Rightarrow> iplib \<Rightarrow> string \<Rightarrow> source_policy \<Rightarrow> string \<Rightarrow> resolver \<Rightarrow> policy_error + string list"
where
  "validated_source_addresses ul ip url policy meth r =
     (case validate_request_url ul ip url policy meth None of
        Inl e \<Rightarrow> Inl e
      | Inr p \<Rightarrow> resolve_public_addresses ip (case up_hostname p of None \<Rightarrow> [] | Some h \<Rightarrow> h) r)"

section \<open>Artifacts\<close>

definition validate_artifact_size :: "int \<Rightarrow> artifact_policy \<Rightarrow> policy_error option" where
  "validate_artifact_size byte_size policy =
     (if byte_size < 0 then Some (PolicyError ''artifact byte size cannot be negative'')
      else if ap_max_bytes policy < byte_size
      then Some (PolicyError (''artifact exceeds policy maximum ('' @ int_text byte_size @ '' > '' @
        int_text (ap_max_bytes policy) @ '')''))
      else None)"

text \<open>\<open>(media_type or "").split(";", 1)[0].strip().lower()\<close>\<close>

definition media_base :: "string \<Rightarrow> string" where
  "media_base m = lower (strip (takeWhile (\<lambda>c. c \<noteq> CHR '';'') m))"

definition validate_media_type :: "string option \<Rightarrow> artifact_policy \<Rightarrow> policy_error option" where
  "validate_media_type media_type policy =
     (case media_type of
        None \<Rightarrow> None
      | Some m \<Rightarrow>
          if ap_allowed_media_types policy = [] then None
          else if media_base m \<notin> lower ` set (ap_allowed_media_types policy)
          then Some (PolicyError (''media type is not allowed: '' @ repr_string m))
          else None)"

record zip_member =
  zm_filename :: string
  zm_external_attr :: nat
  zm_file_size :: nat
  zm_compress_size :: nat

fun split_on :: "char \<Rightarrow> string \<Rightarrow> string list" where
  "split_on d [] = [[]]"
| "split_on d (c # cs) =
     (if c = d then [] # split_on d cs
      else case split_on d cs of [] \<Rightarrow> [[c]] | w # ws \<Rightarrow> (c # w) # ws)"

text \<open>\<open>PurePosixPath\<close> drops empty and \<open>.\<close> components; \<open>..\<close> stays a component.\<close>

definition unsafe_member_path :: "string \<Rightarrow> bool" where
  "unsafe_member_path name =
     (prefix ''/'' name \<or>
      ''..'' \<in> set (filter (\<lambda>w. w \<noteq> [] \<and> w \<noteq> ''.'') (split_on (CHR ''/'') name)) \<or>
      CHR 0x5C \<in> set name)"

definition is_symlink_mode :: "nat \<Rightarrow> bool" where
  "is_symlink_mode mode = (mode div 4096 mod 16 = 10)"

fun zip_loop :: "artifact_policy \<Rightarrow> int \<Rightarrow> int \<Rightarrow> zip_member list \<Rightarrow> policy_error option" where
  "zip_loop policy expanded cnt [] = None"
| "zip_loop policy expanded cnt (m # ms) =
     (let cnt = cnt + 1; mode = zm_external_attr m div 65536
      in if ap_max_archive_members policy < cnt
         then Some (PolicyError ''archive exceeds member count limit'')
         else if unsafe_member_path (zm_filename m)
         then Some (PolicyError (''unsafe archive member path: '' @ repr_string (zm_filename m)))
         else if mode \<noteq> 0 \<and> is_symlink_mode mode
         then Some (PolicyError (''symlink archive member is not allowed: '' @
           repr_string (zm_filename m)))
         else let expanded = expanded + int (zm_file_size m)
              in if ap_max_expanded_bytes policy < expanded
                 then Some (PolicyError ''archive exceeds expanded byte limit'')
                 else if zm_file_size m \<noteq> 0 \<and> zm_compress_size m = 0
                 then Some (PolicyError ''archive member has an invalid compression size'')
                 else if zm_compress_size m \<noteq> 0 \<and>
                    of_int (ap_max_compression_ratio policy) <
                      (of_nat (zm_file_size m) / of_nat (zm_compress_size m) :: rat)
                 then Some (PolicyError ''archive member exceeds compression ratio limit'')
                 else zip_loop policy expanded cnt ms)"

definition validate_zip_members :: "zip_member list \<Rightarrow> artifact_policy \<Rightarrow> policy_error option" where
  "validate_zip_members members policy = zip_loop policy 0 0 members"

type_synonym infolist = "string \<Rightarrow> zip_member list option"

definition validate_zip_container :: "infolist \<Rightarrow> string \<Rightarrow> artifact_policy \<Rightarrow> policy_error option" where
  "validate_zip_container zip_infolist content policy =
     (case zip_infolist content of
        None \<Rightarrow> Some (PolicyError ''artifact is not a valid ZIP container'')
      | Some members \<Rightarrow> validate_zip_members members policy)"

definition validate_zip_artifact :: "infolist \<Rightarrow> string \<Rightarrow> artifact_policy \<Rightarrow> policy_error option" where
  "validate_zip_artifact zip_infolist content policy =
     (case validate_artifact_size (int (length content)) policy of
        Some e \<Rightarrow> Some e
      | None \<Rightarrow> validate_zip_container zip_infolist content policy)"

text \<open>\<open>bytes.count\<close>: occurrences that do not overlap, from the left.\<close>

function count_bytes :: "string \<Rightarrow> string \<Rightarrow> int" where
  "count_bytes p [] = 0"
| "count_bytes p (c # cs) =
     (if p \<noteq> [] \<and> prefix p (c # cs) then 1 + count_bytes p (drop (length p) (c # cs))
      else count_bytes p cs)"
  by pat_completeness auto
termination
  by (relation "measure (\<lambda>(p, s). length s)") (auto simp: neq_Nil_conv)

definition page_marker :: string where
  "page_marker = ''/Type /Page''"

definition forbidden_markers :: "string list" where
  "forbidden_markers = [''/Encrypt'', ''/JavaScript'', ''/JS'', ''/Launch'', ''/EmbeddedFile'']"

definition validate_pdf_artifact :: "string \<Rightarrow> artifact_policy \<Rightarrow> policy_error option" where
  "validate_pdf_artifact content policy =
     (case validate_artifact_size (int (length content)) policy of
        Some e \<Rightarrow> Some e
      | None \<Rightarrow>
          if \<not> prefix ''%PDF-'' content then Some (PolicyError ''artifact is not a PDF document'')
          else if 500 < count_bytes page_marker content
          then Some (PolicyError ''PDF exceeds page limit'')
          else if list_ex (\<lambda>f. contains f content) forbidden_markers
          then Some (PolicyError ''PDF contains an unsupported active or encrypted feature'')
          else None)"

definition validate_html_artifact :: "string \<Rightarrow> artifact_policy \<Rightarrow> policy_error option" where
  "validate_html_artifact content policy =
     (case validate_artifact_size (int (length content)) policy of
        Some e \<Rightarrow> Some e
      | None \<Rightarrow>
          if contains [CHR 0x00] content then Some (PolicyError ''HTML artifact contains NUL bytes'')
          else None)"

definition zip_media_types :: "string set" where
  "zip_media_types =
     {''application/zip'', ''application/x-zip-compressed'',
      ''application/vnd.openxmlformats-officedocument.spreadsheetml.sheet'',
      ''application/vnd.oasis.opendocument.spreadsheet''}"

definition zip_magic :: string where
  "zip_magic = [CHR ''P'', CHR ''K'', CHR 0x03, CHR 0x04]"

definition normalized_media :: "string option \<Rightarrow> string" where
  "normalized_media media_type = media_base (case media_type of None \<Rightarrow> [] | Some m \<Rightarrow> m)"

definition validate_artifact_bytes ::
  "infolist \<Rightarrow> string \<Rightarrow> string option \<Rightarrow> artifact_policy \<Rightarrow> policy_error option" where
  "validate_artifact_bytes zip_infolist content media_type policy =
     (case validate_artifact_size (int (length content)) policy of
        Some e \<Rightarrow> Some e
      | None \<Rightarrow>
     (case validate_media_type media_type policy of
        Some e \<Rightarrow> Some e
      | None \<Rightarrow>
          (let normalized = normalized_media media_type
           in if prefix zip_magic content \<or> normalized \<in> zip_media_types
              then validate_zip_artifact zip_infolist content policy
              else if prefix ''%PDF-'' content \<or> normalized = ''application/pdf''
              then validate_pdf_artifact content policy
              else if normalized \<in> {''text/html'', ''application/xhtml+xml''}
              then validate_html_artifact content policy
              else None)))"

section \<open>Artifacts in files\<close>

text \<open>\<open>artifact.read(n)\<close> until it returns no bytes.\<close>

function read_chunks :: "nat \<Rightarrow> string \<Rightarrow> string list" where
  "read_chunks n s = (if s = [] \<or> n = 0 then [] else take n s # read_chunks n (drop n s))"
  by pat_completeness auto
termination by (relation "measure (\<lambda>(n, s). length s)") auto

declare read_chunks.simps [simp del]

text \<open>\<open>window[-k:] if k else b""\<close>\<close>

definition last_bytes :: "nat \<Rightarrow> string \<Rightarrow> string" where
  "last_bytes k w = drop (length w - k) w"

fun marker_loop ::
  "string list \<Rightarrow> nat \<Rightarrow> string list \<Rightarrow> (string \<Rightarrow> int) \<Rightarrow> string \<Rightarrow> string \<Rightarrow> int" where
  "marker_loop markers overlap [] counts tail = counts"
| "marker_loop markers overlap (chunk # chunks) counts tail =
     (let window = tail @ chunk
      in marker_loop markers overlap chunks
           (\<lambda>m. if m \<in> set markers then counts m + (count_bytes m window - count_bytes m tail)
                else counts m)
           (last_bytes overlap window))"

definition count_file_markers :: "string \<Rightarrow> string list \<Rightarrow> string \<Rightarrow> int" where
  "count_file_markers content markers =
     (let overlap = (if markers = [] then 1 else Max (length ` set markers)) - 1
      in marker_loop markers overlap (read_chunks (64 * 1024) content) (\<lambda>_. 0) [])"

definition validate_pdf_file :: "string \<Rightarrow> policy_error option" where
  "validate_pdf_file content =
     (if \<not> prefix ''%PDF-'' (take 5 content)
      then Some (PolicyError ''artifact is not a PDF document'')
      else let counts = count_file_markers content (page_marker # forbidden_markers)
           in if 500 < counts page_marker then Some (PolicyError ''PDF exceeds page limit'')
              else if list_ex (\<lambda>m. counts m \<noteq> 0) forbidden_markers
              then Some (PolicyError ''PDF contains an unsupported active or encrypted feature'')
              else None)"

definition validate_html_file :: "string \<Rightarrow> policy_error option" where
  "validate_html_file content =
     (if count_file_markers content [[CHR 0x00]] [CHR 0x00] \<noteq> 0
      then Some (PolicyError ''HTML artifact contains NUL bytes'') else None)"

text \<open>The content of the file, \<open>None\<close> if it cannot be read.\<close>

definition validate_artifact_file ::
  "infolist \<Rightarrow> string option \<Rightarrow> int \<Rightarrow> string option \<Rightarrow> artifact_policy \<Rightarrow> policy_error option" where
  "validate_artifact_file zip_infolist file byte_size media_type policy =
     (case file of
        None \<Rightarrow> Some (PolicyError ''artifact temporary file is unavailable'')
      | Some content \<Rightarrow>
          if int (length content) \<noteq> byte_size
          then Some (PolicyError ''artifact byte size changed during validation'')
          else case validate_artifact_size byte_size policy of
            Some e \<Rightarrow> Some e
          | None \<Rightarrow>
         (case validate_media_type media_type policy of
            Some e \<Rightarrow> Some e
          | None \<Rightarrow>
              (let normalized = normalized_media media_type; head = take 8 content
               in if prefix zip_magic head \<or> normalized \<in> zip_media_types
                  then validate_zip_container zip_infolist content policy
                  else if prefix ''%PDF-'' head \<or> normalized = ''application/pdf''
                  then validate_pdf_file content
                  else if normalized \<in> {''text/html'', ''application/xhtml+xml''}
                  then validate_html_file content
                  else None)))"

section \<open>Counting in chunks\<close>

text \<open>All positions at which \<open>p\<close> occurs, overlapping or not.\<close>

fun occ :: "string \<Rightarrow> string \<Rightarrow> int" where
  "occ p [] = 0"
| "occ p (c # cs) = (if prefix p (c # cs) then 1 else 0) + occ p cs"

text \<open>No proper prefix of \<open>p\<close> is a suffix of it, so occurrences never overlap.\<close>

definition unbordered :: "string \<Rightarrow> bool" where
  "unbordered p \<longleftrightarrow> p \<noteq> [] \<and> list_all (\<lambda>k. take k p \<noteq> drop (length p - k) p) [1..<length p]"

lemma unborderedD:
  assumes "unbordered p" and "p = x @ t" and "x \<noteq> []" and "t \<noteq> []"
  shows "\<not> prefix p (t @ r)"
proof
  assume "prefix p (t @ r)"
  then obtain z where z: "t @ r = p @ z" by (auto simp: prefix_def)
  have "t = take (length t) (p @ z)" using z by (metis append_eq_conv_conj)
  also have "\<dots> = take (length t) p" using assms(2) by simp
  finally have "take (length t) p = t" by simp
  moreover have "drop (length p - length t) p = t" using assms(2) by simp
  moreover have "length t \<in> set [1..<length p]" using assms(2-4) by (auto simp: Suc_le_eq)
  ultimately show False using assms(1) unfolding unbordered_def list_all_iff by metis
qed

lemma occ_skip:
  assumes "unbordered p"
  shows "p = x @ t \<Longrightarrow> x \<noteq> [] \<Longrightarrow> occ p (t @ r) = occ p r"
proof (induction t arbitrary: x)
  case (Cons a t)
  have "\<not> prefix p ((a # t) @ r)"
    by (rule unborderedD [OF assms Cons.prems(1,2)]) simp
  moreover have "occ p (t @ r) = occ p r" using Cons.IH [of "x @ [a]"] Cons.prems by simp
  ultimately show ?case by simp
qed simp

lemma count_bytes_occ: "unbordered p \<Longrightarrow> count_bytes p s = occ p s"
proof (induction p s rule: count_bytes.induct)
  case (2 p c cs)
  have p: "p \<noteq> []" using 2(3) by (simp add: unbordered_def)
  show ?case
  proof (cases "prefix p (c # cs)")
    case True
    then obtain r where r: "c # cs = p @ r" by (auto simp: prefix_def)
    obtain a t where at: "p = a # t" using p by (cases p) auto
    have "occ p (c # cs) = 1 + occ p (t @ r)" using True r at by simp
    also have "occ p (t @ r) = occ p r" by (rule occ_skip [OF 2(3), of "[a]"]) (simp_all add: at)
    finally have "occ p (c # cs) = 1 + occ p r" .
    moreover have "drop (length p) (c # cs) = r" using r by simp
    ultimately show ?thesis using 2(1) [OF _ 2(3)] True p by simp
  next
    case False
    then show ?thesis using 2(2) [OF _ 2(3)] by simp
  qed
qed simp

lemma prefix_iff_take: "prefix p w \<longleftrightarrow> take (length p) w = p"
  by (metis append_eq_conv_conj prefixE take_is_prefix)

lemma prefix_long: "length p \<le> length w \<Longrightarrow> prefix p (w @ c) \<longleftrightarrow> prefix p w"
  by (simp add: prefix_iff_take)

lemma occ_window:
  assumes "length p \<le> length t + 1"
  shows "occ p (e @ t @ c) = occ p (e @ t) + (occ p (t @ c) - occ p t)"
proof (induction e)
  case (Cons a e)
  have "prefix p (a # e @ t @ c) \<longleftrightarrow> prefix p (a # e @ t)"
    using prefix_long [of p "a # e @ t" c] assms by simp
  then show ?case using Cons.IH by simp
qed simp

lemma last_bytes_append: "last_bytes k (last_bytes k d @ c) = last_bytes k (d @ c)"
  by (cases "k \<le> length d") (simp_all add: last_bytes_def add.commute)

lemma last_bytes_split: "\<exists>e. d = e @ last_bytes k d"
  by (metis append_take_drop_id last_bytes_def)

lemma length_last_bytes: "length (last_bytes k d) = min k (length d)"
  by (simp add: last_bytes_def)

lemma occ_extend:
  assumes "length m \<le> k + 1"
  shows "occ m (d @ c) = occ m d + (occ m (last_bytes k d @ c) - occ m (last_bytes k d))"
proof (cases "k \<le> length d")
  case True
  obtain e where e: "d = e @ last_bytes k d" using last_bytes_split by blast
  have "length m \<le> length (last_bytes k d) + 1" using assms True by (simp add: length_last_bytes)
  from occ_window [OF this, of e c] show ?thesis using e by (metis append_assoc)
next
  case False
  then have "last_bytes k d = d" by (simp add: last_bytes_def)
  then show ?thesis by simp
qed

lemma marker_loop_occ:
  assumes "m \<in> set markers" and "\<forall>m \<in> set markers. unbordered m \<and> length m \<le> k + 1"
  shows "counts m = occ m d \<Longrightarrow>
    marker_loop markers k chunks counts (last_bytes k d) m = occ m (d @ concat chunks)"
proof (induction chunks arbitrary: counts d)
  case (Cons c chunks)
  have m: "unbordered m" "length m \<le> k + 1" using assms by auto
  have "counts m + (count_bytes m (last_bytes k d @ c) - count_bytes m (last_bytes k d)) = occ m (d @ c)"
    using Cons.prems occ_extend [OF m(2), of d c] by (simp add: count_bytes_occ [OF m(1)])
  then have "marker_loop markers k chunks
      (\<lambda>m. if m \<in> set markers
           then counts m + (count_bytes m (last_bytes k d @ c) - count_bytes m (last_bytes k d))
           else counts m) (last_bytes k (d @ c)) m = occ m ((d @ c) @ concat chunks)"
    by (intro Cons.IH) (simp add: assms(1))
  then show ?case by (simp only: marker_loop.simps Let_def last_bytes_append concat.simps append_assoc)
qed simp

lemma concat_read_chunks: "0 < n \<Longrightarrow> concat (read_chunks n s) = s"
proof (induction n s rule: read_chunks.induct)
  case (1 n s)
  then show ?case by (subst read_chunks.simps) simp
qed

text \<open>The chunked count is the count over the whole content, wherever the chunks end.\<close>

lemma count_file_markers_eq:
  assumes "m \<in> set markers" and "\<forall>m \<in> set markers. unbordered m"
  shows "count_file_markers content markers m = count_bytes m content"
proof -
  let ?k = "Max (length ` set markers) - 1"
  have "length x \<le> ?k + 1" if "x \<in> set markers" for x
  proof -
    have "length x \<le> Max (length ` set markers)" using that by (intro Max_ge) auto
    then show ?thesis by linarith
  qed
  then have k: "\<forall>x \<in> set markers. unbordered x \<and> length x \<le> ?k + 1"
    using assms(2) by blast
  have "marker_loop markers ?k (read_chunks (64 * 1024) content) (\<lambda>_. 0) (last_bytes ?k []) m =
      occ m ([] @ concat (read_chunks (64 * 1024) content))"
    by (rule marker_loop_occ [OF assms(1) k]) simp
  moreover have "markers \<noteq> []" using assms(1) by auto
  ultimately show ?thesis
    using assms by (simp add: count_file_markers_def Let_def concat_read_chunks count_bytes_occ last_bytes_def)
qed

lemma occ_contains: "p \<noteq> [] \<Longrightarrow> occ p s \<noteq> 0 \<longleftrightarrow> contains p s"
proof -
  assume p: "p \<noteq> []"
  have "0 \<le> occ p s \<and> (occ p s \<noteq> 0 \<longleftrightarrow> sublist p s)"
    by (induction s) (use p in \<open>auto simp: sublist_Cons_right\<close>)
  then show ?thesis by (simp add: contains_sublist)
qed

lemma markers_unbordered:
  "\<forall>m \<in> set (page_marker # forbidden_markers). unbordered m" "unbordered [CHR 0x00]"
  by (simp_all add: page_marker_def forbidden_markers_def unbordered_def upt_rec numeral_eq_Suc)

text \<open>Validating a file in chunks and validating its bytes in memory agree.\<close>

lemma validate_pdf_file_eq:
  assumes "validate_artifact_size (int (length content)) policy = None"
  shows "validate_pdf_file content = validate_pdf_artifact content policy"
proof -
  note eq = count_file_markers_eq [OF _ markers_unbordered(1)]
  have "count_file_markers content (page_marker # forbidden_markers) m \<noteq> 0 \<longleftrightarrow> contains m content"
    if "m \<in> set forbidden_markers" for m
  proof -
    have "unbordered m" using markers_unbordered(1) that by simp
    then show ?thesis
      using eq [of m] that by (simp add: count_bytes_occ occ_contains unbordered_def)
  qed
  then have "list_ex (\<lambda>m. count_file_markers content (page_marker # forbidden_markers) m \<noteq> 0) forbidden_markers =
      list_ex (\<lambda>f. contains f content) forbidden_markers"
    by (auto simp: list_ex_iff)
  moreover have "prefix ''%PDF-'' (take 5 content) = prefix ''%PDF-'' content"
    by (simp add: prefix_iff_take)
  ultimately show ?thesis
    using assms eq [of page_marker] by (simp add: validate_pdf_file_def validate_pdf_artifact_def Let_def)
qed

lemma validate_html_file_eq:
  assumes "validate_artifact_size (int (length content)) policy = None"
  shows "validate_html_file content = validate_html_artifact content policy"
proof -
  have "count_file_markers content [[CHR 0x00]] [CHR 0x00] \<noteq> 0 \<longleftrightarrow> contains [CHR 0x00] content"
    using count_file_markers_eq [of "[CHR 0x00]" "[[CHR 0x00]]" content] markers_unbordered(2)
    by (simp add: count_bytes_occ occ_contains)
  then show ?thesis using assms by (simp add: validate_html_file_def validate_html_artifact_def)
qed

section \<open>Properties\<close>

lemma validate_file_eq_bytes:
  "validate_artifact_file zip_infolist (Some content) (int (length content)) media_type policy =
     validate_artifact_bytes zip_infolist content media_type policy"
proof (cases "validate_artifact_size (int (length content)) policy")
  case None
  have "prefix zip_magic (take 8 content) = prefix zip_magic content"
    and "prefix ''%PDF-'' (take 8 content) = prefix ''%PDF-'' content"
    by (simp_all add: prefix_iff_take zip_magic_def)
  then show ?thesis
    using None validate_pdf_file_eq [OF None] validate_html_file_eq [OF None]
    by (simp add: validate_artifact_file_def validate_artifact_bytes_def validate_zip_artifact_def Let_def
        split: option.splits)
next
  case (Some e)
  then show ?thesis by (simp add: validate_artifact_file_def validate_artifact_bytes_def)
qed

text \<open>
  C38. The two artifact validators agree: checking a file of any content in 64 KiB chunks gives
  the same verdict and the same error as checking its bytes in memory, markers that straddle
  chunk boundaries included.
\<close>

theorem artifact_file_eq_bytes:
  "validate_artifact_file zip_infolist (Some content) (int (length content)) media_type policy =
     validate_artifact_bytes zip_infolist content media_type policy"
  by (rule validate_file_eq_bytes)

text \<open>What one archive member may be.\<close>

definition member_safe :: "artifact_policy \<Rightarrow> zip_member \<Rightarrow> bool" where
  "member_safe policy m \<longleftrightarrow> \<not> unsafe_member_path (zm_filename m) \<and>
     \<not> is_symlink_mode (zm_external_attr m div 65536) \<and>
     int (zm_file_size m) \<le> ap_max_compression_ratio policy * int (zm_compress_size m)"

lemma ratio_le:
  "0 < c \<Longrightarrow> \<not> (of_int r < (of_nat f / of_nat c :: rat)) \<longleftrightarrow> int f \<le> r * int c"
proof -
  assume c: "0 < c"
  have "\<not> (of_int r < (of_nat f / of_nat c :: rat)) \<longleftrightarrow>
      (of_int (int f) :: rat) \<le> of_int (r * int c)"
    using c by (simp add: not_less pos_divide_le_eq)
  then show ?thesis by (simp only: of_int_le_iff)
qed

lemma zip_loop_iff:
  assumes "1 \<le> ap_max_compression_ratio policy" and "expanded \<le> ap_max_expanded_bytes policy"
    and "cnt \<le> ap_max_archive_members policy"
  shows "zip_loop policy expanded cnt ms = None \<longleftrightarrow>
    cnt + int (length ms) \<le> ap_max_archive_members policy \<and>
    expanded + int (sum_list (map zm_file_size ms)) \<le> ap_max_expanded_bytes policy \<and>
    list_all (member_safe policy) ms"
  using assms(2,3)
proof (induction ms arbitrary: expanded cnt)
  case (Cons m ms)
  let ?bad = "(zm_file_size m \<noteq> 0 \<and> zm_compress_size m = 0) \<or>
      (zm_compress_size m \<noteq> 0 \<and> of_int (ap_max_compression_ratio policy) <
         (of_nat (zm_file_size m) / of_nat (zm_compress_size m) :: rat))"
  have "\<not> ?bad \<longleftrightarrow> int (zm_file_size m) \<le> ap_max_compression_ratio policy * int (zm_compress_size m)"
    using ratio_le [of "zm_compress_size m" "ap_max_compression_ratio policy" "zm_file_size m"]
    by (cases "zm_compress_size m = 0") auto
  moreover have "(zm_external_attr m div 65536 \<noteq> 0 \<and> is_symlink_mode (zm_external_attr m div 65536)) =
      is_symlink_mode (zm_external_attr m div 65536)"
    by (cases "zm_external_attr m div 65536 = 0") (simp_all add: is_symlink_mode_def)
  moreover have "zip_loop policy expanded cnt (m # ms) = None \<longleftrightarrow>
      cnt + 1 \<le> ap_max_archive_members policy \<and> \<not> unsafe_member_path (zm_filename m) \<and>
      \<not> (zm_external_attr m div 65536 \<noteq> 0 \<and> is_symlink_mode (zm_external_attr m div 65536)) \<and>
      expanded + int (zm_file_size m) \<le> ap_max_expanded_bytes policy \<and> \<not> ?bad \<and>
      zip_loop policy (expanded + int (zm_file_size m)) (cnt + 1) ms = None"
    by (simp only: zip_loop.simps Let_def if_split option.distinct simp_thms) (auto simp: not_less)
  ultimately have "zip_loop policy expanded cnt (m # ms) = None \<longleftrightarrow>
      cnt + 1 \<le> ap_max_archive_members policy \<and>
      expanded + int (zm_file_size m) \<le> ap_max_expanded_bytes policy \<and> member_safe policy m \<and>
      zip_loop policy (expanded + int (zm_file_size m)) (cnt + 1) ms = None"
    unfolding member_safe_def by blast
  then show ?case
    using Cons.IH [of "expanded + int (zm_file_size m)" "cnt + 1"] by auto
qed simp

text \<open>
  C39. The ZIP check is exact: an archive passes if and only if it has no more members and no
  more expanded bytes than the policy allows, no member escapes its directory or is a symbolic
  link, and no member expands by more than the allowed ratio.
\<close>

theorem zip_members_iff:
  assumes "artifact_policy_post_init policy = None"
  shows "validate_zip_members ms policy = None \<longleftrightarrow>
    int (length ms) \<le> ap_max_archive_members policy \<and>
    int (sum_list (map zm_file_size ms)) \<le> ap_max_expanded_bytes policy \<and>
    list_all (member_safe policy) ms"
  using assms zip_loop_iff [of policy 0 0 ms]
  by (auto simp: validate_zip_members_def artifact_policy_post_init_def split: if_splits)

theorem zip_members_iff_witness:
  "validate_zip_members [\<lparr>zm_filename = ''a/b'', zm_external_attr = 0, zm_file_size = 10,
     zm_compress_size = 5\<rparr>] default_artifact_policy = None"
proof -
  have "artifact_policy_post_init default_artifact_policy = None"
    by (simp add: artifact_policy_post_init_def default_artifact_policy_def)
  from zip_members_iff [OF this] show ?thesis
    by (simp add: default_artifact_policy_def member_safe_def unsafe_member_path_def is_symlink_mode_def)
qed

definition host_matches :: "string \<Rightarrow> string \<Rightarrow> bool" where
  "host_matches n a \<longleftrightarrow> (if prefix ''*.'' a then suffix (drop 1 a) n \<and> n \<noteq> drop 1 (drop 1 a) else n = a)"

lemma host_in_iff: "host_in n hosts \<longleftrightarrow> (\<exists>a \<in> set hosts. host_matches n a)"
proof (induction hosts)
  case (Cons a hosts)
  have "host_in n (a # hosts) = (host_matches n a \<or> host_in n hosts)"
    by (simp only: host_in.simps host_matches_def Let_def split: if_split) blast
  then show ?case using Cons.IH by simp
qed simp

lemma host_matches_cases:
  "host_matches n a \<Longrightarrow> n = a \<or> (\<exists>d label. a = ''*.'' @ d \<and> n = label @ ''.'' @ d)"
  by (auto simp: host_matches_def prefix_def suffix_def split: if_splits)

text \<open>What validation establishes of the parts of a URL and its host name.\<close>

definition target_ok :: "urllib \<Rightarrow> source_policy \<Rightarrow> string \<Rightarrow> url_parts \<Rightarrow> string \<Rightarrow> bool" where
  "target_ok ul policy meth p h \<longleftrightarrow>
     \<not> truthy (up_username p) \<and> \<not> truthy (up_password p) \<and> up_fragment p = [] \<and>
     (sp_require_https policy \<longrightarrow> lower (up_scheme p) = ''https'') \<and>
     up_port p \<in> {Some None, Some (Some 443)} \<and>
     upper meth \<in> set (sp_allowed_methods policy) \<and>
     (sp_allowed_query_keys policy \<noteq> [] \<longrightarrow>
        (\<forall>(k, v) \<in> set (ul_qsl ul (up_query p)). lower k \<in> set (sp_allowed_query_keys policy))) \<and>
     up_hostname p = Some h \<and>
     (\<exists>n a. normalize_host h = Inr n \<and> a \<in> set (sp_allowed_hosts policy) \<and>
        (n = a \<or> (\<exists>d label. a = ''*.'' @ d \<and> n = label @ ''.'' @ d)))"

lemma validated_target:
  assumes "validate_request_url ul ip url policy meth ro = Inr p"
  obtains h where "ul_parse ul url = Some p" "target_ok ul policy meth p h"
    "case ro of None \<Rightarrow> True | Some r \<Rightarrow> \<exists>as. resolve_public_addresses ip h r = Inr as"
proof -
  have ne: "url \<noteq> []" using assms by (auto simp: validate_request_url_def)
  obtain p' where p': "ul_parse ul url = Some p'"
    using assms ne by (cases "ul_parse ul url") (simp_all add: validate_request_url_def)
  obtain h where h: "check_target ip policy p' = Inr h"
    using assms ne p' by (cases "check_target ip policy p'") (simp_all add: validate_request_url_def)
  obtain pt where pt: "up_port p' = Some pt"
    using assms ne p' h by (cases "up_port p'") (simp_all add: validate_request_url_def)
  have pt': "pt = None \<or> pt = Some 443"
    using assms ne p' h pt by (auto simp: validate_request_url_def split: if_splits)
  obtain ok where ok: "host_allowed h (sp_allowed_hosts policy) = Inr ok"
    using assms ne p' h pt pt'
    by (cases "host_allowed h (sp_allowed_hosts policy)") (auto simp: validate_request_url_def)
  note red = ne p' h pt pt' ok
  have ok': "ok" and meth: "upper meth \<in> set (sp_allowed_methods policy)"
    and q: "sp_allowed_query_keys policy = [] \<or>
      set (map (\<lambda>(k, _). lower k) (ul_qsl ul (up_query p'))) \<subseteq> set (sp_allowed_query_keys policy)"
    using assms red by (auto simp: validate_request_url_def Let_def split: if_splits)
  have r: "case ro of None \<Rightarrow> True | Some r \<Rightarrow> \<exists>as. resolve_public_addresses ip h r = Inr as" and p: "p' = p"
    using assms red ok' meth q
    by (auto simp: validate_request_url_def Let_def split: if_splits option.splits sum.splits)
  have tp: "\<not> truthy (up_username p)" "\<not> truthy (up_password p)" "up_fragment p = []"
    "sp_require_https policy \<longrightarrow> lower (up_scheme p) = ''https''" "up_hostname p = Some h"
    using h [unfolded p] by (auto simp: check_target_def split: if_splits option.splits)
  obtain n a where n: "normalize_host h = Inr n" and a: "a \<in> set (sp_allowed_hosts policy)" "host_matches n a"
    using ok ok' by (auto simp: host_allowed_def host_in_iff split: sum.splits)
  have "n = a \<or> (\<exists>d label. a = ''*.'' @ d \<and> n = label @ ''.'' @ d)" by (rule host_matches_cases [OF a(2)])
  moreover have "\<forall>(k, v) \<in> set (ul_qsl ul (up_query p)). lower k \<in> set (sp_allowed_query_keys policy)"
    if "sp_allowed_query_keys policy \<noteq> []" using q that by (auto simp: p)
  moreover have "up_port p \<in> {Some None, Some (Some 443)}" using pt pt' p by auto
  ultimately have "target_ok ul policy meth p h" unfolding target_ok_def using tp meth n a(1) by blast
  then show thesis using that [of h] p' p r by simp
qed

lemma resolve_public_addresses_Inr:
  assumes "resolve_public_addresses ip h r = Inr as"
  shows "r h = Inr as" "as \<noteq> []" "x \<in> set as \<Longrightarrow> is_public_address ip x"
  using assms by (auto simp: resolve_public_addresses_def list_ex_iff split: sum.splits if_splits)

text \<open>
  A request target that passes validation is inside the source policy: no user
  information or fragment, the required scheme, the default port, a host on the allow-list
  (equal to an entry, or strictly below the domain of a wildcard entry), an allowed method and
  only allowed query keys; and every address its host resolves to is public.
\<close>

theorem validated_url_safe:
  assumes "validate_request_url ul ip url policy meth (Some r) = Inr p"
  shows "\<not> truthy (up_username p) \<and> \<not> truthy (up_password p) \<and> up_fragment p = [] \<and>
    (sp_require_https policy \<longrightarrow> lower (up_scheme p) = ''https'') \<and>
    up_port p \<in> {Some None, Some (Some 443)} \<and>
    upper meth \<in> set (sp_allowed_methods policy) \<and>
    (sp_allowed_query_keys policy \<noteq> [] \<longrightarrow>
       (\<forall>(k, v) \<in> set (ul_qsl ul (up_query p)). lower k \<in> set (sp_allowed_query_keys policy))) \<and>
    (\<exists>h n a as. up_hostname p = Some h \<and> normalize_host h = Inr n \<and> a \<in> set (sp_allowed_hosts policy) \<and>
       (n = a \<or> (\<exists>d label. a = ''*.'' @ d \<and> n = label @ ''.'' @ d)) \<and>
       r h = Inr as \<and> as \<noteq> [] \<and> (\<forall>x \<in> set as. is_public_address ip x))"
proof -
  obtain h as where t: "target_ok ul policy meth p h" and r: "resolve_public_addresses ip h r = Inr as"
    by (rule validated_target [OF assms]) auto
  show ?thesis using t resolve_public_addresses_Inr [OF r] unfolding target_ok_def by blast
qed

definition demo_urllib :: urllib where
  "demo_urllib = \<lparr>ul_parse = (\<lambda>u. Some \<lparr>up_scheme = ''https'', up_username = None, up_password = None,
     up_hostname = Some u, up_port = Some None, up_path = ''/'', up_params = [], up_query = [],
     up_fragment = []\<rparr>), ul_qsl = (\<lambda>_. []), ul_encode = (\<lambda>_. []), ul_unparse = (\<lambda>_. [])\<rparr>"

definition demo_iplib :: iplib where
  "demo_iplib = \<lparr>ip_text = (\<lambda>s. if s = ''1.1.1.1'' then Some s else None),
     ip_is_global = (\<lambda>s. s = ''1.1.1.1''), ip_is_multicast = (\<lambda>_. False)\<rparr>"

definition demo_policy :: source_policy where
  "demo_policy = \<lparr>sp_allowed_hosts = [''*.b.c''], sp_allowed_methods = [''GET''], sp_allowed_query_keys = [],
     sp_allowed_request_headers = [], sp_require_https = True, sp_max_redirects = 0,
     sp_artifact = default_artifact_policy\<rparr>"

theorem validated_url_safe_witness:
  "\<exists>p as. validate_request_url demo_urllib demo_iplib ''a.b.c'' demo_policy ''GET''
       (Some (\<lambda>_. Inr [''1.1.1.1''])) = Inr p \<and>
     up_hostname p = Some ''a.b.c'' \<and> up_fragment p = [] \<and> as = [''1.1.1.1'']"
proof -
  have low: "lower ''a.b.c'' = ''a.b.c''" "lower ''https'' = ''https''" "upper ''GET'' = ''GET''"
    by (simp_all add: lower_def upper_def lower_char_def upper_char_def char_of_def bit_0)
  have n: "normalize_host ''a.b.c'' = Inr ''a.b.c''"
    by (simp add: normalize_host_def Let_def strip_def rstrip_def is_space_def low)
  obtain p where p: "validate_request_url demo_urllib demo_iplib ''a.b.c'' demo_policy ''GET''
      (Some (\<lambda>_. Inr [''1.1.1.1''])) = Inr p" and h: "up_hostname p = Some ''a.b.c''"
    by (simp add: validate_request_url_def demo_urllib_def demo_iplib_def demo_policy_def check_target_def
        low host_allowed_def n Let_def resolve_public_addresses_def is_public_address_def suffix_def)
  show ?thesis using validated_url_safe [OF p] p h by blast
qed

end
