(* ===== verification/JobModel.thy ===== *)
theory JobModel
  imports Complex_Main Redaction
begin

text \<open>
  The durable-job data model of \<open>ingestion/jobs.py\<close>: the enumerations, \<open>RetryPolicy\<close>
  with its bounded backoff, \<open>WorkflowJob\<close> with the checks of its \<open>__post_init__\<close>,
  \<open>WorkflowJob.create\<close>, \<open>WorkflowAttempt\<close> and \<open>JobClaim\<close>.

  Payloads (\<open>request\<close>, \<open>last_error\<close>, \<open>warnings\<close>, \<open>error\<close>) are JSON values that are
  already frozen and redacted; \<open>Json.normalize_json_idem\<close> is the reason the repeated
  freezing in every \<open>replace\<close> leaves them unchanged. A float ratio is an exact rational.
\<close>

section \<open>Enumerations\<close>

datatype job_state =
    QUEUED | CLAIMED | RUNNING | RETRY_WAIT | SUCCEEDED | EMPTY | FAILED | DEAD_LETTER | CANCELLED

datatype attempt_status =
    A_RUNNING | A_SUCCEEDED | A_EMPTY | A_PARTIAL | A_FAILED | A_CANCELLED

datatype job_kind =
    SCHEDULED_INGEST | ON_DEMAND_REFRESH | FANOUT | BACKFILL | OFFLINE_REPARSE
  | PROMOTION_REACQUIRE | MANUAL_SUBMISSION | HEALTH_RECONCILE | SNAPSHOT | ALERT_EVALUATE
  | WIKI_RENDER | INTEGRITY_CHECK | BACKUP | RETENTION

datatype trigger =
    T_SCHEDULE | T_AGENT_REQUEST | T_MANUAL | T_BACKFILL | T_FANOUT | T_REPARSE | T_PROMOTION
  | T_RECOVERY

datatype catchup_policy = LATEST_ONLY | WINDOWED | ALL_SLOTS | MANUAL

definition datasource_job_kinds :: "job_kind set" where
  "datasource_job_kinds =
     {SCHEDULED_INGEST, ON_DEMAND_REFRESH, FANOUT, BACKFILL, OFFLINE_REPARSE,
      PROMOTION_REACQUIRE, MANUAL_SUBMISSION}"

definition terminal_job_states :: "job_state set" where
  "terminal_job_states = {SUCCEEDED, EMPTY, FAILED, DEAD_LETTER, CANCELLED}"

text \<open>
  \<open>JobError\<close> and its subclass \<open>StaleClaimError\<close>, and the built-in errors the module's
  dictionary reads and date arithmetic can raise.
\<close>

datatype job_error =
    JobError string | StaleClaimError string | QueueKeyError string
  | JobOverflowError | JobValueError string | ZoneInfoNotFoundError string

section \<open>Retry policy\<close>

record retry_policy =
  rp_max_attempts :: int
  rp_base_delay_seconds :: int
  rp_max_delay_seconds :: int
  rp_jitter_ratio :: rat

definition retry_policy_post_init :: "retry_policy \<Rightarrow> job_error option" where
  "retry_policy_post_init p =
     (if \<not> (1 \<le> rp_max_attempts p \<and> rp_max_attempts p \<le> 20)
      then Some (JobError ''max_attempts must be in [1, 20]'')
      else if rp_base_delay_seconds p < 0 \<or> rp_max_delay_seconds p < rp_base_delay_seconds p
      then Some (JobError ''invalid retry delay bounds'')
      else if \<not> (0 \<le> rp_jitter_ratio p \<and> rp_jitter_ratio p \<le> 1)
      then Some (JobError ''jitter_ratio must be in [0, 1]'')
      else None)"

definition default_retry_policy :: retry_policy where
  "default_retry_policy =
     \<lparr>rp_max_attempts = 3, rp_base_delay_seconds = 60, rp_max_delay_seconds = 3600,
      rp_jitter_ratio = 0\<rparr>"

text \<open>\<open>timedelta(seconds=x)\<close> of a fractional \<open>x\<close> rounds half to even in microseconds.\<close>

definition round_half_even :: "rat \<Rightarrow> int" where
  "round_half_even x =
     (let f = \<lfloor>x\<rfloor>; r = x - of_int f
      in if r < 1 / 2 then f else if 1 / 2 < r then f + 1 else if even f then f else f + 1)"

text \<open>\<open>u\<close> is the value in \<open>[0, 1)\<close> that \<open>Random.random()\<close> yields when jitter applies.\<close>

definition delay_for :: "retry_policy \<Rightarrow> int \<Rightarrow> rat \<Rightarrow> job_error + duration" where
  "delay_for p attempt_no u =
     (if attempt_no < 1 then Inl (JobError ''attempt_no must be positive'')
      else let s = min (rp_max_delay_seconds p)
                     (rp_base_delay_seconds p * 2 ^ nat (attempt_no - 1));
               j = rp_jitter_ratio p
           in if j = 0 then Inr (seconds s)
              else Inr (round_half_even (of_int s * (1 - j + 2 * j * u) * 1000000)))"

lemma round_half_even_nonneg: "0 \<le> x \<Longrightarrow> 0 \<le> round_half_even x"
  unfolding round_half_even_def Let_def by (auto simp: zero_le_floor)

lemma round_half_even_le_int: "x \<le> of_int n \<Longrightarrow> round_half_even x \<le> n"
proof -
  assume x: "x \<le> of_int n"
  show ?thesis
  proof (cases "x = of_int n")
    case True
    then show ?thesis by (simp add: round_half_even_def)
  next
    case False
    with x have "\<lfloor>x\<rfloor> < n" by (simp add: floor_less_iff)
    then show ?thesis by (simp add: round_half_even_def Let_def)
  qed
qed

text \<open>The backoff without jitter: bounded, and it never shrinks from one attempt to the next.\<close>

lemma backoff_bounds:
  assumes "retry_policy_post_init p = None"
  shows "0 \<le> min (rp_max_delay_seconds p) (rp_base_delay_seconds p * 2 ^ k)"
    and "min (rp_max_delay_seconds p) (rp_base_delay_seconds p * 2 ^ k) \<le> rp_max_delay_seconds p"
  using assms by (auto simp: retry_policy_post_init_def split: if_splits)

lemma delay_for_Inr:
  assumes "1 \<le> n"
  shows "\<exists>d. delay_for p n u = Inr d"
  using assms by (simp add: delay_for_def Let_def)

lemma delay_for_nonneg:
  assumes "retry_policy_post_init p = None" and "0 \<le> u" and "u \<le> 1" and "delay_for p n u = Inr d"
  shows "0 \<le> d"
proof -
  let ?s = "min (rp_max_delay_seconds p) (rp_base_delay_seconds p * 2 ^ nat (n - 1))"
  let ?j = "rp_jitter_ratio p"
  have s: "0 \<le> ?s" by (rule backoff_bounds(1) [OF assms(1)])
  have j: "0 \<le> ?j" "?j \<le> 1"
    using assms(1) by (auto simp: retry_policy_post_init_def split: if_splits)
  have "0 \<le> 1 - ?j + 2 * ?j * u" using j assms(2) by simp
  then have "0 \<le> (of_int ?s :: rat) * (1 - ?j + 2 * ?j * u) * 1000000" using s by simp
  then show ?thesis
    using assms(4) s round_half_even_nonneg
    by (auto simp: delay_for_def Let_def seconds_def split: if_splits)
qed

lemma delay_for_le:
  assumes "retry_policy_post_init p = None" and "0 \<le> u" and "u \<le> 1" and "delay_for p n u = Inr d"
  shows "d \<le> 2 * seconds (rp_max_delay_seconds p)"
proof -
  let ?s = "min (rp_max_delay_seconds p) (rp_base_delay_seconds p * 2 ^ nat (n - 1))"
  let ?j = "rp_jitter_ratio p"
  have s: "0 \<le> ?s" "?s \<le> rp_max_delay_seconds p" by (rule backoff_bounds [OF assms(1)])+
  have j: "0 \<le> ?j" "?j \<le> 1"
    using assms(1) by (auto simp: retry_policy_post_init_def split: if_splits)
  have "?j * u \<le> ?j" using j assms(2,3) mult_left_mono [of u 1 ?j] by simp
  then have "1 - ?j + 2 * ?j * u \<le> 2" using j by simp
  then have "(of_int ?s :: rat) * (1 - ?j + 2 * ?j * u) \<le> of_int ?s * 2"
    using s(1) by (intro mult_left_mono) auto
  then have "(of_int ?s :: rat) * (1 - ?j + 2 * ?j * u) * 1000000 \<le> of_int ?s * 2 * 1000000"
    by (rule mult_right_mono) simp
  then have "(of_int ?s :: rat) * (1 - ?j + 2 * ?j * u) * 1000000 \<le> of_int (?s * 2 * 1000000)"
    by (simp only: of_int_mult of_int_numeral)
  then have "round_half_even (of_int ?s * (1 - ?j + 2 * ?j * u) * 1000000) \<le> ?s * 2 * 1000000"
    by (rule round_half_even_le_int)
  then show ?thesis
    using assms(4) s by (auto simp: delay_for_def Let_def seconds_def split: if_splits)
qed

section \<open>Jobs\<close>

record workflow_job =
  wj_job_id :: string
  wj_dedupe_key :: string
  wj_job_kind :: job_kind
  wj_trigger :: trigger
  wj_scheduled_for :: instant
  wj_available_at :: instant
  wj_request :: json
  wj_request_hash :: string
  wj_created_at :: instant
  wj_datasource_id :: "string option"
  wj_definition_version :: "int option"
  wj_definition_hash :: "string option"
  wj_lane :: "string option"
  wj_priority :: int
  wj_retry_policy :: retry_policy
  wj_state :: job_state
  wj_attempt_count :: int
  wj_claim_token :: "string option"
  wj_claimed_by :: "string option"
  wj_claimed_at :: "instant option"
  wj_lease_expires_at :: "instant option"
  wj_heartbeat_at :: "instant option"
  wj_started_at :: "instant option"
  wj_completed_at :: "instant option"
  wj_last_error :: "json option"
  wj_parent_job_id :: "string option"
  wj_generation :: int
  wj_request_instance_id :: "string option"

definition hash64 :: "string option \<Rightarrow> string \<Rightarrow> bool \<Rightarrow> job_error option" where
  "hash64 value name required =
     (case value of
        None \<Rightarrow> if required then Some (JobError (name @ '' is required'')) else None
      | Some v \<Rightarrow> if hex64 v then None
          else Some (JobError (name @ '' must be lower-case SHA-256 hex'')))"

text \<open>
  \<open>WorkflowJob.__post_init__\<close>: the first failing check, if any. The enumerations and the
  UTC normalisation of the timestamps are in the types.
\<close>

definition job_hash_checks :: "workflow_job \<Rightarrow> job_error option" where
  "job_hash_checks j =
     (case hash64 (Some (wj_dedupe_key j)) ''dedupe_key'' True of Some e \<Rightarrow> Some e | None \<Rightarrow>
      case hash64 (Some (wj_request_hash j)) ''request_hash'' True of Some e \<Rightarrow> Some e | None \<Rightarrow>
      hash64 (wj_definition_hash j) ''definition_hash'' False)"

definition job_scope_checks :: "workflow_job \<Rightarrow> job_error option" where
  "job_scope_checks j =
     (if wj_job_kind j \<in> datasource_job_kinds
      then if \<not> (truthy (wj_datasource_id j) \<and> wj_definition_version j \<noteq> None \<and>
                truthy (wj_definition_hash j) \<and> truthy (wj_lane j))
           then Some (JobError ''datasource job requires datasource definition and lane'') else None
      else if wj_datasource_id j \<noteq> None \<or> wj_definition_version j \<noteq> None \<or>
              wj_definition_hash j \<noteq> None \<or> wj_lane j \<noteq> None
      then Some (JobError ''system job cannot carry datasource fields'') else None)"

definition job_trigger_checks :: "workflow_job \<Rightarrow> job_error option" where
  "job_trigger_checks j =
     (if wj_trigger j \<in> {T_AGENT_REQUEST, T_MANUAL, T_RECOVERY} \<and>
         \<not> truthy (wj_request_instance_id j)
      then Some (JobError ''agent, manual, and recovery jobs require request_instance_id'')
      else if wj_trigger j = T_RECOVERY \<and> (\<not> truthy (wj_parent_job_id j) \<or> wj_generation j < 1)
      then Some (JobError ''recovery job requires parent_job_id and positive generation'')
      else None)"

definition job_lease_checks :: "workflow_job \<Rightarrow> job_error option" where
  "job_lease_checks j =
     (let active = wj_state j \<in> {CLAIMED, RUNNING};
          missing = wj_claim_token j = None \<or> wj_claimed_by j = None \<or> wj_claimed_at j = None \<or>
            wj_lease_expires_at j = None;
          present = wj_claim_token j \<noteq> None \<or> wj_claimed_by j \<noteq> None \<or> wj_claimed_at j \<noteq> None \<or>
            wj_lease_expires_at j \<noteq> None
      in if active \<and> missing
         then Some (JobError ''claimed/running job requires complete lease fields'')
         else if \<not> active \<and> present
         then Some (JobError ''unclaimed job cannot retain lease fields'')
         else if wj_state j \<in> terminal_job_states \<and> wj_completed_at j = None
         then Some (JobError ''terminal job requires completed_at'')
         else if wj_state j \<notin> terminal_job_states \<and> wj_completed_at j \<noteq> None
         then Some (JobError ''non-terminal job cannot have completed_at'')
         else None)"

definition job_post_init :: "workflow_job \<Rightarrow> job_error option" where
  "job_post_init j =
     (case job_hash_checks j of Some e \<Rightarrow> Some e | None \<Rightarrow>
      if wj_attempt_count j < 0 \<or> rp_max_attempts (wj_retry_policy j) < wj_attempt_count j
      then Some (JobError ''attempt_count must be within retry policy bounds'')
      else if wj_generation j < 0 then Some (JobError ''generation cannot be negative'')
      else case job_scope_checks j of Some e \<Rightarrow> Some e | None \<Rightarrow>
      case job_trigger_checks j of Some e \<Rightarrow> Some e | None \<Rightarrow>
      job_lease_checks j)"

text \<open>Constructing a job, and \<open>dataclasses.replace\<close>, run the checks.\<close>

definition mk_job :: "workflow_job \<Rightarrow> job_error + workflow_job" where
  "mk_job j = (case job_post_init j of Some e \<Rightarrow> Inl e | None \<Rightarrow> Inr j)"

fun job_kind_value :: "job_kind \<Rightarrow> string" where
  "job_kind_value SCHEDULED_INGEST = ''scheduled_ingest''"
| "job_kind_value ON_DEMAND_REFRESH = ''on_demand_refresh''"
| "job_kind_value FANOUT = ''fanout''"
| "job_kind_value BACKFILL = ''backfill''"
| "job_kind_value OFFLINE_REPARSE = ''offline_reparse''"
| "job_kind_value PROMOTION_REACQUIRE = ''promotion_reacquire''"
| "job_kind_value MANUAL_SUBMISSION = ''manual_submission''"
| "job_kind_value HEALTH_RECONCILE = ''health_reconcile''"
| "job_kind_value SNAPSHOT = ''snapshot''"
| "job_kind_value ALERT_EVALUATE = ''alert_evaluate''"
| "job_kind_value WIKI_RENDER = ''wiki_render''"
| "job_kind_value INTEGRITY_CHECK = ''integrity_check''"
| "job_kind_value BACKUP = ''backup''"
| "job_kind_value RETENTION = ''retention''"

fun trigger_value :: "trigger \<Rightarrow> string" where
  "trigger_value T_SCHEDULE = ''schedule''"
| "trigger_value T_AGENT_REQUEST = ''agent_request''"
| "trigger_value T_MANUAL = ''manual''"
| "trigger_value T_BACKFILL = ''backfill''"
| "trigger_value T_FANOUT = ''fanout''"
| "trigger_value T_REPARSE = ''reparse''"
| "trigger_value T_PROMOTION = ''promotion''"
| "trigger_value T_RECOVERY = ''recovery''"

definition opt_json :: "('a \<Rightarrow> json) \<Rightarrow> 'a option \<Rightarrow> json" where
  "opt_json f x = (case x of None \<Rightarrow> JNull | Some a \<Rightarrow> f a)"

text \<open>The canonical form of an instant in a hashed payload is its persisted text.\<close>

definition ts_json :: "instant \<Rightarrow> json" where
  "ts_json i = JStr (timestamp (of_instant i))"

definition job_dedupe_payload ::
  "job_kind \<Rightarrow> trigger \<Rightarrow> string option \<Rightarrow> int option \<Rightarrow> string option \<Rightarrow> string option \<Rightarrow> instant \<Rightarrow>
   string \<Rightarrow> (string \<times> json) list \<Rightarrow> json" where
  "job_dedupe_payload kind trig datasource_id definition_version definition_hash lane scheduled
     hashed_request dedupe_scope =
     JObj [(''job_kind'', JStr (job_kind_value kind)), (''trigger'', JStr (trigger_value trig)),
       (''datasource_id'', opt_json JStr datasource_id),
       (''definition_version'', opt_json JInt definition_version),
       (''definition_hash'', opt_json JStr definition_hash), (''lane'', opt_json JStr lane),
       (''scheduled_for'', ts_json scheduled), (''request_hash'', JStr hashed_request),
       (''dedupe_scope'', JObj dedupe_scope)]"

text \<open>
  \<open>WorkflowJob.create\<close>. \<open>job_id\<close> comes from \<open>new_id\<close>, \<open>sha\<close> is SHA-256; the omitted
  \<open>request\<close>, \<open>dedupe_scope\<close> and \<open>retry_policy\<close> are the empty mappings and the default policy.
\<close>

definition job_create ::
  "urllib \<Rightarrow> (string \<Rightarrow> string) \<Rightarrow> string \<Rightarrow> instant \<Rightarrow> job_kind \<Rightarrow> trigger \<Rightarrow> instant \<Rightarrow>
   (string \<times> json) list \<Rightarrow> string option \<Rightarrow> int option \<Rightarrow> string option \<Rightarrow> string option \<Rightarrow> int \<Rightarrow>
   retry_policy \<Rightarrow> string option \<Rightarrow> string option \<Rightarrow> int \<Rightarrow> (string \<times> json) list \<Rightarrow>
   job_error + workflow_job" where
  "job_create ul sha job_id now kind trig scheduled request datasource_id definition_version
     definition_hash lane priority policy request_instance_id parent_job_id generation dedupe_scope =
     (case redact_secrets ul (JObj request) of
        Inl _ \<Rightarrow> Inl (JobValueError ''invalid URL in request'')
      | Inr redacted \<Rightarrow>
          (let hashed = request_hash sha redacted;
               dedupe = sha (hash_input ''job-dedupe''
                 (job_dedupe_payload kind trig datasource_id definition_version definition_hash lane
                    scheduled hashed dedupe_scope))
           in mk_job \<lparr>wj_job_id = job_id, wj_dedupe_key = dedupe, wj_job_kind = kind,
                wj_trigger = trig, wj_scheduled_for = scheduled, wj_available_at = scheduled,
                wj_request = redacted, wj_request_hash = hashed, wj_created_at = now,
                wj_datasource_id = datasource_id, wj_definition_version = definition_version,
                wj_definition_hash = definition_hash, wj_lane = lane, wj_priority = priority,
                wj_retry_policy = policy, wj_state = QUEUED, wj_attempt_count = 0,
                wj_claim_token = None, wj_claimed_by = None, wj_claimed_at = None,
                wj_lease_expires_at = None, wj_heartbeat_at = None, wj_started_at = None,
                wj_completed_at = None, wj_last_error = None, wj_parent_job_id = parent_job_id,
                wj_generation = generation, wj_request_instance_id = request_instance_id\<rparr>))"

section \<open>Attempts and claims\<close>

record workflow_attempt =
  wa_attempt_id :: string
  wa_job_id :: string
  wa_attempt_no :: int
  wa_worker_id :: string
  wa_status :: attempt_status
  wa_started_at :: instant
  wa_heartbeat_at :: instant
  wa_completed_at :: "instant option"
  wa_warnings :: "json list"
  wa_error :: "json option"

definition attempt_post_init :: "workflow_attempt \<Rightarrow> job_error option" where
  "attempt_post_init a =
     (if wa_attempt_no a < 1 \<or> wa_worker_id a = []
      then Some (JobError ''attempt requires positive number and worker ID'')
      else if wa_status a = A_RUNNING \<and> wa_completed_at a \<noteq> None
      then Some (JobError ''running attempt cannot be completed'')
      else if wa_status a \<noteq> A_RUNNING \<and> wa_completed_at a = None
      then Some (JobError ''terminal attempt requires completed_at'')
      else None)"

definition mk_attempt :: "workflow_attempt \<Rightarrow> job_error + workflow_attempt" where
  "mk_attempt a = (case attempt_post_init a of Some e \<Rightarrow> Inl e | None \<Rightarrow> Inr a)"

record job_claim =
  jc_job_id :: string
  jc_claim_token :: string
  jc_lease_expires_at :: instant

lemma mk_job_Inr: "mk_job j = Inr j' \<longleftrightarrow> j' = j \<and> job_post_init j = None"
  by (auto simp: mk_job_def split: option.splits)

lemma mk_attempt_Inr: "mk_attempt a = Inr a' \<longleftrightarrow> a' = a \<and> attempt_post_init a = None"
  by (auto simp: mk_attempt_def split: option.splits)

text \<open>The checks that only depend on fields no queue operation writes.\<close>

definition job_static_ok :: "workflow_job \<Rightarrow> bool" where
  "job_static_ok j \<longleftrightarrow> job_hash_checks j = None \<and> 0 \<le> wj_generation j \<and>
     job_scope_checks j = None \<and> job_trigger_checks j = None"

lemma job_post_init_None:
  "job_post_init j = None \<longleftrightarrow>
     job_static_ok j \<and> 0 \<le> wj_attempt_count j \<and>
     wj_attempt_count j \<le> rp_max_attempts (wj_retry_policy j) \<and> job_lease_checks j = None"
  by (auto simp: job_post_init_def job_static_ok_def split: option.splits)

lemma job_lease_checks_None:
  "job_lease_checks j = None \<longleftrightarrow>
     (if wj_state j \<in> {CLAIMED, RUNNING}
      then wj_claim_token j \<noteq> None \<and> wj_claimed_by j \<noteq> None \<and> wj_claimed_at j \<noteq> None \<and>
        wj_lease_expires_at j \<noteq> None
      else wj_claim_token j = None \<and> wj_claimed_by j = None \<and> wj_claimed_at j = None \<and>
        wj_lease_expires_at j = None) \<and>
     (wj_state j \<in> terminal_job_states \<longleftrightarrow> wj_completed_at j \<noteq> None)"
  by (auto simp: job_lease_checks_def Let_def terminal_job_states_def)

end
