(* ===== verification/Schedules.thy ===== *)
theory Schedules
  imports JobModel
begin

text \<open>
  The recurrences of \<open>ingestion/jobs.py\<close> (\<open>IntervalSchedule\<close>, \<open>CalendarSchedule\<close>,
  \<open>MonthlySchedule\<close>), \<open>recurrence_from_rule\<close>, and \<open>materialize_due_slots\<close> with its
  catch-up policies.

  \<open>zoneinfo\<close> is not part of the repository: a zone is a pair of functions, the wall-clock
  reading of an instant and the instant of a wall-clock reading with \<open>fold=0\<close>, and the zone
  database is a partial function from names to zones. What the calendar recurrences rely on
  is \<open>zone_ok\<close>: the wall clock reads a valid date and the local date never goes back as
  time passes (a fall-back transition repeats an hour, not a day).

  \<open>IntervalSchedule.next_after\<close> divides two \<open>total_seconds()\<close> floats; the model divides
  exactly. The two agree for whole-second intervals, which are the only ones
  \<open>recurrence_from_rule\<close> builds, while the elapsed time is below \<open>2 ^ 32\<close> seconds: there
  every microsecond count has a float of its own and whole seconds are exact.
\<close>

section \<open>Zones\<close>

record zoneinfo =
  zi_local :: "instant \<Rightarrow> datetime"
  zi_utc :: "datetime \<Rightarrow> instant"

type_synonym tzdb = "string \<Rightarrow> zoneinfo option"

definition zone_info :: "tzdb \<Rightarrow> string \<Rightarrow> job_error + zoneinfo" where
  "zone_info tz name = (case tz name of None \<Rightarrow> Inl (ZoneInfoNotFoundError name) | Some z \<Rightarrow> Inr z)"

definition date_ord :: "datetime \<Rightarrow> nat" where
  "date_ord t = ymd2ord (dt_year t) (dt_month t) (dt_day t)"

definition zone_ok :: "zoneinfo \<Rightarrow> bool" where
  "zone_ok z \<longleftrightarrow> (\<forall>i. valid_datetime (zi_local z i)) \<and>
     (\<forall>i j. i \<le> j \<longrightarrow> date_ord (zi_local z i) \<le> date_ord (zi_local z j))"

definition max_ordinal :: nat where
  "max_ordinal = 3652059"

text \<open>
  The body both \<open>_slot_for\<close> methods share: build the wall time, go to UTC and back, and give
  up on a wall time that the spring-forward transition skips.
\<close>

definition wall_slot :: "zoneinfo \<Rightarrow> nat \<Rightarrow> nat \<Rightarrow> nat \<Rightarrow> nat \<Rightarrow> nat \<Rightarrow> instant option" where
  "wall_slot z y m d h mi =
     (let candidate = \<lparr>dt_year = y, dt_month = m, dt_day = d, dt_hour = h, dt_minute = mi,
            dt_second = 0, dt_microsecond = 0\<rparr>;
          u = zi_utc z candidate
      in if zi_local z u \<noteq> candidate then None else Some u)"

lemma wall_slot_local:
  assumes "wall_slot z y m d h mi = Some u"
  shows "date_ord (zi_local z u) = ymd2ord y m d"
  using assms by (auto simp: wall_slot_def Let_def date_ord_def split: if_splits)

section \<open>Interval schedules\<close>

record interval_schedule =
  is_anchor_at :: instant
  is_interval :: duration

definition interval_schedule_init :: "instant \<Rightarrow> duration \<Rightarrow> job_error + interval_schedule" where
  "interval_schedule_init anchor iv =
     (if iv \<le> 0 then Inl (JobError ''interval must be positive'')
      else Inr \<lparr>is_anchor_at = anchor, is_interval = iv\<rparr>)"

definition check_instant :: "instant \<Rightarrow> job_error + instant" where
  "check_instant i = (if instant_ok i then Inr i else Inl JobOverflowError)"

definition interval_next_after :: "interval_schedule \<Rightarrow> instant \<Rightarrow> job_error + instant" where
  "interval_next_after s current =
     (if current < is_anchor_at s then Inr (is_anchor_at s)
      else let elapsed = current - is_anchor_at s;
               cnt = elapsed div is_interval s + 1
           in check_instant (is_anchor_at s + is_interval s * cnt))"

section \<open>Calendar schedules\<close>

record calendar_schedule =
  cs_hour :: int
  cs_minute :: int
  cs_weekdays :: "int list"
  cs_timezone :: string

definition calendar_schedule_init ::
  "tzdb \<Rightarrow> int \<Rightarrow> int \<Rightarrow> int list \<Rightarrow> string \<Rightarrow> job_error + calendar_schedule" where
  "calendar_schedule_init tz hour minute weekdays timezone =
     (if \<not> (0 \<le> hour \<and> hour \<le> 23) \<or> \<not> (0 \<le> minute \<and> minute \<le> 59)
      then Inl (JobError ''invalid calendar schedule time'')
      else if weekdays = [] \<or> list_ex (\<lambda>d. \<not> (0 \<le> d \<and> d < 7)) weekdays
      then Inl (JobError ''weekdays must contain ISO weekday indexes 0..6'')
      else if tz timezone = None then Inl (JobError (''unknown timezone: '' @ repr_string timezone))
      else Inr \<lparr>cs_hour = hour, cs_minute = minute, cs_weekdays = sort (remdups weekdays),
        cs_timezone = timezone\<rparr>)"

text \<open>\<open>date.weekday()\<close> of the day with ordinal \<open>n\<close>: Monday is 0.\<close>

definition weekday :: "nat \<Rightarrow> int" where
  "weekday n = int ((n + 6) mod 7)"

definition calendar_slot_for :: "zoneinfo \<Rightarrow> calendar_schedule \<Rightarrow> nat \<Rightarrow> instant option" where
  "calendar_slot_for z s n =
     (if weekday n \<notin> set (cs_weekdays s) then None
      else case ord2ymd n of (y, m, d) \<Rightarrow> wall_slot z y m d (nat (cs_hour s)) (nat (cs_minute s)))"

text \<open>\<open>range(4_000)\<close>: \<open>k\<close> offsets are left, \<open>n\<close> is \<open>local_day + timedelta(days=offset)\<close>.\<close>

fun calendar_loop ::
  "zoneinfo \<Rightarrow> calendar_schedule \<Rightarrow> instant \<Rightarrow> nat \<Rightarrow> nat \<Rightarrow> job_error + instant" where
  "calendar_loop z s current 0 n = Inl (JobError ''could not materialize calendar slot'')"
| "calendar_loop z s current (Suc k) n =
     (if max_ordinal < n then Inl JobOverflowError
      else case calendar_slot_for z s n of
        Some candidate \<Rightarrow>
          if current < candidate then Inr candidate else calendar_loop z s current k (Suc n)
      | None \<Rightarrow> calendar_loop z s current k (Suc n))"

definition calendar_next_after :: "tzdb \<Rightarrow> calendar_schedule \<Rightarrow> instant \<Rightarrow> job_error + instant" where
  "calendar_next_after tz s current =
     (case zone_info tz (cs_timezone s) of Inl e \<Rightarrow> Inl e
      | Inr z \<Rightarrow> calendar_loop z s current 4000 (date_ord (zi_local z current)))"

section \<open>Monthly schedules\<close>

record monthly_schedule =
  ms_hour :: int
  ms_minute :: int
  ms_timezone :: string
  ms_day :: "int option"
  ms_weekday :: "int option"
  ms_week :: "int option"
  ms_months :: "int list"

definition monthly_schedule_init ::
  "tzdb \<Rightarrow> int \<Rightarrow> int \<Rightarrow> string \<Rightarrow> int option \<Rightarrow> int option \<Rightarrow> int option \<Rightarrow> int list \<Rightarrow>
   job_error + monthly_schedule" where
  "monthly_schedule_init tz hour minute timezone day wday week months =
     (if \<not> (0 \<le> hour \<and> hour \<le> 23) \<or> \<not> (0 \<le> minute \<and> minute \<le> 59)
      then Inl (JobError ''invalid monthly schedule time'')
      else if (day = None) = (wday = None)
      then Inl (JobError ''monthly schedule requires exactly one of day or weekday'')
      else if (case day of None \<Rightarrow> False | Some d \<Rightarrow> \<not> (1 \<le> d \<and> d \<le> 31))
      then Inl (JobError ''monthly day must be in [1, 31]'')
      else if (case wday of None \<Rightarrow> False | Some w \<Rightarrow> \<not> (0 \<le> w \<and> w < 7))
      then Inl (JobError ''monthly weekday must be an ISO weekday index 0..6'')
      else if wday \<noteq> None \<and> (case week of None \<Rightarrow> True | Some w \<Rightarrow> \<not> (1 \<le> w \<and> w \<le> 5))
      then Inl (JobError ''monthly weekday schedule requires week in [1, 5]'')
      else let selected = sort (remdups months)
           in if selected = [] \<or> list_ex (\<lambda>m. \<not> (1 \<le> m \<and> m \<le> 12)) selected
              then Inl (JobError ''monthly schedule months must contain values 1..12'')
              else if tz timezone = None
              then Inl (JobError (''unknown timezone: '' @ repr_string timezone))
              else Inr \<lparr>ms_hour = hour, ms_minute = minute, ms_timezone = timezone, ms_day = day,
                ms_weekday = wday, ms_week = week, ms_months = selected\<rparr>)"

text \<open>
  \<open>_local_day\<close>. \<open>calendar.monthrange\<close> gives the weekday of the first and the number of days;
  \<open>date(year, ...)\<close> rejects a year above 9999.
\<close>

definition monthly_local_day ::
  "monthly_schedule \<Rightarrow> nat \<Rightarrow> nat \<Rightarrow> job_error + (nat \<times> nat \<times> nat) option" where
  "monthly_local_day s year month =
     (let mk = \<lambda>d :: int. if 9999 < year then Inl (JobValueError ''year is out of range'')
            else Inr (Some (year, month, nat d));
          number_of_days = int (days_in_month year month)
      in if int month \<notin> set (ms_months s) then Inr None
         else case ms_day s of
           Some d \<Rightarrow> if number_of_days < d then Inr None else mk d
         | None \<Rightarrow>
             (case (ms_weekday s, ms_week s) of
                (Some w, Some k) \<Rightarrow>
                  (let first_weekday = weekday (ymd2ord year month 1);
                       delta = (w - first_weekday) mod 7;
                       day = 1 + delta + (k - 1) * 7
                   in if number_of_days < day then Inr None else mk day)
              | _ \<Rightarrow> Inl (JobValueError ''AssertionError'')))"

definition monthly_slot_for ::
  "zoneinfo \<Rightarrow> monthly_schedule \<Rightarrow> nat \<Rightarrow> nat \<Rightarrow> job_error + instant option" where
  "monthly_slot_for z s year month =
     (case monthly_local_day s year month of Inl e \<Rightarrow> Inl e
      | Inr None \<Rightarrow> Inr None
      | Inr (Some (y, m, d)) \<Rightarrow> Inr (wall_slot z y m d (nat (ms_hour s)) (nat (ms_minute s))))"

fun monthly_loop ::
  "zoneinfo \<Rightarrow> monthly_schedule \<Rightarrow> instant \<Rightarrow> nat \<Rightarrow> nat \<Rightarrow> nat \<Rightarrow> job_error + instant" where
  "monthly_loop z s current 0 year month = Inl (JobError ''could not materialize monthly slot'')"
| "monthly_loop z s current (Suc k) year month =
     (case monthly_slot_for z s year month of
        Inl e \<Rightarrow> Inl e
      | Inr slot \<Rightarrow>
          (if (case slot of None \<Rightarrow> False | Some candidate \<Rightarrow> current < candidate)
           then Inr (the slot)
           else if month + 1 = 13 then monthly_loop z s current k (year + 1) 1
           else monthly_loop z s current k year (month + 1)))"

definition monthly_next_after :: "tzdb \<Rightarrow> monthly_schedule \<Rightarrow> instant \<Rightarrow> job_error + instant" where
  "monthly_next_after tz s current =
     (case zone_info tz (ms_timezone s) of Inl e \<Rightarrow> Inl e
      | Inr z \<Rightarrow>
          (let l = zi_local z current
           in monthly_loop z s current 1200 (dt_year l) (dt_month l)))"

section \<open>Rules\<close>

text \<open>
  \<open>Recurrence\<close> is a protocol with one method; its three implementations are the
  constructors of \<open>recurrence\<close>. A rule is a JSON mapping: \<open>rule.get\<close> reads a missing key as
  \<open>None\<close>, and \<open>isinstance(x, int)\<close> holds of the booleans too.
\<close>

datatype recurrence =
    IntervalRec interval_schedule | CalendarRec calendar_schedule | MonthlyRec monthly_schedule

fun next_after :: "tzdb \<Rightarrow> recurrence \<Rightarrow> instant \<Rightarrow> job_error + instant" where
  "next_after tz (IntervalRec s) v = interval_next_after s v"
| "next_after tz (CalendarRec s) v = calendar_next_after tz s v"
| "next_after tz (MonthlyRec s) v = monthly_next_after tz s v"

lemma next_after_interval [simp]: "next_after tz (IntervalRec s) = interval_next_after s"
  by (rule ext) simp

text \<open>A sequence of integers: the first message for a non-sequence, the second for a bad item.\<close>

fun int_sequence :: "string \<Rightarrow> string \<Rightarrow> json \<Rightarrow> job_error + int list" where
  "int_sequence msg1 msg2 (JList js) =
     (if list_all (\<lambda>j. as_int j \<noteq> None) js then Inr (List.map_filter as_int js)
      else Inl (JobError msg2))"
| "int_sequence msg1 msg2 _ = Inl (JobError msg1)"

text \<open>An optional integer: \<open>None\<close> stays, anything else must be an integer.\<close>

definition opt_int :: "string \<Rightarrow> json \<Rightarrow> job_error + int option" where
  "opt_int msg j =
     (if j = JNull then Inr None
      else case as_int j of None \<Rightarrow> Inl (JobError msg) | Some n \<Rightarrow> Inr (Some n))"

definition calendar_from_rule ::
  "tzdb \<Rightarrow> bool \<Rightarrow> (string \<times> json) list \<Rightarrow> string \<Rightarrow> job_error + recurrence" where
  "calendar_from_rule tz daily rule timezone =
     (case (as_int (dict_get rule ''hour''), as_int (dict_get rule ''minute'')) of
        (Some hour, Some minute) \<Rightarrow>
          (case (if daily then Inr [0, 1, 2, 3, 4, 5, 6]
                 else int_sequence ''weekly schedule weekdays must be a sequence''
                   ''weekly schedule weekdays must be integers''
                   (case map_of rule ''weekdays'' of
                      None \<Rightarrow> JList [dict_get rule ''weekday''] | Some v \<Rightarrow> v)) of
             Inl e \<Rightarrow> Inl e
           | Inr weekdays \<Rightarrow>
               map_sum id CalendarRec (calendar_schedule_init tz hour minute weekdays timezone))
      | _ \<Rightarrow> Inl (JobError ''calendar schedule requires integer hour and minute''))"

definition monthly_from_rule ::
  "tzdb \<Rightarrow> (string \<times> json) list \<Rightarrow> string \<Rightarrow> job_error + recurrence" where
  "monthly_from_rule tz rule timezone =
     (case (as_int (dict_get rule ''hour''), as_int (dict_get rule ''minute'')) of
        (Some hour, Some minute) \<Rightarrow>
          (case (case map_of rule ''months'' of None \<Rightarrow> Inr [1, 2, 3, 4, 5, 6, 7, 8, 9, 10, 11, 12]
                 | Some v \<Rightarrow> int_sequence ''monthly schedule months must be a sequence''
                     ''monthly schedule months must be integers'' v) of
             Inl e \<Rightarrow> Inl e
           | Inr months \<Rightarrow>
          (case opt_int ''monthly schedule day must be an integer'' (dict_get rule ''day'') of
             Inl e \<Rightarrow> Inl e
           | Inr day \<Rightarrow>
          (case opt_int ''monthly schedule weekday must be an integer''
                  (dict_get rule ''weekday'') of
             Inl e \<Rightarrow> Inl e
           | Inr wday \<Rightarrow>
          (case opt_int ''monthly schedule week must be an integer'' (dict_get rule ''week'') of
             Inl e \<Rightarrow> Inl e
           | Inr week \<Rightarrow>
               map_sum id MonthlyRec
                 (monthly_schedule_init tz hour minute timezone day wday week months)))))
      | _ \<Rightarrow> Inl (JobError ''monthly schedule requires integer hour and minute''))"

definition recurrence_from_rule ::
  "tzdb \<Rightarrow> (string \<times> json) list \<Rightarrow> string \<Rightarrow> instant \<Rightarrow> job_error + recurrence" where
  "recurrence_from_rule tz rule timezone anchor =
     (let kind = dict_get rule ''kind''
      in if kind = JStr ''interval''
         then (case as_int (dict_get rule ''seconds'') of
                 None \<Rightarrow> Inl (JobError ''interval schedule requires integer seconds'')
               | Some n \<Rightarrow> map_sum id IntervalRec (interval_schedule_init anchor (seconds n)))
         else if kind = JStr ''daily'' then calendar_from_rule tz True rule timezone
         else if kind = JStr ''weekly'' then calendar_from_rule tz False rule timezone
         else if kind = JStr ''monthly'' then monthly_from_rule tz rule timezone
         else Inl (JobError (''unsupported schedule rule kind: '' @ repr_json kind)))"

section \<open>Materialisation\<close>

record schedule_materialization =
  sm_slots :: "instant list"
  sm_next_cursor_at :: "instant option"
  sm_skipped_slots :: int

definition safety_limit :: nat where
  "safety_limit = 100000"

text \<open>
  The \<open>while candidate <= current\<close> loop; \<open>next\<close> is the recurrence's bound method. It ends
  after at most \<open>safety_limit + 1\<close> rounds whatever the recurrence does.
\<close>

function due_loop ::
  "(instant \<Rightarrow> job_error + instant) \<Rightarrow> instant \<Rightarrow> instant \<Rightarrow> instant list \<Rightarrow> job_error + instant list"
where
  "due_loop nxt current candidate slots =
     (if candidate \<le> current
      then let slots' = slots @ [candidate]
           in if safety_limit < length slots'
              then Inl (JobError ''schedule materialization exceeded safety limit'')
              else case nxt candidate of Inl e \<Rightarrow> Inl e
                   | Inr candidate' \<Rightarrow> due_loop nxt current candidate' slots'
      else Inr slots)"
  by pat_completeness auto
termination by (relation "measure (\<lambda>(_, _, _, slots). Suc safety_limit - length slots)") auto

declare due_loop.simps [simp del]

text \<open>Where the search starts: the stored cursor, no further back than the horizon.\<close>

definition start_cursor :: "instant option \<Rightarrow> instant \<Rightarrow> duration option \<Rightarrow> instant option" where
  "start_cursor cursor_at current horizon =
     (case (cursor_at, horizon) of
        (None, None) \<Rightarrow> None
      | (None, Some h) \<Rightarrow> Some (current - h)
      | (Some c, None) \<Rightarrow> Some c
      | (Some c, Some h) \<Rightarrow> Some (max c (current - h)))"

definition select_slots ::
  "catchup_policy \<Rightarrow> nat \<Rightarrow> instant option \<Rightarrow> instant list \<Rightarrow> schedule_materialization" where
  "select_slots policy max_jobs cursor_at slots =
     (if slots = []
      then \<lparr>sm_slots = [], sm_next_cursor_at = cursor_at, sm_skipped_slots = 0\<rparr>
      else if policy = LATEST_ONLY
      then \<lparr>sm_slots = [last slots], sm_next_cursor_at = Some (last slots),
        sm_skipped_slots = int (length slots) - 1\<rparr>
      else if policy = ALL_SLOTS
      then \<lparr>sm_slots = slots, sm_next_cursor_at = Some (last slots), sm_skipped_slots = 0\<rparr>
      else let selected = take max_jobs slots
           in \<lparr>sm_slots = selected, sm_next_cursor_at = Some (last selected),
                sm_skipped_slots = int (length slots) - int (length selected)\<rparr>)"

definition materialize_due_slots ::
  "(instant \<Rightarrow> job_error + instant) \<Rightarrow> instant option \<Rightarrow> instant \<Rightarrow> catchup_policy \<Rightarrow> int \<Rightarrow>
   duration option \<Rightarrow> job_error + schedule_materialization" where
  "materialize_due_slots nxt cursor_at current policy max_jobs horizon =
     (if max_jobs < 1 then Inl (JobError ''max_catchup_jobs must be positive'')
      else if policy = MANUAL
      then Inr \<lparr>sm_slots = [], sm_next_cursor_at = cursor_at, sm_skipped_slots = 0\<rparr>
      else case start_cursor cursor_at current horizon of
        None \<Rightarrow> Inr \<lparr>sm_slots = [], sm_next_cursor_at = None, sm_skipped_slots = 0\<rparr>
      | Some cursor \<Rightarrow>
          (case nxt cursor of Inl e \<Rightarrow> Inl e
           | Inr candidate \<Rightarrow>
               (case due_loop nxt current candidate [] of Inl e \<Rightarrow> Inl e
                | Inr slots \<Rightarrow> Inr (select_slots policy (nat max_jobs) cursor_at slots))))"

section \<open>The recurrence contract\<close>

text \<open>
  What \<open>materialize_due_slots\<close> relies on, as \<open>Recurrence.next_after\<close> documents it: the first
  scheduled slot strictly after the given instant.
\<close>

locale recurrence_contract =
  fixes valid :: "'r \<Rightarrow> bool"
    and nxt :: "'r \<Rightarrow> instant \<Rightarrow> job_error + instant"
    and slot :: "'r \<Rightarrow> instant \<Rightarrow> bool"
  assumes nxt_after: "valid r \<Longrightarrow> nxt r v = Inr c \<Longrightarrow> v < c"
    and nxt_slot: "valid r \<Longrightarrow> nxt r v = Inr c \<Longrightarrow> slot r c"
    and nxt_least: "valid r \<Longrightarrow> nxt r v = Inr c \<Longrightarrow> slot r s \<Longrightarrow> v < s \<Longrightarrow> c \<le> s"
begin

lemma due_loop_slots:
  assumes "valid r" and "nxt r v = Inr c" and "due_loop (nxt r) now c acc = Inr ss"
  shows "\<exists>ds. ss = acc @ ds \<and> sorted_wrt (<) ds \<and> set ds = {s. slot r s \<and> v < s \<and> s \<le> now}"
  using assms(2,3)
proof (induction "nxt r" now c acc arbitrary: v ss rule: due_loop.induct)
  case (1 now c acc)
  note c = nxt_after [OF assms(1) 1(2)] nxt_slot [OF assms(1) 1(2)] nxt_least [OF assms(1) 1(2)]
  show ?case
  proof (cases "c \<le> now")
    case False
    then have "ss = acc" using 1(3) by (simp add: due_loop.simps)
    moreover have "{s. slot r s \<and> v < s \<and> s \<le> now} = {}"
      using False c(3) by force
    ultimately show ?thesis by auto
  next
    case True
    then obtain c' where lim: "\<not> safety_limit < length (acc @ [c])" and c': "nxt r c = Inr c'"
      and rec: "due_loop (nxt r) now c' (acc @ [c]) = Inr ss"
      using 1(3) by (subst (asm) due_loop.simps) (auto simp: Let_def split: if_splits sum.splits)
    from 1(1) [OF True refl lim c' c' rec] obtain ds
      where ds: "ss = (acc @ [c]) @ ds" "sorted_wrt (<) ds" "set ds = {s. slot r s \<and> c < s \<and> s \<le> now}"
      by blast
    have "set (c # ds) = {s. slot r s \<and> v < s \<and> s \<le> now}"
      using ds(3) c(1,2) True c(3) by (auto simp: order_le_less)
    moreover have "sorted_wrt (<) (c # ds)" using ds by simp
    ultimately show ?thesis using ds(1) by (intro exI [of _ "c # ds"]) simp
  qed
qed

text \<open>Two strictly increasing lists with the same elements are equal.\<close>

lemma due_slots_unique:
  assumes "valid r" and "nxt r v = Inr c" and "due_loop (nxt r) now c [] = Inr ss"
    and "sorted_wrt (<) ds" and "set ds = {s. slot r s \<and> v < s \<and> s \<le> now}"
  shows "ss = ds"
  using due_loop_slots [OF assms(1-3)] assms(4,5) by (auto intro: strict_sorted_equal)

text \<open>The due slots of a window, as a list in order.\<close>

lemma window_split:
  assumes "a \<le> b" and "b \<le> c"
  shows "{s. slot r s \<and> a < s \<and> s \<le> c} =
    {s. slot r s \<and> a < s \<and> s \<le> b} \<union> {s. slot r s \<and> b < s \<and> s \<le> c}"
  using assms by auto

text \<open>If the recurrence always answers and at most the limit is due, the loop answers.\<close>

lemma due_loop_total:
  assumes "valid r" and total: "\<And>v. v \<le> now \<Longrightarrow> \<exists>c. nxt r v = Inr c"
    and "nxt r v = Inr c"
    and "finite {s. slot r s \<and> v < s \<and> s \<le> now}"
    and "length acc + card {s. slot r s \<and> v < s \<and> s \<le> now} \<le> safety_limit"
  shows "\<exists>ss. due_loop (nxt r) now c acc = Inr ss"
  using assms(2-)
proof (induction "nxt r" now c acc arbitrary: v rule: due_loop.induct)
  case (1 now c acc)
  note c = nxt_after [OF assms(1) 1(3)] nxt_slot [OF assms(1) 1(3)] nxt_least [OF assms(1) 1(3)]
  show ?case
  proof (cases "c \<le> now")
    case False
    then show ?thesis by (simp add: due_loop.simps)
  next
    case True
    let ?W = "\<lambda>v. {s. slot r s \<and> v < s \<and> s \<le> now}"
    have W: "?W v = insert c (?W c)" using c True by (auto simp: order_le_less)
    have fin: "finite (?W c)" using 1(4) W by simp
    have card: "card (?W v) = Suc (card (?W c))" using fin W by simp
    have lim: "\<not> safety_limit < length (acc @ [c])" using 1(5) card by simp
    obtain c' where c': "nxt r c = Inr c'" using 1(2) True by blast
    have "\<exists>ss. due_loop (nxt r) now c' (acc @ [c]) = Inr ss"
      using 1(1) [OF True refl lim c' 1(2) c' fin] 1(5) card by simp
    then show ?thesis using True lim c' by (subst due_loop.simps) (simp add: Let_def)
  qed
qed

lemma materialize_window:
  assumes "valid r" and "policy \<noteq> MANUAL" and "start_cursor cursor now horizon = Some v"
    and "materialize_due_slots (nxt r) cursor now policy k horizon = Inr m"
  obtains ss where "sorted_wrt (<) ss" and "set ss = {s. slot r s \<and> v < s \<and> s \<le> now}"
    and "m = select_slots policy (nat k) cursor ss" and "1 \<le> k"
proof -
  from assms obtain c ss where c: "nxt r v = Inr c" and ss: "due_loop (nxt r) now c [] = Inr ss"
    and m: "m = select_slots policy (nat k) cursor ss" "1 \<le> k"
    by (auto simp: materialize_due_slots_def split: if_splits sum.splits)
  from due_loop_slots [OF assms(1) c ss] show thesis using m that by auto
qed

text \<open>
  Every materialised slot is due, in order and in the window; the counts add up to the
  number of due slots.
\<close>

lemma window_sound:
  assumes "valid r" and "policy \<noteq> MANUAL" and "start_cursor cursor now horizon = Some v"
    and "materialize_due_slots (nxt r) cursor now policy k horizon = Inr m"
  shows "sorted_wrt (<) (sm_slots m)"
    and "\<forall>s \<in> set (sm_slots m). slot r s \<and> v < s \<and> s \<le> now"
    and "int (length (sm_slots m)) + sm_skipped_slots m =
      int (card {s. slot r s \<and> v < s \<and> s \<le> now})"
proof -
  from materialize_window [OF assms] obtain ss where
    ss: "sorted_wrt (<) ss" "set ss = {s. slot r s \<and> v < s \<and> s \<le> now}"
    and m: "m = select_slots policy (nat k) cursor ss" by blast
  have sub: "set (sm_slots m) \<subseteq> set ss"
    using set_take_subset [of "nat k" ss] by (auto simp: m select_slots_def Let_def)
  then show "\<forall>s \<in> set (sm_slots m). slot r s \<and> v < s \<and> s \<le> now" using ss(2) by blast
  show "sorted_wrt (<) (sm_slots m)"
    using ss(1) by (auto simp: m select_slots_def Let_def sorted_wrt_take)
  have "card {s. slot r s \<and> v < s \<and> s \<le> now} = length ss"
    using ss by (metis distinct_card strict_sorted_iff)
  then show "int (length (sm_slots m)) + sm_skipped_slots m =
      int (card {s. slot r s \<and> v < s \<and> s \<le> now})"
    by (simp add: m select_slots_def Let_def)
qed

lemma all_slots_window:
  assumes "valid r" and "materialize_due_slots (nxt r) (Some v) now ALL_SLOTS k None = Inr m"
  shows "sorted_wrt (<) (sm_slots m)" and "set (sm_slots m) = {s. slot r s \<and> v < s \<and> s \<le> now}"
    and "sm_next_cursor_at m = Some (if sm_slots m = [] then v else last (sm_slots m))"
proof -
  have sc: "start_cursor (Some v) now None = Some v" by (simp add: start_cursor_def)
  have p: "ALL_SLOTS \<noteq> MANUAL" by simp
  obtain ss where ss: "sorted_wrt (<) ss" "set ss = {s. slot r s \<and> v < s \<and> s \<le> now}"
    and m: "m = select_slots ALL_SLOTS (nat k) (Some v) ss"
    using materialize_window [OF assms(1) p sc assms(2)] by blast
  have "sm_slots m = ss" by (simp add: m select_slots_def)
  then show "sorted_wrt (<) (sm_slots m)" and "set (sm_slots m) = {s. slot r s \<and> v < s \<and> s \<le> now}"
    and "sm_next_cursor_at m = Some (if sm_slots m = [] then v else last (sm_slots m))"
    using ss by (simp_all add: m select_slots_def)
qed

text \<open>
  Two successive ticks under \<open>ALL_SLOTS\<close> materialise what one late tick would have: nothing
  is lost and nothing is enqueued twice.
\<close>

lemma all_slots_ticks:
  assumes r: "valid r" and "now1 \<le> now2"
    and m1: "materialize_due_slots (nxt r) (Some v) now1 ALL_SLOTS k None = Inr m1"
    and m2: "materialize_due_slots (nxt r) (sm_next_cursor_at m1) now2 ALL_SLOTS k None = Inr m2"
    and m: "materialize_due_slots (nxt r) (Some v) now2 ALL_SLOTS k None = Inr m"
  shows "sm_slots m = sm_slots m1 @ sm_slots m2"
proof -
  note w1 = all_slots_window [OF r m1] and w = all_slots_window [OF r m]
  let ?v = "if sm_slots m1 = [] then v else last (sm_slots m1)"
  note w2 = all_slots_window [OF r m2 [unfolded w1(3)]]
  have le: "s \<le> ?v" if "s \<in> set (sm_slots m1)" for s
    using strict_sorted_last [OF w1(1) that] that by auto
  have "v < last (sm_slots m1) \<and> last (sm_slots m1) \<le> now1" if "sm_slots m1 \<noteq> []"
    using last_in_set [OF that] unfolding w1(2) by simp
  then have v: "v \<le> ?v" "?v \<le> now1 \<or> sm_slots m1 = []" by auto
  have "s < t" if "s \<in> set (sm_slots m1)" "t \<in> set (sm_slots m2)" for s t
    using le [OF that(1)] that(2) unfolding w2(2) by auto
  then have "sorted_wrt (<) (sm_slots m1 @ sm_slots m2)"
    using w1(1) w2(1) unfolding sorted_wrt_append by blast
  moreover have "set (sm_slots m1 @ sm_slots m2) = set (sm_slots m)"
  proof -
    have "s \<in> set (sm_slots m1) \<or> s \<in> set (sm_slots m2)" if "s \<in> set (sm_slots m)" for s
      using that v assms(2) unfolding w1(2) w2(2) w(2) by (cases "s \<le> now1") auto
    moreover have "s \<in> set (sm_slots m)" if "s \<in> set (sm_slots m1)" for s
      using that assms(2) unfolding w1(2) w(2) by auto
    moreover have "s \<in> set (sm_slots m)" if "s \<in> set (sm_slots m2)" for s
      using that v(1) unfolding w2(2) w(2) by auto
    ultimately show ?thesis by auto
  qed
  ultimately show ?thesis using w(1) by (metis strict_sorted_equal)
qed

end

section \<open>The three recurrences keep the contract\<close>

definition interval_slot :: "interval_schedule \<Rightarrow> instant \<Rightarrow> bool" where
  "interval_slot s t \<longleftrightarrow> is_anchor_at s \<le> t \<and> (t - is_anchor_at s) mod is_interval s = 0"

lemma interval_next:
  assumes "0 < is_interval s" and "interval_next_after s v = Inr c"
  shows "v < c" and "interval_slot s c" and "interval_slot s t \<Longrightarrow> v < t \<Longrightarrow> c \<le> t"
proof -
  let ?a = "is_anchor_at s" and ?w = "is_interval s"
  let ?q = "(v - ?a) div ?w"
  have c: "c = (if v < ?a then ?a else ?a + ?w * (?q + 1))"
    using assms(2) by (auto simp: interval_next_after_def Let_def check_instant_def split: if_splits)
  have q: "v - ?a < ?w * (?q + 1)"
    using pos_mod_bound [OF assms(1), of "v - ?a"] mult_div_mod_eq [of ?w "v - ?a"]
    by (simp only: distrib_left mult_1_right)
  show "v < c" using q by (auto simp: c)
  have "0 \<le> ?w * (?q + 1)" if "\<not> v < ?a"
    using assms(1) that pos_imp_zdiv_nonneg_iff [OF assms(1), of "v - ?a"] by simp
  then show "interval_slot s c" by (auto simp: c interval_slot_def)
  assume t: "interval_slot s t" "v < t"
  then obtain k where k: "t - ?a = ?w * k" by (auto simp: interval_slot_def)
  show "c \<le> t"
  proof (cases "v < ?a")
    case True
    then show ?thesis using t by (simp add: c interval_slot_def)
  next
    case False
    have "?w * ?q \<le> v - ?a"
      using pos_mod_sign [OF assms(1), of "v - ?a"] mult_div_mod_eq [of ?w "v - ?a"] by linarith
    then have "?w * ?q < ?w * k" using t(2) k by linarith
    then have "?q + 1 \<le> k" using assms(1) by (simp add: mult_less_cancel_left)
    then have "?w * (?q + 1) \<le> ?w * k" using assms(1) by simp
    then show ?thesis using False k by (simp add: c)
  qed
qed

text \<open>
  Both wall-clock recurrences scan an index (the day, the month) upwards for the first slot
  after \<open>current\<close>. Slots of later indexes are later, because local dates do not go back.
\<close>

definition scan_hit ::
  "(nat \<Rightarrow> job_error + instant option) \<Rightarrow> instant \<Rightarrow> nat \<Rightarrow> nat \<Rightarrow> instant \<Rightarrow> bool" where
  "scan_hit f current k i c \<longleftrightarrow> k \<le> i \<and> f i = Inr (Some c) \<and> current < c \<and>
     (\<forall>j. k \<le> j \<and> j < i \<longrightarrow> (\<exists>x. f j = Inr x \<and> (\<forall>c'. x = Some c' \<longrightarrow> c' \<le> current)))"

lemma scan_hit_step:
  assumes "scan_hit f current (Suc k) i c" and "f k = Inr x" and "\<And>c'. x = Some c' \<Longrightarrow> c' \<le> current"
  shows "scan_hit f current k i c"
  unfolding scan_hit_def
proof (intro conjI allI impI)
  fix j assume "k \<le> j \<and> j < i"
  then show "\<exists>x. f j = Inr x \<and> (\<forall>c'. x = Some c' \<longrightarrow> c' \<le> current)"
    using assms by (cases "j = k") (auto simp: scan_hit_def)
qed (use assms in \<open>auto simp: scan_hit_def\<close>)

lemma scan_hit_least:
  assumes hit: "scan_hit f current k i c" and s: "f j = Inr (Some s)" "current < s" "k \<le> j"
    and mono: "\<And>i j a b. f i = Inr (Some a) \<Longrightarrow> f j = Inr (Some b) \<Longrightarrow> i < j \<Longrightarrow> a \<le> b"
  shows "c \<le> s"
proof -
  have "\<not> j < i" using hit s by (force simp: scan_hit_def)
  then show ?thesis using hit s mono [of i c j s] by (cases "i = j") (auto simp: scan_hit_def)
qed

definition calendar_index :: "zoneinfo \<Rightarrow> calendar_schedule \<Rightarrow> nat \<Rightarrow> job_error + instant option" where
  "calendar_index z s n =
     (if n < 1 \<or> max_ordinal < n then Inl JobOverflowError else Inr (calendar_slot_for z s n))"

lemma calendar_loop_hit:
  "1 \<le> n \<Longrightarrow> calendar_loop z s current k n = Inr c \<Longrightarrow>
     \<exists>i. scan_hit (calendar_index z s) current n i c"
proof (induction k arbitrary: n)
  case (Suc k)
  show ?case
  proof (cases "\<exists>c'. calendar_slot_for z s n = Some c' \<and> current < c'")
    case True
    with Suc.prems have "scan_hit (calendar_index z s) current n n c"
      by (auto simp: scan_hit_def calendar_index_def split: if_splits)
    then show ?thesis ..
  next
    case False
    with Suc.prems have n: "n \<le> max_ordinal" and "calendar_loop z s current k (Suc n) = Inr c"
      by (auto split: if_splits option.splits)
    with Suc.IH [of "Suc n"] obtain i where "scan_hit (calendar_index z s) current (Suc n) i c" by auto
    then have "scan_hit (calendar_index z s) current n i c"
      by (rule scan_hit_step [where x = "calendar_slot_for z s n"])
        (use False n Suc.prems in \<open>auto simp: calendar_index_def\<close>)
    then show ?thesis ..
  qed
qed simp

lemma zone_ok_order:
  assumes "zone_ok z" and "date_ord (zi_local z a) < date_ord (zi_local z b)"
  shows "a < b"
  using assms unfolding zone_ok_def by (meson leD not_le_imp_less)

lemma calendar_index_date:
  assumes "calendar_index z s n = Inr (Some a)"
  shows "date_ord (zi_local z a) = n"
proof -
  obtain y m d where o: "ord2ymd n = (y, m, d)" by (cases "ord2ymd n") auto
  have r: "1 \<le> n" "n \<le> max_ordinal" "wall_slot z y m d (nat (cs_hour s)) (nat (cs_minute s)) = Some a"
    using assms o by (auto simp: calendar_index_def calendar_slot_for_def split: if_splits)
  have "ymd2ord y m d = n"
    using ord2ymd_spec [OF _ _ o] r(1,2) by (simp add: max_ordinal_def)
  then show ?thesis using wall_slot_local [OF r(3)] by simp
qed

lemma calendar_next:
  assumes "tz (cs_timezone s) = Some z" and "zone_ok z" and "calendar_next_after tz s v = Inr c"
  shows "v < c" and "\<exists>n. calendar_index z s n = Inr (Some c)"
    and "calendar_index z s n = Inr (Some t) \<Longrightarrow> v < t \<Longrightarrow> c \<le> t"
proof -
  let ?n = "date_ord (zi_local z v)"
  have "valid_datetime (zi_local z v)" using assms(2) by (simp add: zone_ok_def)
  then have "1 \<le> ?n" by (auto simp: date_ord_def valid_datetime_def valid_date_def ymd2ord_def)
  then obtain i where hit: "scan_hit (calendar_index z s) v ?n i c"
    using calendar_loop_hit [of ?n z s v 4000 c] assms(1,3)
    by (auto simp: calendar_next_after_def zone_info_def)
  then show "v < c" and "\<exists>n. calendar_index z s n = Inr (Some c)" by (auto simp: scan_hit_def)
  assume t: "calendar_index z s n = Inr (Some t)" "v < t"
  have "?n \<le> n"
    using assms(2) t(2) calendar_index_date [OF t(1)] by (auto simp: zone_ok_def)
  moreover have "a \<le> b"
    if "calendar_index z s i = Inr (Some a)" "calendar_index z s j = Inr (Some b)" "i < j" for i j a b
    using zone_ok_order [OF assms(2), of a b] that by (simp add: calendar_index_date)
  ultimately show "c \<le> t" using scan_hit_least [OF hit t(1,2)] by blast
qed

text \<open>The month with index \<open>12 * year + month - 1\<close>.\<close>

definition monthly_index :: "zoneinfo \<Rightarrow> monthly_schedule \<Rightarrow> nat \<Rightarrow> job_error + instant option" where
  "monthly_index z s n = monthly_slot_for z s (n div 12) (n mod 12 + 1)"

lemma month_index_split: "1 \<le> m \<Longrightarrow> m \<le> 12 \<Longrightarrow>
  (12 * y + (m - 1)) div 12 = y \<and> (12 * y + (m - 1)) mod 12 + 1 = (m :: nat)"
  by (cases m) auto

lemma monthly_loop_hit:
  "1 \<le> m \<Longrightarrow> m \<le> 12 \<Longrightarrow> monthly_loop z s current k y m = Inr c \<Longrightarrow>
     \<exists>i. scan_hit (monthly_index z s) current (12 * y + (m - 1)) i c"
proof (induction k arbitrary: y m)
  case (Suc k)
  let ?n = "12 * y + (m - 1)"
  have idx: "monthly_index z s ?n = monthly_slot_for z s y m"
    using month_index_split [OF Suc.prems(1,2), of y] by (simp only: monthly_index_def)
  obtain x where x: "monthly_slot_for z s y m = Inr x"
    using Suc.prems(3) by (auto split: sum.splits)
  show ?case
  proof (cases "\<exists>c'. x = Some c' \<and> current < c'")
    case True
    with Suc.prems(3) x have "x = Some c" "current < c" by auto
    then have "scan_hit (monthly_index z s) current ?n ?n c"
      unfolding scan_hit_def idx x by auto
    then show ?thesis ..
  next
    case False
    then have nx: "\<not> (case x of None \<Rightarrow> False | Some c' \<Rightarrow> current < c')" by (auto split: option.splits)
    have "\<exists>i. scan_hit (monthly_index z s) current (Suc ?n) i c"
    proof (cases "m = 12")
      case True
      then have "Suc ?n = 12 * (y + 1) + (1 - 1)" by simp
      moreover have "monthly_loop z s current k (y + 1) 1 = Inr c"
        using Suc.prems(3) x nx True by simp
      ultimately show ?thesis using Suc.IH [of 1 "y + 1"] by simp
    next
      case False
      then have "Suc ?n = 12 * y + (m + 1 - 1)" using Suc.prems(1) by simp
      moreover have "monthly_loop z s current k y (m + 1) = Inr c"
        using Suc.prems(3) x nx False by simp
      ultimately show ?thesis using Suc.IH [of "m + 1" y] Suc.prems(2) False by simp
    qed
    then obtain i where "scan_hit (monthly_index z s) current (Suc ?n) i c" ..
    then have "scan_hit (monthly_index z s) current ?n i c"
      by (rule scan_hit_step [where x = x]) (use False idx x in \<open>auto simp: not_less\<close>)
    then show ?thesis ..
  qed
qed simp

definition month_of :: "datetime \<Rightarrow> nat" where
  "month_of t = 12 * dt_year t + (dt_month t - 1)"

lemma month_of_less:
  assumes "valid_datetime t" and "valid_datetime u" and "month_of t < month_of u"
  shows "date_ord t < date_ord u"
proof -
  have "dt_year t < dt_year u \<or> dt_year t = dt_year u \<and> dt_month t < dt_month u"
    using assms by (auto simp: month_of_def valid_datetime_def valid_date_def)
  then show ?thesis
    using assms(1,2) by (auto simp: date_ord_def valid_datetime_def intro!: ymd2ord_less)
qed

lemma monthly_index_date:
  assumes "zone_ok z" and "monthly_index z s n = Inr (Some a)"
  shows "month_of (zi_local z a) = n"
proof -
  obtain d where "monthly_local_day s (n div 12) (n mod 12 + 1) = Inr (Some (n div 12, n mod 12 + 1, d))"
    and "wall_slot z (n div 12) (n mod 12 + 1) d (nat (ms_hour s)) (nat (ms_minute s)) = Some a"
    using assms(2)
    by (auto simp: monthly_index_def monthly_slot_for_def monthly_local_day_def Let_def
        split: sum.splits option.splits if_splits)
  then show ?thesis
    by (auto simp: wall_slot_def Let_def month_of_def split: if_splits)
qed

lemma monthly_next:
  assumes "tz (ms_timezone s) = Some z" and "zone_ok z" and "monthly_next_after tz s v = Inr c"
  shows "v < c" and "\<exists>n. monthly_index z s n = Inr (Some c)"
    and "monthly_index z s n = Inr (Some t) \<Longrightarrow> v < t \<Longrightarrow> c \<le> t"
proof -
  let ?l = "zi_local z v"
  have val: "valid_datetime (zi_local z i)" for i using assms(2) by (simp add: zone_ok_def)
  then have "1 \<le> dt_month ?l" "dt_month ?l \<le> 12" by (auto simp: valid_datetime_def valid_date_def)
  then obtain i where hit: "scan_hit (monthly_index z s) v (month_of ?l) i c"
    using monthly_loop_hit [of "dt_month ?l" z s v 1200 "dt_year ?l" c] assms(1,3)
    by (auto simp: monthly_next_after_def zone_info_def Let_def month_of_def)
  then show "v < c" and "\<exists>n. monthly_index z s n = Inr (Some c)" by (auto simp: scan_hit_def)
  have order: "month_of (zi_local z a) \<le> month_of (zi_local z b)" if "a \<le> b" for a b
    using month_of_less [OF val val] assms(2) that unfolding zone_ok_def by (meson leD not_le_imp_less)
  assume t: "monthly_index z s n = Inr (Some t)" "v < t"
  have "month_of ?l \<le> n" using order [of v t] t monthly_index_date [OF assms(2) t(1)] by simp
  moreover have "a \<le> b"
    if "monthly_index z s i = Inr (Some a)" "monthly_index z s j = Inr (Some b)" "i < j" for i j a b
    using order [of b a] that monthly_index_date [OF assms(2)] by fastforce
  ultimately show "c \<le> t" using scan_hit_least [OF hit t(1,2)] by blast
qed

fun recurrence_valid :: "tzdb \<Rightarrow> recurrence \<Rightarrow> bool" where
  "recurrence_valid tz (IntervalRec s) \<longleftrightarrow> 0 < is_interval s"
| "recurrence_valid tz (CalendarRec s) \<longleftrightarrow> (\<exists>z. tz (cs_timezone s) = Some z \<and> zone_ok z)"
| "recurrence_valid tz (MonthlyRec s) \<longleftrightarrow> (\<exists>z. tz (ms_timezone s) = Some z \<and> zone_ok z)"

text \<open>The instants a recurrence names: its grid, or its existing wall-clock times.\<close>

fun recurrence_slot :: "tzdb \<Rightarrow> recurrence \<Rightarrow> instant \<Rightarrow> bool" where
  "recurrence_slot tz (IntervalRec s) t \<longleftrightarrow> interval_slot s t"
| "recurrence_slot tz (CalendarRec s) t \<longleftrightarrow>
     (\<exists>z n. tz (cs_timezone s) = Some z \<and> calendar_index z s n = Inr (Some t))"
| "recurrence_slot tz (MonthlyRec s) t \<longleftrightarrow>
     (\<exists>z n. tz (ms_timezone s) = Some z \<and> monthly_index z s n = Inr (Some t))"

lemma next_after_contract:
  assumes "recurrence_valid tz r" and "next_after tz r v = Inr c"
  shows "v < c \<and> recurrence_slot tz r c \<and> (\<forall>s. recurrence_slot tz r s \<longrightarrow> v < s \<longrightarrow> c \<le> s)"
proof (cases r)
  case (IntervalRec s)
  with assms show ?thesis using interval_next [of s v c] by simp
next
  case (CalendarRec s)
  with assms obtain z where z: "tz (cs_timezone s) = Some z" "zone_ok z" by auto
  note c = calendar_next [OF z assms(2) [unfolded CalendarRec next_after.simps]]
  show ?thesis using CalendarRec z(1) c by fastforce
next
  case (MonthlyRec s)
  with assms obtain z where z: "tz (ms_timezone s) = Some z" "zone_ok z" by auto
  note c = monthly_next [OF z assms(2) [unfolded MonthlyRec next_after.simps]]
  show ?thesis using MonthlyRec z(1) c by fastforce
qed

interpretation rec: recurrence_contract
  "\<lambda>(tz, r). recurrence_valid tz r" "\<lambda>(tz, r). next_after tz r" "\<lambda>(tz, r). recurrence_slot tz r"
  by unfold_locales (auto dest: next_after_contract)

lemma recurrence_from_rule_valid:
  assumes "recurrence_from_rule tz rule name anchor = Inr r"
    and "\<And>z. tz name = Some z \<Longrightarrow> zone_ok z"
  shows "recurrence_valid tz r"
  using assms
  by (fastforce simp: recurrence_from_rule_def calendar_from_rule_def monthly_from_rule_def Let_def
      interval_schedule_init_def calendar_schedule_init_def monthly_schedule_init_def
      split: if_splits option.splits sum.splits)

text \<open>The UTC zone: its wall clock is the instant itself, cut off at the ends of the calendar.\<close>

definition clamp :: "instant \<Rightarrow> instant" where
  "clamp i = max (-62135596800000000) (min 253402300799999999 i)"

definition utc_zone :: zoneinfo where
  "utc_zone = \<lparr>zi_local = (\<lambda>i. of_instant (clamp i)), zi_utc = to_instant\<rparr>"

definition utc_only :: tzdb where
  "utc_only name = (if name = ''UTC'' then Some utc_zone else None)"

lemma to_instant_date_mono:
  assumes "valid_datetime t" and "valid_datetime u" and "to_instant t \<le> to_instant u"
  shows "date_ord t \<le> date_ord u"
proof (rule ccontr)
  assume "\<not> ?thesis"
  then have "(int (date_ord u) - 719163) + 1 \<le> int (date_ord t) - 719163" by simp
  then show False
    using assms(3) day_seconds_bounds [OF assms(1)] day_seconds_bounds [OF assms(2)]
      assms(1,2) unfolding to_instant_split date_ord_def [symmetric]
    by (auto simp: valid_datetime_def)
qed

lemma utc_zone_ok: "zone_ok utc_zone"
proof -
  have ok: "instant_ok (clamp i)" for i by (simp add: instant_ok_def clamp_def)
  have "clamp i \<le> clamp j" if "i \<le> j" for i j using that by (auto simp: clamp_def)
  then have "date_ord (of_instant (clamp i)) \<le> date_ord (of_instant (clamp j))" if "i \<le> j" for i j
    using that of_instant_spec [OF ok] by (intro to_instant_date_mono) auto
  then show ?thesis using of_instant_spec [OF ok] by (simp add: zone_ok_def utc_zone_def)
qed

lemma utc_local [simp]: "zi_local utc_zone i = of_instant (clamp i)" by (simp add: utc_zone_def)

lemma wall_slot_utc:
  assumes "valid_date y m d" and "h < 24" and "mi < 60"
  shows "wall_slot utc_zone y m d h mi = Some (to_instant \<lparr>dt_year = y, dt_month = m, dt_day = d,
    dt_hour = h, dt_minute = mi, dt_second = 0, dt_microsecond = 0\<rparr>)"
proof -
  let ?t = "\<lparr>dt_year = y, dt_month = m, dt_day = d, dt_hour = h, dt_minute = mi, dt_second = 0,
    dt_microsecond = 0\<rparr>"
  have v: "valid_datetime ?t" using assms by (intro valid_datetime_intro) auto
  then have "clamp (to_instant ?t) = to_instant ?t"
    using to_instant_ok [OF v] by (simp only: clamp_def instant_ok_def) simp
  then show ?thesis using of_instant_to_instant [OF v] by (simp add: wall_slot_def utc_zone_def Let_def)
qed

lemma calendar_loop_numeral:
  "calendar_loop z s current (numeral k) n =
     (if max_ordinal < n then Inl JobOverflowError
      else case calendar_slot_for z s n of
        Some candidate \<Rightarrow>
          if current < candidate then Inr candidate
          else calendar_loop z s current (pred_numeral k) (Suc n)
      | None \<Rightarrow> calendar_loop z s current (pred_numeral k) (Suc n))"
  by (subst numeral_eq_Suc) (rule calendar_loop.simps)

lemmas schedule_eval =
  calendar_next_after_def zone_info_def calendar_loop_numeral calendar_slot_for_def weekday_def
  wall_slot_utc valid_date_def date_ord_def clamp_def to_instant_def ymd2ord_def
  days_before_year_def max_ordinal_def is_leap_def days_in_month_def

section \<open>Interval schedules answer within the safety limit\<close>

lemma interval_next_total:
  assumes "0 < is_interval s" and "instant_ok (is_anchor_at s)"
    and "instant_ok (now + is_interval s)" and "v \<le> now"
  shows "\<exists>c. interval_next_after s v = Inr c"
proof (cases "v < is_anchor_at s")
  case False
  let ?a = "is_anchor_at s" and ?w = "is_interval s"
  let ?c = "?a + ?w * ((v - ?a) div ?w + 1)"
  have "?w * ((v - ?a) div ?w) \<le> v - ?a"
    using pos_mod_sign [OF assms(1), of "v - ?a"] mult_div_mod_eq [of ?w "v - ?a"] by linarith
  then have "?c \<le> now + ?w" using assms(4) by (simp add: distrib_left)
  moreover have "0 \<le> ?w * ((v - ?a) div ?w + 1)"
    using False assms(1) pos_imp_zdiv_nonneg_iff [OF assms(1), of "v - ?a"] by simp
  ultimately have "instant_ok ?c" using assms(2,3) unfolding instant_ok_def by linarith
  then show ?thesis using False by (simp add: interval_next_after_def Let_def check_instant_def)
qed (simp add: interval_next_after_def)

lemma interval_window_card:
  assumes "0 < is_interval s" and "v \<le> now" and "now - v < is_interval s * int n"
  shows "finite {t. interval_slot s t \<and> v < t \<and> t \<le> now}"
    and "card {t. interval_slot s t \<and> v < t \<and> t \<le> now} \<le> n"
proof -
  let ?a = "is_anchor_at s" and ?w = "is_interval s"
  let ?W = "{t. interval_slot s t \<and> v < t \<and> t \<le> now}"
  let ?q = "(v - ?a) div ?w"
  have sub: "?W \<subseteq> (\<lambda>k. ?a + ?w * (?q + 1 + int k)) ` {0..<n}"
  proof
    fix t assume t: "t \<in> ?W"
    then obtain k where k: "t - ?a = ?w * k" by (auto simp: interval_slot_def)
    have lo: "?w * ?q \<le> v - ?a" and hi: "v - ?a < ?w * ?q + ?w"
      using pos_mod_sign [OF assms(1), of "v - ?a"] pos_mod_bound [OF assms(1), of "v - ?a"]
        mult_div_mod_eq [of ?w "v - ?a"] by linarith+
    have "?w * ?q < ?w * k" using t k lo by auto
    then have 1: "?q + 1 \<le> k" using assms(1) by (simp add: mult_less_cancel_left)
    have "?w * k < ?w * ?q + ?w + ?w * int n" using t k hi assms(3) by auto
    then have "?w * k < ?w * (?q + 1 + int n)" by (simp add: distrib_left)
    then have 2: "k < ?q + 1 + int n" using assms(1) by (simp add: mult_less_cancel_left)
    have "t = ?a + ?w * (?q + 1 + int (nat (k - ?q - 1)))" using k 1 by simp
    moreover have "nat (k - ?q - 1) \<in> {0..<n}" using 1 2 by auto
    ultimately show "t \<in> (\<lambda>k. ?a + ?w * (?q + 1 + int k)) ` {0..<n}" by blast
  qed
  show "finite ?W" using sub by (rule finite_subset) simp
  have "card ?W \<le> card ((\<lambda>k. ?a + ?w * (?q + 1 + int k)) ` {0..<n})"
    by (rule card_mono [OF _ sub]) simp
  also have "\<dots> \<le> n" using card_image_le [of "{0..<n}"] by fastforce
  finally show "card ?W \<le> n" .
qed

section \<open>Properties\<close>

definition weekly_rule :: "(string \<times> json) list" where
  "weekly_rule = [(''kind'', JStr ''weekly''), (''hour'', JInt 9), (''minute'', JInt 30),
     (''weekday'', JInt 4)]"

definition hourly_rule :: "(string \<times> json) list" where
  "hourly_rule = [(''kind'', JStr ''interval''), (''seconds'', JInt 3600)]"

lemma weekly_rule_recurrence:
  "recurrence_from_rule utc_only weekly_rule ''UTC'' 0 =
     Inr (CalendarRec \<lparr>cs_hour = 9, cs_minute = 30, cs_weekdays = [4], cs_timezone = ''UTC''\<rparr>)"
  by (simp add: recurrence_from_rule_def weekly_rule_def dict_get_def calendar_from_rule_def
      calendar_schedule_init_def utc_only_def List.map_filter_def)

lemma hourly_rule_recurrence:
  "recurrence_from_rule utc_only hourly_rule ''UTC'' 0 =
     Inr (IntervalRec \<lparr>is_anchor_at = 0, is_interval = 3600000000\<rparr>)"
  by (simp add: recurrence_from_rule_def hourly_rule_def dict_get_def interval_schedule_init_def
      seconds_def)

lemma utc_only_ok: "utc_only name = Some z \<Longrightarrow> zone_ok z"
  using utc_zone_ok by (auto simp: utc_only_def split: if_splits)

lemma ord2ymd_1970: "ord2ymd 719163 = (1970, 1, 1)" "ord2ymd 719164 = (1970, 1, 2)"
  by (simp_all add: ord2ymd_eq valid_date_def ymd2ord_def days_before_year_def is_leap_def
      days_in_month_def)

lemma of_instant_0: "of_instant 0 = \<lparr>dt_year = 1970, dt_month = 1, dt_day = 1, dt_hour = 0,
    dt_minute = 0, dt_second = 0, dt_microsecond = 0\<rparr>"
  by (simp add: of_instant_def ord2ymd_1970)

text \<open>
  A recurrence built from a registry rule answers \<open>next_after\<close> with its first slot
  strictly after the given instant: no slot of the rule (a grid point of an interval rule, an
  existing wall-clock time of a daily, weekly or monthly rule) is passed over, whichever of
  the three recurrence classes the rule selects.
\<close>

theorem next_after_first:
  assumes "recurrence_from_rule tz rule name anchor = Inr r"
    and "\<forall>z. tz name = Some z \<longrightarrow> zone_ok z"
    and "next_after tz r v = Inr c"
  shows "v < c \<and> recurrence_slot tz r c \<and> (\<forall>s. recurrence_slot tz r s \<and> v < s \<longrightarrow> c \<le> s)"
  using next_after_contract [OF recurrence_from_rule_valid [OF assms(1)] assms(3)] assms(2) by blast

theorem next_after_first_witness:
  "\<exists>r. recurrence_from_rule utc_only weekly_rule ''UTC'' 0 = Inr r \<and>
     next_after utc_only r 0 = Inr 120600000000 \<and>
     (\<forall>s. recurrence_slot utc_only r s \<and> 0 < s \<longrightarrow> 120600000000 \<le> s)"
proof -
  let ?r = "CalendarRec \<lparr>cs_hour = 9, cs_minute = 30, cs_weekdays = [4], cs_timezone = ''UTC''\<rparr>"
  have n: "next_after utc_only ?r 0 = Inr 120600000000"
    by (simp add: schedule_eval utc_only_def ord2ymd_1970 of_instant_0)
  show ?thesis
    using next_after_first [OF weekly_rule_recurrence _ n] utc_only_ok weekly_rule_recurrence n
    by blast
qed

text \<open>
  Whatever the catch-up policy, materialisation returns due slots only, in strictly
  increasing order and inside the window that starts at the cursor (or the horizon), and its
  two counts add up: materialised plus skipped slots are exactly the slots that were due.
\<close>

theorem materialize_sound:
  assumes "recurrence_from_rule tz rule name anchor = Inr r"
    and "\<forall>z. tz name = Some z \<longrightarrow> zone_ok z"
    and "policy \<noteq> MANUAL" and "start_cursor cursor now horizon = Some v"
    and "materialize_due_slots (next_after tz r) cursor now policy k horizon = Inr m"
  shows "sorted_wrt (<) (sm_slots m) \<and>
    (\<forall>s \<in> set (sm_slots m). recurrence_slot tz r s \<and> v < s \<and> s \<le> now) \<and>
    int (length (sm_slots m)) + sm_skipped_slots m =
      int (card {s. recurrence_slot tz r s \<and> v < s \<and> s \<le> now})"
  using rec.window_sound [of "(tz, r)" policy cursor now horizon v k m]
    recurrence_from_rule_valid [OF assms(1)] assms(2-) by simp

lemma hourly_due:
  "due_loop (interval_next_after \<lparr>is_anchor_at = 0, is_interval = 3600000000\<rparr>) 9000000000 3600000000 []
     = Inr [3600000000, 7200000000]"
  by (simp add: due_loop.simps [of _ 9000000000] interval_next_after_def check_instant_def
      instant_ok_def safety_limit_def)

theorem materialize_sound_witness:
  "\<exists>r m. recurrence_from_rule utc_only hourly_rule ''UTC'' 0 = Inr r \<and>
     materialize_due_slots (next_after utc_only r) (Some 0) 9000000000 LATEST_ONLY 1 None = Inr m \<and>
     sm_slots m = [7200000000] \<and>
     card {s. recurrence_slot utc_only r s \<and> 0 < s \<and> s \<le> 9000000000} = 2"
proof -
  let ?r = "IntervalRec \<lparr>is_anchor_at = 0, is_interval = 3600000000\<rparr>"
  let ?m = "\<lparr>sm_slots = [7200000000], sm_next_cursor_at = Some 7200000000, sm_skipped_slots = 1\<rparr>"
  have v: "start_cursor (Some 0) 9000000000 None = Some 0" by (simp add: start_cursor_def)
  have m: "materialize_due_slots (next_after utc_only ?r) (Some 0) 9000000000 LATEST_ONLY 1 None = Inr ?m"
    using hourly_due by (simp add: materialize_due_slots_def v select_slots_def
        interval_next_after_def check_instant_def instant_ok_def)
  show ?thesis
    using materialize_sound [OF hourly_rule_recurrence _ _ v m] utc_only_ok hourly_rule_recurrence m
    by force
qed

text \<open>
  Under \<open>ALL_SLOTS\<close>, two successive scheduler ticks that carry the cursor over materialise
  together exactly the slots one tick at the later instant would have: no due slot is lost
  and none is materialised twice.
\<close>

theorem all_slots_lossless:
  assumes "recurrence_from_rule tz rule name anchor = Inr r"
    and "\<forall>z. tz name = Some z \<longrightarrow> zone_ok z" and "now1 \<le> now2"
    and "materialize_due_slots (next_after tz r) (Some v) now1 ALL_SLOTS k None = Inr m1"
    and "materialize_due_slots (next_after tz r) (sm_next_cursor_at m1) now2 ALL_SLOTS k None = Inr m2"
    and "materialize_due_slots (next_after tz r) (Some v) now2 ALL_SLOTS k None = Inr m"
  shows "sm_slots m = sm_slots m1 @ sm_slots m2 \<and>
    set (sm_slots m) = {s. recurrence_slot tz r s \<and> v < s \<and> s \<le> now2}"
  using rec.all_slots_ticks [of "(tz, r)" now1 now2 v k m1 m2 m] rec.all_slots_window(2) [of "(tz, r)" v now2 k m]
    recurrence_from_rule_valid [OF assms(1)] assms(2-) by simp

theorem all_slots_lossless_witness:
  "\<exists>r m1 m2 m. recurrence_from_rule utc_only hourly_rule ''UTC'' 0 = Inr r \<and>
     materialize_due_slots (next_after utc_only r) (Some 0) 4000000000 ALL_SLOTS 1 None = Inr m1 \<and>
     materialize_due_slots (next_after utc_only r) (sm_next_cursor_at m1) 9000000000 ALL_SLOTS 1 None = Inr m2 \<and>
     materialize_due_slots (next_after utc_only r) (Some 0) 9000000000 ALL_SLOTS 1 None = Inr m \<and>
     sm_slots m = sm_slots m1 @ sm_slots m2 \<and> sm_slots m2 = [7200000000]"
proof -
  let ?r = "IntervalRec \<lparr>is_anchor_at = 0, is_interval = 3600000000\<rparr>"
  let ?m1 = "\<lparr>sm_slots = [3600000000], sm_next_cursor_at = Some 3600000000, sm_skipped_slots = 0\<rparr>"
  let ?m2 = "\<lparr>sm_slots = [7200000000], sm_next_cursor_at = Some 7200000000, sm_skipped_slots = 0\<rparr>"
  let ?m = "\<lparr>sm_slots = [3600000000, 7200000000], sm_next_cursor_at = Some 7200000000,
    sm_skipped_slots = 0\<rparr>"
  note eval = materialize_due_slots_def start_cursor_def select_slots_def interval_next_after_def
    check_instant_def instant_ok_def due_loop.simps [of _ 4000000000] due_loop.simps [of _ 9000000000]
    safety_limit_def
  have m1: "materialize_due_slots (next_after utc_only ?r) (Some 0) 4000000000 ALL_SLOTS 1 None = Inr ?m1"
    by (simp add: eval)
  have m2: "materialize_due_slots (next_after utc_only ?r) (sm_next_cursor_at ?m1) 9000000000 ALL_SLOTS 1
      None = Inr ?m2"
    by (simp add: eval)
  have m: "materialize_due_slots (next_after utc_only ?r) (Some 0) 9000000000 ALL_SLOTS 1 None = Inr ?m"
    by (simp add: eval)
  show ?thesis
    using all_slots_lossless [OF hourly_rule_recurrence _ _ m1 m2 m] utc_only_ok
      hourly_rule_recurrence m1 m2 m by force
qed



end
