(* ===== verification/LeaseSpec.thy ===== *)
theory LeaseSpec
  imports JobModel
begin

text \<open>
  What both job stores promise about one job, stated once: the lease protocol. A job's
  \<open>lease\<close> is its state, the token and expiry of its current claim, the number of attempts
  started and allowed, and the instant from which it may be claimed. \<open>lease_step\<close> is the
  protocol; \<open>InMemoryJobQueue\<close> (theory \<open>JobQueue\<close>) and \<open>OperationalStore\<close> (theory
  \<open>JobStore\<close>) both implement it, which is the interpretation of the locale \<open>lease_system\<close>
  in each of them. The lemmas proved here on runs of the protocol hold of both.
\<close>

section \<open>The protocol\<close>

record lease =
  ls_state :: job_state
  ls_token :: "string option"
  ls_expires :: "instant option"
  ls_attempts :: int
  ls_max :: int
  ls_available :: instant

datatype lease_event =
    EvClaim instant string instant
  | EvStart instant string
  | EvHeartbeat instant string instant
  | EvFinish instant string job_state
  | EvRecover instant
  | EvCancel

definition holds_lease :: "lease \<Rightarrow> string \<Rightarrow> instant \<Rightarrow> bool" where
  "holds_lease l t now \<longleftrightarrow> ls_token l = Some t \<and> (\<exists>e. ls_expires l = Some e \<and> now < e)"

definition lapsed :: "lease \<Rightarrow> instant \<Rightarrow> bool" where
  "lapsed l now \<longleftrightarrow> (\<exists>e. ls_expires l = Some e \<and> e \<le> now)"

inductive lease_step :: "lease \<Rightarrow> lease_event \<Rightarrow> lease \<Rightarrow> bool" where
  claim: "ls_state l \<in> {QUEUED, RETRY_WAIT} \<Longrightarrow> ls_available l \<le> now \<Longrightarrow> now < e \<Longrightarrow>
    lease_step l (EvClaim now t e)
      (l\<lparr>ls_state := CLAIMED, ls_token := Some t, ls_expires := Some e\<rparr>)"
| start: "ls_state l = CLAIMED \<Longrightarrow> holds_lease l t now \<Longrightarrow> ls_attempts l < ls_max l \<Longrightarrow>
    lease_step l (EvStart now t) (l\<lparr>ls_state := RUNNING, ls_attempts := ls_attempts l + 1\<rparr>)"
| heartbeat: "ls_state l \<in> {CLAIMED, RUNNING} \<Longrightarrow> holds_lease l t now \<Longrightarrow> now < e \<Longrightarrow>
    lease_step l (EvHeartbeat now t e) (l\<lparr>ls_expires := Some e\<rparr>)"
| finish_terminal: "ls_state l = RUNNING \<Longrightarrow> holds_lease l t now \<Longrightarrow> st \<in> terminal_job_states \<Longrightarrow>
    lease_step l (EvFinish now t st)
      (l\<lparr>ls_state := st, ls_token := None, ls_expires := None\<rparr>)"
| finish_retry: "ls_state l = RUNNING \<Longrightarrow> holds_lease l t now \<Longrightarrow> ls_attempts l < ls_max l \<Longrightarrow>
    now \<le> a \<Longrightarrow>
    lease_step l (EvFinish now t RETRY_WAIT)
      (l\<lparr>ls_state := RETRY_WAIT, ls_token := None, ls_expires := None, ls_available := a\<rparr>)"
| recover_claimed: "ls_state l = CLAIMED \<Longrightarrow> lapsed l now \<Longrightarrow>
    lease_step l (EvRecover now)
      (l\<lparr>ls_state := QUEUED, ls_token := None, ls_expires := None, ls_available := now\<rparr>)"
| recover_retry: "ls_state l = RUNNING \<Longrightarrow> lapsed l now \<Longrightarrow> ls_attempts l < ls_max l \<Longrightarrow> now \<le> a \<Longrightarrow>
    lease_step l (EvRecover now)
      (l\<lparr>ls_state := RETRY_WAIT, ls_token := None, ls_expires := None, ls_available := a\<rparr>)"
| recover_dead: "ls_state l = RUNNING \<Longrightarrow> lapsed l now \<Longrightarrow> \<not> ls_attempts l < ls_max l \<Longrightarrow>
    lease_step l (EvRecover now)
      (l\<lparr>ls_state := DEAD_LETTER, ls_token := None, ls_expires := None, ls_available := a\<rparr>)"
| cancel: "ls_state l \<in> {QUEUED, RETRY_WAIT, CLAIMED} \<Longrightarrow>
    lease_step l EvCancel (l\<lparr>ls_state := CANCELLED, ls_token := None, ls_expires := None\<rparr>)"

inductive_cases lease_step_claimE: "lease_step l (EvClaim now t e) l'"
inductive_cases lease_step_startE: "lease_step l (EvStart now t) l'"
inductive_cases lease_step_heartbeatE: "lease_step l (EvHeartbeat now t e) l'"
inductive_cases lease_step_finishE: "lease_step l (EvFinish now t st) l'"
inductive_cases lease_step_recoverE: "lease_step l (EvRecover now) l'"
inductive_cases lease_step_cancelE: "lease_step l EvCancel l'"

inductive lease_run :: "lease \<Rightarrow> lease_event list \<Rightarrow> lease \<Rightarrow> bool" where
  Nil [intro!]: "lease_run l [] l"
| Cons: "lease_step l ev l' \<Longrightarrow> lease_run l' evs l'' \<Longrightarrow> lease_run l (ev # evs) l''"

inductive_simps lease_run_Nil [simp]: "lease_run l [] l'"
inductive_simps lease_run_Cons: "lease_run l (ev # evs) l'"

lemma lease_run_step: "lease_step l ev l' \<Longrightarrow> lease_run l [ev] l'"
  by (auto simp: lease_run_Cons)

lemma lease_run_append:
  "lease_run l (evs @ evs') l'' \<longleftrightarrow> (\<exists>l'. lease_run l evs l' \<and> lease_run l' evs' l'')"
  by (induction evs arbitrary: l) (auto simp: lease_run_Cons)

section \<open>Its invariant and its histories\<close>

definition lease_ok :: "lease \<Rightarrow> bool" where
  "lease_ok l \<longleftrightarrow> 0 \<le> ls_attempts l \<and> ls_attempts l \<le> ls_max l \<and>
     (ls_state l \<in> {QUEUED, RETRY_WAIT, CLAIMED} \<longrightarrow> ls_attempts l < ls_max l) \<and>
     (ls_state l \<in> {CLAIMED, RUNNING} \<longleftrightarrow> ls_token l \<noteq> None) \<and>
     (ls_state l \<in> {CLAIMED, RUNNING} \<longleftrightarrow> ls_expires l \<noteq> None)"

definition new_lease :: "lease \<Rightarrow> bool" where
  "new_lease l \<longleftrightarrow> ls_state l = QUEUED \<and> ls_token l = None \<and> ls_expires l = None \<and>
     ls_attempts l = 0 \<and> 0 < ls_max l"

lemma lease_step_ok: "lease_step l ev l' \<Longrightarrow> lease_ok l \<Longrightarrow> lease_ok l'"
  by (induction rule: lease_step.induct) (auto simp: lease_ok_def terminal_job_states_def)

lemma lease_run_ok: "lease_run l evs l' \<Longrightarrow> lease_ok l \<Longrightarrow> lease_ok l'"
  by (induction rule: lease_run.induct) (auto intro: lease_step_ok)

lemma new_lease_ok: "new_lease l \<Longrightarrow> lease_ok l"
  by (simp add: new_lease_def lease_ok_def)

lemma lease_step_max: "lease_step l ev l' \<Longrightarrow> ls_max l' = ls_max l"
  by (induction rule: lease_step.induct) auto

lemma lease_run_max: "lease_run l evs l' \<Longrightarrow> ls_max l' = ls_max l"
  by (induction rule: lease_run.induct) (auto dest: lease_step_max)

lemma lease_terminal_step: "lease_step l ev l' \<Longrightarrow> ls_state l \<notin> terminal_job_states"
  by (induction rule: lease_step.induct) (auto simp: terminal_job_states_def)

lemma lease_terminal_run:
  "lease_run l evs l' \<Longrightarrow> ls_state l \<in> terminal_job_states \<Longrightarrow> evs = [] \<and> l' = l"
  by (induction rule: lease_run.induct) (auto dest: lease_terminal_step)

fun is_start :: "lease_event \<Rightarrow> bool" where
  "is_start (EvStart _ _) = True"
| "is_start _ = False"

fun is_claim :: "lease_event \<Rightarrow> bool" where
  "is_claim (EvClaim _ _ _) = True"
| "is_claim _ = False"

lemma lease_step_attempts:
  "lease_step l ev l' \<Longrightarrow> ls_attempts l' = ls_attempts l + (if is_start ev then 1 else 0)"
  by (induction rule: lease_step.induct) auto

text \<open>The attempt counter counts the starts, so the budget bounds them.\<close>

lemma lease_run_attempts:
  "lease_run l evs l' \<Longrightarrow> ls_attempts l' = ls_attempts l + int (length (filter is_start evs))"
  by (induction rule: lease_run.induct) (auto dest: lease_step_attempts)

lemma lease_run_start_bound:
  assumes "lease_run l evs l'" and "new_lease l"
  shows "int (length (filter is_start evs)) \<le> ls_max l"
  using lease_run_attempts [OF assms(1)] lease_run_ok [OF assms(1) new_lease_ok [OF assms(2)]]
    lease_run_max [OF assms(1)] assms(2)
  by (simp add: lease_ok_def new_lease_def)

text \<open>The token an event presents.\<close>

fun event_token :: "lease_event \<Rightarrow> string option" where
  "event_token (EvStart _ t) = Some t"
| "event_token (EvHeartbeat _ t _) = Some t"
| "event_token (EvFinish _ t _) = Some t"
| "event_token _ = None"

lemma lease_step_token: "lease_step l ev l' \<Longrightarrow> event_token ev = Some t \<Longrightarrow> ls_token l = Some t"
  by (induction rule: lease_step.induct) (auto simp: holds_lease_def)

lemma lease_step_keeps_token:
  "lease_step l ev l' \<Longrightarrow> \<not> is_claim ev \<Longrightarrow> ls_token l' = ls_token l \<or> ls_token l' = None"
  by (induction rule: lease_step.induct) auto

lemma lease_run_keeps_token:
  "lease_run l evs l' \<Longrightarrow> \<forall>ev \<in> set evs. \<not> is_claim ev \<Longrightarrow>
     ls_token l' = ls_token l \<or> ls_token l' = None"
  by (induction rule: lease_run.induct) (auto dest: lease_step_keeps_token)

text \<open>Every start, heartbeat and finish presents the token of the most recent claim.\<close>

lemma lease_run_holder:
  assumes "lease_run l (EvClaim now t e # evs @ [ev]) l'" and "\<forall>ev \<in> set evs. \<not> is_claim ev"
    and "event_token ev = Some t'"
  shows "t' = t"
proof -
  from assms(1) obtain l1 l2 where l1: "lease_step l (EvClaim now t e) l1"
    and l2: "lease_run l1 evs l2" and l3: "lease_step l2 ev l'"
    by (auto simp: lease_run_Cons lease_run_append)
  have "ls_token l1 = Some t" using l1 by (auto elim: lease_step_claimE)
  then show ?thesis
    using lease_run_keeps_token [OF l2 assms(2)] lease_step_token [OF l3 assms(3)] by auto
qed

text \<open>A claim is started at most once.\<close>

lemma lease_step_running: "lease_step l ev l' \<Longrightarrow> ls_state l = RUNNING \<Longrightarrow>
    \<not> is_start ev \<and> (ls_state l' = RUNNING \<or> ls_token l' = None)"
  by (induction rule: lease_step.induct) auto

lemma lease_run_no_restart:
  "lease_run l evs l' \<Longrightarrow> \<forall>ev \<in> set evs. \<not> is_claim ev \<Longrightarrow>
     ls_state l = RUNNING \<or> ls_token l = None \<Longrightarrow> filter is_start evs = []"
proof (induction rule: lease_run.induct)
  case (Cons l ev l' evs l'')
  have "\<not> is_start ev \<and> (ls_state l' = RUNNING \<or> ls_token l' = None)"
  proof (cases "ls_state l = RUNNING")
    case True
    then show ?thesis using lease_step_running [OF Cons.hyps(1)] by simp
  next
    case False
    with Cons.prems have none: "ls_token l = None" by simp
    then have "event_token ev = None" using lease_step_token [OF Cons.hyps(1)] by (cases "event_token ev") auto
    then have "\<not> is_start ev" by (cases ev) auto
    moreover have "ls_token l' = None"
      using lease_step_keeps_token [OF Cons.hyps(1)] Cons.prems(1) none by auto
    ultimately show ?thesis by simp
  qed
  then show ?case using Cons by simp
qed simp

lemma lease_run_one_start:
  assumes "lease_run l evs l'" and "\<forall>ev \<in> set evs. \<not> is_claim ev"
  shows "length (filter is_start evs) \<le> 1"
  using assms
proof (induction rule: lease_run.induct)
  case (Cons l ev l' evs l'')
  show ?case
  proof (cases "is_start ev")
    case True
    then have "ls_state l' = RUNNING" using Cons.hyps(1) by (cases ev) (auto elim: lease_step_startE)
    then show ?thesis
      using lease_run_no_restart [OF Cons.hyps(2)] Cons.prems True by simp
  next
    case False
    then show ?thesis using Cons by simp
  qed
qed simp

section \<open>Systems that implement the protocol\<close>

text \<open>A sequence of public operations, each admissible in the state it finds.\<close>

primrec reaches :: "('c \<Rightarrow> 's \<Rightarrow> 's) \<Rightarrow> ('c \<Rightarrow> 's \<Rightarrow> bool) \<Rightarrow> 's \<Rightarrow> 'c list \<Rightarrow> 's \<Rightarrow> bool" where
  "reaches exec ok s [] s' \<longleftrightarrow> s' = s"
| "reaches exec ok s (c # cs) s' \<longleftrightarrow> ok c s \<and> reaches exec ok (exec c s) cs s'"

text \<open>
  \<open>view\<close> reads the lease of a job; \<open>exec c s\<close> is the state after one public operation \<open>c\<close>
  (with its arguments, and whether or not it raised).
\<close>

locale lease_system =
  fixes inv :: "'s \<Rightarrow> bool"
    and view :: "'s \<Rightarrow> string \<Rightarrow> lease option"
    and exec :: "'c \<Rightarrow> 's \<Rightarrow> 's"
    and admissible :: "'c \<Rightarrow> 's \<Rightarrow> bool"
  assumes exec_inv: "inv s \<Longrightarrow> admissible c s \<Longrightarrow> inv (exec c s)"
    and exec_lease: "inv s \<Longrightarrow> admissible c s \<Longrightarrow> view s j = Some l \<Longrightarrow>
      \<exists>evs l'. view (exec c s) j = Some l' \<and> lease_run l evs l'"
    and exec_new: "inv s \<Longrightarrow> admissible c s \<Longrightarrow> view s j = None \<Longrightarrow> view (exec c s) j = Some l \<Longrightarrow>
      new_lease l"
begin

lemma reaches_inv: "reaches exec admissible s cs s' \<Longrightarrow> inv s \<Longrightarrow> inv s'"
  by (induction cs arbitrary: s) (auto intro: exec_inv)

text \<open>A known job stays known, and its whole history is a run of the protocol.\<close>

lemma reaches_lease:
  "reaches exec admissible s cs s' \<Longrightarrow> inv s \<Longrightarrow> view s j = Some l \<Longrightarrow>
     \<exists>evs l'. view s' j = Some l' \<and> lease_run l evs l'"
proof (induction cs arbitrary: s l)
  case (Cons c cs)
  then have c: "admissible c s" "reaches exec admissible (exec c s) cs s'" by auto
  obtain evs l1 where l1: "view (exec c s) j = Some l1" "lease_run l evs l1"
    using exec_lease [OF Cons.prems(2) c(1) Cons.prems(3)] by blast
  obtain evs' l2 where "view s' j = Some l2" "lease_run l1 evs' l2"
    using Cons.IH [OF c(2) exec_inv [OF Cons.prems(2) c(1)] l1(1)] by blast
  then show ?case using l1(2) lease_run_append by blast
qed auto

lemma reaches_terminal:
  assumes "reaches exec admissible s cs s'" and "inv s" and "view s j = Some l" and "ls_state l \<in> terminal_job_states"
  shows "view s' j = Some l"
  using reaches_lease [OF assms(1-3)] lease_terminal_run assms(4) by blast

text \<open>From a state without jobs, every job is within its attempt budget and began fresh.\<close>

lemma reaches_budget:
  assumes "reaches exec admissible s cs s'" and "inv s" and "\<And>j l. view s j = Some l \<Longrightarrow> lease_ok l"
    and "view s' j = Some l"
  shows "lease_ok l"
  using assms
proof (induction cs arbitrary: s)
  case (Cons c cs)
  then have c: "admissible c s" "reaches exec admissible (exec c s) cs s'" by auto
  have "lease_ok l1" if "view (exec c s) j1 = Some l1" for j1 l1
  proof (cases "view s j1")
    case None
    show ?thesis using exec_new [OF Cons.prems(2) c(1) None that] by (rule new_lease_ok)
  next
    case (Some l0)
    then show ?thesis
      using exec_lease [OF Cons.prems(2) c(1) Some] that lease_run_ok Cons.prems(3) by fastforce
  qed
  then show ?case
    using Cons.IH [OF c(2) exec_inv [OF Cons.prems(2) c(1)]] Cons.prems(4) by blast
qed auto

end

end
