(* ===== verification/JobQueue.thy ===== *)
theory JobQueue
  imports LeaseSpec
begin

text \<open>
  \<open>InMemoryJobQueue\<close> of \<open>ingestion/jobs.py\<close>, the reference implementation of the durable
  job queue: its three dictionaries and every method. Each method takes the lock for its
  whole body, so a method is one atomic step on the state. Every \<open>replace\<close> of a job or an
  attempt runs the \<open>__post_init__\<close> checks again (\<open>mk_job\<close>, \<open>mk_attempt\<close>), and a check that
  fails would raise after the writes made so far.

  Arguments stand for what the methods take from outside: \<open>now\<close>, the identifiers of
  \<open>new_id\<close>, and the values \<open>u\<close> that \<open>Random.random()\<close> yields, one per recovered job.
\<close>

section \<open>State\<close>

record job_queue =
  q_jobs :: "(string \<times> workflow_job) list"
  q_dedupe :: "(string \<times> string) list"
  q_attempts :: "(string \<times> workflow_attempt list) list"

definition empty_queue :: job_queue where
  "empty_queue = \<lparr>q_jobs = [], q_dedupe = [], q_attempts = []\<rparr>"

definition put_job :: "workflow_job \<Rightarrow> job_queue \<Rightarrow> job_queue" where
  "put_job j q = q\<lparr>q_jobs := AList.update (wj_job_id j) j (q_jobs q)\<rparr>"

definition put_attempts :: "string \<Rightarrow> workflow_attempt list \<Rightarrow> job_queue \<Rightarrow> job_queue" where
  "put_attempts i as q = q\<lparr>q_attempts := AList.update i as (q_attempts q)\<rparr>"

text \<open>\<open>attempts[-1] = a\<close>\<close>

definition set_last :: "'a list \<Rightarrow> 'a \<Rightarrow> 'a list" where
  "set_last xs x = butlast xs @ [x]"

fun job_state_value :: "job_state \<Rightarrow> string" where
  "job_state_value QUEUED = ''queued''"
| "job_state_value CLAIMED = ''claimed''"
| "job_state_value RUNNING = ''running''"
| "job_state_value RETRY_WAIT = ''retry_wait''"
| "job_state_value SUCCEEDED = ''succeeded''"
| "job_state_value EMPTY = ''empty''"
| "job_state_value FAILED = ''failed''"
| "job_state_value DEAD_LETTER = ''dead_letter''"
| "job_state_value CANCELLED = ''cancelled''"

section \<open>Enqueue and reads\<close>

definition q_enqueue :: "workflow_job \<Rightarrow> (job_queue, job_error, workflow_job \<times> bool) op" where
  "q_enqueue job q =
     (case map_of (q_dedupe q) (wj_dedupe_key job) of
        Some existing_id \<Rightarrow>
          (case map_of (q_jobs q) existing_id of
             None \<Rightarrow> (Inl (QueueKeyError existing_id), q)
           | Some j \<Rightarrow> (Inr (j, False), q))
      | None \<Rightarrow>
          if map_of (q_jobs q) (wj_job_id job) \<noteq> None
          then (Inl (JobError (''duplicate job ID: '' @ wj_job_id job)), q)
          else (Inr (job, True),
                q\<lparr>q_jobs := AList.update (wj_job_id job) job (q_jobs q),
                  q_dedupe := AList.update (wj_dedupe_key job) (wj_job_id job) (q_dedupe q),
                  q_attempts := AList.update (wj_job_id job) [] (q_attempts q)\<rparr>))"

definition q_get :: "string \<Rightarrow> job_queue \<Rightarrow> workflow_job option" where
  "q_get i q = map_of (q_jobs q) i"

definition q_attempts_of :: "string \<Rightarrow> job_queue \<Rightarrow> job_error + workflow_attempt list" where
  "q_attempts_of i q =
     (case map_of (q_attempts q) i of
        None \<Rightarrow> Inl (JobError (''unknown job: '' @ i)) | Some as \<Rightarrow> Inr as)"

section \<open>Completion and recovery\<close>

definition clear_claim :: "workflow_job \<Rightarrow> workflow_job" where
  "clear_claim j = j\<lparr>wj_claim_token := None, wj_claimed_by := None, wj_claimed_at := None,
     wj_lease_expires_at := None, wj_heartbeat_at := None\<rparr>"

definition complete_job ::
  "workflow_job \<Rightarrow> attempt_status \<Rightarrow> instant \<Rightarrow> bool \<Rightarrow> json option \<Rightarrow> rat \<Rightarrow>
   job_error + workflow_job" where
  "complete_job job status now retryable err u =
     (let j = clear_claim job
      in if status = A_SUCCEEDED
         then mk_job (j\<lparr>wj_state := SUCCEEDED, wj_completed_at := Some now, wj_last_error := None\<rparr>)
         else if status = A_EMPTY
         then mk_job (j\<lparr>wj_state := EMPTY, wj_completed_at := Some now, wj_last_error := None\<rparr>)
         else if status = A_CANCELLED
         then mk_job (j\<lparr>wj_state := CANCELLED, wj_completed_at := Some now, wj_last_error := err\<rparr>)
         else if retryable \<and> wj_attempt_count job < rp_max_attempts (wj_retry_policy job)
         then (case delay_for (wj_retry_policy job) (wj_attempt_count job) u of
                 Inl e \<Rightarrow> Inl e
               | Inr d \<Rightarrow>
                   mk_job (j\<lparr>wj_state := RETRY_WAIT, wj_available_at := now + d,
                     wj_last_error := err\<rparr>))
         else mk_job (j\<lparr>wj_state := (if retryable then DEAD_LETTER else FAILED),
                wj_completed_at := Some now, wj_last_error := err\<rparr>))"

definition lease_expired_before_start :: json where
  "lease_expired_before_start = JObj [(''code'', JStr ''lease_expired_before_start'')]"

definition lease_expired :: json where
  "lease_expired = JObj [(''code'', JStr ''lease_expired'')]"

text \<open>One round of the recovery loop, on the item \<open>(job_id, job)\<close> of the snapshot.\<close>

definition recover_job ::
  "instant \<Rightarrow> (string \<Rightarrow> rat) \<Rightarrow> string \<times> workflow_job \<Rightarrow>
   (job_queue, job_error, workflow_job list) op" where
  "recover_job now u item q =
     (case item of (job_id, job) \<Rightarrow>
        if wj_state job \<notin> {CLAIMED, RUNNING} \<or> \<not> sql_le (wj_lease_expires_at job) now
        then (Inr [], q)
        else if wj_state job = CLAIMED
        then (case mk_job ((clear_claim job)\<lparr>wj_state := QUEUED, wj_available_at := now,
                    wj_last_error := Some lease_expired_before_start\<rparr>) of
                Inl e \<Rightarrow> (Inl e, q)
              | Inr j \<Rightarrow> (Inr [j], q\<lparr>q_jobs := AList.update job_id j (q_jobs q)\<rparr>))
        else (case map_of (q_attempts q) job_id of
                None \<Rightarrow> (Inl (QueueKeyError job_id), q)
              | Some as \<Rightarrow>
                  (case (if as \<noteq> [] \<and> wa_status (last as) = A_RUNNING
                         then map_sum id (\<lambda>a. put_attempts job_id (set_last as a) q)
                           (mk_attempt ((last as)\<lparr>wa_status := A_FAILED,
                              wa_completed_at := Some now, wa_heartbeat_at := now,
                              wa_error := Some lease_expired\<rparr>))
                         else Inr q) of
                     Inl e \<Rightarrow> (Inl e, q)
                   | Inr q1 \<Rightarrow>
                       (case complete_job job A_FAILED now True (Some lease_expired) (u job_id) of
                          Inl e \<Rightarrow> (Inl e, q1)
                        | Inr j \<Rightarrow> (Inr [j], q1\<lparr>q_jobs := AList.update job_id j (q_jobs q1)\<rparr>)))))"

fun recover_items ::
  "instant \<Rightarrow> (string \<Rightarrow> rat) \<Rightarrow> (string \<times> workflow_job) list \<Rightarrow>
   (job_queue, job_error, workflow_job list) op" where
  "recover_items now u [] q = (Inr [], q)"
| "recover_items now u (item # items) q =
     (case recover_job now u item q of
        (Inl e, q1) \<Rightarrow> (Inl e, q1)
      | (Inr js, q1) \<Rightarrow>
          (case recover_items now u items q1 of
             (Inl e, q2) \<Rightarrow> (Inl e, q2)
           | (Inr js', q2) \<Rightarrow> (Inr (js @ js'), q2)))"

definition recover_expired_locked ::
  "instant \<Rightarrow> (string \<Rightarrow> rat) \<Rightarrow> (job_queue, job_error, workflow_job list) op" where
  "recover_expired_locked now u q = recover_items now u (q_jobs q) q"

definition q_recover_expired ::
  "instant \<Rightarrow> (string \<Rightarrow> rat) \<Rightarrow> (job_queue, job_error, workflow_job list) op" where
  "q_recover_expired now u q = recover_expired_locked now u q"

section \<open>Claims\<close>

definition due_jobs :: "instant \<Rightarrow> job_queue \<Rightarrow> workflow_job list" where
  "due_jobs now q = filter (\<lambda>j. wj_state j \<in> {QUEUED, RETRY_WAIT} \<and> wj_available_at j \<le> now)
     (map snd (q_jobs q))"

definition claim_order :: "workflow_job \<Rightarrow> int \<times> instant \<times> instant \<times> string" where
  "claim_order j = (wj_priority j, wj_available_at j, wj_scheduled_for j, wj_job_id j)"

definition q_claim ::
  "string \<Rightarrow> instant \<Rightarrow> duration \<Rightarrow> string \<Rightarrow> (string \<Rightarrow> rat) \<Rightarrow>
   (job_queue, job_error, job_claim option) op" where
  "q_claim worker_id now lease token u q =
     (if worker_id = [] \<or> lease \<le> 0
      then (Inl (JobError ''worker_id and positive lease are required''), q)
      else case recover_expired_locked now u q of
        (Inl e, q1) \<Rightarrow> (Inl e, q1)
      | (Inr _, q1) \<Rightarrow>
          (case min_by claim_order (due_jobs now q1) of
             None \<Rightarrow> (Inr None, q1)
           | Some selected \<Rightarrow>
               (case mk_job (selected\<lparr>wj_state := CLAIMED, wj_claim_token := Some token,
                       wj_claimed_by := Some worker_id, wj_claimed_at := Some now,
                       wj_lease_expires_at := Some (now + lease), wj_heartbeat_at := Some now\<rparr>) of
                  Inl e \<Rightarrow> (Inl e, q1)
                | Inr claimed \<Rightarrow>
                    (Inr (Some \<lparr>jc_job_id = wj_job_id claimed, jc_claim_token = token,
                       jc_lease_expires_at = now + lease\<rparr>), put_job claimed q1))))"

definition require_claim ::
  "job_claim \<Rightarrow> instant \<Rightarrow> job_state option \<Rightarrow> job_queue \<Rightarrow> job_error + workflow_job" where
  "require_claim claim now expected q =
     (case map_of (q_jobs q) (jc_job_id claim) of
        None \<Rightarrow> Inl (StaleClaimError ''job no longer exists'')
      | Some job \<Rightarrow>
          if wj_claim_token job \<noteq> Some (jc_claim_token claim)
          then Inl (StaleClaimError ''claim token no longer matches job'')
          else if wj_lease_expires_at job = None \<or> sql_le (wj_lease_expires_at job) now
          then Inl (StaleClaimError ''claim lease has expired'')
          else case expected of
            None \<Rightarrow> Inr job
          | Some st \<Rightarrow>
              if wj_state job \<noteq> st
              then Inl (StaleClaimError (''claim is in '' @ job_state_value (wj_state job) @
                '', expected '' @ job_state_value st))
              else Inr job)"

definition q_start :: "job_claim \<Rightarrow> instant \<Rightarrow> string \<Rightarrow> (job_queue, job_error, workflow_attempt) op" where
  "q_start claim now attempt_id q =
     (case require_claim claim now (Some CLAIMED) q of
        Inl e \<Rightarrow> (Inl e, q)
      | Inr job \<Rightarrow>
          (case mk_attempt \<lparr>wa_attempt_id = attempt_id, wa_job_id = wj_job_id job,
                  wa_attempt_no = wj_attempt_count job + 1,
                  wa_worker_id = (case wj_claimed_by job of None \<Rightarrow> [] | Some w \<Rightarrow> w),
                  wa_status = A_RUNNING, wa_started_at = now, wa_heartbeat_at = now,
                  wa_completed_at = None, wa_warnings = [], wa_error = None\<rparr> of
             Inl e \<Rightarrow> (Inl e, q)
           | Inr attempt \<Rightarrow>
               (case mk_job (job\<lparr>wj_state := RUNNING, wj_attempt_count := wa_attempt_no attempt,
                       wj_started_at := (case wj_started_at job of None \<Rightarrow> Some now | Some t \<Rightarrow> Some t),
                       wj_heartbeat_at := Some now\<rparr>) of
                  Inl e \<Rightarrow> (Inl e, q)
                | Inr running \<Rightarrow>
                    (let q1 = put_job running q
                     in case map_of (q_attempts q1) (wj_job_id job) of
                          None \<Rightarrow> (Inl (QueueKeyError (wj_job_id job)), q1)
                        | Some as \<Rightarrow>
                            (Inr attempt, put_attempts (wj_job_id job) (as @ [attempt]) q1)))))"

definition q_heartbeat ::
  "job_claim \<Rightarrow> instant \<Rightarrow> duration \<Rightarrow> (job_queue, job_error, workflow_job) op" where
  "q_heartbeat claim now lease q =
     (if lease \<le> 0 then (Inl (JobError ''lease must be positive''), q)
      else case require_claim claim now None q of
        Inl e \<Rightarrow> (Inl e, q)
      | Inr job \<Rightarrow>
          (case mk_job (job\<lparr>wj_heartbeat_at := Some now, wj_lease_expires_at := Some (now + lease)\<rparr>) of
             Inl e \<Rightarrow> (Inl e, q)
           | Inr extended \<Rightarrow>
               (let q1 = put_job extended q
                in case map_of (q_attempts q1) (wj_job_id job) of
                     None \<Rightarrow> (Inl (QueueKeyError (wj_job_id job)), q1)
                   | Some as \<Rightarrow>
                       if as \<noteq> [] \<and> wa_status (last as) = A_RUNNING
                       then (case mk_attempt ((last as)\<lparr>wa_heartbeat_at := now\<rparr>) of
                               Inl e \<Rightarrow> (Inl e, q1)
                             | Inr a \<Rightarrow>
                                 (Inr extended, put_attempts (wj_job_id job) (set_last as a) q1))
                       else (Inr extended, q1))))"

definition q_finish ::
  "job_claim \<Rightarrow> attempt_status \<Rightarrow> instant \<Rightarrow> bool \<Rightarrow> json option \<Rightarrow> json list \<Rightarrow> rat \<Rightarrow>
   (job_queue, job_error, workflow_job) op" where
  "q_finish claim status now retryable err warnings u q =
     (if status = A_RUNNING then (Inl (JobError ''cannot finish an attempt as running''), q)
      else case require_claim claim now (Some RUNNING) q of
        Inl e \<Rightarrow> (Inl e, q)
      | Inr job \<Rightarrow>
          (case map_of (q_attempts q) (wj_job_id job) of
             None \<Rightarrow> (Inl (QueueKeyError (wj_job_id job)), q)
           | Some as \<Rightarrow>
               if as = [] \<or> wa_status (last as) \<noteq> A_RUNNING
               then (Inl (JobError ''running job has no running attempt''), q)
               else case mk_attempt ((last as)\<lparr>wa_status := status, wa_completed_at := Some now,
                      wa_heartbeat_at := now, wa_error := err, wa_warnings := warnings\<rparr>) of
                 Inl e \<Rightarrow> (Inl e, q)
               | Inr a \<Rightarrow>
                   (let q1 = put_attempts (wj_job_id job) (set_last as a) q
                    in case complete_job job status now retryable err u of
                         Inl e \<Rightarrow> (Inl e, q1)
                       | Inr completed \<Rightarrow> (Inr completed, put_job completed q1))))"

definition q_cancel :: "string \<Rightarrow> instant \<Rightarrow> (job_queue, job_error, workflow_job) op" where
  "q_cancel job_id now q =
     (case map_of (q_jobs q) job_id of
        None \<Rightarrow> (Inl (JobError (''unknown job: '' @ job_id)), q)
      | Some job \<Rightarrow>
          if wj_state job \<notin> {QUEUED, RETRY_WAIT}
          then (Inl (JobError ''only queued or retry-wait jobs can be cancelled''), q)
          else (case mk_job (job\<lparr>wj_state := CANCELLED, wj_completed_at := Some now\<rparr>) of
                  Inl e \<Rightarrow> (Inl e, q)
                | Inr cancelled \<Rightarrow> (Inr cancelled, put_job cancelled q)))"

section \<open>The invariant\<close>

text \<open>
  A stored job passes its own checks, has attempts left while it may still be started, and is
  held by a named worker while it is active. Its attempts are numbered from 1, belong to it,
  and only the last of them can be running, exactly when the job is.
\<close>

definition attempts_ok :: "workflow_job \<Rightarrow> workflow_attempt list \<Rightarrow> bool" where
  "attempts_ok j as \<longleftrightarrow>
     map wa_attempt_no as = [1..wj_attempt_count j] \<and>
     (\<forall>a \<in> set as. attempt_post_init a = None \<and> wa_job_id a = wj_job_id j) \<and>
     (\<forall>a \<in> set (butlast as). wa_status a \<noteq> A_RUNNING) \<and>
     (as \<noteq> [] \<and> wa_status (last as) = A_RUNNING \<longleftrightarrow> wj_state j = RUNNING)"

definition stored_job_ok :: "workflow_job \<Rightarrow> bool" where
  "stored_job_ok j \<longleftrightarrow> job_post_init j = None \<and> retry_policy_post_init (wj_retry_policy j) = None \<and>
     (wj_state j \<in> {QUEUED, RETRY_WAIT, CLAIMED} \<longrightarrow>
        wj_attempt_count j < rp_max_attempts (wj_retry_policy j)) \<and>
     (\<forall>w. wj_claimed_by j = Some w \<longrightarrow> w \<noteq> [])"

definition entry_ok :: "job_queue \<Rightarrow> string \<Rightarrow> workflow_job \<Rightarrow> bool" where
  "entry_ok q i j \<longleftrightarrow> wj_job_id j = i \<and> stored_job_ok j \<and>
     (\<exists>as. map_of (q_attempts q) i = Some as \<and> attempts_ok j as) \<and>
     map_of (q_dedupe q) (wj_dedupe_key j) = Some i"

definition queue_inv :: "job_queue \<Rightarrow> bool" where
  "queue_inv q \<longleftrightarrow> distinct (map fst (q_jobs q)) \<and>
     (\<forall>i j. map_of (q_jobs q) i = Some j \<longrightarrow> entry_ok q i j) \<and>
     (\<forall>d i. map_of (q_dedupe q) d = Some i \<longrightarrow>
        (\<exists>j. map_of (q_jobs q) i = Some j \<and> wj_dedupe_key j = d))"

lemma queue_inv_empty: "queue_inv empty_queue"
  by (simp add: queue_inv_def empty_queue_def)

lemma map_of_put_job [simp]:
  "map_of (q_jobs (put_job j q)) i = (if i = wj_job_id j then Some j else map_of (q_jobs q) i)"
  by (simp add: put_job_def update_conv)

lemma map_of_put_attempts [simp]:
  "map_of (q_attempts (put_attempts k as q)) i = (if i = k then Some as else map_of (q_attempts q) i)"
  by (simp add: put_attempts_def update_conv)

lemma put_simps [simp]:
  "q_attempts (put_job j q) = q_attempts q" "q_dedupe (put_job j q) = q_dedupe q"
  "q_jobs (put_attempts k as q) = q_jobs q" "q_dedupe (put_attempts k as q) = q_dedupe q"
  by (simp_all add: put_job_def put_attempts_def)

lemma queue_inv_cong:
  assumes "q_jobs q' = q_jobs q" and "q_dedupe q' = q_dedupe q"
    and "map_of (q_attempts q') = map_of (q_attempts q)"
  shows "queue_inv q' = queue_inv q"
  using assms by (simp add: queue_inv_def entry_ok_def)

text \<open>
  The shape of every transition: one stored job is replaced by one with the same identity,
  together with its attempts.
\<close>

lemma queue_inv_replace:
  assumes inv: "queue_inv q" and j: "map_of (q_jobs q) i = Some j"
    and j': "wj_job_id j' = i" "wj_dedupe_key j' = wj_dedupe_key j" "stored_job_ok j'"
    and as: "attempts_ok j' as"
  shows "queue_inv (put_job j' (put_attempts i as q))"
proof -
  have dist: "distinct (map fst (q_jobs q))" and ent: "entry_ok q i j"
    and ded: "\<And>d k. map_of (q_dedupe q) d = Some k \<Longrightarrow> \<exists>x. map_of (q_jobs q) k = Some x \<and> wj_dedupe_key x = d"
    using inv j by (auto simp: queue_inv_def)
  have "distinct (map fst (q_jobs (put_job j' (put_attempts i as q))))"
    using dist by (simp add: put_job_def distinct_update)
  moreover have "entry_ok (put_job j' (put_attempts i as q)) k x"
    if "map_of (q_jobs (put_job j' (put_attempts i as q))) k = Some x" for k x
  proof (cases "k = i")
    case True
    then show ?thesis using that j' as ent by (auto simp: entry_ok_def)
  next
    case False
    then have "entry_ok q k x" using that j'(1) inv by (simp add: queue_inv_def)
    then show ?thesis using False by (auto simp: entry_ok_def)
  qed
  moreover have "\<exists>x. map_of (q_jobs (put_job j' (put_attempts i as q))) k = Some x \<and> wj_dedupe_key x = d"
    if "map_of (q_dedupe q) d = Some k" for d k
  proof (cases "k = i")
    case True
    then show ?thesis using ded [OF that] j j' by simp
  next
    case False
    then show ?thesis using ded [OF that] j'(1) by simp
  qed
  ultimately show ?thesis unfolding queue_inv_def put_simps by blast
qed

lemma queue_inv_replace_job:
  assumes inv: "queue_inv q" and j: "map_of (q_jobs q) i = Some j"
    and j': "wj_job_id j' = i" "wj_dedupe_key j' = wj_dedupe_key j" "stored_job_ok j'"
    and as: "map_of (q_attempts q) i = Some as" "attempts_ok j' as"
  shows "queue_inv (put_job j' q)"
proof -
  have "map_of (q_attempts (put_attempts i as q)) = map_of (q_attempts q)"
    using as(1) by (auto simp: fun_eq_iff)
  moreover have "q_jobs (put_job j' (put_attempts i as q)) = q_jobs (put_job j' q)"
    by (simp add: put_job_def put_attempts_def)
  ultimately have "queue_inv (put_job j' q) = queue_inv (put_job j' (put_attempts i as q))"
    by (intro queue_inv_cong) (simp_all add: put_simps)
  then show ?thesis using queue_inv_replace [OF inv j j' as(2)] by simp
qed

section \<open>One job through its transitions\<close>

lemma job_static_ok_update [simp]:
  "job_static_ok (j\<lparr>wj_state := st\<rparr>) = job_static_ok j"
  "job_static_ok (j\<lparr>wj_available_at := i\<rparr>) = job_static_ok j"
  "job_static_ok (j\<lparr>wj_attempt_count := n\<rparr>) = job_static_ok j"
  "job_static_ok (j\<lparr>wj_claim_token := so\<rparr>) = job_static_ok j"
  "job_static_ok (j\<lparr>wj_claimed_by := so\<rparr>) = job_static_ok j"
  "job_static_ok (j\<lparr>wj_claimed_at := io\<rparr>) = job_static_ok j"
  "job_static_ok (j\<lparr>wj_lease_expires_at := io\<rparr>) = job_static_ok j"
  "job_static_ok (j\<lparr>wj_heartbeat_at := io\<rparr>) = job_static_ok j"
  "job_static_ok (j\<lparr>wj_started_at := io\<rparr>) = job_static_ok j"
  "job_static_ok (j\<lparr>wj_completed_at := io\<rparr>) = job_static_ok j"
  "job_static_ok (j\<lparr>wj_last_error := jo\<rparr>) = job_static_ok j"
  by (simp_all add: job_static_ok_def job_hash_checks_def job_scope_checks_def job_trigger_checks_def
      cong: option.case_cong)

definition job_lease :: "workflow_job \<Rightarrow> lease" where
  "job_lease j = \<lparr>ls_state = wj_state j, ls_token = wj_claim_token j,
     ls_expires = wj_lease_expires_at j, ls_attempts = wj_attempt_count j,
     ls_max = rp_max_attempts (wj_retry_policy j), ls_available = wj_available_at j\<rparr>"

lemma job_lease_simps [simp]:
  "ls_state (job_lease j) = wj_state j" "ls_token (job_lease j) = wj_claim_token j"
  "ls_expires (job_lease j) = wj_lease_expires_at j" "ls_attempts (job_lease j) = wj_attempt_count j"
  "ls_max (job_lease j) = rp_max_attempts (wj_retry_policy j)"
  "ls_available (job_lease j) = wj_available_at j"
  by (simp_all add: job_lease_def)

lemmas job_check_defs =
  stored_job_ok_def job_post_init_None job_lease_checks_None terminal_job_states_def

text \<open>What a transition of a stored job leaves alone.\<close>

definition same_job :: "workflow_job \<Rightarrow> workflow_job \<Rightarrow> bool" where
  "same_job j j' \<longleftrightarrow> wj_job_id j' = wj_job_id j \<and> wj_dedupe_key j' = wj_dedupe_key j \<and>
     wj_retry_policy j' = wj_retry_policy j \<and> wj_priority j' = wj_priority j \<and>
     wj_scheduled_for j' = wj_scheduled_for j \<and> wj_request j' = wj_request j"

lemma complete_job_ok:
  assumes j: "stored_job_ok j" "wj_state j = RUNNING" "1 \<le> wj_attempt_count j"
    and u: "0 \<le> u" "u \<le> 1" and st: "status \<noteq> A_RUNNING"
  obtains j' where "complete_job j status now retryable err u = Inr j'" and "stored_job_ok j'"
    and "same_job j j'" and "wj_attempt_count j' = wj_attempt_count j" and "wj_state j' \<noteq> RUNNING"
    and "wj_state j' = RETRY_WAIT \<and> retryable \<and> wj_attempt_count j < rp_max_attempts (wj_retry_policy j) \<and>
           now \<le> wj_available_at j' \<or>
         wj_state j' \<in> terminal_job_states \<and> wj_available_at j' = wj_available_at j"
    and "wj_claim_token j' = None" and "wj_lease_expires_at j' = None"
proof -
  obtain d where d: "delay_for (wj_retry_policy j) (wj_attempt_count j) u = Inr d"
    using delay_for_Inr [OF j(3)] by blast
  have d0: "0 \<le> d" using delay_for_nonneg [OF _ u d] j(1) by (simp add: stored_job_ok_def)
  let ?done = "\<lambda>s e. (clear_claim j)\<lparr>wj_state := s, wj_completed_at := Some now, wj_last_error := e\<rparr>"
  have done_ok: "stored_job_ok (?done s e)" "mk_job (?done s e) = Inr (?done s e)" "same_job j (?done s e)"
    if "s \<in> terminal_job_states" for s e
    using j that by (auto simp: job_check_defs clear_claim_def mk_job_Inr same_job_def)
  let ?wait = "(clear_claim j)\<lparr>wj_state := RETRY_WAIT, wj_available_at := now + d, wj_last_error := err\<rparr>"
  have wait_ok: "stored_job_ok ?wait" "mk_job ?wait = Inr ?wait" "same_job j ?wait"
    if "wj_attempt_count j < rp_max_attempts (wj_retry_policy j)"
    using j that by (auto simp: job_check_defs clear_claim_def mk_job_Inr same_job_def)
  let ?s = "case status of A_SUCCEEDED \<Rightarrow> SUCCEEDED | A_EMPTY \<Rightarrow> EMPTY | A_CANCELLED \<Rightarrow> CANCELLED
    | _ \<Rightarrow> if retryable then DEAD_LETTER else FAILED"
  let ?e = "if status \<in> {A_SUCCEEDED, A_EMPTY} then None else err"
  let ?retry = "retryable \<and> wj_attempt_count j < rp_max_attempts (wj_retry_policy j) \<and>
    status \<in> {A_PARTIAL, A_FAILED}"
  have c: "complete_job j status now retryable err u =
      (if ?retry then mk_job ?wait else mk_job (?done ?s ?e))"
    using st d by (cases status) (simp_all add: complete_job_def)
  have tm: "?s \<in> terminal_job_states"
    using st by (cases status) (simp_all add: terminal_job_states_def)
  show thesis
  proof (cases ?retry)
    case False
    have "complete_job j status now retryable err u = Inr (?done ?s ?e)"
      using trans [OF c if_not_P [OF False]] done_ok(2) [OF tm] by (rule trans)
    then obtain s e where ce: "complete_job j status now retryable err u = Inr (?done s e)"
      and s: "s \<in> terminal_job_states" using tm by blast
    have f: "wj_state (?done s e) = s" "wj_available_at (?done s e) = wj_available_at j"
      "wj_attempt_count (?done s e) = wj_attempt_count j" "wj_claim_token (?done s e) = None"
      "wj_lease_expires_at (?done s e) = None"
      by (simp_all add: clear_claim_def)
    have "s \<noteq> RUNNING" using s by (auto simp: terminal_job_states_def)
    then show thesis
      using that [OF ce done_ok(1) [OF s] done_ok(3) [OF s]] s unfolding f by blast
  next
    case True
    have "complete_job j status now retryable err u = Inr ?wait"
      using trans [OF c if_P [OF True]] wait_ok(2) True by (blast intro: trans)
    then show thesis
      by (rule that) (use wait_ok d0 True in \<open>simp_all add: clear_claim_def\<close>)
  qed
qed

section \<open>The attempts of a job\<close>

lemma attempts_ok_cong:
  "attempts_ok j as \<Longrightarrow> wj_attempt_count j' = wj_attempt_count j \<Longrightarrow> wj_job_id j' = wj_job_id j \<Longrightarrow>
     (wj_state j' = RUNNING \<longleftrightarrow> wj_state j = RUNNING) \<Longrightarrow> attempts_ok j' as"
  by (simp add: attempts_ok_def)

lemma attempts_running:
  assumes "attempts_ok j as" and "wj_state j = RUNNING"
  shows "as \<noteq> []" and "wa_status (last as) = A_RUNNING" and "1 \<le> wj_attempt_count j"
proof -
  show as: "as \<noteq> []" and "wa_status (last as) = A_RUNNING" using assms by (auto simp: attempts_ok_def)
  have "[1..wj_attempt_count j] \<noteq> []" using assms(1) as by (auto simp: attempts_ok_def)
  then show "1 \<le> wj_attempt_count j" by (auto simp: upto.simps split: if_splits)
qed

lemma attempts_ok_set_last:
  assumes "attempts_ok j as" and "as \<noteq> []" and "attempt_post_init a = None"
    and "wa_attempt_no a = wa_attempt_no (last as)" and "wa_job_id a = wa_job_id (last as)"
    and "wj_attempt_count j' = wj_attempt_count j" and "wj_job_id j' = wj_job_id j"
    and "wa_status a = A_RUNNING \<longleftrightarrow> wj_state j' = RUNNING"
  shows "attempts_ok j' (set_last as a)"
proof -
  have "map wa_attempt_no (butlast as @ [a]) = map wa_attempt_no (butlast as @ [last as])"
    using assms(4) by simp
  also have "\<dots> = map wa_attempt_no as" using append_butlast_last_id [OF assms(2)] by (rule arg_cong)
  finally have n: "map wa_attempt_no (set_last as a) = map wa_attempt_no as" by (simp only: set_last_def)
  have "\<forall>x \<in> set (set_last as a). attempt_post_init x = None \<and> wa_job_id x = wj_job_id j"
    using assms(1-5) by (auto simp: attempts_ok_def set_last_def dest: in_set_butlastD)
  then show ?thesis
    using assms n by (simp add: attempts_ok_def set_last_def)
qed

lemma attempts_ok_append:
  assumes "attempts_ok j as" and "wj_state j \<noteq> RUNNING" and "0 \<le> wj_attempt_count j"
    and "attempt_post_init a = None" and "wa_attempt_no a = wj_attempt_count j + 1"
    and "wa_job_id a = wj_job_id j" and "wa_status a = A_RUNNING"
    and "wj_attempt_count j' = wj_attempt_count j + 1" and "wj_job_id j' = wj_job_id j"
    and "wj_state j' = RUNNING"
  shows "attempts_ok j' (as @ [a])"
proof -
  have "\<forall>x \<in> set as. wa_status x \<noteq> A_RUNNING"
  proof (cases as rule: rev_cases)
    case (snoc ys y)
    then show ?thesis using assms(1,2) by (auto simp: attempts_ok_def)
  qed simp
  moreover have "[1..wj_attempt_count j + 1] = [1..wj_attempt_count j] @ [wj_attempt_count j + 1]"
    using assms(3) by (subst upto_rec2) simp_all
  ultimately show ?thesis using assms by (auto simp: attempts_ok_def)
qed

section \<open>Recovery\<close>

text \<open>What recovery makes of one job.\<close>

definition recovered :: "instant \<Rightarrow> rat \<Rightarrow> workflow_job \<Rightarrow> workflow_job" where
  "recovered now u j =
     (if wj_state j \<notin> {CLAIMED, RUNNING} \<or> \<not> sql_le (wj_lease_expires_at j) now then j
      else if wj_state j = CLAIMED
      then (clear_claim j)\<lparr>wj_state := QUEUED, wj_available_at := now,
             wj_last_error := Some lease_expired_before_start\<rparr>
      else case complete_job j A_FAILED now True (Some lease_expired) u of
             Inl _ \<Rightarrow> j | Inr j' \<Rightarrow> j')"

definition queue_view :: "job_queue \<Rightarrow> string \<Rightarrow> lease option" where
  "queue_view q i = map_option job_lease (map_of (q_jobs q) i)"

definition draws_ok :: "(string \<Rightarrow> rat) \<Rightarrow> bool" where
  "draws_ok u \<longleftrightarrow> (\<forall>i. 0 \<le> u i \<and> u i \<le> 1)"

lemma lapsed_job: "lapsed (job_lease j) now \<longleftrightarrow> sql_le (wj_lease_expires_at j) now"
  by (auto simp: lapsed_def sql_le_iff)

lemma entryD:
  assumes "queue_inv q" and "map_of (q_jobs q) i = Some j"
  obtains as where "wj_job_id j = i" and "stored_job_ok j" and "map_of (q_attempts q) i = Some as"
    and "attempts_ok j as"
  using assms unfolding queue_inv_def entry_ok_def by blast

lemma complete_failed_run:
  assumes "complete_job j A_FAILED now True err u = Inr j'" and "wj_state j = RUNNING"
    and "sql_le (wj_lease_expires_at j) now" and "same_job j j'"
    and "wj_attempt_count j' = wj_attempt_count j"
    and "wj_state j' = RETRY_WAIT \<and> True \<and> wj_attempt_count j < rp_max_attempts (wj_retry_policy j) \<and>
           now \<le> wj_available_at j' \<or>
         wj_state j' \<in> terminal_job_states \<and> wj_available_at j' = wj_available_at j"
    and "wj_claim_token j' = None" and "wj_lease_expires_at j' = None"
  shows "lease_step (job_lease j) (EvRecover now) (job_lease j')"
proof (cases "wj_attempt_count j < rp_max_attempts (wj_retry_policy j)")
  case True
  obtain d where "delay_for (wj_retry_policy j) (wj_attempt_count j) u = Inr d"
    using assms(1) True by (auto simp: complete_job_def split: sum.splits)
  then have st: "wj_state j' = RETRY_WAIT"
    using assms(1) True by (auto simp: complete_job_def mk_job_Inr)
  have "job_lease j' = (job_lease j)\<lparr>ls_state := RETRY_WAIT, ls_token := None, ls_expires := None,
      ls_available := wj_available_at j'\<rparr>"
    using assms st by (simp add: job_lease_def same_job_def)
  moreover have "now \<le> wj_available_at j'" using assms(6) st by (auto simp: terminal_job_states_def)
  ultimately show ?thesis
    using lease_step.recover_retry [of "job_lease j" now "wj_available_at j'"] assms(2,3) True
    by (simp add: lapsed_job)
next
  case False
  then have st: "wj_state j' = DEAD_LETTER"
    using assms(1) by (auto simp: complete_job_def mk_job_Inr)
  have "job_lease j' = (job_lease j)\<lparr>ls_state := DEAD_LETTER, ls_token := None, ls_expires := None,
      ls_available := wj_available_at j'\<rparr>"
    using assms st by (simp add: job_lease_def same_job_def)
  then show ?thesis
    using lease_step.recover_dead [of "job_lease j" now "wj_available_at j'"] assms(2,3) False
    by (simp add: lapsed_job)
qed

lemma recovered_claimed:
  assumes "stored_job_ok j" and "wj_state j = CLAIMED" and "sql_le (wj_lease_expires_at j) now"
  shows "stored_job_ok (recovered now u j)" and "same_job j (recovered now u j)"
    and "mk_job (recovered now u j) = Inr (recovered now u j)"
    and "lease_step (job_lease j) (EvRecover now) (job_lease (recovered now u j))"
    and "wj_attempt_count (recovered now u j) = wj_attempt_count j"
    and "wj_state (recovered now u j) = QUEUED"
proof -
  let ?r = "(clear_claim j)\<lparr>wj_state := QUEUED, wj_available_at := now,
    wj_last_error := Some lease_expired_before_start\<rparr>"
  have r: "recovered now u j = ?r" using assms by (simp add: recovered_def)
  show "stored_job_ok (recovered now u j)" and "same_job j (recovered now u j)"
    and "mk_job (recovered now u j) = Inr (recovered now u j)"
    using assms(1,2) by (auto simp: r job_check_defs clear_claim_def same_job_def mk_job_Inr)
  show "wj_attempt_count (recovered now u j) = wj_attempt_count j"
    and "wj_state (recovered now u j) = QUEUED"
    by (simp_all add: r clear_claim_def)
  have "job_lease ?r = (job_lease j)\<lparr>ls_state := QUEUED, ls_token := None, ls_expires := None,
      ls_available := now\<rparr>"
    by (simp add: job_lease_def clear_claim_def)
  then show "lease_step (job_lease j) (EvRecover now) (job_lease (recovered now u j))"
    using lease_step.recover_claimed [of "job_lease j" now] assms(2,3) by (simp add: r lapsed_job)
qed

lemma recovered_running:
  assumes "stored_job_ok j" and "wj_state j = RUNNING" and "sql_le (wj_lease_expires_at j) now"
    and "1 \<le> wj_attempt_count j" and "0 \<le> u" and "u \<le> 1"
  shows "stored_job_ok (recovered now u j)" and "same_job j (recovered now u j)"
    and "complete_job j A_FAILED now True (Some lease_expired) u = Inr (recovered now u j)"
    and "lease_step (job_lease j) (EvRecover now) (job_lease (recovered now u j))"
    and "wj_attempt_count (recovered now u j) = wj_attempt_count j"
    and "wj_state (recovered now u j) \<notin> {CLAIMED, RUNNING}"
proof -
  obtain j' where c: "complete_job j A_FAILED now True (Some lease_expired) u = Inr j'"
    and j': "stored_job_ok j'" "same_job j j'" "wj_attempt_count j' = wj_attempt_count j"
      "wj_state j' \<noteq> RUNNING"
    and cases: "wj_state j' = RETRY_WAIT \<and> True \<and> wj_attempt_count j < rp_max_attempts (wj_retry_policy j) \<and>
           now \<le> wj_available_at j' \<or>
         wj_state j' \<in> terminal_job_states \<and> wj_available_at j' = wj_available_at j"
    and tok: "wj_claim_token j' = None" "wj_lease_expires_at j' = None"
    by (rule complete_job_ok [OF assms(1,2,4-6), of A_FAILED now True "Some lease_expired"]) auto
  have r: "recovered now u j = j'" using assms(2,3) c by (simp add: recovered_def)
  show "stored_job_ok (recovered now u j)" "same_job j (recovered now u j)"
    "complete_job j A_FAILED now True (Some lease_expired) u = Inr (recovered now u j)"
    "wj_attempt_count (recovered now u j) = wj_attempt_count j"
    using j' c by (simp_all add: r)
  show "wj_state (recovered now u j) \<notin> {CLAIMED, RUNNING}"
    using cases by (auto simp: r terminal_job_states_def)
  show "lease_step (job_lease j) (EvRecover now) (job_lease (recovered now u j))"
    unfolding r by (rule complete_failed_run [OF c assms(2,3) j'(2,3) cases tok])
qed

lemma recover_job_ok:
  assumes inv: "queue_inv q" and j: "map_of (q_jobs q) i = Some j" and u: "draws_ok u"
  obtains js q' where "recover_job now u (i, j) q = (Inr js, q')" and "queue_inv q'"
    and "\<And>k. map_of (q_jobs q') k = (if k = i then Some (recovered now (u i) j) else map_of (q_jobs q) k)"
    and "map fst (q_jobs q') = map fst (q_jobs q)"
    and "\<exists>evs. lease_run (job_lease j) evs (job_lease (recovered now (u i) j))"
    and "\<not> (wj_state (recovered now (u i) j) \<in> {CLAIMED, RUNNING} \<and>
           sql_le (wj_lease_expires_at (recovered now (u i) j)) now)"
proof -
  obtain as where ent: "wj_job_id j = i" "stored_job_ok j" "map_of (q_attempts q) i = Some as"
    "attempts_ok j as" by (rule entryD [OF inv j])
  have ui: "0 \<le> u i" "u i \<le> 1" using u by (auto simp: draws_ok_def)
  have keys: "map fst (q_jobs (put_job j' q')) = map fst (q_jobs q)"
    if "wj_job_id j' = i" "q_jobs q' = q_jobs q" for j' q'
    using that j by (simp add: put_job_def alist_update_keys_old domI flip: dom_map_of_conv_image_fst)
  let ?r = "recovered now (u i) j"
  consider (idle) "wj_state j \<notin> {CLAIMED, RUNNING} \<or> \<not> sql_le (wj_lease_expires_at j) now"
    | (claimed) "wj_state j = CLAIMED" "sql_le (wj_lease_expires_at j) now"
    | (running) "wj_state j = RUNNING" "sql_le (wj_lease_expires_at j) now" by auto
  then show thesis
  proof cases
    case idle
    then have r: "?r = j" by (auto simp: recovered_def)
    have "recover_job now u (i, j) q = (Inr [], q)" using idle by (auto simp: recover_job_def)
    then show thesis by (rule that) (use inv j idle in \<open>auto simp: r\<close>)
  next
    case claimed
    note r = recovered_claimed [OF ent(2) claimed, of "u i"]
    have put: "recover_job now u (i, j) q = (Inr [?r], put_job ?r q)"
      using claimed r(2,3) ent(1)
      by (simp add: recover_job_def recovered_def put_job_def same_job_def split: sum.splits)
    show thesis
    proof (rule that [OF put])
      show "queue_inv (put_job ?r q)"
        using r ent claimed by (intro queue_inv_replace_job [OF inv j])
          (auto simp: same_job_def intro: attempts_ok_cong)
    qed (use r ent keys in \<open>auto simp: same_job_def intro: lease_run_step\<close>)
  next
    case running
    note a = attempts_running [OF ent(4) running(1)]
    note r = recovered_running [OF ent(2) running a(3) ui]
    let ?a = "(last as)\<lparr>wa_status := A_FAILED, wa_completed_at := Some now, wa_heartbeat_at := now,
      wa_error := Some lease_expired\<rparr>"
    have "attempt_post_init (last as) = None" using ent(4) a(1) by (auto simp: attempts_ok_def)
    then have pa: "attempt_post_init ?a = None" by (auto simp: attempt_post_init_def split: if_splits)
    have put: "recover_job now u (i, j) q = (Inr [?r], put_job ?r (put_attempts i (set_last as ?a) q))"
      using running a(1,2) r(2,3) ent(1,3) pa
      by (simp add: recover_job_def mk_attempt_def put_job_def same_job_def)
    show thesis
    proof (rule that [OF put])
      show "queue_inv (put_job ?r (put_attempts i (set_last as ?a) q))"
        using r ent running by (intro queue_inv_replace [OF inv j] attempts_ok_set_last [OF ent(4) a(1) pa])
          (auto simp: same_job_def)
    qed (use r ent keys in \<open>auto simp: same_job_def intro: lease_run_step\<close>)
  qed
qed

text \<open>The recovery loop over the snapshot of the job table.\<close>

lemma recover_items_ok:
  assumes "queue_inv q" and "draws_ok u" and "distinct (map fst items)"
    and "\<And>i j. (i, j) \<in> set items \<Longrightarrow> map_of (q_jobs q) i = Some j"
  shows "\<exists>js q'. recover_items now u items q = (Inr js, q') \<and> queue_inv q' \<and>
    (\<forall>i j. (i, j) \<in> set items \<longrightarrow> map_of (q_jobs q') i = Some (recovered now (u i) j)) \<and>
    (\<forall>i. i \<notin> fst ` set items \<longrightarrow> map_of (q_jobs q') i = map_of (q_jobs q) i) \<and>
    map fst (q_jobs q') = map fst (q_jobs q)"
  using assms
proof (induction items arbitrary: q)
  case (Cons item items)
  obtain i j where item: "item = (i, j)" by (cases item)
  have j: "map_of (q_jobs q) i = Some j" using Cons.prems(4) item by simp
  obtain js q1 where r: "recover_job now u (i, j) q = (Inr js, q1)" "queue_inv q1"
    and q1: "\<And>k. map_of (q_jobs q1) k = (if k = i then Some (recovered now (u i) j) else map_of (q_jobs q) k)"
    and keys: "map fst (q_jobs q1) = map fst (q_jobs q)"
    by (rule recover_job_ok [OF Cons.prems(1) j Cons.prems(2), of now]) blast
  have fresh: "i \<notin> fst ` set items" using Cons.prems(3) item by simp
  have "map_of (q_jobs q1) k = Some x" if "(k, x) \<in> set items" for k x
    using that fresh q1 Cons.prems(4) item by (force simp: image_iff)
  with Cons.IH [OF r(2) Cons.prems(2)] Cons.prems(3) obtain js' q2
    where q2: "recover_items now u items q1 = (Inr js', q2)" "queue_inv q2"
      "\<forall>k x. (k, x) \<in> set items \<longrightarrow> map_of (q_jobs q2) k = Some (recovered now (u k) x)"
      "\<forall>k. k \<notin> fst ` set items \<longrightarrow> map_of (q_jobs q2) k = map_of (q_jobs q1) k"
      "map fst (q_jobs q2) = map fst (q_jobs q1)"
    by auto
  show ?case
  proof (intro exI conjI)
    show "recover_items now u (item # items) q = (Inr (js @ js'), q2)"
      using r q2(1) item by simp
    show "\<forall>k x. (k, x) \<in> set (item # items) \<longrightarrow> map_of (q_jobs q2) k = Some (recovered now (u k) x)"
      using q2(3,4) fresh q1 item by auto
    show "\<forall>k. k \<notin> fst ` set (item # items) \<longrightarrow> map_of (q_jobs q2) k = map_of (q_jobs q) k"
      using q2(4) q1 item by auto
  qed (use q2 keys in simp_all)
qed simp

lemma recover_expired_ok:
  assumes "queue_inv q" and "draws_ok u"
  obtains js q' where "recover_expired_locked now u q = (Inr js, q')" and "queue_inv q'"
    and "\<And>i. map_of (q_jobs q') i = map_option (recovered now (u i)) (map_of (q_jobs q) i)"
    and "map fst (q_jobs q') = map fst (q_jobs q)"
proof -
  have d: "distinct (map fst (q_jobs q))" using assms(1) by (simp add: queue_inv_def)
  have mem: "(i, j) \<in> set (q_jobs q) \<longleftrightarrow> map_of (q_jobs q) i = Some j" for i j
    using d by (metis map_of_eq_Some_iff)
  obtain js q' where r: "recover_items now u (q_jobs q) q = (Inr js, q')" "queue_inv q'"
      "\<forall>i j. (i, j) \<in> set (q_jobs q) \<longrightarrow> map_of (q_jobs q') i = Some (recovered now (u i) j)"
      "\<forall>i. i \<notin> fst ` set (q_jobs q) \<longrightarrow> map_of (q_jobs q') i = map_of (q_jobs q) i"
      "map fst (q_jobs q') = map fst (q_jobs q)"
    using recover_items_ok [OF assms d] mem by blast
  have "map_of (q_jobs q') i = map_option (recovered now (u i)) (map_of (q_jobs q) i)" for i
  proof (cases "map_of (q_jobs q) i")
    case None
    then have "i \<notin> fst ` set (q_jobs q)" by (simp add: map_of_eq_None_iff)
    with None show ?thesis using r(4) by simp
  next
    case (Some j)
    then show ?thesis using r(3) mem by simp
  qed
  then show thesis using that r unfolding recover_expired_locked_def by blast
qed

lemma recovered_run:
  assumes "queue_inv q" and "map_of (q_jobs q) i = Some j" and "draws_ok u"
  shows "\<exists>evs. lease_run (job_lease j) evs (job_lease (recovered now (u i) j))"
  by (rule recover_job_ok [OF assms, of now])

section \<open>Every method keeps the invariant and follows the protocol\<close>

definition follows :: "job_queue \<Rightarrow> job_queue \<Rightarrow> bool" where
  "follows q q' \<longleftrightarrow> (\<forall>i. case map_of (q_jobs q) i of
      None \<Rightarrow> map_of (q_jobs q') i = None
    | Some j \<Rightarrow> (\<exists>j' evs. map_of (q_jobs q') i = Some j' \<and> same_job j j' \<and>
        lease_run (job_lease j) evs (job_lease j')))"

lemma same_job_refl [simp]: "same_job j j"
  by (simp add: same_job_def)

lemma same_job_trans: "same_job a b \<Longrightarrow> same_job b c \<Longrightarrow> same_job a c"
  by (simp add: same_job_def)

lemma follows_refl: "follows q q"
  by (auto simp: follows_def split: option.splits)

lemma follows_trans:
  assumes "follows q q1" and "follows q1 q2"
  shows "follows q q2"
  unfolding follows_def
proof
  fix i
  show "case map_of (q_jobs q) i of None \<Rightarrow> map_of (q_jobs q2) i = None
    | Some j \<Rightarrow> \<exists>j' evs. map_of (q_jobs q2) i = Some j' \<and> same_job j j' \<and> lease_run (job_lease j) evs (job_lease j')"
  proof (cases "map_of (q_jobs q) i")
    case None
    then show ?thesis
      using spec [OF assms(1) [unfolded follows_def], of i] spec [OF assms(2) [unfolded follows_def], of i]
      by simp
  next
    case (Some j)
    then obtain j1 evs1 where 1: "map_of (q_jobs q1) i = Some j1" "same_job j j1"
      "lease_run (job_lease j) evs1 (job_lease j1)"
      using spec [OF assms(1) [unfolded follows_def], of i] by auto
    then obtain j2 evs2 where "map_of (q_jobs q2) i = Some j2" "same_job j1 j2"
      "lease_run (job_lease j1) evs2 (job_lease j2)"
      using spec [OF assms(2) [unfolded follows_def], of i] by auto
    with 1 Some show ?thesis using same_job_trans lease_run_append by fastforce
  qed
qed

lemma follows_put:
  assumes "map_of (q_jobs q) i = Some j" and "wj_job_id j' = i" and "same_job j j'"
    and "lease_step (job_lease j) ev (job_lease j')" and "q_jobs q' = q_jobs q"
  shows "follows q (put_job j' q')"
proof -
  have "map_of (q_jobs (put_job j' q')) k = (if k = i then Some j' else map_of (q_jobs q) k)" for k
    using assms(2,5) by simp
  then show ?thesis
    using assms(1,3) lease_run_step [OF assms(4)] unfolding follows_def
    by (auto split: option.splits)
qed

lemma recovered_same:
  assumes "queue_inv q" and "map_of (q_jobs q) i = Some j" and "draws_ok u"
  shows "same_job j (recovered now (u i) j)"
proof -
  obtain as where ent: "stored_job_ok j" "attempts_ok j as" by (rule entryD [OF assms(1,2)])
  have u: "0 \<le> u i" "u i \<le> 1" using assms(3) by (auto simp: draws_ok_def)
  consider "wj_state j \<notin> {CLAIMED, RUNNING} \<or> \<not> sql_le (wj_lease_expires_at j) now"
    | "wj_state j = CLAIMED" "sql_le (wj_lease_expires_at j) now"
    | "wj_state j = RUNNING" "sql_le (wj_lease_expires_at j) now" by auto
  then show ?thesis
  proof cases
    case 1
    then have "recovered now (u i) j = j" by (auto simp: recovered_def)
    then show ?thesis by simp
  next
    case 2
    then show ?thesis by (rule recovered_claimed(2) [OF ent(1)])
  next
    case 3
    then show ?thesis using recovered_running(2) [OF ent(1) 3 _ u] attempts_running(3) [OF ent(2)] by simp
  qed
qed

lemma recover_follows:
  assumes "queue_inv q" and "draws_ok u" and "recover_expired_locked now u q = (r, q')"
  shows "queue_inv q'" and "follows q q'" and "\<exists>js. r = Inr js"
    and "map_of (q_jobs q') i = map_option (recovered now (u i)) (map_of (q_jobs q) i)"
proof -
  obtain js where q': "r = Inr js" "queue_inv q'"
    "\<And>i. map_of (q_jobs q') i = map_option (recovered now (u i)) (map_of (q_jobs q) i)"
    by (rule recover_expired_ok [OF assms(1,2), of now]) (use assms(3) in auto)
  then show "queue_inv q'" and "\<exists>js. r = Inr js"
    and "map_of (q_jobs q') i = map_option (recovered now (u i)) (map_of (q_jobs q) i)" by auto
  show "follows q q'"
    using recovered_run [OF assms(1) _ assms(2)] recovered_same [OF assms(1) _ assms(2)] q'(3)
    by (auto simp: follows_def split: option.splits)
qed

text \<open>Claims pick the first due job of the recovered queue.\<close>

lemma due_jobsD:
  assumes "queue_inv q" and "j \<in> set (due_jobs now q)"
  shows "map_of (q_jobs q) (wj_job_id j) = Some j" and "wj_state j \<in> {QUEUED, RETRY_WAIT}"
    and "wj_available_at j \<le> now"
proof -
  obtain i where "(i, j) \<in> set (q_jobs q)" using assms(2) by (auto simp: due_jobs_def)
  then have i: "map_of (q_jobs q) i = Some j" using assms(1) by (simp add: queue_inv_def)
  then have "wj_job_id j = i" using assms(1) by (auto simp: queue_inv_def entry_ok_def)
  with i show "map_of (q_jobs q) (wj_job_id j) = Some j" by simp
  show "wj_state j \<in> {QUEUED, RETRY_WAIT}" and "wj_available_at j \<le> now"
    using assms(2) by (auto simp: due_jobs_def)
qed

lemma q_claim_ok:
  assumes inv: "queue_inv q" and u: "draws_ok u" and c: "q_claim worker now lease token u q = (r, q')"
  shows "queue_inv q' \<and> follows q q'"
proof (cases "worker = [] \<or> lease \<le> 0")
  case True
  then show ?thesis using c inv follows_refl by (auto simp: q_claim_def)
next
  case False
  obtain r1 q1 where rec: "recover_expired_locked now u q = (r1, q1)"
    by (cases "recover_expired_locked now u q")
  note q1 = recover_follows [OF inv u rec]
  obtain js where js: "r1 = Inr js" using q1(3) by blast
  show ?thesis
  proof (cases "min_by claim_order (due_jobs now q1)")
    case None
    then have "q' = q1" using c False rec js by (simp add: q_claim_def)
    then show ?thesis using q1 by simp
  next
    case (Some s)
    have "s \<in> set (due_jobs now q1)" using min_by_in [OF Some] .
    note s = due_jobsD [OF q1(1) this]
    obtain as where ent: "stored_job_ok s" "map_of (q_attempts q1) (wj_job_id s) = Some as"
      "attempts_ok s as" by (rule entryD [OF q1(1) s(1)])
    let ?s = "s\<lparr>wj_state := CLAIMED, wj_claim_token := Some token, wj_claimed_by := Some worker,
      wj_claimed_at := Some now, wj_lease_expires_at := Some (now + lease), wj_heartbeat_at := Some now\<rparr>"
    have ok: "stored_job_ok ?s" using ent(1) s(2) False by (auto simp: job_check_defs)
    then have "mk_job ?s = Inr ?s" by (simp add: stored_job_ok_def mk_job_Inr)
    then have q': "q' = put_job ?s q1" using c False rec js Some by (simp add: q_claim_def)
    have "queue_inv (put_job ?s q1)"
      using s(2) by (intro queue_inv_replace_job [OF q1(1) s(1) _ _ ok ent(2)] attempts_ok_cong [OF ent(3)]) auto
    moreover have "lease_step (job_lease s) (EvClaim now token (now + lease)) (job_lease ?s)"
      using lease_step.claim [of "job_lease s" now "now + lease" token] s(2,3) False
      by (simp add: job_lease_def)
    then have "follows q1 (put_job ?s q1)"
      by (rule follows_put [OF s(1), rotated 2]) (simp_all add: same_job_def)
    ultimately show ?thesis using q' follows_trans [OF q1(2)] by simp
  qed
qed

lemma require_claim_Inr:
  "require_claim c now expected q = Inr j \<longleftrightarrow>
     map_of (q_jobs q) (jc_job_id c) = Some j \<and> holds_lease (job_lease j) (jc_claim_token c) now \<and>
     (case expected of None \<Rightarrow> True | Some st \<Rightarrow> wj_state j = st)"
  by (auto simp: require_claim_def holds_lease_def sql_le_iff split: option.splits if_splits)

lemma require_claim_Inl: "require_claim c now expected q = Inl e \<Longrightarrow> \<exists>m. e = StaleClaimError m"
  by (auto simp: require_claim_def split: option.splits if_splits)

lemma require_claim_active:
  assumes "queue_inv q" and "require_claim c now expected q = Inr j"
  shows "wj_state j \<in> {CLAIMED, RUNNING}"
proof -
  have j: "map_of (q_jobs q) (jc_job_id c) = Some j" "wj_claim_token j \<noteq> None"
    using assms(2) by (auto simp: require_claim_Inr holds_lease_def)
  have "stored_job_ok j" by (rule entryD [OF assms(1) j(1)])
  with j(2) show ?thesis by (auto simp: job_check_defs split: if_splits)
qed

text \<open>
  Each of the three token operations either raises \<open>StaleClaimError\<close> (or rejects its
  arguments) and changes nothing, or succeeds for the holder of a live lease.
\<close>

lemma q_start_ok:
  assumes inv: "queue_inv q" and c: "q_start claim now attempt_id q = (r, q')"
  shows "queue_inv q' \<and> follows q q' \<and>
    (case r of Inl e \<Rightarrow> q' = q \<and> (\<exists>m. e = StaleClaimError m)
     | Inr a \<Rightarrow> \<exists>j. map_of (q_jobs q) (jc_job_id claim) = Some j \<and> wj_state j = CLAIMED \<and>
         holds_lease (job_lease j) (jc_claim_token claim) now \<and> wa_attempt_no a = wj_attempt_count j + 1)"
proof (cases "require_claim claim now (Some CLAIMED) q")
  case (Inl e)
  then show ?thesis using c inv follows_refl require_claim_Inl [OF Inl] by (auto simp: q_start_def)
next
  case (Inr j)
  then have j: "map_of (q_jobs q) (jc_job_id claim) = Some j" "wj_state j = CLAIMED"
    "holds_lease (job_lease j) (jc_claim_token claim) now" by (auto simp: require_claim_Inr)
  obtain as where ent: "wj_job_id j = jc_job_id claim" "stored_job_ok j"
    "map_of (q_attempts q) (jc_job_id claim) = Some as" "attempts_ok j as"
    by (rule entryD [OF inv j(1)])
  obtain w where w: "wj_claimed_by j = Some w" "w \<noteq> []"
    using ent(2) j(2) by (auto simp: job_check_defs)
  have n: "0 \<le> wj_attempt_count j" "wj_attempt_count j < rp_max_attempts (wj_retry_policy j)"
    using ent(2) j(2) by (auto simp: job_check_defs)
  let ?a = "\<lparr>wa_attempt_id = attempt_id, wa_job_id = wj_job_id j, wa_attempt_no = wj_attempt_count j + 1,
    wa_worker_id = w, wa_status = A_RUNNING, wa_started_at = now, wa_heartbeat_at = now,
    wa_completed_at = None, wa_warnings = [], wa_error = None\<rparr>"
  let ?j = "j\<lparr>wj_state := RUNNING, wj_attempt_count := wj_attempt_count j + 1,
    wj_started_at := (case wj_started_at j of None \<Rightarrow> Some now | Some t \<Rightarrow> Some t),
    wj_heartbeat_at := Some now\<rparr>"
  have a: "attempt_post_init ?a = None" using w n by (simp add: attempt_post_init_def)
  have ok: "stored_job_ok ?j" using ent(2) j(2) n by (auto simp: job_check_defs)
  then have mk: "mk_job ?j = Inr ?j" by (simp add: stored_job_ok_def mk_job_Inr)
  have q': "q' = put_attempts (jc_job_id claim) (as @ [?a]) (put_job ?j q)" and r: "r = Inr ?a"
    using c Inr a mk w ent(1,3) by (simp_all add: q_start_def mk_attempt_def)
  have swap: "put_attempts (jc_job_id claim) (as @ [?a]) (put_job ?j q) =
      put_job ?j (put_attempts (jc_job_id claim) (as @ [?a]) q)"
    by (simp add: put_attempts_def put_job_def)
  have "attempts_ok ?j (as @ [?a])"
    using j(2) n a by (intro attempts_ok_append [OF ent(4)]) simp_all
  then have "queue_inv q'"
    unfolding q' swap using ent(1) by (intro queue_inv_replace [OF inv j(1) _ _ ok]) simp_all
  moreover have "lease_step (job_lease j) (EvStart now (jc_claim_token claim)) (job_lease ?j)"
    using lease_step.start [of "job_lease j" "jc_claim_token claim" now] j(2,3) n
    by (simp add: job_lease_def)
  then have "follows q q'"
    unfolding q' swap using ent(1)
    by (intro follows_put [OF j(1)]) (simp_all add: same_job_def)
  ultimately show ?thesis using j r by simp
qed

lemma q_heartbeat_ok:
  assumes inv: "queue_inv q" and c: "q_heartbeat claim now lease q = (r, q')"
  shows "queue_inv q' \<and> follows q q' \<and>
    (case r of Inl e \<Rightarrow> q' = q \<and> (lease \<le> 0 \<or> (\<exists>m. e = StaleClaimError m))
     | Inr j' \<Rightarrow> \<exists>j. map_of (q_jobs q) (jc_job_id claim) = Some j \<and>
         holds_lease (job_lease j) (jc_claim_token claim) now \<and>
         job_lease j' = (job_lease j)\<lparr>ls_expires := Some (now + lease)\<rparr>)"
proof (cases "lease \<le> 0")
  case True
  then show ?thesis using c inv follows_refl by (auto simp: q_heartbeat_def)
next
  case pos: False
  show ?thesis
  proof (cases "require_claim claim now None q")
    case (Inl e)
    then have "r = Inl e" "q' = q" using c pos by (simp_all add: q_heartbeat_def)
    then show ?thesis using inv follows_refl require_claim_Inl [OF Inl] by simp
  next
    case (Inr j)
    then have j: "map_of (q_jobs q) (jc_job_id claim) = Some j"
      "holds_lease (job_lease j) (jc_claim_token claim) now" by (auto simp: require_claim_Inr)
    have act: "wj_state j \<in> {CLAIMED, RUNNING}" by (rule require_claim_active [OF inv Inr])
    obtain as where ent: "wj_job_id j = jc_job_id claim" "stored_job_ok j"
      "map_of (q_attempts q) (jc_job_id claim) = Some as" "attempts_ok j as"
      by (rule entryD [OF inv j(1)])
    let ?j = "j\<lparr>wj_heartbeat_at := Some now, wj_lease_expires_at := Some (now + lease)\<rparr>"
    have ok: "stored_job_ok ?j" using ent(2) act by (auto simp: job_check_defs)
    then have mk: "mk_job ?j = Inr ?j" by (simp add: stored_job_ok_def mk_job_Inr)
    let ?a = "(last as)\<lparr>wa_heartbeat_at := now\<rparr>"
    let ?run = "as \<noteq> [] \<and> wa_status (last as) = A_RUNNING"
    let ?as = "if ?run then set_last as ?a else as"
    have a: "attempt_post_init ?a = None" if "?run"
      using that ent(4) by (auto simp: attempts_ok_def attempt_post_init_def split: if_splits)
    have as: "attempts_ok ?j ?as"
    proof (cases ?run)
      case True
      have "wj_state j = RUNNING" using ent(4) True by (simp add: attempts_ok_def)
      then have "attempts_ok ?j (set_last as ?a)"
        using True by (intro attempts_ok_set_last [OF ent(4) _ a]) simp_all
      then show ?thesis using True by simp
    next
      case False
      have "attempts_ok ?j as" by (rule attempts_ok_cong [OF ent(4)]) simp_all
      then show ?thesis using False by (simp only: if_False)
    qed
    have "q_heartbeat claim now lease q =
        (Inr ?j, if ?run then put_attempts (jc_job_id claim) ?as (put_job ?j q) else put_job ?j q)"
    proof (cases ?run)
      case True
      then have "mk_attempt ?a = Inr ?a" using a by (simp add: mk_attempt_def)
      then show ?thesis using True pos Inr mk ent(1,3) by (simp add: q_heartbeat_def Let_def)
    next
      case False
      then show ?thesis using pos Inr mk ent(1,3) by (auto simp: q_heartbeat_def Let_def)
    qed
    then have q': "q' = (if ?run then put_attempts (jc_job_id claim) ?as (put_job ?j q) else put_job ?j q)"
      and r: "r = Inr ?j" using c by (simp_all only: prod.inject)
    have swap: "put_attempts i xs (put_job ?j q) = put_job ?j (put_attempts i xs q)" for i xs
      by (simp add: put_attempts_def put_job_def)
    have "queue_inv (put_job ?j (put_attempts (jc_job_id claim) ?as q))"
      using ent(1) by (intro queue_inv_replace [OF inv j(1) _ _ ok as]) simp_all
    moreover have "queue_inv (put_job ?j q)" if "\<not> ?run"
      using ent(1) as unfolding if_not_P [OF that]
      by (intro queue_inv_replace_job [OF inv j(1) _ _ ok ent(3)]) simp_all
    ultimately have "queue_inv q'" unfolding q' swap by presburger
    moreover have st: "lease_step (job_lease j) (EvHeartbeat now (jc_claim_token claim) (now + lease)) (job_lease ?j)"
      using lease_step.heartbeat [of "job_lease j" "jc_claim_token claim" now "now + lease"] j(2) act pos
      by (simp add: job_lease_def)
    then have "follows q q'"
      unfolding q' swap using ent(1) follows_put [OF j(1) _ _ st] by (simp add: same_job_def)
    ultimately show ?thesis using j r by (simp add: job_lease_def)
  qed
qed

lemma q_finish_ok:
  assumes inv: "queue_inv q" and u: "0 \<le> u" "u \<le> 1"
    and c: "q_finish claim status now retryable err warnings u q = (r, q')"
  shows "queue_inv q' \<and> follows q q' \<and>
    (case r of Inl e \<Rightarrow> q' = q \<and> (status = A_RUNNING \<or> (\<exists>m. e = StaleClaimError m))
     | Inr j' \<Rightarrow> \<exists>j. map_of (q_jobs q) (jc_job_id claim) = Some j \<and> wj_state j = RUNNING \<and>
         holds_lease (job_lease j) (jc_claim_token claim) now \<and> same_job j j' \<and>
         wj_state j' \<in> insert RETRY_WAIT terminal_job_states)"
proof (cases "status = A_RUNNING")
  case True
  then show ?thesis using c inv follows_refl by (auto simp: q_finish_def)
next
  case st: False
  show ?thesis
  proof (cases "require_claim claim now (Some RUNNING) q")
    case (Inl e)
    then have "r = Inl e" "q' = q" using c st by (simp_all add: q_finish_def)
    then show ?thesis using inv follows_refl require_claim_Inl [OF Inl] by simp
  next
    case (Inr j)
    then have j: "map_of (q_jobs q) (jc_job_id claim) = Some j" "wj_state j = RUNNING"
      "holds_lease (job_lease j) (jc_claim_token claim) now" by (auto simp: require_claim_Inr)
    obtain as where ent: "wj_job_id j = jc_job_id claim" "stored_job_ok j"
      "map_of (q_attempts q) (jc_job_id claim) = Some as" "attempts_ok j as"
      by (rule entryD [OF inv j(1)])
    note run = attempts_running [OF ent(4) j(2)]
    let ?a = "(last as)\<lparr>wa_status := status, wa_completed_at := Some now, wa_heartbeat_at := now,
      wa_error := err, wa_warnings := warnings\<rparr>"
    have "attempt_post_init (last as) = None" using ent(4) run(1) by (auto simp: attempts_ok_def)
    then have a: "attempt_post_init ?a = None"
      using st by (auto simp: attempt_post_init_def split: if_splits)
    obtain j' where j': "complete_job j status now retryable err u = Inr j'" "stored_job_ok j'"
      "same_job j j'" "wj_attempt_count j' = wj_attempt_count j" "wj_state j' \<noteq> RUNNING"
      and fin: "wj_state j' = RETRY_WAIT \<and> retryable \<and>
          wj_attempt_count j < rp_max_attempts (wj_retry_policy j) \<and> now \<le> wj_available_at j' \<or>
        wj_state j' \<in> terminal_job_states \<and> wj_available_at j' = wj_available_at j"
      and tok: "wj_claim_token j' = None" "wj_lease_expires_at j' = None"
      by (rule complete_job_ok [OF ent(2) j(2) run(3) u st, of now retryable err])
    have id: "wj_job_id j' = jc_job_id claim" "wj_dedupe_key j' = wj_dedupe_key j"
      using j'(3) ent(1) by (simp_all add: same_job_def)
    have q': "q' = put_job j' (put_attempts (jc_job_id claim) (set_last as ?a) q)" and r: "r = Inr j'"
      using c st Inr run a j'(1) ent(1,3) by (simp_all add: q_finish_def mk_attempt_def)
    have "attempts_ok j' (set_last as ?a)"
      using j'(4,5) id(1) ent(1) st by (intro attempts_ok_set_last [OF ent(4) run(1) a]) simp_all
    then have "queue_inv q'"
      unfolding q' by (intro queue_inv_replace [OF inv j(1) id j'(2)])
    moreover have "lease_step (job_lease j) (EvFinish now (jc_claim_token claim) (wj_state j')) (job_lease j')"
    proof (cases "wj_state j' = RETRY_WAIT")
      case True
      then show ?thesis
        using lease_step.finish_retry [of "job_lease j" "jc_claim_token claim" now "wj_available_at j'"]
          fin j j' tok by (auto simp: job_lease_def same_job_def terminal_job_states_def)
    next
      case False
      then show ?thesis
        using lease_step.finish_terminal [of "job_lease j" "jc_claim_token claim" now "wj_state j'"]
          fin j j' tok by (auto simp: job_lease_def same_job_def)
    qed
    then have "follows q q'"
      unfolding q' by (intro follows_put [OF j(1) id(1) j'(3)]) simp_all
    moreover have "wj_state j' \<in> insert RETRY_WAIT terminal_job_states" using fin by blast
    ultimately show ?thesis using j j'(3) r by simp
  qed
qed

lemma q_cancel_ok:
  assumes inv: "queue_inv q" and c: "q_cancel i now q = (r, q')"
  shows "queue_inv q' \<and> follows q q'"
proof (cases "\<exists>j. map_of (q_jobs q) i = Some j \<and> wj_state j \<in> {QUEUED, RETRY_WAIT}")
  case False
  then have "q' = q" using c by (auto simp: q_cancel_def split: option.splits if_splits)
  then show ?thesis using inv follows_refl by simp
next
  case True
  then obtain j where j: "map_of (q_jobs q) i = Some j" "wj_state j \<in> {QUEUED, RETRY_WAIT}" by blast
  obtain as where ent: "wj_job_id j = i" "stored_job_ok j" "map_of (q_attempts q) i = Some as"
    "attempts_ok j as" by (rule entryD [OF inv j(1)])
  let ?j = "j\<lparr>wj_state := CANCELLED, wj_completed_at := Some now\<rparr>"
  have ok: "stored_job_ok ?j" using ent(2) j(2) by (auto simp: job_check_defs)
  then have q': "q' = put_job ?j q"
    using c j by (auto simp: q_cancel_def mk_job_def stored_job_ok_def)
  have none: "wj_claim_token j = None" "wj_lease_expires_at j = None"
    using ent(2) j(2) by (auto simp: job_check_defs)
  have "queue_inv q'"
    unfolding q' using ent(1) j(2)
    by (intro queue_inv_replace_job [OF inv j(1) _ _ ok ent(3)] attempts_ok_cong [OF ent(4)]) auto
  moreover have "lease_step (job_lease j) EvCancel (job_lease ?j)"
    using lease_step.cancel [of "job_lease j"] j(2) none by (auto simp: job_lease_def)
  then have "follows q q'"
    unfolding q' using ent(1) by (intro follows_put [OF j(1)]) (simp_all add: same_job_def)
  ultimately show ?thesis by simp
qed

text \<open>What \<open>WorkflowJob.create\<close> produces: a queued job without attempts, within its own checks.\<close>

definition fresh_job :: "workflow_job \<Rightarrow> bool" where
  "fresh_job j \<longleftrightarrow> job_post_init j = None \<and> retry_policy_post_init (wj_retry_policy j) = None \<and>
     wj_state j = QUEUED \<and> wj_attempt_count j = 0"

lemma fresh_job_ok:
  assumes "fresh_job j"
  shows "stored_job_ok j" and "attempts_ok j []" and "new_lease (job_lease j)"
proof -
  have "1 \<le> rp_max_attempts (wj_retry_policy j)"
    using assms by (auto simp: fresh_job_def retry_policy_post_init_def split: if_splits)
  then show "stored_job_ok j" and "new_lease (job_lease j)"
    using assms by (auto simp: fresh_job_def job_check_defs new_lease_def)
  show "attempts_ok j []" using assms by (simp add: attempts_ok_def fresh_job_def)
qed

lemma job_create_fresh:
  assumes "job_create ul sha job_id now kind trig scheduled request ds dv dh lane prio policy inst parent gen
      scope = Inr j"
    and "retry_policy_post_init policy = None"
  shows "fresh_job j \<and> secret_free (wj_request j)"
  using assms redact_secret_free(1) [of ul "JObj request"]
  by (auto simp: job_create_def fresh_job_def mk_job_Inr Let_def split: sum.splits)

lemma q_enqueue_ok:
  assumes inv: "queue_inv q" and j: "fresh_job j" and c: "q_enqueue j q = (r, q')"
  shows "queue_inv q'"
    and "\<And>i x. map_of (q_jobs q) i = Some x \<Longrightarrow> map_of (q_jobs q') i = Some x"
    and "\<And>i x. map_of (q_jobs q) i = None \<Longrightarrow> map_of (q_jobs q') i = Some x \<Longrightarrow> x = j \<and> i = wj_job_id j"
proof -
  let ?new = "q\<lparr>q_jobs := AList.update (wj_job_id j) j (q_jobs q),
    q_dedupe := AList.update (wj_dedupe_key j) (wj_job_id j) (q_dedupe q),
    q_attempts := AList.update (wj_job_id j) [] (q_attempts q)\<rparr>"
  have cases: "q' = q \<or> q' = ?new \<and> map_of (q_dedupe q) (wj_dedupe_key j) = None \<and>
      map_of (q_jobs q) (wj_job_id j) = None"
    using c by (auto simp: q_enqueue_def split: option.splits if_splits)
  show "map_of (q_jobs q') i = Some x" if "map_of (q_jobs q) i = Some x" for i x
    using cases that by (auto simp: update_conv)
  show "x = j \<and> i = wj_job_id j" if "map_of (q_jobs q) i = None" "map_of (q_jobs q') i = Some x" for i x
    using cases that by (auto simp: update_conv split: if_splits)
  show "queue_inv q'"
  proof (cases "q' = q")
    case False
    then have q': "q' = ?new" and new: "map_of (q_dedupe q) (wj_dedupe_key j) = None"
      "map_of (q_jobs q) (wj_job_id j) = None" using cases by auto
    have dist: "distinct (map fst (q_jobs q))"
      and ent: "\<And>i x. map_of (q_jobs q) i = Some x \<Longrightarrow> entry_ok q i x"
      and ded: "\<And>d i. map_of (q_dedupe q) d = Some i \<Longrightarrow> \<exists>x. map_of (q_jobs q) i = Some x \<and> wj_dedupe_key x = d"
      using inv by (auto simp: queue_inv_def)
    have "entry_ok ?new i x" if "map_of (q_jobs ?new) i = Some x" for i x
    proof (cases "i = wj_job_id j")
      case True
      then show ?thesis using that fresh_job_ok [OF j] by (simp add: entry_ok_def update_conv)
    next
      case False
      then have "entry_ok q i x" using that ent by (simp add: update_conv)
      moreover from this have "wj_dedupe_key x \<noteq> wj_dedupe_key j" using new(1) by (auto simp: entry_ok_def)
      ultimately show ?thesis using False by (simp add: entry_ok_def update_conv)
    qed
    moreover have "\<exists>x. map_of (q_jobs ?new) i = Some x \<and> wj_dedupe_key x = d"
      if "map_of (q_dedupe ?new) d = Some i" for d i
    proof (cases "d = wj_dedupe_key j")
      case True
      then show ?thesis using that by (simp add: update_conv)
    next
      case False
      then have "\<exists>x. map_of (q_jobs q) i = Some x \<and> wj_dedupe_key x = d"
        using that ded by (simp add: update_conv)
      moreover from this have "i \<noteq> wj_job_id j" using new(2) by auto
      ultimately show ?thesis by (simp add: update_conv)
    qed
    moreover have "distinct (map fst (q_jobs ?new))" using dist by (simp add: distinct_update)
    ultimately show ?thesis unfolding q' queue_inv_def by blast
  qed (use inv in simp)
qed

section \<open>The queue implements the lease protocol\<close>

datatype queue_command =
    QEnqueue workflow_job
  | QClaim string instant duration string "string \<Rightarrow> rat"
  | QStart job_claim instant string
  | QHeartbeat job_claim instant duration
  | QFinish job_claim attempt_status instant bool "json option" "json list" rat
  | QRecover instant "string \<Rightarrow> rat"
  | QCancel string instant

fun queue_exec :: "queue_command \<Rightarrow> job_queue \<Rightarrow> job_queue" where
  "queue_exec (QEnqueue j) q = snd (q_enqueue j q)"
| "queue_exec (QClaim w now lease t u) q = snd (q_claim w now lease t u q)"
| "queue_exec (QStart c now i) q = snd (q_start c now i q)"
| "queue_exec (QHeartbeat c now lease) q = snd (q_heartbeat c now lease q)"
| "queue_exec (QFinish c st now retryable err ws u) q = snd (q_finish c st now retryable err ws u q)"
| "queue_exec (QRecover now u) q = snd (q_recover_expired now u q)"
| "queue_exec (QCancel i now) q = snd (q_cancel i now q)"

text \<open>Jobs come from \<open>WorkflowJob.create\<close>, random draws from \<open>[0, 1]\<close>; claims may be anything.\<close>

fun queue_admissible :: "queue_command \<Rightarrow> job_queue \<Rightarrow> bool" where
  "queue_admissible (QEnqueue j) q = fresh_job j"
| "queue_admissible (QClaim w now lease t u) q = draws_ok u"
| "queue_admissible (QStart c now i) q = True"
| "queue_admissible (QHeartbeat c now lease) q = True"
| "queue_admissible (QFinish c st now retryable err ws u) q = (0 \<le> u \<and> u \<le> 1)"
| "queue_admissible (QRecover now u) q = draws_ok u"
| "queue_admissible (QCancel i now) q = True"

lemma queue_exec_ok:
  assumes "queue_inv q" and "queue_admissible c q"
  shows "queue_inv (queue_exec c q) \<and> (follows q (queue_exec c q) \<or> (\<exists>j. c = QEnqueue j))"
proof (cases c)
  case (QEnqueue j)
  then show ?thesis
    using assms q_enqueue_ok(1) [of q j "fst (q_enqueue j q)" "snd (q_enqueue j q)"] by simp
next
  case (QClaim w now lease t u)
  then show ?thesis using assms q_claim_ok [of q u w now lease t] by (cases "q_claim w now lease t u q") simp
next
  case (QStart cl now i)
  then show ?thesis using assms q_start_ok [of q cl now i] by (cases "q_start cl now i q") simp
next
  case (QHeartbeat cl now lease)
  then show ?thesis using assms q_heartbeat_ok [of q cl now lease] by (cases "q_heartbeat cl now lease q") simp
next
  case (QFinish cl st now re err ws u)
  then show ?thesis
    using assms q_finish_ok [of q u cl st now re err ws] by (cases "q_finish cl st now re err ws u q") simp
next
  case (QRecover now u)
  then show ?thesis
    using assms recover_follows(1,2) [of q u now] by (cases "recover_expired_locked now u q")
      (simp add: q_recover_expired_def)
next
  case (QCancel i now)
  then show ?thesis using assms q_cancel_ok [of q i now] by (cases "q_cancel i now q") simp
qed

lemma queue_exec_lease:
  assumes "queue_inv q" and "queue_admissible c q" and "queue_view q i = Some l"
  shows "\<exists>evs l'. queue_view (queue_exec c q) i = Some l' \<and> lease_run l evs l'"
proof -
  obtain j where j: "map_of (q_jobs q) i = Some j" "l = job_lease j"
    using assms(3) by (auto simp: queue_view_def)
  show ?thesis
  proof (cases "follows q (queue_exec c q)")
    case True
    then show ?thesis
      using spec [OF True [unfolded follows_def], of i] j by (auto simp: queue_view_def)
  next
    case False
    then obtain x where c: "c = QEnqueue x" using queue_exec_ok [OF assms(1,2)] by blast
    have "map_of (q_jobs (queue_exec c q)) i = Some j"
      using q_enqueue_ok(2) [of q x "fst (q_enqueue x q)" "snd (q_enqueue x q)"] assms(1,2) c j by simp
    then show ?thesis using j by (auto simp: queue_view_def)
  qed
qed

lemma queue_exec_new:
  assumes "queue_inv q" and "queue_admissible c q" and "queue_view q i = None"
    and "queue_view (queue_exec c q) i = Some l"
  shows "new_lease l"
proof -
  have none: "map_of (q_jobs q) i = None" using assms(3) by (simp add: queue_view_def)
  obtain j where j: "map_of (q_jobs (queue_exec c q)) i = Some j" "l = job_lease j"
    using assms(4) by (auto simp: queue_view_def)
  have "\<not> follows q (queue_exec c q)"
    using none j by (auto simp: follows_def dest: spec [of _ i] split: option.splits)
  then obtain x where c: "c = QEnqueue x" using queue_exec_ok [OF assms(1,2)] by blast
  then have "j = x"
    using q_enqueue_ok(3) [of q x "fst (q_enqueue x q)" "snd (q_enqueue x q)" i j] assms(1,2) none j by simp
  then show ?thesis using fresh_job_ok(3) [of x] assms(2) c j(2) by simp
qed

interpretation lq: lease_system queue_inv queue_view queue_exec queue_admissible
  by unfold_locales (use queue_exec_ok queue_exec_lease queue_exec_new in blast)+

lemma queue_exec_same:
  assumes "queue_inv q" and "queue_admissible c q" and "map_of (q_jobs q) i = Some j"
  shows "\<exists>j'. map_of (q_jobs (queue_exec c q)) i = Some j' \<and> same_job j j'"
proof (cases "follows q (queue_exec c q)")
  case True
  then show ?thesis using spec [OF True [unfolded follows_def], of i] assms(3) by auto
next
  case False
  then obtain x where c: "c = QEnqueue x" using queue_exec_ok [OF assms(1,2)] by blast
  then show ?thesis
    using q_enqueue_ok(2) [of q x "fst (q_enqueue x q)" "snd (q_enqueue x q)" i j] assms by simp
qed

lemma reaches_same:
  "reaches queue_exec queue_admissible q cs q' \<Longrightarrow> queue_inv q \<Longrightarrow> map_of (q_jobs q) i = Some j \<Longrightarrow>
     \<exists>j'. map_of (q_jobs q') i = Some j' \<and> same_job j j'"
proof (induction cs arbitrary: q j)
  case (Cons c cs)
  then have c: "queue_admissible c q" "reaches queue_exec queue_admissible (queue_exec c q) cs q'" by auto
  obtain j1 where "map_of (q_jobs (queue_exec c q)) i = Some j1" "same_job j j1"
    using queue_exec_same [OF Cons.prems(2) c(1) Cons.prems(3)] by blast
  then show ?case
    using Cons.IH [OF c(2)] queue_exec_ok [OF Cons.prems(2) c(1)] same_job_trans by blast
qed auto

section \<open>Properties of the queue\<close>

text \<open>A system job, its claim and the random draws the witnesses use.\<close>

definition sample_job :: workflow_job where
  "sample_job = \<lparr>wj_job_id = ''job_1'', wj_dedupe_key = replicate 64 (CHR ''a''), wj_job_kind = SNAPSHOT,
     wj_trigger = T_SCHEDULE, wj_scheduled_for = 0, wj_available_at = 0, wj_request = JObj [],
     wj_request_hash = replicate 64 (CHR ''b''), wj_created_at = 0, wj_datasource_id = None,
     wj_definition_version = None, wj_definition_hash = None, wj_lane = None, wj_priority = 100,
     wj_retry_policy = default_retry_policy, wj_state = QUEUED, wj_attempt_count = 0,
     wj_claim_token = None, wj_claimed_by = None, wj_claimed_at = None, wj_lease_expires_at = None,
     wj_heartbeat_at = None, wj_started_at = None, wj_completed_at = None, wj_last_error = None,
     wj_parent_job_id = None, wj_generation = 0, wj_request_instance_id = None\<rparr>"

definition sample_claim :: job_claim where
  "sample_claim = \<lparr>jc_job_id = ''job_1'', jc_claim_token = ''claim_1'', jc_lease_expires_at = 300\<rparr>"

definition sample_script :: "queue_command list" where
  "sample_script = [QEnqueue sample_job, QClaim ''w'' 0 300 ''claim_1'' (\<lambda>_. 0),
     QStart sample_claim 10 ''attempt_1''
    ]"

lemma sample_job_fresh: "fresh_job sample_job"
  by (simp add: fresh_job_def sample_job_def job_post_init_None job_static_ok_def job_hash_checks_def
      hash64_def hex64_def list_all_iff job_scope_checks_def datasource_job_kinds_def
      job_trigger_checks_def job_lease_checks_def terminal_job_states_def default_retry_policy_def
      retry_policy_post_init_def)

lemma sample_draws: "draws_ok (\<lambda>_. 0)"
  by (simp add: draws_ok_def)

lemma sample_admissible:
  "reaches queue_exec queue_admissible empty_queue sample_script
     (queue_exec (QStart sample_claim 10 ''attempt_1'')
       (queue_exec (QClaim ''w'' 0 300 ''claim_1'' (\<lambda>_. 0))
         (queue_exec (QEnqueue sample_job) empty_queue)))"
  by (simp add: sample_script_def sample_job_fresh sample_draws)

lemmas job_eval =
  sample_job_def mk_job_def job_post_init_def job_hash_checks_def hash64_def hex64_def list_all_iff
  job_scope_checks_def datasource_job_kinds_def job_trigger_checks_def job_lease_checks_def
  terminal_job_states_def default_retry_policy_def mk_attempt_def attempt_post_init_def

lemmas queue_eval =
  job_eval sample_claim_def empty_queue_def q_enqueue_def q_claim_def recover_expired_locked_def
  recover_job_def due_jobs_def put_job_def put_attempts_def q_start_def require_claim_def Let_def
  q_finish_def q_heartbeat_def q_cancel_def complete_job_def clear_claim_def set_last_def

definition sample_queue :: job_queue where
  "sample_queue = queue_exec (QStart sample_claim 10 ''attempt_1'')
     (queue_exec (QClaim ''w'' 0 300 ''claim_1'' (\<lambda>_. 0)) (queue_exec (QEnqueue sample_job) empty_queue))"

lemma sample_reaches: "reaches queue_exec queue_admissible empty_queue sample_script sample_queue"
  using sample_admissible by (simp only: sample_queue_def)

text \<open>
  Every state the reference queue can reach by enqueuing fresh jobs and calling its methods
  in any order, with any claims, satisfies the queue invariant: stored jobs pass the checks of
  \<open>WorkflowJob\<close>, the dedupe index and the job table agree, and the attempts of a job are
  numbered from 1 with only the last one running, exactly when the job is.
\<close>

theorem queue_reachable_inv:
  assumes "reaches queue_exec queue_admissible empty_queue cs q"
  shows "queue_inv q"
  using lq.reaches_inv [OF assms queue_inv_empty] .

theorem queue_reachable_inv_witness:
  "queue_inv sample_queue \<and> map_option wj_state (map_of (q_jobs sample_queue) ''job_1'') = Some RUNNING"
  using queue_reachable_inv [OF sample_reaches] by (simp add: sample_queue_def queue_eval)

text \<open>
  A terminal job of the reference queue never changes again: no sequence of method calls
  alters its state, its attempt count or its lease.
\<close>

theorem queue_terminal_final:
  assumes "reaches queue_exec queue_admissible empty_queue cs q"
    and "reaches queue_exec queue_admissible q cs' q'"
    and "map_of (q_jobs q) i = Some j" and "wj_state j \<in> terminal_job_states"
  shows "\<exists>j'. map_of (q_jobs q') i = Some j' \<and> job_lease j' = job_lease j"
proof -
  have "queue_view q' i = Some (job_lease j)"
    using assms(3,4) by (intro lq.reaches_terminal [OF assms(2) lq.reaches_inv [OF assms(1) queue_inv_empty]])
      (simp_all add: queue_view_def)
  then show ?thesis by (auto simp: queue_view_def)
qed

theorem queue_terminal_final_witness:
  "\<exists>j'. map_of (q_jobs (queue_exec (QRecover 99 (\<lambda>_. 0))
     (queue_exec (QCancel ''job_1'' 5) (queue_exec (QEnqueue sample_job) empty_queue)))) ''job_1'' = Some j' \<and>
     wj_state j' = CANCELLED"
proof -
  let ?q = "queue_exec (QCancel ''job_1'' 5) (queue_exec (QEnqueue sample_job) empty_queue)"
  have 1: "reaches queue_exec queue_admissible empty_queue [QEnqueue sample_job, QCancel ''job_1'' 5] ?q"
    by (simp add: sample_job_fresh)
  have 2: "reaches queue_exec queue_admissible ?q [QRecover 99 (\<lambda>_. 0)] (queue_exec (QRecover 99 (\<lambda>_. 0)) ?q)"
    by (simp add: sample_draws)
  obtain j where j: "map_of (q_jobs ?q) ''job_1'' = Some j" "wj_state j = CANCELLED"
    by (simp add: queue_eval)
  then have "wj_state j \<in> terminal_job_states" by (simp add: terminal_job_states_def)
  with queue_terminal_final [OF 1 2 j(1)] j(2) show ?thesis by (metis job_lease_simps(1))
qed

text \<open>
  The attempt budget: whatever happens after a job is enqueued, its whole later history is
  a run of the lease protocol in which it is started at most \<open>max_attempts\<close> times, and its
  attempt counter counts exactly those starts.
\<close>

theorem queue_attempt_budget:
  assumes "reaches queue_exec queue_admissible empty_queue cs q"
    and "map_of (q_jobs q) i = None" and "fresh_job j" and "wj_job_id j = i"
    and "q_enqueue j q = (Inr (j, True), q1)" and "reaches queue_exec queue_admissible q1 cs' q'"
  shows "\<exists>j' evs. map_of (q_jobs q') i = Some j' \<and> lease_run (job_lease j) evs (job_lease j') \<and>
    wj_attempt_count j' = int (length (filter is_start evs)) \<and>
    int (length (filter is_start evs)) \<le> rp_max_attempts (wj_retry_policy j)"
proof -
  have inv: "queue_inv q" using lq.reaches_inv [OF assms(1) queue_inv_empty] .
  have inv1: "queue_inv q1" by (rule q_enqueue_ok(1) [OF inv assms(3,5)])
  have "map_of (q_jobs q1) i = Some j"
    using assms(2,4,5) by (auto simp: q_enqueue_def update_conv split: option.splits if_splits)
  then obtain evs l where l: "queue_view q' i = Some l" "lease_run (job_lease j) evs l"
    using lq.reaches_lease [OF assms(6) inv1, of i "job_lease j"] by (auto simp: queue_view_def)
  then show ?thesis
    using lease_run_start_bound [OF l(2) fresh_job_ok(3) [OF assms(3)]] lease_run_attempts [OF l(2)] assms(3)
    by (auto simp: queue_view_def fresh_job_def)
qed

theorem queue_attempt_budget_witness:
  "\<exists>j' evs. map_of (q_jobs sample_queue) ''job_1'' = Some j' \<and>
     lease_run (job_lease sample_job) evs (job_lease j') \<and> length (filter is_start evs) = 1"
proof -
  have e: "q_enqueue sample_job empty_queue = (Inr (sample_job, True), queue_exec (QEnqueue sample_job) empty_queue)"
    by (simp add: q_enqueue_def empty_queue_def)
  have r: "reaches queue_exec queue_admissible (queue_exec (QEnqueue sample_job) empty_queue)
      [QClaim ''w'' 0 300 ''claim_1'' (\<lambda>_. 0), QStart sample_claim 10 ''attempt_1''] sample_queue"
    by (simp add: sample_queue_def sample_draws)
  have "map_option wj_attempt_count (map_of (q_jobs sample_queue) ''job_1'') = Some 1"
    by (simp add: sample_queue_def queue_eval)
  then show ?thesis
    using queue_attempt_budget [of "[]" empty_queue "''job_1''" sample_job, OF _ _ sample_job_fresh _ e r]
    by (auto simp: empty_queue_def sample_job_def)
qed

text \<open>
  A worker whose token was replaced, or whose lease has run out, can do nothing: starting,
  heartbeating and finishing all raise \<open>StaleClaimError\<close> and leave the queue as it was.
\<close>

theorem queue_stale_claim:
  assumes "\<forall>j. map_of (q_jobs q) (jc_job_id c) = Some j \<longrightarrow> \<not> holds_lease (job_lease j) (jc_claim_token c) now"
    and "0 < lease" and "st \<noteq> A_RUNNING"
  shows "\<exists>m1 m2 m3. q_start c now aid q = (Inl (StaleClaimError m1), q) \<and>
    q_heartbeat c now lease q = (Inl (StaleClaimError m2), q) \<and>
    q_finish c st now retryable err ws u q = (Inl (StaleClaimError m3), q)"
proof -
  have "\<exists>m. require_claim c now ex q = Inl (StaleClaimError m)" for ex
    using assms(1) require_claim_Inr [of c now ex q] require_claim_Inl [of c now ex q]
    by (cases "require_claim c now ex q") auto
  from this [of "Some CLAIMED"] this [of None] this [of "Some RUNNING"] show ?thesis
    using assms(2,3) by (auto simp: q_start_def q_heartbeat_def q_finish_def)
qed

theorem queue_stale_claim_witness:
  "\<exists>m1 m2 m3. q_start sample_claim 300 ''a'' sample_queue = (Inl (StaleClaimError m1), sample_queue) \<and>
    q_heartbeat sample_claim 300 60 sample_queue = (Inl (StaleClaimError m2), sample_queue) \<and>
    q_finish sample_claim A_SUCCEEDED 300 False None [] 0 sample_queue =
      (Inl (StaleClaimError m3), sample_queue)"
proof (rule queue_stale_claim)
  have "map_option wj_lease_expires_at (map_of (q_jobs sample_queue) ''job_1'') = Some (Some 300)"
    by (simp add: sample_queue_def queue_eval)
  then show "\<forall>j. map_of (q_jobs sample_queue) (jc_job_id sample_claim) = Some j \<longrightarrow>
      \<not> holds_lease (job_lease j) (jc_claim_token sample_claim) 300"
    by (auto simp: sample_claim_def holds_lease_def)
qed simp_all

text \<open>
  A claim takes the due job that is first by priority, then availability, then schedule,
  then identifier, after expired leases have been recovered; it is empty-handed only when
  nothing is due, and it touches no other job.
\<close>

theorem queue_claim_first:
  assumes "queue_inv q" and "draws_ok u" and "w \<noteq> []" and "0 < lease"
    and "recover_expired_locked now u q = (Inr js, q1)"
  shows "if due_jobs now q1 = [] then q_claim w now lease t u q = (Inr None, q1)
    else \<exists>j j' q'. j \<in> set (due_jobs now q1) \<and>
      (\<forall>x \<in> set (due_jobs now q1). claim_order j \<le> claim_order x) \<and>
      q_claim w now lease t u q = (Inr (Some \<lparr>jc_job_id = wj_job_id j, jc_claim_token = t,
        jc_lease_expires_at = now + lease\<rparr>), q') \<and>
      map_of (q_jobs q') = (map_of (q_jobs q1))(wj_job_id j \<mapsto> j') \<and>
      wj_state j' = CLAIMED \<and> wj_claim_token j' = Some t \<and> wj_lease_expires_at j' = Some (now + lease)"
proof (cases "due_jobs now q1 = []")
  case True
  then show ?thesis using assms by (simp add: q_claim_def)
next
  case False
  then obtain j where j: "min_by claim_order (due_jobs now q1) = Some j"
    using min_by_None_iff by (metis not_None_eq)
  note q1 = recover_follows [OF assms(1,2,5)]
  note due = min_by_Some [OF j]
  note s = due_jobsD [OF q1(1) due [THEN conjunct1]]
  have "stored_job_ok j" by (rule entryD [OF q1(1) s(1)])
  then have "stored_job_ok (j\<lparr>wj_state := CLAIMED, wj_claim_token := Some t, wj_claimed_by := Some w,
      wj_claimed_at := Some now, wj_lease_expires_at := Some (now + lease), wj_heartbeat_at := Some now\<rparr>)"
    (is "stored_job_ok ?j") using s(2) assms(3) by (auto simp: job_check_defs)
  then have "mk_job ?j = Inr ?j" by (simp add: stored_job_ok_def mk_job_Inr)
  then have "q_claim w now lease t u q = (Inr (Some \<lparr>jc_job_id = wj_job_id j, jc_claim_token = t,
      jc_lease_expires_at = now + lease\<rparr>), put_job ?j q1)"
    using assms(3-5) j by (simp add: q_claim_def)
  moreover have "map_of (q_jobs (put_job ?j q1)) = (map_of (q_jobs q1))(wj_job_id j \<mapsto> ?j)"
    by (auto simp: fun_eq_iff)
  ultimately show ?thesis using False due by (simp add: exI [of _ ?j] exI [of _ j])
qed

theorem queue_claim_first_witness:
  "\<exists>j' q'. q_claim ''w'' 0 300 ''claim_1'' (\<lambda>_. 0) (queue_exec (QEnqueue sample_job) empty_queue) =
     (Inr (Some sample_claim), q') \<and> map_of (q_jobs q') ''job_1'' = Some j' \<and> wj_state j' = CLAIMED"
proof -
  let ?q = "queue_exec (QEnqueue sample_job) empty_queue"
  have inv: "queue_inv ?q"
    using q_enqueue_ok(1) [OF queue_inv_empty sample_job_fresh, of "fst (q_enqueue sample_job empty_queue)"]
    by simp
  have rec: "recover_expired_locked 0 (\<lambda>_. 0) ?q = (Inr [], ?q)" and due: "due_jobs 0 ?q = [sample_job]"
    by (simp_all add: recover_expired_locked_def recover_job_def due_jobs_def q_enqueue_def
        empty_queue_def sample_job_def)
  show ?thesis
    using queue_claim_first [OF inv sample_draws _ _ rec, of "''w''" 300 "''claim_1''"]
    unfolding due by (auto simp: sample_claim_def sample_job_def)
qed

text \<open>
  Finishing the attempt of the lease holder closes it and moves the job as the retry
  policy says: success, empty and cancelled are final; any other outcome waits for a retry
  (no earlier than now, no later than twice the maximal delay) while attempts are left and the
  failure is retryable, is dead-lettered when they are used up, and fails otherwise.
\<close>

theorem queue_finish_outcome:
  assumes "queue_inv q" and "map_of (q_jobs q) (jc_job_id c) = Some j" and "wj_state j = RUNNING"
    and "holds_lease (job_lease j) (jc_claim_token c) now" and "st \<noteq> A_RUNNING" and "0 \<le> u" and "u \<le> 1"
  shows "\<exists>j' q'. q_finish c st now retryable err ws u q = (Inr j', q') \<and>
    map_of (q_jobs q') (jc_job_id c) = Some j' \<and> wj_claim_token j' = None \<and>
    (if st = A_SUCCEEDED then wj_state j' = SUCCEEDED
     else if st = A_EMPTY then wj_state j' = EMPTY
     else if st = A_CANCELLED then wj_state j' = CANCELLED
     else if \<not> retryable then wj_state j' = FAILED
     else if wj_attempt_count j < rp_max_attempts (wj_retry_policy j)
     then wj_state j' = RETRY_WAIT \<and> now \<le> wj_available_at j' \<and>
       wj_available_at j' \<le> now + 2 * seconds (rp_max_delay_seconds (wj_retry_policy j))
     else wj_state j' = DEAD_LETTER)"
proof -
  obtain as where ent: "wj_job_id j = jc_job_id c" "stored_job_ok j"
    "map_of (q_attempts q) (jc_job_id c) = Some as" "attempts_ok j as"
    by (rule entryD [OF assms(1,2)])
  note run = attempts_running [OF ent(4) assms(3)]
  have pol: "retry_policy_post_init (wj_retry_policy j) = None" using ent(2) by (simp add: stored_job_ok_def)
  obtain d where d: "delay_for (wj_retry_policy j) (wj_attempt_count j) u = Inr d"
    using delay_for_Inr [OF run(3)] by blast
  note db = delay_for_nonneg [OF pol assms(6,7) d] delay_for_le [OF pol assms(6,7) d]
  obtain r q' where f: "q_finish c st now retryable err ws u q = (r, q')"
    by (cases "q_finish c st now retryable err ws u q")
  have req: "require_claim c now (Some RUNNING) q = Inr j"
    using assms(2-4) by (simp add: require_claim_Inr)
  obtain j' where j': "complete_job j st now retryable err u = Inr j'" "same_job j j'"
    "wj_claim_token j' = None"
    by (rule complete_job_ok [OF ent(2) assms(3) run(3) assms(6,7,5), of now retryable err])
  have "attempt_post_init (last as) = None" using ent(4) run(1) by (auto simp: attempts_ok_def)
  then have "attempt_post_init ((last as)\<lparr>wa_status := st, wa_completed_at := Some now,
      wa_heartbeat_at := now, wa_error := err, wa_warnings := ws\<rparr>) = None"
    using assms(5) by (auto simp: attempt_post_init_def split: if_splits)
  then have "r = Inr j'" and "map_of (q_jobs q') (jc_job_id c) = Some j'"
    using f assms(5) req run j'(1,2) ent(1,3)
    by (auto simp: q_finish_def mk_attempt_def same_job_def)
  moreover have "if st = A_SUCCEEDED then wj_state j' = SUCCEEDED
     else if st = A_EMPTY then wj_state j' = EMPTY
     else if st = A_CANCELLED then wj_state j' = CANCELLED
     else if \<not> retryable then wj_state j' = FAILED
     else if wj_attempt_count j < rp_max_attempts (wj_retry_policy j)
     then wj_state j' = RETRY_WAIT \<and> now \<le> wj_available_at j' \<and>
       wj_available_at j' \<le> now + 2 * seconds (rp_max_delay_seconds (wj_retry_policy j))
     else wj_state j' = DEAD_LETTER"
    using j'(1) d db by (auto simp: complete_job_def mk_job_Inr Let_def)
  ultimately show ?thesis using f j'(3) by blast
qed

theorem queue_finish_outcome_witness:
  "\<exists>j' q'. q_finish sample_claim A_FAILED 20 True None [] 0 sample_queue = (Inr j', q') \<and>
     wj_state j' = RETRY_WAIT \<and> 20 \<le> wj_available_at j'"
proof -
  obtain j where j: "map_of (q_jobs sample_queue) ''job_1'' = Some j" "wj_state j = RUNNING"
    "wj_lease_expires_at j = Some 300" "wj_claim_token j = Some ''claim_1''" "wj_attempt_count j = 1"
    "rp_max_attempts (wj_retry_policy j) = 3"
    by (simp add: sample_queue_def queue_eval)
  show ?thesis
    using queue_finish_outcome [of sample_queue sample_claim j 20 A_FAILED 0 True None "[]"]
      lq.reaches_inv [OF sample_reaches queue_inv_empty] j
    by (auto simp: sample_claim_def holds_lease_def)
qed

text \<open>
  Deduplication is permanent: once a job is accepted, enqueuing any job with the same
  dedupe key, after any further calls and even after the first job is terminal, returns the
  first job and creates nothing.
\<close>

theorem queue_dedupe_permanent:
  assumes "reaches queue_exec queue_admissible empty_queue cs q" and "fresh_job j"
    and "q_enqueue j q = (Inr (j, True), q1)" and "reaches queue_exec queue_admissible q1 cs' q2"
    and "wj_dedupe_key j2 = wj_dedupe_key j"
  shows "\<exists>x. q_enqueue j2 q2 = (Inr (x, False), q2) \<and> wj_job_id x = wj_job_id j"
proof -
  have inv: "queue_inv q" using lq.reaches_inv [OF assms(1) queue_inv_empty] .
  have inv1: "queue_inv q1" by (rule q_enqueue_ok(1) [OF inv assms(2,3)])
  have "map_of (q_jobs q1) (wj_job_id j) = Some j"
  proof (cases "map_of (q_dedupe q) (wj_dedupe_key j)")
    case None
    then show ?thesis using assms(3) by (auto simp: q_enqueue_def update_conv split: if_splits)
  next
    case (Some i)
    then show ?thesis using assms(3) by (auto simp: q_enqueue_def split: option.splits)
  qed
  then obtain x where x: "map_of (q_jobs q2) (wj_job_id j) = Some x" "same_job j x"
    using reaches_same [OF assms(4) inv1] by blast
  have "entry_ok q2 (wj_job_id j) x"
    using lq.reaches_inv [OF assms(4) inv1] x(1) unfolding queue_inv_def by blast
  then have "map_of (q_dedupe q2) (wj_dedupe_key j) = Some (wj_job_id j)"
    using x(2) by (simp add: entry_ok_def same_job_def)
  then show ?thesis using x assms(5) by (simp add: q_enqueue_def same_job_def)
qed

theorem queue_dedupe_permanent_witness:
  "\<exists>x. q_enqueue (sample_job\<lparr>wj_job_id := ''job_2''\<rparr>) sample_queue = (Inr (x, False), sample_queue) \<and>
     wj_job_id x = ''job_1''"
proof -
  have e: "q_enqueue sample_job empty_queue = (Inr (sample_job, True), queue_exec (QEnqueue sample_job) empty_queue)"
    by (simp add: q_enqueue_def empty_queue_def)
  have r: "reaches queue_exec queue_admissible (queue_exec (QEnqueue sample_job) empty_queue)
      [QClaim ''w'' 0 300 ''claim_1'' (\<lambda>_. 0), QStart sample_claim 10 ''attempt_1''] sample_queue"
    by (simp add: sample_queue_def sample_draws)
  show ?thesis
    using queue_dedupe_permanent [of "[]" empty_queue sample_job, OF _ sample_job_fresh e r,
        of "sample_job\<lparr>wj_job_id := ''job_2''\<rparr>"]
    by (simp add: sample_job_def)
qed

end
