(* ===== verification/Registry.thy ===== *)
theory Registry
  imports JobModel
begin

text \<open>
  The datasource registry (\<open>ingestion/registry.py\<close>): the frozen descriptors with the checks of
  their constructors and their JSON documents, whose hash is their identity; the registry with its
  two sorted listings and its lookups; and the runtime bindings.

  A mapping field of a descriptor is a JSON value: \<open>freeze_json\<close> then \<open>thaw_json\<close> give back a
  JSON value whose keys are distinct (\<open>Json.normalize_of_json\<close>).
\<close>

datatype store_error =
    OperationalError string
  | RegistryError string
  | MissingRuntimeBindingError string
  | IntegrityError string
  | StoreValueError string
  | StoreJobError job_error

section \<open>Timestamps given as text\<close>

text \<open>
  \<open>normalize_timestamp\<close> on a string. \<open>fromiso\<close> is \<open>datetime.fromisoformat\<close>: \<open>None\<close> when it raises,
  \<open>Some None\<close> when the result is naive, and otherwise the datetime converted to UTC.
\<close>

definition normalize_timestamp ::
  "(string \<Rightarrow> datetime option option) \<Rightarrow> string \<Rightarrow> canonicalization_error + string" where
  "normalize_timestamp fromiso v =
     (let candidate = (if v \<noteq> [] \<and> last v = CHR ''Z'' then butlast v @ ''+00:00'' else v)
      in case fromiso candidate of
           None \<Rightarrow> Inl (CanonicalizationError (''invalid timestamp: '' @ repr_string v))
         | Some None \<Rightarrow> Inl (CanonicalizationError ''timestamp must include a timezone'')
         | Some (Some t) \<Rightarrow> format_timestamp (Some t))"

definition normalize_approval ::
  "(string \<Rightarrow> datetime option option) \<Rightarrow> string option \<Rightarrow> store_error + string option" where
  "normalize_approval fromiso v =
     (case v of
        None \<Rightarrow> Inr None
      | Some t \<Rightarrow> (case normalize_timestamp fromiso t of
          Inl (CanonicalizationError m) \<Rightarrow> Inl (StoreValueError m) | Inr u \<Rightarrow> Inr (Some u)))"

section \<open>Descriptors\<close>

definition statuses :: "string set" where
  "statuses = {''draft'', ''discovery'', ''production'', ''retired''}"

definition ingestion_lanes :: "string set" where
  "ingestion_lanes = {''production_ingestion'', ''source_discovery'', ''ad_hoc_research''}"

definition source_kinds :: "string set" where
  "source_kinds = {''structured_api'', ''feed'', ''file_release'', ''report'', ''manual_web'', ''reference''}"

definition automation_modes :: "string set" where
  "automation_modes = {''automatic'', ''assisted'', ''manual'', ''on_demand'', ''fanout''}"

definition snapshot_modes :: "string set" where
  "snapshot_modes = {''append_only'', ''incremental'', ''full_snapshot'', ''point_lookup''}"

definition promotion_policies :: "string set" where
  "promotion_policies = {''automatic'', ''manual_review'', ''never_canonical''}"

definition data_kinds :: "string set" where
  "data_kinds = {''direct'', ''proxy'', ''report-derived''}"

definition confidences :: "string set" where
  "confidences = {''high'', ''medium'', ''low''}"

definition access_classes :: "string set" where
  "access_classes = {''open'', ''internal'', ''restricted'', ''reference_only''}"

definition surface_kinds :: "string set" where
  "surface_kinds = {''api'', ''feed'', ''landing_page'', ''attachment'', ''dataset'', ''manual_submission''}"

definition binding_kinds :: "string set" where
  "binding_kinds = {''collector'', ''parser'', ''record_key'', ''validator''}"

definition catchup_names :: "string set" where
  "catchup_names = {''latest_only'', ''windowed'', ''all_slots'', ''manual''}"

text \<open>The guard chains of the \<open>__post_init__\<close> methods: the first condition that holds raises.\<close>

fun first_error :: "(bool \<times> string) list \<Rightarrow> store_error option" where
  "first_error [] = None"
| "first_error ((b, m) # rest) = (if b then Some (RegistryError m) else first_error rest)"

definition validate_status :: "string \<Rightarrow> string option \<Rightarrow> string option \<Rightarrow> (bool \<times> string) list" where
  "validate_status status approved_by approved_at =
     [(status \<notin> statuses, ''unsupported descriptor status: '' @ repr_string status),
      (status = ''production'' \<and> (\<not> truthy approved_by \<or> \<not> truthy approved_at),
       ''production definition requires approval identity and timestamp'')]"

record binding_descriptor =
  bd_kind :: string
  bd_name :: string
  bd_version :: string

definition binding_post_init :: "binding_descriptor \<Rightarrow> store_error option" where
  "binding_post_init b = first_error
     [(bd_kind b \<notin> binding_kinds, ''unsupported binding kind: '' @ repr_string (bd_kind b)),
      (bd_name b = [] \<or> bd_version b = [], ''binding name and version are required'')]"

definition binding_as_json :: "binding_descriptor \<Rightarrow> json" where
  "binding_as_json b = JObj [(''kind'', JStr (bd_kind b)), (''name'', JStr (bd_name b)),
     (''version'', JStr (bd_version b))]"

record source_binding =
  sb_source_id :: string
  sb_source_version :: int
  sb_role :: string
  sb_required :: bool

definition source_binding_post_init :: "source_binding \<Rightarrow> store_error option" where
  "source_binding_post_init b = first_error
     [(sb_source_id b = [] \<or> sb_source_version b < 1, ''source binding requires id and positive version''),
      (sb_role b \<notin> {''primary'', ''discovery'', ''attachment'', ''supporting'', ''manual_submission''},
       ''unsupported source binding role: '' @ repr_string (sb_role b))]"

definition source_binding_as_json :: "source_binding \<Rightarrow> json" where
  "source_binding_as_json b = JObj [(''source_id'', JStr (sb_source_id b)),
     (''source_version'', JInt (sb_source_version b)), (''role'', JStr (sb_role b)),
     (''required'', JBool (sb_required b))]"

record schedule_descriptor =
  sd_name :: string
  sd_rule :: "(string \<times> json) list"
  sd_timezone :: string
  sd_catchup_policy :: string
  sd_max_catchup_jobs :: int
  sd_max_catchup_horizon_seconds :: int
  sd_enabled :: bool

definition schedule_descriptor_post_init :: "schedule_descriptor \<Rightarrow> store_error option" where
  "schedule_descriptor_post_init s = first_error
     [(sd_name s = [], ''schedule name is required''),
      (sd_catchup_policy s \<notin> catchup_names,
       ''unsupported catch-up policy: '' @ repr_string (sd_catchup_policy s)),
      (\<not> (1 \<le> sd_max_catchup_jobs s \<and> sd_max_catchup_jobs s \<le> 1000),
       ''max_catchup_jobs must be in [1, 1000]''),
      (sd_max_catchup_horizon_seconds s < 0, ''max_catchup_horizon_seconds cannot be negative'')]"

definition schedule_as_json :: "schedule_descriptor \<Rightarrow> json" where
  "schedule_as_json s = JObj [(''name'', JStr (sd_name s)), (''rule'', JObj (sd_rule s)),
     (''timezone'', JStr (sd_timezone s)), (''catchup_policy'', JStr (sd_catchup_policy s)),
     (''max_catchup_jobs'', JInt (sd_max_catchup_jobs s)),
     (''max_catchup_horizon_seconds'', JInt (sd_max_catchup_horizon_seconds s)),
     (''enabled'', JBool (sd_enabled s))]"

record source_descriptor =
  sr_source_id :: string
  sr_source_version :: int
  sr_display_name :: string
  sr_publisher :: string
  sr_surface_kind :: string
  sr_allowed_hosts :: "string list"
  sr_retention_profile :: string
  sr_access_class :: string
  sr_licence :: "string option"
  sr_base_origin_redacted :: "string option"
  sr_status :: string
  sr_approved_by :: "string option"
  sr_approved_at :: "string option"
  sr_details :: json

definition source_guards :: "source_descriptor \<Rightarrow> (bool \<times> string) list" where
  "source_guards s = validate_status (sr_status s) (sr_approved_by s) (sr_approved_at s) @
     [(sr_source_id s = [] \<or> sr_source_version s < 1, ''source definition requires id and positive version''),
      (sr_display_name s = [] \<or> sr_publisher s = [], ''source display_name and publisher are required''),
      (sr_surface_kind s \<notin> surface_kinds, ''unsupported source surface: '' @ repr_string (sr_surface_kind s)),
      (sr_access_class s \<notin> access_classes, ''unsupported access class: '' @ repr_string (sr_access_class s)),
      (sr_retention_profile s = [], ''source retention profile is required''),
      (sr_allowed_hosts s = [] \<and> sr_surface_kind s \<noteq> ''manual_submission'',
       ''network source must declare allowed hosts'')]"

text \<open>The constructor: the descriptor it builds, with the hosts lowered and the approval time normalised.\<close>

definition source_post_init ::
  "(string \<Rightarrow> datetime option option) \<Rightarrow> source_descriptor \<Rightarrow> store_error + source_descriptor" where
  "source_post_init fromiso s =
     (case first_error (source_guards s) of
        Some e \<Rightarrow> Inl e
      | None \<Rightarrow> (case normalize_approval fromiso (sr_approved_at s) of
          Inl e \<Rightarrow> Inl e
        | Inr t \<Rightarrow> Inr (s\<lparr>sr_approved_at := t, sr_allowed_hosts := map lower (sr_allowed_hosts s)\<rparr>)))"

definition source_as_json :: "source_descriptor \<Rightarrow> json" where
  "source_as_json s = JObj [
     (''source_id'', JStr (sr_source_id s)), (''source_version'', JInt (sr_source_version s)),
     (''display_name'', JStr (sr_display_name s)), (''publisher'', JStr (sr_publisher s)),
     (''surface_kind'', JStr (sr_surface_kind s)),
     (''base_origin_redacted'', opt_json JStr (sr_base_origin_redacted s)),
     (''allowed_hosts'', JList (map JStr (sr_allowed_hosts s))),
     (''licence'', opt_json JStr (sr_licence s)), (''access_class'', JStr (sr_access_class s)),
     (''retention_profile'', JStr (sr_retention_profile s)), (''details'', sr_details s),
     (''status'', JStr (sr_status s)), (''approved_by'', opt_json JStr (sr_approved_by s)),
     (''approved_at'', opt_json JStr (sr_approved_at s))]"

definition source_hash :: "(string \<Rightarrow> string) \<Rightarrow> source_descriptor \<Rightarrow> string" where
  "source_hash sha s = sha (hash_input ''source'' (source_as_json s))"

record definition_descriptor =
  dd_datasource_id :: string
  dd_definition_version :: int
  dd_display_name :: string
  dd_publisher :: string
  dd_category :: string
  dd_source_kind :: string
  dd_automation_mode :: string
  dd_collector_name :: string
  dd_collector_version :: string
  dd_parser_name :: string
  dd_parser_version :: string
  dd_schema_version :: string
  dd_locator_version :: string
  dd_record_key_builder_name :: string
  dd_record_key_version :: string
  dd_source_bindings :: "source_binding list"
  dd_allowed_hosts :: "string list"
  dd_retention_policy :: string
  dd_validator_bindings :: "binding_descriptor list"
  dd_default_request :: "(string \<times> json) list"
  dd_schedules :: "schedule_descriptor list"
  dd_catchup_policy :: string
  dd_snapshot_mode :: string
  dd_default_lane :: string
  dd_validation_policy :: json
  dd_retry_policy :: json
  dd_timeout_policy :: json
  dd_artifact_policy :: json
  dd_review_policy :: json
  dd_freshness_policy :: json
  dd_promotion_policy :: string
  dd_data_kind :: string
  dd_default_confidence :: string
  dd_licence :: "string option"
  dd_access_class :: string
  dd_capabilities :: json
  dd_status :: string
  dd_approved_by :: "string option"
  dd_approved_at :: "string option"

definition definition_guards :: "definition_descriptor \<Rightarrow> (bool \<times> string) list" where
  "definition_guards d = validate_status (dd_status d) (dd_approved_by d) (dd_approved_at d) @
     [(dd_datasource_id d = [] \<or> dd_definition_version d < 1,
       ''datasource definition requires id and positive version'')] @
     map (\<lambda>(name, v). (v = [], name @ '' is required''))
       [(''display_name'', dd_display_name d), (''publisher'', dd_publisher d),
        (''category'', dd_category d), (''collector_name'', dd_collector_name d),
        (''collector_version'', dd_collector_version d), (''parser_name'', dd_parser_name d),
        (''parser_version'', dd_parser_version d), (''schema_version'', dd_schema_version d),
        (''locator_version'', dd_locator_version d),
        (''record_key_builder_name'', dd_record_key_builder_name d),
        (''record_key_version'', dd_record_key_version d),
        (''retention_policy'', dd_retention_policy d)] @
     [(dd_source_bindings d = [], ''datasource definition requires at least one source binding''),
      (dd_source_kind d \<notin> source_kinds, ''unsupported source kind: '' @ repr_string (dd_source_kind d)),
      (dd_automation_mode d \<notin> automation_modes,
       ''unsupported automation mode: '' @ repr_string (dd_automation_mode d)),
      (dd_catchup_policy d \<notin> catchup_names,
       ''unsupported catch-up policy: '' @ repr_string (dd_catchup_policy d)),
      (dd_snapshot_mode d \<notin> snapshot_modes,
       ''unsupported snapshot mode: '' @ repr_string (dd_snapshot_mode d)),
      (dd_default_lane d \<notin> ingestion_lanes, ''unsupported lane: '' @ repr_string (dd_default_lane d)),
      (dd_promotion_policy d \<notin> promotion_policies,
       ''unsupported promotion policy: '' @ repr_string (dd_promotion_policy d)),
      (dd_data_kind d \<notin> data_kinds, ''unsupported data kind: '' @ repr_string (dd_data_kind d)),
      (dd_default_confidence d \<notin> confidences,
       ''unsupported confidence: '' @ repr_string (dd_default_confidence d)),
      (dd_access_class d \<notin> access_classes,
       ''unsupported access class: '' @ repr_string (dd_access_class d)),
      (dd_allowed_hosts d = [] \<and> dd_automation_mode d \<noteq> ''manual'',
       ''network datasource must declare allowed hosts''),
      (list_ex (\<lambda>b. bd_kind b \<noteq> ''validator'') (dd_validator_bindings d),
       ''validator_bindings must contain validator identities'')]"

definition definition_post_init ::
  "(string \<Rightarrow> datetime option option) \<Rightarrow> definition_descriptor \<Rightarrow> store_error + definition_descriptor" where
  "definition_post_init fromiso d =
     (case first_error (definition_guards d) of
        Some e \<Rightarrow> Inl e
      | None \<Rightarrow> (case normalize_approval fromiso (dd_approved_at d) of
          Inl e \<Rightarrow> Inl e
        | Inr t \<Rightarrow> Inr (d\<lparr>dd_approved_at := t, dd_allowed_hosts := map lower (dd_allowed_hosts d)\<rparr>)))"

definition executable_bindings :: "definition_descriptor \<Rightarrow> binding_descriptor list" where
  "executable_bindings d =
     \<lparr>bd_kind = ''collector'', bd_name = dd_collector_name d, bd_version = dd_collector_version d\<rparr> #
     \<lparr>bd_kind = ''parser'', bd_name = dd_parser_name d, bd_version = dd_parser_version d\<rparr> #
     \<lparr>bd_kind = ''record_key'', bd_name = dd_record_key_builder_name d, bd_version = dd_record_key_version d\<rparr> #
     dd_validator_bindings d"

definition definition_as_json :: "definition_descriptor \<Rightarrow> json" where
  "definition_as_json d = JObj [
     (''datasource_id'', JStr (dd_datasource_id d)),
     (''definition_version'', JInt (dd_definition_version d)),
     (''display_name'', JStr (dd_display_name d)), (''publisher'', JStr (dd_publisher d)),
     (''category'', JStr (dd_category d)), (''source_kind'', JStr (dd_source_kind d)),
     (''automation_mode'', JStr (dd_automation_mode d)),
     (''collector_name'', JStr (dd_collector_name d)),
     (''collector_version'', JStr (dd_collector_version d)),
     (''source_bindings'', JList (map source_binding_as_json (dd_source_bindings d))),
     (''parser_name'', JStr (dd_parser_name d)), (''parser_version'', JStr (dd_parser_version d)),
     (''schema_version'', JStr (dd_schema_version d)),
     (''locator_version'', JStr (dd_locator_version d)),
     (''record_key_builder_name'', JStr (dd_record_key_builder_name d)),
     (''record_key_version'', JStr (dd_record_key_version d)),
     (''validator_bindings'', JList (map binding_as_json (dd_validator_bindings d))),
     (''default_request'', JObj (dd_default_request d)),
     (''schedules'', JList (map schedule_as_json (dd_schedules d))),
     (''catchup_policy'', JStr (dd_catchup_policy d)), (''snapshot_mode'', JStr (dd_snapshot_mode d)),
     (''default_lane'', JStr (dd_default_lane d)),
     (''allowed_hosts'', JList (map JStr (dd_allowed_hosts d))),
     (''validation_policy'', dd_validation_policy d), (''retry_policy'', dd_retry_policy d),
     (''timeout_policy'', dd_timeout_policy d), (''artifact_policy'', dd_artifact_policy d),
     (''review_policy'', dd_review_policy d), (''freshness_policy'', dd_freshness_policy d),
     (''promotion_policy'', JStr (dd_promotion_policy d)), (''data_kind'', JStr (dd_data_kind d)),
     (''default_confidence'', JStr (dd_default_confidence d)),
     (''licence'', opt_json JStr (dd_licence d)), (''access_class'', JStr (dd_access_class d)),
     (''retention_policy'', JStr (dd_retention_policy d)), (''capabilities'', dd_capabilities d),
     (''status'', JStr (dd_status d)), (''approved_by'', opt_json JStr (dd_approved_by d)),
     (''approved_at'', opt_json JStr (dd_approved_at d))]"

definition definition_hash :: "(string \<Rightarrow> string) \<Rightarrow> definition_descriptor \<Rightarrow> string" where
  "definition_hash sha d = sha (hash_input ''definition'' (definition_as_json d))"

section \<open>The registry\<close>

text \<open>
  The two dictionaries of \<open>DatasourceRegistry\<close>, as its properties \<open>sources\<close> and \<open>definitions\<close>
  list them: in the order of their keys.
\<close>

record registry =
  rg_sources :: "source_descriptor list"
  rg_definitions :: "definition_descriptor list"

definition dd_key :: "definition_descriptor \<Rightarrow> string \<times> int" where
  "dd_key d = (dd_datasource_id d, dd_definition_version d)"

definition sr_key :: "source_descriptor \<Rightarrow> string \<times> int" where
  "sr_key s = (sr_source_id s, sr_source_version s)"

definition key_text :: "string \<times> int \<Rightarrow> string" where
  "key_text k = ''('' @ repr_string (fst k) @ '', '' @ int_text (snd k) @ '')''"

fun add_sources ::
  "source_descriptor list \<Rightarrow> source_descriptor list \<Rightarrow> store_error + source_descriptor list" where
  "add_sources acc [] = Inr acc"
| "add_sources acc (s # rest) =
     (if lookup_by sr_key (sr_key s) acc \<noteq> None
      then Inl (RegistryError (''duplicate source definition: '' @ key_text (sr_key s)))
      else add_sources (acc @ [s]) rest)"

fun unknown_binding ::
  "source_descriptor list \<Rightarrow> definition_descriptor \<Rightarrow> source_binding list \<Rightarrow> store_error option" where
  "unknown_binding srcs d [] = None"
| "unknown_binding srcs d (b # rest) =
     (if lookup_by sr_key (sb_source_id b, sb_source_version b) srcs = None
      then Some (RegistryError (''unknown source binding for '' @ dd_datasource_id d @ '': '' @
        sb_source_id b @ ''@'' @ int_text (sb_source_version b)))
      else unknown_binding srcs d rest)"

fun add_definitions ::
  "(string \<Rightarrow> string) \<Rightarrow> source_descriptor list \<Rightarrow> definition_descriptor list \<Rightarrow> definition_descriptor list \<Rightarrow>
   store_error + definition_descriptor list" where
  "add_definitions sha srcs acc [] = Inr acc"
| "add_definitions sha srcs acc (d # rest) =
     (if lookup_by dd_key (dd_key d) acc \<noteq> None
      then Inl (RegistryError (''duplicate datasource definition: '' @ key_text (dd_key d)))
      else case unknown_binding srcs d (dd_source_bindings d) of
        Some e \<Rightarrow> Inl e
      | None \<Rightarrow>
          if lookup_by (definition_hash sha) (definition_hash sha d) acc \<noteq> None
          then Inl (RegistryError (''duplicate datasource semantic definition hash for '' @
            dd_datasource_id d @ ''@'' @ int_text (dd_definition_version d)))
          else add_definitions sha srcs (acc @ [d]) rest)"

definition registry_init ::
  "(string \<Rightarrow> string) \<Rightarrow> definition_descriptor list \<Rightarrow> source_descriptor list \<Rightarrow> store_error + registry" where
  "registry_init sha defs srcs =
     (case add_sources [] srcs of
        Inl e \<Rightarrow> Inl e
      | Inr ss \<Rightarrow> (case add_definitions sha ss [] defs of
          Inl e \<Rightarrow> Inl e
        | Inr ds \<Rightarrow> Inr \<lparr>rg_sources = sort_key sr_key ss, rg_definitions = sort_key dd_key ds\<rparr>))"

definition registry_lookup ::
  "registry \<Rightarrow> string \<Rightarrow> int option \<Rightarrow> store_error + definition_descriptor" where
  "registry_lookup reg datasource_id version =
     (let versions = map dd_definition_version
            (filter (\<lambda>d. dd_datasource_id d = datasource_id) (rg_definitions reg))
      in if version = None \<and> versions = []
         then Inl (RegistryError (''unknown datasource: '' @ repr_string datasource_id))
         else let v = (case version of Some v \<Rightarrow> v | None \<Rightarrow> Max (set versions))
              in case lookup_by dd_key (datasource_id, v) (rg_definitions reg) of
                   Some d \<Rightarrow> Inr d
                 | None \<Rightarrow> Inl (RegistryError (''unknown datasource version: '' @
                     repr_string datasource_id @ ''@'' @ int_text v)))"

lemma registry_lookup_Inr:
  "registry_lookup reg i v = Inr d \<Longrightarrow>
     d \<in> set (rg_definitions reg) \<and> dd_datasource_id d = i \<and> (\<forall>n. v = Some n \<longrightarrow> dd_definition_version d = n)"
  by (auto simp: registry_lookup_def Let_def dd_key_def split: if_splits option.splits dest!: lookup_by_Some)

definition lookup_source ::
  "registry \<Rightarrow> string \<Rightarrow> int option \<Rightarrow> store_error + source_descriptor" where
  "lookup_source reg source_id version =
     (let versions = map sr_source_version (filter (\<lambda>s. sr_source_id s = source_id) (rg_sources reg))
      in if version = None \<and> versions = []
         then Inl (RegistryError (''unknown source: '' @ repr_string source_id))
         else let v = (case version of Some v \<Rightarrow> v | None \<Rightarrow> Max (set versions))
              in case lookup_by sr_key (source_id, v) (rg_sources reg) of
                   Some s \<Rightarrow> Inr s
                 | None \<Rightarrow> Inl (RegistryError (''unknown source version: '' @
                     repr_string source_id @ ''@'' @ int_text v)))"

definition lookup_hash ::
  "(string \<Rightarrow> string) \<Rightarrow> registry \<Rightarrow> string \<Rightarrow> store_error + definition_descriptor" where
  "lookup_hash sha reg h =
     (case lookup_by (definition_hash sha) h (rg_definitions reg) of
        Some d \<Rightarrow> Inr d
      | None \<Rightarrow> Inl (RegistryError ''unknown datasource definition hash''))"

section \<open>Runtime bindings\<close>

text \<open>
  \<open>RuntimeBindings\<close>: the deployment's map from binding identities to callables. A callable is
  known by its name here; only whether one is registered matters.
\<close>

type_synonym runtime_bindings = "(binding_descriptor \<times> string) list"

definition binding_label :: "binding_descriptor \<Rightarrow> string" where
  "binding_label b = bd_kind b @ '':'' @ bd_name b @ ''@'' @ bd_version b"

definition bindings_register ::
  "binding_descriptor \<Rightarrow> string \<Rightarrow> runtime_bindings \<Rightarrow> (store_error + binding_descriptor) \<times> runtime_bindings" where
  "bindings_register b callable bs =
     (case binding_post_init b of
        Some e \<Rightarrow> (Inl e, bs)
      | None \<Rightarrow>
          if map_of bs b \<noteq> None
          then (Inl (RegistryError (''duplicate runtime binding: '' @ binding_label b)), bs)
          else (Inr b, bs @ [(b, callable)]))"

definition bindings_resolve :: "runtime_bindings \<Rightarrow> binding_descriptor \<Rightarrow> store_error + string" where
  "bindings_resolve bs b =
     (case map_of bs b of
        Some c \<Rightarrow> Inr c
      | None \<Rightarrow> Inl (MissingRuntimeBindingError (''missing runtime binding: '' @ binding_label b)))"

definition bindings_contains :: "runtime_bindings \<Rightarrow> binding_descriptor \<Rightarrow> bool" where
  "bindings_contains bs b = (map_of bs b \<noteq> None)"

record runtime_validation =
  rv_descriptor :: definition_descriptor
  rv_operation :: string
  rv_missing :: "binding_descriptor list"

definition rv_ready :: "runtime_validation \<Rightarrow> bool" where
  "rv_ready v = (rv_missing v = [])"

definition rv_require :: "runtime_validation \<Rightarrow> store_error option" where
  "rv_require v =
     (if rv_missing v = [] then None
      else Some (MissingRuntimeBindingError (dd_datasource_id (rv_descriptor v) @ ''@'' @
        int_text (dd_definition_version (rv_descriptor v)) @ '' cannot '' @ rv_operation v @
        ''; missing runtime binding(s): '' @ join '', '' (map binding_label (rv_missing v)))))"

definition bindings_validate ::
  "runtime_bindings \<Rightarrow> definition_descriptor \<Rightarrow> string \<Rightarrow> store_error + runtime_validation" where
  "bindings_validate bs d operation =
     (if operation \<notin> {''read'', ''ingest'', ''reparse''}
      then Inl (RegistryError (''unsupported runtime operation: '' @ repr_string operation))
      else if operation = ''read''
      then Inr \<lparr>rv_descriptor = d, rv_operation = operation, rv_missing = []\<rparr>
      else Inr \<lparr>rv_descriptor = d, rv_operation = operation,
        rv_missing = filter (\<lambda>b. \<not> bindings_contains bs b) (executable_bindings d)\<rparr>)"

section \<open>A sample registry\<close>

text \<open>One datasource with one source, and a digest of the right length: what the witnesses run.\<close>

definition sample_sha :: "string \<Rightarrow> string" where
  "sample_sha s = replicate 64 (CHR ''0'')"

definition sample_definition :: definition_descriptor where
  "sample_definition = \<lparr>dd_datasource_id = ''boe.rate'', dd_definition_version = 1,
     dd_display_name = ''Bank Rate'', dd_publisher = ''BoE'', dd_category = ''rates'',
     dd_source_kind = ''structured_api'', dd_automation_mode = ''automatic'',
     dd_collector_name = ''boe'', dd_collector_version = ''v1'', dd_parser_name = ''boe'',
     dd_parser_version = ''v1'', dd_schema_version = ''v1'', dd_locator_version = ''v1'',
     dd_record_key_builder_name = ''boe'', dd_record_key_version = ''v1'',
     dd_source_bindings = [\<lparr>sb_source_id = ''boe'', sb_source_version = 1, sb_role = ''primary'',
       sb_required = True\<rparr>],
     dd_allowed_hosts = [''www.bankofengland.co.uk''], dd_retention_policy = ''open'',
     dd_validator_bindings = [], dd_default_request = [],
     dd_schedules = [], dd_catchup_policy = ''latest_only'', dd_snapshot_mode = ''incremental'',
     dd_default_lane = ''production_ingestion'', dd_validation_policy = JObj [],
     dd_retry_policy = JObj [(''max_attempts'', JInt 2), (''base_delay_seconds'', JInt 30)],
     dd_timeout_policy = JObj [], dd_artifact_policy = JObj [], dd_review_policy = JObj [],
     dd_freshness_policy = JObj [], dd_promotion_policy = ''automatic'', dd_data_kind = ''direct'',
     dd_default_confidence = ''high'', dd_licence = None, dd_access_class = ''open'',
     dd_capabilities = JObj [], dd_status = ''production'', dd_approved_by = Some ''architect'',
     dd_approved_at = Some ''2026-07-31T00:00:00.000000Z''\<rparr>"

definition sample_source :: source_descriptor where
  "sample_source = \<lparr>sr_source_id = ''boe'', sr_source_version = 1, sr_display_name = ''BoE'',
     sr_publisher = ''BoE'', sr_surface_kind = ''api'', sr_allowed_hosts = [''www.bankofengland.co.uk''],
     sr_retention_profile = ''open'', sr_access_class = ''open'', sr_licence = None,
     sr_base_origin_redacted = None, sr_status = ''production'', sr_approved_by = Some ''architect'',
     sr_approved_at = Some ''2026-07-31T00:00:00.000000Z'', sr_details = JObj []\<rparr>"

definition sample_registry :: registry where
  "sample_registry = \<lparr>rg_sources = [sample_source], rg_definitions = [sample_definition]\<rparr>"

lemma sample_definition_simps:
  "dd_datasource_id sample_definition = ''boe.rate''" "dd_definition_version sample_definition = 1"
  "dd_schedules sample_definition = []" "dd_default_request sample_definition = []"
  "dd_default_lane sample_definition = ''production_ingestion''" "dd_status sample_definition = ''production''"
  "dd_retry_policy sample_definition = JObj [(''max_attempts'', JInt 2), (''base_delay_seconds'', JInt 30)]"
  "dd_promotion_policy sample_definition = ''automatic''" "dd_snapshot_mode sample_definition = ''incremental''"
  "dd_access_class sample_definition = ''open''"
  "dd_source_bindings sample_definition = [\<lparr>sb_source_id = ''boe'', sb_source_version = 1, sb_role = ''primary'',
       sb_required = True\<rparr>]"
  "dd_approved_by sample_definition = Some ''architect''"
  "dd_approved_at sample_definition = Some ''2026-07-31T00:00:00.000000Z''"
  by (simp_all add: sample_definition_def)

lemma sample_source_simps:
  "sr_source_id sample_source = ''boe''" "sr_source_version sample_source = 1"
  "sr_access_class sample_source = ''open''" "sr_status sample_source = ''production''"
  "sr_approved_by sample_source = Some ''architect''"
  "sr_approved_at sample_source = Some ''2026-07-31T00:00:00.000000Z''"
  by (simp_all add: sample_source_def)

lemma sample_registry_simps:
  "rg_sources sample_registry = [sample_source]" "rg_definitions sample_registry = [sample_definition]"
  "source_hash sample_sha sr = replicate 64 (CHR ''0'')" "definition_hash sample_sha d = replicate 64 (CHR ''0'')"
  "request_hash sample_sha j = replicate 64 (CHR ''0'')"
  by (simp_all add: sample_registry_def source_hash_def definition_hash_def request_hash_def sample_sha_def)

section \<open>Properties\<close>

lemma add_sources_Inr:
  "add_sources acc srcs = Inr ss \<Longrightarrow> distinct (map sr_key acc) \<Longrightarrow> ss = acc @ srcs \<and> distinct (map sr_key (acc @ srcs))"
  by (induction acc srcs rule: add_sources.induct) (simp_all add: lookup_by_None_iff split: if_splits)

lemma unknown_binding_None:
  "unknown_binding srcs d bs = None \<longleftrightarrow> (\<forall>b \<in> set bs. (sb_source_id b, sb_source_version b) \<in> sr_key ` set srcs)"
  by (induction srcs d bs rule: unknown_binding.induct) (auto simp: lookup_by_None_iff)

lemma add_definitions_Inr:
  "add_definitions sha srcs acc defs = Inr ds \<Longrightarrow> distinct (map dd_key acc) \<Longrightarrow> distinct (map (definition_hash sha) acc) \<Longrightarrow>
     ds = acc @ defs \<and> distinct (map dd_key (acc @ defs)) \<and> distinct (map (definition_hash sha) (acc @ defs)) \<and>
     (\<forall>d \<in> set defs. unknown_binding srcs d (dd_source_bindings d) = None)"
  by (induction sha srcs acc defs rule: add_definitions.induct)
    (simp_all add: lookup_by_None_iff split: if_splits option.splits)

lemma registry_init_Inr:
  assumes "registry_init sha defs srcs = Inr reg"
  shows "set (rg_definitions reg) = set defs" "distinct (map dd_key (rg_definitions reg))"
    "distinct (map (definition_hash sha) (rg_definitions reg))" "sorted (map dd_key (rg_definitions reg))"
    "set (rg_sources reg) = set srcs"
    "\<forall>d \<in> set defs. \<forall>b \<in> set (dd_source_bindings d). (sb_source_id b, sb_source_version b) \<in> sr_key ` set srcs"
proof -
  obtain ss ds where ss: "add_sources [] srcs = Inr ss" and ds: "add_definitions sha ss [] defs = Inr ds"
    and reg: "reg = \<lparr>rg_sources = sort_key sr_key ss, rg_definitions = sort_key dd_key ds\<rparr>"
    using assms by (auto simp: registry_init_def split: sum.splits)
  have 1: "ss = srcs" "distinct (map sr_key ss)" using add_sources_Inr [OF ss] by auto
  have 2: "ds = defs" "distinct (map dd_key ds)" "distinct (map (definition_hash sha) ds)"
    "\<forall>d \<in> set defs. unknown_binding ss d (dd_source_bindings d) = None"
    using add_definitions_Inr [OF ds] by auto
  show "set (rg_definitions reg) = set defs" "set (rg_sources reg) = set srcs"
    "sorted (map dd_key (rg_definitions reg))" using 1 2 by (simp_all add: reg)
  show "distinct (map dd_key (rg_definitions reg))" "distinct (map (definition_hash sha) (rg_definitions reg))"
    using 2 by (simp_all add: reg distinct_map)
  show "\<forall>d \<in> set defs. \<forall>b \<in> set (dd_source_bindings d). (sb_source_id b, sb_source_version b) \<in> sr_key ` set srcs"
    using 2(4) 1 by (simp add: unknown_binding_None)
qed

text \<open>
  A registry that is built lists exactly the definitions it was given, in the order of their
  keys; each of them is found by its identity and version and by its semantic hash, a lookup
  without a version finds the newest version, and every source a definition binds is registered.
\<close>

theorem registry_lookup_complete:
  assumes "registry_init sha defs srcs = Inr reg"
  shows "set (rg_definitions reg) = set defs \<and> sorted (map dd_key (rg_definitions reg)) \<and>
    (\<forall>d \<in> set defs. registry_lookup reg (dd_datasource_id d) (Some (dd_definition_version d)) = Inr d \<and>
       lookup_hash sha reg (definition_hash sha d) = Inr d \<and>
       (\<forall>b \<in> set (dd_source_bindings d). \<exists>src \<in> set (rg_sources reg). sr_key src = (sb_source_id b, sb_source_version b)) \<and>
       (\<exists>newest. registry_lookup reg (dd_datasource_id d) None = Inr newest \<and>
         dd_datasource_id newest = dd_datasource_id d \<and> dd_definition_version d \<le> dd_definition_version newest))"
proof (intro conjI ballI)
  note reg = registry_init_Inr [OF assms]
  show "set (rg_definitions reg) = set defs" "sorted (map dd_key (rg_definitions reg))" by (fact reg)+
  fix d
  assume d: "d \<in> set defs"
  then have mem: "d \<in> set (rg_definitions reg)" using reg(1) by simp
  have by_key: "registry_lookup reg (dd_datasource_id x) (Some (dd_definition_version x)) = Inr x"
    if "x \<in> set (rg_definitions reg)" for x
    using lookup_by_unique [OF reg(2) that] by (simp add: registry_lookup_def Let_def dd_key_def)
  show "registry_lookup reg (dd_datasource_id d) (Some (dd_definition_version d)) = Inr d" by (rule by_key [OF mem])
  show "lookup_hash sha reg (definition_hash sha d) = Inr d"
    using lookup_by_unique [OF reg(3) mem] by (simp add: lookup_hash_def)
  show "\<exists>src \<in> set (rg_sources reg). sr_key src = (sb_source_id b, sb_source_version b)"
    if "b \<in> set (dd_source_bindings d)" for b using reg(5,6) d that by force
  let ?vs = "map dd_definition_version (filter (\<lambda>x. dd_datasource_id x = dd_datasource_id d) (rg_definitions reg))"
  have vs: "dd_definition_version d \<in> set ?vs" using mem by auto
  then have "Max (set ?vs) \<in> set ?vs" by (intro Max_in) auto
  then obtain x where x: "x \<in> set (rg_definitions reg)" "dd_datasource_id x = dd_datasource_id d"
    "dd_definition_version x = Max (set ?vs)" by auto
  have "?vs \<noteq> []" using vs by force
  then have "registry_lookup reg (dd_datasource_id d) None =
      registry_lookup reg (dd_datasource_id d) (Some (Max (set ?vs)))"
    by (simp only: registry_lookup_def Let_def option.case simp_thms if_False option.distinct)
  then have "registry_lookup reg (dd_datasource_id d) None = Inr x" using by_key [OF x(1)] x(2,3) by simp
  moreover have "dd_definition_version d \<le> Max (set ?vs)" using vs by (intro Max_ge) auto
  ultimately show "\<exists>newest. registry_lookup reg (dd_datasource_id d) None = Inr newest \<and>
      dd_datasource_id newest = dd_datasource_id d \<and> dd_definition_version d \<le> dd_definition_version newest"
    using x(2,3) by auto
qed

theorem registry_lookup_complete_witness:
  "\<exists>newest. registry_lookup sample_registry ''boe.rate'' None = Inr newest \<and>
     dd_datasource_id newest = ''boe.rate'' \<and> 1 \<le> dd_definition_version newest"
proof -
  have "registry_init sample_sha [sample_definition] [sample_source] = Inr sample_registry"
    by (simp add: registry_init_def sample_registry_def sample_definition_simps sample_source_simps sr_key_def)
  from registry_lookup_complete [OF this] show ?thesis by (simp add: sample_definition_simps)
qed

end
