(* ===== verification/StoreModel.thy ===== *)
theory StoreModel
  imports Registry
begin

text \<open>
  The operational database as the control plane uses it: one record per table row, the tables
  as lists in insertion order, and the constraints of the schema
  (\<open>storage/migrations/0002_operational_tables.sql\<close>) that an INSERT enforces. Timestamps are
  instants (\<open>Timestamps.timestamp_order\<close> is why comparing the stored text is comparing the
  instants), JSON columns are JSON values, enumerated TEXT columns with a CHECK are datatypes.

  Every public method of \<open>OperationalStore\<close> runs under the single-writer lock and each of its
  transactions is a \<open>BEGIN IMMEDIATE\<close> block, so a method is a function of the state it finds.
\<close>

section \<open>Rows\<close>

record definition_row =
  dr_definition :: definition_descriptor
  dr_definition_hash :: string
  dr_created_at :: instant

record source_row =
  so_source :: source_descriptor
  so_source_hash :: string
  so_created_at :: instant

record binding_row =
  br_datasource_id :: string
  br_definition_version :: int
  br_source_id :: string
  br_source_version :: int
  br_role :: string
  br_required :: bool

record schedule_row =
  sc_schedule_id :: string
  sc_task_kind :: string
  sc_datasource_id :: string
  sc_definition_version :: int
  sc_name :: string
  sc_lane :: string
  sc_rule :: "(string \<times> json) list"
  sc_rule_hash :: string
  sc_timezone :: string
  sc_catchup_policy :: string
  sc_max_catchup_jobs :: int
  sc_max_catchup_horizon_seconds :: int
  sc_cursor_at :: "instant option"
  sc_next_due_at :: "instant option"
  sc_enabled :: bool
  sc_paused_reason :: "string option"
  sc_created_at :: instant
  sc_updated_at :: instant

record job_row =
  j_job_id :: string
  j_dedupe_key :: string
  j_job_kind :: string
  j_datasource_id :: "string option"
  j_definition_version :: "int option"
  j_definition_hash :: "string option"
  j_schedule_id :: "string option"
  j_parent_job_id :: "string option"
  j_generation :: int
  j_request_instance_id :: "string option"
  j_lane :: "string option"
  j_trigger :: string
  j_scheduled_for :: instant
  j_available_at :: instant
  j_window_start :: "instant option"
  j_window_end :: "instant option"
  j_priority :: int
  j_request :: json
  j_request_hash :: string
  j_state :: job_state
  j_attempt_count :: int
  j_max_attempts :: int
  j_claim_token :: "string option"
  j_claimed_by :: "string option"
  j_claimed_at :: "instant option"
  j_lease_expires_at :: "instant option"
  j_heartbeat_at :: "instant option"
  j_last_error :: "json option"
  j_created_at :: instant
  j_started_at :: "instant option"
  j_completed_at :: "instant option"
  j_cancel_requested_at :: "instant option"
  j_cancel_requested_by :: "string option"

record attempt_row =
  a_attempt_id :: string
  a_job_id :: string
  a_attempt_no :: int
  a_status :: attempt_status
  a_worker_id :: string
  a_error :: "json option"
  a_started_at :: instant
  a_heartbeat_at :: instant
  a_completed_at :: "instant option"

record run_row =
  r_run_id :: string
  r_attempt_id :: string
  r_job_id :: string
  r_datasource_id :: string
  r_definition_version :: int
  r_definition_hash :: string
  r_lane :: string
  r_trigger :: string
  r_retrieved_at :: "instant option"
  r_record_count :: int
  r_accepted_record_count :: int
  r_rejected_record_count :: int
  r_snapshot_complete :: bool
  r_snapshot_scope :: "json option"
  r_snapshot_scope_hash :: "string option"
  r_status :: attempt_status
  r_created_at :: instant
  r_completed_at :: "instant option"

record promotion_row =
  p_promotion_id :: string
  p_promotion_seq :: int
  p_run_id :: string
  p_decision :: string
  p_approval_mode :: string
  p_decision_at :: instant
  p_actor_type :: string
  p_actor_id :: string
  p_policy_version :: string
  p_reason :: "string option"
  p_details :: json

record audit_row =
  ae_audit_id :: string
  ae_actor_type :: string
  ae_actor_id :: string
  ae_action :: string
  ae_target_type :: string
  ae_target_id :: string
  ae_details :: json
  ae_created_at :: instant

record store =
  s_sources :: "source_row list"
  s_definitions :: "definition_row list"
  s_bindings :: "binding_row list"
  s_schedules :: "schedule_row list"
  s_jobs :: "job_row list"
  s_attempts :: "attempt_row list"
  s_runs :: "run_row list"
  s_promotions :: "promotion_row list"
  s_audit :: "audit_row list"

definition empty_store :: store where
  "empty_store = \<lparr>s_sources = [], s_definitions = [], s_bindings = [], s_schedules = [], s_jobs = [],
     s_attempts = [], s_runs = [], s_promotions = [], s_audit = []\<rparr>"

definition dr_key :: "definition_row \<Rightarrow> string \<times> int" where
  "dr_key r = dd_key (dr_definition r)"

definition so_key :: "source_row \<Rightarrow> string \<times> int" where
  "so_key r = sr_key (so_source r)"

type_synonym 'a store_op = "(store, store_error, 'a) op"

text \<open>Running one operation after another; an error stops the sequence where it is.\<close>

definition bind_op :: "('s, 'e, 'a) op \<Rightarrow> ('a \<Rightarrow> ('s, 'e, 'b) op) \<Rightarrow> ('s, 'e, 'b) op" where
  "bind_op m f s = (case m s of (Inl e, s') \<Rightarrow> (Inl e, s') | (Inr a, s') \<Rightarrow> f a s')"

definition return_op :: "'a \<Rightarrow> ('s, 'e, 'a) op" where
  "return_op a s = (Inr a, s)"

definition raise_op :: "'e \<Rightarrow> ('s, 'e, 'a) op" where
  "raise_op e s = (Inl e, s)"

fun each_op :: "('x \<Rightarrow> ('s, 'e, 'a) op) \<Rightarrow> 'x list \<Rightarrow> ('s, 'e, 'a list) op" where
  "each_op f [] s = (Inr [], s)"
| "each_op f (x # xs) s =
     (case f x s of (Inl e, s1) \<Rightarrow> (Inl e, s1)
      | (Inr a, s1) \<Rightarrow>
          (case each_op f xs s1 of (Inl e, s2) \<Rightarrow> (Inl e, s2) | (Inr as, s2) \<Rightarrow> (Inr (a # as), s2)))"

section \<open>Inserts with their constraints\<close>

definition lanes :: "string set" where
  "lanes = {''production_ingestion'', ''source_discovery'', ''ad_hoc_research''}"

definition definition_exists :: "store \<Rightarrow> string \<Rightarrow> int \<Rightarrow> bool" where
  "definition_exists s i v = (lookup_by dr_key (i, v) (s_definitions s) \<noteq> None)"

definition job_row_ok :: "store \<Rightarrow> job_row \<Rightarrow> bool" where
  "job_row_ok s r \<longleftrightarrow>
     lookup_by j_job_id (j_job_id r) (s_jobs s) = None \<and>
     lookup_by j_dedupe_key (j_dedupe_key r) (s_jobs s) = None \<and>
     length (j_dedupe_key r) = 64 \<and>
     (case j_definition_hash r of None \<Rightarrow> True | Some h \<Rightarrow> length h = 64) \<and>
     0 \<le> j_generation r \<and>
     (case j_lane r of None \<Rightarrow> True | Some l \<Rightarrow> l \<in> lanes) \<and>
     length (j_request_hash r) = 64 \<and>
     0 \<le> j_attempt_count r \<and> 1 \<le> j_max_attempts r \<and> j_max_attempts r \<le> 20 \<and>
     j_attempt_count r \<le> j_max_attempts r \<and>
     (case (j_datasource_id r, j_definition_version r) of
        (Some i, Some v) \<Rightarrow> definition_exists s i v | _ \<Rightarrow> True) \<and>
     (case j_schedule_id r of None \<Rightarrow> True
      | Some i \<Rightarrow> lookup_by sc_schedule_id i (s_schedules s) \<noteq> None) \<and>
     (case j_parent_job_id r of None \<Rightarrow> True
      | Some i \<Rightarrow> i = j_job_id r \<or> lookup_by j_job_id i (s_jobs s) \<noteq> None) \<and>
     (j_window_end r \<noteq> None \<longrightarrow> j_window_start r \<noteq> None) \<and>
     (case (j_window_start r, j_window_end r) of (Some a, Some b) \<Rightarrow> a \<le> b | _ \<Rightarrow> True)"

definition insert_job :: "job_row \<Rightarrow> unit store_op" where
  "insert_job r s =
     (if job_row_ok s r then (Inr (), s\<lparr>s_jobs := s_jobs s @ [r]\<rparr>)
      else (Inl (IntegrityError ''workflow_job''), s))"

definition insert_attempt :: "attempt_row \<Rightarrow> unit store_op" where
  "insert_attempt r s =
     (if lookup_by a_attempt_id (a_attempt_id r) (s_attempts s) = None \<and>
         lookup_by j_job_id (a_job_id r) (s_jobs s) \<noteq> None \<and> 0 < a_attempt_no r \<and>
         \<not> list_ex (\<lambda>x. a_job_id x = a_job_id r \<and> a_attempt_no x = a_attempt_no r) (s_attempts s) \<and>
         (a_status r = A_RUNNING \<longleftrightarrow> a_completed_at r = None)
      then (Inr (), s\<lparr>s_attempts := s_attempts s @ [r]\<rparr>)
      else (Inl (IntegrityError ''workflow_attempt''), s))"

definition insert_run :: "run_row \<Rightarrow> unit store_op" where
  "insert_run r s =
     (if lookup_by r_run_id (r_run_id r) (s_runs s) = None \<and>
         lookup_by r_attempt_id (r_attempt_id r) (s_runs s) = None \<and>
         lookup_by a_attempt_id (r_attempt_id r) (s_attempts s) \<noteq> None \<and>
         lookup_by j_job_id (r_job_id r) (s_jobs s) \<noteq> None \<and>
         definition_exists s (r_datasource_id r) (r_definition_version r) \<and>
         length (r_definition_hash r) = 64 \<and> r_lane r \<in> lanes
      then (Inr (), s\<lparr>s_runs := s_runs s @ [r]\<rparr>)
      else (Inl (IntegrityError ''ingestion_run''), s))"

definition insert_promotion_row :: "promotion_row \<Rightarrow> unit store_op" where
  "insert_promotion_row r s =
     (if lookup_by p_promotion_id (p_promotion_id r) (s_promotions s) = None \<and>
         lookup_by p_promotion_seq (p_promotion_seq r) (s_promotions s) = None \<and>
         lookup_by r_run_id (p_run_id r) (s_runs s) \<noteq> None
      then (Inr (), s\<lparr>s_promotions := s_promotions s @ [r]\<rparr>)
      else (Inl (IntegrityError ''run_promotion''), s))"

text \<open>\<open>_audit\<close>; \<open>audit_id\<close> is what \<open>new_id("audit")\<close> returned.\<close>

definition audit ::
  "string \<Rightarrow> string \<Rightarrow> string \<Rightarrow> string \<Rightarrow> string \<Rightarrow> string \<Rightarrow> json \<Rightarrow> instant \<Rightarrow> unit store_op" where
  "audit audit_id actor_type actor_id action target_type target_id details now s =
     (if lookup_by ae_audit_id audit_id (s_audit s) \<noteq> None
      then (Inl (IntegrityError ''audit_event''), s)
      else (Inr (), s\<lparr>s_audit := s_audit s @ [\<lparr>ae_audit_id = audit_id, ae_actor_type = actor_type,
        ae_actor_id = actor_id, ae_action = action, ae_target_type = target_type,
        ae_target_id = target_id, ae_details = details, ae_created_at = now\<rparr>]\<rparr>))"

text \<open>\<open>UPDATE workflow_job SET ... WHERE ...\<close> and its row count.\<close>

definition update_jobs :: "(job_row \<Rightarrow> bool) \<Rightarrow> (job_row \<Rightarrow> job_row) \<Rightarrow> nat store_op" where
  "update_jobs P f s = (Inr (rowcount P (s_jobs s)), s\<lparr>s_jobs := update_where P f (s_jobs s)\<rparr>)"

definition update_attempts :: "(attempt_row \<Rightarrow> bool) \<Rightarrow> (attempt_row \<Rightarrow> attempt_row) \<Rightarrow> nat store_op" where
  "update_attempts P f s =
     (Inr (rowcount P (s_attempts s)), s\<lparr>s_attempts := update_where P f (s_attempts s)\<rparr>)"

definition update_runs :: "(run_row \<Rightarrow> bool) \<Rightarrow> (run_row \<Rightarrow> run_row) \<Rightarrow> nat store_op" where
  "update_runs P f s = (Inr (rowcount P (s_runs s)), s\<lparr>s_runs := update_where P f (s_runs s)\<rparr>)"

lemma bind_op_Inr:
  "bind_op m f s = (Inr b, s') \<longleftrightarrow> (\<exists>a s1. m s = (Inr a, s1) \<and> f a s1 = (Inr b, s'))"
  by (auto simp: bind_op_def split: prod.splits sum.splits)

section \<open>Registry synchronisation\<close>

definition insert_source :: "(string \<Rightarrow> string) \<Rightarrow> source_descriptor \<Rightarrow> instant \<Rightarrow> bool store_op" where
  "insert_source sha src now s =
     (case lookup_by so_key (sr_key src) (s_sources s) of
        Some row \<Rightarrow>
          if so_source_hash row \<noteq> source_hash sha src
          then (Inl (OperationalError ''immutable source definition conflicts with database''), s)
          else (Inr False, s)
      | None \<Rightarrow>
          if lookup_by so_source_hash (source_hash sha src) (s_sources s) \<noteq> None \<or>
             \<not> (0 < sr_source_version src \<and> length (source_hash sha src) = 64 \<and>
                sr_access_class src \<in> access_classes \<and> sr_status src \<in> statuses \<and>
                (sr_status src = ''production'' \<longrightarrow> sr_approved_by src \<noteq> None \<and> sr_approved_at src \<noteq> None))
          then (Inl (IntegrityError ''source_definition''), s)
          else (Inr True, s\<lparr>s_sources := s_sources s @ [\<lparr>so_source = src,
            so_source_hash = source_hash sha src, so_created_at = now\<rparr>]\<rparr>))"

definition insert_definition ::
  "(string \<Rightarrow> string) \<Rightarrow> definition_descriptor \<Rightarrow> instant \<Rightarrow> bool store_op" where
  "insert_definition sha d now s =
     (case lookup_by dr_key (dd_key d) (s_definitions s) of
        Some row \<Rightarrow>
          if dr_definition_hash row \<noteq> definition_hash sha d
          then (Inl (OperationalError ''immutable datasource definition conflicts with database''), s)
          else (Inr False, s)
      | None \<Rightarrow>
          if lookup_by dr_definition_hash (definition_hash sha d) (s_definitions s) \<noteq> None \<or>
             \<not> (0 < dd_definition_version d \<and> length (definition_hash sha d) = 64 \<and>
                dd_default_lane d \<in> lanes \<and> dd_access_class d \<in> access_classes \<and>
                dd_status d \<in> statuses \<and>
                (dd_status d = ''production'' \<longrightarrow> dd_approved_by d \<noteq> None \<and> dd_approved_at d \<noteq> None))
          then (Inl (IntegrityError ''datasource_definition''), s)
          else (Inr True,
            s\<lparr>s_definitions := s_definitions s @ [\<lparr>dr_definition = d,
              dr_definition_hash = definition_hash sha d, dr_created_at = now\<rparr>]\<rparr>))"

text \<open>\<open>INSERT OR IGNORE\<close>: a uniqueness conflict is skipped, a missing parent row is an error.\<close>

definition insert_binding :: "definition_descriptor \<Rightarrow> source_binding \<Rightarrow> unit store_op" where
  "insert_binding d b s =
     (let row = \<lparr>br_datasource_id = dd_datasource_id d, br_definition_version = dd_definition_version d,
            br_source_id = sb_source_id b, br_source_version = sb_source_version b,
            br_role = sb_role b, br_required = sb_required b\<rparr>;
          key = (\<lambda>r. (br_datasource_id r, br_definition_version r, br_source_id r, br_source_version r))
      in if lookup_by key (key row) (s_bindings s) \<noteq> None then (Inr (), s)
         else if lookup_by so_key (sb_source_id b, sb_source_version b) (s_sources s) = None \<or>
                 \<not> definition_exists s (dd_datasource_id d) (dd_definition_version d)
         then (Inl (IntegrityError ''datasource_source''), s)
         else (Inr (), s\<lparr>s_bindings := s_bindings s @ [row]\<rparr>))"

definition schedule_id_of :: "(string \<Rightarrow> string) \<Rightarrow> definition_descriptor \<Rightarrow> string \<Rightarrow> string" where
  "schedule_id_of sha d name =
     ''schedule_'' @ take 24 (request_hash sha (JObj [(''datasource_id'', JStr (dd_datasource_id d)),
       (''definition_version'', JInt (dd_definition_version d)), (''name'', JStr name)]))"

definition insert_schedule ::
  "(string \<Rightarrow> string) \<Rightarrow> definition_descriptor \<Rightarrow> instant \<Rightarrow> schedule_descriptor \<Rightarrow> nat store_op" where
  "insert_schedule sha d now sd s =
     (let row = \<lparr>sc_schedule_id = schedule_id_of sha d (sd_name sd), sc_task_kind = ''ingest'',
            sc_datasource_id = dd_datasource_id d, sc_definition_version = dd_definition_version d,
            sc_name = sd_name sd, sc_lane = dd_default_lane d, sc_rule = sd_rule sd,
            sc_rule_hash = request_hash sha (JObj (sd_rule sd)), sc_timezone = sd_timezone sd,
            sc_catchup_policy = sd_catchup_policy sd, sc_max_catchup_jobs = sd_max_catchup_jobs sd,
            sc_max_catchup_horizon_seconds = sd_max_catchup_horizon_seconds sd, sc_cursor_at = None,
            sc_next_due_at = None, sc_enabled = sd_enabled sd, sc_paused_reason = None,
            sc_created_at = now, sc_updated_at = now\<rparr>;
          key = (\<lambda>r. (sc_task_kind r, sc_datasource_id r, sc_definition_version r, sc_name r,
            sc_rule_hash r))
      in if lookup_by sc_schedule_id (sc_schedule_id row) (s_schedules s) \<noteq> None \<or>
            lookup_by key (key row) (s_schedules s) \<noteq> None \<or>
            sc_lane row \<notin> lanes \<or> sc_catchup_policy row \<notin> catchup_names \<or> length (sc_rule_hash row) \<noteq> 64 \<or>
            \<not> (1 \<le> sc_max_catchup_jobs row \<and> sc_max_catchup_jobs row \<le> 1000) \<or>
            sc_max_catchup_horizon_seconds row < 0
         then (Inr 0, s)
         else if \<not> definition_exists s (dd_datasource_id d) (dd_definition_version d)
         then (Inl (IntegrityError ''workflow_schedule''), s)
         else (Inr 1, s\<lparr>s_schedules := s_schedules s @ [row]\<rparr>))"

definition sync_definition ::
  "(string \<Rightarrow> string) \<Rightarrow> instant \<Rightarrow> definition_descriptor \<Rightarrow> (bool \<times> nat) store_op" where
  "sync_definition sha now d =
     bind_op (insert_definition sha d now) (\<lambda>fresh.
     bind_op (each_op (insert_binding d) (dd_source_bindings d)) (\<lambda>_.
     bind_op (each_op (insert_schedule sha d now) (dd_schedules d)) (\<lambda>ns.
     return_op (fresh, sum_list ns))))"

record sync_result =
  sy_sources_inserted :: nat
  sy_definitions_inserted :: nat
  sy_schedules_inserted :: nat

definition sync_registry :: "(string \<Rightarrow> string) \<Rightarrow> registry \<Rightarrow> instant \<Rightarrow> sync_result store_op" where
  "sync_registry sha reg now =
     transaction
       (bind_op (each_op (\<lambda>src. insert_source sha src now) (rg_sources reg)) (\<lambda>srcs.
        bind_op (each_op (sync_definition sha now) (rg_definitions reg)) (\<lambda>defs.
        return_op \<lparr>sy_sources_inserted = length (filter id srcs),
          sy_definitions_inserted = length (filter fst defs),
          sy_schedules_inserted = sum_list (map snd defs)\<rparr>)))"

end
