(* ===== verification/JobStore.thy ===== *)
theory JobStore
  imports StoreModel LeaseSpec
begin

text \<open>
  The job lifecycle of \<open>OperationalStore\<close> (\<open>operational.py\<close>): enqueuing, claiming, starting,
  heartbeating, finishing, cancelling, retrying and recovering jobs, as state transformers on
  the tables of \<open>StoreModel\<close>.

  Arguments stand for what a method takes from outside: \<open>clock\<close> or \<open>now\<close> for the time,
  the identifiers that \<open>new_id\<close> returns, and an \<open>env\<close> with the packaged registry, SHA-256 and
  \<open>urllib.parse\<close>. \<open>_single_writer\<close> and \<open>migrate\<close> are not part of the transition: the methods
  below run with the writer lock held on a migrated database.
\<close>

record env =
  en_registry :: registry
  en_urllib :: urllib
  en_sha :: "string \<Rightarrow> string"

section \<open>Enqueue\<close>

record enqueue_args =
  ea_datasource_id :: string
  ea_definition_version :: "int option"
  ea_request :: "(string \<times> json) list option"
  ea_trigger :: string
  ea_lane :: "string option"
  ea_priority :: int
  ea_scheduled_for :: "instant option"
  ea_request_instance_id :: "string option"
  ea_schedule_id :: "string option"
  ea_parent_job_id :: "string option"
  ea_generation :: int
  ea_job_kind :: "string option"
  ea_window_start :: "instant option"
  ea_window_end :: "instant option"

text \<open>The keyword defaults of \<open>enqueue\<close>.\<close>

definition enqueue_defaults :: "string \<Rightarrow> enqueue_args" where
  "enqueue_defaults datasource_id =
     \<lparr>ea_datasource_id = datasource_id, ea_definition_version = None, ea_request = None,
      ea_trigger = ''manual'', ea_lane = None, ea_priority = 100, ea_scheduled_for = None,
      ea_request_instance_id = None, ea_schedule_id = None, ea_parent_job_id = None,
      ea_generation = 0, ea_job_kind = None, ea_window_start = None, ea_window_end = None\<rparr>"

record enqueue_result =
  er_job_id :: string
  er_disposition :: string
  er_state :: job_state

text \<open>What \<open>new_id\<close> returns inside \<open>enqueue\<close>.\<close>

record enqueue_ids =
  ei_manual_request :: string
  ei_job :: string
  ei_audit :: string

record prepared_job =
  pj_definition :: definition_descriptor
  pj_lane :: string
  pj_kind :: string
  pj_request :: "(string \<times> json) list"

definition triggers :: "string set" where
  "triggers = {''schedule'', ''agent_request'', ''manual'', ''backfill'', ''fanout'', ''reparse'',
     ''promotion'', ''recovery''}"

definition enqueue_job_kinds :: "string set" where
  "enqueue_job_kinds = {''scheduled_ingest'', ''on_demand_refresh'', ''backfill'', ''offline_reparse'',
     ''manual_submission''}"

definition enqueue_prepare :: "env \<Rightarrow> enqueue_args \<Rightarrow> store_error + prepared_job" where
  "enqueue_prepare env a =
     (case registry_lookup (en_registry env) (ea_datasource_id a) (ea_definition_version a) of
        Inl (RegistryError m) \<Rightarrow> Inl (OperationalError m)
      | Inl e \<Rightarrow> Inl e
      | Inr d \<Rightarrow>
     (let lane = (if truthy (ea_lane a) then the (ea_lane a) else dd_default_lane d)
      in if lane \<notin> lanes then Inl (OperationalError ''unsupported ingestion lane'')
         else if lane = ''production_ingestion'' \<and> dd_status d \<noteq> ''production''
         then Inl (OperationalError ''unapproved datasource cannot be enqueued for production'')
         else if ea_trigger a \<notin> triggers then Inl (OperationalError ''unsupported job trigger'')
         else case redact_pairs (en_urllib env)
                (case ea_request a of None \<Rightarrow> dd_default_request d | Some [] \<Rightarrow> dd_default_request d
                 | Some r \<Rightarrow> r) of
           Inl _ \<Rightarrow> Inl (StoreValueError ''invalid URL in request'')
         | Inr payload \<Rightarrow>
     (let kind = (if truthy (ea_job_kind a) then the (ea_job_kind a)
            else if ea_trigger a = ''backfill'' then ''backfill''
            else if ea_trigger a = ''agent_request'' then ''on_demand_refresh''
            else ''scheduled_ingest'');
          ws = ea_window_start a; we = ea_window_end a
      in if kind \<notin> enqueue_job_kinds then Inl (OperationalError ''unsupported datasource job kind'')
         else if (ws = None) \<noteq> (we = None)
         then Inl (OperationalError ''job window_start and window_end must be supplied together'')
         else if (case (ws, we) of (Some x, Some y) \<Rightarrow> y < x | _ \<Rightarrow> False)
         then Inl (OperationalError ''job window_start must be before window_end'')
         else if kind = ''backfill'' \<and> ws = None
         then Inl (OperationalError ''backfill jobs require a bounded window'')
         else if kind \<noteq> ''backfill'' \<and> ws \<noteq> None
         then Inl (OperationalError ''only backfill jobs support durable windows'')
         else if kind = ''backfill'' \<and>
           (dict_get payload ''window_start'' \<noteq> opt_json ts_json ws \<or>
            dict_get payload ''window_end'' \<noteq> opt_json ts_json we)
         then Inl (OperationalError ''request window must match the durable job window'')
         else Inr \<lparr>pj_definition = d, pj_lane = lane, pj_kind = kind, pj_request = payload\<rparr>)))"

definition enqueue_dedupe ::
  "(string \<Rightarrow> string) \<Rightarrow> enqueue_args \<Rightarrow> prepared_job \<Rightarrow> instant \<Rightarrow> string option \<Rightarrow> string" where
  "enqueue_dedupe sha a p now instance_id =
     request_hash sha (JObj [
       (''datasource_id'', JStr (ea_datasource_id a)),
       (''definition_version'', JInt (dd_definition_version (pj_definition p))),
       (''definition_hash'', JStr (definition_hash sha (pj_definition p))),
       (''lane'', JStr (pj_lane p)),
       (''trigger'', JStr (ea_trigger a)),
       (''request_hash'', JStr (request_hash sha (JObj (pj_request p)))),
       (''scheduled_for'', if ea_trigger a = ''schedule'' then ts_json now else JNull),
       (''schedule_id'', opt_json JStr (ea_schedule_id a)),
       (''parent_job_id'', opt_json JStr (ea_parent_job_id a)),
       (''generation'', JInt (ea_generation a)),
       (''request_instance_id'', opt_json JStr instance_id),
       (''job_kind'', JStr (pj_kind p)),
       (''window_start'', opt_json ts_json (ea_window_start a)),
       (''window_end'', opt_json ts_json (ea_window_end a))])"

definition max_attempts :: "definition_descriptor \<Rightarrow> int" where
  "max_attempts d =
     (case dd_retry_policy d of
        JObj kvs \<Rightarrow>
          (case map_of kvs ''max_attempts'' of
             None \<Rightarrow> 4
           | Some v \<Rightarrow> (case as_int v of Some n \<Rightarrow> if 1 \<le> n \<and> n \<le> 20 then n else 4 | None \<Rightarrow> 4))
      | _ \<Rightarrow> 4)"

definition enqueue_row ::
  "env \<Rightarrow> enqueue_args \<Rightarrow> prepared_job \<Rightarrow> instant \<Rightarrow> string \<Rightarrow> string option \<Rightarrow> job_row" where
  "enqueue_row env a p now job_id instance_id =
     \<lparr>j_job_id = job_id, j_dedupe_key = enqueue_dedupe (en_sha env) a p now instance_id,
      j_job_kind = pj_kind p, j_datasource_id = Some (ea_datasource_id a),
      j_definition_version = Some (dd_definition_version (pj_definition p)),
      j_definition_hash = Some (definition_hash (en_sha env) (pj_definition p)),
      j_schedule_id = ea_schedule_id a, j_parent_job_id = ea_parent_job_id a,
      j_generation = ea_generation a, j_request_instance_id = instance_id, j_lane = Some (pj_lane p),
      j_trigger = ea_trigger a, j_scheduled_for = now, j_available_at = now,
      j_window_start = ea_window_start a, j_window_end = ea_window_end a, j_priority = ea_priority a,
      j_request = JObj (pj_request p), j_request_hash = request_hash (en_sha env) (JObj (pj_request p)),
      j_state = QUEUED, j_attempt_count = 0, j_max_attempts = max_attempts (pj_definition p),
      j_claim_token = None, j_claimed_by = None, j_claimed_at = None, j_lease_expires_at = None,
      j_heartbeat_at = None, j_last_error = None, j_created_at = now, j_started_at = None,
      j_completed_at = None, j_cancel_requested_at = None, j_cancel_requested_by = None\<rparr>"

definition enqueue_insert ::
  "env \<Rightarrow> enqueue_ids \<Rightarrow> enqueue_args \<Rightarrow> prepared_job \<Rightarrow> instant \<Rightarrow> enqueue_result store_op" where
  "enqueue_insert env ids a p now s =
     (let insert = (\<lambda>instance_id.
            bind_op (insert_job (enqueue_row env a p now (ei_job ids) instance_id)) (\<lambda>_.
            bind_op (audit (ei_audit ids) (if ea_trigger a \<noteq> ''agent_request'' then ''operator'' else ''agent'')
              ''local'' ''job_enqueued'' ''workflow_job'' (ei_job ids)
              (JObj [(''datasource_id'', JStr (ea_datasource_id a)), (''lane'', JStr (pj_lane p))]) now)
              (\<lambda>_. return_op \<lparr>er_job_id = ei_job ids, er_disposition = ''accepted'', er_state = QUEUED\<rparr>)))
      in case lookup_by j_dedupe_key
             (enqueue_dedupe (en_sha env) a p now (ea_request_instance_id a)) (s_jobs s) of
           Some existing \<Rightarrow>
             if \<not> (ea_trigger a = ''manual'' \<and> ea_request_instance_id a = None \<and>
                  j_state existing \<in> terminal_job_states)
             then (Inr \<lparr>er_job_id = j_job_id existing, er_disposition = ''deduplicated'',
                    er_state = j_state existing\<rparr>, s)
             else insert (Some (ei_manual_request ids)) s
         | None \<Rightarrow> insert (ea_request_instance_id a) s)"

definition enqueue :: "env \<Rightarrow> instant \<Rightarrow> enqueue_ids \<Rightarrow> enqueue_args \<Rightarrow> enqueue_result store_op" where
  "enqueue env clock ids a =
     bind_op (sync_registry (en_sha env) (en_registry env) clock) (\<lambda>_.
       case enqueue_prepare env a of
         Inl e \<Rightarrow> raise_op e
       | Inr p \<Rightarrow> transaction (enqueue_insert env ids a p
           (case ea_scheduled_for a of None \<Rightarrow> clock | Some t \<Rightarrow> t)))"

definition enqueue_backfill ::
  "env \<Rightarrow> instant \<Rightarrow> enqueue_ids \<Rightarrow> string \<Rightarrow> string \<Rightarrow> instant \<Rightarrow> instant \<Rightarrow> string option \<Rightarrow>
   enqueue_result store_op" where
  "enqueue_backfill env clock ids backfill_id datasource_id window_start window_end lane =
     (if window_end < window_start
      then raise_op (OperationalError ''backfill window_start must be before window_end'')
      else enqueue env clock ids ((enqueue_defaults datasource_id)\<lparr>
        ea_request := Some [(''window_start'', ts_json window_start), (''window_end'', ts_json window_end)],
        ea_trigger := ''backfill'', ea_lane := lane, ea_scheduled_for := Some window_start,
        ea_request_instance_id := Some backfill_id, ea_job_kind := Some ''backfill'',
        ea_window_start := Some window_start, ea_window_end := Some window_end\<rparr>))"

text \<open>\<open>root_dir\<close> is the resolved output directory.\<close>

definition projection_row ::
  "env \<Rightarrow> string \<Rightarrow> string \<Rightarrow> instant \<Rightarrow> instant \<Rightarrow> string \<Rightarrow> job_row" where
  "projection_row env root_dir trig anchor queued_for job_id =
     (let request = JObj [(''output_directory'', JStr root_dir), (''as_of_at'', ts_json anchor)];
          payload_hash = request_hash (en_sha env) request
      in \<lparr>j_job_id = job_id,
          j_dedupe_key = request_hash (en_sha env) (JObj [
            (''job_kind'', JStr ''projection_delivery''), (''trigger'', JStr trig),
            (''request_hash'', JStr payload_hash),
            (''scheduled_for'', if trig = ''schedule'' then ts_json queued_for else JNull)]),
          j_job_kind = ''projection_delivery'', j_datasource_id = None, j_definition_version = None,
          j_definition_hash = None, j_schedule_id = None, j_parent_job_id = None, j_generation = 0,
          j_request_instance_id = None, j_lane = None, j_trigger = trig, j_scheduled_for = queued_for,
          j_available_at = queued_for, j_window_start = None, j_window_end = None, j_priority = 50,
          j_request = request, j_request_hash = payload_hash, j_state = QUEUED, j_attempt_count = 0,
          j_max_attempts = 3, j_claim_token = None, j_claimed_by = None, j_claimed_at = None,
          j_lease_expires_at = None, j_heartbeat_at = None, j_last_error = None,
          j_created_at = queued_for, j_started_at = None, j_completed_at = None,
          j_cancel_requested_at = None, j_cancel_requested_by = None\<rparr>)"

definition enqueue_projection_delivery ::
  "env \<Rightarrow> string \<Rightarrow> string \<Rightarrow> string \<Rightarrow> instant \<Rightarrow> instant option \<Rightarrow> string \<Rightarrow> enqueue_result store_op" where
  "enqueue_projection_delivery env job_id audit_id root_dir anchor scheduled_for trig =
     (if trig \<notin> {''manual'', ''schedule'', ''recovery''}
      then raise_op (OperationalError ''unsupported projection delivery trigger'')
      else let queued_for = (case scheduled_for of None \<Rightarrow> anchor | Some t \<Rightarrow> t);
               row = projection_row env root_dir trig anchor queued_for job_id
           in transaction (\<lambda>s.
                case lookup_by j_dedupe_key (j_dedupe_key row) (s_jobs s) of
                  Some existing \<Rightarrow> (Inr \<lparr>er_job_id = j_job_id existing, er_disposition = ''deduplicated'',
                    er_state = j_state existing\<rparr>, s)
                | None \<Rightarrow>
                    bind_op (insert_job row) (\<lambda>_.
                    bind_op (audit audit_id ''operator'' ''local'' ''projection_delivery_enqueued''
                      ''workflow_job'' job_id (j_request row) queued_for) (\<lambda>_.
                    return_op \<lparr>er_job_id = job_id, er_disposition = ''accepted'', er_state = QUEUED\<rparr>)) s))"

section \<open>Recovery\<close>

text \<open>
  \<open>_retry_timestamp\<close> on the persisted policy; an unreadable or foreign policy falls back to the
  defaults. The delay is a whole number of seconds.
\<close>

definition retry_bounds :: "json \<Rightarrow> int \<times> int" where
  "retry_bounds policy =
     (let field = (\<lambda>k. case policy of
            JObj kvs \<Rightarrow> (case map_of kvs k of None \<Rightarrow> None | Some v \<Rightarrow> as_int v) | _ \<Rightarrow> None);
          present = (\<lambda>k. case policy of JObj kvs \<Rightarrow> map_of kvs k \<noteq> None | _ \<Rightarrow> False);
          base = (if \<not> present ''base_delay_seconds'' then 60
            else case field ''base_delay_seconds'' of Some n \<Rightarrow> if n < 0 then 60 else n | None \<Rightarrow> 60);
          maximum = (if \<not> present ''max_delay_seconds'' then Some 3600 else field ''max_delay_seconds'')
      in (base, case maximum of Some n \<Rightarrow> if n < base then max base 3600 else n
            | None \<Rightarrow> max base 3600))"

definition retry_timestamp :: "instant \<Rightarrow> json \<Rightarrow> int \<Rightarrow> instant" where
  "retry_timestamp now policy attempt_no =
     (case retry_bounds policy of (base, maximum) \<Rightarrow>
        let exponent = nat (max 0 (min (attempt_no - 1) 16))
        in now + seconds (min maximum (base * 2 ^ exponent)))"

definition expired_claim :: "instant \<Rightarrow> job_row \<Rightarrow> bool" where
  "expired_claim now r \<longleftrightarrow> j_state r \<in> {CLAIMED, RUNNING} \<and> sql_le (j_lease_expires_at r) now"

text \<open>\<open>COALESCE(d.retry_policy_json, '{}')\<close> over the left join.\<close>

definition job_retry_policy :: "store \<Rightarrow> job_row \<Rightarrow> json" where
  "job_retry_policy s r =
     (case (j_datasource_id r, j_definition_version r) of
        (Some i, Some v) \<Rightarrow>
          (case lookup_by dr_key (i, v) (s_definitions s) of
             Some d \<Rightarrow> dd_retry_policy (dr_definition d) | None \<Rightarrow> JObj [])
      | _ \<Rightarrow> JObj [])"

definition lease_expired_error :: "job_row \<Rightarrow> json" where
  "lease_expired_error r =
     JObj [(''schema_version'', JStr ''error.v1''), (''code'', JStr ''WORKER_LEASE_EXPIRED''),
       (''stage'', JStr ''worker''), (''retryable'', JBool (j_state r = RUNNING))]"

text \<open>The running attempt of a job with the highest number.\<close>

definition running_attempt :: "string \<Rightarrow> store \<Rightarrow> attempt_row option" where
  "running_attempt job_id s =
     max_by a_attempt_no (filter (\<lambda>a. a_job_id a = job_id \<and> a_status a = A_RUNNING) (s_attempts s))"

definition fail_running_attempt :: "instant \<Rightarrow> json \<Rightarrow> string \<Rightarrow> unit store_op" where
  "fail_running_attempt now err job_id s =
     (case running_attempt job_id s of
        None \<Rightarrow> (Inr (), s)
      | Some a \<Rightarrow>
          (Inr (), s\<lparr>s_attempts := update_where
               (\<lambda>x. a_attempt_id x = a_attempt_id a \<and> a_status x = A_RUNNING)
               (\<lambda>x. x\<lparr>a_status := A_FAILED, a_completed_at := Some now, a_heartbeat_at := now,
                   a_error := Some err\<rparr>) (s_attempts s),
             s_runs := update_where
               (\<lambda>x. r_attempt_id x = a_attempt_id a \<and> r_status x = A_RUNNING)
               (\<lambda>x. x\<lparr>r_status := A_FAILED, r_completed_at := Some now, r_retrieved_at := Some now\<rparr>)
               (s_runs s)\<rparr>))"

text \<open>Where a row of the recovery SELECT goes.\<close>

definition recovery_target :: "instant \<Rightarrow> json \<Rightarrow> job_row \<Rightarrow> job_state \<times> instant" where
  "recovery_target now policy r =
     (if j_state r = CLAIMED then (QUEUED, now)
      else if j_attempt_count r < j_max_attempts r
      then (RETRY_WAIT, retry_timestamp now policy (j_attempt_count r))
      else (DEAD_LETTER, now))"

definition recover_update :: "instant \<Rightarrow> json \<Rightarrow> job_row \<Rightarrow> job_row \<Rightarrow> job_row" where
  "recover_update now policy r x =
     (case recovery_target now policy r of (next_state, available_at) \<Rightarrow>
        x\<lparr>j_state := next_state, j_available_at := available_at,
          j_completed_at := (if next_state = DEAD_LETTER then Some now else None),
          j_claim_token := None, j_claimed_by := None, j_claimed_at := None,
          j_lease_expires_at := None, j_heartbeat_at := None,
          j_last_error := Some (lease_expired_error r)\<rparr>)"

text \<open>\<open>job_state_text\<close> is the TEXT value of the state column.\<close>

fun job_state_text :: "job_state \<Rightarrow> string" where
  "job_state_text QUEUED = ''queued''"
| "job_state_text CLAIMED = ''claimed''"
| "job_state_text RUNNING = ''running''"
| "job_state_text RETRY_WAIT = ''retry_wait''"
| "job_state_text SUCCEEDED = ''succeeded''"
| "job_state_text EMPTY = ''empty''"
| "job_state_text FAILED = ''failed''"
| "job_state_text DEAD_LETTER = ''dead_letter''"
| "job_state_text CANCELLED = ''cancelled''"

definition recover_row :: "instant \<Rightarrow> (string \<Rightarrow> string) \<Rightarrow> json \<times> job_row \<Rightarrow> string store_op" where
  "recover_row now audit_id pr =
     (case pr of (policy, r) \<Rightarrow>
        bind_op (if j_state r = CLAIMED then return_op ()
                 else fail_running_attempt now (lease_expired_error r) (j_job_id r)) (\<lambda>_.
        bind_op (update_jobs
          (\<lambda>x. j_job_id x = j_job_id r \<and> j_claim_token r \<noteq> None \<and> j_claim_token x = j_claim_token r)
          (recover_update now policy r)) (\<lambda>_.
        bind_op (audit (audit_id (j_job_id r)) ''service'' ''reconciler'' ''lease_recovered''
          ''workflow_job'' (j_job_id r)
          (JObj [(''state'', JStr (job_state_text (j_state r))),
             (''next_state'', JStr (job_state_text (fst (recovery_target now policy r))))]) now) (\<lambda>_.
        return_op (j_job_id r)))))"

definition recover_expired :: "instant \<Rightarrow> (string \<Rightarrow> string) \<Rightarrow> string list store_op" where
  "recover_expired now audit_id =
     transaction (\<lambda>s.
       each_op (recover_row now audit_id)
         (map (\<lambda>r. (job_retry_policy s r, r)) (filter (expired_claim now) (s_jobs s))) s)"

section \<open>Claims\<close>

record claimed_job =
  cj_job_id :: string
  cj_claim_token :: string
  cj_datasource_id :: "string option"
  cj_definition_version :: "int option"
  cj_lane :: "string option"
  cj_job_kind :: string
  cj_window_start :: "instant option"
  cj_window_end :: "instant option"
  cj_request :: json

definition claimable :: "instant \<Rightarrow> job_row \<Rightarrow> bool" where
  "claimable now r \<longleftrightarrow> j_state r \<in> {QUEUED, RETRY_WAIT} \<and> j_available_at r \<le> now"

definition claim_key :: "job_row \<Rightarrow> int \<times> instant \<times> instant \<times> string" where
  "claim_key r = (j_priority r, j_available_at r, j_scheduled_for r, j_job_id r)"

definition lease_seconds :: "int \<Rightarrow> store_error + int" where
  "lease_seconds n =
     (if 1 \<le> n \<and> n \<le> 3600 then Inr n
      else Inl (OperationalError ''lease_seconds must be an integer in [1, 3600]''))"

definition claim_row ::
  "job_row \<Rightarrow> string \<Rightarrow> instant \<Rightarrow> instant \<Rightarrow> string \<Rightarrow> claimed_job option store_op" where
  "claim_row row worker_id now expires token s =
     (if worker_id = [] then (Inl (OperationalError ''worker_id is required''), s)
      else bind_op (update_jobs
        (\<lambda>x. j_job_id x = j_job_id row \<and> j_state x \<in> {QUEUED, RETRY_WAIT})
        (\<lambda>x. x\<lparr>j_state := CLAIMED, j_claim_token := Some token, j_claimed_by := Some worker_id,
           j_claimed_at := Some now, j_lease_expires_at := Some expires, j_heartbeat_at := Some now\<rparr>))
        (\<lambda>changed. return_op (if changed \<noteq> 1 then None
           else Some \<lparr>cj_job_id = j_job_id row, cj_claim_token = token,
             cj_datasource_id = j_datasource_id row, cj_definition_version = j_definition_version row,
             cj_lane = j_lane row, cj_job_kind = j_job_kind row, cj_window_start = j_window_start row,
             cj_window_end = j_window_end row, cj_request = j_request row\<rparr>)) s)"

text \<open>The common frame of \<open>claim_next\<close> and \<open>claim_job\<close>; \<open>sel\<close> is the SELECT.\<close>

definition claim_with ::
  "(job_row list \<Rightarrow> job_row option) \<Rightarrow> string \<Rightarrow> instant \<Rightarrow> int \<Rightarrow> (string \<Rightarrow> string) \<Rightarrow> string \<Rightarrow>
   claimed_job option store_op" where
  "claim_with sel worker_id now lease audit_id token =
     bind_op (recover_expired now audit_id) (\<lambda>_.
       case lease_seconds lease of
         Inl e \<Rightarrow> raise_op e
       | Inr n \<Rightarrow> transaction (\<lambda>s.
           case sel (s_jobs s) of
             None \<Rightarrow> (Inr None, s)
           | Some row \<Rightarrow> claim_row row worker_id now (now + seconds n) token s))"

definition claim_next ::
  "string \<Rightarrow> instant \<Rightarrow> int \<Rightarrow> (string \<Rightarrow> string) \<Rightarrow> string \<Rightarrow> claimed_job option store_op" where
  "claim_next worker_id now =
     claim_with (\<lambda>rows. min_by claim_key (filter (claimable now) rows)) worker_id now"

definition claim_job ::
  "string \<Rightarrow> string \<Rightarrow> instant \<Rightarrow> int \<Rightarrow> (string \<Rightarrow> string) \<Rightarrow> string \<Rightarrow> claimed_job option store_op" where
  "claim_job job_id worker_id now =
     claim_with (\<lambda>rows. List.find (\<lambda>r. j_job_id r = job_id \<and> claimable now r) rows) worker_id now"

section \<open>Attempts and runs\<close>

record run_handle =
  rh_run_id :: string
  rh_attempt_id :: string
  rh_job_id :: string
  rh_claim_token :: string
  rh_datasource_id :: string
  rh_definition_version :: int
  rh_lane :: string

record system_job_handle =
  sh_attempt_id :: string
  sh_job_id :: string
  sh_claim_token :: string
  sh_job_kind :: string

text \<open>
  \<open>WHERE job_id = ? AND claim_token = ? AND state = ? AND lease_expires_at > ?\<close>: the
  compare-and-set condition of every worker operation.
\<close>

definition owned :: "string \<Rightarrow> string \<Rightarrow> job_state \<Rightarrow> instant \<Rightarrow> job_row \<Rightarrow> bool" where
  "owned job_id token st now r \<longleftrightarrow> j_job_id r = job_id \<and> j_claim_token r = Some token \<and>
     j_state r = st \<and> sql_gt (j_lease_expires_at r) now"

text \<open>
  The part \<open>start_run\<close> and \<open>start_system_job\<close> share; the three messages are those of the
  lease check, the budget check and the update that matched no row.
\<close>

definition start_attempt ::
  "string \<Rightarrow> string \<Rightarrow> string \<Rightarrow> string \<Rightarrow> string \<Rightarrow> string \<Rightarrow> instant \<Rightarrow> string \<Rightarrow> job_row store_op" where
  "start_attempt m_lease m_budget m_race job_id token worker_id now attempt_id s =
     (case List.find (owned job_id token CLAIMED now) (s_jobs s) of
        None \<Rightarrow> (Inl (OperationalError m_lease), s)
      | Some row \<Rightarrow>
          (let attempt_no = j_attempt_count row + 1
           in if j_max_attempts row < attempt_no then (Inl (OperationalError m_budget), s)
              else bind_op (update_jobs (owned job_id token CLAIMED now)
                (\<lambda>x. x\<lparr>j_state := RUNNING, j_attempt_count := attempt_no,
                   j_started_at := (case j_started_at x of None \<Rightarrow> Some now | Some t \<Rightarrow> Some t),
                   j_heartbeat_at := Some now\<rparr>))
                (\<lambda>changed. if changed \<noteq> 1 then raise_op (OperationalError m_race)
                   else bind_op (insert_attempt \<lparr>a_attempt_id = attempt_id, a_job_id = job_id,
                     a_attempt_no = attempt_no, a_status = A_RUNNING, a_worker_id = worker_id,
                     a_error = None, a_started_at = now, a_heartbeat_at = now,
                     a_completed_at = None\<rparr>) (\<lambda>_. return_op row)) s))"

definition start_run ::
  "claimed_job \<Rightarrow> string \<Rightarrow> instant \<Rightarrow> string \<Rightarrow> string \<Rightarrow> run_handle store_op" where
  "start_run claim worker_id now attempt_id run_id =
     (case (cj_datasource_id claim, cj_definition_version claim, cj_lane claim) of
        (Some ds, Some v, Some lane) \<Rightarrow>
          transaction (bind_op (start_attempt ''job lease is no longer valid''
            ''job has exhausted its attempt budget'' ''job lease expired before run start''
            (cj_job_id claim) (cj_claim_token claim) worker_id now attempt_id) (\<lambda>row.
            case j_definition_hash row of
              None \<Rightarrow> raise_op (IntegrityError ''ingestion_run'')
            | Some h \<Rightarrow>
                bind_op (insert_run \<lparr>r_run_id = run_id, r_attempt_id = attempt_id,
                  r_job_id = cj_job_id claim, r_datasource_id = ds, r_definition_version = v,
                  r_definition_hash = h, r_lane = lane, r_trigger = j_trigger row,
                  r_retrieved_at = None, r_record_count = 0, r_accepted_record_count = 0,
                  r_rejected_record_count = 0, r_snapshot_complete = False, r_snapshot_scope = None,
                  r_snapshot_scope_hash = None, r_status = A_RUNNING, r_created_at = now,
                  r_completed_at = None\<rparr>) (\<lambda>_.
                return_op \<lparr>rh_run_id = run_id, rh_attempt_id = attempt_id,
                  rh_job_id = cj_job_id claim, rh_claim_token = cj_claim_token claim,
                  rh_datasource_id = ds, rh_definition_version = v, rh_lane = lane\<rparr>)))
      | _ \<Rightarrow> raise_op (OperationalError ''system jobs do not create ingestion runs''))"

definition start_system_job ::
  "claimed_job \<Rightarrow> string \<Rightarrow> instant \<Rightarrow> string \<Rightarrow> system_job_handle store_op" where
  "start_system_job claim worker_id now attempt_id =
     (if cj_datasource_id claim \<noteq> None \<or> cj_job_kind claim \<noteq> ''projection_delivery''
      then raise_op (OperationalError ''unsupported system job'')
      else if worker_id = [] then raise_op (OperationalError ''worker_id is required'')
      else transaction (bind_op (start_attempt ''system job lease is no longer valid''
        ''system job exhausted its attempt budget'' ''system job lease expired before start''
        (cj_job_id claim) (cj_claim_token claim) worker_id now attempt_id) (\<lambda>_.
        return_op \<lparr>sh_attempt_id = attempt_id, sh_job_id = cj_job_id claim,
          sh_claim_token = cj_claim_token claim, sh_job_kind = cj_job_kind claim\<rparr>)))"

text \<open>The job UPDATE of both finish methods; \<open>terminal\<close> is the state list of its CASE.\<close>

definition finish_update ::
  "job_state set \<Rightarrow> job_state \<Rightarrow> instant \<Rightarrow> instant \<Rightarrow> json option \<Rightarrow> job_row \<Rightarrow> job_row" where
  "finish_update terminal st now available_at err x =
     x\<lparr>j_state := st, j_completed_at := (if st \<in> terminal then Some now else None),
       j_available_at := (if st = RETRY_WAIT then available_at else j_available_at x),
       j_claim_token := None, j_claimed_by := None, j_claimed_at := None, j_lease_expires_at := None,
       j_heartbeat_at := Some now, j_last_error := err\<rparr>"

definition close_attempt :: "string \<Rightarrow> attempt_status \<Rightarrow> instant \<Rightarrow> json option \<Rightarrow> nat store_op" where
  "close_attempt attempt_id status now err =
     update_attempts (\<lambda>a. a_attempt_id a = attempt_id \<and> a_status a = A_RUNNING)
       (\<lambda>a. a\<lparr>a_status := status, a_completed_at := Some now, a_heartbeat_at := now, a_error := err\<rparr>)"

text \<open>\<open>_json(error) if error else None\<close>: an empty mapping counts as no error.\<close>

definition error_column :: "(string \<times> json) list \<Rightarrow> json option" where
  "error_column err = (if err = [] then None else Some (JObj err))"

definition finish_system_job ::
  "system_job_handle \<Rightarrow> attempt_status \<Rightarrow> (string \<times> json) list \<Rightarrow> instant \<Rightarrow> unit store_op" where
  "finish_system_job h status err now =
     (if status \<notin> {A_SUCCEEDED, A_FAILED, A_CANCELLED}
      then raise_op (OperationalError ''invalid system job terminal status'')
      else transaction (\<lambda>s.
        case List.find (owned (sh_job_id h) (sh_claim_token h) RUNNING now) (s_jobs s) of
          None \<Rightarrow> (Inl (OperationalError ''system job is not owned by an active claim''), s)
        | Some job \<Rightarrow>
            (let st = (if status = A_SUCCEEDED then SUCCEEDED
                   else if status = A_CANCELLED then CANCELLED
                   else if j_attempt_count job < j_max_attempts job then RETRY_WAIT
                   else DEAD_LETTER);
                 available_at = retry_timestamp now (JObj []) (j_attempt_count job)
             in bind_op (close_attempt (sh_attempt_id h) status now (error_column err)) (\<lambda>_.
                bind_op (update_jobs
                  (\<lambda>x. j_job_id x = sh_job_id h \<and> j_claim_token x = Some (sh_claim_token h) \<and>
                     j_state x = RUNNING)
                  (finish_update {SUCCEEDED, CANCELLED, DEAD_LETTER} st now available_at
                     (error_column err))) (\<lambda>_.
                return_op ())) s)))"

definition heartbeat :: "run_handle \<Rightarrow> instant \<Rightarrow> int \<Rightarrow> unit store_op" where
  "heartbeat run now lease =
     (case lease_seconds lease of
        Inl e \<Rightarrow> raise_op e
      | Inr n \<Rightarrow>
          transaction (bind_op (update_jobs (owned (rh_job_id run) (rh_claim_token run) RUNNING now)
            (\<lambda>x. x\<lparr>j_heartbeat_at := Some now, j_lease_expires_at := Some (now + seconds n)\<rparr>))
            (\<lambda>changed. if changed \<noteq> 1
               then raise_op (OperationalError ''run is not owned by an active claim'')
               else bind_op (update_attempts
                 (\<lambda>a. a_attempt_id a = rh_attempt_id run \<and> a_status a = A_RUNNING)
                 (\<lambda>a. a\<lparr>a_heartbeat_at := now\<rparr>)) (\<lambda>_. return_op ()))))"

text \<open>The join of job, definition and running attempt; it also yields the retry policy.\<close>

definition require_running_run ::
  "run_handle \<Rightarrow> instant \<Rightarrow> store \<Rightarrow> store_error + (job_row \<times> json)" where
  "require_running_run run now s =
     (case List.find (owned (rh_job_id run) (rh_claim_token run) RUNNING now) (s_jobs s) of
        None \<Rightarrow> Inl (OperationalError ''run is not owned by an active claim'')
      | Some job \<Rightarrow>
          (case (j_datasource_id job, j_definition_version job) of
             (Some i, Some v) \<Rightarrow>
               (case lookup_by dr_key (i, v) (s_definitions s) of
                  None \<Rightarrow> Inl (OperationalError ''run is not owned by an active claim'')
                | Some d \<Rightarrow>
                    if list_ex (\<lambda>a. a_attempt_id a = rh_attempt_id run \<and> a_job_id a = j_job_id job \<and>
                         a_status a = A_RUNNING) (s_attempts s)
                    then Inr (job, dd_retry_policy (dr_definition d))
                    else Inl (OperationalError ''run is not owned by an active claim''))
           | _ \<Rightarrow> Inl (OperationalError ''run is not owned by an active claim'')))"

definition next_promotion_seq :: "store \<Rightarrow> int" where
  "next_promotion_seq s = Max (insert 0 (set (map p_promotion_seq (s_promotions s)))) + 1"

definition insert_promotion :: "string \<Rightarrow> string \<Rightarrow> instant \<Rightarrow> unit store_op" where
  "insert_promotion promotion_id run_id now s =
     insert_promotion_row \<lparr>p_promotion_id = promotion_id, p_promotion_seq = next_promotion_seq s,
       p_run_id = run_id, p_decision = ''approved'', p_approval_mode = ''automatic'',
       p_decision_at = now, p_actor_type = ''service'', p_actor_id = ''daemon'',
       p_policy_version = ''v1'', p_reason = None, p_details = JObj []\<rparr> s"

definition finish_job_state :: "attempt_status \<Rightarrow> bool \<Rightarrow> job_row \<Rightarrow> job_state" where
  "finish_job_state status retryable job =
     (if status = A_SUCCEEDED then SUCCEEDED
      else if status = A_EMPTY then EMPTY
      else if retryable \<and> j_attempt_count job < j_max_attempts job then RETRY_WAIT
      else if retryable then DEAD_LETTER
      else if status \<noteq> A_CANCELLED then FAILED else CANCELLED)"

definition promote_finished :: "definition_descriptor \<Rightarrow> run_handle \<Rightarrow> instant \<Rightarrow> string \<Rightarrow> unit store_op" where
  "promote_finished d run now promotion_id s =
     (if dd_snapshot_mode d = ''full_snapshot'' \<and>
         (case lookup_by r_run_id (rh_run_id run) (s_runs s) of
            None \<Rightarrow> True | Some r \<Rightarrow> \<not> r_snapshot_complete r)
      then (Inl (OperationalError ''full snapshot must be finalized before promotion''), s)
      else insert_promotion promotion_id (rh_run_id run) now s)"

definition finish_run ::
  "env \<Rightarrow> run_handle \<Rightarrow> attempt_status \<Rightarrow> bool \<Rightarrow> instant option \<Rightarrow> (string \<times> json) list \<Rightarrow> bool \<Rightarrow>
   instant \<Rightarrow> string \<Rightarrow> unit store_op" where
  "finish_run env run status retryable retry_at err promote now promotion_id =
     (if status = A_RUNNING then raise_op (OperationalError ''invalid terminal attempt status'')
      else if retry_at \<noteq> None \<and> \<not> retryable
      then raise_op (OperationalError ''retry_at requires a retryable run'')
      else case registry_lookup (en_registry env) (rh_datasource_id run) (Some (rh_definition_version run)) of
        Inl e \<Rightarrow> raise_op e
      | Inr d \<Rightarrow>
          if promote \<and> (status \<noteq> A_SUCCEEDED \<or> rh_lane run \<noteq> ''production_ingestion'')
          then raise_op (OperationalError ''only successful production runs can be promoted'')
          else if promote \<and> dd_promotion_policy d \<noteq> ''automatic''
          then raise_op (OperationalError ''definition requires an approved manual review'')
          else transaction (\<lambda>s.
            case require_running_run run now s of
              Inl e \<Rightarrow> (Inl e, s)
            | Inr (job, policy) \<Rightarrow>
                (let st = finish_job_state status retryable job;
                     normal = retry_timestamp now policy (j_attempt_count job);
                     available_at = (case retry_at of None \<Rightarrow> normal | Some t \<Rightarrow> max normal t)
                 in bind_op (close_attempt (rh_attempt_id run) status now (error_column err)) (\<lambda>_.
                    bind_op (update_runs (\<lambda>r. r_run_id r = rh_run_id run)
                      (\<lambda>r. r\<lparr>r_status := status, r_completed_at := Some now, r_retrieved_at := Some now\<rparr>)) (\<lambda>_.
                    bind_op (update_jobs
                      (\<lambda>x. j_job_id x = rh_job_id run \<and> j_claim_token x = Some (rh_claim_token run) \<and>
                         j_state x = RUNNING)
                      (finish_update terminal_job_states st now available_at (error_column err))) (\<lambda>_.
                    if promote then promote_finished d run now promotion_id else return_op ()))) s)))"

section \<open>Operator actions\<close>

definition cancel :: "string \<Rightarrow> string \<Rightarrow> instant \<Rightarrow> string \<Rightarrow> bool store_op" where
  "cancel job_id actor_id now audit_id =
     transaction (bind_op (update_jobs
       (\<lambda>x. j_job_id x = job_id \<and> j_state x \<in> {QUEUED, RETRY_WAIT, CLAIMED})
       (\<lambda>x. x\<lparr>j_state := CANCELLED, j_completed_at := Some now, j_cancel_requested_at := Some now,
          j_cancel_requested_by := Some actor_id\<rparr>))
       (\<lambda>changed. if changed \<noteq> 0
          then bind_op (audit audit_id ''operator'' actor_id ''job_cancelled'' ''workflow_job'' job_id
            (JObj []) now) (\<lambda>_. return_op True)
          else return_op False))"

definition retry :: "env \<Rightarrow> instant \<Rightarrow> enqueue_ids \<Rightarrow> string \<Rightarrow> string \<Rightarrow> enqueue_result store_op" where
  "retry env clock ids retry_id job_id s =
     (case lookup_by j_job_id job_id (s_jobs s) of
        None \<Rightarrow> (Inl (OperationalError ''unknown job''), s)
      | Some row \<Rightarrow>
          if j_state row \<notin> {FAILED, DEAD_LETTER, CANCELLED}
          then (Inl (OperationalError
            ''only terminal failed, dead-letter, or cancelled jobs can retry''), s)
          else if \<not> truthy (j_datasource_id row) \<or> \<not> truthy (j_lane row)
          then (Inl (OperationalError ''system job retry is not supported by this API''), s)
          else enqueue env clock ids ((enqueue_defaults (the (j_datasource_id row)))\<lparr>
            ea_definition_version := j_definition_version row,
            ea_request := (case j_request row of JObj kvs \<Rightarrow> Some kvs | _ \<Rightarrow> None),
            ea_trigger := ''manual'', ea_lane := j_lane row, ea_request_instance_id := Some retry_id,
            ea_parent_job_id := Some job_id, ea_generation := j_generation row + 1,
            ea_job_kind := Some (j_job_kind row), ea_window_start := j_window_start row,
            ea_window_end := j_window_end row\<rparr>) s)"

end
