(* ===== verification/JobStoreInv.thy ===== *)
theory JobStoreInv
  imports JobStore
begin

text \<open>
  The invariant of the job tables of \<open>OperationalStore\<close> and what it takes for a write to keep
  it and moves each job along the lease protocol of \<open>LeaseSpec\<close>; the theory \<open>JobStoreOps\<close> applies
  it to each method.

  A job row is \<^emph>\<open>active\<close> while it is claimed or running. Only then do its lease columns count:
  \<open>cancel\<close> leaves the columns of a claimed job as they were.
\<close>

section \<open>Reading the tables\<close>

definition find_job :: "store \<Rightarrow> string \<Rightarrow> job_row option" where
  "find_job s i = lookup_by j_job_id i (s_jobs s)"

text \<open>The attempts of a job in the order they were started: number and status.\<close>

definition attempts_of :: "store \<Rightarrow> string \<Rightarrow> (int \<times> attempt_status) list" where
  "attempts_of s i =
     map (\<lambda>a. (a_attempt_no a, a_status a)) (filter (\<lambda>a. a_job_id a = i) (s_attempts s))"

definition row_active :: "job_row \<Rightarrow> bool" where
  "row_active r \<longleftrightarrow> j_state r \<in> {CLAIMED, RUNNING}"

definition row_lease :: "job_row \<Rightarrow> lease" where
  "row_lease r = \<lparr>ls_state = j_state r, ls_token = (if row_active r then j_claim_token r else None),
     ls_expires = (if row_active r then j_lease_expires_at r else None),
     ls_attempts = j_attempt_count r, ls_max = j_max_attempts r, ls_available = j_available_at r\<rparr>"

lemma row_lease_simps [simp]:
  "ls_state (row_lease r) = j_state r" "ls_attempts (row_lease r) = j_attempt_count r"
  "ls_max (row_lease r) = j_max_attempts r" "ls_available (row_lease r) = j_available_at r"
  by (simp_all add: row_lease_def)

text \<open>
  The attempts of a job: numbered from 1, the last one running exactly when the job is, all
  others closed.
\<close>

definition row_attempts_ok :: "job_row \<Rightarrow> (int \<times> attempt_status) list \<Rightarrow> bool" where
  "row_attempts_ok r as \<longleftrightarrow> map fst as = [1..j_attempt_count r] \<and>
     (\<forall>a \<in> set (butlast as). snd a \<noteq> A_RUNNING) \<and>
     (as \<noteq> [] \<and> snd (last as) = A_RUNNING \<longleftrightarrow> j_state r = RUNNING)"

lemma attempts_of_Nil: "attempts_of s i = [] \<longleftrightarrow> (\<forall>a \<in> set (s_attempts s). a_job_id a \<noteq> i)"
  by (auto simp: attempts_of_def filter_empty_conv)

definition store_inv :: "store \<Rightarrow> bool" where
  "store_inv s \<longleftrightarrow> distinct (map j_job_id (s_jobs s)) \<and> distinct (map j_dedupe_key (s_jobs s)) \<and>
     distinct (map a_attempt_id (s_attempts s)) \<and>
     (\<forall>i r. find_job s i = Some r \<longrightarrow> lease_ok (row_lease r) \<and> row_attempts_ok r (attempts_of s i)) \<and>
     (\<forall>a \<in> set (s_attempts s). find_job s (a_job_id a) \<noteq> None)"

lemma store_inv_empty: "store_inv empty_store"
  by (simp add: store_inv_def empty_store_def find_job_def)

lemma store_invD:
  assumes "store_inv s" and "find_job s i = Some r"
  shows "lease_ok (row_lease r)" and "row_attempts_ok r (attempts_of s i)" and "j_job_id r = i"
  using assms by (auto simp: store_inv_def find_job_def dest: lookup_by_Some)

lemma find_job_mem:
  assumes "store_inv s" and "r \<in> set (s_jobs s)"
  shows "find_job s (j_job_id r) = Some r"
  using assms lookup_by_unique [of j_job_id "s_jobs s" r] by (simp add: store_inv_def find_job_def)

lemma find_owned:
  assumes "store_inv s" and "List.find (owned i t st now) (s_jobs s) = Some r"
  shows "find_job s i = Some r" and "owned i t st now r"
proof -
  have r: "r \<in> set (s_jobs s)" "owned i t st now r"
    using assms(2) by (auto simp: find_Some_iff)
  then show "owned i t st now r" and "find_job s i = Some r"
    using find_job_mem [OF assms(1) r(1)] by (auto simp: owned_def)
qed

lemma owned_holds: "owned i t st now r \<Longrightarrow> st \<in> {CLAIMED, RUNNING} \<Longrightarrow> holds_lease (row_lease r) t now"
  by (auto simp: owned_def holds_lease_def row_lease_def row_active_def sql_gt_iff)

text \<open>The columns no lifecycle operation writes.\<close>

definition same_row :: "job_row \<Rightarrow> job_row \<Rightarrow> bool" where
  "same_row r r' \<longleftrightarrow> j_job_id r' = j_job_id r \<and> j_dedupe_key r' = j_dedupe_key r \<and>
     j_job_kind r' = j_job_kind r \<and> j_datasource_id r' = j_datasource_id r \<and>
     j_definition_version r' = j_definition_version r \<and> j_definition_hash r' = j_definition_hash r \<and>
     j_lane r' = j_lane r \<and> j_trigger r' = j_trigger r \<and> j_scheduled_for r' = j_scheduled_for r \<and>
     j_priority r' = j_priority r \<and> j_request r' = j_request r \<and> j_max_attempts r' = j_max_attempts r \<and>
     j_request_instance_id r' = j_request_instance_id r"

lemma same_row_refl [simp]: "same_row r r"
  by (simp add: same_row_def)

lemma same_row_trans: "same_row a b \<Longrightarrow> same_row b c \<Longrightarrow> same_row a c"
  by (simp add: same_row_def)

definition store_follows :: "store \<Rightarrow> store \<Rightarrow> bool" where
  "store_follows s s' \<longleftrightarrow> (\<forall>i. case find_job s i of
      None \<Rightarrow> find_job s' i = None
    | Some r \<Rightarrow> (\<exists>r' evs. find_job s' i = Some r' \<and> same_row r r' \<and>
        lease_run (row_lease r) evs (row_lease r')))"

lemma store_follows_same: "s_jobs s' = s_jobs s \<Longrightarrow> store_follows s s'"
  by (auto simp: store_follows_def find_job_def split: option.splits)

lemma store_follows_trans:
  assumes "store_follows s s1" and "store_follows s1 s2"
  shows "store_follows s s2"
  unfolding store_follows_def
proof
  fix i
  note 1 = spec [OF assms(1) [unfolded store_follows_def], of i]
    and 2 = spec [OF assms(2) [unfolded store_follows_def], of i]
  show "case find_job s i of None \<Rightarrow> find_job s2 i = None
    | Some r \<Rightarrow> \<exists>r' evs. find_job s2 i = Some r' \<and> same_row r r' \<and> lease_run (row_lease r) evs (row_lease r')"
  proof (cases "find_job s i")
    case None
    then show ?thesis using 1 2 by simp
  next
    case (Some r)
    then obtain r1 evs1 where r1: "find_job s1 i = Some r1" "same_row r r1"
      "lease_run (row_lease r) evs1 (row_lease r1)" using 1 by auto
    then obtain r2 evs2 where "find_job s2 i = Some r2" "same_row r1 r2"
      "lease_run (row_lease r1) evs2 (row_lease r2)" using 2 by auto
    with r1 Some show ?thesis using same_row_trans lease_run_append by fastforce
  qed
qed

section \<open>One job at a time\<close>

text \<open>
  Every lifecycle write has this shape: the row of one job is replaced by a row of the same
  identity, and its attempts change with it.
\<close>

lemma store_step:
  assumes inv: "store_inv s" and r: "find_job s i = Some r"
    and jobs: "map j_job_id (s_jobs s') = map j_job_id (s_jobs s)"
      "map j_dedupe_key (s_jobs s') = map j_dedupe_key (s_jobs s)"
      "\<And>k. find_job s' k = (if k = i then Some r' else find_job s k)"
    and atts: "distinct (map a_attempt_id (s_attempts s'))"
      "\<And>k. k \<noteq> i \<Longrightarrow> attempts_of s' k = attempts_of s k"
    and step: "lease_step (row_lease r) ev (row_lease r')" and same: "same_row r r'"
    and ok: "row_attempts_ok r' (attempts_of s' i)"
  shows "store_inv s' \<and> store_follows s s'"
proof
  have "find_job s' (a_job_id a) \<noteq> None" if a: "a \<in> set (s_attempts s')" for a
  proof (cases "a_job_id a = i")
    case False
    then have "attempts_of s (a_job_id a) \<noteq> []"
      using a attempts_of_Nil [of s' "a_job_id a"] atts(2) [OF False] by auto
    then obtain b where "b \<in> set (s_attempts s)" "a_job_id b = a_job_id a"
      by (auto simp: attempts_of_Nil)
    then show ?thesis using inv jobs(3) False by (metis store_inv_def)
  qed (simp add: jobs(3))
  moreover have "lease_ok (row_lease x) \<and> row_attempts_ok x (attempts_of s' k)"
    if x: "find_job s' k = Some x" for k x
  proof (cases "k = i")
    case True
    then have "x = r'" using x jobs(3) by simp
    then show ?thesis using True ok lease_step_ok [OF step store_invD(1) [OF inv r]] by simp
  next
    case False
    then show ?thesis using x jobs(3) atts(2) store_invD [OF inv] by simp
  qed
  ultimately show "store_inv s'"
    using inv jobs(1,2) atts(1) by (simp add: store_inv_def)
  show "store_follows s s'"
    unfolding store_follows_def
  proof
    fix k
    show "case find_job s k of None \<Rightarrow> find_job s' k = None
      | Some r \<Rightarrow> \<exists>r' evs. find_job s' k = Some r' \<and> same_row r r' \<and> lease_run (row_lease r) evs (row_lease r')"
      using jobs(3) [of k] r same lease_run_step [OF step] by (cases "k = i") (auto split: option.splits)
  qed
qed

lemma find_job_update:
  assumes "store_inv s" and "find_job s i = Some r" and "P r" and "\<And>x. P x \<Longrightarrow> j_job_id x = i"
    and "\<And>x. P x \<Longrightarrow> j_job_id (f x) = j_job_id x"
  shows "lookup_by j_job_id k (update_where P f (s_jobs s)) = (if k = i then Some (f r) else find_job s k)"
proof -
  have eq: "lookup_by j_job_id k (update_where P f (s_jobs s)) =
      map_option (\<lambda>x. if P x then f x else x) (find_job s k)"
    unfolding find_job_def by (rule lookup_by_update_where) (use assms(5) in simp)
  show ?thesis
  proof (cases "find_job s k")
    case None
    then show ?thesis using eq assms(2) by (cases "k = i") simp_all
  next
    case (Some x)
    then have "j_job_id x = k" by (rule store_invD(3) [OF assms(1)])
    with assms(4) have "P x \<Longrightarrow> k = i" by auto
    then show ?thesis using eq Some assms(2,3) by (cases "k = i") auto
  qed
qed

lemma rowcount_one:
  assumes "store_inv s" and "find_job s i = Some r" and "P r" and "\<And>x. P x \<Longrightarrow> j_job_id x = i"
  shows "rowcount P (s_jobs s) = 1"
proof -
  have "P = (\<lambda>x. j_job_id x = i \<and> P x)" using assms(4) by auto
  then have "rowcount P (s_jobs s) = rowcount (\<lambda>x. j_job_id x = i \<and> P x) (s_jobs s)" by simp
  also have "\<dots> = 1"
    using rowcount_key [of j_job_id "s_jobs s" i P] assms(1-3) by (simp add: store_inv_def find_job_def)
  finally show ?thesis .
qed

section \<open>Moves of the store\<close>

lemma store_inv_cong:
  "s_jobs s' = s_jobs s \<Longrightarrow> s_attempts s' = s_attempts s \<Longrightarrow> store_inv s' = store_inv s"
  by (simp add: store_inv_def find_job_def attempts_of_def)

text \<open>A transaction that fails leaves the store; one that succeeds leaves what its body wrote.\<close>

lemma transaction_cases:
  obtains "snd (transaction body s) = s"
    | a where "body s = (Inr a, snd (transaction body s))"
proof (cases "body s")
  case (Pair res s1)
  show thesis
  proof (cases res)
    case (Inl e)
    then show thesis using that(1) Pair by (simp add: transaction_def)
  next
    case (Inr a)
    then show thesis using that(2) [of a] Pair by (simp add: transaction_def)
  qed
qed

definition moves :: "store \<Rightarrow> store \<Rightarrow> bool" where
  "moves s s' \<longleftrightarrow> store_inv s' \<and> store_follows s s'"

lemma moves_refl: "store_inv s \<Longrightarrow> moves s s"
  by (simp add: moves_def store_follows_same)

lemma moves_trans: "moves s s1 \<Longrightarrow> moves s1 s2 \<Longrightarrow> moves s s2"
  by (auto simp: moves_def intro: store_follows_trans)

lemma moves_same:
  "store_inv s \<Longrightarrow> s_jobs s' = s_jobs s \<Longrightarrow> s_attempts s' = s_attempts s \<Longrightarrow> moves s s'"
  using store_inv_cong [of s' s] by (simp add: moves_def store_follows_same)

lemma moves_transaction:
  assumes "store_inv s" and "\<And>a s'. body s = (Inr a, s') \<Longrightarrow> moves s s'"
  shows "moves s (snd (transaction body s))"
  by (rule transaction_cases [of body s]) (use assms moves_refl in auto)

text \<open>The write of one row and of the attempts of its job.\<close>

lemma moves_update:
  assumes inv: "store_inv s" and jobs: "s_jobs s' = update_where P f (s_jobs s)"
    and r: "find_job s i = Some r" and P: "P r" "\<And>x. P x \<Longrightarrow> j_job_id x = i"
    and same: "\<And>x. same_row x (f x)"
    and step: "lease_step (row_lease r) ev (row_lease (f r))"
    and atts: "distinct (map a_attempt_id (s_attempts s'))"
      "\<And>k. k \<noteq> i \<Longrightarrow> attempts_of s' k = attempts_of s k"
    and ok: "row_attempts_ok (f r) (attempts_of s' i)"
  shows "moves s s'"
  unfolding moves_def
proof (rule store_step [OF inv r _ _ _ atts step same ok])
  show "map j_job_id (s_jobs s') = map j_job_id (s_jobs s)"
    and "map j_dedupe_key (s_jobs s') = map j_dedupe_key (s_jobs s)"
    using same by (simp_all add: jobs update_where_keys same_row_def)
  show "find_job s' k = (if k = i then Some (f r) else find_job s k)" for k
    using find_job_update [of s i r P f k] inv r P same by (simp add: find_job_def jobs same_row_def)
qed

lemma moves_idle:
  assumes "store_inv s" and "s_jobs s' = update_where P f (s_jobs s)" and "\<forall>x \<in> set (s_jobs s). \<not> P x"
    and "s_attempts s' = s_attempts s"
  shows "moves s s'"
  using assms by (simp add: moves_same update_where_idle)

text \<open>Opening and closing the attempts of a job.\<close>

lemma row_attempts_keep:
  "row_attempts_ok r as \<Longrightarrow> j_attempt_count r' = j_attempt_count r \<Longrightarrow>
     (j_state r' = RUNNING \<longleftrightarrow> j_state r = RUNNING) \<Longrightarrow> row_attempts_ok r' as"
  by (simp add: row_attempts_ok_def)

lemma moves_row:
  assumes inv: "store_inv s" and jobs: "s_jobs s' = update_where P f (s_jobs s)"
    and r: "find_job s i = Some r" and P: "P r" "\<And>x. P x \<Longrightarrow> j_job_id x = i"
    and same: "\<And>x. same_row x (f x)"
    and step: "lease_step (row_lease r) ev (row_lease (f r))"
    and atts: "map a_attempt_id (s_attempts s') = map a_attempt_id (s_attempts s)"
      "\<And>k. attempts_of s' k = attempts_of s k"
    and keep: "j_attempt_count (f r) = j_attempt_count r" "j_state (f r) = RUNNING \<longleftrightarrow> j_state r = RUNNING"
  shows "moves s s'"
proof (rule moves_update [OF inv jobs r P same step])
  show "distinct (map a_attempt_id (s_attempts s'))" using inv by (simp add: atts(1) store_inv_def)
  show "row_attempts_ok (f r) (attempts_of s' i)"
    unfolding atts(2) by (rule row_attempts_keep [OF store_invD(2) [OF inv r] keep])
qed (use atts(2) in auto)

lemma row_attempts_open:
  assumes "row_attempts_ok r as" and "j_state r \<noteq> RUNNING" and "0 \<le> j_attempt_count r"
    and "j_attempt_count r' = j_attempt_count r + 1" and "j_state r' = RUNNING"
  shows "row_attempts_ok r' (as @ [(j_attempt_count r + 1, A_RUNNING)])"
proof -
  have "snd a \<noteq> A_RUNNING" if "a \<in> set as" for a
    using that assms(1,2) by (cases as rule: rev_cases) (auto simp: row_attempts_ok_def)
  then show ?thesis
    using assms by (simp add: row_attempts_ok_def upto_rec2)
qed

lemma row_attempts_close:
  assumes "row_attempts_ok r as" and "j_state r = RUNNING" and "st \<noteq> A_RUNNING"
    and "j_attempt_count r' = j_attempt_count r" and "j_state r' \<noteq> RUNNING"
  shows "row_attempts_ok r' (butlast as @ [(fst (last as), st)])"
  using assms by (cases as rule: rev_cases) (auto simp: row_attempts_ok_def)

lemma attempts_of_close:
  assumes inv: "store_inv s" and r: "find_job s i = Some r"
    and a: "a \<in> set (s_attempts s)" "a_job_id a = i" "a_status a = A_RUNNING"
    and f: "\<And>x. a_job_id (f x) = a_job_id x" "\<And>x. a_attempt_no (f x) = a_attempt_no x"
      "\<And>x. a_status (f x) = st"
    and atts: "s_attempts s' =
      update_where (\<lambda>x. a_attempt_id x = a_attempt_id a \<and> a_status x = A_RUNNING) f (s_attempts s)"
  shows "attempts_of s' k = (if k = i then butlast (attempts_of s i) @ [(fst (last (attempts_of s i)), st)]
    else attempts_of s k)"
proof -
  let ?P = "\<lambda>x. a_attempt_id x = a_attempt_id a \<and> a_status x = A_RUNNING"
  let ?as = "\<lambda>k. filter (\<lambda>x. a_job_id x = k) (s_attempts s)"
  have uniq: "x = a" if "x \<in> set (s_attempts s)" "a_attempt_id x = a_attempt_id a" for x
    using inv that a(1) by (auto simp: store_inv_def inj_on_def distinct_map)
  have swap: "filter (\<lambda>x. a_job_id x = k) (update_where ?P f l) =
      update_where ?P f (filter (\<lambda>x. a_job_id x = k) l)" for l k
    by (induction l) (auto simp: update_where_def f)
  have of: "attempts_of s' k = map (\<lambda>a. (a_attempt_no a, a_status a)) (update_where ?P f (?as k))" for k
    unfolding attempts_of_def atts swap ..
  show ?thesis
  proof (cases "k = i")
    case False
    have "\<forall>x \<in> set (?as k). \<not> ?P x" using uniq a(2) False by auto
    then show ?thesis using False of by (simp add: update_where_idle attempts_of_def)
  next
    case True
    have "a \<in> set (?as i)" using a by simp
    then obtain xs b where xs: "?as i = xs @ [b]" by (cases "?as i" rule: rev_cases) auto
    have quiet: "\<forall>x \<in> set xs. a_status x \<noteq> A_RUNNING"
      using store_invD(2) [OF inv r] unfolding row_attempts_ok_def attempts_of_def xs by simp
    then have "a = b" using \<open>a \<in> set (?as i)\<close> a(3) unfolding xs by auto
    then have "update_where ?P f (?as i) = xs @ [f b]"
      using quiet a(3) unfolding xs by (simp add: update_where_def map_idI)
    then show ?thesis using True of xs by (simp add: attempts_of_def f)
  qed
qed

lemma attempts_close_ids:
  assumes "store_inv s" and "\<And>x. a_attempt_id (f x) = a_attempt_id x"
  shows "distinct (map a_attempt_id (update_where P f (s_attempts s)))"
  using assms by (simp add: update_where_keys store_inv_def)

end
