(* ===== verification/JobStoreOps.thy ===== *)
theory JobStoreOps
  imports JobStoreInv
begin

text \<open>
  Every job method of \<open>OperationalStore\<close> keeps \<open>store_inv\<close> and moves the jobs along the lease
  protocol: one lemma per method, then the interpretation of \<open>lease_system\<close> on the methods.
\<close>

section \<open>Retry delays\<close>

lemma retry_bounds_range: "retry_bounds policy = (b, m) \<Longrightarrow> 0 \<le> b \<and> b \<le> m"
  by (auto simp: retry_bounds_def Let_def split: if_splits option.splits)

lemma retry_timestamp_range:
  assumes "retry_bounds policy = (b, m)"
  shows "now + seconds b \<le> retry_timestamp now policy n" and "retry_timestamp now policy n \<le> now + seconds m"
proof -
  have "b \<le> b * 2 ^ k" for k :: nat
    using retry_bounds_range [OF assms] mult_left_mono [of 1 "2 ^ k" b] by simp
  then show "now + seconds b \<le> retry_timestamp now policy n" and "retry_timestamp now policy n \<le> now + seconds m"
    using retry_bounds_range [OF assms] assms
    by (simp_all add: retry_timestamp_def Let_def seconds_mono min_le_iff_disj)
qed

lemma retry_timestamp_later: "now \<le> retry_timestamp now policy n"
proof (cases "retry_bounds policy")
  case (Pair b m)
  have "now + seconds b \<le> retry_timestamp now policy n" by (rule retry_timestamp_range [OF Pair])
  moreover have "0 \<le> seconds b" using retry_bounds_range [OF Pair] by (simp add: seconds_def)
  ultimately show ?thesis by linarith
qed

section \<open>Claims\<close>

lemma row_lease_idle: "row_lease r = \<lparr>ls_state = j_state r, ls_token = None, ls_expires = None,
    ls_attempts = j_attempt_count r, ls_max = j_max_attempts r, ls_available = j_available_at r\<rparr>"
  if "\<not> row_active r"
  using that by (simp add: row_lease_def)

lemma row_lease_active: "row_lease r = \<lparr>ls_state = j_state r, ls_token = j_claim_token r,
    ls_expires = j_lease_expires_at r, ls_attempts = j_attempt_count r, ls_max = j_max_attempts r,
    ls_available = j_available_at r\<rparr>"
  if "row_active r"
  using that by (simp add: row_lease_def)

text \<open>A step of the protocol by the fields of its target.\<close>

lemma claim_stepI: "lease_step l (EvClaim now t e) l'"
  if "ls_state l \<in> {QUEUED, RETRY_WAIT}" "ls_available l \<le> now" "now < e"
    "l' = l\<lparr>ls_state := CLAIMED, ls_token := Some t, ls_expires := Some e\<rparr>"
  using lease_step.claim [of l now e t] that by simp

lemma claim_row_moves:
  assumes inv: "store_inv s" and r: "r \<in> set (s_jobs s)" "claimable now r" and e: "now < expires"
    and run: "claim_row r w now expires token s = (Inr x, s')"
  shows "moves s s'"
proof -
  let ?f = "\<lambda>x. x\<lparr>j_state := CLAIMED, j_claim_token := Some token, j_claimed_by := Some w,
           j_claimed_at := Some now, j_lease_expires_at := Some expires, j_heartbeat_at := Some now\<rparr>"
  have s': "s' = s\<lparr>s_jobs := update_where (\<lambda>x. j_job_id x = j_job_id r \<and> j_state x \<in> {QUEUED, RETRY_WAIT})
      ?f (s_jobs s)\<rparr>"
    using run by (auto simp: claim_row_def update_jobs_def bind_op_Inr return_op_def split: if_splits)
  then have jobs: "s_jobs s' = update_where (\<lambda>x. j_job_id x = j_job_id r \<and> j_state x \<in> {QUEUED, RETRY_WAIT})
      ?f (s_jobs s)" by simp
  have find: "find_job s (j_job_id r) = Some r" by (rule find_job_mem [OF inv r(1)])
  have st: "j_state r \<in> {QUEUED, RETRY_WAIT}" "j_available_at r \<le> now" using r(2) by (auto simp: claimable_def)
  then have step: "lease_step (row_lease r) (EvClaim now token expires) (row_lease (?f r))"
    using e by (intro claim_stepI) (auto simp: row_lease_def row_active_def)
  show ?thesis
    by (rule moves_row [OF inv jobs find _ _ _ step]) (use st in \<open>auto simp: s' attempts_of_def same_row_def\<close>)
qed

section \<open>Recovery\<close>

lemma recover_step:
  assumes "lease_ok (row_lease r)" and "expired_claim now r"
  shows "lease_step (row_lease r) (EvRecover now) (row_lease (recover_update now policy r r))"
proof -
  have act: "row_active r" "row_lease r = row_lease r" and lapsed: "lapsed (row_lease r) now"
    using assms(2) by (auto simp: expired_claim_def row_active_def lapsed_def row_lease_def sql_le_iff)
  consider "j_state r = CLAIMED" | "j_state r = RUNNING" "j_attempt_count r < j_max_attempts r"
    | "j_state r = RUNNING" "\<not> j_attempt_count r < j_max_attempts r"
    using act by (auto simp: row_active_def)
  then show ?thesis
  proof cases
    case 1
    then show ?thesis
      using lease_step.recover_claimed [OF _ lapsed]
      by (simp add: recover_update_def recovery_target_def row_lease_def row_active_def)
  next
    case 2
    then show ?thesis
      using lease_step.recover_retry [OF _ lapsed _ retry_timestamp_later]
      by (simp add: recover_update_def recovery_target_def row_lease_def row_active_def)
  next
    case 3
    then show ?thesis
      using lease_step.recover_dead [OF _ lapsed, of now]
      by (simp add: recover_update_def recovery_target_def row_lease_def row_active_def)
  qed
qed

lemma recover_update_state:
  "j_state (recover_update now policy r x) = fst (recovery_target now policy r)"
  "j_attempt_count (recover_update now policy r x) = j_attempt_count x"
  by (auto simp: recover_update_def split: prod.splits)

lemma recovery_target_not_running: "fst (recovery_target now policy r) \<notin> {CLAIMED, RUNNING}"
  by (simp add: recovery_target_def)

lemma running_attempt_exists:
  assumes "store_inv s" and "find_job s i = Some r" and "j_state r = RUNNING"
  obtains a where "running_attempt i s = Some a" "a \<in> set (s_attempts s)" "a_job_id a = i" "a_status a = A_RUNNING"
proof -
  have ok: "row_attempts_ok r (attempts_of s i)" by (rule store_invD(2) [OF assms(1,2)])
  then have last: "attempts_of s i \<noteq> []" "snd (last (attempts_of s i)) = A_RUNNING"
    using assms(3) by (auto simp: row_attempts_ok_def)
  then have "last (attempts_of s i) \<in> set (attempts_of s i)" by simp
  then obtain b where "b \<in> set (s_attempts s)" "a_job_id b = i" "a_status b = A_RUNNING"
    using last(2) by (auto simp: attempts_of_def)
  then obtain a where a: "running_attempt i s = Some a"
    by (cases "running_attempt i s") (auto simp: running_attempt_def filter_empty_conv)
  then show thesis using that [OF a] max_by_Some [OF a [unfolded running_attempt_def]] by auto
qed

lemma recover_row_moves:
  assumes inv: "store_inv s" and find: "find_job s (j_job_id r) = Some r" and ex: "expired_claim now r"
    and run: "recover_row now audit_id (policy, r) s = (Inr x, s')"
  shows "moves s s'"
    and "find_job s' k = (if k = j_job_id r then Some (recover_update now policy r r) else find_job s k)"
proof -
  let ?P = "\<lambda>x. j_job_id x = j_job_id r \<and> j_claim_token r \<noteq> None \<and> j_claim_token x = j_claim_token r"
  let ?f = "recover_update now policy r"
  let ?att = "(if j_state r = CLAIMED then return_op ()
      else fail_running_attempt now (lease_expired_error r) (j_job_id r)) s"
  note ok = store_invD(1) [OF inv find]
  have tok: "j_claim_token r \<noteq> None"
    using ok ex by (auto simp: lease_ok_def row_lease_def expired_claim_def row_active_def split: if_splits)
  obtain s1 where s1: "?att = (Inr (), s1)" "s_jobs s1 = s_jobs s"
    and s': "s_jobs s' = update_where ?P ?f (s_jobs s1)" "s_attempts s' = s_attempts s1"
    using run by (auto simp: recover_row_def bind_op_Inr update_jobs_def audit_def return_op_def
        fail_running_attempt_def split: if_splits option.splits)
  have jobs: "s_jobs s' = update_where ?P ?f (s_jobs s)" using s' s1 by simp
  have P: "?P r" "\<And>x. ?P x \<Longrightarrow> j_job_id x = j_job_id r" and same: "\<And>x. same_row x (?f x)"
    using tok by (auto simp: recover_update_def same_row_def split: prod.splits)
  note step = recover_step [OF ok ex, of policy]
  show "moves s s'"
  proof (cases "j_state r = CLAIMED")
    case True
    then have s1_eq: "s1 = s" using s1(1) by (simp add: return_op_def)
    show ?thesis
      by (rule moves_row [OF inv jobs find P same step])
        (use True s1_eq s' recovery_target_not_running [of now policy r]
          in \<open>auto simp: attempts_of_def recover_update_state\<close>)
  next
    case False
    then have run: "j_state r = RUNNING" using ex by (auto simp: expired_claim_def)
    let ?g = "\<lambda>x. x\<lparr>a_status := A_FAILED, a_completed_at := Some now, a_heartbeat_at := now,
                   a_error := Some (lease_expired_error r)\<rparr>"
    obtain a where a: "running_attempt (j_job_id r) s = Some a" "a \<in> set (s_attempts s)"
      "a_job_id a = j_job_id r" "a_status a = A_RUNNING"
      by (rule running_attempt_exists [OF inv find run])
    have atts: "s_attempts s' =
        update_where (\<lambda>x. a_attempt_id x = a_attempt_id a \<and> a_status x = A_RUNNING) ?g (s_attempts s)"
      using s1(1) False a(1) s'(2) by (auto simp: fail_running_attempt_def)
    have of: "attempts_of s' k = (if k = j_job_id r
        then butlast (attempts_of s (j_job_id r)) @ [(fst (last (attempts_of s (j_job_id r))), A_FAILED)]
        else attempts_of s k)" for k
      by (rule attempts_of_close [OF inv find a(2-4) _ _ _ atts]) simp_all
    show ?thesis
    proof (rule moves_update [OF inv jobs find P same step])
      show "distinct (map a_attempt_id (s_attempts s'))"
        unfolding atts by (rule attempts_close_ids [OF inv]) simp
      show "row_attempts_ok (?f r) (attempts_of s' (j_job_id r))"
        using row_attempts_close [OF store_invD(2) [OF inv find] run, of A_FAILED "?f r"] of
          recovery_target_not_running [of now policy r]
        by (simp add: recover_update_state)
    qed (use of in auto)
  qed
  show "find_job s' k = (if k = j_job_id r then Some (?f r) else find_job s k)"
    using find_job_update [of s "j_job_id r" r ?P ?f k] inv find P same jobs
    by (simp add: find_job_def same_row_def)
qed

lemma recover_rows_moves:
  assumes "store_inv s" and "distinct (map (j_job_id \<circ> snd) prs)"
    and "\<forall>(p, r) \<in> set prs. find_job s (j_job_id r) = Some r \<and> expired_claim now r"
    and "each_op (recover_row now audit_id) prs s = (Inr out, s')"
  shows "moves s s' \<and> (\<forall>k. find_job s' k =
    (case lookup_by (j_job_id \<circ> snd) k prs of None \<Rightarrow> find_job s k
     | Some (p, r) \<Rightarrow> Some (recover_update now p r r)))"
  using assms
proof (induction prs arbitrary: s out)
  case Nil
  then show ?case by (auto intro: moves_refl)
next
  case (Cons pr prs)
  obtain p r where pr: "pr = (p, r)" by (cases pr)
  obtain x s1 out' where x: "recover_row now audit_id (p, r) s = (Inr x, s1)"
    and rest: "each_op (recover_row now audit_id) prs s1 = (Inr out', s')"
    using Cons.prems(4) unfolding pr by (auto split: prod.splits sum.splits)
  have r: "find_job s (j_job_id r) = Some r" "expired_claim now r" using Cons.prems(3) pr by auto
  note mv = recover_row_moves(1) [OF Cons.prems(1) r x]
    and fj = recover_row_moves(2) [OF Cons.prems(1) r x]
  have new: "lookup_by (j_job_id \<circ> snd) (j_job_id r) prs = None"
    using Cons.prems(2) pr by (auto simp: lookup_by_None_iff)
  have "store_inv s1" using mv by (simp add: moves_def)
  moreover have "\<forall>(p, q) \<in> set prs. find_job s1 (j_job_id q) = Some q \<and> expired_claim now q"
  proof clarify
    fix p q
    assume q: "(p, q) \<in> set prs"
    then have "j_job_id q \<noteq> j_job_id r" using new by (force simp: lookup_by_None_iff)
    moreover have "find_job s (j_job_id q) = Some q \<and> expired_claim now q" using Cons.prems(3) q by auto
    ultimately show "find_job s1 (j_job_id q) = Some q \<and> expired_claim now q" using fj [of "j_job_id q"] by simp
  qed
  moreover have "distinct (map (j_job_id \<circ> snd) prs)" using Cons.prems(2) by (simp add: comp_def)
  ultimately have ih: "moves s1 s'" "\<And>k. find_job s' k =
      (case lookup_by (j_job_id \<circ> snd) k prs of None \<Rightarrow> find_job s1 k
       | Some (p, r) \<Rightarrow> Some (recover_update now p r r))"
    using Cons.IH [OF _ _ _ rest] by blast+
  have "find_job s' k = (case lookup_by (j_job_id \<circ> snd) k (pr # prs) of None \<Rightarrow> find_job s k
       | Some (p, r) \<Rightarrow> Some (recover_update now p r r))" for k
    unfolding ih(2) fj pr using new by (cases "k = j_job_id r") simp_all
  with moves_trans [OF mv ih(1)] show ?case by blast
qed

text \<open>What a recovery that commits does to each job.\<close>

lemma recover_expired_moves:
  assumes inv: "store_inv s" and run: "recover_expired now audit_id s = (res, s')"
  shows "moves s s'"
    and "res = Inr out \<Longrightarrow> find_job s' k = (case find_job s k of None \<Rightarrow> None | Some r \<Rightarrow>
      Some (if expired_claim now r then recover_update now (job_retry_policy s r) r r else r))"
proof -
  let ?prs = "map (\<lambda>r. (job_retry_policy s r, r)) (filter (expired_claim now) (s_jobs s))"
  have d: "distinct (map j_job_id (s_jobs s))" using inv by (simp add: store_inv_def)
  then have dist: "distinct (map (j_job_id \<circ> snd) ?prs)"
    by (simp add: comp_def distinct_map inj_on_def)
  have mem: "\<forall>(p, r) \<in> set ?prs. find_job s (j_job_id r) = Some r \<and> expired_claim now r"
    using find_job_mem [OF inv] by auto
  have ok: "moves s s1 \<and> (\<forall>k. find_job s1 k =
      (case lookup_by (j_job_id \<circ> snd) k ?prs of None \<Rightarrow> find_job s k
       | Some (p, r) \<Rightarrow> Some (recover_update now p r r)))"
    if "each_op (recover_row now audit_id) ?prs s = (Inr out, s1)" for out s1
    by (rule recover_rows_moves [OF inv dist mem that])
  have s': "s' = snd (recover_expired now audit_id s)" using run by simp
  show "moves s s'"
    unfolding s' recover_expired_def by (rule moves_transaction [OF inv]) (use ok in blast)
  assume "res = Inr out"
  then have "each_op (recover_row now audit_id) ?prs s = (Inr out, s')"
    using run by (simp add: recover_expired_def transaction_Inr)
  then have fj: "find_job s' k = (case lookup_by (j_job_id \<circ> snd) k ?prs of None \<Rightarrow> find_job s k
       | Some (p, r) \<Rightarrow> Some (recover_update now p r r))" using ok by blast
  show "find_job s' k = (case find_job s k of None \<Rightarrow> None | Some r \<Rightarrow>
      Some (if expired_claim now r then recover_update now (job_retry_policy s r) r r else r))"
  proof (cases "find_job s k")
    case None
    then have "lookup_by (j_job_id \<circ> snd) k ?prs = None"
      by (auto simp: find_job_def lookup_by_None_iff)
    then show ?thesis using fj None by simp
  next
    case (Some r)
    then have r: "r \<in> set (s_jobs s)" "j_job_id r = k" by (auto simp: find_job_def dest: lookup_by_Some)
    show ?thesis
    proof (cases "expired_claim now r")
      case True
      then have "lookup_by (j_job_id \<circ> snd) k ?prs = Some (job_retry_policy s r, r)"
        using lookup_by_unique [OF dist, of "(job_retry_policy s r, r)"] r by auto
      then show ?thesis using fj Some True by simp
    next
      case False
      have "j_job_id x \<noteq> k" if "x \<in> set (s_jobs s)" "expired_claim now x" for x
        using lookup_by_unique [OF d that(1)] Some that(2) False by (auto simp: find_job_def)
      then have "lookup_by (j_job_id \<circ> snd) k ?prs = None"
        by (force simp: lookup_by_None_iff)
      then show ?thesis using fj Some False by simp
    qed
  qed
qed

section \<open>Claiming and starting\<close>

lemma lease_seconds_pos: "lease_seconds n = Inr m \<Longrightarrow> 0 < seconds m"
  by (auto simp: lease_seconds_def seconds_def split: if_splits)

lemma claim_with_moves:
  assumes inv: "store_inv s" and sel: "\<And>rows r. sel rows = Some r \<Longrightarrow> r \<in> set rows \<and> claimable now r"
  shows "moves s (snd (claim_with sel w now lease audit_id token s))"
proof -
  obtain res s1 where rec: "recover_expired now audit_id s = (res, s1)" by (cases "recover_expired now audit_id s")
  have mv: "moves s s1" by (rule recover_expired_moves(1) [OF inv rec])
  then have inv1: "store_inv s1" by (simp add: moves_def)
  show ?thesis
  proof (cases res)
    case (Inl e)
    then show ?thesis using rec mv by (simp add: claim_with_def bind_op_def)
  next
    case (Inr ids)
    let ?body = "\<lambda>n s. case sel (s_jobs s) of None \<Rightarrow> (Inr None, s)
           | Some row \<Rightarrow> claim_row row w now (now + seconds n) token s"
    have "moves s1 (snd (transaction (?body n) s1))" if n: "lease_seconds lease = Inr n" for n
    proof (rule moves_transaction [OF inv1])
      fix a s2
      assume run: "?body n s1 = (Inr a, s2)"
      show "moves s1 s2"
      proof (cases "sel (s_jobs s1)")
        case None
        then show ?thesis using run moves_refl [OF inv1] by simp
      next
        case (Some r)
        then show ?thesis
          using claim_row_moves [OF inv1, of r now "now + seconds n"] sel lease_seconds_pos [OF n] run by simp
      qed
    qed
    then have "moves s1 (snd (claim_with sel w now lease audit_id token s))"
      using rec Inr moves_refl [OF inv1]
      by (cases "lease_seconds lease") (simp_all add: claim_with_def bind_op_def raise_op_def)
    with mv show ?thesis by (rule moves_trans)
  qed
qed

lemma claim_next_moves: "store_inv s \<Longrightarrow> moves s (snd (claim_next w now lease audit_id token s))"
  unfolding claim_next_def by (rule claim_with_moves) (auto dest: min_by_Some)

lemma claim_job_moves: "store_inv s \<Longrightarrow> moves s (snd (claim_job i w now lease audit_id token s))"
  unfolding claim_job_def by (rule claim_with_moves) (auto simp: find_Some_iff)

lemma start_attempt_moves:
  assumes inv: "store_inv s" and run: "start_attempt m1 m2 m3 i t w now aid s = (Inr row, s')"
  shows "moves s s'" and "s_runs s' = s_runs s"
proof -
  let ?P = "owned i t CLAIMED now"
  have find: "List.find ?P (s_jobs s) = Some row" and lt: "j_attempt_count row < j_max_attempts row"
    using run by (auto simp: start_attempt_def Let_def bind_op_Inr raise_op_def return_op_def
        split: option.splits if_splits)
  let ?f = "\<lambda>x. x\<lparr>j_state := RUNNING, j_attempt_count := j_attempt_count row + 1,
                   j_started_at := (case j_started_at x of None \<Rightarrow> Some now | Some t \<Rightarrow> Some t),
                   j_heartbeat_at := Some now\<rparr>"
  let ?a = "\<lparr>a_attempt_id = aid, a_job_id = i, a_attempt_no = j_attempt_count row + 1, a_status = A_RUNNING,
      a_worker_id = w, a_error = None, a_started_at = now, a_heartbeat_at = now, a_completed_at = None\<rparr>"
  have jobs: "s_jobs s' = update_where ?P ?f (s_jobs s)"
    and atts: "s_attempts s' = s_attempts s @ [?a]" and new: "lookup_by a_attempt_id aid (s_attempts s) = None"
    and "s_runs s' = s_runs s"
    using run find by (auto simp: start_attempt_def Let_def bind_op_Inr raise_op_def return_op_def
        update_jobs_def insert_attempt_def split: option.splits if_splits)
  then show "s_runs s' = s_runs s" by simp
  note r = find_owned [OF inv find]
  have st: "j_state row = CLAIMED" using r(2) by (simp add: owned_def)
  have of: "attempts_of s' k = attempts_of s k @ (if k = i then [(j_attempt_count row + 1, A_RUNNING)] else [])" for k
    by (simp add: attempts_of_def atts)
  have "lease_step (row_lease row) (EvStart now t)
      ((row_lease row)\<lparr>ls_state := RUNNING, ls_attempts := ls_attempts (row_lease row) + 1\<rparr>)"
    using owned_holds [OF r(2)] st lt by (intro lease_step.start) auto
  then have step: "lease_step (row_lease row) (EvStart now t) (row_lease (?f row))"
    using st by (simp add: row_lease_def row_active_def)
  show "moves s s'"
  proof (rule moves_update [OF inv jobs r(1,2) _ _ step])
    show "distinct (map a_attempt_id (s_attempts s'))"
      using inv new by (auto simp: atts store_inv_def lookup_by_None_iff)
    show "row_attempts_ok (?f row) (attempts_of s' i)"
      using row_attempts_open [OF store_invD(2) [OF inv r(1)], of "?f row"] store_invD(1) [OF inv r(1)] st
      by (simp add: of lease_ok_def)
  qed (auto simp: of same_row_def owned_def)
qed

lemma moves_frame:
  assumes "moves s s1" and "s_jobs s2 = s_jobs s1" and "s_attempts s2 = s_attempts s1"
  shows "moves s s2"
  by (rule moves_trans [OF assms(1) moves_same [OF _ assms(2,3)]]) (use assms(1) in \<open>simp add: moves_def\<close>)

lemma start_run_moves:
  assumes inv: "store_inv s"
  shows "moves s (snd (start_run claim w now aid rid s))"
proof (cases "(cj_datasource_id claim, cj_definition_version claim, cj_lane claim)")
  case (fields ds v lane)
  show ?thesis
  proof (cases "\<exists>d k l. ds = Some d \<and> v = Some k \<and> lane = Some l")
    case False
    then have "snd (start_run claim w now aid rid s) = s"
      using fields by (auto simp: start_run_def raise_op_def split: option.splits)
    then show ?thesis using moves_refl [OF inv] by simp
  next
    case True
    then obtain d k l where dkl: "ds = Some d" "v = Some k" "lane = Some l" by auto
    show ?thesis
      unfolding start_run_def fields dkl prod.case option.case
    proof (rule moves_transaction [OF inv], goal_cases)
      case (1 a s')
      then obtain row s1 where row: "start_attempt ''job lease is no longer valid''
          ''job has exhausted its attempt budget'' ''job lease expired before run start''
          (cj_job_id claim) (cj_claim_token claim) w now aid s = (Inr row, s1)"
        and "s_jobs s' = s_jobs s1" "s_attempts s' = s_attempts s1"
        by (auto simp: bind_op_Inr raise_op_def return_op_def insert_run_def split: option.splits if_splits)
      then show ?case using moves_frame [OF start_attempt_moves(1) [OF inv row]] by blast
    qed
  qed
qed

lemma start_system_job_moves:
  assumes inv: "store_inv s"
  shows "moves s (snd (start_system_job claim w now aid s))"
proof -
  let ?go = "transaction (bind_op (start_attempt ''system job lease is no longer valid''
        ''system job exhausted its attempt budget'' ''system job lease expired before start''
        (cj_job_id claim) (cj_claim_token claim) w now aid) (\<lambda>_.
        return_op \<lparr>sh_attempt_id = aid, sh_job_id = cj_job_id claim,
          sh_claim_token = cj_claim_token claim, sh_job_kind = cj_job_kind claim\<rparr>))"
  have "moves s (snd (?go s))"
    by (rule moves_transaction [OF inv])
      (auto simp: bind_op_Inr return_op_def intro: start_attempt_moves(1) [OF inv])
  then show ?thesis using moves_refl [OF inv] unfolding start_system_job_def by (auto simp: raise_op_def)
qed

section \<open>Heartbeat, finish and cancel\<close>

lemma rowcount_pos: "0 < rowcount P rows \<Longrightarrow> \<exists>r \<in> set rows. P r"
  by (auto simp: rowcount_def filter_empty_conv)

lemma heartbeat_moves:
  assumes inv: "store_inv s"
  shows "moves s (snd (heartbeat run now lease s))"
proof (cases "lease_seconds lease")
  case (Inl e)
  then show ?thesis using moves_refl [OF inv] by (simp add: heartbeat_def raise_op_def)
next
  case (Inr n)
  let ?P = "owned (rh_job_id run) (rh_claim_token run) RUNNING now"
  let ?f = "\<lambda>x. x\<lparr>j_heartbeat_at := Some now, j_lease_expires_at := Some (now + seconds n)\<rparr>"
  show ?thesis
    unfolding heartbeat_def Inr sum.case
  proof (rule moves_transaction [OF inv], goal_cases)
    case (1 a s')
    let ?Q = "\<lambda>a. a_attempt_id a = rh_attempt_id run \<and> a_status a = A_RUNNING"
    from 1 have count: "rowcount ?P (s_jobs s) = 1" and jobs: "s_jobs s' = update_where ?P ?f (s_jobs s)"
      and atts: "s_attempts s' = update_where ?Q (\<lambda>a. a\<lparr>a_heartbeat_at := now\<rparr>) (s_attempts s)"
      by (auto simp: bind_op_Inr update_jobs_def update_attempts_def raise_op_def return_op_def split: if_splits)
    from count obtain r where r: "r \<in> set (s_jobs s)" "?P r"
      using rowcount_pos [of ?P "s_jobs s"] by auto
    then have find: "find_job s (rh_job_id run) = Some r"
      using find_job_mem [OF inv r(1)] by (simp add: owned_def)
    have "lease_step (row_lease r) (EvHeartbeat now (rh_claim_token run) (now + seconds n))
        ((row_lease r)\<lparr>ls_expires := Some (now + seconds n)\<rparr>)"
      using owned_holds [OF r(2)] r(2) lease_seconds_pos [OF Inr]
      by (intro lease_step.heartbeat) (auto simp: owned_def)
    then have step: "lease_step (row_lease r) (EvHeartbeat now (rh_claim_token run) (now + seconds n)) (row_lease (?f r))"
      using r(2) by (simp add: row_lease_def row_active_def owned_def)
    have of: "attempts_of s' k = attempts_of s k" for k
    proof -
      have "map (\<lambda>a. (a_attempt_no a, a_status a)) (filter (\<lambda>a. a_job_id a = k)
          (update_where ?Q (\<lambda>a. a\<lparr>a_heartbeat_at := now\<rparr>) l)) =
        map (\<lambda>a. (a_attempt_no a, a_status a)) (filter (\<lambda>a. a_job_id a = k) l)" for l
        by (induction l) (auto simp: update_where_def)
      then show ?thesis by (simp add: attempts_of_def atts)
    qed
    show ?case
      by (rule moves_row [OF inv jobs find r(2) _ _ step])
        (auto simp: of same_row_def owned_def atts update_where_keys)
  qed
qed

text \<open>
  Both finish methods close the job's running attempt and move the job, under the claim's token.
\<close>

lemma finish_moves:
  assumes inv: "store_inv s" and find: "find_job s i = Some r" and own: "owned i t RUNNING now r"
    and a: "a \<in> set (s_attempts s)" "a_job_id a = i" "a_status a = A_RUNNING"
    and status: "status \<noteq> A_RUNNING"
    and st: "st \<in> terminal_job_states \<or> st = RETRY_WAIT \<and> j_attempt_count r < j_max_attempts r \<and> now \<le> av"
    and jobs: "s_jobs s' = update_where (\<lambda>x. j_job_id x = i \<and> j_claim_token x = Some t \<and> j_state x = RUNNING)
      (finish_update T st now av err) (s_jobs s)"
    and atts: "s_attempts s' = update_where (\<lambda>x. a_attempt_id x = a_attempt_id a \<and> a_status x = A_RUNNING)
      (\<lambda>a. a\<lparr>a_status := status, a_completed_at := Some now, a_heartbeat_at := now, a_error := err\<rparr>) (s_attempts s)"
  shows "moves s s'"
proof -
  let ?f = "finish_update T st now av err"
  have run: "j_state r = RUNNING" and st': "st \<noteq> RUNNING" "st \<noteq> CLAIMED"
    using own st by (auto simp: owned_def terminal_job_states_def)
  have holds: "holds_lease (row_lease r) t now" using owned_holds [OF own] by simp
  have step: "lease_step (row_lease r) (EvFinish now t st) (row_lease (?f r))"
  proof (cases "st = RETRY_WAIT")
    case True
    then have "lease_step (row_lease r) (EvFinish now t RETRY_WAIT) ((row_lease r)\<lparr>ls_state := RETRY_WAIT,
        ls_token := None, ls_expires := None, ls_available := av\<rparr>)"
      using st run holds by (intro lease_step.finish_retry) (auto simp: terminal_job_states_def)
    then show ?thesis using True by (simp add: finish_update_def row_lease_def row_active_def)
  next
    case False
    then have "lease_step (row_lease r) (EvFinish now t st) ((row_lease r)\<lparr>ls_state := st,
        ls_token := None, ls_expires := None\<rparr>)"
      using st run holds by (intro lease_step.finish_terminal) auto
    then show ?thesis using False st' by (simp add: finish_update_def row_lease_def row_active_def)
  qed
  have of: "attempts_of s' k = (if k = i
      then butlast (attempts_of s i) @ [(fst (last (attempts_of s i)), status)] else attempts_of s k)" for k
    by (rule attempts_of_close [OF inv find a _ _ _ atts]) simp_all
  show ?thesis
  proof (rule moves_update [OF inv jobs find _ _ _ step])
    show "distinct (map a_attempt_id (s_attempts s'))"
      unfolding atts by (rule attempts_close_ids [OF inv]) simp
    show "row_attempts_ok (?f r) (attempts_of s' i)"
      using row_attempts_close [OF store_invD(2) [OF inv find] run status, of "?f r"] st'
      by (simp add: of finish_update_def)
  qed (use own of in \<open>auto simp: owned_def same_row_def finish_update_def\<close>)
qed

lemma finish_job_state_target:
  "finish_job_state status retryable r \<in> terminal_job_states \<or>
     finish_job_state status retryable r = RETRY_WAIT \<and> j_attempt_count r < j_max_attempts r"
  by (simp add: finish_job_state_def terminal_job_states_def)

lemma promote_finished_Inr:
  "promote_finished d run now pid s = (Inr u, s') \<Longrightarrow>
     s_jobs s' = s_jobs s \<and> s_attempts s' = s_attempts s \<and> s_runs s' = s_runs s"
  by (auto simp: promote_finished_def insert_promotion_def insert_promotion_row_def split: if_splits)

text \<open>What a \<open>finish_run\<close> that returns wrote.\<close>

lemma finish_run_Inr:
  assumes "finish_run env run status retryable retry_at err promote now pid s = (Inr u, s')"
  obtains d job policy s1 where "status \<noteq> A_RUNNING"
    "registry_lookup (en_registry env) (rh_datasource_id run) (Some (rh_definition_version run)) = Inr d"
    "promote \<Longrightarrow> status = A_SUCCEEDED \<and> rh_lane run = ''production_ingestion'' \<and> dd_promotion_policy d = ''automatic''"
    "require_running_run run now s = Inr (job, policy)"
    "s_jobs s' = update_where (\<lambda>x. j_job_id x = rh_job_id run \<and> j_claim_token x = Some (rh_claim_token run) \<and> j_state x = RUNNING)
      (finish_update terminal_job_states (finish_job_state status retryable job) now
        (case retry_at of None \<Rightarrow> retry_timestamp now policy (j_attempt_count job)
          | Some t \<Rightarrow> max (retry_timestamp now policy (j_attempt_count job)) t) (error_column err)) (s_jobs s)"
    "s_attempts s' = update_where (\<lambda>x. a_attempt_id x = rh_attempt_id run \<and> a_status x = A_RUNNING)
      (\<lambda>a. a\<lparr>a_status := status, a_completed_at := Some now, a_heartbeat_at := now, a_error := error_column err\<rparr>)
      (s_attempts s)"
    "s_runs s' = update_where (\<lambda>r. r_run_id r = rh_run_id run)
      (\<lambda>r. r\<lparr>r_status := status, r_completed_at := Some now, r_retrieved_at := Some now\<rparr>) (s_runs s)"
    "if promote then promote_finished d run now pid s1 = (Inr (), s') \<and> s_promotions s1 = s_promotions s
       \<and> s_runs s1 = s_runs s' else s_promotions s' = s_promotions s"
proof -
  from assms have status: "status \<noteq> A_RUNNING" by (auto simp: finish_run_def raise_op_def)
  from assms obtain d where d:
    "registry_lookup (en_registry env) (rh_datasource_id run) (Some (rh_definition_version run)) = Inr d"
    by (auto simp: finish_run_def raise_op_def split: if_splits sum.splits)
  have promote: "promote \<Longrightarrow> status = A_SUCCEEDED \<and> rh_lane run = ''production_ingestion'' \<and>
      dd_promotion_policy d = ''automatic''"
    using assms status d by (auto simp: finish_run_def raise_op_def split: if_splits)
  from assms status d promote obtain job policy where job: "require_running_run run now s = Inr (job, policy)"
    by (auto simp: finish_run_def raise_op_def transaction_Inr split: if_splits sum.splits)
  let ?st = "finish_job_state status retryable job"
  let ?av = "case retry_at of None \<Rightarrow> retry_timestamp now policy (j_attempt_count job)
          | Some t \<Rightarrow> max (retry_timestamp now policy (j_attempt_count job)) t"
  define s1 where "s1 = s\<lparr>
    s_attempts := update_where (\<lambda>x. a_attempt_id x = rh_attempt_id run \<and> a_status x = A_RUNNING)
      (\<lambda>a. a\<lparr>a_status := status, a_completed_at := Some now, a_heartbeat_at := now, a_error := error_column err\<rparr>)
      (s_attempts s),
    s_runs := update_where (\<lambda>r. r_run_id r = rh_run_id run)
      (\<lambda>r. r\<lparr>r_status := status, r_completed_at := Some now, r_retrieved_at := Some now\<rparr>) (s_runs s),
    s_jobs := update_where (\<lambda>x. j_job_id x = rh_job_id run \<and> j_claim_token x = Some (rh_claim_token run) \<and> j_state x = RUNNING)
      (finish_update terminal_job_states ?st now ?av (error_column err)) (s_jobs s)\<rparr>"
  have "(if promote then promote_finished d run now pid else return_op ()) s1 = (Inr u, s')"
    using assms status d job promote unfolding s1_def
    by (simp add: finish_run_def raise_op_def transaction_Inr bind_op_Inr close_attempt_def update_attempts_def
      update_runs_def update_jobs_def Let_def split: if_splits)
  then show thesis
    using that [of d job policy s1] status d promote job promote_finished_Inr [of d run now pid s1 u s']
    by (auto simp: s1_def return_op_def split: if_splits)
qed

lemma require_running_run_Inr:
  assumes "require_running_run run now s = Inr (job, policy)"
  obtains a d where "List.find (owned (rh_job_id run) (rh_claim_token run) RUNNING now) (s_jobs s) = Some job"
    "a \<in> set (s_attempts s)" "a_attempt_id a = rh_attempt_id run" "a_job_id a = j_job_id job" "a_status a = A_RUNNING"
    "d \<in> set (s_definitions s)" "policy = dd_retry_policy (dr_definition d)"
    "j_datasource_id job = Some (fst (dr_key d))" "j_definition_version job = Some (snd (dr_key d))"
  using assms lookup_by_Some [of dr_key _ "s_definitions s"]
  by (auto simp: require_running_run_def list_ex_iff split: option.splits if_splits dest!: lookup_by_Some)

lemma finish_run_moves:
  assumes inv: "store_inv s"
  shows "moves s (snd (finish_run env run status retryable retry_at err promote now pid s))"
proof (cases "finish_run env run status retryable retry_at err promote now pid s")
  case (Pair res s')
  show ?thesis
  proof (cases res)
    case (Inl e)
    then have "s' = s"
      using Pair by (auto simp: finish_run_def raise_op_def dest: transaction_Inl split: if_splits sum.splits)
    then show ?thesis using Pair moves_refl [OF inv] by simp
  next
    case (Inr u)
    let ?av = "\<lambda>policy job. case retry_at of None \<Rightarrow> retry_timestamp now policy (j_attempt_count job)
          | Some t \<Rightarrow> max (retry_timestamp now policy (j_attempt_count job)) t"
    have run: "finish_run env run status retryable retry_at err promote now pid s = (Inr u, s')"
      using Pair Inr by simp
    then show ?thesis
    proof (rule finish_run_Inr, goal_cases)
      case (1 d job policy s1)
      obtain a where find: "List.find (owned (rh_job_id run) (rh_claim_token run) RUNNING now) (s_jobs s) = Some job"
        and a: "a \<in> set (s_attempts s)" "a_attempt_id a = rh_attempt_id run" "a_job_id a = j_job_id job"
          "a_status a = A_RUNNING"
        by (rule require_running_run_Inr [OF 1(4)])
      note own = find_owned [OF inv find]
      have i: "j_job_id job = rh_job_id run" using own(2) by (simp add: owned_def)
      have av: "now \<le> ?av policy job"
        using retry_timestamp_later [of now policy "j_attempt_count job"]
        by (auto simp: max_def split: option.splits)
      have "moves s s'"
        by (rule finish_moves [OF inv own a(1) a(3) [unfolded i] a(4) 1(1) _ 1(5) 1(6) [folded a(2)]])
          (use finish_job_state_target [of status retryable job] av in blast)
      then show ?thesis using run by simp
    qed
  qed
qed

text \<open>
  \<open>finish_system_job\<close> looks only at the job, not at the attempt its handle names; the handle is
  genuine when that attempt is the running one of its job.
\<close>

definition genuine_handle :: "system_job_handle \<Rightarrow> store \<Rightarrow> bool" where
  "genuine_handle h s \<longleftrightarrow> list_ex (\<lambda>a. a_attempt_id a = sh_attempt_id h \<and> a_job_id a = sh_job_id h \<and>
     a_status a = A_RUNNING) (s_attempts s)"

lemma finish_system_job_moves:
  assumes inv: "store_inv s" and h: "genuine_handle h s"
  shows "moves s (snd (finish_system_job h status err now s))"
proof (cases "status \<in> {A_SUCCEEDED, A_FAILED, A_CANCELLED}")
  case False
  then show ?thesis using moves_refl [OF inv] by (auto simp: finish_system_job_def raise_op_def)
next
  case True
  obtain a where a: "a \<in> set (s_attempts s)" "a_attempt_id a = sh_attempt_id h" "a_job_id a = sh_job_id h"
    "a_status a = A_RUNNING" using h by (auto simp: genuine_handle_def list_ex_iff)
  let ?find = "List.find (owned (sh_job_id h) (sh_claim_token h) RUNNING now) (s_jobs s)"
  let ?st = "\<lambda>job. if status = A_SUCCEEDED then SUCCEEDED else if status = A_CANCELLED then CANCELLED
     else if j_attempt_count job < j_max_attempts job then RETRY_WAIT else DEAD_LETTER"
  have "moves s (snd (transaction (\<lambda>s.
        case List.find (owned (sh_job_id h) (sh_claim_token h) RUNNING now) (s_jobs s) of
          None \<Rightarrow> (Inl (OperationalError ''system job is not owned by an active claim''), s)
        | Some job \<Rightarrow>
            (let st = ?st job; available_at = retry_timestamp now (JObj []) (j_attempt_count job)
             in bind_op (close_attempt (sh_attempt_id h) status now (error_column err)) (\<lambda>_.
                bind_op (update_jobs
                  (\<lambda>x. j_job_id x = sh_job_id h \<and> j_claim_token x = Some (sh_claim_token h) \<and>
                     j_state x = RUNNING)
                  (finish_update {SUCCEEDED, CANCELLED, DEAD_LETTER} st now available_at
                     (error_column err))) (\<lambda>_.
                return_op ())) s)) s))"
  proof (rule moves_transaction [OF inv], goal_cases)
    case (1 u s')
    then obtain job where find: "?find = Some job"
      and s': "s_jobs s' = update_where (\<lambda>x. j_job_id x = sh_job_id h \<and> j_claim_token x = Some (sh_claim_token h) \<and> j_state x = RUNNING)
        (finish_update {SUCCEEDED, CANCELLED, DEAD_LETTER} (?st job) now
          (retry_timestamp now (JObj []) (j_attempt_count job)) (error_column err)) (s_jobs s)"
        "s_attempts s' = update_where (\<lambda>x. a_attempt_id x = sh_attempt_id h \<and> a_status x = A_RUNNING)
        (\<lambda>a. a\<lparr>a_status := status, a_completed_at := Some now, a_heartbeat_at := now, a_error := error_column err\<rparr>)
        (s_attempts s)"
      by (cases ?find) (auto simp: Let_def bind_op_Inr close_attempt_def update_attempts_def update_jobs_def return_op_def)
    show ?case
      by (rule finish_moves [OF inv find_owned [OF inv find] a(1,3,4) _ _ s'(1) s'(2) [folded a(2)]])
        (use True retry_timestamp_later in \<open>auto simp: terminal_job_states_def\<close>)
  qed
  then show ?thesis using True unfolding finish_system_job_def by simp
qed

lemma cancel_moves:
  assumes inv: "store_inv s"
  shows "moves s (snd (cancel i actor now audit_id s))"
  unfolding cancel_def
proof (rule moves_transaction [OF inv], goal_cases)
  case (1 x s')
  let ?P = "\<lambda>x. j_job_id x = i \<and> j_state x \<in> {QUEUED, RETRY_WAIT, CLAIMED}"
  let ?f = "\<lambda>x. x\<lparr>j_state := CANCELLED, j_completed_at := Some now, j_cancel_requested_at := Some now,
          j_cancel_requested_by := Some actor\<rparr>"
  from 1 have jobs: "s_jobs s' = update_where ?P ?f (s_jobs s)" and atts: "s_attempts s' = s_attempts s"
    by (auto simp: bind_op_Inr update_jobs_def audit_def return_op_def split: if_splits)
  show ?case
  proof (cases "\<exists>r \<in> set (s_jobs s). ?P r")
    case False
    then show ?thesis using moves_idle [OF inv jobs _ atts] by blast
  next
    case True
    then obtain r where r: "r \<in> set (s_jobs s)" "?P r" by blast
    then have find: "find_job s i = Some r" using find_job_mem [OF inv r(1)] by simp
    have "lease_step (row_lease r) EvCancel
        ((row_lease r)\<lparr>ls_state := CANCELLED, ls_token := None, ls_expires := None\<rparr>)"
      using r(2) by (intro lease_step.cancel) auto
    then have step: "lease_step (row_lease r) EvCancel (row_lease (?f r))"
      by (simp add: row_lease_def row_active_def)
    show ?thesis
      by (rule moves_row [OF inv jobs find r(2) _ _ step])
        (use r(2) in \<open>auto simp: atts attempts_of_def same_row_def\<close>)
  qed
qed

section \<open>Enqueue\<close>

lemma each_op_frame:
  assumes "\<And>x s. f (snd (g x s)) = f s"
  shows "f (snd (each_op g xs s)) = f s"
proof (induction xs arbitrary: s)
  case (Cons x xs)
  have "f (snd (g x s)) = f s" by (rule assms)
  then show ?case using Cons.IH by (auto split: prod.splits sum.splits) (metis snd_conv)+
qed simp

lemma bind_op_frame:
  assumes "f (snd (m s)) = f s" and "\<And>a s. f (snd (k a s)) = f s"
  shows "f (snd (bind_op m k s)) = f s"
  using assms by (auto simp: bind_op_def split: prod.splits sum.splits)

lemma sync_definition_frame:
  "s_jobs (snd (sync_definition sha now d s)) = s_jobs s \<and> s_attempts (snd (sync_definition sha now d s)) = s_attempts s"
proof -
  let ?f = "\<lambda>s. (s_jobs s, s_attempts s)"
  have "?f (snd (sync_definition sha now d s)) = ?f s"
    unfolding sync_definition_def
    by (intro bind_op_frame each_op_frame)
      (auto simp: insert_definition_def insert_binding_def insert_schedule_def return_op_def Let_def split: option.splits)
  then show ?thesis by simp
qed

lemma transaction_frame: "f (snd (m s)) = f s \<Longrightarrow> f (snd (transaction m s)) = f s"
  by (auto simp: transaction_def split: prod.splits sum.splits)

lemma sync_registry_frame:
  "s_jobs (snd (sync_registry sha reg now s)) = s_jobs s" "s_attempts (snd (sync_registry sha reg now s)) = s_attempts s"
proof -
  let ?f = "\<lambda>s. (s_jobs s, s_attempts s)"
  have "?f (snd (sync_registry sha reg now s)) = ?f s"
    unfolding sync_registry_def
    by (intro transaction_frame bind_op_frame each_op_frame)
      (auto simp: insert_source_def sync_definition_frame return_op_def split: option.splits)
  then show "s_jobs (snd (sync_registry sha reg now s)) = s_jobs s"
    "s_attempts (snd (sync_registry sha reg now s)) = s_attempts s" by simp_all
qed

text \<open>An operation that accepts a job appends one fresh row.\<close>

definition adds :: "store \<Rightarrow> store \<Rightarrow> bool" where
  "adds s s' \<longleftrightarrow> (\<exists>r. s_jobs s' = s_jobs s @ [r] \<and> s_attempts s' = s_attempts s \<and>
     lookup_by j_job_id (j_job_id r) (s_jobs s) = None \<and>
     lookup_by j_dedupe_key (j_dedupe_key r) (s_jobs s) = None \<and> new_lease (row_lease r))"

definition grows :: "store \<Rightarrow> store \<Rightarrow> bool" where
  "grows s s' \<longleftrightarrow> moves s s' \<or> store_inv s' \<and> adds s s'"

lemma adds_inv:
  assumes inv: "store_inv s" and "adds s s'"
  shows "store_inv s'"
proof -
  obtain r where r: "s_jobs s' = s_jobs s @ [r]" "s_attempts s' = s_attempts s" "new_lease (row_lease r)"
    and fresh: "lookup_by j_job_id (j_job_id r) (s_jobs s) = None"
      "lookup_by j_dedupe_key (j_dedupe_key r) (s_jobs s) = None"
    using assms(2) by (auto simp: adds_def)
  have find: "find_job s' i = (case find_job s i of None \<Rightarrow> if i = j_job_id r then Some r else None | Some x \<Rightarrow> Some x)" for i
    by (auto simp: find_job_def r(1) lookup_by_append split: option.splits)
  have of: "attempts_of s' i = attempts_of s i" for i by (simp add: attempts_of_def r(2))
  have none: "attempts_of s (j_job_id r) = []"
    using inv fresh by (auto simp: attempts_of_Nil store_inv_def find_job_def)
  have "lease_ok (row_lease x) \<and> row_attempts_ok x (attempts_of s' i)" if "find_job s' i = Some x" for i x
  proof (cases "find_job s i")
    case None
    then have "x = r" "i = j_job_id r" using that find [of i] by (auto split: if_splits)
    then show ?thesis using new_lease_ok [OF r(3)] r(3) none of
      by (auto simp: row_attempts_ok_def new_lease_def)
  next
    case (Some y)
    then show ?thesis using that find [of i] of store_invD [OF inv Some] by simp
  qed
  moreover have "find_job s' (a_job_id a) \<noteq> None" if "a \<in> set (s_attempts s')" for a
  proof -
    have "find_job s (a_job_id a) \<noteq> None" using inv that r(2) by (simp add: store_inv_def)
    then show ?thesis using find [of "a_job_id a"] by (auto split: option.splits)
  qed
  moreover have "distinct (map j_job_id (s_jobs s'))" "distinct (map j_dedupe_key (s_jobs s'))"
    "distinct (map a_attempt_id (s_attempts s'))"
    using inv fresh by (auto simp: r store_inv_def lookup_by_None_iff)
  ultimately show ?thesis unfolding store_inv_def by blast
qed

lemma grows_transaction:
  assumes "store_inv s" and "\<And>a s'. body s = (Inr a, s') \<Longrightarrow> grows s s'"
  shows "grows s (snd (transaction body s))"
  by (rule transaction_cases [of body s]) (use assms moves_refl grows_def in auto)

lemma grows_adds: "store_inv s \<Longrightarrow> adds s s' \<Longrightarrow> grows s s'"
  by (simp add: grows_def adds_inv)

lemma grows_refl: "store_inv s \<Longrightarrow> grows s s"
  by (simp add: grows_def moves_refl)

lemma grows_cong:
  assumes "s_jobs s1 = s_jobs s" and "s_attempts s1 = s_attempts s"
  shows "grows s1 s' = grows s s'"
  using assms by (simp add: grows_def moves_def adds_def store_follows_def find_job_def)

lemma max_attempts_pos: "0 < max_attempts d"
  by (auto simp: max_attempts_def split: json.splits option.splits)

lemma insert_job_adds:
  assumes "insert_job r s = (Inr u, s')" and "new_lease (row_lease r)"
  shows "adds s s'"
  using assms by (auto simp: insert_job_def adds_def job_row_ok_def split: if_splits)

lemma adds_frame: "adds s s1 \<Longrightarrow> s_jobs s2 = s_jobs s1 \<Longrightarrow> s_attempts s2 = s_attempts s1 \<Longrightarrow> adds s s2"
  by (auto simp: adds_def)

lemma audit_frame: "audit a b c d e f g h s = (Inr u, s') \<Longrightarrow> s_jobs s' = s_jobs s \<and> s_attempts s' = s_attempts s"
  by (auto simp: audit_def split: if_splits)

lemma insert_audit_adds:
  assumes "bind_op (insert_job r) (\<lambda>_. bind_op (audit a b c d e f g h) (\<lambda>_. return_op x)) s = (Inr u, s')"
    and "new_lease (row_lease r)"
  shows "adds s s'"
proof -
  obtain s1 where s1: "insert_job r s = (Inr (), s1)" "audit a b c d e f g h s1 = (Inr (), s')"
    using assms(1) by (auto simp: bind_op_Inr return_op_def)
  show ?thesis
    by (rule adds_frame [OF insert_job_adds [OF s1(1) assms(2)]]) (use audit_frame [OF s1(2)] in auto)
qed

lemma enqueue_row_new: "new_lease (row_lease (enqueue_row env a p now job_id instance_id))"
  by (simp add: new_lease_def row_lease_def row_active_def enqueue_row_def max_attempts_pos)

lemma enqueue_insert_adds:
  "enqueue_insert env ids a p now s = (Inr res, s') \<Longrightarrow> s' = s \<or> adds s s'"
  unfolding enqueue_insert_def Let_def
  by (auto split: option.splits if_splits dest!: insert_audit_adds intro: enqueue_row_new)

lemma enqueue_insert_grows:
  assumes inv: "store_inv s" and run: "enqueue_insert env ids a p now s = (Inr res, s')"
  shows "grows s s'"
  using enqueue_insert_adds [OF run] grows_adds [OF inv] grows_refl [OF inv] by auto

lemma enqueue_grows:
  assumes inv: "store_inv s"
  shows "grows s (snd (enqueue env clock ids a s))"
proof (cases "sync_registry (en_sha env) (en_registry env) clock s")
  case (Pair res s1)
  then have eq: "s_jobs s1 = s_jobs s" "s_attempts s1 = s_attempts s"
    using sync_registry_frame [of "en_sha env" "en_registry env" clock s] by simp_all
  then have inv1: "store_inv s1" using inv store_inv_cong by blast
  have "grows s1 (snd (enqueue env clock ids a s))"
    using Pair grows_refl [OF inv1]
      grows_transaction [OF inv1, of "\<lambda>s. enqueue_insert env ids a p t s" for p t]
      enqueue_insert_grows [OF inv1]
    by (auto simp: enqueue_def bind_op_def raise_op_def split: sum.splits)
  then show ?thesis using grows_cong [OF eq] by simp
qed

lemma enqueue_backfill_grows:
  "store_inv s \<Longrightarrow> grows s (snd (enqueue_backfill env clock ids bid ds ws we lane s))"
  by (simp add: enqueue_backfill_def raise_op_def grows_refl enqueue_grows)

lemma retry_grows: "store_inv s \<Longrightarrow> grows s (snd (retry env clock ids rid i s))"
  by (auto simp: retry_def grows_refl intro!: enqueue_grows split: option.splits)

lemma projection_row_new: "new_lease (row_lease (projection_row env dir trig anchor q i))"
  by (simp add: new_lease_def row_lease_def row_active_def projection_row_def Let_def)

lemma enqueue_projection_grows:
  assumes inv: "store_inv s"
  shows "grows s (snd (enqueue_projection_delivery env i aid dir anchor q trig s))"
proof (cases "trig \<in> {''manual'', ''schedule'', ''recovery''}")
  case False
  then show ?thesis using grows_refl [OF inv] by (auto simp: enqueue_projection_delivery_def raise_op_def)
next
  case True
  let ?q = "case q of None \<Rightarrow> anchor | Some t \<Rightarrow> t"
  let ?row = "projection_row env dir trig anchor ?q i"
  have "grows s (snd (transaction (\<lambda>s. case lookup_by j_dedupe_key (j_dedupe_key ?row) (s_jobs s) of
        Some existing \<Rightarrow> (Inr \<lparr>er_job_id = j_job_id existing, er_disposition = ''deduplicated'',
            er_state = j_state existing\<rparr>, s)
      | None \<Rightarrow> bind_op (insert_job ?row) (\<lambda>_. bind_op (audit aid ''operator'' ''local''
            ''projection_delivery_enqueued'' ''workflow_job'' i (j_request ?row) ?q) (\<lambda>_.
            return_op \<lparr>er_job_id = i, er_disposition = ''accepted'', er_state = QUEUED\<rparr>)) s) s))"
    by (rule grows_transaction [OF inv])
      (auto split: option.splits intro: grows_refl [OF inv] grows_adds [OF inv]
        dest!: insert_audit_adds [OF _ projection_row_new])
  then show ?thesis
    using True unfolding enqueue_projection_delivery_def Let_def by (simp only: not_True_eq_False if_False simp_thms)
qed

section \<open>The store as a lease system\<close>

text \<open>Every public job method with its arguments; \<open>store_exec\<close> is the state it leaves, raised or not.\<close>

datatype store_command =
    SSync env instant
  | SEnqueue env instant enqueue_ids enqueue_args
  | SBackfill env instant enqueue_ids string string instant instant "string option"
  | SProjection env string string string instant "instant option" string
  | SClaimNext string instant int "string \<Rightarrow> string" string
  | SClaimJob string string instant int "string \<Rightarrow> string" string
  | SStartRun claimed_job string instant string string
  | SStartSystem claimed_job string instant string
  | SHeartbeat run_handle instant int
  | SFinishRun env run_handle attempt_status bool "instant option" "(string \<times> json) list" bool instant string
  | SFinishSystem system_job_handle attempt_status "(string \<times> json) list" instant
  | SRecover instant "string \<Rightarrow> string"
  | SCancel string string instant string
  | SRetry env instant enqueue_ids string string

fun store_exec :: "store_command \<Rightarrow> store \<Rightarrow> store" where
  "store_exec (SSync env now) s = snd (sync_registry (en_sha env) (en_registry env) now s)"
| "store_exec (SEnqueue env clock ids a) s = snd (enqueue env clock ids a s)"
| "store_exec (SBackfill env clock ids bid ds ws we lane) s = snd (enqueue_backfill env clock ids bid ds ws we lane s)"
| "store_exec (SProjection env i aid dir anchor q trig) s = snd (enqueue_projection_delivery env i aid dir anchor q trig s)"
| "store_exec (SClaimNext w now lease aid token) s = snd (claim_next w now lease aid token s)"
| "store_exec (SClaimJob i w now lease aid token) s = snd (claim_job i w now lease aid token s)"
| "store_exec (SStartRun claim w now aid rid) s = snd (start_run claim w now aid rid s)"
| "store_exec (SStartSystem claim w now aid) s = snd (start_system_job claim w now aid s)"
| "store_exec (SHeartbeat run now lease) s = snd (heartbeat run now lease s)"
| "store_exec (SFinishRun env run st retryable retry_at err promote now pid) s =
     snd (finish_run env run st retryable retry_at err promote now pid s)"
| "store_exec (SFinishSystem h st err now) s = snd (finish_system_job h st err now s)"
| "store_exec (SRecover now aid) s = snd (recover_expired now aid s)"
| "store_exec (SCancel i actor now aid) s = snd (cancel i actor now aid s)"
| "store_exec (SRetry env clock ids rid i) s = snd (retry env clock ids rid i s)"

fun store_admissible :: "store_command \<Rightarrow> store \<Rightarrow> bool" where
  "store_admissible (SFinishSystem h st err now) s = genuine_handle h s"
| "store_admissible _ s = True"

definition job_view :: "store \<Rightarrow> string \<Rightarrow> lease option" where
  "job_view s i = map_option row_lease (find_job s i)"

lemma moves_grows: "moves s s' \<Longrightarrow> grows s s'"
  by (simp add: grows_def)

lemma store_exec_grows:
  assumes inv: "store_inv s" and "store_admissible c s"
  shows "grows s (store_exec c s)"
proof (cases c)
  case (SSync env now)
  have "moves s (snd (sync_registry (en_sha env) (en_registry env) now s))"
    by (rule moves_same [OF inv sync_registry_frame])
  then show ?thesis using SSync moves_grows by simp
next
  case (SRecover now aid)
  then show ?thesis
    using moves_grows [OF recover_expired_moves(1) [OF inv, of now aid]]
    by (cases "recover_expired now aid s") auto
qed (use assms moves_grows in \<open>simp_all add: enqueue_grows enqueue_backfill_grows enqueue_projection_grows retry_grows
    claim_next_moves claim_job_moves start_run_moves start_system_job_moves heartbeat_moves
    finish_run_moves finish_system_job_moves cancel_moves\<close>)

lemma grows_view:
  assumes "grows s s'"
  shows "job_view s i = Some l \<Longrightarrow> \<exists>evs l'. job_view s' i = Some l' \<and> lease_run l evs l'"
    and "job_view s i = None \<Longrightarrow> job_view s' i = Some l \<Longrightarrow> new_lease l"
proof -
  consider "store_follows s s'" | r where "s_jobs s' = s_jobs s @ [r]" "new_lease (row_lease r)"
    using assms by (auto simp: grows_def moves_def adds_def)
  then have "(job_view s i = Some l \<longrightarrow> (\<exists>evs l'. job_view s' i = Some l' \<and> lease_run l evs l')) \<and>
    (job_view s i = None \<longrightarrow> job_view s' i = Some l \<longrightarrow> new_lease l)"
  proof cases
    case 1
    then have "case find_job s i of None \<Rightarrow> find_job s' i = None
      | Some r \<Rightarrow> \<exists>r' evs. find_job s' i = Some r' \<and> same_row r r' \<and> lease_run (row_lease r) evs (row_lease r')"
      by (simp add: store_follows_def)
    then show ?thesis by (cases "find_job s i") (auto simp: job_view_def)
  next
    case 2
    then have "find_job s' i = (case find_job s i of None \<Rightarrow> if j_job_id r = i then Some r else None | Some x \<Rightarrow> Some x)"
      by (auto simp: find_job_def lookup_by_append split: option.splits)
    then show ?thesis using 2 by (cases "find_job s i") (auto simp: job_view_def split: if_splits)
  qed
  then show "job_view s i = Some l \<Longrightarrow> \<exists>evs l'. job_view s' i = Some l' \<and> lease_run l evs l'"
    and "job_view s i = None \<Longrightarrow> job_view s' i = Some l \<Longrightarrow> new_lease l" by auto
qed

lemma grows_inv: "grows s s' \<Longrightarrow> store_inv s'"
  by (auto simp: grows_def moves_def)

interpretation ls: lease_system store_inv job_view store_exec store_admissible
proof
  fix s c j l
  assume s: "store_inv s" "store_admissible c s"
  then show "store_inv (store_exec c s)" by (rule grows_inv [OF store_exec_grows])
  show "job_view s j = Some l \<Longrightarrow> \<exists>evs l'. job_view (store_exec c s) j = Some l' \<and> lease_run l evs l'"
    by (rule grows_view(1) [OF store_exec_grows [OF s]])
  show "job_view s j = None \<Longrightarrow> job_view (store_exec c s) j = Some l \<Longrightarrow> new_lease l"
    by (rule grows_view(2) [OF store_exec_grows [OF s]])
qed

end
