(* ===== verification/JobStoreCorrect.thy ===== *)
theory JobStoreCorrect
  imports JobStoreOps
begin

text \<open>
  What the job methods of \<open>OperationalStore\<close> guarantee: the attempt log, the protocol every job
  follows, the impotence of stale workers, the choice of the next job, deduplication, the
  outcomes of a finished run, recovery of lapsed leases, retry delays, and the idempotent
  synchronisation of the registry. The witnesses run the methods on a sample registry.
\<close>

section \<open>A sample deployment\<close>

definition sample_urllib :: urllib where
  "sample_urllib = \<lparr>ul_parse = (\<lambda>_. None), ul_qsl = (\<lambda>_. []), ul_encode = (\<lambda>_. []), ul_unparse = (\<lambda>_. [])\<rparr>"

definition sample_env :: env where
  "sample_env = \<lparr>en_registry = sample_registry, en_urllib = sample_urllib, en_sha = sample_sha\<rparr>"

definition sample_ids :: enqueue_ids where
  "sample_ids = \<lparr>ei_manual_request = ''manual_request_1'', ei_job = ''job_1'', ei_audit = ''audit_1''\<rparr>"


lemma sample_env_simps: "en_registry sample_env = sample_registry" "en_sha sample_env = sample_sha"
  by (simp_all add: sample_env_def)

lemmas sample_simps = sample_definition_simps sample_source_simps sample_registry_simps sample_env_simps

lemmas sync_eval = sync_registry_def bind_op_def transaction_def insert_source_def sync_definition_def
  insert_definition_def insert_binding_def return_op_def Let_def so_key_def sr_key_def dr_key_def dd_key_def
  definition_exists_def lanes_def access_classes_def statuses_def

lemmas enqueue_eval = enqueue_def sync_eval enqueue_prepare_def registry_lookup_def enqueue_defaults_def
  triggers_def enqueue_job_kinds_def enqueue_insert_def enqueue_row_def enqueue_dedupe_def insert_job_def
  job_row_ok_def audit_def max_attempts_def sample_ids_def empty_store_def

definition queued_store :: store where
  "queued_store = snd (enqueue sample_env 0 sample_ids (enqueue_defaults ''boe.rate'') empty_store)"

lemma queued_store_fields:
  "fst (enqueue sample_env 0 sample_ids (enqueue_defaults ''boe.rate'') empty_store) =
     Inr \<lparr>er_job_id = ''job_1'', er_disposition = ''accepted'', er_state = QUEUED\<rparr>"
  "s_jobs queued_store = [enqueue_row sample_env (enqueue_defaults ''boe.rate'') \<lparr>pj_definition = sample_definition,
     pj_lane = ''production_ingestion'', pj_kind = ''scheduled_ingest'', pj_request = []\<rparr> 0 ''job_1'' None]"
  "s_attempts queued_store = []" "s_runs queued_store = []" "s_promotions queued_store = []"
  "map ae_audit_id (s_audit queued_store) = [''audit_1'']"
  "map (dr_definition) (s_definitions queued_store) = [sample_definition]"
  by (simp_all add: queued_store_def enqueue_eval sample_simps)

lemma queued_definitions: "s_definitions queued_store = [\<lparr>dr_definition = sample_definition,
    dr_definition_hash = replicate 64 (CHR ''0''), dr_created_at = 0\<rparr>]"
  by (simp add: queued_store_def enqueue_eval sample_simps)

definition sample_claimed :: claimed_job where
  "sample_claimed = \<lparr>cj_job_id = ''job_1'', cj_claim_token = ''claim_1'', cj_datasource_id = Some ''boe.rate'',
     cj_definition_version = Some 1, cj_lane = Some ''production_ingestion'', cj_job_kind = ''scheduled_ingest'',
     cj_window_start = None, cj_window_end = None, cj_request = JObj []\<rparr>"

definition sample_run :: run_handle where
  "sample_run = \<lparr>rh_run_id = ''run_1'', rh_attempt_id = ''attempt_1'', rh_job_id = ''job_1'',
     rh_claim_token = ''claim_1'', rh_datasource_id = ''boe.rate'', rh_definition_version = 1,
     rh_lane = ''production_ingestion''\<rparr>"

definition claimed_store :: store where
  "claimed_store = snd (claim_next ''w'' 10 60 (\<lambda>i. ''audit_'' @ i) ''claim_1'' queued_store)"

definition running_store :: store where
  "running_store = snd (start_run sample_claimed ''w'' 20 ''attempt_1'' ''run_1'' claimed_store)"

lemmas claim_eval = claim_next_def claim_with_def recover_expired_def bind_op_def transaction_def
  lease_seconds_def expired_claim_def claimable_def claim_key_def claim_row_def update_jobs_def
  rowcount_def update_where_def return_op_def raise_op_def

lemma claimed_store_fields:
  "fst (claim_next ''w'' 10 60 (\<lambda>i. ''audit_'' @ i) ''claim_1'' queued_store) = Inr (Some sample_claimed)"
  "s_jobs claimed_store = map (\<lambda>x. x\<lparr>j_state := CLAIMED, j_claim_token := Some ''claim_1'',
     j_claimed_by := Some ''w'', j_claimed_at := Some 10, j_lease_expires_at := Some (10 + seconds 60),
     j_heartbeat_at := Some 10\<rparr>) (s_jobs queued_store)"
  "s_attempts claimed_store = []" "s_runs claimed_store = []" "s_promotions claimed_store = []"
  "s_definitions claimed_store = s_definitions queued_store"
  by (simp_all add: claimed_store_def claim_eval queued_store_fields enqueue_row_def enqueue_defaults_def
      sample_claimed_def sample_simps)

lemma running_store_fields:
  "fst (start_run sample_claimed ''w'' 20 ''attempt_1'' ''run_1'' claimed_store) = Inr sample_run"
  "s_jobs running_store = map (\<lambda>x. x\<lparr>j_state := RUNNING, j_attempt_count := 1, j_started_at := Some 20,
     j_heartbeat_at := Some 20\<rparr>) (s_jobs claimed_store)"
  "s_attempts running_store = [\<lparr>a_attempt_id = ''attempt_1'', a_job_id = ''job_1'', a_attempt_no = 1,
     a_status = A_RUNNING, a_worker_id = ''w'', a_error = None, a_started_at = 20, a_heartbeat_at = 20,
     a_completed_at = None\<rparr>]"
  "map r_run_id (s_runs running_store) = [''run_1'']" "s_promotions running_store = []"
  "s_definitions running_store = s_definitions queued_store"
  by (simp_all add: running_store_def start_run_def start_attempt_def owned_def sample_claimed_def sample_run_def
      bind_op_def transaction_def update_jobs_def insert_attempt_def insert_run_def return_op_def Let_def
      rowcount_def update_where_def claimed_store_fields queued_store_fields enqueue_row_def enqueue_defaults_def
      seconds_def definition_exists_def queued_definitions dr_key_def dd_key_def lanes_def max_attempts_def sample_simps)

lemma claimed_store_audit: "map ae_audit_id (s_audit claimed_store) = [''audit_1'']"
  by (simp add: claimed_store_def claim_eval queued_store_fields enqueue_row_def enqueue_defaults_def)

section \<open>Histories\<close>

lemma grows_row:
  assumes "grows s s'" and "find_job s i = Some r"
  shows "\<exists>r' evs. find_job s' i = Some r' \<and> same_row r r' \<and> lease_run (row_lease r) evs (row_lease r')"
proof -
  consider "store_follows s s'" | x where "s_jobs s' = s_jobs s @ [x]"
    using assms(1) by (auto simp: grows_def moves_def adds_def)
  then show ?thesis
  proof cases
    case 1
    then show ?thesis using spec [OF 1 [unfolded store_follows_def], of i] assms(2) by simp
  next
    case 2
    then have "find_job s' i = Some r" using assms(2) by (simp add: find_job_def lookup_by_append)
    then show ?thesis by (auto intro: same_row_refl)
  qed
qed

lemma reaches_row:
  "reaches store_exec store_admissible s cs s' \<Longrightarrow> store_inv s \<Longrightarrow> find_job s i = Some r \<Longrightarrow>
     \<exists>r' evs. find_job s' i = Some r' \<and> same_row r r' \<and> lease_run (row_lease r) evs (row_lease r')"
proof (induction cs arbitrary: s r)
  case (Cons c cs)
  then have c: "grows s (store_exec c s)" "reaches store_exec store_admissible (store_exec c s) cs s'"
    by (auto intro: store_exec_grows)
  obtain r1 evs1 where 1: "find_job (store_exec c s) i = Some r1" "same_row r r1"
    "lease_run (row_lease r) evs1 (row_lease r1)"
    using grows_row [OF c(1) Cons.prems(3)] by blast
  obtain r2 evs2 where 2: "find_job s' i = Some r2" "same_row r1 r2" "lease_run (row_lease r1) evs2 (row_lease r2)"
    using Cons.IH [OF c(2) grows_inv [OF c(1)] 1(1)] by blast
  have "lease_run (row_lease r) (evs1 @ evs2) (row_lease r2)"
    using 1(3) 2(3) by (auto simp: lease_run_append)
  then show ?case using 2(1) same_row_trans [OF 1(2) 2(2)] by blast
qed auto

definition sample_commands :: "store_command list" where
  "sample_commands = [SEnqueue sample_env 0 sample_ids (enqueue_defaults ''boe.rate''),
     SClaimNext ''w'' 10 60 (\<lambda>i. ''audit_'' @ i) ''claim_1'',
     SStartRun sample_claimed ''w'' 20 ''attempt_1'' ''run_1'']"

lemma running_reaches: "reaches store_exec store_admissible empty_store sample_commands running_store"
  by (simp add: sample_commands_def queued_store_def claimed_store_def running_store_def)

lemma running_row: "find_job running_store ''job_1'' = Some (hd (s_jobs running_store))"
  by (simp add: find_job_def running_store_fields claimed_store_fields queued_store_fields enqueue_row_def)

lemmas running_eval = running_store_fields claimed_store_fields queued_store_fields enqueue_row_def
  enqueue_defaults_def max_attempts_def sample_simps

section \<open>Properties of the store\<close>





text \<open>
  C16. A worker whose token is not the current one of the job, or whose lease has lapsed, cannot
  start, heartbeat or finish anything: every call raises and leaves the database as it was.
\<close>

theorem store_stale_claim:
  assumes inv: "store_inv s"
    and stale: "\<forall>r. find_job s (cj_job_id c) = Some r \<longrightarrow> \<not> holds_lease (row_lease r) (cj_claim_token c) now"
    and run: "rh_job_id run = cj_job_id c" "rh_claim_token run = cj_claim_token c"
    and h: "sh_job_id h = cj_job_id c" "sh_claim_token h = cj_claim_token c"
  shows "\<exists>e1 e2 e3 e4 e5. start_run c w now aid rid s = (Inl e1, s) \<and>
    start_system_job c w now aid s = (Inl e2, s) \<and> heartbeat run now n s = (Inl e3, s) \<and>
    finish_run env run st retryable retry_at err promote now pid s = (Inl e4, s) \<and>
    finish_system_job h st err now s = (Inl e5, s)"
proof -
  have none: "List.find (owned (cj_job_id c) (cj_claim_token c) q now) (s_jobs s) = None"
    if "q \<in> {CLAIMED, RUNNING}" for q
    using find_owned [OF inv, of "cj_job_id c" "cj_claim_token c" q now] owned_holds [OF _ that] stale
    by (cases "List.find (owned (cj_job_id c) (cj_claim_token c) q now) (s_jobs s)") auto
  then have count: "rowcount (owned (cj_job_id c) (cj_claim_token c) RUNNING now) (s_jobs s) = 0"
    by (auto simp: rowcount_def filter_empty_conv find_None_iff)
  have "\<exists>e. start_run c w now aid rid s = (Inl e, s)"
    using none [of CLAIMED]
    by (auto simp: start_run_def start_attempt_def transaction_def bind_op_def raise_op_def split: option.splits)
  moreover have "\<exists>e. start_system_job c w now aid s = (Inl e, s)"
    using none [of CLAIMED] by (auto simp: start_system_job_def start_attempt_def transaction_def bind_op_def raise_op_def)
  moreover have "\<exists>e. heartbeat run now n s = (Inl e, s)"
    using count run
    by (auto simp: heartbeat_def transaction_def bind_op_def raise_op_def update_jobs_def split: sum.splits)
  moreover have "\<exists>e. finish_run env run st retryable retry_at err promote now pid s = (Inl e, s)"
    using none [of RUNNING] run
    by (auto simp: finish_run_def require_running_run_def transaction_def raise_op_def split: sum.splits)
  moreover have "\<exists>e. finish_system_job h st err now s = (Inl e, s)"
    using none [of RUNNING] h by (auto simp: finish_system_job_def transaction_def raise_op_def)
  ultimately show ?thesis by blast
qed

theorem store_stale_claim_witness:
  "\<exists>e. finish_run sample_env sample_run A_SUCCEEDED False None [] True (10 + seconds 60) ''p'' running_store =
     (Inl e, running_store)"
proof -
  have inv: "store_inv running_store" by (rule ls.reaches_inv [OF running_reaches store_inv_empty])
  have "\<forall>r. find_job running_store (cj_job_id sample_claimed) = Some r \<longrightarrow>
      \<not> holds_lease (row_lease r) (cj_claim_token sample_claimed) (10 + seconds 60)"
    using running_row by (auto simp: sample_claimed_def running_eval holds_lease_def row_lease_def row_active_def)
  from store_stale_claim [OF inv this, of sample_run
      "\<lparr>sh_attempt_id = ''a'', sh_job_id = ''job_1'', sh_claim_token = ''claim_1'', sh_job_kind = ''k''\<rparr>"]
  show ?thesis by (auto simp: sample_run_def sample_claimed_def)
qed

lemma claim_next_first:
  assumes inv: "store_inv s" and w: "w \<noteq> []" and n: "1 \<le> n" "n \<le> 3600"
    and rec: "recover_expired now aid s = (Inr ids, s1)"
  shows "if filter (claimable now) (s_jobs s1) = [] then claim_next w now n aid token s = (Inr None, s1)
    else \<exists>r r' c s'. r \<in> set (filter (claimable now) (s_jobs s1)) \<and>
      (\<forall>x \<in> set (filter (claimable now) (s_jobs s1)). claim_key r \<le> claim_key x) \<and>
      claim_next w now n aid token s = (Inr (Some c), s') \<and>
      cj_job_id c = j_job_id r \<and> cj_claim_token c = token \<and>
      j_state r' = CLAIMED \<and> j_claim_token r' = Some token \<and> j_lease_expires_at r' = Some (now + seconds n) \<and>
      (\<forall>k. find_job s' k = (if k = j_job_id r then Some r' else find_job s1 k))"
proof (cases "filter (claimable now) (s_jobs s1) = []")
  case True
  then show ?thesis using rec n by (simp add: claim_next_def claim_with_def bind_op_def lease_seconds_def transaction_def)
next
  case False
  then obtain r where r: "min_by claim_key (filter (claimable now) (s_jobs s1)) = Some r"
    using min_by_None_iff by (metis not_None_eq)
  note least = min_by_Some [OF r]
  then have mem: "r \<in> set (s_jobs s1)" "claimable now r" by auto
  have inv1: "store_inv s1" using recover_expired_moves(1) [OF inv rec] by (simp add: moves_def)
  note find = find_job_mem [OF inv1 mem(1)]
  let ?P = "\<lambda>x. j_job_id x = j_job_id r \<and> j_state x \<in> {QUEUED, RETRY_WAIT}"
  let ?f = "\<lambda>x. x\<lparr>j_state := CLAIMED, j_claim_token := Some token, j_claimed_by := Some w,
     j_claimed_at := Some now, j_lease_expires_at := Some (now + seconds n), j_heartbeat_at := Some now\<rparr>"
  let ?s' = "s1\<lparr>s_jobs := update_where ?P ?f (s_jobs s1)\<rparr>"
  have P: "?P r" "\<And>x. ?P x \<Longrightarrow> j_job_id x = j_job_id r" using mem(2) by (auto simp: claimable_def)
  have count: "rowcount ?P (s_jobs s1) = 1" using rowcount_one [of s1 "j_job_id r" r ?P] inv1 find P by blast
  let ?c = "\<lparr>cj_job_id = j_job_id r, cj_claim_token = token,
      cj_datasource_id = j_datasource_id r, cj_definition_version = j_definition_version r,
      cj_lane = j_lane r, cj_job_kind = j_job_kind r, cj_window_start = j_window_start r,
      cj_window_end = j_window_end r, cj_request = j_request r\<rparr>"
  have call: "claim_next w now n aid token s = (Inr (Some ?c), ?s')"
    using rec n w r count
    by (simp add: claim_next_def claim_with_def bind_op_def lease_seconds_def transaction_def claim_row_def
        update_jobs_def return_op_def)
  have fj: "find_job ?s' k = (if k = j_job_id r then Some (?f r) else find_job s1 k)" for k
    using find_job_update [of s1 "j_job_id r" r ?P ?f k] inv1 find P by (simp add: find_job_def)
  show ?thesis
    unfolding if_not_P [OF False]
  proof (rule exI [of _ r], rule exI [of _ "?f r"], rule exI [of _ ?c], rule exI [of _ ?s'], intro conjI)
    show "claim_next w now n aid token s = (Inr (Some ?c), ?s')" by (rule call)
  qed (use least fj in simp_all)
qed

lemma claimable_eq: "claimable now = (\<lambda>x. j_state x \<in> {QUEUED, RETRY_WAIT} \<and> j_available_at x \<le> now)"
  by (simp add: claimable_def fun_eq_iff)

text \<open>
  C22. \<open>claim_next\<close> leases the due job that is first by priority, then availability, then
  schedule, then identifier, among the jobs that are due once expired leases have been
  recovered; it returns nothing only when no job is due, and it touches no other job.
\<close>

theorem store_claim_first:
  assumes inv: "store_inv s" and w: "w \<noteq> []" and n: "1 \<le> n" "n \<le> 3600"
    and rec: "recover_expired now aid s = (Inr ids, s1)"
  shows "let due = filter (\<lambda>x. j_state x \<in> {QUEUED, RETRY_WAIT} \<and> j_available_at x \<le> now) (s_jobs s1) in
    if due = [] then claim_next w now n aid token s = (Inr None, s1)
    else \<exists>r r' c s'. r \<in> set due \<and>
      (\<forall>x \<in> set due. (j_priority r, j_available_at r, j_scheduled_for r, j_job_id r) \<le>
         (j_priority x, j_available_at x, j_scheduled_for x, j_job_id x)) \<and>
      claim_next w now n aid token s = (Inr (Some c), s') \<and>
      cj_job_id c = j_job_id r \<and> cj_claim_token c = token \<and>
      j_state r' = CLAIMED \<and> j_claim_token r' = Some token \<and> j_lease_expires_at r' = Some (now + seconds n) \<and>
      (\<forall>k. find_job s' k = (if k = j_job_id r then Some r' else find_job s1 k))"
  using claim_next_first [OF assms, of token, unfolded claimable_eq claim_key_def] unfolding Let_def .

lemma sample_recover: "recover_expired 10 (\<lambda>i. ''audit_'' @ i) queued_store = (Inr [], queued_store)"
  by (simp add: recover_expired_def transaction_def expired_claim_def queued_store_fields enqueue_row_def)

lemma queued_inv: "store_inv queued_store"
proof -
  have "reaches store_exec store_admissible empty_store [SEnqueue sample_env 0 sample_ids (enqueue_defaults ''boe.rate'')]
      queued_store" by (simp add: queued_store_def)
  then show ?thesis by (rule ls.reaches_inv [OF _ store_inv_empty])
qed

theorem store_claim_first_witness:
  "\<exists>c s'. claim_next ''w'' 10 60 (\<lambda>i. ''audit_'' @ i) ''claim_1'' queued_store = (Inr (Some c), s') \<and>
     cj_job_id c = ''job_1''"
proof -
  let ?due = "filter (\<lambda>x. j_state x \<in> {QUEUED, RETRY_WAIT} \<and> j_available_at x \<le> 10) (s_jobs queued_store)"
  have due: "?due \<noteq> []" "\<forall>r \<in> set ?due. j_job_id r = ''job_1''"
    by (simp_all add: queued_store_fields enqueue_row_def)
  have args: "''w'' \<noteq> []" "1 \<le> (60::int)" "(60::int) \<le> 3600" by simp_all
  have "\<exists>r r' c s'. r \<in> set ?due \<and>
      (\<forall>x \<in> set ?due. (j_priority r, j_available_at r, j_scheduled_for r, j_job_id r) \<le>
         (j_priority x, j_available_at x, j_scheduled_for x, j_job_id x)) \<and>
      claim_next ''w'' 10 60 (\<lambda>i. ''audit_'' @ i) ''claim_1'' queued_store = (Inr (Some c), s') \<and>
      cj_job_id c = j_job_id r \<and> cj_claim_token c = ''claim_1'' \<and>
      j_state r' = CLAIMED \<and> j_claim_token r' = Some ''claim_1'' \<and> j_lease_expires_at r' = Some (10 + seconds 60) \<and>
      (\<forall>k. find_job s' k = (if k = j_job_id r then Some r' else find_job queued_store k))"
    using store_claim_first [OF queued_inv args sample_recover, of "''claim_1''"]
    unfolding Let_def if_not_P [OF due(1)] .
  then obtain r c s' where r: "r \<in> set ?due"
    and c: "claim_next ''w'' 10 60 (\<lambda>i. ''audit_'' @ i) ''claim_1'' queued_store = (Inr (Some c), s')" "cj_job_id c = j_job_id r"
    by (elim exE conjE) (rule that)
  have "j_job_id r = ''job_1''" using bspec [OF due(2) r] .
  then show ?thesis using c by auto
qed

section \<open>Enqueue\<close>

lemma sync_registry_jobs: "sync_registry sha reg now s = (res, s1) \<Longrightarrow> s_jobs s1 = s_jobs s \<and> s_attempts s1 = s_attempts s"
  using sync_registry_frame [of sha reg now s] by auto

lemma enqueue_prepare_pairs:
  "enqueue_prepare env a = Inr p \<Longrightarrow> \<exists>kvs. redact_pairs (en_urllib env) kvs = Inr (pj_request p)"
  by (auto simp: enqueue_prepare_def Let_def split: sum.splits store_error.splits if_splits option.splits)

text \<open>
  C32. What \<open>enqueue\<close> does to the job table: if it raises, nothing is enqueued; if it deduplicates,
  nothing is enqueued and the job it names exists in the state it reports; if it accepts, exactly
  one job is appended, queued and never attempted, due at its scheduled time, under a fresh id and
  dedupe key, and the request it persists is free of secrets.
\<close>

theorem store_enqueue_effect:
  assumes "enqueue env clock ids a s = (res, s')"
  shows "case res of Inl e \<Rightarrow> s_jobs s' = s_jobs s
    | Inr x \<Rightarrow> if er_disposition x = ''deduplicated''
        then s_jobs s' = s_jobs s \<and> (\<exists>r \<in> set (s_jobs s). j_job_id r = er_job_id x \<and> j_state r = er_state x)
        else er_disposition x = ''accepted'' \<and> er_state x = QUEUED \<and> (\<exists>r. s_jobs s' = s_jobs s @ [r] \<and>
          j_job_id r = er_job_id x \<and> j_state r = QUEUED \<and> j_attempt_count r = 0 \<and>
          j_available_at r = (case ea_scheduled_for a of None \<Rightarrow> clock | Some t \<Rightarrow> t) \<and>
          1 \<le> j_max_attempts r \<and> j_max_attempts r \<le> 20 \<and>
          j_job_id r \<notin> j_job_id ` set (s_jobs s) \<and> j_dedupe_key r \<notin> j_dedupe_key ` set (s_jobs s) \<and>
          secret_free (j_request r))"
proof -
  let ?now = "case ea_scheduled_for a of None \<Rightarrow> clock | Some t \<Rightarrow> t"
  obtain y s1 where sync: "sync_registry (en_sha env) (en_registry env) clock s = (y, s1)" by fastforce
  have jobs: "s_jobs s1 = s_jobs s" using sync_registry_jobs [OF sync] by simp
  show ?thesis
  proof (cases res)
    case (Inl e)
    then have "s_jobs s' = s_jobs s1"
      using assms sync by (auto simp: enqueue_def bind_op_def raise_op_def dest: transaction_Inl split: sum.splits)
    then show ?thesis using Inl jobs by simp
  next
    case (Inr x)
    then obtain p where p: "enqueue_prepare env a = Inr p" "enqueue_insert env ids a p ?now s1 = (Inr x, s')"
      using assms sync by (auto simp: enqueue_def bind_op_def raise_op_def transaction_Inr split: sum.splits)
    have free: "secret_free (JObj (pj_request p))"
      using enqueue_prepare_pairs [OF p(1)] redact_secret_free(2) by blast
    show ?thesis
    proof (cases "er_disposition x = ''deduplicated''")
      case True
      then have "s' = s1 \<and> (\<exists>r \<in> set (s_jobs s1). j_job_id r = er_job_id x \<and> j_state r = er_state x)"
        using p(2) by (auto simp: enqueue_insert_def Let_def bind_op_Inr return_op_def split: option.splits if_splits
            dest!: lookup_by_Some)
      then show ?thesis using Inr True jobs by simp
    next
      case False
      then obtain i s2 where i: "insert_job (enqueue_row env a p ?now (ei_job ids) i) s1 = (Inr (), s2)"
        "s_jobs s' = s_jobs s2" "x = \<lparr>er_job_id = ei_job ids, er_disposition = ''accepted'', er_state = QUEUED\<rparr>"
        using p(2) by (auto simp: enqueue_insert_def Let_def bind_op_Inr return_op_def split: option.splits if_splits
            dest!: audit_frame)
      let ?r = "enqueue_row env a p ?now (ei_job ids) i"
      have "s_jobs s2 = s_jobs s @ [?r]" "job_row_ok s1 ?r"
        using i(1) jobs by (auto simp: insert_job_def split: if_splits)
      moreover from this(2) have "j_job_id ?r \<notin> j_job_id ` set (s_jobs s)" "j_dedupe_key ?r \<notin> j_dedupe_key ` set (s_jobs s)"
        "1 \<le> j_max_attempts ?r" "j_max_attempts ?r \<le> 20"
        by (simp_all add: job_row_ok_def lookup_by_None_iff jobs)
      ultimately show ?thesis using Inr False i(2,3) free
        by (auto simp: enqueue_row_def intro!: exI [of _ ?r])
    qed
  qed
qed

theorem store_enqueue_effect_witness:
  "\<exists>r. s_jobs queued_store = [r] \<and> j_state r = QUEUED \<and> j_available_at r = 0"
proof -
  obtain x where x: "enqueue sample_env 0 sample_ids (enqueue_defaults ''boe.rate'') empty_store = (x, queued_store)"
    "x = Inr \<lparr>er_job_id = ''job_1'', er_disposition = ''accepted'', er_state = QUEUED\<rparr>"
    using queued_store_fields(1) unfolding queued_store_def
    by (cases "enqueue sample_env 0 sample_ids (enqueue_defaults ''boe.rate'') empty_store") simp
  show ?thesis
    using store_enqueue_effect [OF x(1)] unfolding x(2) by (auto simp: empty_store_def enqueue_defaults_def)
qed

text \<open>The only way a deduplicated or accepted key is written: the row carries the key of its arguments.\<close>

lemma enqueue_accepted_row:
  assumes "enqueue env clock ids a s = (Inr x, s')" and "er_disposition x = ''accepted''"
  obtains p i r where "enqueue_prepare env a = Inr p" "s_jobs s' = s_jobs s @ [r]" "j_job_id r = er_job_id x"
    "j_dedupe_key r = enqueue_dedupe (en_sha env) a p (case ea_scheduled_for a of None \<Rightarrow> clock | Some t \<Rightarrow> t) i"
    "ea_trigger a \<noteq> ''manual'' \<or> ea_request_instance_id a \<noteq> None \<Longrightarrow> i = ea_request_instance_id a"
proof -
  let ?now = "case ea_scheduled_for a of None \<Rightarrow> clock | Some t \<Rightarrow> t"
  obtain y s1 where sync: "sync_registry (en_sha env) (en_registry env) clock s = (y, s1)" by fastforce
  have jobs: "s_jobs s1 = s_jobs s" using sync_registry_jobs [OF sync] by simp
  obtain p where p: "enqueue_prepare env a = Inr p" "enqueue_insert env ids a p ?now s1 = (Inr x, s')"
    using assms sync by (auto simp: enqueue_def bind_op_def raise_op_def transaction_Inr split: sum.splits)
  then obtain i s2 where i: "insert_job (enqueue_row env a p ?now (ei_job ids) i) s1 = (Inr (), s2)"
    "s_jobs s' = s_jobs s2" "er_job_id x = ei_job ids"
    "ea_trigger a \<noteq> ''manual'' \<or> ea_request_instance_id a \<noteq> None \<Longrightarrow> i = ea_request_instance_id a"
    using assms(2) by (auto simp: enqueue_insert_def Let_def bind_op_Inr return_op_def split: option.splits if_splits
        dest!: audit_frame)
  then have "s_jobs s' = s_jobs s @ [enqueue_row env a p ?now (ei_job ids) i]"
    using jobs by (auto simp: insert_job_def split: if_splits)
  then show thesis using that [OF p(1), of _ i] i(3,4) by (simp add: enqueue_row_def)
qed

text \<open>
  C33. Identified requests are idempotent: once \<open>enqueue\<close> has accepted a request that is not an
  anonymous manual one, repeating the call with the same arguments, at any later time and
  after any further operations, even when the job has finished, either fails to synchronise the
  registry or names the first job again; it never enqueues a second one.
\<close>

theorem store_enqueue_idempotent:
  assumes inv: "store_inv s" and first: "enqueue env clock ids a s = (Inr x, s')" "er_disposition x = ''accepted''"
    and known: "ea_trigger a \<noteq> ''manual'' \<or> ea_request_instance_id a \<noteq> None"
    and time: "ea_trigger a \<noteq> ''schedule'' \<or> ea_scheduled_for a \<noteq> None"
    and later: "reaches store_exec store_admissible s' cs s''"
    and again: "enqueue env clock' ids' a s'' = (res, s3)"
  shows "s_jobs s3 = s_jobs s'' \<and> (case res of Inl e \<Rightarrow> fst (sync_registry (en_sha env) (en_registry env) clock' s'') = Inl e
    | Inr y \<Rightarrow> er_disposition y = ''deduplicated'' \<and> er_job_id y = er_job_id x)"
proof -
  let ?now = "\<lambda>clock. case ea_scheduled_for a of None \<Rightarrow> clock | Some t \<Rightarrow> t"
  obtain p i r where p: "enqueue_prepare env a = Inr p" and r: "s_jobs s' = s_jobs s @ [r]" "j_job_id r = er_job_id x"
    and key: "j_dedupe_key r = enqueue_dedupe (en_sha env) a p (?now clock) i" and i: "i = ea_request_instance_id a"
    using enqueue_accepted_row [OF first] known by metis
  have inv': "store_inv s'" using grows_inv [OF enqueue_grows [OF inv, of env clock ids a]] first(1) by simp
  have "find_job s' (er_job_id x) = Some r" using find_job_mem [OF inv', of r] r by simp
  then obtain r' where r': "find_job s'' (er_job_id x) = Some r'" "same_row r r'"
    using reaches_row [OF later inv'] by blast
  have inv'': "store_inv s''" by (rule ls.reaches_inv [OF later inv'])
  have mem: "r' \<in> set (s_jobs s'')" "j_job_id r' = er_job_id x"
    using lookup_by_Some r'(1) unfolding find_job_def by fastforce+
  have dd: "enqueue_dedupe (en_sha env) a p (?now clock') i = j_dedupe_key r'"
  proof -
    have "enqueue_dedupe (en_sha env) a p (?now clock') i = enqueue_dedupe (en_sha env) a p (?now clock) i"
      using time by (auto simp: enqueue_dedupe_def split: option.splits)
    then show ?thesis using key r'(2) by (simp add: same_row_def)
  qed
  obtain y s1 where sync: "sync_registry (en_sha env) (en_registry env) clock' s'' = (y, s1)" by fastforce
  have jobs: "s_jobs s1 = s_jobs s''" using sync_registry_jobs [OF sync] by simp
  have hit: "lookup_by j_dedupe_key (enqueue_dedupe (en_sha env) a p (?now clock') (ea_request_instance_id a)) (s_jobs s1) = Some r'"
    using lookup_by_unique [of j_dedupe_key "s_jobs s''" r'] mem(1) inv'' dd i by (simp add: jobs store_inv_def)
  show ?thesis
  proof (cases y)
    case (Inl e)
    then show ?thesis using again sync jobs by (auto simp: enqueue_def bind_op_def)
  next
    case (Inr z)
    have "enqueue_insert env ids' a p (?now clock') s1 = (Inr \<lparr>er_job_id = j_job_id r',
        er_disposition = ''deduplicated'', er_state = j_state r'\<rparr>, s1)"
      using hit known by (auto simp: enqueue_insert_def Let_def)
    then show ?thesis using again sync Inr p jobs mem(2) by (auto simp: enqueue_def bind_op_def transaction_def)
  qed
qed

definition sample_backfill :: enqueue_args where
  "sample_backfill = (enqueue_defaults ''boe.rate'')\<lparr>ea_request_instance_id := Some ''request_1''\<rparr>"

theorem store_enqueue_idempotent_witness:
  "\<exists>s' y. snd (enqueue sample_env 0 sample_ids sample_backfill empty_store) = s' \<and>
     fst (enqueue sample_env 9 (sample_ids\<lparr>ei_job := ''job_2''\<rparr>) sample_backfill s') = Inr y \<and>
     er_disposition y = ''deduplicated'' \<and> er_job_id y = ''job_1''"
proof -
  let ?call = "enqueue sample_env 0 sample_ids sample_backfill empty_store"
  let ?s = "snd ?call"
  let ?again = "enqueue sample_env 9 (sample_ids\<lparr>ei_job := ''job_2''\<rparr>) sample_backfill ?s"
  have first: "?call = (Inr \<lparr>er_job_id = ''job_1'', er_disposition = ''accepted'', er_state = QUEUED\<rparr>, ?s)"
    and ok: "\<exists>y. fst (sync_registry sample_sha sample_registry 9 ?s) = Inr y"
    by (simp_all add: sample_backfill_def enqueue_eval sample_simps)
  have again: "?again = (fst ?again, snd ?again)" by simp
  have cond: "ea_trigger sample_backfill \<noteq> ''manual'' \<or> ea_request_instance_id sample_backfill \<noteq> None"
    "ea_trigger sample_backfill \<noteq> ''schedule'' \<or> ea_scheduled_for sample_backfill \<noteq> None"
    by (simp_all add: sample_backfill_def enqueue_defaults_def)
  have "case fst ?again of Inl e \<Rightarrow> fst (sync_registry sample_sha sample_registry 9 ?s) = Inl e
    | Inr y \<Rightarrow> er_disposition y = ''deduplicated'' \<and> er_job_id y = ''job_1''"
    using store_enqueue_idempotent [OF store_inv_empty first _ cond _ again, of "[]"]
    by (auto simp: sample_simps split: sum.splits)
  then show ?thesis using ok by (auto split: sum.splits)
qed

section \<open>Finishing and recovering\<close>

lemma next_promotion_seq_fresh: "q \<in> set (s_promotions s) \<Longrightarrow> p_promotion_seq q < next_promotion_seq s"
proof -
  assume "q \<in> set (s_promotions s)"
  then have "p_promotion_seq q \<le> Max (insert 0 (set (map p_promotion_seq (s_promotions s))))"
    by (intro Max_ge) auto
  then show ?thesis by (simp add: next_promotion_seq_def)
qed

lemma promote_finished_promotion:
  assumes "promote_finished d run now pid s = (Inr u, s')"
  obtains p where "s_promotions s' = s_promotions s @ [p]" "p_run_id p = rh_run_id run" "p_decision p = ''approved''"
    "p_promotion_seq p = next_promotion_seq s"
  using assms by (auto simp: promote_finished_def insert_promotion_def insert_promotion_row_def split: if_splits)

lemma require_running_run_policy:
  "require_running_run run now s = Inr (job, policy) \<Longrightarrow> policy = job_retry_policy s job"
  by (auto simp: require_running_run_def job_retry_policy_def split: option.splits if_splits)


lemmas finish_eval = finish_run_def registry_lookup_def require_running_run_def owned_def dd_key_def dr_key_def
  finish_job_state_def close_attempt_def update_attempts_def update_runs_def update_jobs_def bind_op_def
  transaction_def promote_finished_def insert_promotion_def insert_promotion_row_def next_promotion_seq_def
  return_op_def raise_op_def Let_def rowcount_def update_where_def sample_run_def queued_definitions seconds_def

lemma running_run: "\<exists>r. s_runs running_store = [r] \<and> r_run_id r = ''run_1''"
  using running_store_fields(4) by (cases "s_runs running_store") auto


lemma recover_row_returns:
  assumes "lookup_by ae_audit_id (audit_id (j_job_id r)) (s_audit s) = None"
  shows "\<exists>e s'. recover_row now audit_id (p, r) s = (Inr (j_job_id r), s') \<and>
    s_audit s' = s_audit s @ [e] \<and> ae_audit_id e = audit_id (j_job_id r)"
  using assms by (auto simp: recover_row_def bind_op_def update_jobs_def audit_def return_op_def
      fail_running_attempt_def split: option.splits)

lemma recover_rows_return:
  assumes "distinct (map (\<lambda>(p, r). audit_id (j_job_id r)) prs)"
    and "\<forall>(p, r) \<in> set prs. lookup_by ae_audit_id (audit_id (j_job_id r)) (s_audit s) = None"
  shows "\<exists>s'. each_op (recover_row now audit_id) prs s = (Inr (map (j_job_id \<circ> snd) prs), s')"
  using assms
proof (induction prs arbitrary: s)
  case (Cons pr prs)
  obtain p r where pr: "pr = (p, r)" by (cases pr)
  obtain e s1 where s1: "recover_row now audit_id (p, r) s = (Inr (j_job_id r), s1)"
    "s_audit s1 = s_audit s @ [e]" "ae_audit_id e = audit_id (j_job_id r)"
    using recover_row_returns Cons.prems(2) pr by (metis (mono_tags, lifting) case_prodD list.set_intros(1))
  have "\<forall>(p', r') \<in> set prs. lookup_by ae_audit_id (audit_id (j_job_id r')) (s_audit s1) = None"
    using Cons.prems pr s1(2,3) by (force simp: lookup_by_append)
  then obtain s' where "each_op (recover_row now audit_id) prs s1 = (Inr (map (j_job_id \<circ> snd) prs), s')"
    using Cons.IH [of s1] Cons.prems(1) by auto
  then show ?case using s1(1) pr by simp
qed simp

lemma recover_expired_complete:
  assumes inv: "store_inv s" and inj: "inj audit_id"
    and fresh: "\<forall>i. audit_id i \<notin> ae_audit_id ` set (s_audit s)"
  shows "\<exists>s'. recover_expired now audit_id s = (Inr (map j_job_id (filter (expired_claim now) (s_jobs s))), s') \<and>
    (\<forall>r \<in> set (s_jobs s'). \<not> expired_claim now r) \<and>
    (\<forall>i r. find_job s i = Some r \<longrightarrow> (\<exists>r'. find_job s' i = Some r' \<and>
      (if \<not> expired_claim now r then r' = r
       else j_claim_token r' = None \<and> j_lease_expires_at r' = None \<and>
         (if j_state r = CLAIMED then j_state r' = QUEUED \<and> j_available_at r' = now
          else if j_attempt_count r < j_max_attempts r then j_state r' = RETRY_WAIT \<and> now \<le> j_available_at r'
          else j_state r' = DEAD_LETTER))))"
proof -
  let ?prs = "map (\<lambda>r. (job_retry_policy s r, r)) (filter (expired_claim now) (s_jobs s))"
  have "distinct (map j_job_id (s_jobs s))" using inv by (simp add: store_inv_def)
  then have "distinct (map (\<lambda>(p, r). audit_id (j_job_id r)) ?prs)"
    using inj by (auto simp: comp_def distinct_map inj_on_def inj_def)
  moreover have "\<forall>(p, r) \<in> set ?prs. lookup_by ae_audit_id (audit_id (j_job_id r)) (s_audit s) = None"
    using fresh by (auto simp: lookup_by_None_iff)
  ultimately obtain s' where "each_op (recover_row now audit_id) ?prs s = (Inr (map (j_job_id \<circ> snd) ?prs), s')"
    using recover_rows_return by blast
  then have run: "recover_expired now audit_id s = (Inr (map j_job_id (filter (expired_claim now) (s_jobs s))), s')"
    by (simp add: recover_expired_def transaction_def comp_def)
  have fj: "find_job s' k = (case find_job s k of None \<Rightarrow> None | Some r \<Rightarrow>
      Some (if expired_claim now r then recover_update now (job_retry_policy s r) r r else r))" for k
    by (rule recover_expired_moves(2) [OF inv run refl])
  have inv': "store_inv s'" using recover_expired_moves(1) [OF inv run] by (simp add: moves_def)
  have none: "\<not> expired_claim now r" if mem: "r \<in> set (s_jobs s')" for r
  proof -
    obtain x where "r = (if expired_claim now x then recover_update now (job_retry_policy s x) x x else x)"
      using find_job_mem [OF inv' mem] fj [of "j_job_id r"] by (auto split: option.splits)
    then show ?thesis
      by (auto simp: expired_claim_def recover_update_state recovery_target_def split: if_splits)
  qed
  have each: "\<exists>r'. find_job s' i = Some r' \<and>
      (if \<not> expired_claim now r then r' = r
       else j_claim_token r' = None \<and> j_lease_expires_at r' = None \<and>
         (if j_state r = CLAIMED then j_state r' = QUEUED \<and> j_available_at r' = now
          else if j_attempt_count r < j_max_attempts r then j_state r' = RETRY_WAIT \<and> now \<le> j_available_at r'
          else j_state r' = DEAD_LETTER))" if "find_job s i = Some r" for i r
    using fj [of i] that retry_timestamp_later [of now "job_retry_policy s r" "j_attempt_count r"]
    by (auto simp: recover_update_def recovery_target_def)
  show ?thesis using run none each by blast
qed

lemma expired_claim_lapsed: "expired_claim now r = lapsed (row_lease r) now"
  by (auto simp: expired_claim_def lapsed_def row_lease_def row_active_def sql_le_iff)



section \<open>Retry delays\<close>

text \<open>
  The delay before a retry is bounded by the persisted policy and never shrinks from one
  attempt to the next: it is at least the base delay and at most the maximal delay, whatever
  the policy column holds; without a readable policy it doubles from one minute up to one hour.
\<close>

theorem retry_delay_bounds:
  "now + seconds (fst (retry_bounds policy)) \<le> retry_timestamp now policy n \<and>
   retry_timestamp now policy n \<le> now + seconds (snd (retry_bounds policy)) \<and>
   0 \<le> fst (retry_bounds policy) \<and> retry_timestamp now policy n \<le> retry_timestamp now policy (n + 1) \<and>
   retry_timestamp now JNull n = now + seconds (min 3600 (60 * 2 ^ nat (max 0 (min (n - 1) 16))))"
proof -
  obtain b m where bm: "retry_bounds policy = (b, m)" by fastforce
  note range = retry_timestamp_range [OF bm, of now n] and r = retry_bounds_range [OF bm]
  have "b * 2 ^ nat (max 0 (min (n - 1) 16)) \<le> b * 2 ^ nat (max 0 (min (n + 1 - 1) 16))"
    using r by (intro mult_left_mono power_increasing) auto
  then have "retry_timestamp now policy n \<le> retry_timestamp now policy (n + 1)"
    unfolding retry_timestamp_def bm prod.case Let_def by (simp only: add_le_cancel_left seconds_mono) linarith
  moreover have "retry_bounds JNull = (60, 3600)" by (simp add: retry_bounds_def)
  then have "retry_timestamp now JNull n = now + seconds (min 3600 (60 * 2 ^ nat (max 0 (min (n - 1) 16))))"
    unfolding retry_timestamp_def by (simp only: prod.case Let_def)
  ultimately show ?thesis using range r unfolding bm fst_conv snd_conv by blast
qed

section \<open>Registry synchronisation\<close>

text \<open>The registry tables only ever grow.\<close>

definition registry_grows :: "store \<Rightarrow> store \<Rightarrow> bool" where
  "registry_grows s s' \<longleftrightarrow> (\<exists>a b c d. s_sources s' = s_sources s @ a \<and> s_definitions s' = s_definitions s @ b \<and>
     s_bindings s' = s_bindings s @ c \<and> s_schedules s' = s_schedules s @ d)"

text \<open>Later operations may also move the cursor of a schedule, which keeps what identifies it.\<close>

definition schedule_identity :: "schedule_row \<Rightarrow> string \<times> string \<times> string \<times> int \<times> string \<times> string" where
  "schedule_identity r = (sc_schedule_id r, sc_task_kind r, sc_datasource_id r, sc_definition_version r,
     sc_name r, sc_rule_hash r)"

definition registry_keeps :: "store \<Rightarrow> store \<Rightarrow> bool" where
  "registry_keeps s s' \<longleftrightarrow> (\<exists>a b c d. s_sources s' = s_sources s @ a \<and> s_definitions s' = s_definitions s @ b \<and>
     s_bindings s' = s_bindings s @ c \<and>
     map schedule_identity (s_schedules s') = map schedule_identity (s_schedules s) @ d)"

lemma registry_grows_refl: "registry_grows s s"
  by (simp add: registry_grows_def)

lemma registry_grows_trans: "registry_grows s s1 \<Longrightarrow> registry_grows s1 s2 \<Longrightarrow> registry_grows s s2"
  by (auto simp: registry_grows_def)

lemma registry_grows_keeps: "registry_grows s s' \<Longrightarrow> registry_keeps s s'"
  by (auto simp: registry_grows_def registry_keeps_def)

lemma registry_keeps_trans: "registry_keeps s s1 \<Longrightarrow> registry_keeps s1 s2 \<Longrightarrow> registry_keeps s s2"
  by (auto simp: registry_keeps_def)

lemma registry_keeps_refl: "registry_keeps s s"
  by (rule registry_grows_keeps [OF registry_grows_refl])

lemma registry_keeps_lookup:
  assumes "registry_keeps s s'"
  shows "lookup_by so_key k1 (s_sources s) = Some x1 \<Longrightarrow> lookup_by so_key k1 (s_sources s') = Some x1"
    and "lookup_by dr_key k2 (s_definitions s) = Some x2 \<Longrightarrow> lookup_by dr_key k2 (s_definitions s') = Some x2"
    and "lookup_by f3 k3 (s_bindings s) = Some x3 \<Longrightarrow> lookup_by f3 k3 (s_bindings s') = Some x3"
    and "lookup_by (\<lambda>r. g (schedule_identity r)) k4 (s_schedules s) \<noteq> None \<Longrightarrow>
      lookup_by (\<lambda>r. g (schedule_identity r)) k4 (s_schedules s') \<noteq> None"
proof -
  obtain a b c d where g: "s_sources s' = s_sources s @ a" "s_definitions s' = s_definitions s @ b"
    "s_bindings s' = s_bindings s @ c"
    "map schedule_identity (s_schedules s') = map schedule_identity (s_schedules s) @ d"
    using assms by (auto simp: registry_keeps_def)
  show "lookup_by so_key k1 (s_sources s) = Some x1 \<Longrightarrow> lookup_by so_key k1 (s_sources s') = Some x1"
    "lookup_by dr_key k2 (s_definitions s) = Some x2 \<Longrightarrow> lookup_by dr_key k2 (s_definitions s') = Some x2"
    "lookup_by f3 k3 (s_bindings s) = Some x3 \<Longrightarrow> lookup_by f3 k3 (s_bindings s') = Some x3"
    by (simp_all add: g(1-3) lookup_by_append)
  have "schedule_identity ` set (s_schedules s) \<subseteq> schedule_identity ` set (s_schedules s')"
    using arg_cong [OF g(4), of set] by auto
  then show "lookup_by (\<lambda>r. g (schedule_identity r)) k4 (s_schedules s) \<noteq> None \<Longrightarrow>
      lookup_by (\<lambda>r. g (schedule_identity r)) k4 (s_schedules s') \<noteq> None"
    unfolding lookup_by_None_iff by (auto simp: image_iff) (metis imageE image_eqI subset_iff)
qed

text \<open>An operation that succeeded once does nothing when it is repeated on a later store.\<close>

definition settles :: "'b store_op \<Rightarrow> 'b \<Rightarrow> 'a store_op \<Rightarrow> bool" where
  "settles again z m \<longleftrightarrow> (\<forall>s a s1. m s = (Inr a, s1) \<longrightarrow> registry_grows s s1 \<and>
     (\<forall>s2. registry_keeps s1 s2 \<longrightarrow> again s2 = (Inr z, s2)))"

lemma settles_insert_source: "settles (insert_source sha src now') False (insert_source sha src now)"
  unfolding settles_def
proof (intro allI impI, goal_cases)
  case (1 s a s1)
  obtain row where row: "lookup_by so_key (sr_key src) (s_sources s1) = Some row" "so_source_hash row = source_hash sha src"
    "registry_grows s s1"
    using 1 by (auto simp: insert_source_def lookup_by_append so_key_def registry_grows_def split: option.splits if_splits)
  show ?case
    using row registry_keeps_lookup(1) [OF _ row(1)] by (auto simp: insert_source_def)
qed

lemma settles_insert_definition: "settles (insert_definition sha d now') False (insert_definition sha d now)"
  unfolding settles_def
proof (intro allI impI, goal_cases)
  case (1 s a s1)
  obtain row where row: "lookup_by dr_key (dd_key d) (s_definitions s1) = Some row" "dr_definition_hash row = definition_hash sha d"
    "registry_grows s s1"
    using 1 by (auto simp: insert_definition_def lookup_by_append dr_key_def registry_grows_def split: option.splits if_splits)
  show ?case
    using row registry_keeps_lookup(2) [OF _ row(1)] by (auto simp: insert_definition_def)
qed

lemma settles_insert_binding: "settles (insert_binding d b) () (insert_binding d b)"
  unfolding settles_def
proof (intro allI impI, goal_cases)
  case (1 s a s1)
  let ?key = "\<lambda>r. (br_datasource_id r, br_definition_version r, br_source_id r, br_source_version r)"
  obtain row where row: "lookup_by ?key (dd_datasource_id d, dd_definition_version d, sb_source_id b, sb_source_version b)
      (s_bindings s1) = Some row" "registry_grows s s1"
    using 1 by (auto simp: insert_binding_def Let_def lookup_by_append registry_grows_def split: option.splits if_splits)
  show ?case
    using row registry_keeps_lookup(3) [OF _ row(1)] by (auto simp: insert_binding_def)
qed

lemma settles_insert_schedule: "settles (insert_schedule sha d now' sd) 0 (insert_schedule sha d now sd)"
  unfolding settles_def
proof (intro allI impI conjI, goal_cases)
  case (1 s a s1)
  then show ?case by (auto simp: insert_schedule_def Let_def registry_grows_def split: if_splits)
next
  case (2 s a s1 s2)
  let ?key = "\<lambda>r. (sc_task_kind r, sc_datasource_id r, sc_definition_version r, sc_name r, sc_rule_hash r)"
  let ?k = "(''ingest'', dd_datasource_id d, dd_definition_version d, sd_name sd, request_hash sha (JObj (sd_rule sd)))"
  let ?bad = "dd_default_lane d \<notin> lanes \<or> sd_catchup_policy sd \<notin> catchup_names \<or>
    length (request_hash sha (JObj (sd_rule sd))) \<noteq> 64 \<or>
    \<not> (1 \<le> sd_max_catchup_jobs sd \<and> sd_max_catchup_jobs sd \<le> 1000) \<or> sd_max_catchup_horizon_seconds sd < 0"
  let ?id = "\<lambda>s. lookup_by sc_schedule_id (schedule_id_of sha d (sd_name sd)) (s_schedules s) \<noteq> None"
  let ?same = "\<lambda>s. lookup_by ?key ?k (s_schedules s) \<noteq> None"
  have one: "?id s1 \<or> ?same s1 \<or> ?bad"
    using 2(1) by (auto simp: insert_schedule_def Let_def lookup_by_append split: if_splits option.splits)
  have "?id s1 \<Longrightarrow> ?id s2" "?same s1 \<Longrightarrow> ?same s2"
    using registry_keeps_lookup(4) [OF 2(2), where g = fst] registry_keeps_lookup(4) [OF 2(2), where g = snd]
    by (simp_all only: schedule_identity_def fst_conv snd_conv)
  then have "?id s2 \<or> ?same s2 \<or> ?bad" using one by blast
  then show ?case by (auto simp: insert_schedule_def Let_def)
qed

lemma settles_each:
  assumes "\<And>x. x \<in> set xs \<Longrightarrow> settles (g x) z (f x)"
  shows "settles (each_op g xs) (replicate (length xs) z) (each_op f xs)"
  unfolding settles_def
  using assms
proof (intro allI impI, induction xs)
  case Nil
  then show ?case by (auto intro: registry_grows_refl)
next
  case (Cons x xs)
  from Cons.prems(2) obtain a0 s0 as where x: "f x s = (Inr a0, s0)" and rest: "each_op f xs s0 = (Inr as, s1)"
    by (auto split: prod.splits sum.splits)
  have 1: "registry_grows s s0" "\<And>s2. registry_keeps s0 s2 \<Longrightarrow> g x s2 = (Inr z, s2)"
    using Cons.prems(1) [of x] x by (auto simp: settles_def)
  have 2: "registry_grows s0 s1" "\<And>s2. registry_keeps s1 s2 \<Longrightarrow> each_op g xs s2 = (Inr (replicate (length xs) z), s2)"
    using Cons.IH [OF _ rest] Cons.prems(1) by auto
  have "registry_keeps s0 s1" by (rule registry_grows_keeps [OF 2(1)])
  then show ?case
    using registry_grows_trans [OF 1(1) 2(1)] 1(2) 2(2) registry_keeps_trans by auto
qed

lemma settles_bind:
  assumes "settles again z m" and "\<And>a. settles (next_again z) y (k a)"
  shows "settles (bind_op again next_again) y (bind_op m k)"
  unfolding settles_def
proof (intro allI impI, goal_cases)
  case (1 s b s')
  then obtain a s1 where a: "m s = (Inr a, s1)" "k a s1 = (Inr b, s')" by (auto simp: bind_op_Inr)
  have m: "registry_grows s s1" "\<And>s2. registry_keeps s1 s2 \<Longrightarrow> again s2 = (Inr z, s2)"
    using assms(1) a(1) by (auto simp: settles_def)
  have k: "registry_grows s1 s'" "\<And>s2. registry_keeps s' s2 \<Longrightarrow> next_again z s2 = (Inr y, s2)"
    using assms(2) [of a] a(2) by (auto simp: settles_def)
  have "registry_keeps s1 s'" by (rule registry_grows_keeps [OF k(1)])
  then show ?case
    using registry_grows_trans [OF m(1) k(1)] m(2) k(2) registry_keeps_trans by (auto simp: bind_op_def)
qed

lemma settles_return: "settles (return_op y) y (return_op x)"
  by (simp add: settles_def return_op_def registry_grows_refl)

lemma settles_sync_definition: "settles (sync_definition sha now' d) (False, 0) (sync_definition sha now d)"
proof -
  have zero: "sum_list (replicate n 0) = (0::nat)" for n by (induction n) simp_all
  have "settles (sync_definition sha now' d)
      (False, sum_list (replicate (length (dd_schedules d)) 0)) (sync_definition sha now d)"
    unfolding sync_definition_def
    by (rule settles_bind [OF settles_insert_definition],
        rule settles_bind [OF settles_each [OF settles_insert_binding]],
        rule settles_bind [OF settles_each [OF settles_insert_schedule] settles_return])
  then show ?thesis by (simp only: zero)
qed

lemma sync_registry_settles:
  assumes "sync_registry sha reg now s = (Inr x, s')"
  shows "registry_grows s s'" and "registry_keeps s' s2 \<Longrightarrow>
    sync_registry sha reg now' s2 = (Inr \<lparr>sy_sources_inserted = 0, sy_definitions_inserted = 0,
      sy_schedules_inserted = 0\<rparr>, s2)"
proof -
  let ?res = "\<lambda>srcs (defs :: (bool \<times> nat) list). \<lparr>sy_sources_inserted = length (filter id srcs),
    sy_definitions_inserted = length (filter fst defs), sy_schedules_inserted = sum_list (map snd defs)\<rparr>"
  let ?body = "\<lambda>now. bind_op (each_op (\<lambda>src. insert_source sha src now) (rg_sources reg)) (\<lambda>srcs.
        bind_op (each_op (sync_definition sha now) (rg_definitions reg)) (\<lambda>defs. return_op (?res srcs defs)))"
  let ?n = "length (rg_sources reg)" and ?m = "length (rg_definitions reg)"
  have "settles (?body now') (?res (replicate ?n False) (replicate ?m (False, 0))) (?body now)"
    by (rule settles_bind [OF settles_each [OF settles_insert_source]],
        rule settles_bind [OF settles_each [OF settles_sync_definition] settles_return])
  moreover have "?res (replicate ?n False) (replicate ?m (False, 0)) =
      \<lparr>sy_sources_inserted = 0, sy_definitions_inserted = 0, sy_schedules_inserted = 0\<rparr>"
    by (simp add: sum_list_replicate)
  moreover have "?body now s = (Inr x, s')" using assms by (simp add: sync_registry_def transaction_Inr)
  ultimately show "registry_grows s s'" and "registry_keeps s' s2 \<Longrightarrow>
    sync_registry sha reg now' s2 = (Inr \<lparr>sy_sources_inserted = 0, sy_definitions_inserted = 0,
      sy_schedules_inserted = 0\<rparr>, s2)"
    by (auto simp: settles_def sync_registry_def transaction_Inr)
qed

text \<open>
  Registry synchronisation is append-only and idempotent: it adds rows and changes none, and a
  second synchronisation with the same registry, at any later time, writes nothing and reports
  nothing inserted.
\<close>

theorem sync_registry_idempotent:
  assumes "sync_registry sha reg now s = (Inr x, s')"
  shows "registry_grows s s' \<and> s_jobs s' = s_jobs s \<and>
    sync_registry sha reg now' s' = (Inr \<lparr>sy_sources_inserted = 0, sy_definitions_inserted = 0,
      sy_schedules_inserted = 0\<rparr>, s')"
  using sync_registry_settles(1) [OF assms] sync_registry_settles(2) [OF assms registry_keeps_refl]
    sync_registry_jobs [OF assms] by blast

theorem sync_registry_idempotent_witness:
  "\<exists>s'. snd (sync_registry sample_sha sample_registry 0 empty_store) = s' \<and> s_definitions s' \<noteq> [] \<and>
     snd (sync_registry sample_sha sample_registry 9 s') = s'"
proof -
  let ?call = "sync_registry sample_sha sample_registry 0 empty_store"
  obtain x where x: "?call = (Inr x, snd ?call)" and defs: "s_definitions (snd ?call) \<noteq> []"
    by (simp add: sync_eval sample_simps empty_store_def)
  show ?thesis using sync_registry_idempotent [OF x, of 9] defs by simp
qed

end
