(* ===== verification/Scheduler.thy ===== *)
theory Scheduler
  imports JobStoreCorrect Schedules
begin

text \<open>
  \<open>OperationalStore.scheduler_tick\<close>: synchronise the registry, recover lapsed leases, then turn
  the due slots of every enabled schedule into jobs and advance its cursor. Each \<open>enqueue\<close> is a
  transaction of its own and the cursor moves only after all of them, so a tick that stops half way
  is repeated by the next one, and deduplication makes the repetition harmless.
\<close>

section \<open>The tick\<close>

definition pause_schedule :: "string \<Rightarrow> string \<Rightarrow> instant \<Rightarrow> unit store_op" where
  "pause_schedule schedule_id reason now s =
     (Inr (), s\<lparr>s_schedules := update_where (\<lambda>x. sc_schedule_id x = schedule_id)
        (\<lambda>x. x\<lparr>sc_paused_reason := Some reason, sc_updated_at := now\<rparr>) (s_schedules s)\<rparr>)"

definition update_schedule_cursor :: "string \<Rightarrow> instant \<Rightarrow> instant \<Rightarrow> instant \<Rightarrow> unit store_op" where
  "update_schedule_cursor schedule_id cursor_at next_due_at now s =
     (Inr (), s\<lparr>s_schedules := update_where (\<lambda>x. sc_schedule_id x = schedule_id)
        (\<lambda>x. x\<lparr>sc_cursor_at := Some cursor_at, sc_next_due_at := Some next_due_at,
           sc_paused_reason := None, sc_updated_at := now\<rparr>) (s_schedules s)\<rparr>)"

definition catchup_of_text :: "string \<Rightarrow> catchup_policy option" where
  "catchup_of_text t =
     (if t = ''latest_only'' then Some LATEST_ONLY else if t = ''windowed'' then Some WINDOWED
      else if t = ''all_slots'' then Some ALL_SLOTS else if t = ''manual'' then Some MANUAL else None)"

text \<open>The guarded block: the recurrence, the cursor the search starts from, and the due slots.\<close>

definition schedule_due ::
  "tzdb \<Rightarrow> instant \<Rightarrow> schedule_row \<Rightarrow> job_error + recurrence \<times> instant \<times> schedule_materialization" where
  "schedule_due tz anchor sc =
     (case recurrence_from_rule tz (sc_rule sc) (sc_timezone sc) (sc_created_at sc) of
        Inl e \<Rightarrow> Inl e
      | Inr rec \<Rightarrow>
          (let cursor = (case sc_cursor_at sc of Some c \<Rightarrow> c | None \<Rightarrow> sc_created_at sc);
               horizon = (if sc_max_catchup_horizon_seconds sc \<noteq> 0
                 then Some (seconds (sc_max_catchup_horizon_seconds sc)) else None)
           in case catchup_of_text (sc_catchup_policy sc) of
                None \<Rightarrow> Inl (JobValueError ''invalid CatchupPolicy'')
              | Some policy \<Rightarrow>
                  (case materialize_due_slots (next_after tz rec) (Some cursor) anchor policy
                      (sc_max_catchup_jobs sc) horizon of
                     Inl e \<Rightarrow> Inl e
                   | Inr due \<Rightarrow> Inr (rec, cursor, due))))"

text \<open>
  \<open>except (JobError, ValueError, TypeError)\<close> and \<open>type(error).__name__\<close>. \<open>OverflowError\<close> and
  \<open>ZoneInfoNotFoundError\<close> (a \<open>KeyError\<close>) are neither, so they leave the tick.
\<close>

fun caught_name :: "job_error \<Rightarrow> string option" where
  "caught_name (JobError _) = Some ''JobError''"
| "caught_name (StaleClaimError _) = Some ''StaleClaimError''"
| "caught_name (JobValueError _) = Some ''ValueError''"
| "caught_name (QueueKeyError _) = None"
| "caught_name JobOverflowError = None"
| "caught_name (ZoneInfoNotFoundError _) = None"

definition slot_args :: "definition_descriptor \<Rightarrow> schedule_row \<Rightarrow> instant \<Rightarrow> enqueue_args" where
  "slot_args d sc slot = (enqueue_defaults (dd_datasource_id d))\<lparr>
     ea_request := Some (AList.update ''scheduled_slot'' (ts_json slot) (dd_default_request d)),
     ea_trigger := ''schedule'', ea_lane := Some (sc_lane sc), ea_scheduled_for := Some slot,
     ea_schedule_id := Some (sc_schedule_id sc)\<rparr>"

fun enqueue_slots ::
  "env \<Rightarrow> instant \<Rightarrow> (instant \<Rightarrow> enqueue_ids) \<Rightarrow> definition_descriptor \<Rightarrow> schedule_row \<Rightarrow> instant list \<Rightarrow>
   (nat \<times> nat) store_op" where
  "enqueue_slots env clock ids d sc [] s = (Inr (0, 0), s)"
| "enqueue_slots env clock ids d sc (slot # slots) s =
     (case enqueue env clock (ids slot) (slot_args d sc slot) s of
        (Inl e, s1) \<Rightarrow> (Inl e, s1)
      | (Inr r, s1) \<Rightarrow>
          (case enqueue_slots env clock ids d sc slots s1 of
             (Inl e, s2) \<Rightarrow> (Inl e, s2)
           | (Inr (accepted, deduplicated), s2) \<Rightarrow>
               (Inr (if er_disposition r = ''accepted'' then (accepted + 1, deduplicated)
                     else (accepted, deduplicated + 1)), s2)))"

datatype tick_entry =
    Materialized string string nat nat int
  | Blocked string string string
  | TickError string string string

definition finish_schedule ::
  "tzdb \<Rightarrow> instant \<Rightarrow> definition_descriptor \<Rightarrow> schedule_row \<Rightarrow> recurrence \<Rightarrow> instant \<Rightarrow> schedule_materialization \<Rightarrow>
   nat \<times> nat \<Rightarrow> tick_entry store_op" where
  "finish_schedule tz anchor d sc rec cursor due counts =
     (let next_cursor = (case sm_next_cursor_at due of Some c \<Rightarrow> c | None \<Rightarrow> cursor)
      in case next_after tz rec next_cursor of
           Inl e \<Rightarrow> raise_op (StoreJobError e)
         | Inr next_due \<Rightarrow>
             bind_op (update_schedule_cursor (sc_schedule_id sc) next_cursor next_due anchor) (\<lambda>_.
             return_op (Materialized (sc_schedule_id sc) (dd_datasource_id d) (fst counts) (snd counts)
               (sm_skipped_slots due))))"

definition tick_schedule ::
  "env \<Rightarrow> runtime_bindings \<Rightarrow> tzdb \<Rightarrow> instant \<Rightarrow> (string \<Rightarrow> instant \<Rightarrow> enqueue_ids) \<Rightarrow> instant \<Rightarrow> schedule_row \<Rightarrow>
   tick_entry store_op" where
  "tick_schedule env bs tz clock ids anchor sc =
     (case registry_lookup (en_registry env) (sc_datasource_id sc) (Some (sc_definition_version sc)) of
        Inl e \<Rightarrow> raise_op e
      | Inr d \<Rightarrow>
     (case bindings_validate bs d ''ingest'' of
        Inl e \<Rightarrow> raise_op e
      | Inr v \<Rightarrow>
          if \<not> rv_ready v
          then return_op (Blocked (sc_schedule_id sc) (dd_datasource_id d) ''runtime_unbound'')
          else case schedule_due tz anchor sc of
            Inl e \<Rightarrow>
              (case caught_name e of
                 None \<Rightarrow> raise_op (StoreJobError e)
               | Some name \<Rightarrow>
                   bind_op (pause_schedule (sc_schedule_id sc) ''SCHEDULE_INVALID'' anchor) (\<lambda>_.
                   return_op (TickError (sc_schedule_id sc) ''SCHEDULE_INVALID'' name)))
          | Inr (rec, cursor, due) \<Rightarrow> (\<lambda>s.
              case enqueue_slots env clock (ids (sc_schedule_id sc)) d sc (sm_slots due) s of
                (Inl (OperationalError m), s1) \<Rightarrow>
                  (Inr (TickError (sc_schedule_id sc) ''SCHEDULE_ENQUEUE_FAILED'' ''OperationalError''), s1)
              | (Inl e, s1) \<Rightarrow> (Inl e, s1)
              | (Inr counts, s1) \<Rightarrow> finish_schedule tz anchor d sc rec cursor due counts s1)))"

definition active_schedules :: "store \<Rightarrow> schedule_row list" where
  "active_schedules s =
     sort_key sc_schedule_id (filter (\<lambda>x. sc_enabled x \<and> sc_paused_reason x = None) (s_schedules s))"

record tick_report =
  tr_at :: instant
  tr_recovered_job_ids :: "string list"
  tr_entries :: "tick_entry list"

definition scheduler_tick ::
  "env \<Rightarrow> runtime_bindings \<Rightarrow> tzdb \<Rightarrow> instant \<Rightarrow> (string \<Rightarrow> instant \<Rightarrow> enqueue_ids) \<Rightarrow> (string \<Rightarrow> string) \<Rightarrow> instant \<Rightarrow>
   tick_report store_op" where
  "scheduler_tick env bs tz clock ids audit_id anchor =
     bind_op (sync_registry (en_sha env) (en_registry env) anchor) (\<lambda>_.
     bind_op (recover_expired anchor audit_id) (\<lambda>recovered.
     bind_op (\<lambda>s. each_op (tick_schedule env bs tz clock ids anchor) (active_schedules s) s) (\<lambda>entries.
     return_op \<lparr>tr_at = anchor, tr_recovered_job_ids = recovered, tr_entries = entries\<rparr>)))"

section \<open>What a tick does to the job table\<close>

text \<open>
  After the recovery a tick only appends fresh queued jobs and moves schedule cursors.
\<close>

definition extends :: "store \<Rightarrow> store \<Rightarrow> bool" where
  "extends s s' \<longleftrightarrow> store_inv s' \<and> registry_keeps s s' \<and> s_attempts s' = s_attempts s \<and>
     (\<exists>fresh. s_jobs s' = s_jobs s @ fresh \<and> (\<forall>r \<in> set fresh. new_lease (row_lease r)))"

lemma extends_refl: "store_inv s \<Longrightarrow> extends s s"
  by (auto simp: extends_def registry_keeps_refl)

lemma extends_trans: "extends s s1 \<Longrightarrow> extends s1 s2 \<Longrightarrow> extends s s2"
  unfolding extends_def using registry_keeps_trans by (auto simp: ball_Un)

lemma extends_inv: "extends s s' \<Longrightarrow> store_inv s'"
  by (simp add: extends_def)

lemma extends_find:
  assumes "extends s s'"
  shows "find_job s i = Some r \<Longrightarrow> find_job s' i = Some r"
    and "find_job s i = None \<Longrightarrow> find_job s' i = Some r \<Longrightarrow> new_lease (row_lease r)"
proof -
  obtain fresh where s': "s_jobs s' = s_jobs s @ fresh" and new: "\<forall>r \<in> set fresh. new_lease (row_lease r)"
    using assms by (auto simp: extends_def)
  have find: "find_job s' i = (case find_job s i of None \<Rightarrow> lookup_by j_job_id i fresh | Some r \<Rightarrow> Some r)"
    by (simp add: find_job_def s' lookup_by_append)
  then show "find_job s i = Some r \<Longrightarrow> find_job s' i = Some r" by simp
  assume "find_job s i = None" "find_job s' i = Some r"
  then have "lookup_by j_job_id i fresh = Some r" using find by simp
  then show "new_lease (row_lease r)" using new lookup_by_Some by fastforce
qed

lemma extends_schedules:
  assumes "store_inv s" and "s_jobs s' = s_jobs s" "s_attempts s' = s_attempts s" and "registry_keeps s s'"
  shows "extends s s'"
  using assms store_inv_cong [of s s'] by (simp add: extends_def)

lemma update_schedule_identity:
  assumes "\<And>x. schedule_identity (f x) = schedule_identity x"
  shows "registry_keeps s (s\<lparr>s_schedules := update_where P f (s_schedules s)\<rparr>)"
proof -
  have "map schedule_identity (update_where P f (s_schedules s)) = map schedule_identity (s_schedules s)"
    using assms by (simp add: update_where_def)
  then show ?thesis by (auto simp: registry_keeps_def intro: exI [of _ "[]"])
qed

lemma cursor_ops_extend:
  assumes "store_inv s"
  shows "extends s (snd (pause_schedule i reason now s))"
    and "extends s (snd (update_schedule_cursor i c n now s))"
  using assms
  by (auto intro!: extends_schedules update_schedule_identity
      simp: pause_schedule_def update_schedule_cursor_def schedule_identity_def)

lemma registry_keeps_frame:
  assumes "s_sources s' = s_sources s" "s_definitions s' = s_definitions s" "s_bindings s' = s_bindings s"
    "s_schedules s' = s_schedules s"
  shows "registry_keeps s s'"
  using assms by (simp add: registry_keeps_def)

lemma enqueue_insert_registry:
  assumes "enqueue_insert env ids a p now s = (Inr res, s')"
  shows "registry_keeps s s'"
  by (rule registry_keeps_frame)
    (use assms in \<open>auto simp: enqueue_insert_def Let_def bind_op_Inr return_op_def insert_job_def audit_def
      split: option.splits if_splits\<close>)

lemma enqueue_extends:
  assumes inv: "store_inv s"
  shows "extends s (snd (enqueue env clock ids a s))"
proof (cases "sync_registry (en_sha env) (en_registry env) clock s")
  case (Pair y s1)
  have "registry_keeps s s1"
  proof (cases y)
    case (Inl e)
    then show ?thesis using Pair by (auto simp: sync_registry_def registry_keeps_refl dest: transaction_Inl)
  next
    case (Inr x)
    then show ?thesis using Pair sync_registry_settles(1) registry_grows_keeps by blast
  qed
  then have 1: "extends s s1" using extends_schedules [OF inv] sync_registry_jobs [OF Pair] by blast
  have 2: "extends s1 (snd (transaction (enqueue_insert env ids a p t) s1))" for p t
  proof -
    have "extends s1 s2" if t: "enqueue_insert env ids a p t s1 = (Inr x, s2)" for x s2
      using grows_inv [OF enqueue_insert_grows [OF extends_inv [OF 1] t]]
        enqueue_insert_adds [OF t] enqueue_insert_registry [OF t] by (auto simp: extends_def adds_def)
    then show ?thesis
      using extends_refl [OF extends_inv [OF 1]]
      by (cases rule: transaction_cases [of "enqueue_insert env ids a p t" s1]) auto
  qed
  show ?thesis using Pair 1 extends_trans [OF 1 2]
    by (auto simp: enqueue_def bind_op_def raise_op_def split: sum.splits)
qed

lemma enqueue_slots_extends: "store_inv s \<Longrightarrow> extends s (snd (enqueue_slots env clock ids d sc slots s))"
proof (induction slots arbitrary: s)
  case (Cons slot slots)
  obtain y s1 where one: "enqueue env clock (ids slot) (slot_args d sc slot) s = (y, s1)" by fastforce
  have 1: "extends s s1" using enqueue_extends [OF Cons.prems, of env clock "ids slot" "slot_args d sc slot"] one by simp
  obtain z s2 where rest: "enqueue_slots env clock ids d sc slots s1 = (z, s2)" by fastforce
  have 2: "extends s s2" using extends_trans [OF 1 Cons.IH [OF extends_inv [OF 1]]] rest by simp
  show ?case using one rest 1 2 by (auto split: sum.splits)
qed (simp add: extends_refl)

lemma finish_schedule_extends: "store_inv s \<Longrightarrow> extends s (snd (finish_schedule tz anchor d sc rec cursor due counts s))"
  using cursor_ops_extend(2) by (auto simp: finish_schedule_def Let_def raise_op_def bind_op_def return_op_def
      update_schedule_cursor_def extends_refl split: sum.splits)

lemma tick_schedule_extends:
  assumes inv: "store_inv s"
  shows "extends s (snd (tick_schedule env bs tz clock ids anchor sc s))"
proof -
  have pause: "extends s (snd (bind_op (pause_schedule i r anchor) (\<lambda>_. return_op x) s))" for i r x
    using cursor_ops_extend(1) [OF inv, of i r anchor]
    by (simp add: bind_op_def pause_schedule_def return_op_def)
  have slots: "extends s (snd (case enqueue_slots env clock ids' d sc slots s of
      (Inl (OperationalError m), s1) \<Rightarrow>
        (Inr (TickError (sc_schedule_id sc) ''SCHEDULE_ENQUEUE_FAILED'' ''OperationalError''), s1)
    | (Inl e, s1) \<Rightarrow> (Inl e, s1)
    | (Inr counts, s1) \<Rightarrow> finish_schedule tz anchor d sc rec cursor due counts s1))" for ids' d slots rec cursor due
  proof (cases "enqueue_slots env clock ids' d sc slots s")
    case (Pair y s1)
    then have 1: "extends s s1" using enqueue_slots_extends [OF inv, of env clock ids' d sc slots] by simp
    show ?thesis
      using Pair 1 extends_trans [OF 1 finish_schedule_extends [OF extends_inv [OF 1]]]
      by (auto split: sum.splits store_error.splits)
  qed
  show ?thesis
    unfolding tick_schedule_def
    using extends_refl [OF inv] pause slots
    by (auto simp: raise_op_def return_op_def split: sum.splits option.splits)
qed

lemma tick_schedules_extend: "store_inv s \<Longrightarrow> extends s (snd (each_op (tick_schedule env bs tz clock ids anchor) scs s))"
proof (induction scs arbitrary: s)
  case (Cons sc scs)
  obtain y s1 where one: "tick_schedule env bs tz clock ids anchor sc s = (y, s1)" by fastforce
  have 1: "extends s s1" using tick_schedule_extends [OF Cons.prems, of env bs tz clock ids anchor sc] one by simp
  obtain z s2 where rest: "each_op (tick_schedule env bs tz clock ids anchor) scs s1 = (z, s2)" by fastforce
  have 2: "extends s s2" using extends_trans [OF 1 Cons.IH [OF extends_inv [OF 1]]] rest by simp
  show ?case using one rest 1 2 by (auto split: sum.splits)
qed (simp add: extends_refl)

text \<open>
  A scheduler tick, whether it completes or raises half way, keeps the store invariant, loses
  no job and moves each known job only along the lease protocol; a job it adds is queued and
  unclaimed, with no attempt made.
\<close>

theorem scheduler_tick_safe:
  assumes "store_inv s" and "scheduler_tick env bs tz clock ids audit_id anchor s = (res, s')"
  shows "store_inv s' \<and>
    (\<forall>i r. find_job s i = Some r \<longrightarrow> (\<exists>r' evs. find_job s' i = Some r' \<and> same_row r r' \<and>
       lease_run (row_lease r) evs (row_lease r'))) \<and>
    (\<forall>i r. find_job s i = None \<and> find_job s' i = Some r \<longrightarrow> new_lease (row_lease r))"
proof -
  obtain x s1 where sync: "sync_registry (en_sha env) (en_registry env) anchor s = (x, s1)" by fastforce
  obtain y s2 where rec: "recover_expired anchor audit_id s1 = (y, s2)" by fastforce
  have 1: "moves s s1" using moves_same [OF assms(1)] sync_registry_jobs [OF sync] by blast
  then have "store_inv s1" by (simp add: moves_def)
  then have "moves s1 s2" using recover_expired_moves(1) rec by (metis snd_conv)
  then have 2: "moves s s2" using moves_trans 1 by blast
  then have inv2: "store_inv s2" by (simp add: moves_def)
  have "s' = s1 \<or> s' = s2 \<or> extends s2 s'"
    using assms(2) sync rec tick_schedules_extend [OF inv2, of env bs tz clock ids anchor "active_schedules s2"]
    by (auto simp: scheduler_tick_def bind_op_def return_op_def split: sum.splits prod.splits)
  then obtain sm where sm: "moves s sm" "extends sm s'"
    using 1 2 extends_refl moves_def by metis
  then have "store_inv s'" using extends_inv by blast
  moreover have "\<exists>r' evs. find_job s' i = Some r' \<and> same_row r r' \<and> lease_run (row_lease r) evs (row_lease r')"
    if "find_job s i = Some r" for i r
    using grows_row [OF moves_grows [OF sm(1)] that] extends_find(1) [OF sm(2)] by blast
  moreover have "new_lease (row_lease r)" if "find_job s i = None" "find_job s' i = Some r" for i r
  proof -
    have "find_job sm i = None"
      using sm(1) that(1) by (auto simp: moves_def store_follows_def split: option.splits dest: spec [of _ i])
    then show ?thesis using extends_find(2) [OF sm(2)] that(2) by blast
  qed
  ultimately show ?thesis by blast
qed

section \<open>Each slot becomes one job\<close>

definition synced :: "env \<Rightarrow> store \<Rightarrow> bool" where
  "synced env s \<longleftrightarrow> (\<forall>clock. sync_registry (en_sha env) (en_registry env) clock s =
     (Inr \<lparr>sy_sources_inserted = 0, sy_definitions_inserted = 0, sy_schedules_inserted = 0\<rparr>, s))"

definition slot_key :: "env \<Rightarrow> definition_descriptor \<Rightarrow> schedule_row \<Rightarrow> instant \<Rightarrow> string option" where
  "slot_key env d sc slot =
     (case enqueue_prepare env (slot_args d sc slot) of
        Inl _ \<Rightarrow> None
      | Inr p \<Rightarrow> Some (enqueue_dedupe (en_sha env) (slot_args d sc slot) p slot None))"

definition slot_done :: "env \<Rightarrow> definition_descriptor \<Rightarrow> schedule_row \<Rightarrow> store \<Rightarrow> instant \<Rightarrow> bool" where
  "slot_done env d sc s slot \<longleftrightarrow> (\<exists>r \<in> set (s_jobs s). slot_key env d sc slot = Some (j_dedupe_key r))"

lemma slot_args_fields:
  "ea_trigger (slot_args d sc slot) = ''schedule''" "ea_scheduled_for (slot_args d sc slot) = Some slot"
  "ea_request_instance_id (slot_args d sc slot) = None" "ea_schedule_id (slot_args d sc slot) = Some (sc_schedule_id sc)"
  "ea_datasource_id (slot_args d sc slot) = dd_datasource_id d" "ea_parent_job_id (slot_args d sc slot) = None"
  "ea_generation (slot_args d sc slot) = 0" "ea_window_start (slot_args d sc slot) = None"
  "ea_window_end (slot_args d sc slot) = None"
  by (simp_all add: slot_args_def enqueue_defaults_def)

lemma slot_done_extends: "slot_done env d sc s slot \<Longrightarrow> extends s s' \<Longrightarrow> slot_done env d sc s' slot"
  by (auto simp: slot_done_def extends_def)

lemma enqueue_slot:
  assumes inv: "store_inv s" and run: "enqueue env clock ids (slot_args d sc slot) s = (Inr x, s')"
  shows "slot_done env d sc s' slot" and "synced env s'"
    and "er_disposition x = ''accepted'' \<Longrightarrow> length (s_jobs s') = Suc (length (s_jobs s))"
    and "er_disposition x \<noteq> ''accepted'' \<Longrightarrow> s_jobs s' = s_jobs s"
proof -
  let ?a = "slot_args d sc slot"
  obtain y s1 where sync: "sync_registry (en_sha env) (en_registry env) clock s = (y, s1)" by fastforce
  have jobs: "s_jobs s1 = s_jobs s" using sync_registry_jobs [OF sync] by simp
  obtain z where z: "y = Inr z" using run sync by (auto simp: enqueue_def bind_op_def split: sum.splits)
  then obtain p where p: "enqueue_prepare env ?a = Inr p" "enqueue_insert env ids ?a p slot s1 = (Inr x, s')"
    using run sync by (auto simp: enqueue_def bind_op_def raise_op_def transaction_Inr slot_args_fields split: sum.splits)
  have keep: "registry_keeps s1 s'" by (rule enqueue_insert_registry [OF p(2)])
  show "synced env s'"
    unfolding synced_def using sync_registry_settles(2) [OF _ keep] sync z by blast
  have cases: "(\<exists>r. r \<in> set (s_jobs s) \<and> j_dedupe_key r = enqueue_dedupe (en_sha env) ?a p slot None \<and>
      s_jobs s' = s_jobs s \<and> er_disposition x \<noteq> ''accepted'') \<or>
    (\<exists>r. j_dedupe_key r = enqueue_dedupe (en_sha env) ?a p slot None \<and> s_jobs s' = s_jobs s @ [r] \<and>
      er_disposition x = ''accepted'')"
    using p(2) jobs
    by (auto simp: enqueue_insert_def Let_def slot_args_fields bind_op_Inr return_op_def insert_job_def enqueue_row_def
        split: option.splits if_splits dest!: lookup_by_Some audit_frame)
  have "slot_key env d sc slot = Some (enqueue_dedupe (en_sha env) ?a p slot None)"
    by (simp add: slot_key_def p(1))
  with cases show "slot_done env d sc s' slot" unfolding slot_done_def by (metis in_set_conv_decomp)
  show "er_disposition x = ''accepted'' \<Longrightarrow> length (s_jobs s') = Suc (length (s_jobs s))"
    and "er_disposition x \<noteq> ''accepted'' \<Longrightarrow> s_jobs s' = s_jobs s" using cases by auto
qed

lemma enqueue_slot_again:
  assumes "synced env s" and "slot_done env d sc s slot"
  shows "\<exists>x. enqueue env clock ids (slot_args d sc slot) s = (Inr x, s) \<and> er_disposition x = ''deduplicated''"
proof -
  let ?a = "slot_args d sc slot"
  obtain p where p: "enqueue_prepare env ?a = Inr p"
    "enqueue_dedupe (en_sha env) ?a p slot None \<in> j_dedupe_key ` set (s_jobs s)"
    using assms(2) by (auto simp: slot_done_def slot_key_def split: sum.splits)
  then obtain r where r: "lookup_by j_dedupe_key (enqueue_dedupe (en_sha env) ?a p slot None) (s_jobs s) = Some r"
    by (cases "lookup_by j_dedupe_key (enqueue_dedupe (en_sha env) ?a p slot None) (s_jobs s)")
      (auto simp: lookup_by_None_iff)
  have "enqueue_insert env ids ?a p slot s = (Inr \<lparr>er_job_id = j_job_id r, er_disposition = ''deduplicated'',
      er_state = j_state r\<rparr>, s)"
    using r by (simp add: enqueue_insert_def Let_def slot_args_fields)
  then show ?thesis
    using assms(1) p(1) by (simp add: enqueue_def bind_op_def synced_def slot_args_fields transaction_def)
qed

lemma enqueue_slots_result:
  "store_inv s \<Longrightarrow> enqueue_slots env clock ids d sc slots s = (Inr (acc, ded), s') \<Longrightarrow>
     acc + ded = length slots \<and> length (s_jobs s') = length (s_jobs s) + acc \<and>
     (\<forall>slot \<in> set slots. slot_done env d sc s' slot) \<and> (slots \<noteq> [] \<longrightarrow> synced env s')"
proof (induction slots arbitrary: s acc ded)
  case (Cons slot slots)
  from Cons.prems(2) obtain x s1 acc1 ded1 where one: "enqueue env clock (ids slot) (slot_args d sc slot) s = (Inr x, s1)"
    and rest: "enqueue_slots env clock ids d sc slots s1 = (Inr (acc1, ded1), s')"
    and counts: "(acc, ded) = (if er_disposition x = ''accepted'' then (acc1 + 1, ded1) else (acc1, ded1 + 1))"
    by (auto split: prod.splits sum.splits)
  note slot = enqueue_slot [OF Cons.prems(1) one]
  have inv: "store_inv s1"
    using enqueue_extends [OF Cons.prems(1), of env clock "ids slot" "slot_args d sc slot"] one by (simp add: extends_def)
  have ext: "extends s1 s'" using enqueue_slots_extends [OF inv, of env clock ids d sc slots] rest by simp
  note IH = Cons.IH [OF inv rest]
  have "slot_done env d sc s' slot" by (rule slot_done_extends [OF slot(1) ext])
  moreover have "synced env s'" using slot(2) IH rest by (cases slots) auto
  ultimately show ?case using IH counts slot(3,4) by (auto split: if_splits)
qed simp

lemma enqueue_slots_again:
  "synced env s \<Longrightarrow> (\<forall>slot \<in> set slots. slot_done env d sc s slot) \<Longrightarrow>
     enqueue_slots env clock ids d sc slots s = (Inr (0, length slots), s)"
proof (induction slots)
  case (Cons slot slots)
  then show ?case using enqueue_slot_again [of env s d sc slot clock "ids slot"] by auto
qed simp

lemma enqueue_slots_resume:
  assumes inv: "store_inv s" and pre: "enqueue_slots env clock ids d sc pre s = (Inr c, s1)"
    and run: "enqueue_slots env clock' ids' d sc (pre @ post) s1 = (Inr (acc, ded), s')"
  shows "acc \<le> length post"
proof (cases "pre = []")
  case True
  have "store_inv s1" using enqueue_slots_extends [OF inv, of env clock ids d sc pre] pre by (simp add: extends_def)
  then show ?thesis using enqueue_slots_result [OF _ run] True by simp
next
  case False
  have inv1: "store_inv s1" using enqueue_slots_extends [OF inv, of env clock ids d sc pre] pre by (simp add: extends_def)
  obtain a b where c: "c = (a, b)" by (cases c)
  have s1: "synced env s1" "\<forall>slot \<in> set pre. slot_done env d sc s1 slot"
    using enqueue_slots_result [OF inv pre [unfolded c]] False by auto
  have "enqueue_slots env clock' ids' d sc (pre @ post) s1 =
    (case enqueue_slots env clock' ids' d sc post s1 of
       (Inl e, s2) \<Rightarrow> (Inl e, s2) | (Inr (acc, ded), s2) \<Rightarrow> (Inr (acc, length pre + ded), s2))"
    using s1(2)
  proof (induction pre)
    case (Cons slot pre)
    then show ?case using enqueue_slot_again [OF s1(1), of d sc slot clock' "ids' slot"]
      by (auto split: sum.splits prod.splits)
  qed (auto split: sum.splits prod.splits)
  then obtain ded' where "enqueue_slots env clock' ids' d sc post s1 = (Inr (acc, ded'), s')"
    using run by (auto split: sum.splits prod.splits)
  then show ?thesis using enqueue_slots_result [OF inv1] by fastforce
qed

text \<open>The four ways a schedule is left without an exception.\<close>

lemma tick_schedule_cases:
  assumes "tick_schedule env bs tz clock ids anchor sc s = (Inr entry, s')"
  obtains (blocked) d :: definition_descriptor where "entry = Blocked (sc_schedule_id sc) (dd_datasource_id d) ''runtime_unbound''" "s' = s"
  | (invalid) name where "entry = TickError (sc_schedule_id sc) ''SCHEDULE_INVALID'' name"
      "pause_schedule (sc_schedule_id sc) ''SCHEDULE_INVALID'' anchor s = (Inr (), s')"
  | (failed) d m and due :: schedule_materialization where
      "entry = TickError (sc_schedule_id sc) ''SCHEDULE_ENQUEUE_FAILED'' ''OperationalError''"
      "enqueue_slots env clock (ids (sc_schedule_id sc)) d sc (sm_slots due) s = (Inl (OperationalError m), s')"
  | (materialized) d rec cursor due counts s1 where
      "registry_lookup (en_registry env) (sc_datasource_id sc) (Some (sc_definition_version sc)) = Inr d"
      "schedule_due tz anchor sc = Inr (rec, cursor, due)"
      "enqueue_slots env clock (ids (sc_schedule_id sc)) d sc (sm_slots due) s = (Inr counts, s1)"
      "finish_schedule tz anchor d sc rec cursor due counts s1 = (Inr entry, s')"
proof -
  obtain d where d: "registry_lookup (en_registry env) (sc_datasource_id sc) (Some (sc_definition_version sc)) = Inr d"
    using assms by (cases "registry_lookup (en_registry env) (sc_datasource_id sc) (Some (sc_definition_version sc))")
      (auto simp: tick_schedule_def raise_op_def)
  obtain v where v: "bindings_validate bs d ''ingest'' = Inr v"
    using assms by (cases "bindings_validate bs d ''ingest''") (auto simp: tick_schedule_def raise_op_def d)
  show thesis
  proof (cases "rv_ready v")
    case False
    then show thesis using assms blocked [of d] by (simp add: tick_schedule_def d v return_op_def)
  next
    case ready: True
    show thesis
    proof (cases "schedule_due tz anchor sc")
      case (Inl e)
      then show thesis using assms invalid
        by (cases "caught_name e")
          (auto simp: tick_schedule_def d v ready raise_op_def bind_op_def return_op_def pause_schedule_def)
    next
      case (Inr triple)
      obtain rec cursor due where triple: "triple = (rec, cursor, due)" by (cases triple)
      obtain y s1 where run: "enqueue_slots env clock (ids (sc_schedule_id sc)) d sc (sm_slots due) s = (y, s1)" by fastforce
      have step: "(case y of Inl (OperationalError m) \<Rightarrow>
            (Inr (TickError (sc_schedule_id sc) ''SCHEDULE_ENQUEUE_FAILED'' ''OperationalError''), s1)
          | Inl e \<Rightarrow> (Inl e, s1)
          | Inr counts \<Rightarrow> finish_schedule tz anchor d sc rec cursor due counts s1) = (Inr entry, s')"
        using assms by (simp add: tick_schedule_def d v ready Inr triple run split: sum.splits store_error.splits)
      show thesis
      proof (cases y)
        case (Inl e)
        then show thesis using step run failed [of d due] by (cases e) auto
      next
        case (Inr counts)
        then show thesis using step run materialized [OF d] \<open>schedule_due tz anchor sc = Inr triple\<close> triple by simp
      qed
    qed
  qed
qed

lemma finish_schedule_Inr:
  assumes "finish_schedule tz anchor d sc rec cursor due counts s = (Inr entry, s')"
  obtains nd where
    "next_after tz rec (case sm_next_cursor_at due of Some c \<Rightarrow> c | None \<Rightarrow> cursor) = Inr nd"
    "update_schedule_cursor (sc_schedule_id sc) (case sm_next_cursor_at due of Some c \<Rightarrow> c | None \<Rightarrow> cursor) nd anchor s
       = (Inr (), s')"
    "entry = Materialized (sc_schedule_id sc) (dd_datasource_id d) (fst counts) (snd counts) (sm_skipped_slots due)"
  using assms that
  by (cases "next_after tz rec (case sm_next_cursor_at due of Some c \<Rightarrow> c | None \<Rightarrow> cursor)")
    (auto simp: finish_schedule_def Let_def raise_op_def bind_op_def return_op_def update_schedule_cursor_def)

lemma tick_schedule_Materialized:
  assumes "tick_schedule env bs tz clock ids anchor sc s = (Inr (Materialized i ds acc ded sk), s')"
  obtains d rec cursor due s1 nd where
    "registry_lookup (en_registry env) (sc_datasource_id sc) (Some (sc_definition_version sc)) = Inr d"
    "schedule_due tz anchor sc = Inr (rec, cursor, due)"
    "enqueue_slots env clock (ids (sc_schedule_id sc)) d sc (sm_slots due) s = (Inr (acc, ded), s1)"
    "next_after tz rec (case sm_next_cursor_at due of Some c \<Rightarrow> c | None \<Rightarrow> cursor) = Inr nd"
    "update_schedule_cursor (sc_schedule_id sc) (case sm_next_cursor_at due of Some c \<Rightarrow> c | None \<Rightarrow> cursor) nd anchor s1
       = (Inr (), s')"
proof (rule tick_schedule_cases [OF assms])
  fix d rec cursor due counts s1
  assume m: "registry_lookup (en_registry env) (sc_datasource_id sc) (Some (sc_definition_version sc)) = Inr d"
      "schedule_due tz anchor sc = Inr (rec, cursor, due)"
      "enqueue_slots env clock (ids (sc_schedule_id sc)) d sc (sm_slots due) s = (Inr counts, s1)"
      "finish_schedule tz anchor d sc rec cursor due counts s1 = (Inr (Materialized i ds acc ded sk), s')"
  show thesis
  proof (rule finish_schedule_Inr [OF m(4)])
    fix nd
    assume nd: "next_after tz rec (case sm_next_cursor_at due of Some c \<Rightarrow> c | None \<Rightarrow> cursor) = Inr nd"
      "update_schedule_cursor (sc_schedule_id sc) (case sm_next_cursor_at due of Some c \<Rightarrow> c | None \<Rightarrow> cursor) nd anchor s1
         = (Inr (), s')"
      "Materialized i ds acc ded sk =
        Materialized (sc_schedule_id sc) (dd_datasource_id d) (fst counts) (snd counts) (sm_skipped_slots due)"
    then have "counts = (acc, ded)" by auto
    then show thesis using that [OF m(1,2) _ nd(1,2)] m(3) by simp
  qed
qed simp_all


text \<open>
  A tick that stopped after some of a schedule's slots, before the cursor moved, is repeated
  without duplicates: processing the same schedule row again adds at most the slots that were
  left, even though it offers all of them to \<open>enqueue\<close> once more.
\<close>

theorem tick_schedule_resume:
  assumes inv: "store_inv s"
    and d: "registry_lookup (en_registry env) (sc_datasource_id sc) (Some (sc_definition_version sc)) = Inr d"
    and due: "schedule_due tz anchor sc = Inr (rec, cursor, due)" and slots: "sm_slots due = pre @ post"
    and stopped: "enqueue_slots env clock ids d sc pre s = (Inr c, s1)"
    and again: "tick_schedule env bs tz clock' ids' anchor sc s1 = (Inr (Materialized i ds acc ded sk), s')"
  shows "acc \<le> length post \<and> acc + ded = length (sm_slots due) \<and> length (s_jobs s') = length (s_jobs s1) + acc"
proof -
  obtain d' rec' cursor' due' s2 nd where
    d': "registry_lookup (en_registry env) (sc_datasource_id sc) (Some (sc_definition_version sc)) = Inr d'"
    and due': "schedule_due tz anchor sc = Inr (rec', cursor', due')"
    and run: "enqueue_slots env clock' (ids' (sc_schedule_id sc)) d' sc (sm_slots due') s1 = (Inr (acc, ded), s2)"
    and upd: "update_schedule_cursor (sc_schedule_id sc) (case sm_next_cursor_at due' of Some c \<Rightarrow> c | None \<Rightarrow> cursor')
      nd anchor s2 = (Inr (), s')" by (rule tick_schedule_Materialized [OF again])
  have enq: "enqueue_slots env clock' (ids' (sc_schedule_id sc)) d sc (pre @ post) s1 = (Inr (acc, ded), s2)"
    using run d d' due due' slots by simp
  have inv1: "store_inv s1" using enqueue_slots_extends [OF inv, of env clock ids d sc pre] stopped by (simp add: extends_def)
  have "s_jobs s' = s_jobs s2" using upd by (auto simp: update_schedule_cursor_def)
  then show ?thesis
    using enqueue_slots_resume [OF inv stopped enq] enqueue_slots_result [OF inv1 enq] slots by simp
qed

section \<open>Failures stay with their schedule\<close>

lemma enqueue_schedules: "\<exists>added. s_schedules (snd (enqueue env clock ids a s)) = s_schedules s @ added"
proof (cases "sync_registry (en_sha env) (en_registry env) clock s")
  case (Pair y s1)
  have grown: "\<exists>added. s_schedules s1 = s_schedules s @ added"
  proof (cases y)
    case (Inl e)
    then show ?thesis using Pair by (auto simp: sync_registry_def dest: transaction_Inl)
  next
    case (Inr x)
    then show ?thesis using Pair sync_registry_settles(1) by (auto simp: registry_grows_def)
  qed
  have "s_schedules (snd (transaction (enqueue_insert env ids a p t) s1)) = s_schedules s1" for p t
    by (rule transaction_frame)
      (auto simp: enqueue_insert_def Let_def bind_op_def return_op_def insert_job_def audit_def split: option.splits)
  then show ?thesis using Pair grown by (auto simp: enqueue_def bind_op_def raise_op_def split: sum.splits)
qed

lemma enqueue_slots_schedules: "\<exists>added. s_schedules (snd (enqueue_slots env clock ids d sc slots s)) = s_schedules s @ added"
proof (induction slots arbitrary: s)
  case (Cons slot slots)
  obtain y s1 where one: "enqueue env clock (ids slot) (slot_args d sc slot) s = (y, s1)" by fastforce
  obtain a where a: "s_schedules s1 = s_schedules s @ a"
    using enqueue_schedules [of env clock "ids slot" "slot_args d sc slot" s] one by auto
  obtain b where b: "s_schedules (snd (enqueue_slots env clock ids d sc slots s1)) = s_schedules s1 @ b"
    using Cons.IH by blast
  show ?case using one a b by (auto split: sum.splits prod.splits)
qed simp

text \<open>
  A schedule that cannot be materialised harms nothing else: one without runtime bindings
  leaves the store as it was; one with an invalid rule adds no job and is paused, so later ticks
  leave it alone; one whose enqueue fails keeps its cursor, as do all others, so that the next tick
  takes it up again.
\<close>

theorem tick_schedule_failures:
  assumes "tick_schedule env bs tz clock ids anchor sc s = (Inr entry, s')"
  shows "case entry of
      Materialized i ds acc ded sk \<Rightarrow> i = sc_schedule_id sc
    | Blocked i ds reason \<Rightarrow> i = sc_schedule_id sc \<and> reason = ''runtime_unbound'' \<and> s' = s
    | TickError i code name \<Rightarrow> i = sc_schedule_id sc \<and>
        (code = ''SCHEDULE_INVALID'' \<and> s_jobs s' = s_jobs s \<and> i \<notin> sc_schedule_id ` set (active_schedules s') \<or>
         code = ''SCHEDULE_ENQUEUE_FAILED'' \<and> (\<exists>added. s_schedules s' = s_schedules s @ added))"
proof (rule tick_schedule_cases [OF assms], goal_cases)
  case (1 d)
  then show ?case by simp
next
  case (2 name)
  from 2(2) have s': "s_jobs s' = s_jobs s" "s_schedules s' = update_where (\<lambda>x. sc_schedule_id x = sc_schedule_id sc)
      (\<lambda>x. x\<lparr>sc_paused_reason := Some ''SCHEDULE_INVALID'', sc_updated_at := anchor\<rparr>) (s_schedules s)"
    by (auto simp: pause_schedule_def)
  have "sc_paused_reason x \<noteq> None" if "x \<in> set (s_schedules s')" "sc_schedule_id x = sc_schedule_id sc" for x
    using that unfolding s'(2) update_where_def by (auto split: if_splits)
  then have "sc_schedule_id sc \<notin> sc_schedule_id ` set (active_schedules s')"
    unfolding active_schedules_def by force
  then show ?case unfolding 2(1) using s'(1) by simp
next
  case (3 d m due)
  then show ?case using enqueue_slots_schedules [of env clock "ids (sc_schedule_id sc)" d sc "sm_slots due" s] by simp
next
  case (4 d rec cursor due counts s1)
  show ?case by (rule finish_schedule_Inr [OF 4(4)]) simp
qed

section \<open>A sample schedule\<close>

definition hourly_schedule :: schedule_row where
  "hourly_schedule = \<lparr>sc_schedule_id = ''schedule_1'', sc_task_kind = ''ingest'', sc_datasource_id = ''boe.rate'',
     sc_definition_version = 1, sc_name = ''hourly'', sc_lane = ''production_ingestion'', sc_rule = hourly_rule,
     sc_rule_hash = replicate 64 (CHR ''0''), sc_timezone = ''UTC'', sc_catchup_policy = ''latest_only'',
     sc_max_catchup_jobs = 1, sc_max_catchup_horizon_seconds = 0, sc_cursor_at = None, sc_next_due_at = None,
     sc_enabled = True, sc_paused_reason = None, sc_created_at = 0, sc_updated_at = 0\<rparr>"

definition hourly_store :: store where
  "hourly_store = empty_store\<lparr>s_schedules := [hourly_schedule]\<rparr>"

definition sample_bindings :: runtime_bindings where
  "sample_bindings = map (\<lambda>b. (b, ''callable'')) (executable_bindings sample_definition)"

lemma hourly_simps:
  "sc_schedule_id hourly_schedule = ''schedule_1''" "sc_datasource_id hourly_schedule = ''boe.rate''"
  "sc_definition_version hourly_schedule = 1" "sc_lane hourly_schedule = ''production_ingestion''"
  "sc_enabled hourly_schedule" "sc_paused_reason hourly_schedule = None"
  by (simp_all add: hourly_schedule_def)

lemma hourly_inv: "store_inv hourly_store"
  using store_inv_cong [of hourly_store empty_store] store_inv_empty by (simp add: hourly_store_def)

definition hourly_slot :: schedule_materialization where
  "hourly_slot = \<lparr>sm_slots = [3600000000], sm_next_cursor_at = Some 3600000000, sm_skipped_slots = 0\<rparr>"

lemma hourly_schedule_due: "schedule_due utc_only 4000000000 hourly_schedule =
    Inr (IntervalRec \<lparr>is_anchor_at = 0, is_interval = 3600000000\<rparr>, 0, hourly_slot)"
  using hourly_rule_recurrence
  by (simp add: schedule_due_def hourly_schedule_def catchup_of_text_def materialize_due_slots_def start_cursor_def
      select_slots_def interval_next_after_def check_instant_def instant_ok_def due_loop.simps [of _ 4000000000]
      safety_limit_def hourly_slot_def)

lemma slot_request_kept: "redact_pairs u [(''scheduled_slot'', ts_json t)] = Inr [(''scheduled_slot'', ts_json t)]"
proof -
  have low: "lower ''scheduled_slot'' = ''scheduled_slot''" by (simp add: lower_def lower_char_def)
  have "\<not> sensitive_key ''scheduled_slot''"
    unfolding sensitive_key_def low sensitive_words_def contains_def by simp
  then show ?thesis by (simp add: low ts_json_def url_keys_def)
qed

lemma sample_lookup: "registry_lookup sample_registry ''boe.rate'' (Some 1) = Inr sample_definition"
  "registry_lookup sample_registry ''boe.rate'' None = Inr sample_definition"
  by (simp_all add: registry_lookup_def sample_simps dd_key_def Let_def)

lemma sample_ready: "\<exists>v. bindings_validate sample_bindings sample_definition ''ingest'' = Inr v \<and> rv_ready v"
proof -
  have "bindings_contains sample_bindings b" if "b \<in> set (executable_bindings sample_definition)" for b
    using that by (force simp: bindings_contains_def sample_bindings_def map_of_eq_None_iff)
  then show ?thesis by (simp add: bindings_validate_def rv_ready_def)
qed

lemma sample_slot_prepare: "enqueue_prepare sample_env (slot_args sample_definition hourly_schedule slot) =
    Inr \<lparr>pj_definition = sample_definition, pj_lane = ''production_ingestion'', pj_kind = ''scheduled_ingest'',
      pj_request = [(''scheduled_slot'', ts_json slot)]\<rparr>"
  by (simp add: enqueue_prepare_def slot_args_def enqueue_defaults_def sample_simps sample_lookup hourly_simps
      lanes_def triggers_def enqueue_job_kinds_def slot_request_kept Let_def
      del: redact_pairs.simps)

definition slot_store :: store where
  "slot_store = snd (enqueue_slots sample_env 4000000000 (\<lambda>_. sample_ids) sample_definition hourly_schedule [3600000000] hourly_store)"

lemma slot_store_eval:
  "enqueue_slots sample_env 4000000000 (\<lambda>_. sample_ids) sample_definition hourly_schedule [3600000000] hourly_store =
     (Inr (1, 0), slot_store)"
  by (simp add: slot_store_def enqueue_def sample_slot_prepare slot_args_fields sync_eval sample_simps hourly_store_def
      enqueue_insert_def enqueue_row_def enqueue_dedupe_def insert_job_def job_row_ok_def audit_def max_attempts_def sample_ids_def empty_store_def
      hourly_simps)

lemma hourly_next: "next_after utc_only (IntervalRec \<lparr>is_anchor_at = 0, is_interval = 3600000000\<rparr>) 3600000000 =
    Inr 7200000000"
  by (simp add: interval_next_after_def check_instant_def instant_ok_def)

lemma hourly_tick:
  assumes "enqueue_slots sample_env clock (ids ''schedule_1'') sample_definition hourly_schedule [3600000000] s =
    (Inr (acc, ded), s1)"
  shows "\<exists>s'. tick_schedule sample_env sample_bindings utc_only clock ids 4000000000 hourly_schedule s =
    (Inr (Materialized ''schedule_1'' ''boe.rate'' acc ded 0), s')"
proof -
  obtain v where v: "bindings_validate sample_bindings sample_definition ''ingest'' = Inr v" "rv_ready v"
    using sample_ready by blast
  show ?thesis
    using assms hourly_next
    by (simp add: tick_schedule_def sample_simps hourly_simps sample_lookup v hourly_schedule_due hourly_slot_def
        finish_schedule_def bind_op_def update_schedule_cursor_def return_op_def)
qed


theorem tick_schedule_resume_witness:
  "\<exists>s'. snd (tick_schedule sample_env sample_bindings utc_only 5000000000 (\<lambda>_ _. sample_ids) 4000000000
       hourly_schedule slot_store) = s' \<and> length (s_jobs s') = length (s_jobs slot_store)"
proof -
  let ?call = "tick_schedule sample_env sample_bindings utc_only 5000000000 (\<lambda>_ _. sample_ids) 4000000000
    hourly_schedule slot_store"
  have again: "enqueue_slots sample_env 5000000000 (\<lambda>_. sample_ids) sample_definition hourly_schedule [3600000000]
      slot_store = (Inr (0, 1), slot_store)"
    using enqueue_slots_again [of sample_env slot_store "[3600000000]" sample_definition hourly_schedule]
      enqueue_slots_result [OF hourly_inv slot_store_eval] by simp
  obtain s' where s': "?call = (Inr (Materialized ''schedule_1'' ''boe.rate'' 0 1 0), s')"
    using hourly_tick [of 5000000000 "\<lambda>_ _. sample_ids" slot_store] again by blast
  have "length (s_jobs s') = length (s_jobs slot_store) + 0"
    using tick_schedule_resume [OF hourly_inv _ hourly_schedule_due _ slot_store_eval s', of "[]"]
    by (simp add: sample_simps hourly_simps sample_lookup hourly_slot_def)
  then show ?thesis using s' by simp
qed

theorem scheduler_tick_safe_witness:
  "store_inv (snd (scheduler_tick sample_env sample_bindings utc_only 4000000000 (\<lambda>_ _. sample_ids) (\<lambda>i. ''audit_'' @ i)
     4000000000 hourly_store))"
  using scheduler_tick_safe [OF hourly_inv surjective_pairing] by blast

theorem tick_schedule_failures_witness:
  "s_schedules (snd (tick_schedule sample_env [] utc_only 0 (\<lambda>_ _. sample_ids) 4000000000 hourly_schedule hourly_store)) =
     [hourly_schedule]"
proof -
  let ?call = "tick_schedule sample_env [] utc_only 0 (\<lambda>_ _. sample_ids) 4000000000 hourly_schedule hourly_store"
  have "executable_bindings sample_definition \<noteq> []" by (simp add: executable_bindings_def)
  then have "?call = (Inr (Blocked ''schedule_1'' ''boe.rate'' ''runtime_unbound''), snd ?call)"
    by (simp add: tick_schedule_def sample_simps hourly_simps sample_lookup bindings_validate_def rv_ready_def
        bindings_contains_def return_op_def)
  from tick_schedule_failures [OF this] show ?thesis by (simp add: hourly_store_def)
qed

end
