(* ===== verification/HostThrottle.thy ===== *)
theory HostThrottle
  imports Timestamps Redaction
begin

text \<open>
  The durable host throttle of \<open>OperationalStore\<close> (\<open>operational.py\<close>): \<open>permit_host\<close>,
  \<open>record_host_response\<close> and \<open>HostThrottleGate\<close> over the table \<open>host_throttle\<close>. Its rows are kept
  as a list; no other table is read or written, so the state of this theory is that list.

  \<open>http_date\<close> stands for \<open>email.utils.parsedate_to_datetime\<close>: \<open>None\<close> where it raises one of the
  caught exceptions or returns a naive datetime. The clock is taken to be at least a second before
  the end of the calendar.
\<close>

section \<open>The table\<close>

record throttle_row =
  th_group :: string
  th_next_allowed_at :: "instant option"
  th_blocked_until :: "instant option"
  th_last_http_status :: "int option"
  th_updated_at :: instant

datatype throttle_error =
    ThrottleOperationalError string
  | HostThrottleBlocked string instant
  | ThrottleValueError string

type_synonym 'a throttle_op = "(throttle_row list, throttle_error, 'a) op"

definition host_permit_interval :: duration where
  "host_permit_interval = seconds 1"

definition rate_limit_group :: "string \<Rightarrow> throttle_error + string" where
  "rate_limit_group host =
     (let grp = lower (rstrip (\<lambda>c. c = CHR ''.'') (strip host))
      in if grp = [] \<or> list_ex (\<lambda>c. is_space c \<or> c \<in> set (''/:@?#['' @ [CHR 0x5C] @ '']'')) grp
         then Inl (ThrottleOperationalError ''host throttle requires a bare hostname'')
         else Inr grp)"

fun latest_timestamp :: "instant option list \<Rightarrow> instant option" where
  "latest_timestamp [] = None"
| "latest_timestamp (v # vs) =
     (case (v, latest_timestamp vs) of
        (None, t) \<Rightarrow> t | (Some a, None) \<Rightarrow> Some a | (Some a, Some b) \<Rightarrow> Some (max a b))"

definition decimal_value :: "string \<Rightarrow> int" where
  "decimal_value s = foldl (\<lambda>n c. 10 * n + (of_char c - 48)) 0 s"

text \<open>
  \<open>_retry_after_deadline\<close>. \<open>int()\<close> refuses more than 4300 digits with \<open>ValueError\<close>, which is not caught;
  a deadline outside the calendar is the caught \<open>OverflowError\<close>.
\<close>

definition retry_after_deadline ::
  "(string \<Rightarrow> instant option) \<Rightarrow> string option \<Rightarrow> instant \<Rightarrow> throttle_error + instant option" where
  "retry_after_deadline http_date value now =
     (case value of
        None \<Rightarrow> Inr None
      | Some v \<Rightarrow>
          (let candidate = strip v
           in if candidate = [] then Inr None
              else if list_all is_digit candidate
              then if 4300 < length candidate
                   then Inl (ThrottleValueError ''Exceeds the limit for integer string conversion'')
                   else let t = now + seconds (decimal_value candidate)
                        in Inr (if instant_ok t then Some t else None)
              else Inr (map_option (\<lambda>parsed. max parsed now) (http_date candidate))))"

section \<open>Permits and responses\<close>

definition permit_host :: "string \<Rightarrow> bool \<Rightarrow> instant \<Rightarrow> unit throttle_op" where
  "permit_host host continuation anchor rows =
     (case rate_limit_group host of
        Inl e \<Rightarrow> (Inl e, rows)
      | Inr grp \<Rightarrow> transaction (\<lambda>rows.
          case lookup_by th_group grp rows of
            None \<Rightarrow> (Inr (), rows @ [\<lparr>th_group = grp,
              th_next_allowed_at = Some (anchor + host_permit_interval), th_blocked_until = None,
              th_last_http_status = None, th_updated_at = anchor\<rparr>])
          | Some row \<Rightarrow>
              if sql_gt (th_blocked_until row) anchor
              then (Inl (HostThrottleBlocked grp (the (th_blocked_until row))), rows)
              else if continuation then (Inr (), rows)
              else if sql_gt (th_next_allowed_at row) anchor
              then (Inl (HostThrottleBlocked grp (the (th_next_allowed_at row))), rows)
              else (Inr (), update_where (\<lambda>x. th_group x = grp)
                (\<lambda>x. x\<lparr>th_next_allowed_at := Some (anchor + host_permit_interval),
                   th_updated_at := anchor\<rparr>) rows)) rows)"

record host_throttle_state =
  ht_rate_limit_group :: string
  ht_next_allowed_at :: "instant option"
  ht_blocked_until :: "instant option"
  ht_last_http_status :: "int option"
  ht_updated_at :: instant

definition record_host_response ::
  "(string \<Rightarrow> instant option) \<Rightarrow> string \<Rightarrow> int \<Rightarrow> string option \<Rightarrow> instant \<Rightarrow> host_throttle_state throttle_op" where
  "record_host_response http_date host status retry_after anchor rows =
     (if \<not> (100 \<le> status \<and> status \<le> 599)
      then (Inl (ThrottleOperationalError ''HTTP status must be an integer from 100 to 599''), rows)
      else case rate_limit_group host of
        Inl e \<Rightarrow> (Inl e, rows)
      | Inr grp \<Rightarrow>
     (case (if status = 429 then retry_after_deadline http_date retry_after anchor else Inr None) of
        Inl e \<Rightarrow> (Inl e, rows)
      | Inr retry_until \<Rightarrow> transaction (\<lambda>rows.
          let row = lookup_by th_group grp rows;
              previous_next = (case row of None \<Rightarrow> None | Some r \<Rightarrow> th_next_allowed_at r);
              previous_block = (case row of None \<Rightarrow> None | Some r \<Rightarrow> th_blocked_until r);
              blocked_until = latest_timestamp
                [if sql_gt previous_block anchor then previous_block else None, retry_until];
              next_allowed_at = latest_timestamp
                [if sql_gt previous_next anchor then previous_next else Some anchor, blocked_until];
              fresh = \<lparr>th_group = grp, th_next_allowed_at = next_allowed_at, th_blocked_until = blocked_until,
                th_last_http_status = Some status, th_updated_at = anchor\<rparr>
          in (Inr \<lparr>ht_rate_limit_group = grp, ht_next_allowed_at = next_allowed_at,
                ht_blocked_until = blocked_until, ht_last_http_status = Some status, ht_updated_at = anchor\<rparr>,
              if row = None then rows @ [fresh]
              else update_where (\<lambda>x. th_group x = grp) (\<lambda>_. fresh) rows)) rows))"

text \<open>\<open>HostThrottleGate\<close>; \<open>clock\<close> is the reading of its clock.\<close>

definition gate_permit :: "instant \<Rightarrow> string \<Rightarrow> bool \<Rightarrow> unit throttle_op" where
  "gate_permit clock host continuation = permit_host host continuation clock"

definition gate_record_response ::
  "(string \<Rightarrow> instant option) \<Rightarrow> instant \<Rightarrow> string \<Rightarrow> int \<Rightarrow> string option \<Rightarrow> instant option throttle_op" where
  "gate_record_response http_date clock host status retry_after rows =
     (case record_host_response http_date host status retry_after clock rows of
        (Inl e, rows') \<Rightarrow> (Inl e, rows') | (Inr st, rows') \<Rightarrow> (Inr (ht_blocked_until st), rows'))"

section \<open>Sequences of calls\<close>

datatype throttle_command =
    Permit string bool instant
  | Response string int "string option" instant

fun throttle_exec :: "(string \<Rightarrow> instant option) \<Rightarrow> throttle_command \<Rightarrow> throttle_row list \<Rightarrow> throttle_row list" where
  "throttle_exec http_date (Permit host continuation now) rows = snd (permit_host host continuation now rows)"
| "throttle_exec http_date (Response host status retry_after now) rows =
     snd (record_host_response http_date host status retry_after now rows)"

fun command_time :: "throttle_command \<Rightarrow> instant" where
  "command_time (Permit _ _ now) = now"
| "command_time (Response _ _ _ now) = now"

text \<open>A slot is reserved up to \<open>t\<close>; a block stands until \<open>t\<close> at least.\<close>

definition reserved :: "throttle_row list \<Rightarrow> string \<Rightarrow> instant \<Rightarrow> bool" where
  "reserved rows grp t \<longleftrightarrow>
     (\<exists>r n. lookup_by th_group grp rows = Some r \<and> th_next_allowed_at r = Some n \<and> t \<le> n)"

definition blocked :: "throttle_row list \<Rightarrow> string \<Rightarrow> instant \<Rightarrow> bool" where
  "blocked rows grp t \<longleftrightarrow>
     (\<exists>r b. lookup_by th_group grp rows = Some r \<and> th_blocked_until r = Some b \<and> t \<le> b)"

declare latest_timestamp.simps [simp del]

lemma lookup_group_update:
  assumes "\<And>x. th_group x = g \<Longrightarrow> th_group (f x) = g"
  shows "lookup_by th_group k (update_where (\<lambda>x. th_group x = g) f rows) =
    map_option (\<lambda>r. if k = g then f r else r) (lookup_by th_group k rows)"
proof -
  have "lookup_by th_group k (update_where (\<lambda>x. th_group x = g) f rows) =
      map_option (\<lambda>x. if th_group x = g then f x else x) (lookup_by th_group k rows)"
    by (rule lookup_by_update_where) (use assms in auto)
  then show ?thesis by (cases "lookup_by th_group k rows") (auto dest: lookup_by_Some)
qed

text \<open>The row of each group after a call.\<close>

lemma permit_row:
  assumes "permit_host host c now rows = (res, rows')" and "rate_limit_group host = Inr g"
  shows "k \<noteq> g \<Longrightarrow> lookup_by th_group k rows' = lookup_by th_group k rows"
    and "res = Inl e \<Longrightarrow> rows' = rows"
    and "res = Inr () \<Longrightarrow> lookup_by th_group g rows = Some r \<Longrightarrow> \<not> sql_gt (th_blocked_until r) now \<and>
      (\<not> c \<longrightarrow> \<not> sql_gt (th_next_allowed_at r) now) \<and>
      lookup_by th_group g rows' = Some (if c then r else
        r\<lparr>th_next_allowed_at := Some (now + host_permit_interval), th_updated_at := now\<rparr>)"
    and "res = Inr () \<Longrightarrow> lookup_by th_group g rows = None \<Longrightarrow> \<exists>r. lookup_by th_group g rows' = Some r \<and>
      th_next_allowed_at r = Some (now + host_permit_interval)"
  using assms
  by (auto simp: permit_host_def transaction_def lookup_by_append lookup_group_update option.map_ident
      split: option.splits if_splits)

definition previous :: "(throttle_row \<Rightarrow> instant option) \<Rightarrow> throttle_row list \<Rightarrow> string \<Rightarrow> instant option" where
  "previous field rows g = (case lookup_by th_group g rows of None \<Rightarrow> None | Some r \<Rightarrow> field r)"

lemma response_row:
  assumes run: "record_host_response http_date host status ra now rows = (Inr st, rows')" and g: "rate_limit_group host = Inr g"
  obtains retry_until r where
    "(if status = 429 then retry_after_deadline http_date ra now else Inr None) = Inr retry_until"
    "ht_blocked_until st = latest_timestamp [if sql_gt (previous th_blocked_until rows g) now
       then previous th_blocked_until rows g else None, retry_until]"
    "ht_next_allowed_at st = latest_timestamp [if sql_gt (previous th_next_allowed_at rows g) now
       then previous th_next_allowed_at rows g else Some now, ht_blocked_until st]"
    "lookup_by th_group g rows' = Some r" "th_blocked_until r = ht_blocked_until st"
    "th_next_allowed_at r = ht_next_allowed_at st"
    "\<And>k. k \<noteq> g \<Longrightarrow> lookup_by th_group k rows' = lookup_by th_group k rows"
proof -
  have range: "100 \<le> status \<and> status \<le> 599" using run by (auto simp: record_host_response_def split: if_splits)
  obtain u where u: "(if status = 429 then retry_after_deadline http_date ra now else Inr None) = Inr u"
    using run range by (cases "if status = 429 then retry_after_deadline http_date ra now else Inr None")
      (auto simp: record_host_response_def g)
  let ?b = "latest_timestamp [if sql_gt (previous th_blocked_until rows g) now then previous th_blocked_until rows g else None, u]"
  let ?n = "latest_timestamp [if sql_gt (previous th_next_allowed_at rows g) now then previous th_next_allowed_at rows g else Some now, ?b]"
  let ?fresh = "\<lparr>th_group = g, th_next_allowed_at = ?n, th_blocked_until = ?b, th_last_http_status = Some status, th_updated_at = now\<rparr>"
  have st: "st = \<lparr>ht_rate_limit_group = g, ht_next_allowed_at = ?n, ht_blocked_until = ?b, ht_last_http_status = Some status,
      ht_updated_at = now\<rparr>"
    and rows': "rows' = (if lookup_by th_group g rows = None then rows @ [?fresh]
      else update_where (\<lambda>x. th_group x = g) (\<lambda>_. ?fresh) rows)"
    using run range u unfolding record_host_response_def g previous_def
    by (simp_all add: transaction_def Let_def)
  have "lookup_by th_group g rows' = Some ?fresh"
    unfolding rows' by (auto simp: lookup_by_append lookup_group_update)
  moreover have "lookup_by th_group k rows' = lookup_by th_group k rows" if "k \<noteq> g" for k
    unfolding rows' using that
    by (auto simp: lookup_by_append lookup_group_update option.map_ident split: option.splits)
  ultimately show thesis using that [OF u, of ?fresh] by (simp add: st)
qed

section \<open>Reservations and blocks last\<close>

lemma latest_first: "a \<le> b \<Longrightarrow> \<exists>c. latest_timestamp [Some b, x] = Some c \<and> a \<le> c"
  by (cases x) (auto simp: latest_timestamp.simps)

text \<open>What a call does to the row of a group.\<close>

lemma throttle_exec_row:
  obtains (same) "lookup_by th_group g (throttle_exec http_date c rows) = lookup_by th_group g rows"
  | (permitted) r where "lookup_by th_group g (throttle_exec http_date c rows) = Some r"
      "th_next_allowed_at r = Some (command_time c + host_permit_interval)"
      "\<not> sql_gt (previous th_next_allowed_at rows g) (command_time c)"
      "th_blocked_until r = previous th_blocked_until rows g"
  | (answered) r u where "lookup_by th_group g (throttle_exec http_date c rows) = Some r"
      "th_blocked_until r = latest_timestamp [if sql_gt (previous th_blocked_until rows g) (command_time c)
         then previous th_blocked_until rows g else None, u]"
      "th_next_allowed_at r = latest_timestamp [if sql_gt (previous th_next_allowed_at rows g) (command_time c)
         then previous th_next_allowed_at rows g else Some (command_time c), th_blocked_until r]"
proof (cases c)
  case (Permit host cont now)
  show thesis
  proof (cases "rate_limit_group host = Inr g")
    case False
    then have "lookup_by th_group g (snd (permit_host host cont now rows)) = lookup_by th_group g rows"
      by (auto simp: permit_host_def transaction_def lookup_by_append lookup_group_update option.map_ident
          split: sum.splits option.splits if_splits)
    then show thesis using same Permit by simp
  next
    case True
    have "lookup_by th_group g (snd (permit_host host cont now rows)) = lookup_by th_group g rows \<or>
      (\<exists>r. lookup_by th_group g (snd (permit_host host cont now rows)) = Some r \<and>
        th_next_allowed_at r = Some (now + host_permit_interval) \<and>
        \<not> sql_gt (previous th_next_allowed_at rows g) now \<and> th_blocked_until r = previous th_blocked_until rows g)"
      using True by (auto simp: permit_host_def transaction_def lookup_by_append lookup_group_update previous_def
          split: option.splits)
    then show thesis using same permitted unfolding Permit throttle_exec.simps command_time.simps by blast
  qed
next
  case (Response host status ra now)
  obtain res rows' where run: "record_host_response http_date host status ra now rows = (res, rows')" by fastforce
  show thesis
  proof (cases "\<exists>g' st. rate_limit_group host = Inr g' \<and> res = Inr st")
    case False
    then have "rows' = rows" using run
      by (auto simp: record_host_response_def transaction_def Let_def split: if_splits sum.splits)
    then show thesis using same Response run by simp
  next
    case True
    then obtain g' st where g': "rate_limit_group host = Inr g'" and st: "res = Inr st" by blast
    show thesis
      by (rule response_row [OF run [unfolded st] g'], cases "g' = g")
        (use same answered Response run in auto)
  qed
qed

text \<open>Whatever the clock does, no call lowers the next allowed time of a group.\<close>

lemma throttle_exec_reserved:
  assumes "reserved rows g t"
  shows "reserved (throttle_exec http_date c rows) g t"
proof -
  obtain n where n: "previous th_next_allowed_at rows g = Some n" "t \<le> n"
    using assms by (auto simp: reserved_def previous_def)
  show ?thesis
  proof (cases rule: throttle_exec_row [of g http_date c rows])
    case same
    then show ?thesis using assms by (simp add: reserved_def)
  next
    case (permitted r)
    then show ?thesis using n by (auto simp: reserved_def host_permit_interval_def seconds_def)
  next
    case (answered r u)
    have "\<exists>b. (if sql_gt (previous th_next_allowed_at rows g) (command_time c) then previous th_next_allowed_at rows g
        else Some (command_time c)) = Some b \<and> t \<le> b"
      using n by auto
    then show ?thesis using answered(1,3) latest_first [of t] unfolding reserved_def by metis
  qed
qed

lemma throttle_fold_reserved:
  "reserved rows g t \<Longrightarrow> reserved (fold (throttle_exec http_date) cs rows) g t"
  by (induction cs arbitrary: rows) (simp_all add: throttle_exec_reserved)

text \<open>While the clock does not run backwards, a block stands until its time has come.\<close>

lemma throttle_exec_blocked:
  assumes "blocked rows g t" and "command_time c < t"
  shows "blocked (throttle_exec http_date c rows) g t"
proof -
  obtain b where b: "previous th_blocked_until rows g = Some b" "t \<le> b"
    using assms by (auto simp: blocked_def previous_def)
  show ?thesis
  proof (cases rule: throttle_exec_row [of g http_date c rows])
    case same
    then show ?thesis using assms by (simp add: blocked_def)
  next
    case (permitted r)
    then show ?thesis using b by (simp add: blocked_def)
  next
    case (answered r u)
    have "(if sql_gt (previous th_blocked_until rows g) (command_time c) then previous th_blocked_until rows g else None) = Some b"
      using b assms(2) by simp
    then show ?thesis using answered(1,2) latest_first [OF b(2), of u] unfolding blocked_def by metis
  qed
qed

lemma throttle_fold_blocked:
  "blocked rows g t \<Longrightarrow> \<forall>c \<in> set cs. command_time c < t \<Longrightarrow> blocked (fold (throttle_exec http_date) cs rows) g t"
  by (induction cs arbitrary: rows) (simp_all add: throttle_exec_blocked)

lemma permit_granted:
  assumes "permit_host host c now rows = (Inr (), rows')" and "rate_limit_group host = Inr g"
  shows "blocked rows g t \<Longrightarrow> t \<le> now" and "\<not> c \<Longrightarrow> reserved rows g t \<Longrightarrow> t \<le> now"
    and "\<not> c \<Longrightarrow> reserved rows' g (now + host_permit_interval)"
  using assms
  by (auto simp: permit_host_def transaction_def blocked_def reserved_def lookup_by_append lookup_group_update
      split: option.splits if_splits)

section \<open>Properties\<close>

text \<open>
  C35. Requests to one host are paced: whatever calls come in between, and even if the clock is
  set back, two permits that are not continuations of a redirect are granted for the same host
  at times at least one second apart.
\<close>

theorem throttle_spacing:
  assumes "permit_host host False now rows = (Inr (), rows1)"
    and "permit_host host' False now' (fold (throttle_exec http_date) cs rows1) = (Inr (), rows2)"
    and "rate_limit_group host = rate_limit_group host'"
  shows "now + seconds 1 \<le> now'"
proof -
  obtain g where g: "rate_limit_group host = Inr g"
    using assms(1) by (cases "rate_limit_group host") (auto simp: permit_host_def)
  show ?thesis
    using permit_granted(2) [OF assms(2)] g assms(3) throttle_fold_reserved permit_granted(3) [OF assms(1) g]
    by (simp add: host_permit_interval_def)
qed

theorem throttle_spacing_witness:
  "\<exists>rows1 rows2. permit_host ''ons.gov.uk'' False 0 [] = (Inr (), rows1) \<and>
     permit_host ''ONS.gov.uk.'' False 1000000 rows1 = (Inr (), rows2) \<and> seconds 1 \<le> 1000000"
proof -
  have g: "rate_limit_group ''ons.gov.uk'' = Inr ''ons.gov.uk''" "rate_limit_group ''ONS.gov.uk.'' = Inr ''ons.gov.uk''"
    by (simp_all add: rate_limit_group_def strip_def rstrip_def is_space_def lower_def lower_char_def char_of_def bit_0)
  obtain rows1 where 1: "permit_host ''ons.gov.uk'' False 0 [] = (Inr (), rows1)"
    by (simp add: permit_host_def g transaction_def)
  then obtain rows2 where 2: "permit_host ''ONS.gov.uk.'' False 1000000 rows1 = (Inr (), rows2)"
    by (auto simp: permit_host_def g transaction_def host_permit_interval_def seconds_def)
  show ?thesis using throttle_spacing [OF 1, of _ _ _ "[]", simplified, OF 2] 1 2 g by simp
qed

text \<open>
  A server's Retry-After is honoured: after a recorded 429 that blocks a host until some
  time, no permit for the host is granted before that time, not even to a redirect continuation,
  whatever calls come in between while the clock runs forwards.
\<close>

theorem throttle_retry_after:
  assumes "record_host_response http_date host 429 retry_after now rows = (Inr st, rows1)"
    and "ht_blocked_until st = Some t"
    and "permit_host host' continuation now' (fold (throttle_exec http_date) cs rows1) = (Inr (), rows2)"
    and "rate_limit_group host = rate_limit_group host'"
    and "\<forall>c \<in> set cs. command_time c \<le> now'"
  shows "t \<le> now'"
proof (rule ccontr)
  assume late: "\<not> t \<le> now'"
  obtain g where g: "rate_limit_group host = Inr g"
    using assms(1) by (cases "rate_limit_group host") (auto simp: record_host_response_def)
  have "blocked rows1 g t"
  proof (rule response_row [OF assms(1) g])
    fix r
    assume "lookup_by th_group g rows1 = Some r" "th_blocked_until r = ht_blocked_until st"
    then show "blocked rows1 g t" unfolding blocked_def assms(2) by blast
  qed
  then have "blocked (fold (throttle_exec http_date) cs rows1) g t"
    by (rule throttle_fold_blocked) (use assms(5) late in force)
  then show False using permit_granted(1) [OF assms(3)] g assms(4) late by simp
qed

theorem throttle_retry_after_witness:
  "\<exists>st rows1 rows2. record_host_response (\<lambda>_. None) ''ons.gov.uk'' 429 (Some ''120'') 0 [] = (Inr st, rows1) \<and>
     ht_blocked_until st = Some (seconds 120) \<and>
     permit_host ''ons.gov.uk'' True (seconds 120) rows1 = (Inr (), rows2) \<and> seconds 120 \<le> seconds 120"
proof -
  have g: "rate_limit_group ''ons.gov.uk'' = Inr ''ons.gov.uk''"
    by (simp add: rate_limit_group_def strip_def rstrip_def is_space_def lower_def lower_char_def)
  have d: "retry_after_deadline (\<lambda>_. None) (Some ''120'') 0 = Inr (Some (seconds 120))"
    by (simp add: retry_after_deadline_def strip_def rstrip_def is_space_def is_digit_def decimal_value_def
        instant_ok_def seconds_def)
  obtain st rows1 where 1: "record_host_response (\<lambda>_. None) ''ons.gov.uk'' 429 (Some ''120'') 0 [] = (Inr st, rows1)"
    and st: "ht_blocked_until st = Some (seconds 120)"
    by (simp add: record_host_response_def g d transaction_def Let_def latest_timestamp.simps)
  moreover from this obtain rows2 where 2: "permit_host ''ons.gov.uk'' True (seconds 120) rows1 = (Inr (), rows2)"
    by (auto simp: record_host_response_def permit_host_def g d transaction_def Let_def latest_timestamp.simps)
  ultimately show ?thesis using throttle_retry_after [OF 1 st, of _ _ _ "[]", simplified, OF 2] by simp
qed

end
