(* ===== verification/Artifacts.thy ===== *)
theory Artifacts
  imports Policies
begin

text \<open>
  The content-addressed artifact store (\<open>storage/artifacts.py\<close>). Its state is what lies under
  \<open>evidence/sha256\<close>: directory and file name of each object with its content, or a mark that the
  entry is not a regular file. A temporary file is private to one call and removed on every path, so
  it appears only as the bytes collected so far.

  A stream is the list of what its \<open>read\<close> calls return, \<open>Inl\<close> for a raised exception; the end of
  the list is the end of the stream. \<open>sha\<close> is the hexadecimal SHA-256 digest.
\<close>

section \<open>Objects\<close>

datatype artifact_error =
    ArtifactTooLargeError int
  | ArtifactVerificationError string
  | ArtifactValueError string
  | ReadError string
  | ValidatorError policy_error
  | BeforePublishError string

datatype cas_file = RegularFile string | NotRegular

type_synonym cas = "((string \<times> string) \<times> cas_file) list"

record stored_artifact =
  sa_content_sha256 :: string
  sa_byte_size :: int
  sa_media_type :: "string option"
  sa_created :: bool

definition artifact_uri :: "stored_artifact \<Rightarrow> string" where
  "artifact_uri a = ''evidence/sha256/'' @ take 2 (sa_content_sha256 a) @ ''/'' @ sa_content_sha256 a"

definition validate_digest :: "string \<Rightarrow> artifact_error option" where
  "validate_digest d =
     (if hex64 d then None
      else Some (ArtifactValueError ''content_sha256 must be a lowercase SHA-256 hexadecimal digest''))"

definition object_path :: "string \<Rightarrow> artifact_error + string \<times> string" where
  "object_path d = (case validate_digest d of Some e \<Rightarrow> Inl e | None \<Rightarrow> Inr (take 2 d, d))"

definition verify_object :: "(string \<Rightarrow> string) \<Rightarrow> string \<Rightarrow> int option \<Rightarrow> cas \<Rightarrow> artifact_error + bool" where
  "verify_object sha d expected_size objects =
     (case object_path d of
        Inl e \<Rightarrow> Inl e
      | Inr path \<Rightarrow>
          (case map_of objects path of
             None \<Rightarrow> Inr False
           | Some NotRegular \<Rightarrow> Inr False
           | Some (RegularFile content) \<Rightarrow>
               if expected_size \<noteq> None \<and> expected_size \<noteq> Some (int (length content)) then Inr False
               else Inr (sha content = d)))"

definition verify :: "(string \<Rightarrow> string) \<Rightarrow> stored_artifact \<Rightarrow> cas \<Rightarrow> artifact_error + bool" where
  "verify sha a = verify_object sha (sa_content_sha256 a) (Some (sa_byte_size a))"

text \<open>\<open>open\<close> with a digest or, with its size, a stored artifact.\<close>

definition open_object :: "(string \<Rightarrow> string) \<Rightarrow> string \<Rightarrow> int option \<Rightarrow> cas \<Rightarrow> artifact_error + string" where
  "open_object sha d expected_size objects =
     (case object_path d of
        Inl e \<Rightarrow> Inl e
      | Inr path \<Rightarrow>
          (case verify_object sha d expected_size objects of
             Inl e \<Rightarrow> Inl e
           | Inr ok \<Rightarrow>
               if \<not> ok then Inl (ArtifactVerificationError (''artifact failed verification: '' @ d))
               else case map_of objects path of
                 Some (RegularFile content) \<Rightarrow> Inr content
               | _ \<Rightarrow> Inl (ArtifactVerificationError (''artifact failed verification: '' @ d))))"

definition published_digests :: "cas \<Rightarrow> string list" where
  "published_digests objects =
     map snd (sort (filter (\<lambda>(dir, name). validate_digest name = None \<and> dir = take 2 name) (map fst objects)))"

section \<open>Storing\<close>

fun copy_stream ::
  "int option \<Rightarrow> string \<Rightarrow> int \<Rightarrow> (string + string) list \<Rightarrow> artifact_error + string \<times> int" where
  "copy_stream max_bytes written byte_size [] = Inr (written, byte_size)"
| "copy_stream max_bytes written byte_size (Inl e # reads) = Inl (ReadError e)"
| "copy_stream max_bytes written byte_size (Inr chunk # reads) =
     (if chunk = [] then Inr (written, byte_size)
      else let byte_size = byte_size + int (length chunk)
           in case max_bytes of
                Some m \<Rightarrow> if m < byte_size then Inl (ArtifactTooLargeError m)
                  else copy_stream max_bytes (written @ chunk) byte_size reads
              | None \<Rightarrow> copy_stream max_bytes (written @ chunk) byte_size reads)"

text \<open>
  \<open>validator\<close> sees the temporary file and the byte count; \<open>before_publish\<close> is the exception that
  callback raises, if any.
\<close>

definition put_stream ::
  "(string \<Rightarrow> string) \<Rightarrow> (string + string) list \<Rightarrow> string option \<Rightarrow> int option \<Rightarrow> int \<Rightarrow>
   (string \<Rightarrow> int \<Rightarrow> policy_error option) option \<Rightarrow> string option \<Rightarrow> (cas, artifact_error, stored_artifact) op" where
  "put_stream sha reads media_type max_bytes chunk_size validator before_publish objects =
     (if (case max_bytes of Some m \<Rightarrow> m < 0 | None \<Rightarrow> False)
      then (Inl (ArtifactValueError ''max_bytes must be non-negative''), objects)
      else if chunk_size \<le> 0 then (Inl (ArtifactValueError ''chunk_size must be positive''), objects)
      else case copy_stream max_bytes [] 0 reads of
        Inl e \<Rightarrow> (Inl e, objects)
      | Inr (content, byte_size) \<Rightarrow>
     (case (case validator of None \<Rightarrow> None | Some v \<Rightarrow> v content byte_size) of
        Some e \<Rightarrow> (Inl (ValidatorError e), objects)
      | None \<Rightarrow>
     (case before_publish of
        Some e \<Rightarrow> (Inl (BeforePublishError e), objects)
      | None \<Rightarrow>
          (let d = sha content
           in case object_path d of
                Inl e \<Rightarrow> (Inl e, objects)
              | Inr path \<Rightarrow>
                  (let a = \<lparr>sa_content_sha256 = d, sa_byte_size = byte_size, sa_media_type = media_type,
                         sa_created = map_of objects path = None\<rparr>
                   in if map_of objects path = None
                      then (Inr a, objects @ [(path, RegularFile content)])
                      else case verify sha a objects of
                        Inl e \<Rightarrow> (Inl e, objects)
                      | Inr ok \<Rightarrow>
                          if ok then (Inr a, objects)
                          else (Inl (ArtifactVerificationError (''existing object failed verification: '' @ d)),
                                objects))))))"

definition put_bytes ::
  "(string \<Rightarrow> string) \<Rightarrow> string \<Rightarrow> string option \<Rightarrow> int option \<Rightarrow> (cas, artifact_error, stored_artifact) op" where
  "put_bytes sha content media_type max_bytes =
     put_stream sha (map Inr (read_chunks (1024 * 1024) content)) media_type max_bytes (1024 * 1024) None None"

section \<open>Facts\<close>

fun stream_content :: "(string + string) list \<Rightarrow> string" where
  "stream_content (Inr chunk # reads) = (if chunk = [] then [] else chunk @ stream_content reads)"
| "stream_content _ = []"

lemma copy_stream_Inr:
  "copy_stream max_bytes written byte_size reads = Inr (content, n) \<Longrightarrow> byte_size = int (length written) \<Longrightarrow>
     (case max_bytes of Some m \<Rightarrow> byte_size \<le> m | None \<Rightarrow> True) \<Longrightarrow>
     content = written @ stream_content reads \<and> n = int (length content) \<and>
     (case max_bytes of Some m \<Rightarrow> n \<le> m | None \<Rightarrow> True)"
  by (induction max_bytes written byte_size reads rule: copy_stream.induct)
    (auto simp: Let_def split: if_splits option.splits)

lemma put_stream_Inr:
  assumes "put_stream sha reads media_type max_bytes chunk_size validator before_publish objects = (Inr a, objects')"
  obtains path content where "content = stream_content reads" "sa_content_sha256 a = sha content"
    "sa_byte_size a = int (length content)" "case max_bytes of Some m \<Rightarrow> int (length content) \<le> m | None \<Rightarrow> True"
    "case validator of None \<Rightarrow> True | Some v \<Rightarrow> v content (int (length content)) = None"
    "before_publish = None" "object_path (sha content) = Inr path" "sa_media_type a = media_type"
    "if sa_created a then map_of objects path = None \<and> objects' = objects @ [(path, RegularFile content)]
     else map_of objects path \<noteq> None \<and> objects' = objects \<and> verify sha a objects = Inr True"
proof -
  let ?copy = "copy_stream max_bytes [] 0 reads"
  have nonneg: "\<not> (case max_bytes of Some m \<Rightarrow> m < 0 | None \<Rightarrow> False)" "\<not> chunk_size \<le> 0"
    using assms by (auto simp: put_stream_def split: if_splits)
  obtain content n where copy: "?copy = Inr (content, n)"
    using assms nonneg by (cases ?copy) (auto simp: put_stream_def)
  have c: "content = stream_content reads" "n = int (length content)"
    "case max_bytes of Some m \<Rightarrow> int (length content) \<le> m | None \<Rightarrow> True"
    using copy_stream_Inr [OF copy] nonneg by (auto split: option.splits)
  have v: "(case validator of None \<Rightarrow> None | Some v \<Rightarrow> v content n) = None"
    using assms nonneg copy by (cases "case validator of None \<Rightarrow> None | Some v \<Rightarrow> v content n") (auto simp: put_stream_def)
  have b: "before_publish = None"
    using assms nonneg copy v by (cases before_publish) (auto simp: put_stream_def)
  obtain path where path: "object_path (sha content) = Inr path"
    using assms nonneg copy v b by (cases "object_path (sha content)") (auto simp: put_stream_def Let_def)
  show thesis
    using assms nonneg copy v b path c
    by (intro that [of content path])
      (auto simp: put_stream_def Let_def split: if_splits option.splits sum.splits)
qed

lemma put_stream_Inl:
  "put_stream sha reads media_type max_bytes chunk_size validator before_publish objects = (Inl e, objects') \<Longrightarrow>
     objects' = objects"
  by (auto simp: put_stream_def Let_def split: if_splits option.splits sum.splits)

lemma verified_open:
  assumes "verify sha a objects = Inr True"
  obtains f where "open_object sha (sa_content_sha256 a) None objects = Inr f" "sha f = sa_content_sha256 a"
    "int (length f) = sa_byte_size a" "map_of objects (take 2 (sa_content_sha256 a), sa_content_sha256 a) = Some (RegularFile f)"
  using assms
  by (auto simp: verify_def verify_object_def open_object_def object_path_def
      split: sum.splits option.splits cas_file.splits if_splits)

lemma put_stream_verified:
  assumes "put_stream sha reads media_type max_bytes chunk_size validator before_publish objects = (Inr a, objects')"
  shows "verify sha a objects' = Inr True"
    and "map_of objects path = Some file \<Longrightarrow> map_of objects' path = Some file"
    and "sa_created a \<Longrightarrow> map_of objects' (take 2 (sa_content_sha256 a), sa_content_sha256 a) =
      Some (RegularFile (stream_content reads))"
proof -
  obtain path' content where c: "content = stream_content reads" "sa_content_sha256 a = sha content"
      "sa_byte_size a = int (length content)" and o: "object_path (sha content) = Inr path'"
    and new: "if sa_created a then map_of objects path' = None \<and> objects' = objects @ [(path', RegularFile content)]
      else map_of objects path' \<noteq> None \<and> objects' = objects \<and> verify sha a objects = Inr True"
    by (rule put_stream_Inr [OF assms]) blast
  have p: "path' = (take 2 (sha content), sha content)" using o by (simp add: object_path_def split: option.splits)
  show "verify sha a objects' = Inr True"
    using c o new by (auto simp: verify_def verify_object_def map_add_def split: if_splits)
  show "map_of objects path = Some file \<Longrightarrow> map_of objects' path = Some file"
    using new by (auto simp: map_add_def split: if_splits option.splits)
  show "sa_created a \<Longrightarrow> map_of objects' (take 2 (sa_content_sha256 a), sa_content_sha256 a) =
      Some (RegularFile (stream_content reads))"
    using c p new by (auto simp: map_add_def split: option.splits)
qed

section \<open>Properties\<close>

text \<open>
  C36. The artifact store is write-once and content-addressed: no call changes or removes a
  published object; a call that raises publishes nothing; one that returns has published an object
  that verifies, opens to bytes with the digest and the length of the stream (the stream's bytes
  themselves when it created the object), stays within the byte limit and was passed by the validator.
\<close>

theorem put_stream_write_once:
  assumes "put_stream sha reads media_type max_bytes chunk_size validator before_publish objects = (res, objects')"
  shows "(\<forall>path file. map_of objects path = Some file \<longrightarrow> map_of objects' path = Some file) \<and>
    (case res of Inl e \<Rightarrow> objects' = objects
     | Inr a \<Rightarrow> verify sha a objects' = Inr True \<and> sa_content_sha256 a = sha (stream_content reads) \<and>
         (\<exists>f. open_object sha (sa_content_sha256 a) None objects' = Inr f \<and> sha f = sha (stream_content reads) \<and>
            length f = length (stream_content reads) \<and> (sa_created a \<longrightarrow> f = stream_content reads)) \<and>
         (case max_bytes of Some m \<Rightarrow> int (length (stream_content reads)) \<le> m | None \<Rightarrow> True) \<and>
         (case validator of Some v \<Rightarrow> v (stream_content reads) (int (length (stream_content reads))) = None | None \<Rightarrow> True))"
proof (cases res)
  case (Inl e)
  have "objects' = objects" by (rule put_stream_Inl [OF assms [unfolded Inl]])
  then show ?thesis using Inl by simp
next
  case (Inr a)
  note run = assms [unfolded Inr]
  obtain path content where c: "content = stream_content reads" "sa_content_sha256 a = sha content"
      "sa_byte_size a = int (length content)" "case max_bytes of Some m \<Rightarrow> int (length content) \<le> m | None \<Rightarrow> True"
      "case validator of None \<Rightarrow> True | Some v \<Rightarrow> v content (int (length content)) = None"
    by (rule put_stream_Inr [OF run]) blast
  obtain f where f: "open_object sha (sa_content_sha256 a) None objects' = Inr f" "sha f = sa_content_sha256 a"
      "int (length f) = sa_byte_size a" "map_of objects' (take 2 (sa_content_sha256 a), sa_content_sha256 a) = Some (RegularFile f)"
    by (rule verified_open [OF put_stream_verified(1) [OF run]])
  have "f = stream_content reads" if "sa_created a" using put_stream_verified(3) [OF run that] f(4) by simp
  then have "\<exists>f. open_object sha (sa_content_sha256 a) None objects' = Inr f \<and> sha f = sha (stream_content reads) \<and>
      length f = length (stream_content reads) \<and> (sa_created a \<longrightarrow> f = stream_content reads)"
    using f(1,2,3) c(1,2,3) by (intro exI [of _ f]) simp
  then show ?thesis unfolding Inr sum.case
    using put_stream_verified(1,2) [OF run] c by (simp split: option.splits)
qed

definition demo_sha :: "string \<Rightarrow> string" where
  "demo_sha s = replicate 64 (CHR ''a'')"

theorem put_stream_write_once_witness:
  "\<exists>a objects'. put_stream demo_sha [Inr ''ab'', Inr ''c''] None (Some 3) 1024 None None [] = (Inr a, objects') \<and>
     open_object demo_sha (sa_content_sha256 a) None objects' = Inr ''abc''"
proof -
  let ?call = "put_stream demo_sha [Inr ''ab'', Inr ''c''] None (Some 3) 1024 None None []"
  have hex: "hex64 (replicate 64 (CHR ''a''))" by (simp add: hex64_def list_all_iff)
  obtain a objects' where run: "?call = (Inr a, objects')" and a: "sa_created a"
    by (simp add: put_stream_def Let_def demo_sha_def object_path_def validate_digest_def hex)
  show ?thesis using put_stream_write_once [OF run] run a by auto
qed

end
