(* ===== verification/Acquisition.thy ===== *)
theory Acquisition
  imports Artifacts HostThrottle "HOL-Library.AList"
begin

text \<open>
  The acquisition boundary (\<open>datasources/common.py\<close>): \<open>acquire\<close> and \<open>acquire_to_artifact\<close>, which
  fetch one resource through a source policy, a host gate and validated peer addresses, following
  redirects by hand.

  The network is an argument: \<open>tr_connect\<close> says what a connection attempt yields, depending on the
  attempts before it. \<open>tr_request_url\<close> is \<open>Request(url).full_url\<close> (\<open>None\<close> where the constructor raises
  \<open>ValueError\<close>) and \<open>tr_join\<close> is \<open>urljoin\<close>. The state records the gate, the artifact store and
  a log of what was done; the log is a history variable the program does not have.
\<close>

section \<open>Requests and responses\<close>

record exchange =
  cn_url :: string
  cn_peer :: string
  cn_scheme :: string
  cn_host :: string
  cn_port :: int
  cn_method :: string
  cn_target :: string
  cn_headers :: "(string \<times> string) list"
  cn_body :: "string option"

datatype connect_result =
    ConnOSError
  | ConnError string
  | ConnResponse int "(string \<times> string) list" "(string + string) list"

record http_response =
  hr_status :: int
  hr_headers :: "(string \<times> string) list"
  hr_reads :: "(string + string) list"
  hr_url :: string

record transport =
  tr_request_url :: "string \<Rightarrow> string option"
  tr_join :: "string \<Rightarrow> string \<Rightarrow> string option"
  tr_connect :: "exchange list \<Rightarrow> exchange \<Rightarrow> connect_result"

datatype acq_error =
    AcqValueError string
  | AcqPolicyError policy_error
  | AcqOSError string
  | AcqTransportError string
  | AcqThrottle throttle_error
  | AcqArtifact artifact_error

datatype acq_event =
    Permitted string bool
  | Requested string
  | Contacted exchange
  | Recorded string int

record 'g acq_state =
  as_gate :: 'g
  as_objects :: cas
  as_log :: "acq_event list"

type_synonym ('g, 'a) acq_op = "('g acq_state, acq_error, 'a) op"

text \<open>\<open>HostRequestGate\<close>\<close>

record 'g host_gate =
  ga_permit :: "string \<Rightarrow> bool \<Rightarrow> ('g, throttle_error, unit) op"
  ga_record_response :: "string \<Rightarrow> int \<Rightarrow> string option \<Rightarrow> ('g, throttle_error, instant option) op"

fun contacts :: "acq_event list \<Rightarrow> exchange list" where
  "contacts [] = []"
| "contacts (Contacted x # es) = x # contacts es"
| "contacts (_ # es) = contacts es"

definition log_event :: "acq_event \<Rightarrow> 'g acq_state \<Rightarrow> 'g acq_state" where
  "log_event e st = st\<lparr>as_log := as_log st @ [e]\<rparr>"

definition USER_AGENT :: string where
  "USER_AGENT = ''nan-fung-datasource-research/0.1''"

definition redirect_status_codes :: "int set" where
  "redirect_status_codes = {301, 302, 303, 307, 308}"

text \<open>\<open>headers.get(name)\<close> of a response, and \<open>dict(headers.items())\<close>.\<close>

definition header_get :: "string \<Rightarrow> (string \<times> string) list \<Rightarrow> string option" where
  "header_get name hs = map_option snd (List.find (\<lambda>(k, v). lower k = lower name) hs)"

definition dict_update :: "(string \<times> 'v) list \<Rightarrow> (string \<times> 'v) list \<Rightarrow> (string \<times> 'v) list" where
  "dict_update d kvs = foldl (\<lambda>d (k, v). AList.update k v d) d kvs"

text \<open>\<open>str.capitalize\<close>, which \<open>Request\<close> applies to header names.\<close>

definition capitalize :: "string \<Rightarrow> string" where
  "capitalize s = (case s of [] \<Rightarrow> [] | c # cs \<Rightarrow> upper_char c # lower cs)"

definition build_url :: "urllib \<Rightarrow> string \<Rightarrow> (string \<times> string) list \<Rightarrow> string" where
  "build_url ul url params =
     (if params = [] then url
      else url @ (if CHR ''?'' \<in> set url then ''&'' else ''?'') @ ul_encode ul params)"

definition throttle_host :: "string \<Rightarrow> string" where
  "throttle_host host = lower (rstrip (\<lambda>c. c = CHR ''.'') (strip host))"

section \<open>One connection\<close>

fun try_peers ::
  "transport \<Rightarrow> string \<Rightarrow> (string \<Rightarrow> exchange) \<Rightarrow> string list \<Rightarrow> ('g, http_response) acq_op" where
  "try_peers tr full_url ex [] st = (Inl (AcqOSError ''all validated peer addresses failed''), st)"
| "try_peers tr full_url ex (peer # peers) st =
     (let st' = log_event (Contacted (ex peer)) st
      in case tr_connect tr (contacts (as_log st)) (ex peer) of
           ConnResponse status hs reads \<Rightarrow>
             (Inr \<lparr>hr_status = status, hr_headers = hs, hr_reads = reads, hr_url = full_url\<rparr>, st')
         | ConnError e \<Rightarrow> (Inl (AcqTransportError e), st')
         | ConnOSError \<Rightarrow> try_peers tr full_url ex peers st')"

text \<open>\<open>Request(...)\<close> and \<open>_open_once\<close>.\<close>

definition open_once ::
  "urllib \<Rightarrow> transport \<Rightarrow> string \<Rightarrow> string list \<Rightarrow> string \<Rightarrow> (string \<times> string) list \<Rightarrow> string option \<Rightarrow>
   ('g, http_response) acq_op" where
  "open_once ul tr url peer_addresses meth headers body st =
     (case tr_request_url tr url of
        None \<Rightarrow> (Inl (AcqValueError ''unknown url type''), st)
      | Some full_url \<Rightarrow>
     (case ul_parse ul full_url of
        None \<Rightarrow> (Inl (AcqPolicyError UrlValueError), st)
      | Some parsed \<Rightarrow>
          if peer_addresses = []
          then (Inl (AcqValueError ''acquisition transport requires validated peer addresses''), st)
          else if \<not> truthy (up_hostname parsed)
          then (Inl (AcqValueError ''acquisition URL must have a hostname''), st)
          else
            (let host = the (up_hostname parsed);
                 target = ul_unparse ul ([], [], if up_path parsed = [] then ''/'' else up_path parsed,
                   up_params parsed, up_query parsed, []);
                 items = dict_update [] (map (\<lambda>(k, v). (capitalize k, v)) headers);
                 default_port = (if up_scheme parsed = ''https'' then 443 else 80)
             in case up_port parsed of
                  None \<Rightarrow> (Inl (AcqPolicyError UrlValueError), st)
                | Some p \<Rightarrow>
                    (let port = (case p of None \<Rightarrow> default_port | Some n \<Rightarrow> if n = 0 then default_port else n);
                         host_value = (if port = default_port then host else host @ '':'' @ int_text port);
                         hs = (if map_of items ''Host'' = None then items @ [(''Host'', host_value)] else items)
                     in if up_scheme parsed \<notin> {''https'', ''http''}
                        then (Inl (AcqValueError ''unsupported acquisition URL scheme''), st)
                        else try_peers tr full_url
                          (\<lambda>peer. \<lparr>cn_url = url, cn_peer = peer, cn_scheme = up_scheme parsed, cn_host = host,
                             cn_port = port, cn_method = meth, cn_target = target, cn_headers = hs,
                             cn_body = body\<rparr>) peer_addresses st))))"

section \<open>The redirect loop\<close>

definition validate_target ::
  "urllib \<Rightarrow> iplib \<Rightarrow> string list \<Rightarrow> source_policy \<Rightarrow> string \<Rightarrow> resolver \<Rightarrow> string \<Rightarrow> acq_error + string list" where
  "validate_target ul ip allowed_host_set policy meth resolver target_url =
     (case ul_parse ul target_url of
        None \<Rightarrow> Inl (AcqPolicyError UrlValueError)
      | Some parsed \<Rightarrow>
          if up_scheme parsed \<notin> {''http'', ''https''} \<or> \<not> truthy (up_hostname parsed)
          then Inl (AcqValueError ''acquisition URL must be an absolute HTTP(S) URL'')
          else if truthy (up_username parsed) \<or> truthy (up_password parsed)
          then Inl (AcqValueError ''acquisition URL must not contain userinfo'')
          else if allowed_host_set \<noteq> [] \<and> throttle_host (the (up_hostname parsed)) \<notin> set allowed_host_set
          then Inl (AcqValueError (''host is not allowed: '' @ the (up_hostname parsed)))
          else map_sum AcqPolicyError id
            (validated_source_addresses ul ip target_url policy meth resolver))"

text \<open>What stays the same during one acquisition.\<close>

record 'g acq_args =
  aa_ul :: urllib
  aa_ip :: iplib
  aa_tr :: transport
  aa_gate :: "'g host_gate option"
  aa_policy :: source_policy
  aa_resolver :: resolver
  aa_allowed_hosts :: "string list"
  aa_method :: string
  aa_headers :: "(string \<times> string) list"
  aa_body :: "string option"
  aa_require_full :: bool
  aa_failure :: string

definition lift_gate :: "('g, throttle_error, 'a) op \<Rightarrow> ('g, 'a) acq_op" where
  "lift_gate f st =
     (case f (as_gate st) of (res, g) \<Rightarrow> (map_sum AcqThrottle id res, st\<lparr>as_gate := g\<rparr>))"

text \<open>One pass of the loop: the permit, the connection, and the throttle bookkeeping of the response.\<close>

definition hop_permit :: "'g acq_args \<Rightarrow> string \<Rightarrow> bool \<Rightarrow> ('g, unit) acq_op" where
  "hop_permit a host continuation st0 =
     (case aa_gate a of
        None \<Rightarrow> (Inr (), st0)
      | Some gate \<Rightarrow> (case lift_gate (ga_permit gate host continuation) st0 of
            (Inl e, st) \<Rightarrow> (Inl e, st)
          | (Inr _, st) \<Rightarrow> (Inr (), log_event (Permitted host continuation) st)))"

definition hop_record :: "'g acq_args \<Rightarrow> string \<Rightarrow> http_response \<Rightarrow> ('g, string \<times> http_response) acq_op" where
  "hop_record a host resp st2 =
     (case aa_gate a of
        None \<Rightarrow> (Inr (host, resp), st2)
      | Some gate \<Rightarrow>
          (case lift_gate (ga_record_response gate host (hr_status resp)
              (header_get ''Retry-After'' (hr_headers resp))) st2 of
             (Inl e, st3) \<Rightarrow> (Inl e, st3)
           | (Inr blocked_until, st3) \<Rightarrow>
               (let st4 = log_event (Recorded host (hr_status resp)) st3
                in if hr_status resp = 429 \<and> blocked_until \<noteq> None
                   then (Inl (AcqThrottle (HostThrottleBlocked host (the blocked_until))), st4)
                   else (Inr (host, resp), st4))))"

definition acq_hop ::
  "'g acq_args \<Rightarrow> string \<Rightarrow> string list \<Rightarrow> string list \<Rightarrow> ('g, string \<times> http_response) acq_op" where
  "acq_hop a url peers permitted st =
     (case ul_parse (aa_ul a) url of
        None \<Rightarrow> (Inl (AcqPolicyError UrlValueError), st)
      | Some parsed \<Rightarrow>
     (case up_hostname parsed of
        None \<Rightarrow> (Inl (AcqValueError ''acquisition URL must have a hostname''), st)
      | Some raw_host \<Rightarrow>
     (let host = throttle_host raw_host
      in case hop_permit a host (host \<in> set permitted) st of
           (Inl e, st1) \<Rightarrow> (Inl e, st1)
         | (Inr _, st1) \<Rightarrow>
             (case open_once (aa_ul a) (aa_tr a) url peers (aa_method a) (aa_headers a) (aa_body a)
                 (log_event (Requested url) st1) of
                (Inl e, st2) \<Rightarrow> (Inl e, st2)
              | (Inr resp, st2) \<Rightarrow> hop_record a host resp st2))))"

text \<open>
  \<open>while True\<close>; \<open>remaining\<close> is \<open>redirect_limit - redirects\<close>. The result is the URL whose response is
  final, with that response.
\<close>

fun acquire_loop ::
  "'g acq_args \<Rightarrow> nat \<Rightarrow> string \<Rightarrow> string list \<Rightarrow> string list \<Rightarrow> ('g, string \<times> http_response) acq_op" where
  "acquire_loop a remaining url peers permitted st =
     (case acq_hop a url peers permitted st of
        (Inl e, st') \<Rightarrow> (Inl e, st')
      | (Inr (host, resp), st') \<Rightarrow>
          if hr_status resp \<in> redirect_status_codes
          then case header_get ''Location'' (hr_headers resp) of
              None \<Rightarrow> (Inl (AcqValueError ''redirect response is missing Location''), st')
            | Some location \<Rightarrow>
                if location = [] then (Inl (AcqValueError ''redirect response is missing Location''), st')
                else if upper (aa_method a) \<noteq> ''GET''
                then (Inl (AcqValueError ''redirected non-GET requests are not supported''), st')
                else case remaining of
                    0 \<Rightarrow> (Inl (AcqValueError ''redirect limit exceeded''), st')
                  | Suc n \<Rightarrow>
                      (case tr_join (aa_tr a) url location of
                         None \<Rightarrow> (Inl (AcqPolicyError UrlValueError), st')
                       | Some next_url \<Rightarrow>
                           (case validate_target (aa_ul a) (aa_ip a) (aa_allowed_hosts a) (aa_policy a)
                               (aa_method a) (aa_resolver a) next_url of
                              Inl e \<Rightarrow> (Inl e, st')
                            | Inr peers' \<Rightarrow> acquire_loop a n next_url peers' (host # permitted) st'))
          else if \<not> (200 \<le> hr_status resp \<and> hr_status resp < 300)
          then (Inl (AcqValueError (aa_failure a)), st')
          else if aa_require_full a \<and> (hr_status resp \<noteq> 200 \<or>
              list_ex (\<lambda>(k, v). lower k = ''content-range'') (hr_headers resp))
          then (Inl (AcqValueError ''acquisition requires a complete HTTP 200 response''), st')
          else (Inr (url, resp), st'))"

declare acquire_loop.simps [simp del]

section \<open>Acquiring into memory\<close>

record acquisition_response =
  ar_request_url :: string
  ar_final_url :: string
  ar_status :: int
  ar_headers :: "(string \<times> string) list"
  ar_body :: string
  ar_retrieved_at :: instant
  ar_method :: string

fun read_body :: "int \<Rightarrow> string \<Rightarrow> (string + string) list \<Rightarrow> acq_error + string" where
  "read_body max_bytes received [] = Inr received"
| "read_body max_bytes received (Inl e # reads) = Inl (AcqTransportError e)"
| "read_body max_bytes received (Inr chunk # reads) =
     (if chunk = [] then Inr received
      else if max_bytes < int (length (received @ chunk))
      then Inl (AcqValueError (''response exceeds '' @ int_text max_bytes @ '' byte limit''))
      else read_body max_bytes (received @ chunk) reads)"

text \<open>The keyword arguments of both functions; \<open>rq_resolver\<close> is the given or the default resolver.\<close>

record 'g acq_request =
  rq_url :: string
  rq_params :: "(string \<times> string) list"
  rq_headers :: "(string \<times> string) list"
  rq_method :: string
  rq_body :: "string option"
  rq_allowed_hosts :: "string list"
  rq_max_bytes :: int
  rq_policy :: "source_policy option"
  rq_resolver :: resolver
  rq_gate :: "'g host_gate option"
  rq_require_full :: bool

text \<open>What the arguments of a call make of the loop's.\<close>

definition loop_args ::
  "urllib \<Rightarrow> iplib \<Rightarrow> transport \<Rightarrow> 'g acq_request \<Rightarrow> source_policy \<Rightarrow> string \<Rightarrow> 'g acq_args" where
  "loop_args ul ip tr rq policy failure =
     \<lparr>aa_ul = ul, aa_ip = ip, aa_tr = tr, aa_gate = rq_gate rq, aa_policy = policy,
      aa_resolver = rq_resolver rq, aa_allowed_hosts = map throttle_host (rq_allowed_hosts rq),
      aa_method = rq_method rq, aa_headers = dict_update [(''User-Agent'', USER_AGENT)] (rq_headers rq),
      aa_body = rq_body rq, aa_require_full = rq_require_full rq, aa_failure = failure\<rparr>"

text \<open>
  What both functions do up to the final response: the checks before the first request and the
  redirect loop. \<open>permitted\<close> are the hosts that count as continuations from the start, \<open>failure\<close> the
  text of the error for an unsuccessful status.
\<close>

definition acquire_response ::
  "urllib \<Rightarrow> iplib \<Rightarrow> transport \<Rightarrow> 'g acq_request \<Rightarrow> source_policy \<Rightarrow> string list \<Rightarrow> string \<Rightarrow>
   ('g, int \<times> string \<times> http_response) acq_op" where
  "acquire_response ul ip tr rq policy permitted failure st =
     (let request_url = build_url ul (rq_url rq) (rq_params rq);
          allowed = map throttle_host (rq_allowed_hosts rq)
      in case validate_target ul ip allowed policy (rq_method rq) (rq_resolver rq) request_url of
           Inl e \<Rightarrow> (Inl e, st)
         | Inr peers \<Rightarrow>
     (let max_bytes = min (rq_max_bytes rq) (ap_max_bytes (sp_artifact policy))
      in if max_bytes < 1 then (Inl (AcqValueError ''max_bytes must be positive''), st)
         else let request_headers = dict_update [(''User-Agent'', USER_AGENT)] (rq_headers rq)
              in if \<not> lower ` fst ` set request_headers \<subseteq> set (sp_allowed_request_headers policy)
                 then (Inl (AcqValueError ''request header is not allowed by source policy''), st)
                 else case acquire_loop (loop_args ul ip tr rq policy failure)
                     (nat (sp_max_redirects policy)) request_url peers permitted st of
                   (Inl e, st') \<Rightarrow> (Inl e, st')
                 | (Inr (url, resp), st') \<Rightarrow> (Inr (max_bytes, url, resp), st')))"

definition acquire ::
  "urllib \<Rightarrow> iplib \<Rightarrow> infolist \<Rightarrow> transport \<Rightarrow> 'g acq_request \<Rightarrow> instant \<Rightarrow> ('g, acquisition_response) acq_op" where
  "acquire ul ip zip_infolist tr rq now st =
     (case rq_policy rq of
        None \<Rightarrow> (Inl (AcqValueError ''acquisition requires a source policy''), st)
      | Some policy \<Rightarrow>
     (case acquire_response ul ip tr rq policy [] ''acquisition requires a successful HTTP response'' st of
        (Inl e, st') \<Rightarrow> (Inl e, st')
      | (Inr (max_bytes, url, resp), st') \<Rightarrow>
     (case read_body max_bytes [] (hr_reads resp) of
        Inl e \<Rightarrow> (Inl e, st')
      | Inr body \<Rightarrow>
          if hr_url resp \<noteq> url
          then (Inl (AcqValueError ''transport returned an unvalidated final URL''), st')
          else case validate_artifact_bytes zip_infolist body (header_get ''Content-Type'' (hr_headers resp))
              (sp_artifact policy) of
            Some e \<Rightarrow> (Inl (AcqPolicyError e), st')
          | None \<Rightarrow> (Inr \<lparr>ar_request_url = build_url ul (rq_url rq) (rq_params rq), ar_final_url = url,
              ar_status = hr_status resp,
              ar_headers = redact_headers safe_persisted_headers (dict_update [] (hr_headers resp)),
              ar_body = body, ar_retrieved_at = now, ar_method = rq_method rq\<rparr>, st'))))"

section \<open>Acquiring into the artifact store\<close>

record acquisition_metadata =
  am_request_url :: string
  am_final_url :: string
  am_status :: int
  am_headers :: "(string \<times> string) list"
  am_retrieved_at :: instant
  am_method :: string

record stored_acquisition_response = acquisition_metadata +
  am_artifact :: stored_artifact

text \<open>
  \<open>_DeadlineReader\<close>: \<open>clock k\<close> is the \<open>k\<close>-th reading of the monotonic clock; a read looks at it before
  and after. The end of the stream is a read like any other.
\<close>

fun deadline_reads ::
  "(nat \<Rightarrow> rat) \<Rightarrow> rat \<Rightarrow> nat \<Rightarrow> (string + string) list \<Rightarrow> (string + string) list" where
  "deadline_reads clock deadline k [] =
     (if deadline \<le> clock k \<or> deadline \<le> clock (Suc k)
      then [Inl ''streamed acquisition exceeded its total deadline''] else [])"
| "deadline_reads clock deadline k (Inl e # reads) =
     [Inl (if deadline \<le> clock k then ''streamed acquisition exceeded its total deadline'' else e)]"
| "deadline_reads clock deadline k (Inr chunk # reads) =
     (if deadline \<le> clock k \<or> deadline \<le> clock (Suc k)
      then [Inl ''streamed acquisition exceeded its total deadline'']
      else Inr chunk # deadline_reads clock deadline (k + 2) reads)"

definition acquire_to_artifact ::
  "urllib \<Rightarrow> iplib \<Rightarrow> infolist \<Rightarrow> transport \<Rightarrow> (string \<Rightarrow> string) \<Rightarrow> 'g acq_request \<Rightarrow> string list \<Rightarrow>
   (acquisition_metadata \<Rightarrow> string option) option \<Rightarrow> rat option \<Rightarrow> (nat \<Rightarrow> rat) \<Rightarrow> instant \<Rightarrow>
   ('g, stored_acquisition_response) acq_op" where
  "acquire_to_artifact ul ip zip_infolist tr sha rq continuation_hosts before_publish max_stream_seconds clock now st =
     (case rq_policy rq of
        None \<Rightarrow> (Inl (AcqValueError ''acquisition requires a source policy''), st)
      | Some policy \<Rightarrow>
          if (case max_stream_seconds of Some m \<Rightarrow> m \<le> 0 | None \<Rightarrow> False)
          then (Inl (AcqValueError ''max_stream_seconds must be positive''), st)
          else case acquire_response ul ip tr rq policy (map throttle_host continuation_hosts)
              ''streamed acquisition requires a successful HTTP response'' st of
            (Inl e, st') \<Rightarrow> (Inl e, st')
          | (Inr (max_bytes, url, resp), st') \<Rightarrow>
              if hr_url resp \<noteq> url
              then (Inl (AcqValueError ''transport returned an unvalidated final URL''), st')
              else
                (let media_type = header_get ''Content-Type'' (hr_headers resp);
                     metadata = \<lparr>am_request_url = build_url ul (rq_url rq) (rq_params rq), am_final_url = url,
                       am_status = hr_status resp,
                       am_headers = redact_headers safe_persisted_headers (dict_update [] (hr_headers resp)),
                       am_retrieved_at = now, am_method = rq_method rq\<rparr>;
                     reads = (case max_stream_seconds of None \<Rightarrow> hr_reads resp
                       | Some m \<Rightarrow> deadline_reads clock (clock 0 + m) 1 (hr_reads resp));
                     validator = (\<lambda>content byte_size. validate_artifact_file zip_infolist (Some content)
                       byte_size media_type (sp_artifact policy))
                 in case put_stream sha reads media_type (Some max_bytes) (1024 * 1024) (Some validator)
                     (case before_publish of None \<Rightarrow> None | Some f \<Rightarrow> f metadata) (as_objects st') of
                   (Inl e, objects) \<Rightarrow> (Inl (AcqArtifact e), st'\<lparr>as_objects := objects\<rparr>)
                 | (Inr artifact, objects) \<Rightarrow>
                     (Inr (acquisition_metadata.extend metadata \<lparr>am_artifact = artifact\<rparr>),
                      st'\<lparr>as_objects := objects\<rparr>)))"

section \<open>Every contact is confined\<close>

text \<open>A URL inside the policy, and the public addresses its host resolved to.\<close>

definition confined ::
  "urllib \<Rightarrow> iplib \<Rightarrow> string list \<Rightarrow> source_policy \<Rightarrow> string \<Rightarrow> resolver \<Rightarrow> string \<Rightarrow> string list \<Rightarrow> bool" where
  "confined ul ip allowed policy meth resolver url peers \<longleftrightarrow>
     (\<exists>p h. ul_parse ul url = Some p \<and> target_ok ul policy meth p h \<and>
        (allowed \<noteq> [] \<longrightarrow> throttle_host h \<in> set allowed) \<and>
        resolver h = Inr peers \<and> peers \<noteq> [] \<and> (\<forall>x \<in> set peers. is_public_address ip x))"

lemma validate_target_confined:
  assumes "validate_target ul ip allowed policy meth resolver url = Inr peers"
  shows "confined ul ip allowed policy meth resolver url peers"
proof -
  obtain p where p: "ul_parse ul url = Some p"
    and host: "allowed \<noteq> [] \<longrightarrow> throttle_host (the (up_hostname p)) \<in> set allowed"
    and src: "validated_source_addresses ul ip url policy meth resolver = Inr peers"
    using assms by (auto simp: validate_target_def map_sum_Inr split: option.splits if_splits)
  then obtain p' where p': "validate_request_url ul ip url policy meth None = Inr p'"
    and r: "resolve_public_addresses ip (case up_hostname p' of None \<Rightarrow> [] | Some h \<Rightarrow> h) resolver = Inr peers"
    by (auto simp: validated_source_addresses_def split: sum.splits)
  obtain h where h: "ul_parse ul url = Some p'" "target_ok ul policy meth p' h"
    by (rule validated_target [OF p'])
  then have "up_hostname p' = Some h" by (simp add: target_ok_def)
  then show ?thesis
    using h p host r resolve_public_addresses_Inr [OF r] unfolding confined_def by auto
qed

definition contact_ok :: "'g acq_args \<Rightarrow> exchange \<Rightarrow> bool" where
  "contact_ok a x \<longleftrightarrow> (\<exists>peers. confined (aa_ul a) (aa_ip a) (aa_allowed_hosts a) (aa_policy a) (aa_method a)
     (aa_resolver a) (cn_url x) peers \<and> cn_peer x \<in> set peers)"

text \<open>With a gate, each contact comes after a permit for its host.\<close>

definition permitted_first :: "urllib \<Rightarrow> acq_event list \<Rightarrow> bool" where
  "permitted_first ul es \<longleftrightarrow> (\<forall>pre x post. es = pre @ Contacted x # post \<longrightarrow>
     (\<exists>p h c. ul_parse ul (cn_url x) = Some p \<and> up_hostname p = Some h \<and> Permitted (throttle_host h) c \<in> set pre))"

fun requests :: "acq_event list \<Rightarrow> nat" where
  "requests [] = 0"
| "requests (Requested u # es) = Suc (requests es)"
| "requests (_ # es) = requests es"

definition log_ok :: "'g acq_args \<Rightarrow> acq_event list \<Rightarrow> bool" where
  "log_ok a es \<longleftrightarrow> (\<forall>x \<in> set (contacts es). contact_ok a x) \<and> (aa_gate a \<noteq> None \<longrightarrow> permitted_first (aa_ul a) es)"

lemma contacts_append [simp]: "contacts (xs @ ys) = contacts xs @ contacts ys"
  by (induction xs rule: contacts.induct) simp_all

lemma requests_append [simp]: "requests (xs @ ys) = requests xs + requests ys"
  by (induction xs rule: requests.induct) simp_all

lemma contacts_map [simp]: "contacts (map Contacted xs) = xs" "requests (map Contacted xs) = 0"
  by (induction xs) simp_all

lemma permitted_first_append:
  assumes "permitted_first ul es" and "permitted_first ul fs"
  shows "permitted_first ul (es @ fs)"
  unfolding permitted_first_def
proof (intro allI impI)
  fix pre x post
  assume eq: "es @ fs = pre @ Contacted x # post"
  then obtain us where "es = pre @ us \<and> us @ fs = Contacted x # post \<or> es @ us = pre \<and> fs = us @ Contacted x # post"
    unfolding append_eq_append_conv2 by blast
  then consider us' where "es = pre @ Contacted x # us'" | us where "fs = us @ Contacted x # post" "set us \<subseteq> set pre"
    by (cases us) auto
  then show "\<exists>p h c. ul_parse ul (cn_url x) = Some p \<and> up_hostname p = Some h \<and> Permitted (throttle_host h) c \<in> set pre"
  proof cases
    case 1
    then show ?thesis using assms(1) unfolding permitted_first_def by blast
  next
    case 2
    then show ?thesis using assms(2) unfolding permitted_first_def by blast
  qed
qed

lemma log_ok_append: "log_ok a es \<Longrightarrow> log_ok a fs \<Longrightarrow> log_ok a (es @ fs)"
  by (auto simp: log_ok_def permitted_first_append)

lemma log_ok_quiet: "contacts es = [] \<Longrightarrow> log_ok a es"
  by (auto simp: log_ok_def permitted_first_def)

lemma try_peers_log:
  "try_peers tr full_url ex peers st = (res, st') \<Longrightarrow>
     \<exists>xs. as_log st' = as_log st @ map Contacted xs \<and> set xs \<subseteq> ex ` set peers \<and>
       as_gate st' = as_gate st \<and> as_objects st' = as_objects st \<and> (\<forall>r. res = Inr r \<longrightarrow> hr_url r = full_url)"
proof (induction peers arbitrary: st)
  case Nil
  then show ?case by (auto intro: exI [of _ "[]"])
next
  case (Cons peer peers)
  let ?st = "log_event (Contacted (ex peer)) st"
  have one: "as_log ?st = as_log st @ map Contacted [ex peer]" "as_gate ?st = as_gate st" "as_objects ?st = as_objects st"
    by (simp_all add: log_event_def)
  show ?case
  proof (cases "tr_connect tr (contacts (as_log st)) (ex peer)")
    case ConnOSError
    then obtain xs where "as_log st' = as_log ?st @ map Contacted xs" "set xs \<subseteq> ex ` set peers"
      "as_gate st' = as_gate ?st" "as_objects st' = as_objects ?st" "\<forall>r. res = Inr r \<longrightarrow> hr_url r = full_url"
      using Cons.IH [of ?st] Cons.prems by (auto simp: Let_def)
    then show ?thesis using one by (intro exI [of _ "ex peer # xs"]) auto
  qed (use Cons.prems one in \<open>auto simp: Let_def intro!: exI [of _ "[ex peer]"]\<close>)
qed

lemma open_once_log:
  assumes "open_once ul tr url peers meth headers body st = (res, st')"
  shows "\<exists>xs. as_log st' = as_log st @ map Contacted xs \<and> (\<forall>x \<in> set xs. cn_url x = url \<and> cn_peer x \<in> set peers) \<and>
    as_gate st' = as_gate st \<and> as_objects st' = as_objects st"
proof -
  have nothing: ?thesis if "st' = st" using that by (auto intro: exI [of _ "[]"])
  have tried: ?thesis if "try_peers tr full_url ex peers st = (res, st')" "\<And>p. cn_url (ex p) = url" "\<And>p. cn_peer (ex p) = p" for full_url ex
    using try_peers_log [OF that(1)] that(2,3) by fastforce
  show ?thesis
    using assms
    by (auto simp: open_once_def Let_def split: option.splits if_splits intro: nothing tried)
qed

lemma hop_permit_log:
  assumes "hop_permit a host c st = (res, st')"
  shows "\<exists>es. as_log st' = as_log st @ es \<and> contacts es = [] \<and> requests es = 0 \<and> as_objects st' = as_objects st \<and>
    (res = Inr () \<longrightarrow> aa_gate a \<noteq> None \<longrightarrow> Permitted host c \<in> set es)"
  using assms by (auto simp: hop_permit_def lift_gate_def log_event_def split: option.splits prod.splits sum.splits)

lemma hop_record_log:
  assumes "hop_record a host resp st = (res, st')"
  shows "\<exists>es. as_log st' = as_log st @ es \<and> contacts es = [] \<and> requests es = 0 \<and> as_objects st' = as_objects st"
    and "res = Inr out \<Longrightarrow> out = (host, resp)"
  using assms by (auto simp: hop_record_def lift_gate_def log_event_def Let_def
      split: option.splits prod.splits sum.splits if_splits)

lemma acq_hop_steps:
  assumes "ul_parse (aa_ul a) url = Some p" and "up_hostname p = Some h"
  shows "acq_hop a url peers permitted st =
    (case hop_permit a (throttle_host h) (throttle_host h \<in> set permitted) st of
       (Inl e, st1) \<Rightarrow> (Inl e, st1)
     | (Inr _, st1) \<Rightarrow>
         (case open_once (aa_ul a) (aa_tr a) url peers (aa_method a) (aa_headers a) (aa_body a)
             (log_event (Requested url) st1) of
            (Inl e, st2) \<Rightarrow> (Inl e, st2) | (Inr resp, st2) \<Rightarrow> hop_record a (throttle_host h) resp st2))"
  by (simp add: acq_hop_def assms Let_def)

lemma acq_hop_log:
  assumes conf: "confined (aa_ul a) (aa_ip a) (aa_allowed_hosts a) (aa_policy a) (aa_method a) (aa_resolver a) url peers"
    and run: "acq_hop a url peers permitted st = (res, st')"
  shows "\<exists>es. as_log st' = as_log st @ es \<and> log_ok a es \<and> requests es \<le> 1 \<and> as_objects st' = as_objects st"
proof -
  obtain p h where p: "ul_parse (aa_ul a) url = Some p" "up_hostname p = Some h"
    using conf by (auto simp: confined_def target_ok_def)
  let ?c = "throttle_host h \<in> set permitted"
  obtain y st1 where one: "hop_permit a (throttle_host h) ?c st = (y, st1)" by fastforce
  obtain es1 where es1: "as_log st1 = as_log st @ es1" "contacts es1 = []" "requests es1 = 0" "as_objects st1 = as_objects st"
    "y = Inr () \<longrightarrow> aa_gate a \<noteq> None \<longrightarrow> Permitted (throttle_host h) ?c \<in> set es1"
    using hop_permit_log [OF one] by blast
  show ?thesis
  proof (cases y)
    case (Inl e)
    then show ?thesis using run one es1 unfolding acq_hop_steps [OF p] by (auto simp: log_ok_quiet)
  next
    case (Inr u)
    obtain z st2 where two: "open_once (aa_ul a) (aa_tr a) url peers (aa_method a) (aa_headers a) (aa_body a)
        (log_event (Requested url) st1) = (z, st2)" by fastforce
    obtain xs where xs: "as_log st2 = as_log st1 @ Requested url # map Contacted xs"
      "\<forall>x \<in> set xs. cn_url x = url \<and> cn_peer x \<in> set peers" "as_objects st2 = as_objects st"
      using open_once_log [OF two] es1(4) by (auto simp: log_event_def)
    let ?es = "es1 @ Requested url # map Contacted xs"
    have ok: "log_ok a ?es"
    proof -
      have "contact_ok a x" if "x \<in> set xs" for x
        using xs(2) that conf unfolding contact_ok_def by auto
      moreover have "permitted_first (aa_ul a) ?es" if "aa_gate a \<noteq> None"
        unfolding permitted_first_def
      proof (intro allI impI)
        fix pre x post
        assume split: "?es = pre @ Contacted x # post"
        then have "x \<in> set (contacts ?es)" by simp
        then have url: "cn_url x = url" using xs(2) es1(2) by simp
        have "Contacted x \<notin> set es1"
        proof
          assume "Contacted x \<in> set es1"
          then have "x \<in> set (contacts es1)" by (induction es1 rule: contacts.induct) auto
          then show False using es1(2) by simp
        qed
        then have "set es1 \<subseteq> set pre" using split
          by (auto simp: append_eq_append_conv2 Cons_eq_append_conv append_eq_Cons_conv)
        moreover have "Permitted (throttle_host h) ?c \<in> set es1" using es1(5) Inr that by simp
        ultimately show "\<exists>p h c. ul_parse (aa_ul a) (cn_url x) = Some p \<and> up_hostname p = Some h \<and>
            Permitted (throttle_host h) c \<in> set pre" using p url by blast
      qed
      ultimately show ?thesis using es1(2) by (auto simp: log_ok_def)
    qed
    show ?thesis
    proof (cases z)
      case z: (Inl e)
      then have "st' = st2" using run one two Inr unfolding acq_hop_steps [OF p] by simp
      then show ?thesis using ok es1 xs by (intro exI [of _ ?es]) simp
    next
      case z: (Inr resp)
      then have rec: "hop_record a (throttle_host h) resp st2 = (res, st')"
        using run one two Inr unfolding acq_hop_steps [OF p] by simp
      obtain es2 where es2: "as_log st' = as_log st2 @ es2" "contacts es2 = []" "requests es2 = 0" "as_objects st' = as_objects st2"
        using hop_record_log(1) [OF rec] by blast
      have "log_ok a (?es @ es2)" by (rule log_ok_append [OF ok log_ok_quiet [OF es2(2)]])
      then show ?thesis using es1 es2 xs by (intro exI [of _ "?es @ es2"]) simp
    qed
  qed
qed

lemma acquire_loop_cases:
  assumes "acquire_loop a n url peers permitted st = (res, st')" and "acq_hop a url peers permitted st = (y, st1)"
  obtains (stop) "st' = st1" "\<And>u resp. res = Inr (u, resp) \<Longrightarrow> u = url \<and> 200 \<le> hr_status resp \<and> hr_status resp < 300 \<and>
      (aa_require_full a \<longrightarrow> hr_status resp = 200)"
  | (redirect) m next_url peers' host where "n = Suc m" "upper (aa_method a) = ''GET''"
      "validate_target (aa_ul a) (aa_ip a) (aa_allowed_hosts a) (aa_policy a) (aa_method a) (aa_resolver a) next_url = Inr peers'"
      "acquire_loop a m next_url peers' (host # permitted) st1 = (res, st')"
proof (cases y)
  case (Inl e)
  then have "res = Inl e" "st' = st1" using assms by (auto simp: acquire_loop.simps)
  then show thesis using stop by simp
next
  case (Inr out)
  obtain host resp where out: "out = (host, resp)" by (cases out)
  note step = assms(1) [unfolded acquire_loop.simps [of a n url] assms(2) Inr out prod.case sum.case]
  show thesis
  proof (cases "hr_status resp \<in> redirect_status_codes")
    case True
    then show thesis
      using step stop redirect
      by (auto split: option.splits if_splits nat.splits sum.splits)
  next
    case False
    then show thesis using step by (intro stop) (auto split: if_splits)
  qed
qed

lemma acquire_loop_log:
  "confined (aa_ul a) (aa_ip a) (aa_allowed_hosts a) (aa_policy a) (aa_method a) (aa_resolver a) url peers \<Longrightarrow>
   acquire_loop a n url peers permitted st = (res, st') \<Longrightarrow>
     (\<exists>es. as_log st' = as_log st @ es \<and> log_ok a es \<and> requests es \<le> Suc n) \<and> as_objects st' = as_objects st \<and>
     (\<forall>u resp. res = Inr (u, resp) \<longrightarrow> 200 \<le> hr_status resp \<and> hr_status resp < 300 \<and>
       (aa_require_full a \<longrightarrow> hr_status resp = 200) \<and>
       (\<exists>peers. confined (aa_ul a) (aa_ip a) (aa_allowed_hosts a) (aa_policy a) (aa_method a) (aa_resolver a) u peers))"
proof (induction n arbitrary: url peers permitted st rule: less_induct)
  case (less n)
  obtain y st1 where hop: "acq_hop a url peers permitted st = (y, st1)" by fastforce
  obtain es where es: "as_log st1 = as_log st @ es" "log_ok a es" "requests es \<le> 1" "as_objects st1 = as_objects st"
    using acq_hop_log [OF less.prems(1) hop] by blast
  show ?case
  proof (cases rule: acquire_loop_cases [OF less.prems(2) hop])
    case 1
    have "requests es \<le> Suc n" using es(3) by simp
    then show ?thesis using 1 es(1,2,4) less.prems(1) by blast
  next
    case (2 m next_url peers' host)
    note IH = less.IH [OF _ validate_target_confined [OF 2(3)] 2(4)]
    obtain fs where fs: "as_log st' = as_log st1 @ fs" "log_ok a fs" "requests fs \<le> Suc m" "as_objects st' = as_objects st1"
      using IH 2(1) by auto
    have "log_ok a (es @ fs)" "requests (es @ fs) \<le> Suc n" "as_log st' = as_log st @ es @ fs"
      using log_ok_append [OF es(2) fs(2)] es fs 2(1) by auto
    then show ?thesis using IH 2(1) es(4) fs(4) by auto
  qed
qed

section \<open>Properties\<close>

lemma acquire_response_log:
  assumes "acquire_response ul ip tr rq policy permitted failure st = (res, st')"
  shows "(\<exists>es. as_log st' = as_log st @ es \<and> log_ok (loop_args ul ip tr rq policy failure) es \<and>
      requests es \<le> Suc (nat (sp_max_redirects policy))) \<and> as_objects st' = as_objects st \<and>
    (\<forall>m u resp. res = Inr (m, u, resp) \<longrightarrow> m = min (rq_max_bytes rq) (ap_max_bytes (sp_artifact policy)) \<and> 1 \<le> m \<and>
      200 \<le> hr_status resp \<and> hr_status resp < 300 \<and> (rq_require_full rq \<longrightarrow> hr_status resp = 200) \<and>
      (\<exists>peers. confined ul ip (map throttle_host (rq_allowed_hosts rq)) policy (rq_method rq) (rq_resolver rq) u peers))"
proof -
  let ?a = "loop_args ul ip tr rq policy failure"
  let ?url = "build_url ul (rq_url rq) (rq_params rq)"
  let ?m = "min (rq_max_bytes rq) (ap_max_bytes (sp_artifact policy))"
  consider (raised) e where "res = Inl e" "st' = st"
    | (loop) peers y where "validate_target ul ip (map throttle_host (rq_allowed_hosts rq)) policy (rq_method rq)
        (rq_resolver rq) ?url = Inr peers"
      "acquire_loop ?a (nat (sp_max_redirects policy)) ?url peers permitted st = (y, st')"
      "1 \<le> ?m" "res = map_sum id (\<lambda>(u, resp). (?m, u, resp)) y"
    using assms
    by (auto simp: acquire_response_def Let_def not_less split: sum.splits if_splits prod.splits)
  then show ?thesis
  proof cases
    case raised
    then show ?thesis by (auto intro: exI [of _ "[]"] simp: log_ok_quiet)
  next
    case loop
    have conf: "confined (aa_ul ?a) (aa_ip ?a) (aa_allowed_hosts ?a) (aa_policy ?a) (aa_method ?a) (aa_resolver ?a) ?url peers"
      using validate_target_confined [OF loop(1)] by (simp add: loop_args_def)
    note log = acquire_loop_log [OF conf loop(2)]
    have "m = ?m \<and> 1 \<le> m \<and> 200 \<le> hr_status resp \<and> hr_status resp < 300 \<and>
        (rq_require_full rq \<longrightarrow> hr_status resp = 200) \<and>
        (\<exists>peers. confined ul ip (map throttle_host (rq_allowed_hosts rq)) policy (rq_method rq) (rq_resolver rq) u peers)"
      if "res = Inr (m, u, resp)" for m u resp
    proof -
      have "y = Inr (u, resp)" "m = ?m" using that loop(4) by (cases y; auto)+
      then show ?thesis using log loop(3) by (auto simp: loop_args_def)
    qed
    then show ?thesis using log by blast
  qed
qed

lemma acquire_response_contacts:
  assumes "acquire_response ul ip tr rq policy permitted failure st = (res, st')" and "as_log st = []"
    and "x \<in> set (contacts (as_log st'))"
  shows "\<exists>p h addresses. ul_parse ul (cn_url x) = Some p \<and> target_ok ul policy (rq_method rq) p h \<and>
    (rq_allowed_hosts rq \<noteq> [] \<longrightarrow> throttle_host h \<in> throttle_host ` set (rq_allowed_hosts rq)) \<and>
    rq_resolver rq h = Inr addresses \<and> cn_peer x \<in> set addresses \<and> is_public_address ip (cn_peer x)"
proof -
  have "contact_ok (loop_args ul ip tr rq policy failure) x"
    using acquire_response_log [OF assms(1)] assms(2,3) by (auto simp: log_ok_def)
  then show ?thesis unfolding contact_ok_def confined_def loop_args_def by (simp, blast)
qed

lemma read_body_Inr:
  "read_body max_bytes received reads = Inr body \<Longrightarrow> int (length received) \<le> max_bytes \<Longrightarrow>
     body = received @ stream_content reads \<and> int (length body) \<le> max_bytes"
  by (induction max_bytes received reads rule: read_body.induct) (auto split: if_splits)

text \<open>
  C5. Whatever the network answers and wherever it redirects, a call of \<open>acquire\<close> that starts with an
  empty log connects only to public addresses to which an allow-listed host resolved, for URLs that
  satisfy the source policy and the caller's host list, makes at most one request more than the
  policy's redirect limit, writes nothing to the artifact store, and, with a gate, obtains a permit
  for the host before it connects.
\<close>

theorem acquire_confined:
  assumes "acquire ul ip zip_infolist tr rq now st = (res, st')" and "rq_policy rq = Some policy" and "as_log st = []"
  shows "(\<forall>x \<in> set (contacts (as_log st')). \<exists>p h addresses. ul_parse ul (cn_url x) = Some p \<and>
       target_ok ul policy (rq_method rq) p h \<and>
       (rq_allowed_hosts rq \<noteq> [] \<longrightarrow> throttle_host h \<in> throttle_host ` set (rq_allowed_hosts rq)) \<and>
       rq_resolver rq h = Inr addresses \<and> cn_peer x \<in> set addresses \<and> is_public_address ip (cn_peer x)) \<and>
    requests (as_log st') \<le> Suc (nat (sp_max_redirects policy)) \<and> as_objects st' = as_objects st \<and>
    (rq_gate rq \<noteq> None \<longrightarrow> permitted_first ul (as_log st'))"
proof -
  let ?failure = "''acquisition requires a successful HTTP response''"
  obtain y where run: "acquire_response ul ip tr rq policy [] ?failure st = (y, st')"
    using assms(1,2) by (auto simp: acquire_def split: prod.splits sum.splits if_splits option.splits)
  note log = acquire_response_log [OF run]
  then have "log_ok (loop_args ul ip tr rq policy ?failure) (as_log st')"
    and reqs: "requests (as_log st') \<le> Suc (nat (sp_max_redirects policy))"
    using assms(3) by auto
  then have gate: "rq_gate rq \<noteq> None \<longrightarrow> permitted_first ul (as_log st')"
    by (simp add: log_ok_def loop_args_def)
  show ?thesis using log gate reqs acquire_response_contacts [OF run assms(3)] by blast
qed

text \<open>
  What \<open>acquire\<close> returns is a complete, bounded and validated response: a success status (200 when
  a full response is required), a final URL that satisfies the source policy, a body that is the
  whole stream within both byte limits and passes the artifact policy, and headers that are
  allow-listed and free of secrets.
\<close>

theorem acquire_result:
  assumes "acquire ul ip zip_infolist tr rq now st = (Inr r, st')"
  shows "\<exists>policy p h. \<exists>resp :: http_response. rq_policy rq = Some policy \<and> ul_parse ul (ar_final_url r) = Some p \<and>
    target_ok ul policy (rq_method rq) p h \<and>
    200 \<le> ar_status r \<and> ar_status r < 300 \<and> (rq_require_full rq \<longrightarrow> ar_status r = 200) \<and>
    ar_status r = hr_status resp \<and> hr_url resp = ar_final_url r \<and> ar_body r = stream_content (hr_reads resp) \<and>
    int (length (ar_body r)) \<le> min (rq_max_bytes rq) (ap_max_bytes (sp_artifact policy)) \<and>
    validate_artifact_bytes zip_infolist (ar_body r) (header_get ''Content-Type'' (hr_headers resp)) (sp_artifact policy) = None \<and>
    (\<forall>(k, v) \<in> set (ar_headers r). lower k \<in> set safe_persisted_headers \<and> (sensitive_key k \<longrightarrow> v = REDACTED_VALUE))"
proof -
  obtain policy m u resp where pol: "rq_policy rq = Some policy"
    and run: "acquire_response ul ip tr rq policy [] ''acquisition requires a successful HTTP response'' st = (Inr (m, u, resp), st')"
    and body: "read_body m [] (hr_reads resp) = Inr (ar_body r)" and url: "hr_url resp = u" "ar_final_url r = u"
    and val: "validate_artifact_bytes zip_infolist (ar_body r) (header_get ''Content-Type'' (hr_headers resp)) (sp_artifact policy) = None"
    and st: "ar_status r = hr_status resp"
    and hs: "ar_headers r = redact_headers safe_persisted_headers (dict_update [] (hr_headers resp))"
    using assms by (auto simp: acquire_def split: prod.splits sum.splits if_splits option.splits)
  have log: "m = min (rq_max_bytes rq) (ap_max_bytes (sp_artifact policy))" "1 \<le> m" "200 \<le> hr_status resp" "hr_status resp < 300"
      "rq_require_full rq \<longrightarrow> hr_status resp = 200"
      "\<exists>peers. confined ul ip (map throttle_host (rq_allowed_hosts rq)) policy (rq_method rq) (rq_resolver rq) u peers"
    using acquire_response_log [OF run] by auto
  obtain p h where p: "ul_parse ul u = Some p" "target_ok ul policy (rq_method rq) p h"
    using log(6) by (auto simp: confined_def)
  have b: "ar_body r = stream_content (hr_reads resp)" "int (length (ar_body r)) \<le> m"
    using read_body_Inr [OF body] log(2) by auto
  have low: "lower ` set safe_persisted_headers = set safe_persisted_headers"
    by (simp add: safe_persisted_headers_def lower_def lower_char_def char_of_def bit_0)
  have "\<forall>(k, v) \<in> set (ar_headers r). lower k \<in> set safe_persisted_headers \<and> (sensitive_key k \<longrightarrow> v = REDACTED_VALUE)"
    unfolding hs redact_headers_def low by auto
  then show ?thesis using pol p url st log b val
    by (intro exI [of _ policy] exI [of _ p] exI [of _ h] exI [of _ resp]) simp
qed

lemma acquire_to_artifact_cases:
  assumes "acquire_to_artifact ul ip zip_infolist tr sha rq continuation before_publish max_seconds clock now st = (res, st')"
    and "rq_policy rq = Some policy"
  obtains (early) e where "res = Inl e" "st' = st"
  | (failed) y e where "acquire_response ul ip tr rq policy (map throttle_host continuation)
        ''streamed acquisition requires a successful HTTP response'' st = (y, st')" "res = Inl e"
  | (stored) m u resp st1 reads before y objects where
      "acquire_response ul ip tr rq policy (map throttle_host continuation)
        ''streamed acquisition requires a successful HTTP response'' st = (Inr (m, u, resp), st1)"
      "put_stream sha reads (header_get ''Content-Type'' (hr_headers resp)) (Some m) (1024 * 1024)
         (Some (\<lambda>content byte_size. validate_artifact_file zip_infolist (Some content) byte_size
           (header_get ''Content-Type'' (hr_headers resp)) (sp_artifact policy))) before (as_objects st1) = (y, objects)"
      "st' = st1\<lparr>as_objects := objects\<rparr>" "case res of Inl _ \<Rightarrow> \<exists>e. y = Inl e | Inr r \<Rightarrow> y = Inr (am_artifact r)"
proof -
  obtain y st1 where run: "acquire_response ul ip tr rq policy (map throttle_host continuation)
      ''streamed acquisition requires a successful HTTP response'' st = (y, st1)" by fastforce
  show thesis
  proof (cases "case max_seconds of Some m \<Rightarrow> m \<le> 0 | None \<Rightarrow> False")
    case True
    then have "res = Inl (AcqValueError ''max_stream_seconds must be positive'')" "st' = st"
      using assms by (auto simp: acquire_to_artifact_def)
    then show thesis by (rule early)
  next
    case secs: False
    show thesis
    proof (cases y)
      case (Inl e)
      then have "st' = st1" "res = Inl e" using assms secs run by (auto simp: acquire_to_artifact_def)
      then show thesis using failed run by blast
    next
      case (Inr out)
      obtain m u resp where out: "out = (m, u, resp)" by (cases out)
      show thesis
      proof (cases "hr_url resp = u")
        case False
        then have "st' = st1" "\<exists>e. res = Inl e" using assms secs run Inr out by (auto simp: acquire_to_artifact_def)
        then show thesis using failed run by blast
      next
        case url: True
        let ?put = "\<lambda>reads before. put_stream sha reads (header_get ''Content-Type'' (hr_headers resp)) (Some m) (1024 * 1024)
          (Some (\<lambda>content byte_size. validate_artifact_file zip_infolist (Some content) byte_size
           (header_get ''Content-Type'' (hr_headers resp)) (sp_artifact policy))) before (as_objects st1)"
        obtain reads before meta where step: "(case ?put reads before of
             (Inl e, objects) \<Rightarrow> (Inl (AcqArtifact e), st1\<lparr>as_objects := objects\<rparr>)
           | (Inr artifact, objects) \<Rightarrow> (Inr (acquisition_metadata.extend meta \<lparr>am_artifact = artifact\<rparr>),
               st1\<lparr>as_objects := objects\<rparr>)) = (res, st')"
          using assms secs run Inr out url unfolding acquire_to_artifact_def Let_def by (simp only: option.case if_False prod.case sum.case simp_thms)
        obtain z objects where z: "?put reads before = (z, objects)" by fastforce
        have "st' = st1\<lparr>as_objects := objects\<rparr>" "case res of Inl _ \<Rightarrow> \<exists>e. z = Inl e | Inr r \<Rightarrow> z = Inr (am_artifact r)"
          using step z by (auto simp: acquisition_metadata.defs split: sum.splits)
        then show thesis using stored run Inr out z by blast
      qed
    qed
  qed
qed

text \<open>
  C34. \<open>acquire_to_artifact\<close> publishes only what it may: its connections are as confined as those of
  \<open>acquire\<close>; if it raises, for whatever reason, the artifact store is unchanged; if it returns, the
  artifact verifies, is within both byte limits and passes the artifact policy as if it had been
  checked in memory, and every object that was there before is still there unchanged.
\<close>

theorem acquire_to_artifact_publishes:
  assumes "acquire_to_artifact ul ip zip_infolist tr sha rq continuation before_publish max_seconds clock now st = (res, st')"
    and "rq_policy rq = Some policy" and "as_log st = []"
  shows "(\<forall>x \<in> set (contacts (as_log st')). \<exists>p h addresses. ul_parse ul (cn_url x) = Some p \<and>
       target_ok ul policy (rq_method rq) p h \<and>
       (rq_allowed_hosts rq \<noteq> [] \<longrightarrow> throttle_host h \<in> throttle_host ` set (rq_allowed_hosts rq)) \<and>
       rq_resolver rq h = Inr addresses \<and>
       cn_peer x \<in> set addresses \<and> is_public_address ip (cn_peer x)) \<and>
    (\<forall>path file. map_of (as_objects st) path = Some file \<longrightarrow> map_of (as_objects st') path = Some file) \<and>
    (case res of Inl e \<Rightarrow> as_objects st' = as_objects st
     | Inr r \<Rightarrow> verify sha (am_artifact r) (as_objects st') = Inr True \<and>
         sa_byte_size (am_artifact r) \<le> min (rq_max_bytes rq) (ap_max_bytes (sp_artifact policy)) \<and>
         (\<exists>content. sa_content_sha256 (am_artifact r) = sha content \<and> sa_byte_size (am_artifact r) = int (length content) \<and>
            validate_artifact_bytes zip_infolist content (sa_media_type (am_artifact r)) (sp_artifact policy) = None))"
proof -
  show ?thesis
  proof (cases rule: acquire_to_artifact_cases [OF assms(1,2)])
    case 1
    then show ?thesis using assms(3) by simp
  next
    case (2 y e)
    have "as_objects st' = as_objects st" using acquire_response_log [OF 2(1)] by blast
    then show ?thesis using 2(2) acquire_response_contacts [OF 2(1) assms(3)] by simp
  next
    case (3 m u resp st1 reads before y objects)
    have m: "m = min (rq_max_bytes rq) (ap_max_bytes (sp_artifact policy))" and objs: "as_objects st1 = as_objects st"
      using acquire_response_log [OF 3(1)] by auto
    have log: "as_log st' = as_log st1" using 3(3) by simp
    note contacts = acquire_response_contacts [OF 3(1) assms(3), folded log]
    show ?thesis
    proof (cases res)
      case (Inl e)
      then have "as_objects st' = as_objects st" using 3 put_stream_Inl objs by auto
      then show ?thesis using Inl contacts by simp
    next
      case (Inr r)
      have put: "put_stream sha reads (header_get ''Content-Type'' (hr_headers resp)) (Some m) (1024 * 1024)
           (Some (\<lambda>content byte_size. validate_artifact_file zip_infolist (Some content) byte_size
             (header_get ''Content-Type'' (hr_headers resp)) (sp_artifact policy))) before (as_objects st)
          = (Inr (am_artifact r), as_objects st')"
        using 3(2,3,4) Inr objs by simp
      have "\<exists>content. sa_content_sha256 (am_artifact r) = sha content \<and> sa_byte_size (am_artifact r) = int (length content) \<and>
          int (length content) \<le> m \<and>
          validate_artifact_bytes zip_infolist content (sa_media_type (am_artifact r)) (sp_artifact policy) = None"
        by (rule put_stream_Inr [OF put]) (auto simp: validate_file_eq_bytes)
      then obtain content where content: "sa_content_sha256 (am_artifact r) = sha content"
        "sa_byte_size (am_artifact r) = int (length content)" "int (length content) \<le> m"
        "validate_artifact_bytes zip_infolist content (sa_media_type (am_artifact r)) (sp_artifact policy) = None" by blast
      have "sa_byte_size (am_artifact r) \<le> min (rq_max_bytes rq) (ap_max_bytes (sp_artifact policy))"
        using content(2,3) m by simp
      moreover have "\<forall>path file. map_of (as_objects st) path = Some file \<longrightarrow> map_of (as_objects st') path = Some file"
        using put_stream_verified(2) [OF put] by blast
      ultimately show ?thesis
        unfolding Inr sum.case using contacts put_stream_verified(1) [OF put] content(1,2,4) by blast
    qed
  qed
qed

section \<open>The gate\<close>

text \<open>A call that raised and did nothing that is logged.\<close>

definition refused :: "'g acq_state \<Rightarrow> (acq_error + 'a) \<times> 'g acq_state \<Rightarrow> bool" where
  "refused st out \<longleftrightarrow> isl (fst out) \<and> as_log (snd out) = as_log st"

lemma refused_bind:
  "refused st out \<Longrightarrow> refused st (case out of (Inl e, st') \<Rightarrow> (Inl e, st') | (Inr x, st') \<Rightarrow> k x st')"
  by (cases out, cases "fst out") (simp_all add: refused_def)

lemma refused_now: "refused st (Inl e, st)"
  by (simp add: refused_def)

text \<open>
  What an acquisition relies on of its gate: a host that is held until some time gets no permit
  before it, and the time a recorded response answers is a time the host is held until.
\<close>

locale request_gate =
  fixes permit :: "string \<Rightarrow> bool \<Rightarrow> ('g, throttle_error, unit) op"
    and record_response :: "string \<Rightarrow> int \<Rightarrow> string option \<Rightarrow> ('g, throttle_error, instant option) op"
    and now :: "'g \<Rightarrow> instant" and held :: "'g \<Rightarrow> string \<Rightarrow> instant \<Rightarrow> bool"
  assumes held_refused: "held g host t \<Longrightarrow> now g < t \<Longrightarrow> \<exists>e g'. permit host c g = (Inl e, g')"
    and record_held: "record_response host status retry_after g = (Inr (Some t), g') \<Longrightarrow> held g' host t"
begin

lemma hop_refused:
  assumes "aa_gate a = Some \<lparr>ga_permit = permit, ga_record_response = record_response\<rparr>"
    and "ul_parse (aa_ul a) url = Some p" and "up_hostname p = Some h"
    and "held (as_gate st) (throttle_host h) t" and "now (as_gate st) < t"
  shows "refused st (acq_hop a url peers permitted st)"
proof -
  obtain e g' where "permit (throttle_host h) (throttle_host h \<in> set permitted) (as_gate st) = (Inl e, g')"
    using held_refused [OF assms(4,5)] by blast
  then show ?thesis
    by (simp add: refused_def acq_hop_steps [OF assms(2,3)] hop_permit_def assms(1) lift_gate_def)
qed

lemma acquire_refused:
  assumes "rq_gate rq = Some \<lparr>ga_permit = permit, ga_record_response = record_response\<rparr>"
    and "ul_parse ul (build_url ul (rq_url rq) (rq_params rq)) = Some p" and "up_hostname p = Some h"
    and "held (as_gate st) (throttle_host h) t" and "now (as_gate st) < t"
  shows "refused st (acquire ul ip zip_infolist tr rq clock st)"
proof -
  let ?url = "build_url ul (rq_url rq) (rq_params rq)"
  have "refused st (acquire_loop (loop_args ul ip tr rq policy failure) n ?url peers permitted st)"
    for policy failure n peers permitted
  proof -
    let ?a = "loop_args ul ip tr rq policy failure"
    have "aa_gate ?a = Some \<lparr>ga_permit = permit, ga_record_response = record_response\<rparr>" "ul_parse (aa_ul ?a) ?url = Some p"
      using assms(1,2) by (simp_all add: loop_args_def)
    from hop_refused [OF this assms(3,4,5), of peers permitted] show ?thesis
      unfolding acquire_loop.simps [of ?a n] by (rule refused_bind)
  qed
  then have "refused st (acquire_response ul ip tr rq policy permitted failure st)" for policy permitted failure
    unfolding acquire_response_def Let_def
    by (auto simp: refused_now split: sum.split intro!: refused_bind)
  then show ?thesis unfolding acquire_def
    by (auto simp: refused_now split: option.split intro!: refused_bind)
qed

lemma hop_429_refused:
  assumes "aa_gate a = Some \<lparr>ga_permit = permit, ga_record_response = record_response\<rparr>"
    and "hr_status resp = 429"
    and "record_response host 429 (header_get ''Retry-After'' (hr_headers resp)) (as_gate st) = (Inr (Some t), g')"
  shows "\<exists>st'. hop_record a host resp st = (Inl (AcqThrottle (HostThrottleBlocked host t)), st') \<and> held (as_gate st') host t"
  using assms record_held [OF assms(3)]
  by (simp add: hop_record_def lift_gate_def Let_def log_event_def)

end

text \<open>
  The durable gate: the throttle table, and the readings of its clock with the number of those
  already taken.
\<close>

record gate_state =
  gs_rows :: "throttle_row list"
  gs_clock :: "nat \<Rightarrow> instant"
  gs_calls :: nat

definition gate_now :: "gate_state \<Rightarrow> instant" where
  "gate_now g = gs_clock g (gs_calls g)"

definition clocked :: "(instant \<Rightarrow> 'a throttle_op) \<Rightarrow> (gate_state, throttle_error, 'a) op" where
  "clocked f g = (case f (gate_now g) (gs_rows g) of
     (res, rows) \<Rightarrow> (res, g\<lparr>gs_rows := rows, gs_calls := Suc (gs_calls g)\<rparr>))"

definition throttle_gate :: "(string \<Rightarrow> instant option) \<Rightarrow> gate_state host_gate" where
  "throttle_gate http_date =
     \<lparr>ga_permit = (\<lambda>host continuation. clocked (\<lambda>now. gate_permit now host continuation)),
      ga_record_response = (\<lambda>host status retry_after. clocked (\<lambda>now. gate_record_response http_date now host status retry_after))\<rparr>"

definition host_blocked :: "gate_state \<Rightarrow> string \<Rightarrow> instant \<Rightarrow> bool" where
  "host_blocked g host t \<longleftrightarrow> (\<exists>grp. rate_limit_group host = Inr grp \<and> blocked (gs_rows g) grp t)"

interpretation tg: request_gate
  "ga_permit (throttle_gate http_date)" "ga_record_response (throttle_gate http_date)" gate_now host_blocked
  for http_date
proof (unfold_locales, goal_cases)
  case (1 g host t c)
  then obtain grp where grp: "rate_limit_group host = Inr grp" "blocked (gs_rows g) grp t"
    by (auto simp: host_blocked_def)
  obtain res rows where run: "permit_host host c (gate_now g) (gs_rows g) = (res, rows)" by fastforce
  have "res \<noteq> Inr ()" using permit_granted(1) [OF _ grp(1)] run grp(2) 1(2) by fastforce
  then obtain e where "res = Inl e" by (cases res) auto
  then show ?case using run by (simp add: throttle_gate_def clocked_def gate_permit_def)
next
  case (2 host status ra g t g')
  obtain st rows where run: "record_host_response http_date host status ra (gate_now g) (gs_rows g) = (Inr st, rows)"
    and st: "ht_blocked_until st = Some t" and g': "gs_rows g' = rows"
    using 2 by (auto simp: throttle_gate_def clocked_def gate_record_response_def split: prod.splits sum.splits)
  obtain grp where grp: "rate_limit_group host = Inr grp"
    using run by (cases "rate_limit_group host") (auto simp: record_host_response_def split: if_splits)
  have "blocked rows grp t"
  proof (rule response_row [OF run grp])
    fix r
    assume "lookup_by th_group grp rows = Some r" "th_blocked_until r = ht_blocked_until st"
    then show "blocked rows grp t" unfolding blocked_def st by blast
  qed
  then show ?case using grp g' by (auto simp: host_blocked_def)
qed

text \<open>
  A host blocked in the durable throttle is left alone: an \<open>acquire\<close> through the throttle
  gate whose URL names such a host raises before the block ends and makes no connection at all.
\<close>

theorem acquire_blocked_host:
  assumes "rq_gate rq = Some (throttle_gate http_date)"
    and "ul_parse ul (build_url ul (rq_url rq) (rq_params rq)) = Some p" and "up_hostname p = Some h"
    and "host_blocked (as_gate st) (throttle_host h) t" and "gate_now (as_gate st) < t"
  shows "\<exists>e st'. acquire ul ip zip_infolist tr rq clock st = (Inl e, st') \<and> as_log st' = as_log st"
proof -
  have "refused st (acquire ul ip zip_infolist tr rq clock st)"
    by (rule tg.acquire_refused [OF _ assms(2-5)]) (use assms(1) in \<open>simp add: throttle_gate_def\<close>)
  then show ?thesis
    by (cases "acquire ul ip zip_infolist tr rq clock st") (auto simp: refused_def isl_def)
qed

section \<open>A sample acquisition\<close>

text \<open>One redirect inside the allow-list, then two bytes.\<close>

definition demo_source :: source_policy where
  "demo_source = demo_policy\<lparr>sp_allowed_request_headers := [''user-agent''], sp_max_redirects := 1\<rparr>"

definition demo_transport :: transport where
  "demo_transport = \<lparr>tr_request_url = Some, tr_join = (\<lambda>u l. Some l),
     tr_connect = (\<lambda>hist x. if cn_url x = ''a.b.c'' then ConnResponse 302 [(''location'', ''d.b.c'')] []
       else ConnResponse 200 [(''etag'', ''1'')] [Inr ''hi''])\<rparr>"

definition demo_request :: "gate_state acq_request" where
  "demo_request = \<lparr>rq_url = ''a.b.c'', rq_params = [], rq_headers = [], rq_method = ''GET'', rq_body = None,
     rq_allowed_hosts = [], rq_max_bytes = 10, rq_policy = Some demo_source,
     rq_resolver = (\<lambda>_. Inr [''1.1.1.1'']), rq_gate = Some (throttle_gate (\<lambda>_. None)), rq_require_full = False\<rparr>"

definition demo_state :: "gate_state acq_state" where
  "demo_state = \<lparr>as_gate = \<lparr>gs_rows = [], gs_clock = (\<lambda>k. seconds (int k)), gs_calls = 0\<rparr>, as_objects = [], as_log = []\<rparr>"

lemma demo_strings:
  "lower ''a.b.c'' = ''a.b.c''" "lower ''d.b.c'' = ''d.b.c''" "lower ''https'' = ''https''" "upper ''GET'' = ''GET''"
  "lower ''Location'' = ''location''" "lower ''location'' = ''location''" "lower ''User-Agent'' = ''user-agent''"
  "lower ''Content-Type'' = ''content-type''" "lower ''etag'' = ''etag''" "lower ''Retry-After'' = ''retry-after''"
  by (simp_all add: lower_def upper_def lower_char_def upper_char_def char_of_def bit_0)

lemma demo_hosts: "throttle_host ''a.b.c'' = ''a.b.c''" "throttle_host ''d.b.c'' = ''d.b.c''"
  "rate_limit_group ''a.b.c'' = Inr ''a.b.c''" "rate_limit_group ''d.b.c'' = Inr ''d.b.c''"
  "normalize_host ''a.b.c'' = Inr ''a.b.c''" "normalize_host ''d.b.c'' = Inr ''d.b.c''"
  by (simp_all add: throttle_host_def rate_limit_group_def normalize_host_def strip_def rstrip_def is_space_def demo_strings)

lemma demo_target:
  assumes "u = ''a.b.c'' \<or> u = ''d.b.c''"
  shows "validate_target demo_urllib demo_iplib [] demo_source ''GET'' (\<lambda>_. Inr [''1.1.1.1'']) u = Inr [''1.1.1.1'']"
  using assms
  by (auto simp: validate_target_def validated_source_addresses_def validate_request_url_def demo_urllib_def demo_iplib_def
      demo_source_def demo_policy_def check_target_def demo_strings demo_hosts host_allowed_def Let_def
      resolve_public_addresses_def is_public_address_def suffix_def)

lemmas demo_eval = demo_request_def demo_state_def demo_transport_def acq_hop_def hop_permit_def hop_record_def lift_gate_def
  throttle_gate_def clocked_def gate_now_def gate_permit_def gate_record_response_def permit_host_def record_host_response_def
  transaction_def open_once_def header_get_def log_event_def latest_timestamp.simps host_permit_interval_def
  redirect_status_codes_def loop_args_def

lemma demo_parse: "ul_parse demo_urllib u = Some \<lparr>up_scheme = ''https'', up_username = None, up_password = None,
     up_hostname = Some u, up_port = Some None, up_path = ''/'', up_params = [], up_query = [], up_fragment = []\<rparr>"
  by (simp add: demo_urllib_def)

lemma demo_acquire:
  "\<exists>st. acquire_response demo_urllib demo_iplib demo_transport demo_request demo_source [] failure demo_state =
     (Inr (10, ''d.b.c'', \<lparr>hr_status = 200, hr_headers = [(''etag'', ''1'')], hr_reads = [Inr ''hi''], hr_url = ''d.b.c''\<rparr>), st) \<and>
     length (contacts (as_log st)) = 2 \<and> as_objects st = []"
proof -
  let ?a = "loop_args demo_urllib demo_iplib demo_transport demo_request demo_source failure"
  obtain st1 where 1: "acq_hop ?a ''a.b.c'' [''1.1.1.1''] [] demo_state =
      (Inr (''a.b.c'', \<lparr>hr_status = 302, hr_headers = [(''location'', ''d.b.c'')], hr_reads = [], hr_url = ''a.b.c''\<rparr>), st1)"
    and st1: "length (contacts (as_log st1)) = 1" "as_objects st1 = []" "map th_group (gs_rows (as_gate st1)) = [''a.b.c'']"
    by (simp add: demo_eval demo_parse demo_hosts demo_strings seconds_def Let_def update_where_def)
  have none: "lookup_by th_group ''d.b.c'' (gs_rows (as_gate st1)) = None"
    using st1(3) by (auto simp: lookup_by_None_iff)
  obtain st2 where 2: "acq_hop ?a ''d.b.c'' [''1.1.1.1''] [''a.b.c''] st1 =
      (Inr (''d.b.c'', \<lparr>hr_status = 200, hr_headers = [(''etag'', ''1'')], hr_reads = [Inr ''hi''], hr_url = ''d.b.c''\<rparr>), st2)"
    and st2: "length (contacts (as_log st2)) = 2" "as_objects st2 = []"
    using none st1 by (simp add: demo_eval demo_parse demo_hosts demo_strings seconds_def Let_def lookup_by_append)
  have fields: "aa_require_full ?a = False" "aa_method ?a = ''GET''" "tr_join (aa_tr ?a) u l = Some l"
    "validate_target (aa_ul ?a) (aa_ip ?a) (aa_allowed_hosts ?a) (aa_policy ?a) (aa_method ?a) (aa_resolver ?a) ''d.b.c'' = Inr [''1.1.1.1'']"
    for u l using demo_target [of "''d.b.c''"] by (simp_all add: loop_args_def demo_request_def demo_transport_def)
  have "acquire_loop ?a 0 ''d.b.c'' [''1.1.1.1''] [''a.b.c''] st1 =
      (Inr (''d.b.c'', \<lparr>hr_status = 200, hr_headers = [(''etag'', ''1'')], hr_reads = [Inr ''hi''], hr_url = ''d.b.c''\<rparr>), st2)"
    by (simp add: acquire_loop.simps [of _ 0] 2 redirect_status_codes_def fields(1))
  then have "acquire_loop ?a (Suc 0) ''a.b.c'' [''1.1.1.1''] [] demo_state =
      (Inr (''d.b.c'', \<lparr>hr_status = 200, hr_headers = [(''etag'', ''1'')], hr_reads = [Inr ''hi''], hr_url = ''d.b.c''\<rparr>), st2)"
    by (simp add: acquire_loop.simps [of _ "Suc 0"] 1 redirect_status_codes_def header_get_def demo_strings fields(2,3)
        fields(4) [unfolded fields(2)])
  then show ?thesis
    using st2 demo_target [of "''a.b.c''"]
    by (simp add: acquire_response_def demo_request_def build_url_def dict_update_def demo_strings demo_source_def demo_policy_def
        default_artifact_policy_def)
qed

theorem acquire_confined_witness:
  "\<exists>st. snd (acquire demo_urllib demo_iplib (\<lambda>_. None) demo_transport demo_request 0 demo_state) = st \<and>
     length (contacts (as_log st)) = 2 \<and> (\<forall>x \<in> set (contacts (as_log st)). is_public_address demo_iplib (cn_peer x))"
proof -
  let ?call = "acquire demo_urllib demo_iplib (\<lambda>_. None) demo_transport demo_request 0 demo_state"
  obtain st where st: "acquire_response demo_urllib demo_iplib demo_transport demo_request demo_source []
      ''acquisition requires a successful HTTP response'' demo_state =
     (Inr (10, ''d.b.c'', \<lparr>hr_status = 200, hr_headers = [(''etag'', ''1'')], hr_reads = [Inr ''hi''], hr_url = ''d.b.c''\<rparr>), st)"
    "length (contacts (as_log st)) = 2" using demo_acquire by blast
  have pol: "rq_policy demo_request = Some demo_source" "as_log demo_state = []"
    by (simp_all add: demo_request_def demo_state_def)
  have "snd ?call = st" using st(1) by (simp add: acquire_def pol split: option.split)
  then have run: "?call = (fst ?call, st)" by (metis prod.collapse)
  have "\<forall>x \<in> set (contacts (as_log st)). is_public_address demo_iplib (cn_peer x)"
    using acquire_confined [OF run pol] by blast
  then show ?thesis using \<open>snd ?call = st\<close> st(2) by blast
qed

lemma demo_media: "validate_artifact_bytes (\<lambda>_. None) ''hi'' None default_artifact_policy = None"
  by (simp add: validate_artifact_bytes_def validate_artifact_size_def default_artifact_policy_def validate_media_type_def
      normalized_media_def media_base_def strip_def rstrip_def lower_def zip_magic_def zip_media_types_def)

theorem acquire_result_witness:
  "\<exists>r st. acquire demo_urllib demo_iplib (\<lambda>_. None) demo_transport demo_request 0 demo_state = (Inr r, st) \<and>
     ar_body r = ''hi'' \<and> ar_final_url r = ''d.b.c'' \<and> 200 \<le> ar_status r"
proof -
  let ?call = "acquire demo_urllib demo_iplib (\<lambda>_. None) demo_transport demo_request 0 demo_state"
  obtain st where st: "acquire_response demo_urllib demo_iplib demo_transport demo_request demo_source []
      ''acquisition requires a successful HTTP response'' demo_state =
     (Inr (10, ''d.b.c'', \<lparr>hr_status = 200, hr_headers = [(''etag'', ''1'')], hr_reads = [Inr ''hi''], hr_url = ''d.b.c''\<rparr>), st)"
    using demo_acquire by blast
  have "rq_policy demo_request = Some demo_source" "sp_artifact demo_source = default_artifact_policy"
    by (simp_all add: demo_request_def demo_source_def demo_policy_def)
  then obtain r where r: "?call = (Inr r, st)" "ar_body r = ''hi''" "ar_final_url r = ''d.b.c''"
    using st demo_media by (simp add: acquire_def header_get_def demo_strings)
  show ?thesis using acquire_result [OF r(1)] r by blast
qed

theorem acquire_to_artifact_publishes_witness:
  "\<exists>r st. acquire_to_artifact demo_urllib demo_iplib (\<lambda>_. None) demo_transport demo_sha demo_request [] None None (\<lambda>_. 0) 0
       demo_state = (Inr r, st) \<and> verify demo_sha (am_artifact r) (as_objects st) = Inr True"
proof -
  let ?call = "acquire_to_artifact demo_urllib demo_iplib (\<lambda>_. None) demo_transport demo_sha demo_request [] None None (\<lambda>_. 0) 0
    demo_state"
  obtain st where st: "acquire_response demo_urllib demo_iplib demo_transport demo_request demo_source []
      ''streamed acquisition requires a successful HTTP response'' demo_state =
     (Inr (10, ''d.b.c'', \<lparr>hr_status = 200, hr_headers = [(''etag'', ''1'')], hr_reads = [Inr ''hi''], hr_url = ''d.b.c''\<rparr>), st)"
    "as_objects st = []" using demo_acquire by blast
  have pol: "rq_policy demo_request = Some demo_source" "as_log demo_state = []" "sp_artifact demo_source = default_artifact_policy"
    by (simp_all add: demo_request_def demo_state_def demo_source_def demo_policy_def)
  have hex: "hex64 (replicate 64 (CHR ''a''))" by (simp add: hex64_def list_all_iff)
  have val: "validate_artifact_file (\<lambda>_. None) (Some ''hi'') 2 None default_artifact_policy = None"
    using demo_media validate_file_eq_bytes [of "\<lambda>_. None" "''hi''" None default_artifact_policy] by simp
  obtain r st' where r: "?call = (Inr r, st')"
    using st hex val by (simp add: acquire_to_artifact_def pol(1,3) header_get_def demo_strings put_stream_def Let_def
        demo_sha_def object_path_def validate_digest_def)
  show ?thesis using acquire_to_artifact_publishes [OF r pol(1,2)] r by simp
qed

theorem acquire_blocked_host_witness:
  "\<exists>e st'. acquire demo_urllib demo_iplib (\<lambda>_. None) demo_transport demo_request 0
       (demo_state\<lparr>as_gate := \<lparr>gs_rows = [\<lparr>th_group = ''a.b.c'', th_next_allowed_at = None, th_blocked_until = Some 5,
          th_last_http_status = Some 429, th_updated_at = 0\<rparr>], gs_clock = (\<lambda>_. 4), gs_calls = 0\<rparr>\<rparr>) = (Inl e, st') \<and>
     as_log st' = []"
proof -
  let ?st = "demo_state\<lparr>as_gate := \<lparr>gs_rows = [\<lparr>th_group = ''a.b.c'', th_next_allowed_at = None, th_blocked_until = Some 5,
          th_last_http_status = Some 429, th_updated_at = 0\<rparr>], gs_clock = (\<lambda>_. 4), gs_calls = 0\<rparr>\<rparr>"
  have "host_blocked (as_gate ?st) (throttle_host ''a.b.c'') 5" "gate_now (as_gate ?st) < 5" "as_log ?st = []"
    by (simp_all add: host_blocked_def demo_hosts blocked_def gate_now_def demo_state_def)
  then show ?thesis
    using acquire_blocked_host [of demo_request "\<lambda>_. None" demo_urllib _ "''a.b.c''" ?st 5]
    by (simp add: demo_request_def build_url_def demo_parse)
qed

end
