(* ===== verification/LedgerModel.thy ===== *)
theory LedgerModel
  imports JobStoreOps Artifacts
begin

text \<open>
  The tables of the operational database that hold what a run produced: evidence and the content
  it refers to, observation revisions with the head of each record stream, the links between
  runs, observations and evidence, review tasks with their decisions, and manual promotions
  (\<open>storage/migrations/0002_operational_tables.sql\<close>, \<open>0004_manual_promotion.sql\<close>). A \<open>ledger\<close> is the
  control-plane state of \<open>StoreModel\<close> together with these tables; an operation of the job
  lifecycle acts on its \<open>l_store\<close>. Each insert checks the constraints its table declares, and
  \<open>INSERT OR IGNORE\<close> skips the row on a uniqueness or CHECK conflict and still fails on a missing
  parent row. The identity hashes of \<open>ingestion/canonical.py\<close> for record keys, observations and
  locators stand at the end.
\<close>

section \<open>Rows\<close>

record content_row =
  co_content_sha256 :: string
  co_byte_size :: int
  co_artifact_uri :: string
  co_created_at :: instant
  co_verified_at :: instant

record evidence_row =
  ev_evidence_id :: string
  ev_content_sha256 :: string
  ev_media_type :: "string option"
  ev_access_class :: string
  ev_retention_until :: "instant option"
  ev_retrieved_at :: instant
  ev_request :: json
  ev_response :: json
  ev_source_id :: string
  ev_source_version :: int
  ev_created_at :: instant

record run_evidence_row =
  re_run_id :: string
  re_evidence_id :: string
  re_role :: string
  re_required :: bool

datatype revision_action = Upsert | Tombstone

record observation_row =
  ob_observation_id :: string
  ob_datasource_id :: string
  ob_definition_version :: int
  ob_lane :: string
  ob_record_key_version :: string
  ob_record_key :: "json list"
  ob_record_key_hash :: string
  ob_snapshot_scope_hash :: "string option"
  ob_revision_no :: int
  ob_revision_action :: revision_action
  ob_revision_reason :: string
  ob_record_hash :: string
  ob_category :: string
  ob_record_type :: string
  ob_payload :: json
  ob_source_date :: "string option"
  ob_period_label :: "string option"
  ob_unit :: "string option"
  ob_data_kind :: string
  ob_confidence :: string
  ob_definition :: "string option"
  ob_limitations :: "json list"
  ob_parser_version :: string
  ob_schema_version :: string
  ob_supersedes_id :: "string option"
  ob_created_at :: instant

record head_row =
  h_datasource_id :: string
  h_lane :: string
  h_record_key_version :: string
  h_record_key_hash :: string
  h_observation_id :: string
  h_record_hash :: string
  h_revision_no :: int
  h_revision_action :: revision_action
  h_updated_at :: instant

record run_observation_row =
  ro_run_id :: string
  ro_observation_id :: string

record observation_evidence_row =
  oe_run_id :: string
  oe_observation_id :: string
  oe_evidence_id :: string
  oe_locator :: json
  oe_locator_hash :: string

datatype review_state = R_OPEN | R_APPROVED | R_REJECTED | R_CANCELLED

record review_row =
  rt_review_id :: string
  rt_datasource_id :: string
  rt_definition_version :: int
  rt_run_id :: "string option"
  rt_task_type :: string
  rt_state :: review_state
  rt_payload :: json
  rt_created_at :: instant
  rt_completed_at :: "instant option"

record decision_row =
  de_decision_id :: string
  de_review_id :: string
  de_decision :: string
  de_actor_id :: string
  de_reason :: "string option"
  de_created_at :: instant

record manual_promotion_row =
  mp_review_id :: string
  mp_decision_id :: string
  mp_run_id :: string
  mp_promotion_id :: string
  mp_actor_id :: string
  mp_reason :: "string option"
  mp_created_at :: instant

record ledger =
  l_store :: store
  l_contents :: "content_row list"
  l_evidence :: "evidence_row list"
  l_run_evidence :: "run_evidence_row list"
  l_observations :: "observation_row list"
  l_heads :: "head_row list"
  l_run_observations :: "run_observation_row list"
  l_observation_evidence :: "observation_evidence_row list"
  l_reviews :: "review_row list"
  l_decisions :: "decision_row list"
  l_manual_promotions :: "manual_promotion_row list"

definition empty_ledger :: ledger where
  "empty_ledger = \<lparr>l_store = empty_store, l_contents = [], l_evidence = [], l_run_evidence = [],
     l_observations = [], l_heads = [], l_run_observations = [], l_observation_evidence = [],
     l_reviews = [], l_decisions = [], l_manual_promotions = []\<rparr>"

type_synonym 'a ledger_op = "(ledger, store_error, 'a) op"

text \<open>A job lifecycle operation on the ledger, and a read that may raise.\<close>

definition on_store :: "'a store_op \<Rightarrow> 'a ledger_op" where
  "on_store m l = (case m (l_store l) of (res, s) \<Rightarrow> (res, l\<lparr>l_store := s\<rparr>))"

definition read_op :: "('s \<Rightarrow> 'e + 'a) \<Rightarrow> ('s, 'e, 'a) op" where
  "read_op q s = (q s, s)"

definition guard_op :: "bool \<Rightarrow> 'e \<Rightarrow> ('s, 'e, unit) op" where
  "guard_op b e s = (if b then Inr () else Inl e, s)"

section \<open>Inserts with their constraints\<close>

definition stream_key :: "observation_row \<Rightarrow> string \<times> string \<times> string \<times> string" where
  "stream_key r = (ob_datasource_id r, ob_lane r, ob_record_key_version r, ob_record_key_hash r)"

definition head_key :: "head_row \<Rightarrow> string \<times> string \<times> string \<times> string" where
  "head_key h = (h_datasource_id h, h_lane h, h_record_key_version h, h_record_key_hash h)"

definition observation_row_ok :: "ledger \<Rightarrow> observation_row \<Rightarrow> bool" where
  "observation_row_ok l r \<longleftrightarrow>
     lookup_by ob_observation_id (ob_observation_id r) (l_observations l) = None \<and>
     lookup_by (\<lambda>x. (stream_key x, ob_revision_no x)) (stream_key r, ob_revision_no r) (l_observations l) = None \<and>
     ob_lane r \<in> lanes \<and> length (ob_record_key_hash r) = 64 \<and> length (ob_record_hash r) = 64 \<and>
     0 < ob_revision_no r \<and>
     definition_exists (l_store l) (ob_datasource_id r) (ob_definition_version r) \<and>
     (case ob_supersedes_id r of None \<Rightarrow> True
      | Some i \<Rightarrow> i = ob_observation_id r \<or> lookup_by ob_observation_id i (l_observations l) \<noteq> None)"

definition insert_observation :: "observation_row \<Rightarrow> unit ledger_op" where
  "insert_observation r l =
     (if observation_row_ok l r then (Inr (), l\<lparr>l_observations := l_observations l @ [r]\<rparr>)
      else (Inl (IntegrityError ''observation_revision''), l))"

text \<open>\<open>INSERT ... ON CONFLICT(...) DO UPDATE\<close>: the head row of a stream is replaced in place.\<close>

definition upsert_head :: "head_row \<Rightarrow> unit ledger_op" where
  "upsert_head r l =
     (if h_lane r \<notin> lanes \<or> length (h_record_key_hash r) \<noteq> 64 \<or> length (h_record_hash r) \<noteq> 64 \<or>
         lookup_by ob_observation_id (h_observation_id r) (l_observations l) = None
      then (Inl (IntegrityError ''record_stream_head''), l)
      else if lookup_by head_key (head_key r) (l_heads l) = None
      then (Inr (), l\<lparr>l_heads := l_heads l @ [r]\<rparr>)
      else (Inr (), l\<lparr>l_heads := update_where (\<lambda>h. head_key h = head_key r)
        (\<lambda>h. h\<lparr>h_observation_id := h_observation_id r, h_record_hash := h_record_hash r,
           h_revision_no := h_revision_no r, h_revision_action := h_revision_action r,
           h_updated_at := h_updated_at r\<rparr>) (l_heads l)\<rparr>))"

definition ro_key :: "run_observation_row \<Rightarrow> string \<times> string" where
  "ro_key r = (ro_run_id r, ro_observation_id r)"

definition run_observation_parents :: "ledger \<Rightarrow> run_observation_row \<Rightarrow> bool" where
  "run_observation_parents l r \<longleftrightarrow>
     lookup_by r_run_id (ro_run_id r) (s_runs (l_store l)) \<noteq> None \<and>
     lookup_by ob_observation_id (ro_observation_id r) (l_observations l) \<noteq> None"

text \<open>\<open>INSERT OR IGNORE\<close> with its row count, and the plain INSERT.\<close>

definition link_observation :: "run_observation_row \<Rightarrow> nat ledger_op" where
  "link_observation r l =
     (if lookup_by ro_key (ro_key r) (l_run_observations l) \<noteq> None then (Inr 0, l)
      else if \<not> run_observation_parents l r then (Inl (IntegrityError ''run_observation''), l)
      else (Inr 1, l\<lparr>l_run_observations := l_run_observations l @ [r]\<rparr>))"

definition insert_run_observation :: "run_observation_row \<Rightarrow> unit ledger_op" where
  "insert_run_observation r l =
     (if lookup_by ro_key (ro_key r) (l_run_observations l) \<noteq> None \<or> \<not> run_observation_parents l r
      then (Inl (IntegrityError ''run_observation''), l)
      else (Inr (), l\<lparr>l_run_observations := l_run_observations l @ [r]\<rparr>))"

definition oe_key :: "observation_evidence_row \<Rightarrow> string \<times> string \<times> string \<times> string" where
  "oe_key r = (oe_run_id r, oe_observation_id r, oe_evidence_id r, oe_locator_hash r)"

definition observation_evidence_parents :: "ledger \<Rightarrow> observation_evidence_row \<Rightarrow> bool" where
  "observation_evidence_parents l r \<longleftrightarrow>
     lookup_by ro_key (oe_run_id r, oe_observation_id r) (l_run_observations l) \<noteq> None \<and>
     lookup_by ev_evidence_id (oe_evidence_id r) (l_evidence l) \<noteq> None"

definition link_evidence :: "observation_evidence_row \<Rightarrow> unit ledger_op" where
  "link_evidence r l =
     (if lookup_by oe_key (oe_key r) (l_observation_evidence l) \<noteq> None \<or> length (oe_locator_hash r) \<noteq> 64
      then (Inr (), l)
      else if \<not> observation_evidence_parents l r then (Inl (IntegrityError ''observation_evidence''), l)
      else (Inr (), l\<lparr>l_observation_evidence := l_observation_evidence l @ [r]\<rparr>))"

definition insert_observation_evidence :: "observation_evidence_row \<Rightarrow> unit ledger_op" where
  "insert_observation_evidence r l =
     (if lookup_by oe_key (oe_key r) (l_observation_evidence l) \<noteq> None \<or> length (oe_locator_hash r) \<noteq> 64 \<or>
         \<not> observation_evidence_parents l r
      then (Inl (IntegrityError ''observation_evidence''), l)
      else (Inr (), l\<lparr>l_observation_evidence := l_observation_evidence l @ [r]\<rparr>))"

definition insert_content :: "content_row \<Rightarrow> unit ledger_op" where
  "insert_content r l =
     (if lookup_by co_content_sha256 (co_content_sha256 r) (l_contents l) \<noteq> None \<or>
         lookup_by co_artifact_uri (co_artifact_uri r) (l_contents l) \<noteq> None \<or>
         length (co_content_sha256 r) \<noteq> 64 \<or> co_byte_size r < 0
      then (Inr (), l)
      else (Inr (), l\<lparr>l_contents := l_contents l @ [r]\<rparr>))"

definition insert_evidence :: "evidence_row \<Rightarrow> unit ledger_op" where
  "insert_evidence r l =
     (if lookup_by ev_evidence_id (ev_evidence_id r) (l_evidence l) = None \<and>
         length (ev_content_sha256 r) = 64 \<and> ev_access_class r \<in> access_classes \<and>
         lookup_by co_content_sha256 (ev_content_sha256 r) (l_contents l) \<noteq> None \<and>
         lookup_by so_key (ev_source_id r, ev_source_version r) (s_sources (l_store l)) \<noteq> None
      then (Inr (), l\<lparr>l_evidence := l_evidence l @ [r]\<rparr>)
      else (Inl (IntegrityError ''evidence_artifact''), l))"

definition insert_run_evidence :: "run_evidence_row \<Rightarrow> unit ledger_op" where
  "insert_run_evidence r l =
     (if lookup_by (\<lambda>x. (re_run_id x, re_evidence_id x, re_role x)) (re_run_id r, re_evidence_id r, re_role r)
           (l_run_evidence l) = None \<and>
         lookup_by r_run_id (re_run_id r) (s_runs (l_store l)) \<noteq> None \<and>
         lookup_by ev_evidence_id (re_evidence_id r) (l_evidence l) \<noteq> None
      then (Inr (), l\<lparr>l_run_evidence := l_run_evidence l @ [r]\<rparr>)
      else (Inl (IntegrityError ''run_evidence''), l))"

definition insert_review :: "review_row \<Rightarrow> unit ledger_op" where
  "insert_review r l =
     (if lookup_by rt_review_id (rt_review_id r) (l_reviews l) = None \<and>
         definition_exists (l_store l) (rt_datasource_id r) (rt_definition_version r) \<and>
         (case rt_run_id r of None \<Rightarrow> True | Some i \<Rightarrow> lookup_by r_run_id i (s_runs (l_store l)) \<noteq> None)
      then (Inr (), l\<lparr>l_reviews := l_reviews l @ [r]\<rparr>)
      else (Inl (IntegrityError ''review_task''), l))"

definition insert_decision :: "decision_row \<Rightarrow> unit ledger_op" where
  "insert_decision r l =
     (if lookup_by de_decision_id (de_decision_id r) (l_decisions l) = None \<and>
         de_decision r \<in> {''approved'', ''rejected''} \<and>
         lookup_by rt_review_id (de_review_id r) (l_reviews l) \<noteq> None
      then (Inr (), l\<lparr>l_decisions := l_decisions l @ [r]\<rparr>)
      else (Inl (IntegrityError ''review_decision''), l))"

definition insert_manual_promotion :: "manual_promotion_row \<Rightarrow> unit ledger_op" where
  "insert_manual_promotion r l =
     (if lookup_by mp_review_id (mp_review_id r) (l_manual_promotions l) = None \<and>
         lookup_by mp_decision_id (mp_decision_id r) (l_manual_promotions l) = None \<and>
         lookup_by mp_run_id (mp_run_id r) (l_manual_promotions l) = None \<and>
         lookup_by mp_promotion_id (mp_promotion_id r) (l_manual_promotions l) = None \<and>
         lookup_by rt_review_id (mp_review_id r) (l_reviews l) \<noteq> None \<and>
         lookup_by de_decision_id (mp_decision_id r) (l_decisions l) \<noteq> None \<and>
         lookup_by r_run_id (mp_run_id r) (s_runs (l_store l)) \<noteq> None \<and>
         lookup_by p_promotion_id (mp_promotion_id r) (s_promotions (l_store l)) \<noteq> None
      then (Inr (), l\<lparr>l_manual_promotions := l_manual_promotions l @ [r]\<rparr>)
      else (Inl (IntegrityError ''manual_review_promotion''), l))"

section \<open>Identity hashes of records\<close>

definition locator_hash :: "(string \<Rightarrow> string) \<Rightarrow> json \<Rightarrow> string" where
  "locator_hash sha j = sha (hash_input ''locator'' j)"

definition record_key_input :: "string \<Rightarrow> string \<Rightarrow> json list \<Rightarrow> string" where
  "record_key_input datasource_id record_key_version record_key =
     ''nan-fung/record-key/v1'' @ [CHR 0x00] @ utf8 datasource_id @ [CHR 0x00] @
     utf8 record_key_version @ [CHR 0x00] @ utf8 (print_json (JList record_key))"

definition record_key_hash ::
  "(string \<Rightarrow> string) \<Rightarrow> string \<Rightarrow> string \<Rightarrow> json list \<Rightarrow> store_error + string" where
  "record_key_hash sha datasource_id record_key_version record_key =
     (if datasource_id = [] then Inl (StoreValueError ''datasource_id is required'')
      else if record_key_version = [] then Inl (StoreValueError ''record_key_version is required'')
      else Inr (sha (record_key_input datasource_id record_key_version record_key)))"

record observation_envelope =
  ov_datasource_id :: string
  ov_definition_version :: int
  ov_record_type :: string
  ov_schema_version :: string
  ov_action :: revision_action
  ov_record_key :: "json list"
  ov_payload :: json
  ov_source_date :: "string option"
  ov_period_label :: "string option"
  ov_unit :: "string option"
  ov_data_kind :: string
  ov_confidence :: string
  ov_snapshot_scope_hash :: "string option"
  ov_definition :: "string option"
  ov_limitations :: "json list"

fun action_text :: "revision_action \<Rightarrow> string" where
  "action_text Upsert = ''upsert''"
| "action_text Tombstone = ''tombstone''"

text \<open>The caller leaves the period bounds and the geography at their default \<open>None\<close>.\<close>

definition envelope_json :: "observation_envelope \<Rightarrow> json" where
  "envelope_json e = JObj
     [(''datasource_id'', JStr (ov_datasource_id e)),
      (''definition_version'', JInt (ov_definition_version e)),
      (''record_type'', JStr (ov_record_type e)),
      (''schema_version'', JStr (ov_schema_version e)),
      (''revision_action'', JStr (action_text (ov_action e))),
      (''record_key'', JList (ov_record_key e)),
      (''payload'', ov_payload e),
      (''source_date'', opt_json JStr (ov_source_date e)),
      (''period_start'', JNull), (''period_end'', JNull),
      (''period_label'', opt_json JStr (ov_period_label e)),
      (''geography_code'', JNull), (''geography_name'', JNull),
      (''unit'', opt_json JStr (ov_unit e)),
      (''data_kind'', JStr (ov_data_kind e)),
      (''confidence'', JStr (ov_confidence e)),
      (''snapshot_scope_hash'', opt_json JStr (ov_snapshot_scope_hash e)),
      (''definition'', opt_json JStr (ov_definition e)),
      (''limitations'', JList (ov_limitations e))]"

definition observation_hash :: "(string \<Rightarrow> string) \<Rightarrow> observation_envelope \<Rightarrow> string" where
  "observation_hash sha e = sha (hash_input ''observation'' (envelope_json e))"

end
