(* ===== verification/Observations.thy ===== *)
theory Observations
  imports LedgerModel
begin

text \<open>
  Observation revisions and full snapshots (\<open>OperationalStore.persist_observation\<close>,
  \<open>begin_full_snapshot\<close>, \<open>finalize_full_snapshot\<close>). A record stream is a (datasource, lane, key
  version, key hash); its revisions are numbered from one, each supersedes the one before, and
  \<open>record_stream_head\<close> names the newest. Values of \<open>new_id\<close> are arguments, and caller-supplied
  mappings are Python values, so a value without a canonical form is an error of the model as of
  the code.
\<close>

section \<open>Operations\<close>

record observation_args =
  oa_record_key :: "string list"
  oa_payload :: "(pykey \<times> pyval) list"
  oa_record_type :: string
  oa_category :: string
  oa_evidence :: "string list"
  oa_source_date :: "string option"
  oa_period_label :: "string option"
  oa_unit :: "string option"
  oa_definition_text :: "string option"
  oa_limitations :: "string list"
  oa_locator :: "(pykey \<times> pyval) list option"
  oa_reason :: string

text \<open>\<open>_json\<close> of a value: its canonical form, or the \<open>CanonicalizationError\<close> (a ValueError).\<close>

definition json_of :: "pyval \<Rightarrow> store_error + json" where
  "json_of v = (case normalize_json v of Inl (CanonicalizationError m) \<Rightarrow> Inl (StoreValueError m) | Inr j \<Rightarrow> Inr j)"

record prepared_observation =
  po_definition :: definition_descriptor
  po_key_hash :: string
  po_record_hash :: string
  po_payload :: json

definition upsert_envelope ::
  "definition_descriptor \<Rightarrow> run_handle \<Rightarrow> observation_args \<Rightarrow> json \<Rightarrow> observation_envelope" where
  "upsert_envelope d run a payload =
     \<lparr>ov_datasource_id = rh_datasource_id run, ov_definition_version = rh_definition_version run,
      ov_record_type = oa_record_type a, ov_schema_version = dd_schema_version d, ov_action = Upsert,
      ov_record_key = map JStr (oa_record_key a), ov_payload = payload,
      ov_source_date = oa_source_date a, ov_period_label = oa_period_label a, ov_unit = oa_unit a,
      ov_data_kind = dd_data_kind d, ov_confidence = dd_default_confidence d,
      ov_snapshot_scope_hash = None, ov_definition = oa_definition_text a,
      ov_limitations = map JStr (oa_limitations a)\<rparr>"

definition prepare_observation ::
  "env \<Rightarrow> run_handle \<Rightarrow> observation_args \<Rightarrow> store_error + prepared_observation" where
  "prepare_observation env run a =
     (case registry_lookup (en_registry env) (rh_datasource_id run) (Some (rh_definition_version run)) of
        Inl e \<Rightarrow> Inl e
      | Inr d \<Rightarrow>
          if oa_evidence a = [] then Inl (OperationalError ''an observation requires persisted evidence'')
          else case record_key_hash (en_sha env) (rh_datasource_id run) (dd_record_key_version d)
              (map JStr (oa_record_key a)) of
            Inl e \<Rightarrow> Inl e
          | Inr key_hash \<Rightarrow>
              (case json_of (PDict (oa_payload a)) of
                 Inl e \<Rightarrow> Inl e
               | Inr payload \<Rightarrow> Inr \<lparr>po_definition = d, po_key_hash = key_hash,
                   po_record_hash = observation_hash (en_sha env) (upsert_envelope d run a payload),
                   po_payload = payload\<rparr>))"

definition evidence_bound :: "run_handle \<Rightarrow> string list \<Rightarrow> ledger \<Rightarrow> bool" where
  "evidence_bound run ids l \<longleftrightarrow> list_all (\<lambda>i. list_ex (\<lambda>r. re_run_id r = rh_run_id run \<and> re_evidence_id r = i)
     (l_run_evidence l)) ids"

definition run_scope :: "run_handle \<Rightarrow> ledger \<Rightarrow> string option" where
  "run_scope run l = (case lookup_by r_run_id (rh_run_id run) (s_runs (l_store l)) of
     None \<Rightarrow> None | Some r \<Rightarrow> r_snapshot_scope_hash r)"

definition record_stream :: "prepared_observation \<Rightarrow> run_handle \<Rightarrow> string \<times> string \<times> string \<times> string" where
  "record_stream p run = (rh_datasource_id run, rh_lane run, dd_record_key_version (po_definition p), po_key_hash p)"

definition revision_row ::
  "run_handle \<Rightarrow> observation_args \<Rightarrow> prepared_observation \<Rightarrow> string option \<Rightarrow> head_row option \<Rightarrow> instant \<Rightarrow>
   string \<Rightarrow> observation_row" where
  "revision_row run a p scope head now obs_id =
     (let d = po_definition p
      in \<lparr>ob_observation_id = obs_id, ob_datasource_id = rh_datasource_id run,
          ob_definition_version = rh_definition_version run, ob_lane = rh_lane run,
          ob_record_key_version = dd_record_key_version d, ob_record_key = map JStr (oa_record_key a),
          ob_record_key_hash = po_key_hash p, ob_snapshot_scope_hash = scope,
          ob_revision_no = (case head of None \<Rightarrow> 1 | Some h \<Rightarrow> h_revision_no h + 1),
          ob_revision_action = Upsert,
          ob_revision_reason = (case head of None \<Rightarrow> oa_reason a
            | Some h \<Rightarrow> if h_revision_action h = Tombstone then ''reappearance'' else ''changed''),
          ob_record_hash = po_record_hash p, ob_category = oa_category a,
          ob_record_type = oa_record_type a, ob_payload = po_payload p,
          ob_source_date = oa_source_date a, ob_period_label = oa_period_label a, ob_unit = oa_unit a,
          ob_data_kind = dd_data_kind d, ob_confidence = dd_default_confidence d,
          ob_definition = oa_definition_text a, ob_limitations = map JStr (oa_limitations a),
          ob_parser_version = dd_parser_version d, ob_schema_version = dd_schema_version d,
          ob_supersedes_id = map_option h_observation_id head, ob_created_at = now\<rparr>)"

definition head_of :: "observation_row \<Rightarrow> head_row" where
  "head_of r = \<lparr>h_datasource_id = ob_datasource_id r, h_lane = ob_lane r,
     h_record_key_version = ob_record_key_version r, h_record_key_hash = ob_record_key_hash r,
     h_observation_id = ob_observation_id r, h_record_hash = ob_record_hash r,
     h_revision_no = ob_revision_no r, h_revision_action = ob_revision_action r,
     h_updated_at = ob_created_at r\<rparr>"

text \<open>Reuse the head when it holds the same record, else append a revision and move the head.\<close>

definition write_record ::
  "run_handle \<Rightarrow> observation_args \<Rightarrow> prepared_observation \<Rightarrow> string option \<Rightarrow> instant \<Rightarrow> string \<Rightarrow> string ledger_op"
where
  "write_record run a p scope now obs_id l =
     (let head = lookup_by head_key (record_stream p run) (l_heads l);
          row = revision_row run a p scope head now obs_id
      in if (case head of None \<Rightarrow> False
             | Some h \<Rightarrow> h_record_hash h = po_record_hash p \<and> h_revision_action h = Upsert)
         then (Inr (h_observation_id (the head)), l)
         else bind_op (insert_observation row) (\<lambda>_.
              bind_op (upsert_head (head_of row)) (\<lambda>_. return_op obs_id)) l)"

definition count_records :: "run_handle \<Rightarrow> int \<Rightarrow> nat ledger_op" where
  "count_records run n = on_store (update_runs
     (\<lambda>r. r_run_id r = rh_run_id run \<and> r_status r = A_RUNNING)
     (\<lambda>r. r\<lparr>r_record_count := r_record_count r + n, r_accepted_record_count := r_accepted_record_count r + n\<rparr>))"

definition evidence_locator :: "string \<Rightarrow> (pykey \<times> pyval) list option \<Rightarrow> store_error + json" where
  "evidence_locator evidence_id locator =
     json_of (PDict ([(KStr ''evidence_id'', PStr evidence_id), (KStr ''role'', PStr ''primary'')] @
       (case locator of None \<Rightarrow> [] | Some m \<Rightarrow> [(KStr ''record_locator'', PDict m)])))"

definition attach_evidence ::
  "env \<Rightarrow> run_handle \<Rightarrow> string \<Rightarrow> (pykey \<times> pyval) list option \<Rightarrow> string \<Rightarrow> unit ledger_op" where
  "attach_evidence env run observation_id locator evidence_id =
     (case evidence_locator evidence_id locator of
        Inl e \<Rightarrow> raise_op e
      | Inr loc \<Rightarrow> link_evidence \<lparr>oe_run_id = rh_run_id run, oe_observation_id = observation_id,
          oe_evidence_id = evidence_id, oe_locator = loc, oe_locator_hash = locator_hash (en_sha env) loc\<rparr>)"

definition persist_observation ::
  "env \<Rightarrow> run_handle \<Rightarrow> observation_args \<Rightarrow> instant \<Rightarrow> string \<Rightarrow> string ledger_op" where
  "persist_observation env run a now obs_id =
     (case prepare_observation env run a of
        Inl e \<Rightarrow> raise_op e
      | Inr p \<Rightarrow> transaction (
          bind_op (read_op (\<lambda>l. require_running_run run now (l_store l))) (\<lambda>_.
          bind_op (\<lambda>l. guard_op (evidence_bound run (oa_evidence a) l)
            (OperationalError ''observation evidence must be attached to its ingestion run'') l) (\<lambda>_.
          bind_op (read_op (\<lambda>l. Inr (run_scope run l))) (\<lambda>scope.
          bind_op (guard_op (\<not> (dd_snapshot_mode (po_definition p) = ''full_snapshot'' \<and> \<not> truthy scope))
            (OperationalError ''full snapshot observations require a declared scope'')) (\<lambda>_.
          bind_op (write_record run a p scope now obs_id) (\<lambda>observation_id.
          bind_op (link_observation \<lparr>ro_run_id = rh_run_id run, ro_observation_id = observation_id\<rparr>) (\<lambda>linked.
          bind_op (if linked \<noteq> 0 then count_records run 1 else return_op 0) (\<lambda>_.
          bind_op (each_op (attach_evidence env run observation_id (oa_locator a)) (oa_evidence a)) (\<lambda>_.
          return_op observation_id))))))))))"

section \<open>Full snapshots\<close>

definition begin_full_snapshot ::
  "env \<Rightarrow> run_handle \<Rightarrow> (pykey \<times> pyval) list \<Rightarrow> instant \<Rightarrow> string ledger_op" where
  "begin_full_snapshot env run scope now =
     (case registry_lookup (en_registry env) (rh_datasource_id run) (Some (rh_definition_version run)) of
        Inl e \<Rightarrow> raise_op e
      | Inr d \<Rightarrow>
          if dd_snapshot_mode d \<noteq> ''full_snapshot''
          then raise_op (OperationalError ''only full_snapshot definitions may declare a deletion scope'')
          else case json_of (PDict scope) of
            Inl e \<Rightarrow> raise_op e
          | Inr sc \<Rightarrow>
              (let scope_hash = request_hash (en_sha env) (JObj [(''snapshot_scope'', sc)])
               in transaction (
                    bind_op (read_op (\<lambda>l. require_running_run run now (l_store l))) (\<lambda>_.
                    bind_op (on_store (update_runs
                      (\<lambda>r. r_run_id r = rh_run_id run \<and> r_status r = A_RUNNING \<and> r_snapshot_scope_hash r = None)
                      (\<lambda>r. r\<lparr>r_snapshot_scope := Some (JObj [(''scope'', sc)]),
                         r_snapshot_scope_hash := Some scope_hash, r_snapshot_complete := False\<rparr>))) (\<lambda>changed.
                    if changed \<noteq> 1
                    then raise_op (OperationalError ''full snapshot scope is already set or run is inactive'')
                    else return_op scope_hash)))))"

definition py_get :: "(pykey \<times> pyval) list \<Rightarrow> string \<Rightarrow> pyval" where
  "py_get d k = (case map_of d (KStr k) of None \<Rightarrow> PNone | Some v \<Rightarrow> v)"

definition proof_valid :: "(pykey \<times> pyval) list \<Rightarrow> string \<Rightarrow> bool" where
  "proof_valid pr scope_hash \<longleftrightarrow>
     py_get pr ''complete'' = PBool True \<and> py_get pr ''snapshot_scope_hash'' = PStr scope_hash \<and>
     (case py_get pr ''schema_version'' of PStr _ \<Rightarrow> True | _ \<Rightarrow> False)"

definition seen_keys :: "run_handle \<Rightarrow> ledger \<Rightarrow> string list" where
  "seen_keys run l = concat (map (\<lambda>ro. map ob_record_key_hash (filter
     (\<lambda>x. ob_observation_id x = ro_observation_id ro \<and> ob_revision_action x = Upsert) (l_observations l)))
     (filter (\<lambda>ro. ro_run_id ro = rh_run_id run) (l_run_observations l)))"

definition scope_heads ::
  "definition_descriptor \<Rightarrow> run_handle \<Rightarrow> string \<Rightarrow> ledger \<Rightarrow> (head_row \<times> observation_row) list" where
  "scope_heads d run scope_hash l =
     sort_key (\<lambda>(h, x). h_record_key_hash h)
       (concat (map (\<lambda>h. map (Pair h) (filter
          (\<lambda>x. ob_observation_id x = h_observation_id h \<and> ob_snapshot_scope_hash x = Some scope_hash)
          (l_observations l)))
        (filter (\<lambda>h. h_datasource_id h = rh_datasource_id run \<and> h_lane h = rh_lane run \<and>
           h_record_key_version h = dd_record_key_version d \<and> h_revision_action h = Upsert) (l_heads l))))"

definition tombstone_envelope ::
  "definition_descriptor \<Rightarrow> run_handle \<Rightarrow> string \<Rightarrow> observation_row \<Rightarrow> observation_envelope" where
  "tombstone_envelope d run scope_hash x =
     \<lparr>ov_datasource_id = rh_datasource_id run, ov_definition_version = rh_definition_version run,
      ov_record_type = ob_record_type x, ov_schema_version = dd_schema_version d, ov_action = Tombstone,
      ov_record_key = ob_record_key x, ov_payload = JObj [], ov_source_date = ob_source_date x,
      ov_period_label = ob_period_label x, ov_unit = ob_unit x, ov_data_kind = ob_data_kind x,
      ov_confidence = ob_confidence x, ov_snapshot_scope_hash = Some scope_hash,
      ov_definition = ob_definition x, ov_limitations = ob_limitations x\<rparr>"

definition tombstone_row ::
  "env \<Rightarrow> definition_descriptor \<Rightarrow> run_handle \<Rightarrow> string \<Rightarrow> instant \<Rightarrow> string \<Rightarrow> head_row \<times> observation_row \<Rightarrow>
   observation_row" where
  "tombstone_row env d run scope_hash now obs_id hx = (case hx of (h, x) \<Rightarrow>
     \<lparr>ob_observation_id = obs_id, ob_datasource_id = rh_datasource_id run,
      ob_definition_version = rh_definition_version run, ob_lane = rh_lane run,
      ob_record_key_version = dd_record_key_version d, ob_record_key = ob_record_key x,
      ob_record_key_hash = h_record_key_hash h, ob_snapshot_scope_hash = Some scope_hash,
      ob_revision_no = h_revision_no h + 1, ob_revision_action = Tombstone,
      ob_revision_reason = ''tombstone'',
      ob_record_hash = observation_hash (en_sha env) (tombstone_envelope d run scope_hash x),
      ob_category = ob_category x, ob_record_type = ob_record_type x, ob_payload = JObj [],
      ob_source_date = ob_source_date x, ob_period_label = ob_period_label x, ob_unit = ob_unit x,
      ob_data_kind = ob_data_kind x, ob_confidence = ob_confidence x, ob_definition = ob_definition x,
      ob_limitations = ob_limitations x, ob_parser_version = dd_parser_version d,
      ob_schema_version = dd_schema_version d, ob_supersedes_id = Some (h_observation_id h),
      ob_created_at = now\<rparr>)"

definition update_head :: "string \<Rightarrow> observation_row \<Rightarrow> unit ledger_op" where
  "update_head previous_id r l =
     (Inr (), l\<lparr>l_heads := update_where (\<lambda>h. head_key h = stream_key r \<and> h_observation_id h = previous_id)
        (\<lambda>h. h\<lparr>h_observation_id := ob_observation_id r, h_record_hash := ob_record_hash r,
           h_revision_no := ob_revision_no r, h_revision_action := Tombstone,
           h_updated_at := ob_created_at r\<rparr>) (l_heads l)\<rparr>)"

definition tombstone_record ::
  "env \<Rightarrow> definition_descriptor \<Rightarrow> run_handle \<Rightarrow> string \<Rightarrow> string \<Rightarrow> instant \<Rightarrow> (string \<Rightarrow> string) \<Rightarrow>
   head_row \<times> observation_row \<Rightarrow> string ledger_op" where
  "tombstone_record env d run scope_hash evidence_id now ids hx =
     (let obs_id = ids (h_record_key_hash (fst hx));
          row = tombstone_row env d run scope_hash now obs_id hx;
          loc = JObj [(''evidence_id'', JStr evidence_id), (''role'', JStr ''snapshot_tombstone'')]
      in bind_op (insert_observation row) (\<lambda>_.
         bind_op (update_head (h_observation_id (fst hx)) row) (\<lambda>_.
         bind_op (insert_run_observation \<lparr>ro_run_id = rh_run_id run, ro_observation_id = obs_id\<rparr>) (\<lambda>_.
         bind_op (insert_observation_evidence \<lparr>oe_run_id = rh_run_id run, oe_observation_id = obs_id,
           oe_evidence_id = evidence_id, oe_locator = loc, oe_locator_hash = locator_hash (en_sha env) loc\<rparr>) (\<lambda>_.
         return_op obs_id)))))"

definition dict_set :: "(string \<times> json) list \<Rightarrow> string \<Rightarrow> json \<Rightarrow> (string \<times> json) list" where
  "dict_set d k v = (if k \<in> fst ` set d then map (\<lambda>(x, y). (x, if x = k then v else y)) d else d @ [(k, v)])"

text \<open>The stored scope with the proof added; \<open>json.loads\<close> of NULL raises a TypeError.\<close>

definition scope_payload :: "run_row \<Rightarrow> (pykey \<times> pyval) list \<Rightarrow> store_error + json" where
  "scope_payload r pr =
     (case r_snapshot_scope r of
        Some (JObj kvs) \<Rightarrow>
          (case json_of (PDict pr) of Inl e \<Rightarrow> Inl e
           | Inr j \<Rightarrow> Inr (JObj (dict_set kvs ''completeness_proof'' j)))
      | _ \<Rightarrow> Inl (StoreValueError ''the JSON object must be str, bytes or bytearray''))"

definition required_evidence :: "run_handle \<Rightarrow> ledger \<Rightarrow> string option" where
  "required_evidence run l = map_option re_evidence_id (min_by re_evidence_id
     (filter (\<lambda>r. re_run_id r = rh_run_id run \<and> re_required r) (l_run_evidence l)))"

definition missing_heads ::
  "definition_descriptor \<Rightarrow> run_handle \<Rightarrow> string \<Rightarrow> ledger \<Rightarrow> (head_row \<times> observation_row) list" where
  "missing_heads d run scope_hash l =
     filter (\<lambda>(h, x). h_record_key_hash h \<notin> set (seen_keys run l)) (scope_heads d run scope_hash l)"

definition complete_snapshot :: "run_handle \<Rightarrow> json \<Rightarrow> int \<Rightarrow> nat ledger_op" where
  "complete_snapshot run payload n = on_store (update_runs
     (\<lambda>r. r_run_id r = rh_run_id run \<and> r_status r = A_RUNNING)
     (\<lambda>r. r\<lparr>r_snapshot_complete := True, r_snapshot_scope := Some payload,
        r_record_count := r_record_count r + n, r_accepted_record_count := r_accepted_record_count r + n\<rparr>))"

definition finalize_checks :: "run_handle \<Rightarrow> (pykey \<times> pyval) list \<Rightarrow> instant \<Rightarrow> ledger \<Rightarrow>
   store_error + (run_row \<times> string \<times> string)" where
  "finalize_checks run pr now l =
     (case require_running_run run now (l_store l) of
        Inl e \<Rightarrow> Inl e
      | Inr _ \<Rightarrow>
          (case List.find (\<lambda>r. r_run_id r = rh_run_id run \<and> r_status r = A_RUNNING) (s_runs (l_store l)) of
             None \<Rightarrow> Inl (OperationalError ''full snapshot scope must be declared before finalization'')
           | Some r \<Rightarrow>
               if \<not> truthy (r_snapshot_scope_hash r)
               then Inl (OperationalError ''full snapshot scope must be declared before finalization'')
               else if \<not> proof_valid pr (the (r_snapshot_scope_hash r))
               then Inl (OperationalError
                 ''full snapshot completeness proof must be validated for its exact scope'')
               else case required_evidence run l of
                 None \<Rightarrow> Inl (OperationalError ''full snapshot tombstones require current-run evidence'')
               | Some e \<Rightarrow> Inr (r, the (r_snapshot_scope_hash r), e)))"

definition finalize_full_snapshot ::
  "env \<Rightarrow> run_handle \<Rightarrow> (pykey \<times> pyval) list \<Rightarrow> instant \<Rightarrow> (string \<Rightarrow> string) \<Rightarrow> string list ledger_op" where
  "finalize_full_snapshot env run pr now ids =
     (case registry_lookup (en_registry env) (rh_datasource_id run) (Some (rh_definition_version run)) of
        Inl e \<Rightarrow> raise_op e
      | Inr d \<Rightarrow>
          if dd_snapshot_mode d \<noteq> ''full_snapshot''
          then raise_op (OperationalError ''only full_snapshot definitions may infer tombstones'')
          else if pr = []
          then raise_op (OperationalError ''full snapshot requires a non-empty completeness proof'')
          else transaction (
            bind_op (read_op (finalize_checks run pr now)) (\<lambda>(r, scope_hash, evidence_id).
            bind_op (\<lambda>l. each_op (tombstone_record env d run scope_hash evidence_id now ids)
              (missing_heads d run scope_hash l) l) (\<lambda>tombstones.
            bind_op (read_op (\<lambda>_. scope_payload r pr)) (\<lambda>payload.
            bind_op (complete_snapshot run payload (int (length tombstones))) (\<lambda>_.
            return_op tombstones))))))"

end
