(* ===== verification/RecordStreams.thy ===== *)
theory RecordStreams
  imports Observations
begin

text \<open>
  Correctness of observation revisions and full snapshots. \<open>stream_inv\<close> is the type of the two
  tables: ids are unique, the revisions of every stream are numbered from one in the order they
  were written, each supersedes the one before it, and the head table holds exactly the newest
  revision of each stream. \<open>history\<close> is what a client of the streams sees, and every operation is
  one step of the abstract versioned map on it.
\<close>

section \<open>The stream invariant\<close>

definition revisions_of :: "ledger \<Rightarrow> string \<times> string \<times> string \<times> string \<Rightarrow> observation_row list" where
  "revisions_of l k = filter (\<lambda>r. stream_key r = k) (l_observations l)"

fun chained :: "int \<Rightarrow> string option \<Rightarrow> observation_row list \<Rightarrow> bool" where
  "chained n prev [] = True"
| "chained n prev (r # rs) \<longleftrightarrow>
     ob_revision_no r = n \<and> ob_supersedes_id r = prev \<and> chained (n + 1) (Some (ob_observation_id r)) rs"

definition newest :: "observation_row list \<Rightarrow> observation_row option" where
  "newest rs = (if rs = [] then None else Some (last rs))"

definition stream_inv :: "ledger \<Rightarrow> bool" where
  "stream_inv l \<longleftrightarrow>
     distinct (map ob_observation_id (l_observations l)) \<and> distinct (map head_key (l_heads l)) \<and>
     (\<forall>k. chained 1 None (revisions_of l k) \<and>
        lookup_by head_key k (l_heads l) = map_option head_of (newest (revisions_of l k)))"

lemma chained_append:
  "chained n prev (rs @ [r]) \<longleftrightarrow> chained n prev rs \<and> ob_revision_no r = n + int (length rs) \<and>
     ob_supersedes_id r = (case newest rs of None \<Rightarrow> prev | Some x \<Rightarrow> Some (ob_observation_id x))"
  by (induction rs arbitrary: n prev) (auto simp: newest_def)

lemma newest_append [simp]: "newest (rs @ [r]) = Some r"
  by (simp add: newest_def)

lemma newest_Nil [simp]: "newest [] = None"
  by (simp add: newest_def)

lemma newest_None_iff [simp]: "newest rs = None \<longleftrightarrow> rs = []"
  by (simp add: newest_def)

lemma chained_newest:
  "chained n prev rs \<Longrightarrow> newest rs = Some x \<Longrightarrow> ob_revision_no x = n + int (length rs) - 1"
  by (cases rs rule: rev_cases) (auto simp: chained_append)

lemma revisions_of_append:
  "l_observations l' = l_observations l @ [r] \<Longrightarrow>
     revisions_of l' k = revisions_of l k @ (if stream_key r = k then [r] else [])"
  by (simp add: revisions_of_def)

lemma head_of_simps [simp]:
  "head_key (head_of r) = stream_key r" "h_observation_id (head_of r) = ob_observation_id r"
  "h_revision_no (head_of r) = ob_revision_no r" "h_record_hash (head_of r) = ob_record_hash r"
  "h_revision_action (head_of r) = ob_revision_action r"
  by (simp_all add: head_of_def head_key_def stream_key_def)

lemma stream_inv_empty: "stream_inv empty_ledger"
  by (simp add: stream_inv_def empty_ledger_def revisions_of_def newest_def)

text \<open>Only the two tables matter.\<close>

lemma stream_inv_frame:
  assumes "stream_inv l" and "l_observations l' = l_observations l" and "l_heads l' = l_heads l"
  shows "stream_inv l'"
  using assms by (simp add: stream_inv_def revisions_of_def)

text \<open>Appending the next revision of a stream and moving its head keeps the invariant.\<close>

lemma stream_inv_append:
  assumes inv: "stream_inv l"
    and obs: "l_observations l' = l_observations l @ [r]"
    and fresh: "ob_observation_id r \<notin> ob_observation_id ` set (l_observations l)"
    and no: "ob_revision_no r =
      (case lookup_by head_key (stream_key r) (l_heads l) of None \<Rightarrow> 1 | Some h \<Rightarrow> h_revision_no h + 1)"
    and sup: "ob_supersedes_id r = map_option h_observation_id (lookup_by head_key (stream_key r) (l_heads l))"
    and keys: "distinct (map head_key (l_heads l'))"
    and heads: "\<And>k. lookup_by head_key k (l_heads l') =
      (if k = stream_key r then Some (head_of r) else lookup_by head_key k (l_heads l))"
  shows "stream_inv l'"
proof -
  have old: "chained 1 None (revisions_of l k)"
    "lookup_by head_key k (l_heads l) = map_option head_of (newest (revisions_of l k))" for k
    using inv unfolding stream_inv_def by blast+
  have "chained 1 None (revisions_of l (stream_key r) @ [r])"
  proof (cases "newest (revisions_of l (stream_key r))")
    case None
    then show ?thesis using no sup old by (simp add: chained_append)
  next
    case (Some x)
    then show ?thesis
      using no sup old(2) [of "stream_key r"] chained_newest [OF old(1) [of "stream_key r"] Some] old(1)
      by (simp add: chained_append)
  qed
  then have "chained 1 None (revisions_of l' k)" for k
    using old(1) [of k] by (cases "stream_key r = k") (auto simp: revisions_of_append [OF obs])
  moreover have "lookup_by head_key k (l_heads l') = map_option head_of (newest (revisions_of l' k))" for k
    using heads [of k] old(2) [of k] by (simp add: revisions_of_append [OF obs])
  ultimately show ?thesis using inv keys fresh unfolding stream_inv_def obs by auto
qed

text \<open>The tables a write to a stream leaves alone.\<close>

definition off_streams :: "ledger \<Rightarrow> ledger" where
  "off_streams l = l\<lparr>l_observations := [], l_heads := []\<rparr>"

lemma off_streamsD:
  assumes "off_streams l' = off_streams l"
  shows "l_store l' = l_store l" "l_contents l' = l_contents l" "l_evidence l' = l_evidence l"
    "l_run_evidence l' = l_run_evidence l" "l_run_observations l' = l_run_observations l"
    "l_observation_evidence l' = l_observation_evidence l" "l_reviews l' = l_reviews l"
    "l_decisions l' = l_decisions l" "l_manual_promotions l' = l_manual_promotions l"
  using assms by (cases l; cases l'; simp add: off_streams_def)+

lemma upsert_head_Inr:
  assumes "upsert_head (head_of r) l = (Inr u, l')"
  shows "lookup_by head_key k (l_heads l') =
      (if k = stream_key r then Some (head_of r) else lookup_by head_key k (l_heads l))"
    and "distinct (map head_key (l_heads l)) \<Longrightarrow> distinct (map head_key (l_heads l'))"
    and "off_streams l' = off_streams l" and "l_observations l' = l_observations l"
proof -
  let ?P = "\<lambda>h. head_key h = head_key (head_of r)"
  let ?f = "\<lambda>h. h\<lparr>h_observation_id := h_observation_id (head_of r), h_record_hash := h_record_hash (head_of r),
    h_revision_no := h_revision_no (head_of r), h_revision_action := h_revision_action (head_of r),
    h_updated_at := h_updated_at (head_of r)\<rparr>"
  have f: "head_key (?f h) = head_key h" for h by (simp add: head_key_def)
  have same: "?f h = head_of r" if "head_key h = stream_key r" for h
    using that by (simp add: head_of_def head_key_def stream_key_def)
  consider "lookup_by head_key (stream_key r) (l_heads l) = None" "l' = l\<lparr>l_heads := l_heads l @ [head_of r]\<rparr>"
    | x where "lookup_by head_key (stream_key r) (l_heads l) = Some x"
        "l' = l\<lparr>l_heads := update_where ?P ?f (l_heads l)\<rparr>"
    using assms by (auto simp: upsert_head_def split: if_splits)
  then have "lookup_by head_key k (l_heads l') =
      (if k = stream_key r then Some (head_of r) else lookup_by head_key k (l_heads l)) \<and>
    (distinct (map head_key (l_heads l)) \<longrightarrow> distinct (map head_key (l_heads l'))) \<and> off_streams l' = off_streams l \<and>
    l_observations l' = l_observations l"
  proof cases
    case 1
    then show ?thesis
      by (cases "lookup_by head_key k (l_heads l)")
        (auto simp: lookup_by_append off_streams_def, auto simp: lookup_by_None_iff)
  next
    case (2 x)
    have "lookup_by head_key k (update_where ?P ?f (l_heads l)) =
        map_option (\<lambda>h. if ?P h then ?f h else h) (lookup_by head_key k (l_heads l))"
      by (rule lookup_by_update_where) (rule f)
    moreover have "map head_key (update_where ?P ?f (l_heads l)) = map head_key (l_heads l)"
      by (rule update_where_keys) (rule f)
    moreover have "(if ?P h then ?f h else h) = (if k = stream_key r then head_of r else h)"
      if "lookup_by head_key k (l_heads l) = Some h" for h
      using lookup_by_Some [OF that] same by auto
    ultimately show ?thesis using 2
      by (cases "lookup_by head_key k (l_heads l)") (auto simp: off_streams_def)
  qed
  then show "lookup_by head_key k (l_heads l') =
      (if k = stream_key r then Some (head_of r) else lookup_by head_key k (l_heads l))"
    "distinct (map head_key (l_heads l)) \<Longrightarrow> distinct (map head_key (l_heads l'))"
    "off_streams l' = off_streams l" "l_observations l' = l_observations l" by blast+
qed

lemma insert_observation_Inr:
  "insert_observation r l = (Inr u, l') \<longleftrightarrow> observation_row_ok l r \<and> l' = l\<lparr>l_observations := l_observations l @ [r]\<rparr>"
  by (auto simp: insert_observation_def)

lemma row_ok_fresh: "observation_row_ok l r \<Longrightarrow> ob_observation_id r \<notin> ob_observation_id ` set (l_observations l)"
  by (simp add: observation_row_ok_def lookup_by_None_iff)

lemma stream_key_revision_row [simp]: "stream_key (revision_row run a p scope head now i) = record_stream p run"
  by (simp add: stream_key_def revision_row_def record_stream_def Let_def)

lemma write_record_cases:
  assumes "write_record run a p scope now obs_id l = (Inr i, l')"
  obtains (reuse) h where "lookup_by head_key (record_stream p run) (l_heads l) = Some h"
      "h_record_hash h = po_record_hash p" "h_revision_action h = Upsert" "i = h_observation_id h" "l' = l"
    | (fresh) row where
      "row = revision_row run a p scope (lookup_by head_key (record_stream p run) (l_heads l)) now obs_id"
      "\<And>h. lookup_by head_key (record_stream p run) (l_heads l) = Some h \<Longrightarrow>
         \<not> (h_record_hash h = po_record_hash p \<and> h_revision_action h = Upsert)"
      "i = obs_id" "observation_row_ok l row"
      "l_observations l' = l_observations l @ [row]" "off_streams l' = off_streams l"
      "\<And>k. lookup_by head_key k (l_heads l') =
         (if k = record_stream p run then Some (head_of row) else lookup_by head_key k (l_heads l))"
      "distinct (map head_key (l_heads l)) \<Longrightarrow> distinct (map head_key (l_heads l'))"
proof -
  let ?head = "lookup_by head_key (record_stream p run) (l_heads l)"
  let ?same = "case ?head of None \<Rightarrow> False | Some h \<Rightarrow> h_record_hash h = po_record_hash p \<and> h_revision_action h = Upsert"
  let ?row = "revision_row run a p scope ?head now obs_id"
  show thesis
  proof (cases ?same)
    case True
    then obtain h where h: "?head = Some h" "h_record_hash h = po_record_hash p" "h_revision_action h = Upsert"
      by (auto split: option.splits)
    then have "i = h_observation_id h" "l' = l" using assms by (simp_all add: write_record_def Let_def)
    with h show thesis by (rule reuse)
  next
    case False
    then have "bind_op (insert_observation ?row) (\<lambda>_. bind_op (upsert_head (head_of ?row)) (\<lambda>_. return_op obs_id)) l = (Inr i, l')"
      using assms by (simp add: write_record_def Let_def)
    then have r: "i = obs_id" "observation_row_ok l ?row"
        "upsert_head (head_of ?row) (l\<lparr>l_observations := l_observations l @ [?row]\<rparr>) = (Inr (), l')"
      by (auto simp: bind_op_Inr insert_observation_Inr return_op_def)
    note up = upsert_head_Inr [OF r(3)]
    show thesis
    proof (rule fresh [OF refl _ r(1,2)])
      show "l_observations l' = l_observations l @ [?row]" using up(4) by simp
      show "off_streams l' = off_streams l" using up(3) by (simp add: off_streams_def)
    qed (use False up(1,2) in \<open>auto split: option.splits\<close>)
  qed
qed

lemma write_record_inv:
  assumes "write_record run a p scope now obs_id l = (Inr i, l')" and "stream_inv l"
  shows "stream_inv l'"
  using assms(1)
proof (cases rule: write_record_cases)
  case (fresh row)
  have key: "stream_key row = record_stream p run" by (simp add: fresh(1))
  show ?thesis
  proof (rule stream_inv_append [OF assms(2) fresh(5) row_ok_fresh [OF fresh(4)]])
    show "ob_revision_no row = (case lookup_by head_key (stream_key row) (l_heads l) of None \<Rightarrow> 1 | Some h \<Rightarrow> h_revision_no h + 1)"
      unfolding key by (simp add: fresh(1) revision_row_def Let_def)
    show "ob_supersedes_id row = map_option h_observation_id (lookup_by head_key (stream_key row) (l_heads l))"
      unfolding key by (simp add: fresh(1) revision_row_def Let_def)
    show "distinct (map head_key (l_heads l'))" using fresh(8) assms(2) unfolding stream_inv_def by blast
    show "lookup_by head_key k (l_heads l') =
        (if k = stream_key row then Some (head_of row) else lookup_by head_key k (l_heads l))" for k
      unfolding key by (rule fresh(7))
  qed
qed (use assms(2) in simp)

section \<open>The steps after a write\<close>

lemma link_observation_Inr:
  assumes "link_observation r l = (Inr n, l')"
  shows "lookup_by ro_key (ro_key r) (l_run_observations l') \<noteq> None"
    and "l' = (if n = 0 then l else l\<lparr>l_run_observations := l_run_observations l @ [r]\<rparr>)"
    and "n = (if lookup_by ro_key (ro_key r) (l_run_observations l) = None then 1 else 0)"
    and "run_observation_parents l r \<or> l' = l"
  using assms by (auto simp: link_observation_def lookup_by_append split: if_splits option.splits)

lemma link_observation_again:
  "lookup_by ro_key (ro_key r) (l_run_observations l) \<noteq> None \<Longrightarrow> link_observation r l = (Inr 0, l)"
  by (simp add: link_observation_def)

lemma count_records_eq:
  "count_records run n l = (Inr (rowcount (\<lambda>r. r_run_id r = rh_run_id run \<and> r_status r = A_RUNNING) (s_runs (l_store l))),
     l\<lparr>l_store := (l_store l)\<lparr>s_runs := update_where (\<lambda>r. r_run_id r = rh_run_id run \<and> r_status r = A_RUNNING)
       (\<lambda>r. r\<lparr>r_record_count := r_record_count r + n, r_accepted_record_count := r_accepted_record_count r + n\<rparr>)
       (s_runs (l_store l))\<rparr>\<rparr>)"
  by (simp add: count_records_def on_store_def update_runs_def)

lemma require_running_run_cong:
  assumes "s_jobs s' = s_jobs s" and "s_definitions s' = s_definitions s" and "s_attempts s' = s_attempts s"
  shows "require_running_run run now s' = require_running_run run now s"
  unfolding require_running_run_def assms ..

text \<open>Attaching evidence only appends, and what it appended it finds again.\<close>

lemma link_evidence_Inr:
  assumes "link_evidence r l = (Inr u, l')"
  shows "l' = l\<lparr>l_observation_evidence := l_observation_evidence l'\<rparr>"
    and "set (l_observation_evidence l) \<subseteq> set (l_observation_evidence l')"
    and "set (l_observation_evidence l') \<subseteq> insert r (set (l_observation_evidence l))"
    and "oe_key r \<in> oe_key ` set (l_observation_evidence l') \<or> length (oe_locator_hash r) \<noteq> 64"
    and "r \<in> set (l_observation_evidence l') \<Longrightarrow> r \<notin> set (l_observation_evidence l) \<Longrightarrow> observation_evidence_parents l r"
  using assms by (auto simp: link_evidence_def lookup_by_None_iff split: if_splits)

lemma link_evidence_again:
  assumes "oe_key r \<in> oe_key ` set (l_observation_evidence l) \<or> length (oe_locator_hash r) \<noteq> 64"
  shows "link_evidence r l = (Inr (), l)"
  using assms lookup_by_None_iff [of oe_key "oe_key r" "l_observation_evidence l"] by (auto simp: link_evidence_def)

definition locator_row :: "env \<Rightarrow> run_handle \<Rightarrow> string \<Rightarrow> string \<Rightarrow> json \<Rightarrow> observation_evidence_row" where
  "locator_row env run observation_id evidence_id loc =
     \<lparr>oe_run_id = rh_run_id run, oe_observation_id = observation_id, oe_evidence_id = evidence_id,
      oe_locator = loc, oe_locator_hash = locator_hash (en_sha env) loc\<rparr>"

definition attached :: "env \<Rightarrow> run_handle \<Rightarrow> string \<Rightarrow> (pykey \<times> pyval) list option \<Rightarrow> ledger \<Rightarrow> string \<Rightarrow> bool" where
  "attached env run i locator l e \<longleftrightarrow> (\<exists>loc. evidence_locator e locator = Inr loc \<and>
     (oe_key (locator_row env run i e loc) \<in> oe_key ` set (l_observation_evidence l) \<or>
      length (locator_hash (en_sha env) loc) \<noteq> 64))"

lemma attach_evidence_Inr:
  assumes "attach_evidence env run i locator e l = (Inr u, l')"
  shows "\<exists>rows. l' = l\<lparr>l_observation_evidence := l_observation_evidence l @ rows\<rparr> \<and>
      (\<forall>r \<in> set rows. oe_run_id r = rh_run_id run \<and> oe_observation_id r = i \<and> oe_evidence_id r = e \<and>
         observation_evidence_parents l r)"
    and "attached env run i locator l' e"
proof -
  obtain loc where loc: "evidence_locator e locator = Inr loc" and l: "link_evidence (locator_row env run i e loc) l = (Inr u, l')"
    using assms by (auto simp: attach_evidence_def locator_row_def raise_op_def split: sum.splits)
  show "attached env run i locator l' e"
    using loc link_evidence_Inr(4) [OF l] by (auto simp: attached_def locator_row_def)
  show "\<exists>rows. l' = l\<lparr>l_observation_evidence := l_observation_evidence l @ rows\<rparr> \<and>
      (\<forall>r \<in> set rows. oe_run_id r = rh_run_id run \<and> oe_observation_id r = i \<and> oe_evidence_id r = e \<and>
         observation_evidence_parents l r)"
    using l by (auto simp: link_evidence_def locator_row_def split: if_splits intro: exI [of _ "[]"] exI [of _ "[_]"])
qed

lemma attach_all_Inr:
  assumes "each_op (attach_evidence env run i locator) es l = (Inr us, l')"
  shows "\<exists>rows. l' = l\<lparr>l_observation_evidence := l_observation_evidence l @ rows\<rparr> \<and>
      (\<forall>r \<in> set rows. oe_run_id r = rh_run_id run \<and> oe_observation_id r = i \<and> oe_evidence_id r \<in> set es \<and>
         observation_evidence_parents l r) \<and> (\<forall>e \<in> set es. attached env run i locator l' e)"
  using assms
proof (induction es arbitrary: l us)
  case Nil
  then show ?case by (auto intro: exI [of _ "[]"])
next
  case (Cons e es)
  obtain u l1 vs where 1: "attach_evidence env run i locator e l = (Inr u, l1)"
      and 2: "each_op (attach_evidence env run i locator) es l1 = (Inr vs, l')"
    using Cons.prems by (auto split: prod.splits sum.splits)
  obtain rows where rows: "l1 = l\<lparr>l_observation_evidence := l_observation_evidence l @ rows\<rparr>"
      "\<forall>r \<in> set rows. oe_run_id r = rh_run_id run \<and> oe_observation_id r = i \<and> oe_evidence_id r = e \<and>
         observation_evidence_parents l r"
    using attach_evidence_Inr(1) [OF 1] by blast
  obtain more where more: "l' = l1\<lparr>l_observation_evidence := l_observation_evidence l1 @ more\<rparr>"
      "\<forall>r \<in> set more. oe_run_id r = rh_run_id run \<and> oe_observation_id r = i \<and> oe_evidence_id r \<in> set es \<and>
         observation_evidence_parents l1 r"
      "\<forall>e \<in> set es. attached env run i locator l' e"
    using Cons.IH [OF 2] by blast
  have "attached env run i locator l' e"
    using attach_evidence_Inr(2) [OF 1] more(1) by (auto simp: attached_def)
  moreover have "observation_evidence_parents l1 r \<longleftrightarrow> observation_evidence_parents l r" for r
    by (simp add: rows(1) observation_evidence_parents_def)
  ultimately show ?case
    using rows more by (intro exI [of _ "rows @ more"]) auto
qed

lemma attach_all_again:
  assumes "\<forall>e \<in> set es. attached env run i locator l e"
  shows "each_op (attach_evidence env run i locator) es l = (Inr (map (\<lambda>_. ()) es), l)"
  using assms
proof (induction es)
  case (Cons e es)
  obtain loc where "evidence_locator e locator = Inr loc"
      "oe_key (locator_row env run i e loc) \<in> oe_key ` set (l_observation_evidence l) \<or>
       length (oe_locator_hash (locator_row env run i e loc)) \<noteq> 64"
    using Cons.prems by (auto simp: attached_def locator_row_def)
  then have "attach_evidence env run i locator e l = (Inr (), l)"
    using link_evidence_again [of "locator_row env run i e loc" l] by (simp add: attach_evidence_def locator_row_def)
  then show ?case using Cons by simp
qed simp

section \<open>Persisting an observation\<close>

definition run_link :: "run_handle \<Rightarrow> string \<Rightarrow> run_observation_row" where
  "run_link run i = \<lparr>ro_run_id = rh_run_id run, ro_observation_id = i\<rparr>"

lemma persist_observation_cases:
  assumes "persist_observation env run a now obs_id l = (Inr i, l')"
  obtains p q l1 n l2 m l3 us where "prepare_observation env run a = Inr p"
    "require_running_run run now (l_store l) = Inr q" "evidence_bound run (oa_evidence a) l"
    "\<not> (dd_snapshot_mode (po_definition p) = ''full_snapshot'' \<and> \<not> truthy (run_scope run l))"
    "write_record run a p (run_scope run l) now obs_id l = (Inr i, l1)"
    "link_observation (run_link run i) l1 = (Inr n, l2)"
    "(if n \<noteq> 0 then count_records run 1 else return_op 0) l2 = (Inr m, l3)"
    "each_op (attach_evidence env run i (oa_locator a)) (oa_evidence a) l3 = (Inr us, l')"
proof -
  obtain p where p: "prepare_observation env run a = Inr p"
    using assms by (cases "prepare_observation env run a") (auto simp: persist_observation_def raise_op_def)
  have body: "\<exists>q l1 n l2 m l3 us. require_running_run run now (l_store l) = Inr q \<and> evidence_bound run (oa_evidence a) l \<and>
    \<not> (dd_snapshot_mode (po_definition p) = ''full_snapshot'' \<and> \<not> truthy (run_scope run l)) \<and>
    write_record run a p (run_scope run l) now obs_id l = (Inr i, l1) \<and>
    link_observation (run_link run i) l1 = (Inr n, l2) \<and>
    (if n \<noteq> 0 then count_records run 1 else return_op 0) l2 = (Inr m, l3) \<and>
    each_op (attach_evidence env run i (oa_locator a)) (oa_evidence a) l3 = (Inr us, l')"
    using assms unfolding persist_observation_def p sum.case transaction_Inr bind_op_Inr
    by (simp add: read_op_def guard_op_def return_op_def run_link_def split: if_splits) blast
  then show thesis using that [OF p] by blast
qed

text \<open>What the steps after the write leave alone: everything but the run counters and the links.\<close>

lemma persist_observation_tail:
  assumes "link_observation (run_link run i) l1 = (Inr n, l2)"
    and "(if n \<noteq> 0 then count_records run 1 else return_op 0) l2 = (Inr m, l3)"
    and "each_op (attach_evidence env run i locator) es l3 = (Inr us, l')"
  shows "l_observations l' = l_observations l1" and "l_heads l' = l_heads l1"
    and "l_run_evidence l' = l_run_evidence l1" and "l_evidence l' = l_evidence l1"
    and "s_jobs (l_store l') = s_jobs (l_store l1)" and "s_definitions (l_store l') = s_definitions (l_store l1)"
    and "s_attempts (l_store l') = s_attempts (l_store l1)"
    and "run_scope run l' = run_scope run l1"
    and "lookup_by ro_key (ro_key (run_link run i)) (l_run_observations l') \<noteq> None"
proof -
  obtain rows where rows: "l' = l3\<lparr>l_observation_evidence := l_observation_evidence l3 @ rows\<rparr>"
    using attach_all_Inr [OF assms(3)] by blast
  note link = link_observation_Inr [OF assms(1)]
  let ?P = "\<lambda>r. r_run_id r = rh_run_id run \<and> r_status r = A_RUNNING"
  let ?f = "\<lambda>r. r\<lparr>r_record_count := r_record_count r + 1, r_accepted_record_count := r_accepted_record_count r + 1\<rparr>"
  have l3: "l3 = (if n = 0 then l2 else l2\<lparr>l_store := (l_store l2)\<lparr>s_runs := update_where ?P ?f (s_runs (l_store l2))\<rparr>\<rparr>)"
    using assms(2) by (auto simp: count_records_eq return_op_def split: if_splits)
  have "lookup_by r_run_id (rh_run_id run) (update_where ?P ?f (s_runs (l_store l2))) =
      map_option (\<lambda>r. if ?P r then ?f r else r) (lookup_by r_run_id (rh_run_id run) (s_runs (l_store l2)))"
    by (rule lookup_by_update_where) simp
  then show "run_scope run l' = run_scope run l1"
    by (auto simp: run_scope_def rows l3 link(2) split: option.splits)
  show "lookup_by ro_key (ro_key (run_link run i)) (l_run_observations l') \<noteq> None"
    using link(1) by (simp add: rows l3)
qed (use assms(2) link_observation_Inr(2) [OF assms(1)] attach_all_Inr [OF assms(3)] in
     \<open>auto simp: count_records_eq return_op_def split: if_splits\<close>)

lemma persist_observation_inv:
  assumes "persist_observation env run a now obs_id l = (Inr i, l')" and "stream_inv l"
  shows "stream_inv l'"
  using assms(1)
proof (cases rule: persist_observation_cases)
  case (1 p q l1 n l2 m l3 us)
  note tail = persist_observation_tail [OF 1(6-8)]
  show ?thesis by (rule stream_inv_frame [OF write_record_inv [OF 1(5) assms(2)] tail(1,2)])
qed

lemma write_record_head:
  assumes "write_record run a p scope now obs_id l = (Inr i, l')"
  shows "\<exists>h. lookup_by head_key (record_stream p run) (l_heads l') = Some h \<and> h_record_hash h = po_record_hash p \<and>
    h_revision_action h = Upsert \<and> h_observation_id h = i"
  using assms
proof (cases rule: write_record_cases)
  case (fresh row)
  then show ?thesis using fresh(7) [of "record_stream p run"] by (simp add: revision_row_def Let_def)
qed auto

lemma persist_observation_again:
  assumes "persist_observation env run a now obs_id l = (Inr i, l')"
    and live: "require_running_run run now' (l_store l) = Inr q'"
  shows "persist_observation env run a now' obs_id' l' = (Inr i, l')"
  using assms(1)
proof (cases rule: persist_observation_cases)
  case (1 p q l1 n l2 m l3 us)
  note tail = persist_observation_tail [OF 1(6-8)]
  have off: "off_streams l1 = off_streams l"
    using 1(5) by (cases rule: write_record_cases) auto
  note same = off_streamsD [OF off]
  have "require_running_run run now' (l_store l') = Inr q'"
    using live require_running_run_cong [OF tail(5-7), of run now'] same(1) by simp
  moreover have "evidence_bound run (oa_evidence a) l'"
    using 1(3) tail(3) same(4) by (simp add: evidence_bound_def)
  moreover have scope: "run_scope run l' = run_scope run l" using tail(8) same(1) by (simp add: run_scope_def)
  moreover obtain h where "lookup_by head_key (record_stream p run) (l_heads l') = Some h"
      "h_record_hash h = po_record_hash p" "h_revision_action h = Upsert" "h_observation_id h = i"
    using write_record_head [OF 1(5)] tail(2) by auto
  then have "write_record run a p (run_scope run l') now' obs_id' l' = (Inr i, l')"
    by (simp add: write_record_def Let_def)
  moreover have "link_observation (run_link run i) l' = (Inr 0, l')"
    by (rule link_observation_again [OF tail(9)])
  moreover have "\<forall>e \<in> set (oa_evidence a). attached env run i (oa_locator a) l' e"
    using attach_all_Inr [OF 1(8)] by blast
  note attach_all_again [OF this]
  ultimately show ?thesis using 1(1,4)
    by (simp add: persist_observation_def transaction_def bind_op_def read_op_def guard_op_def return_op_def
        run_link_def)
qed

section \<open>Finalizing a full snapshot\<close>

lemma filter_by_key:
  "distinct (map key rows) \<Longrightarrow> filter (\<lambda>x. key x = i \<and> Q x) rows =
     (case lookup_by key i rows of None \<Rightarrow> [] | Some x \<Rightarrow> if Q x then [x] else [])"
  by (induction rows) (auto simp: filter_empty_conv split: option.splits, metis image_eqI lookup_by_Some)

definition in_run :: "definition_descriptor \<Rightarrow> run_handle \<Rightarrow> head_row \<Rightarrow> bool" where
  "in_run d run h \<longleftrightarrow> h_datasource_id h = rh_datasource_id run \<and> h_lane h = rh_lane run \<and>
     h_record_key_version h = dd_record_key_version d"

lemma set_scope_heads:
  "(h, x) \<in> set (scope_heads d run sc l) \<longleftrightarrow> h \<in> set (l_heads l) \<and> in_run d run h \<and> h_revision_action h = Upsert \<and>
     x \<in> set (l_observations l) \<and> ob_observation_id x = h_observation_id h \<and> ob_snapshot_scope_hash x = Some sc"
  by (auto simp: scope_heads_def in_run_def)

lemma set_missing_heads:
  "(h, x) \<in> set (missing_heads d run sc l) \<longleftrightarrow>
     (h, x) \<in> set (scope_heads d run sc l) \<and> h_record_key_hash h \<notin> set (seen_keys run l)"
  by (auto simp: missing_heads_def)

lemma set_seen_keys:
  "kh \<in> set (seen_keys run l) \<longleftrightarrow> (\<exists>ro \<in> set (l_run_observations l). ro_run_id ro = rh_run_id run \<and>
     (\<exists>y \<in> set (l_observations l). ob_observation_id y = ro_observation_id ro \<and> ob_revision_action y = Upsert \<and>
        ob_record_key_hash y = kh))"
  by (auto simp: seen_keys_def)

lemma distinct_scope_heads:
  assumes "stream_inv l"
  shows "distinct (map (head_key \<circ> fst) (scope_heads d run sc l))"
proof -
  let ?hs = "filter (\<lambda>h. h_datasource_id h = rh_datasource_id run \<and> h_lane h = rh_lane run \<and>
    h_record_key_version h = dd_record_key_version d \<and> h_revision_action h = Upsert) (l_heads l)"
  let ?x = "\<lambda>h. lookup_by ob_observation_id (h_observation_id h) (l_observations l)"
  let ?in = "\<lambda>h. case ?x h of None \<Rightarrow> False | Some x \<Rightarrow> ob_snapshot_scope_hash x = Some sc"
  let ?ps = "concat (map (\<lambda>h. map (Pair h) (filter (\<lambda>x. ob_observation_id x = h_observation_id h \<and>
    ob_snapshot_scope_hash x = Some sc) (l_observations l))) ?hs)"
  have ids: "distinct (map ob_observation_id (l_observations l))" and keys: "distinct (map head_key (l_heads l))"
    using assms by (simp_all add: stream_inv_def)
  have "map (head_key \<circ> fst) (concat (map (\<lambda>h. map (Pair h) (filter (\<lambda>x. ob_observation_id x = h_observation_id h \<and>
      ob_snapshot_scope_hash x = Some sc) (l_observations l))) hs)) = map head_key (filter ?in hs)" for hs
    unfolding filter_by_key [OF ids] by (induction hs) (auto split: option.splits)
  moreover have "distinct (map head_key (filter ?in ?hs))"
    using keys by (simp add: distinct_map_filter)
  ultimately have "distinct (map (head_key \<circ> fst) ?ps)" by simp
  then show ?thesis unfolding scope_heads_def distinct_map by simp
qed

lemma distinct_missing_heads:
  "stream_inv l \<Longrightarrow> distinct (map (head_key \<circ> fst) (missing_heads d run sc l))"
  unfolding missing_heads_def by (intro distinct_map_filter distinct_scope_heads)

lemma tombstone_row_key:
  "in_run d run h \<Longrightarrow> stream_key (tombstone_row env d run sc now i (h, x)) = head_key h"
  by (simp add: tombstone_row_def stream_key_def head_key_def in_run_def)

lemma update_head_lookup:
  assumes r: "stream_key r = head_key h" "ob_revision_action r = Tombstone"
    and h: "lookup_by head_key (head_key h) (l_heads l) = Some h" and prev: "prev = h_observation_id h"
    and upd: "update_head prev r l = (Inr u, l')"
  shows "lookup_by head_key k (l_heads l') = (if k = stream_key r then Some (head_of r) else lookup_by head_key k (l_heads l))"
    and "map head_key (l_heads l') = map head_key (l_heads l)"
    and "off_streams l' = off_streams l" and "l_observations l' = l_observations l"
proof -
  let ?P = "\<lambda>g. head_key g = stream_key r \<and> h_observation_id g = prev"
  let ?f = "\<lambda>g. g\<lparr>h_observation_id := ob_observation_id r, h_record_hash := ob_record_hash r,
    h_revision_no := ob_revision_no r, h_revision_action := Tombstone, h_updated_at := ob_created_at r\<rparr>"
  have f: "head_key (?f g) = head_key g" for g by (simp add: head_key_def)
  have same: "?f h = head_of r" using r by (simp add: head_of_def head_key_def stream_key_def)
  have l': "l' = l\<lparr>l_heads := update_where ?P ?f (l_heads l)\<rparr>" using upd by (simp add: update_head_def)
  show "map head_key (l_heads l') = map head_key (l_heads l)"
    unfolding l' by (simp add: update_where_keys [where key = head_key and P = ?P and f = ?f, OF f])
  have "lookup_by head_key k (l_heads l') = map_option (\<lambda>g. if ?P g then ?f g else g) (lookup_by head_key k (l_heads l))"
    unfolding l' by (simp add: lookup_by_update_where [where key = head_key and P = ?P and f = ?f, OF f])
  moreover have "(if ?P g then ?f g else g) = (if k = stream_key r then head_of r else g)"
    if g: "lookup_by head_key k (l_heads l) = Some g" for g
  proof (cases "k = stream_key r")
    case True
    then have "g = h" using g h r(1) by simp
    then show ?thesis using True r(1) prev same by simp
  next
    case False
    then show ?thesis using lookup_by_Some [OF g] by simp
  qed
  ultimately show "lookup_by head_key k (l_heads l') = (if k = stream_key r then Some (head_of r) else lookup_by head_key k (l_heads l))"
    using h r(1) by (cases "lookup_by head_key k (l_heads l)") auto
qed (use upd in \<open>auto simp: update_head_def off_streams_def\<close>)

lemma tombstone_record_Inr:
  assumes step: "tombstone_record env d run sc e now ids (h, x) l = (Inr i, l')" and inv: "stream_inv l"
    and h: "lookup_by head_key (head_key h) (l_heads l) = Some h" and run: "in_run d run h"
  defines "r \<equiv> tombstone_row env d run sc now (ids (h_record_key_hash h)) (h, x)"
  shows "i = ob_observation_id r" and "l_observations l' = l_observations l @ [r]"
    and "lookup_by head_key k (l_heads l') = (if k = head_key h then Some (head_of r) else lookup_by head_key k (l_heads l))"
    and "stream_inv l'" and "l_store l' = l_store l"
proof -
  have key: "stream_key r = head_key h" unfolding r_def by (rule tombstone_row_key [OF run])
  have fields: "ob_revision_action r = Tombstone" "ob_revision_no r = h_revision_no h + 1"
      "ob_supersedes_id r = Some (h_observation_id h)" "ob_observation_id r = ids (h_record_key_hash h)"
    by (simp_all add: r_def tombstone_row_def)
  obtain l1 l2 l3 er where 1: "insert_observation r l = (Inr (), l1)" and 2: "update_head (h_observation_id h) r l1 = (Inr (), l2)"
      and 3: "insert_run_observation (run_link run (ob_observation_id r)) l2 = (Inr (), l3)"
      and ev: "insert_observation_evidence er l3 = (Inr (), l')" and i: "i = ob_observation_id r"
    using step unfolding tombstone_record_def Let_def bind_op_Inr fst_conv r_def [symmetric]
    by (auto simp: return_op_def run_link_def fields(4))
  have 4: "l' = l3\<lparr>l_observation_evidence := l_observation_evidence l'\<rparr>"
    using ev by (auto simp: insert_observation_evidence_def split: if_splits)
  show "i = ob_observation_id r" by (rule i)
  have l1: "observation_row_ok l r" "l1 = l\<lparr>l_observations := l_observations l @ [r]\<rparr>"
    using 1 by (simp_all add: insert_observation_Inr)
  have h1: "lookup_by head_key (head_key h) (l_heads l1) = Some h" using h l1(2) by simp
  note up = update_head_lookup [OF key fields(1) h1 refl 2]
  have l3: "l3 = l2\<lparr>l_run_observations := l_run_observations l3\<rparr>"
    using 3 by (auto simp: insert_run_observation_def split: if_splits)
  have obs: "l_observations l' = l_observations l @ [r]" by (subst 4, simp, subst l3, simp add: up(4) l1(2))
  have heads: "l_heads l' = l_heads l2" by (subst 4, simp, subst l3, simp)
  show "l_observations l' = l_observations l @ [r]" by (rule obs)
  show "l_store l' = l_store l" using off_streamsD(1) [OF up(3)] by (subst 4, simp, subst l3, simp add: l1(2))
  have look: "lookup_by head_key k (l_heads l') = (if k = stream_key r then Some (head_of r) else lookup_by head_key k (l_heads l))" for k
    unfolding heads using up(1) [of k] l1(2) by simp
  then show "lookup_by head_key k (l_heads l') = (if k = head_key h then Some (head_of r) else lookup_by head_key k (l_heads l))"
    by (simp add: key)
  show "stream_inv l'"
  proof (rule stream_inv_append [OF inv obs row_ok_fresh [OF l1(1)] _ _ _ look])
    show "distinct (map head_key (l_heads l'))" using inv up(2) l1(2) unfolding heads stream_inv_def by simp
  qed (simp_all add: key h fields)
qed

definition tombstone_of ::
  "env \<Rightarrow> definition_descriptor \<Rightarrow> run_handle \<Rightarrow> string \<Rightarrow> instant \<Rightarrow> (string \<Rightarrow> string) \<Rightarrow> head_row \<times> observation_row \<Rightarrow>
   observation_row" where
  "tombstone_of env d run sc now ids hx = tombstone_row env d run sc now (ids (h_record_key_hash (fst hx))) hx"

lemma tombstones_Inr:
  assumes "each_op (tombstone_record env d run sc e now ids) hxs l = (Inr ts, l')" and "stream_inv l"
    and "\<And>h x. (h, x) \<in> set hxs \<Longrightarrow> lookup_by head_key (head_key h) (l_heads l) = Some h \<and> in_run d run h"
    and "distinct (map (head_key \<circ> fst) hxs)"
  shows "stream_inv l' \<and> l_store l' = l_store l \<and>
    l_observations l' = l_observations l @ map (tombstone_of env d run sc now ids) hxs \<and>
    ts = map (ob_observation_id \<circ> tombstone_of env d run sc now ids) hxs"
  using assms
proof (induction hxs arbitrary: l ts)
  case (Cons hx hxs)
  obtain h x where hx: "hx = (h, x)" by fastforce
  obtain i l1 js where 1: "tombstone_record env d run sc e now ids (h, x) l = (Inr i, l1)"
      and 2: "each_op (tombstone_record env d run sc e now ids) hxs l1 = (Inr js, l')" and ts: "ts = i # js"
    using Cons.prems(1) hx by (auto split: prod.splits sum.splits)
  have h: "lookup_by head_key (head_key h) (l_heads l) = Some h" "in_run d run h"
    using Cons.prems(3) [of h x] hx by auto
  note step = tombstone_record_Inr [OF 1 Cons.prems(2) h]
  have "lookup_by head_key (head_key g) (l_heads l1) = Some g \<and> in_run d run g" if g: "(g, y) \<in> set hxs" for g y
  proof -
    have "head_key g \<noteq> head_key h" using Cons.prems(4) g hx by force
    then show ?thesis using step(3) [of "head_key g"] Cons.prems(3) [of g y] g by simp
  qed
  then have "stream_inv l' \<and> l_store l' = l_store l1 \<and>
      l_observations l' = l_observations l1 @ map (tombstone_of env d run sc now ids) hxs \<and>
      js = map (ob_observation_id \<circ> tombstone_of env d run sc now ids) hxs"
    using Cons.prems(4) by (intro Cons.IH [OF 2 step(4)]) auto
  then show ?case using step(1,2,5) by (simp add: ts hx tombstone_of_def)
qed simp

lemma stream_inv_head:
  assumes "stream_inv l" and "h \<in> set (l_heads l)"
  shows "lookup_by head_key (head_key h) (l_heads l) = Some h"
  using assms lookup_by_unique [of head_key "l_heads l" h] by (simp add: stream_inv_def)

lemma finalize_cases:
  assumes "finalize_full_snapshot env run pr now ids l = (Inr ts, l')"
  obtains d r sc e l1 payload where
    "registry_lookup (en_registry env) (rh_datasource_id run) (Some (rh_definition_version run)) = Inr d"
    "dd_snapshot_mode d = ''full_snapshot''" "pr \<noteq> []" "finalize_checks run pr now l = Inr (r, sc, e)"
    "each_op (tombstone_record env d run sc e now ids) (missing_heads d run sc l) l = (Inr ts, l1)"
    "scope_payload r pr = Inr payload" "l' = snd (complete_snapshot run payload (int (length ts)) l1)"
proof -
  obtain d :: definition_descriptor where d:
      "registry_lookup (en_registry env) (rh_datasource_id run) (Some (rh_definition_version run)) = Inr d"
      "dd_snapshot_mode d = ''full_snapshot''" "pr \<noteq> []"
    using assms by (auto simp: finalize_full_snapshot_def raise_op_def split: sum.splits if_splits)
  have "\<exists>r sc e l1 payload. finalize_checks run pr now l = Inr (r, sc, e) \<and>
      each_op (tombstone_record env d run sc e now ids) (missing_heads d run sc l) l = (Inr ts, l1) \<and>
      scope_payload r pr = Inr payload \<and> l' = snd (complete_snapshot run payload (int (length ts)) l1)"
    using assms d unfolding finalize_full_snapshot_def
    by (simp add: transaction_Inr bind_op_Inr read_op_def return_op_def split: prod.splits) force
  then show thesis using that [OF d] by blast
qed

lemma complete_snapshot_frame:
  "l_observations (snd (complete_snapshot run payload n l)) = l_observations l"
  "l_heads (snd (complete_snapshot run payload n l)) = l_heads l"
  by (simp_all add: complete_snapshot_def on_store_def update_runs_def)

lemma finalize_writes:
  assumes "finalize_full_snapshot env run pr now ids l = (Inr ts, l')" and inv: "stream_inv l"
  obtains d r sc e where
    "registry_lookup (en_registry env) (rh_datasource_id run) (Some (rh_definition_version run)) = Inr d"
    "finalize_checks run pr now l = Inr (r, sc, e)" "stream_inv l'"
    "l_observations l' = l_observations l @ map (tombstone_of env d run sc now ids) (missing_heads d run sc l)"
    "ts = map (ob_observation_id \<circ> tombstone_of env d run sc now ids) (missing_heads d run sc l)"
  using assms(1)
proof (cases rule: finalize_cases)
  case (1 d r sc e l1 payload)
  have "lookup_by head_key (head_key h) (l_heads l) = Some h \<and> in_run d run h"
    if "(h, x) \<in> set (missing_heads d run sc l)" for h x
    using that stream_inv_head [OF inv] by (simp add: set_missing_heads set_scope_heads)
  note t = tombstones_Inr [OF 1(5) inv this distinct_missing_heads [OF inv]]
  have "stream_inv l'"
    by (rule stream_inv_frame [of l1]) (use t 1(7) in \<open>simp_all add: complete_snapshot_frame\<close>)
  then show thesis using that [OF 1(1,4)] t 1(7) by (simp add: complete_snapshot_frame)
qed

lemma newest_mem: "newest (revisions_of l k) = Some x \<Longrightarrow> x \<in> set (l_observations l) \<and> stream_key x = k"
proof -
  assume x: "newest (revisions_of l k) = Some x"
  then have "x \<in> set (revisions_of l k)" by (auto simp: newest_def split: if_splits)
  then show ?thesis by (simp add: revisions_of_def)
qed

lemma head_newest:
  assumes "stream_inv l"
  shows "h \<in> set (l_heads l) \<longleftrightarrow> (\<exists>x. newest (revisions_of l (head_key h)) = Some x \<and> h = head_of x)"
proof -
  have "lookup_by head_key (head_key h) (l_heads l) = map_option head_of (newest (revisions_of l (head_key h)))"
    using assms unfolding stream_inv_def by blast
  then show ?thesis using stream_inv_head [OF assms, of h] lookup_by_Some [of head_key "head_key h" "l_heads l" h] by auto
qed

lemma scope_head_newest:
  assumes inv: "stream_inv l"
  shows "(h, x) \<in> set (scope_heads d run sc l) \<longleftrightarrow> newest (revisions_of l (head_key h)) = Some x \<and> h = head_of x \<and>
    in_run d run h \<and> ob_revision_action x = Upsert \<and> ob_snapshot_scope_hash x = Some sc"
proof -
  have ids: "x = y" if "x \<in> set (l_observations l)" "y \<in> set (l_observations l)" "ob_observation_id x = ob_observation_id y" for x y
    using inv that by (auto simp: stream_inv_def distinct_map inj_on_def)
  show ?thesis
  proof
    assume L: "(h, x) \<in> set (scope_heads d run sc l)"
    then obtain y where y: "newest (revisions_of l (head_key h)) = Some y" "h = head_of y"
      using head_newest [OF inv] by (auto simp: set_scope_heads)
    have "x \<in> set (l_observations l)" "ob_observation_id x = h_observation_id h" using L by (simp_all add: set_scope_heads)
    then have "x = y" using newest_mem [OF y(1)] by (intro ids) (simp_all add: y(2))
    then show "newest (revisions_of l (head_key h)) = Some x \<and> h = head_of x \<and>
        in_run d run h \<and> ob_revision_action x = Upsert \<and> ob_snapshot_scope_hash x = Some sc"
      using L y by (simp add: set_scope_heads)
  next
    assume R: "newest (revisions_of l (head_key h)) = Some x \<and> h = head_of x \<and>
        in_run d run h \<and> ob_revision_action x = Upsert \<and> ob_snapshot_scope_hash x = Some sc"
    then have "h \<in> set (l_heads l)" unfolding head_newest [OF inv] by blast
    moreover have "x \<in> set (l_observations l)" using R newest_mem by blast
    ultimately show "(h, x) \<in> set (scope_heads d run sc l)" unfolding set_scope_heads using R by auto
  qed
qed

lemma finalize_stream:
  assumes inv: "stream_inv l"
    and obs: "l_observations l' = l_observations l @ map (tombstone_of env d run sc now ids) (missing_heads d run sc l)"
  defines "gone k x \<equiv> newest (revisions_of l k) = Some x \<and> k = (rh_datasource_id run, rh_lane run, dd_record_key_version d, ob_record_key_hash x) \<and>
    ob_revision_action x = Upsert \<and> ob_snapshot_scope_hash x = Some sc \<and> ob_record_key_hash x \<notin> set (seen_keys run l)"
  shows "gone k x \<Longrightarrow> revisions_of l' k = revisions_of l k @ [tombstone_of env d run sc now ids (head_of x, x)]"
    and "\<nexists>x. gone k x \<Longrightarrow> revisions_of l' k = revisions_of l k"
proof -
  let ?m = "missing_heads d run sc l"
  have key: "stream_key (tombstone_of env d run sc now ids hx) = (head_key \<circ> fst) hx" if "hx \<in> set ?m" for hx
  proof -
    obtain h x where hx: "hx = (h, x)" by fastforce
    then have "in_run d run h" using that by (simp add: set_missing_heads set_scope_heads)
    then show ?thesis by (simp add: hx tombstone_of_def tombstone_row_key)
  qed
  have "filter (\<lambda>r. stream_key r = k) (map (tombstone_of env d run sc now ids) ?m) =
      map (tombstone_of env d run sc now ids) (filter (\<lambda>hx. (head_key \<circ> fst) hx = k) ?m)"
    unfolding filter_map by (intro arg_cong [where f = "map _"] filter_cong) (simp_all add: key)
  also have "filter (\<lambda>hx. (head_key \<circ> fst) hx = k) ?m =
      (case lookup_by (head_key \<circ> fst) k ?m of None \<Rightarrow> [] | Some hx \<Rightarrow> [hx])"
    using filter_by_key [OF distinct_missing_heads [OF inv], where i = k and Q = "\<lambda>_. True"]
    by (auto split: option.splits)
  finally have rev: "revisions_of l' k = revisions_of l k @ map (tombstone_of env d run sc now ids)
      (case lookup_by (head_key \<circ> fst) k ?m of None \<Rightarrow> [] | Some hx \<Rightarrow> [hx])"
    by (simp add: revisions_of_def obs)
  have mem: "(h, x) \<in> set ?m \<and> head_key h = k \<longleftrightarrow> h = head_of x \<and> gone k x" for h x
    unfolding set_missing_heads scope_head_newest [OF inv] gone_def
    using newest_mem [of l k x] by (auto simp: in_run_def head_of_def head_key_def stream_key_def)
  show "revisions_of l' k = revisions_of l k @ [tombstone_of env d run sc now ids (head_of x, x)]" if "gone k x"
  proof -
    have "(head_of x, x) \<in> set ?m" "head_key (head_of x) = k" using mem [of "head_of x" x] that by blast+
    then have "lookup_by (head_key \<circ> fst) k ?m = Some (head_of x, x)"
      using lookup_by_unique [OF distinct_missing_heads [OF inv], of "(head_of x, x)"] by simp
    then show ?thesis by (simp add: rev)
  qed
  show "revisions_of l' k = revisions_of l k" if none: "\<nexists>x. gone k x"
  proof (cases "lookup_by (head_key \<circ> fst) k ?m")
    case (Some hx)
    then show ?thesis using lookup_by_Some [OF Some] mem [of "fst hx" "snd hx"] none by (cases hx) auto
  qed (simp add: rev)
qed

section \<open>The contract of a versioned map\<close>

text \<open>
  What the record streams promise to whoever reads them: a stream is an append-only list of
  versions, its head is the last of them, writing a version that is already the head changes
  nothing, and a write to one stream is invisible in the others.
\<close>

locale versioned_streams =
  fixes inv :: "'s \<Rightarrow> bool"
    and history :: "'s \<Rightarrow> 'k \<Rightarrow> 'v list"
    and head :: "'s \<Rightarrow> 'k \<Rightarrow> 'v option"
    and writes :: "'k \<Rightarrow> 'v \<Rightarrow> 's \<Rightarrow> 's \<Rightarrow> bool"
  assumes head_last: "inv s \<Longrightarrow> head s k = (if history s k = [] then None else Some (last (history s k)))"
    and writes_inv: "inv s \<Longrightarrow> writes k v s s' \<Longrightarrow> inv s'"
    and writes_history: "inv s \<Longrightarrow> writes k v s s' \<Longrightarrow>
      history s' j = (if j = k \<and> head s k \<noteq> Some v then history s j @ [v] else history s j)"
begin

lemma writes_head: "inv s \<Longrightarrow> writes k v s s' \<Longrightarrow> head s' k = Some v"
  using writes_history [of s k v s' k] head_last [of s' k] head_last [of s k] writes_inv by (auto split: if_splits)

lemma writes_other: "inv s \<Longrightarrow> writes k v s s' \<Longrightarrow> j \<noteq> k \<Longrightarrow> head s' j = head s j"
  using writes_history [of s k v s' j] head_last [of s' j] head_last [of s j] writes_inv by auto

inductive written :: "('k \<times> 'v) list \<Rightarrow> 's \<Rightarrow> 's \<Rightarrow> bool" where
  written_Nil: "written [] s s"
| written_Cons: "writes k v s s1 \<Longrightarrow> written kvs s1 s2 \<Longrightarrow> written ((k, v) # kvs) s s2"

lemma written_history:
  "written kvs s s' \<Longrightarrow> inv s \<Longrightarrow> inv s' \<and> prefix (history s k) (history s' k) \<and>
     head s' k = (case map_of (rev kvs) k of None \<Rightarrow> head s k | Some v \<Rightarrow> Some v)"
proof (induction rule: written.induct)
  case (written_Cons j v s s1 kvs s2)
  have inv1: "inv s1" by (rule writes_inv [OF written_Cons.prems written_Cons.hyps(1)])
  have "prefix (history s k) (history s1 k)"
    by (simp add: writes_history [OF written_Cons.prems written_Cons.hyps(1)])
  moreover have "head s1 k = (if k = j then Some v else head s k)"
    using writes_head [OF written_Cons.prems written_Cons.hyps(1)] writes_other [OF written_Cons.prems written_Cons.hyps(1), of k] by simp
  ultimately show ?case
    using written_Cons.IH [OF inv1] prefix_order.trans by (auto simp: map_add_def split: option.splits)
qed simp

lemma written_twice:
  assumes "inv s" and "writes k v s s1" and "writes k v s1 s2"
  shows "history s2 j = history s1 j"
  using writes_history [OF writes_inv [OF assms(1,2)] assms(3), of j] writes_head [OF assms(1,2)] by simp

end

text \<open>A version is the action and the record hash of a revision; the head is what the head table holds.\<close>

definition version_of :: "observation_row \<Rightarrow> revision_action \<times> string" where
  "version_of r = (ob_revision_action r, ob_record_hash r)"

definition history :: "ledger \<Rightarrow> string \<times> string \<times> string \<times> string \<Rightarrow> (revision_action \<times> string) list" where
  "history l k = map version_of (revisions_of l k)"

definition head_version :: "ledger \<Rightarrow> string \<times> string \<times> string \<times> string \<Rightarrow> (revision_action \<times> string) option" where
  "head_version l k = map_option (\<lambda>h. (h_revision_action h, h_record_hash h)) (lookup_by head_key k (l_heads l))"

definition persists :: "string \<times> string \<times> string \<times> string \<Rightarrow> revision_action \<times> string \<Rightarrow> ledger \<Rightarrow> ledger \<Rightarrow> bool" where
  "persists k v l l' \<longleftrightarrow> (\<exists>env run a now i p j. prepare_observation env run a = Inr p \<and> k = record_stream p run \<and>
     v = (Upsert, po_record_hash p) \<and> persist_observation env run a now i l = (Inr j, l'))"

lemma history_append:
  "l_observations l' = l_observations l @ [r] \<Longrightarrow>
     history l' k = history l k @ (if stream_key r = k then [version_of r] else [])"
  by (simp add: history_def revisions_of_append)

lemma persist_observation_history:
  assumes "persist_observation env run a now obs_id l = (Inr i, l')" and p: "prepare_observation env run a = Inr p"
  shows "history l' k = (if k = record_stream p run \<and> head_version l k \<noteq> Some (Upsert, po_record_hash p)
    then history l k @ [(Upsert, po_record_hash p)] else history l k)"
  using assms(1)
proof (cases rule: persist_observation_cases)
  case (1 p' q l1 n l2 m l3 us)
  have pp: "p' = p" using 1(1) p by simp
  have "history l' k = history l1 k"
    using persist_observation_tail(1) [OF 1(6-8)] by (simp add: history_def revisions_of_def)
  also have "\<dots> = (if k = record_stream p run \<and> head_version l k \<noteq> Some (Upsert, po_record_hash p)
      then history l k @ [(Upsert, po_record_hash p)] else history l k)"
    using 1(5) [unfolded pp]
  proof (cases rule: write_record_cases)
    case (reuse h)
    then show ?thesis by (auto simp: head_version_def)
  next
    case (fresh row)
    have "version_of row = (Upsert, po_record_hash p)" "stream_key row = record_stream p run"
      by (simp_all add: fresh(1) version_of_def) (simp add: revision_row_def Let_def)
    moreover have "head_version l (record_stream p run) \<noteq> Some (Upsert, po_record_hash p)"
      using fresh(2) by (auto simp: head_version_def)
    ultimately show ?thesis using history_append [OF fresh(5)] by auto
  qed
  finally show ?thesis .
qed

lemma head_version_last:
  "stream_inv l \<Longrightarrow> head_version l k = (if history l k = [] then None else Some (last (history l k)))"
proof -
  assume "stream_inv l"
  then have "lookup_by head_key k (l_heads l) = map_option head_of (newest (revisions_of l k))"
    unfolding stream_inv_def by blast
  then show ?thesis by (simp add: head_version_def history_def newest_def last_map version_of_def)
qed

interpretation streams: versioned_streams stream_inv history head_version persists
proof
  fix l k v l' j
  assume inv: "stream_inv l"
  show "head_version l k = (if history l k = [] then None else Some (last (history l k)))"
    by (rule head_version_last [OF inv])
  assume "persists k v l l'"
  then obtain env run a now i p m where p: "prepare_observation env run a = Inr p" "k = record_stream p run"
      "v = (Upsert, po_record_hash p)" "persist_observation env run a now i l = (Inr m, l')"
    unfolding persists_def by blast
  show "stream_inv l'" by (rule persist_observation_inv [OF p(4) inv])
  show "history l' j = (if j = k \<and> head_version l k \<noteq> Some v then history l j @ [v] else history l j)"
    using persist_observation_history [OF p(4,1), of j] p(2,3) by auto
qed

end
