(* ===== verification/Evidence.thy ===== *)
theory Evidence
  imports LedgerModel
begin

text \<open>
  Evidence persistence (\<open>OperationalStore.preflight_evidence\<close>, \<open>persist_evidence\<close>,
  \<open>read_evidence\<close> and the checks they share). A \<open>vault\<close> is the ledger with the content-addressed
  object store beside it. The bytes are published first and the database row refers to them, so a
  failed call may leave an unreferenced object and never a dangling row.
\<close>

section \<open>State and arguments\<close>

record vault =
  v_ledger :: ledger
  v_objects :: cas

record evidence_env =
  ee_env :: env
  ee_ip :: iplib
  ee_zip :: infolist

record evidence_args =
  va_body :: "string option"
  va_artifact :: "stored_artifact option"
  va_role :: string
  va_media_type :: "string option"
  va_request :: "(string \<times> json) list option"
  va_response :: "(string \<times> json) list option"
  va_source_id :: "string option"
  va_required :: bool
  va_retrieved_at :: "instant option"
  va_retention_until :: "instant option"

definition dict_or_empty :: "(string \<times> json) list option \<Rightarrow> (string \<times> json) list" where
  "dict_or_empty d = (case d of None \<Rightarrow> [] | Some kvs \<Rightarrow> kvs)"

section \<open>Provenance\<close>

definition bound_policy :: "string list \<Rightarrow> string \<Rightarrow> source_policy" where
  "bound_policy allowed_hosts meth =
     \<lparr>sp_allowed_hosts = allowed_hosts, sp_allowed_methods = [meth], sp_allowed_query_keys = [],
      sp_allowed_request_headers = [''accept'', ''user-agent''], sp_require_https = True,
      sp_max_redirects = 5, sp_artifact = default_artifact_policy\<rparr>"

text \<open>A \<open>PolicyError\<close> becomes an \<open>OperationalError\<close>; any other ValueError of the URL parser escapes.\<close>

definition validate_bound_source_url ::
  "evidence_env \<Rightarrow> string list \<Rightarrow> string \<Rightarrow> string \<Rightarrow> store_error option" where
  "validate_bound_source_url E allowed_hosts url meth =
     (if allowed_hosts = [] then Some (OperationalError ''bound source has no approved network host'')
      else case (case source_policy_init (bound_policy allowed_hosts meth) of
                   Inl e \<Rightarrow> Inl e
                 | Inr policy \<Rightarrow> validate_source_url (en_urllib (ee_env E)) (ee_ip E) url policy meth None) of
        Inl (PolicyError _) \<Rightarrow> Some (OperationalError ''evidence has unapproved source provenance'')
      | Inl UrlValueError \<Rightarrow> Some (StoreValueError ''invalid URL'')
      | Inr _ \<Rightarrow> None)"

fun both_ok :: "store_error option \<Rightarrow> store_error option \<Rightarrow> store_error option" where
  "both_ok (Some e) f = Some e"
| "both_ok None f = f"

definition validate_evidence_provenance ::
  "evidence_env \<Rightarrow> source_binding \<Rightarrow> (string \<times> json) list \<Rightarrow> (string \<times> json) list \<Rightarrow> store_error option" where
  "validate_evidence_provenance E b request response =
     (case lookup_source (en_registry (ee_env E)) (sb_source_id b) (Some (sb_source_version b)) of
        Inl e \<Rightarrow> Some e
      | Inr src \<Rightarrow>
          if dict_get request ''method'' = JStr ''MANUAL_IMPORT''
          then (case dict_get request ''source_url'' of
                  JNull \<Rightarrow> None
                | JStr u \<Rightarrow> validate_bound_source_url E (sr_allowed_hosts src) u ''GET''
                | _ \<Rightarrow> Some (OperationalError ''manual evidence source URL must be a string''))
          else case dict_get request ''method'' of
            JStr meth \<Rightarrow>
              if upper meth \<noteq> ''GET''
              then Some (OperationalError ''evidence acquisition method must be GET'')
              else (case (dict_get request ''url'', dict_get response ''final_url'') of
                      (JStr request_url, JStr final_url) \<Rightarrow>
                        (case dict_get response ''status'' of
                           JInt status \<Rightarrow>
                             if 200 \<le> status \<and> status < 300
                             then both_ok (validate_bound_source_url E (sr_allowed_hosts src) request_url meth)
                               (validate_bound_source_url E (sr_allowed_hosts src) final_url meth)
                             else Some (OperationalError ''canonical evidence requires a successful HTTP response'')
                         | _ \<Rightarrow> Some (OperationalError ''canonical evidence requires a successful HTTP response''))
                    | _ \<Rightarrow> Some (OperationalError ''evidence requires request and final response URLs''))
          | _ \<Rightarrow> Some (OperationalError ''evidence acquisition method must be GET''))"

definition retention_deadline ::
  "string \<Rightarrow> instant \<Rightarrow> instant option \<Rightarrow> store_error + instant option" where
  "retention_deadline policy retrieved_at requested_until =
     (if policy \<in> {''open_official'', ''internal_config''}
      then if requested_until \<noteq> None
           then Inl (OperationalError ''project-lifetime evidence cannot set a retention deadline'')
           else Inr None
      else case requested_until of
        None \<Rightarrow> Inl (OperationalError ''source retention policy requires an approved retention deadline'')
      | Some deadline \<Rightarrow>
          if deadline \<le> retrieved_at
          then Inl (OperationalError ''retention deadline must be after evidence retrieval'')
          else Inr (Some deadline))"

record evidence_metadata =
  em_definition :: definition_descriptor
  em_binding :: source_binding
  em_retrieved :: instant
  em_retention :: "instant option"

definition prepare_evidence_metadata ::
  "evidence_env \<Rightarrow> run_handle \<Rightarrow> evidence_args \<Rightarrow> instant \<Rightarrow> store_error + evidence_metadata" where
  "prepare_evidence_metadata E run a now =
     (case registry_lookup (en_registry (ee_env E)) (rh_datasource_id run) (Some (rh_definition_version run)) of
        Inl e \<Rightarrow> Inl e
      | Inr d \<Rightarrow>
          (case filter (\<lambda>b. sb_source_id b = (if truthy (va_source_id a) then the (va_source_id a)
                  else sb_source_id (hd (dd_source_bindings d)))) (dd_source_bindings d) of
             [b] \<Rightarrow>
               (case validate_evidence_provenance E b (dict_or_empty (va_request a)) (dict_or_empty (va_response a)) of
                  Some e \<Rightarrow> Inl e
                | None \<Rightarrow>
                    (let retrieved = (case va_retrieved_at a of None \<Rightarrow> now | Some t \<Rightarrow> t)
                     in case retention_deadline (dd_retention_policy d) retrieved (va_retention_until a) of
                          Inl e \<Rightarrow> Inl e
                        | Inr retention \<Rightarrow> Inr \<lparr>em_definition = d, em_binding = b, em_retrieved = retrieved,
                            em_retention = retention\<rparr>))
           | _ \<Rightarrow> Inl (OperationalError ''evidence source must be exactly one bound definition source'')))"

definition preflight_evidence ::
  "evidence_env \<Rightarrow> run_handle \<Rightarrow> evidence_args \<Rightarrow> instant \<Rightarrow> unit ledger_op" where
  "preflight_evidence E run a now l =
     (case prepare_evidence_metadata E run a now of
        Inl e \<Rightarrow> (Inl e, l)
      | Inr _ \<Rightarrow> (case require_running_run run now (l_store l) of Inl e \<Rightarrow> (Inl e, l) | Inr _ \<Rightarrow> (Inr (), l)))"

section \<open>The artifact bounds of a definition\<close>

fun string_items :: "json list \<Rightarrow> string list option" where
  "string_items [] = Some []"
| "string_items (JStr s # js) = map_option ((#) s) (string_items js)"
| "string_items _ = None"

text \<open>\<open>tuple(...)\<close> of the JSON value: a list of strings, the characters of a string, the keys of an object.\<close>

definition media_items :: "json option \<Rightarrow> store_error + string list" where
  "media_items v =
     (case v of
        None \<Rightarrow> Inr []
      | Some (JList js) \<Rightarrow>
          (case string_items js of None \<Rightarrow> Inl (OperationalError ''invalid frozen artifact policy'') | Some ms \<Rightarrow> Inr ms)
      | Some (JStr s) \<Rightarrow> Inr (map (\<lambda>c. [c]) s)
      | Some (JObj kvs) \<Rightarrow> Inr (map fst kvs)
      | Some _ \<Rightarrow> Inl (StoreValueError ''object is not iterable''))"

definition bound_of :: "(string \<times> json) list \<Rightarrow> string \<Rightarrow> int \<Rightarrow> int option" where
  "bound_of kvs k dflt = (case map_of kvs k of None \<Rightarrow> Some dflt | Some v \<Rightarrow> as_int v)"

text \<open>
  The frozen JSON of the definition as keyword arguments of \<open>ArtifactPolicy\<close>. A bound of another
  type makes its comparison raise the TypeError that is reported as an invalid policy; a media type
  that is not a string is refused here, where the code refuses it when it is first compared.
\<close>

definition artifact_policy_for :: "definition_descriptor \<Rightarrow> store_error + artifact_policy" where
  "artifact_policy_for d =
     (let kvs = (case dd_artifact_policy d of JObj kvs \<Rightarrow> kvs | _ \<Rightarrow> []);
          dflt = default_artifact_policy;
          invalid = Inl (OperationalError ''invalid frozen artifact policy'')
      in case media_items (map_of kvs ''allowed_media_types'') of
           Inl e \<Rightarrow> Inl e
         | Inr media \<Rightarrow>
             (case (bound_of kvs ''max_bytes'' (ap_max_bytes dflt),
                    bound_of kvs ''max_archive_members'' (ap_max_archive_members dflt),
                    bound_of kvs ''max_expanded_bytes'' (ap_max_expanded_bytes dflt),
                    bound_of kvs ''max_compression_ratio'' (ap_max_compression_ratio dflt)) of
                (Some mb, Some mm, Some me, Some mr) \<Rightarrow>
                  (let p = \<lparr>ap_max_bytes = mb, ap_allowed_media_types = media, ap_max_archive_members = mm,
                         ap_max_expanded_bytes = me, ap_max_compression_ratio = mr\<rparr>
                   in if artifact_policy_post_init p = None then Inr p else invalid)
              | _ \<Rightarrow> invalid))"

section \<open>Persisting\<close>

fun policy_failure :: "policy_error option \<Rightarrow> store_error option" where
  "policy_failure None = None"
| "policy_failure (Some (PolicyError m)) = Some (OperationalError m)"
| "policy_failure (Some UrlValueError) = Some (StoreValueError ''invalid URL'')"

definition object_content :: "cas \<Rightarrow> string \<Rightarrow> string option" where
  "object_content objects d =
     (case map_of objects (take 2 d, d) of Some (RegularFile content) \<Rightarrow> Some content | _ \<Rightarrow> None)"

text \<open>The media type to record, after the body or the stored artifact passed the definition's bounds.\<close>

definition validate_evidence_body ::
  "evidence_env \<Rightarrow> definition_descriptor \<Rightarrow> evidence_args \<Rightarrow> cas \<Rightarrow> store_error + string option" where
  "validate_evidence_body E d a objects =
     (case va_artifact a of
        Some art \<Rightarrow>
          if va_media_type a \<noteq> None \<and> sa_media_type art \<noteq> None \<and> va_media_type a \<noteq> sa_media_type art
          then Inl (OperationalError ''stored artifact media type does not match evidence metadata'')
          else (let media = (if truthy (sa_media_type art) then sa_media_type art else va_media_type a)
                in case verify (en_sha (ee_env E)) art objects of
                     Inl _ \<Rightarrow> Inl (StoreValueError ''content_sha256 must be a lowercase SHA-256 hexadecimal digest'')
                   | Inr ok \<Rightarrow>
                       if \<not> ok then Inl (OperationalError ''stored artifact failed verification'')
                       else case artifact_policy_for d of
                         Inl e \<Rightarrow> Inl e
                       | Inr policy \<Rightarrow>
                           (case policy_failure (validate_artifact_file (ee_zip E)
                               (object_content objects (sa_content_sha256 art)) (sa_byte_size art) media policy) of
                              Some e \<Rightarrow> Inl e | None \<Rightarrow> Inr media))
      | None \<Rightarrow>
          (case artifact_policy_for d of
             Inl e \<Rightarrow> Inl e
           | Inr policy \<Rightarrow>
               (case policy_failure (validate_artifact_bytes (ee_zip E) (the (va_body a)) (va_media_type a) policy) of
                  Some e \<Rightarrow> Inl e | None \<Rightarrow> Inr (va_media_type a))))"

definition publish_evidence ::
  "evidence_env \<Rightarrow> evidence_args \<Rightarrow> string option \<Rightarrow> (cas, artifact_error, stored_artifact) op" where
  "publish_evidence E a media objects =
     (case va_artifact a of
        Some art \<Rightarrow> (Inr art, objects)
      | None \<Rightarrow> put_bytes (en_sha (ee_env E)) (the (va_body a)) media None objects)"

definition redacted_json :: "evidence_env \<Rightarrow> (string \<times> json) list option \<Rightarrow> store_error + json" where
  "redacted_json E d =
     (case redact_secrets (en_urllib (ee_env E)) (JObj (dict_or_empty d)) of
        Inl _ \<Rightarrow> Inl (StoreValueError ''invalid URL'') | Inr j \<Rightarrow> Inr j)"

definition record_evidence ::
  "evidence_env \<Rightarrow> run_handle \<Rightarrow> evidence_args \<Rightarrow> evidence_metadata \<Rightarrow> string option \<Rightarrow> stored_artifact \<Rightarrow>
   instant \<Rightarrow> string \<Rightarrow> unit ledger_op" where
  "record_evidence E run a m media art now evidence_id =
     bind_op (read_op (\<lambda>l. require_running_run run now (l_store l))) (\<lambda>_.
     bind_op (insert_content \<lparr>co_content_sha256 = sa_content_sha256 art, co_byte_size = sa_byte_size art,
       co_artifact_uri = artifact_uri art, co_created_at = now, co_verified_at = now\<rparr>) (\<lambda>_.
     bind_op (read_op (\<lambda>_. redacted_json E (va_request a))) (\<lambda>request.
     bind_op (read_op (\<lambda>_. redacted_json E (va_response a))) (\<lambda>response.
     bind_op (insert_evidence \<lparr>ev_evidence_id = evidence_id, ev_content_sha256 = sa_content_sha256 art,
       ev_media_type = media, ev_access_class = dd_access_class (em_definition m),
       ev_retention_until = em_retention m, ev_retrieved_at = em_retrieved m, ev_request = request,
       ev_response = response, ev_source_id = sb_source_id (em_binding m),
       ev_source_version = sb_source_version (em_binding m), ev_created_at = now\<rparr>) (\<lambda>_.
     insert_run_evidence \<lparr>re_run_id = rh_run_id run, re_evidence_id = evidence_id, re_role = va_role a,
       re_required = va_required a\<rparr>)))))"

definition persist_evidence ::
  "evidence_env \<Rightarrow> run_handle \<Rightarrow> evidence_args \<Rightarrow> instant \<Rightarrow> string \<Rightarrow>
   (vault, store_error, string \<times> stored_artifact) op" where
  "persist_evidence E run a now evidence_id v =
     (if (va_body a = None) = (va_artifact a = None)
      then (Inl (OperationalError ''provide exactly one evidence body or stored artifact''), v)
      else case prepare_evidence_metadata E run a now of
        Inl e \<Rightarrow> (Inl e, v)
      | Inr m \<Rightarrow>
     (case validate_evidence_body E (em_definition m) a (v_objects v) of
        Inl e \<Rightarrow> (Inl e, v)
      | Inr media \<Rightarrow>
     (case require_running_run run now (l_store (v_ledger v)) of
        Inl e \<Rightarrow> (Inl e, v)
      | Inr _ \<Rightarrow>
     (case publish_evidence E a media (v_objects v) of
        (Inl _, objects) \<Rightarrow> (Inl (StoreValueError ''artifact failed verification''), v\<lparr>v_objects := objects\<rparr>)
      | (Inr art, objects) \<Rightarrow>
     (case transaction (record_evidence E run a m media art now evidence_id) (v_ledger v) of
        (Inl e, l) \<Rightarrow> (Inl e, \<lparr>v_ledger = l, v_objects = objects\<rparr>)
      | (Inr _, l) \<Rightarrow> (Inr (evidence_id, art), \<lparr>v_ledger = l, v_objects = objects\<rparr>))))))"

definition read_evidence :: "evidence_env \<Rightarrow> string \<Rightarrow> vault \<Rightarrow> store_error + string" where
  "read_evidence E evidence_id v =
     (if evidence_id = [] then Inl (OperationalError ''evidence handle is required'')
      else case lookup_by ev_evidence_id evidence_id (l_evidence (v_ledger v)) of
        None \<Rightarrow> Inl (OperationalError ''unknown evidence handle'')
      | Some r \<Rightarrow>
          (case open_object (en_sha (ee_env E)) (ev_content_sha256 r) None (v_objects v) of
             Inl _ \<Rightarrow> Inl (StoreValueError ''artifact failed verification'')
           | Inr content \<Rightarrow> Inr content))"

section \<open>Facts\<close>

lemma persist_evidence_cases:
  assumes "persist_evidence E run a now i v = (Inr (j, art), v')"
  obtains m media q where "(va_body a = None) \<noteq> (va_artifact a = None)"
    "prepare_evidence_metadata E run a now = Inr m"
    "validate_evidence_body E (em_definition m) a (v_objects v) = Inr media"
    "require_running_run run now (l_store (v_ledger v)) = Inr q"
    "publish_evidence E a media (v_objects v) = (Inr art, v_objects v')"
    "record_evidence E run a m media art now i (v_ledger v) = (Inr (), v_ledger v')" "j = i"
proof -
  have one: "(va_body a = None) \<noteq> (va_artifact a = None)"
    using assms by (auto simp: persist_evidence_def split: if_splits)
  obtain m where m: "prepare_evidence_metadata E run a now = Inr m"
    using assms one by (cases "prepare_evidence_metadata E run a now") (auto simp: persist_evidence_def)
  obtain media where media: "validate_evidence_body E (em_definition m) a (v_objects v) = Inr media"
    using assms one m
    by (cases "validate_evidence_body E (em_definition m) a (v_objects v)") (auto simp: persist_evidence_def)
  obtain q where q: "require_running_run run now (l_store (v_ledger v)) = Inr q"
    using assms one m media
    by (cases "require_running_run run now (l_store (v_ledger v))") (auto simp: persist_evidence_def)
  obtain art' objects where pub: "publish_evidence E a media (v_objects v) = (Inr art', objects)"
    using assms one m media q
    by (auto simp: persist_evidence_def split: prod.splits sum.splits)
  obtain res l where t: "transaction (record_evidence E run a m media art' now i) (v_ledger v) = (res, l)" by fastforce
  have r: "res = Inr ()" "art' = art" "j = i" "v' = \<lparr>v_ledger = l, v_objects = objects\<rparr>"
    using assms one m media q pub t by (auto simp: persist_evidence_def split: sum.splits)
  then show thesis using that [OF one m media q] pub t by (simp add: transaction_Inr)
qed

lemma persist_evidence_fails:
  assumes "persist_evidence E run a now i v = (Inl e, v')"
  shows "v_ledger v' = v_ledger v"
proof -
  have "l = l0" if "transaction f l0 = (Inl e', l)" for f :: "unit ledger_op" and l l0 e'
    using transaction_Inl [OF that] .
  then show ?thesis using assms by (auto simp: persist_evidence_def split: if_splits sum.splits prod.splits)
qed

definition evidence_entry ::
  "run_handle \<Rightarrow> evidence_args \<Rightarrow> evidence_metadata \<Rightarrow> stored_artifact \<Rightarrow> string \<Rightarrow> evidence_row \<Rightarrow> bool" where
  "evidence_entry run a m art i row \<longleftrightarrow> ev_evidence_id row = i \<and> ev_content_sha256 row = sa_content_sha256 art \<and>
     ev_source_id row = sb_source_id (em_binding m) \<and> ev_source_version row = sb_source_version (em_binding m) \<and>
     ev_access_class row = dd_access_class (em_definition m) \<and> ev_retention_until row = em_retention m \<and>
     ev_retrieved_at row = em_retrieved m \<and> secret_free (ev_request row) \<and> secret_free (ev_response row)"

lemma redacted_json_secret_free: "redacted_json E d = Inr j \<Longrightarrow> secret_free j"
  using redact_secret_free(1) by (auto simp: redacted_json_def simp del: redact_secrets.simps split: sum.splits)

lemma record_evidence_Inr:
  assumes "record_evidence E run a m media art now i l = (Inr (), l')"
  obtains row where "evidence_entry run a m art i row" "l_evidence l' = l_evidence l @ [row]"
    "ev_evidence_id row \<notin> ev_evidence_id ` set (l_evidence l)"
    "l_run_evidence l' = l_run_evidence l @ [\<lparr>re_run_id = rh_run_id run, re_evidence_id = i, re_role = va_role a,
       re_required = va_required a\<rparr>]"
    "l_store l' = l_store l" "l_observations l' = l_observations l" "l_heads l' = l_heads l"
    "l_run_observations l' = l_run_observations l" "l_observation_evidence l' = l_observation_evidence l"
    "l_reviews l' = l_reviews l" "l_decisions l' = l_decisions l" "l_manual_promotions l' = l_manual_promotions l"
proof -
  obtain u l1 req resp l2 u2 where
      1: "insert_content \<lparr>co_content_sha256 = sa_content_sha256 art, co_byte_size = sa_byte_size art,
        co_artifact_uri = artifact_uri art, co_created_at = now, co_verified_at = now\<rparr> l = (Inr u, l1)"
      and req: "redacted_json E (va_request a) = Inr req" and resp: "redacted_json E (va_response a) = Inr resp"
      and 2: "insert_evidence \<lparr>ev_evidence_id = i, ev_content_sha256 = sa_content_sha256 art,
        ev_media_type = media, ev_access_class = dd_access_class (em_definition m),
        ev_retention_until = em_retention m, ev_retrieved_at = em_retrieved m, ev_request = req,
        ev_response = resp, ev_source_id = sb_source_id (em_binding m),
        ev_source_version = sb_source_version (em_binding m), ev_created_at = now\<rparr> l1 = (Inr u2, l2)"
      and 3: "insert_run_evidence \<lparr>re_run_id = rh_run_id run, re_evidence_id = i, re_role = va_role a,
        re_required = va_required a\<rparr> l2 = (Inr (), l')"
    using assms unfolding record_evidence_def bind_op_Inr by (auto simp: read_op_def)
  let ?row = "\<lparr>ev_evidence_id = i, ev_content_sha256 = sa_content_sha256 art,
        ev_media_type = media, ev_access_class = dd_access_class (em_definition m),
        ev_retention_until = em_retention m, ev_retrieved_at = em_retrieved m, ev_request = req,
        ev_response = resp, ev_source_id = sb_source_id (em_binding m),
        ev_source_version = sb_source_version (em_binding m), ev_created_at = now\<rparr>"
  have l1: "\<exists>cs. l1 = l\<lparr>l_contents := cs\<rparr>"
    using 1 by (auto simp: insert_content_def split: if_splits intro: exI [of _ "l_contents l"])
  then obtain cs where l1: "l1 = l\<lparr>l_contents := cs\<rparr>" by blast
  have l2: "l2 = l1\<lparr>l_evidence := l_evidence l1 @ [?row]\<rparr>" "lookup_by ev_evidence_id i (l_evidence l1) = None"
    using 2 by (auto simp: insert_evidence_def split: if_splits)
  have l3: "l' = l2\<lparr>l_run_evidence := l_run_evidence l2 @ [\<lparr>re_run_id = rh_run_id run, re_evidence_id = i, re_role = va_role a,
        re_required = va_required a\<rparr>]\<rparr>"
    using 3 by (auto simp: insert_run_evidence_def split: if_splits)
  have "evidence_entry run a m art i ?row"
    using redacted_json_secret_free [OF req] redacted_json_secret_free [OF resp] by (simp add: evidence_entry_def)
  then show thesis
    by (rule that) (use l1 l2 l3 in \<open>simp_all add: lookup_by_None_iff\<close>)
qed

text \<open>The objects an evidence call publishes.\<close>

lemma stream_of_chunks: "0 < n \<Longrightarrow> stream_content (map Inr (read_chunks n s)) = s"
proof (induction n s rule: read_chunks.induct)
  case (1 n s)
  then show ?case by (subst read_chunks.simps) (auto simp: take_eq_Nil)
qed

lemma publish_evidence_Inr:
  assumes "publish_evidence E a media objects = (Inr art, objects')"
    and valid: "validate_evidence_body E d a objects = Inr media'"
  shows "verify (en_sha (ee_env E)) art objects' = Inr True"
    and "map_of objects path = Some f \<Longrightarrow> map_of objects' path = Some f"
    and "va_artifact a = Some art \<or> va_artifact a = None \<and> sa_content_sha256 art = en_sha (ee_env E) (the (va_body a))"
    and "va_artifact a = None \<Longrightarrow> sa_created art \<Longrightarrow>
      map_of objects' (take 2 (sa_content_sha256 art), sa_content_sha256 art) = Some (RegularFile (the (va_body a)))"
proof -
  let ?ck = "map Inr (read_chunks (1024 * 1024) (the (va_body a))) :: (string + string) list"
  have ck: "stream_content ?ck = the (va_body a)" by (rule stream_of_chunks) simp
  have put: "put_stream (en_sha (ee_env E)) ?ck media None (1024 * 1024) None None objects = (Inr art, objects')"
    if "va_artifact a = None"
    using assms(1) that by (simp add: publish_evidence_def put_bytes_def)
  have given: "art = x \<and> objects' = objects" if "va_artifact a = Some x" for x
    using assms(1) that by (simp add: publish_evidence_def)
  show "verify (en_sha (ee_env E)) art objects' = Inr True"
  proof (cases "va_artifact a")
    case None
    show ?thesis by (rule put_stream_verified(1) [OF put [OF None]])
  next
    case (Some x)
    then show ?thesis using valid given [OF Some]
      by (auto simp: validate_evidence_body_def Let_def split: if_splits sum.splits)
  qed
  show "map_of objects path = Some f \<Longrightarrow> map_of objects' path = Some f"
    using put_stream_verified(2) [OF put] given by (cases "va_artifact a") auto
  show "va_artifact a = Some art \<or> va_artifact a = None \<and> sa_content_sha256 art = en_sha (ee_env E) (the (va_body a))"
  proof (cases "va_artifact a")
    case None
    have "sa_content_sha256 art = en_sha (ee_env E) (stream_content ?ck)"
      by (rule put_stream_Inr [OF put [OF None]]) simp
    then show ?thesis using None ck by simp
  qed (use given in auto)
  show "va_artifact a = None \<Longrightarrow> sa_created art \<Longrightarrow>
      map_of objects' (take 2 (sa_content_sha256 art), sa_content_sha256 art) = Some (RegularFile (the (va_body a)))"
    using put_stream_verified(3) [OF put] ck by simp
qed

text \<open>A URL inside the allow-list of a source: HTTPS, no user information or fragment, an approved host.\<close>

definition approved_url :: "urllib \<Rightarrow> string list \<Rightarrow> string \<Rightarrow> bool" where
  "approved_url ul allowed url \<longleftrightarrow> (\<exists>p h n hosts. ul_parse ul url = Some p \<and> lower (up_scheme p) = ''https'' \<and>
     \<not> truthy (up_username p) \<and> \<not> truthy (up_password p) \<and> up_fragment p = [] \<and>
     up_hostname p = Some h \<and> normalize_host h = Inr n \<and> normalize_hosts allowed = Inr hosts \<and>
     (\<exists>x \<in> set hosts. n = x \<or> (\<exists>d label. x = ''*.'' @ d \<and> n = label @ ''.'' @ d)))"

lemma bound_source_url_approved:
  assumes "validate_bound_source_url E allowed url meth = None"
  shows "approved_url (en_urllib (ee_env E)) allowed url"
proof -
  obtain policy where policy: "source_policy_init (bound_policy allowed meth) = Inr policy"
    using assms by (auto simp: validate_bound_source_url_def split: if_splits sum.splits policy_error.splits)
  obtain p where p: "validate_request_url (en_urllib (ee_env E)) (ee_ip E) url policy meth None = Inr p"
    using assms policy
    by (auto simp: validate_bound_source_url_def validate_source_url_def split: if_splits sum.splits policy_error.splits)
  have hosts: "normalize_hosts allowed = Inr (sp_allowed_hosts policy)" "sp_require_https policy"
    using policy by (auto simp: source_policy_init_def bound_policy_def split: sum.splits if_splits)
  obtain h where "ul_parse (en_urllib (ee_env E)) url = Some p" "target_ok (en_urllib (ee_env E)) policy meth p h"
    by (rule validated_target [OF p]) blast
  then show ?thesis using hosts unfolding approved_url_def target_ok_def by blast
qed

lemma both_ok_None [simp]: "both_ok x y = None \<longleftrightarrow> x = None \<and> y = None"
  by (cases x) auto

text \<open>
  What the provenance check admits: a manual import, with an approved URL if it names one, or a
  successful GET whose request and final URLs are both approved.
\<close>

lemma provenance_cases:
  assumes "validate_evidence_provenance E b request response = None"
  obtains src where "lookup_source (en_registry (ee_env E)) (sb_source_id b) (Some (sb_source_version b)) = Inr src"
    "dict_get request ''method'' = JStr ''MANUAL_IMPORT'' \<and>
       (dict_get request ''source_url'' = JNull \<or>
        (\<exists>u. dict_get request ''source_url'' = JStr u \<and> approved_url (en_urllib (ee_env E)) (sr_allowed_hosts src) u)) \<or>
     (\<exists>meth u f n. dict_get request ''method'' = JStr meth \<and> upper meth = ''GET'' \<and>
        dict_get request ''url'' = JStr u \<and> dict_get response ''final_url'' = JStr f \<and>
        dict_get response ''status'' = JInt n \<and> 200 \<le> n \<and> n < 300 \<and>
        approved_url (en_urllib (ee_env E)) (sr_allowed_hosts src) u \<and>
        approved_url (en_urllib (ee_env E)) (sr_allowed_hosts src) f)"
proof -
  obtain src where src: "lookup_source (en_registry (ee_env E)) (sb_source_id b) (Some (sb_source_version b)) = Inr src"
    using assms by (auto simp: validate_evidence_provenance_def split: sum.splits)
  show thesis
  proof (cases "dict_get request ''method'' = JStr ''MANUAL_IMPORT''")
    case True
    then have "case dict_get request ''source_url'' of JNull \<Rightarrow> True
        | JStr u \<Rightarrow> validate_bound_source_url E (sr_allowed_hosts src) u ''GET'' = None | _ \<Rightarrow> False"
      using assms src
      by (cases "dict_get request ''source_url''") (simp_all add: validate_evidence_provenance_def)
    then show thesis using True
      by (intro that [OF src]) (auto dest: bound_source_url_approved split: json.splits)
  next
    case False
    note red = validate_evidence_provenance_def [of E b request response, unfolded src sum.case if_not_P [OF False] assms]
    obtain meth where meth: "dict_get request ''method'' = JStr meth" "upper meth = ''GET''"
      using red by (cases "dict_get request ''method''") (simp_all split: if_splits)
    obtain u f where uf: "dict_get request ''url'' = JStr u" "dict_get response ''final_url'' = JStr f"
      using red meth by (cases "dict_get request ''url''"; cases "dict_get response ''final_url''") simp_all
    obtain n where n: "dict_get response ''status'' = JInt n" "200 \<le> n" "n < 300"
      using red meth uf by (cases "dict_get response ''status''") (simp_all split: if_splits)
    have "validate_bound_source_url E (sr_allowed_hosts src) u meth = None"
        "validate_bound_source_url E (sr_allowed_hosts src) f meth = None"
      using red [symmetric] meth uf n by simp_all
    then show thesis using meth uf n by (intro that [OF src]) (blast dest: bound_source_url_approved)
  qed
qed

lemma prepare_evidence_Inr:
  assumes "prepare_evidence_metadata E run a now = Inr m"
  shows "registry_lookup (en_registry (ee_env E)) (rh_datasource_id run) (Some (rh_definition_version run)) = Inr (em_definition m)"
    and "em_binding m \<in> set (dd_source_bindings (em_definition m))"
    and "validate_evidence_provenance E (em_binding m) (dict_or_empty (va_request a)) (dict_or_empty (va_response a)) = None"
    and "retention_deadline (dd_retention_policy (em_definition m)) (em_retrieved m) (va_retention_until a) = Inr (em_retention m)"
proof -
  obtain d :: definition_descriptor where d: "registry_lookup (en_registry (ee_env E)) (rh_datasource_id run) (Some (rh_definition_version run)) = Inr d"
    using assms by (auto simp: prepare_evidence_metadata_def split: sum.splits)
  let ?bs = "filter (\<lambda>b. sb_source_id b = (if truthy (va_source_id a) then the (va_source_id a)
    else sb_source_id (hd (dd_source_bindings d)))) (dd_source_bindings d)"
  note red = assms [unfolded prepare_evidence_metadata_def d sum.case]
  obtain b where b: "?bs = [b]"
  proof (cases ?bs)
    case (Cons b bs)
    then show thesis using that red by (cases bs) simp_all
  qed (use red in simp)
  have "b \<in> set ?bs" unfolding b by simp
  then have mem: "b \<in> set (dd_source_bindings d)" by simp
  have p: "validate_evidence_provenance E b (dict_or_empty (va_request a)) (dict_or_empty (va_response a)) = None"
    using red unfolding b
    by (cases "validate_evidence_provenance E b (dict_or_empty (va_request a)) (dict_or_empty (va_response a))")
      simp_all
  let ?t = "case va_retrieved_at a of None \<Rightarrow> now | Some t \<Rightarrow> t"
  obtain ret where ret: "retention_deadline (dd_retention_policy d) ?t (va_retention_until a) = Inr ret"
    using red unfolding b
    by (cases "retention_deadline (dd_retention_policy d) ?t (va_retention_until a)") (simp_all add: p Let_def)
  have "m = \<lparr>em_definition = d, em_binding = b, em_retrieved = ?t, em_retention = ret\<rparr>"
    using red unfolding b by (simp add: p ret Let_def)
  then show "registry_lookup (en_registry (ee_env E)) (rh_datasource_id run) (Some (rh_definition_version run)) = Inr (em_definition m)"
    "em_binding m \<in> set (dd_source_bindings (em_definition m))"
    "validate_evidence_provenance E (em_binding m) (dict_or_empty (va_request a)) (dict_or_empty (va_response a)) = None"
    "retention_deadline (dd_retention_policy (em_definition m)) (em_retrieved m) (va_retention_until a) = Inr (em_retention m)"
    using d mem p ret by simp_all
qed

end
