(* ===== verification/SubmarketMapping.thy ===== *)
theory SubmarketMapping
  imports Observations Evidence
begin

text \<open>
  Internal submarket mappings (\<open>ingestion/submarket_mapping.py\<close>). The parser runs in a sandboxed
  child process; \<open>sandbox\<close> is what comes back from it for the given bytes, a parser failure or a
  JSON value. That value is not trusted: \<open>submarket_mapping_from_value\<close> checks it again in the
  parent before the writer sees it.
\<close>

section \<open>Text\<close>

fun words_from :: "string \<Rightarrow> string \<Rightarrow> string list" where
  "words_from w [] = (if w = [] then [] else [w])"
| "words_from w (c # cs) =
     (if is_space c then (if w = [] then words_from [] cs else w # words_from [] cs)
      else words_from (w @ [c]) cs)"

text \<open>\<open>s.split()\<close>, and \<open>s.casefold()\<close> below code point 256: the sharp s becomes two letters (the
  micro sign, which folds outside that range, stays).\<close>

definition split_words :: "string \<Rightarrow> string list" where
  "split_words s = words_from [] s"

definition casefold :: "string \<Rightarrow> string" where
  "casefold s = concat (map (\<lambda>c. if c = CHR 0xDF then ''ss'' else [lower_char c]) s)"

datatype mapping_error = SubmarketMappingError string

definition bounded_text :: "json \<Rightarrow> nat \<Rightarrow> mapping_error + string" where
  "bounded_text value maximum =
     (case value of
        JStr s \<Rightarrow>
          if list_ex (\<lambda>c. (of_char c :: nat) < 32) (normalize_string s)
          then Inl (SubmarketMappingError ''SUBMARKET_MAPPING_INVALID'')
          else (let compact = join '' '' (split_words (normalize_string s))
                in if compact = [] \<or> maximum < length compact
                   then Inl (SubmarketMappingError ''SUBMARKET_MAPPING_INVALID'') else Inr compact)
      | _ \<Rightarrow> Inl (SubmarketMappingError ''SUBMARKET_MAPPING_INVALID''))"

section \<open>Mappings\<close>

record submarket_mapping =
  sm_name :: string
  sm_locations :: "string list"
  sm_version :: "string option"

definition mapping_key :: "submarket_mapping \<Rightarrow> string" where
  "mapping_key m = join ''-'' (split_words (casefold (sm_name m)))"

definition mapping_as_json :: "submarket_mapping \<Rightarrow> json" where
  "mapping_as_json m = JObj ([(''name'', JStr (sm_name m)), (''locations'', JList (map JStr (sm_locations m)))] @
     (case sm_version m of None \<Rightarrow> [] | Some v \<Rightarrow> [(''version'', JStr v)]))"

definition validate_submarket_mapping_submission ::
  "string option \<Rightarrow> string option \<Rightarrow> mapping_error + string" where
  "validate_submarket_mapping_submission media_type attestation =
     (if media_type \<noteq> Some ''application/json''
      then Inl (SubmarketMappingError ''SUBMARKET_MAPPING_MEDIA_TYPE_REQUIRED'')
      else case attestation of
        None \<Rightarrow> Inl (SubmarketMappingError ''SUBMARKET_MAPPING_ATTESTATION_REQUIRED'')
      | Some t \<Rightarrow>
          if strip t = [] then Inl (SubmarketMappingError ''SUBMARKET_MAPPING_ATTESTATION_REQUIRED'')
          else bounded_text (JStr t) 1024)"

fun bounded_texts :: "json list \<Rightarrow> nat \<Rightarrow> mapping_error + string list" where
  "bounded_texts [] maximum = Inr []"
| "bounded_texts (j # js) maximum =
     (case bounded_text j maximum of Inl e \<Rightarrow> Inl e
      | Inr t \<Rightarrow> (case bounded_texts js maximum of Inl e \<Rightarrow> Inl e | Inr ts \<Rightarrow> Inr (t # ts)))"

definition submarket_mapping_from_value :: "json \<Rightarrow> mapping_error + submarket_mapping" where
  "submarket_mapping_from_value value =
     (let invalid = Inl (SubmarketMappingError ''SUBMARKET_MAPPING_INVALID'')
      in case value of
           JObj kvs \<Rightarrow>
             if \<not> fst ` set kvs \<subseteq> {''name'', ''locations'', ''version''} \<or> \<not> {''name'', ''locations''} \<subseteq> fst ` set kvs
             then invalid
             else (case bounded_text (dict_get kvs ''name'') 160 of
                     Inl e \<Rightarrow> Inl e
                   | Inr name \<Rightarrow>
                       (case dict_get kvs ''locations'' of
                          JList raw \<Rightarrow>
                            if raw = [] then invalid
                            else if 256 < length raw
                            then Inl (SubmarketMappingError ''SUBMARKET_MAPPING_TOO_MANY_LOCATIONS'')
                            else (case bounded_texts raw 160 of
                                    Inl e \<Rightarrow> Inl e
                                  | Inr locations \<Rightarrow>
                                      if card (set (map (normalize_string \<circ> casefold) locations)) \<noteq> length locations
                                      then Inl (SubmarketMappingError ''SUBMARKET_MAPPING_DUPLICATE_LOCATION'')
                                      else case map_of kvs ''version'' of
                                        None \<Rightarrow> Inr \<lparr>sm_name = name, sm_locations = locations, sm_version = None\<rparr>
                                      | Some v \<Rightarrow>
                                          (case bounded_text v 64 of
                                             Inl e \<Rightarrow> Inl e
                                           | Inr t \<Rightarrow> Inr \<lparr>sm_name = name, sm_locations = locations, sm_version = Some t\<rparr>))
                        | _ \<Rightarrow> invalid))
         | _ \<Rightarrow> invalid)"

definition mapping_import_error_code :: "mapping_error \<Rightarrow> string" where
  "mapping_import_error_code e =
     (case e of SubmarketMappingError m \<Rightarrow>
        if m = ''PARSER_ISOLATION_UNAVAILABLE'' then m else ''SUBMARKET_MAPPING_INVALID'')"

section \<open>The observation of a mapping\<close>

text \<open>\<open>parse_saved_artifact\<close> with the child process as an argument.\<close>

definition parse_saved_mapping ::
  "evidence_env \<Rightarrow> (string \<Rightarrow> string + json) \<Rightarrow> stored_artifact \<Rightarrow> cas \<Rightarrow>
   store_error + mapping_error + submarket_mapping" where
  "parse_saved_mapping E sandbox art objects =
     (case open_object (en_sha (ee_env E)) (sa_content_sha256 art) (Some (sa_byte_size art)) objects of
        Inl _ \<Rightarrow> Inl (StoreValueError ''artifact failed verification'')
      | Inr payload \<Rightarrow>
          if 48 * 1024 < length payload then Inr (Inl (SubmarketMappingError ''PARSER_INPUT_LIMIT''))
          else case sandbox payload of
            Inl m \<Rightarrow> Inr (Inl (SubmarketMappingError m))
          | Inr value \<Rightarrow> Inr (submarket_mapping_from_value value))"

definition mapping_observation :: "submarket_mapping \<Rightarrow> string \<Rightarrow> observation_args" where
  "mapping_observation m evidence_id =
     \<lparr>oa_record_key = [''custom_submarket'', mapping_key m],
      oa_payload = [(KStr ''geography_code'', PStr (''custom-submarket:'' @ mapping_key m)),
        (KStr ''geography_name'', PStr (sm_name m)),
        (KStr ''locations'', PList (map PStr (sm_locations m))),
        (KStr ''mapping_name'', PStr (sm_name m)),
        (KStr ''mapping_type'', PStr ''custom_submarket'')] @
        (case sm_version m of None \<Rightarrow> [] | Some v \<Rightarrow> [(KStr ''mapping_version'', PStr v)]),
      oa_record_type = ''geography'', oa_category = ''submarket_geography'',
      oa_evidence = [evidence_id], oa_source_date = None, oa_period_label = None, oa_unit = None,
      oa_definition_text = Some ''Internal London office submarket mapping'',
      oa_limitations = [''Custom submarket mapping; it is not an official geography boundary.''],
      oa_locator = Some [(KStr ''kind'', PStr ''json_pointer''), (KStr ''pointer'', PStr []),
        (KStr ''schema'', PStr ''submarket_mapping.v1'')],
      oa_reason = ''first_seen''\<rparr>"

definition persist_submarket_mapping_observation ::
  "evidence_env \<Rightarrow> (string \<Rightarrow> string + json) \<Rightarrow> run_handle \<Rightarrow> string \<times> stored_artifact \<Rightarrow> instant \<Rightarrow> string \<Rightarrow>
   (vault, store_error, mapping_error + string) op" where
  "persist_submarket_mapping_observation E sandbox run ev now obs_id v =
     (case parse_saved_mapping E sandbox (snd ev) (v_objects v) of
        Inl e \<Rightarrow> (Inl e, v)
      | Inr (Inl e) \<Rightarrow> (Inr (Inl e), v)
      | Inr (Inr m) \<Rightarrow>
          (case persist_observation (ee_env E) run (mapping_observation m (fst ev)) now obs_id (v_ledger v) of
             (Inl e, l) \<Rightarrow> (Inl e, v\<lparr>v_ledger := l\<rparr>)
           | (Inr i, l) \<Rightarrow> (Inr (Inr i), v\<lparr>v_ledger := l\<rparr>)))"

section \<open>Facts\<close>

text \<open>A mapping that passed validation: what the writer may rely on, whatever the child returned.\<close>

definition clean_text :: "nat \<Rightarrow> string \<Rightarrow> bool" where
  "clean_text maximum t \<longleftrightarrow> t \<noteq> [] \<and> length t \<le> maximum \<and> list_all (\<lambda>c. 32 \<le> (of_char c :: nat)) t \<and> strip t = t"

definition mapping_ok :: "submarket_mapping \<Rightarrow> bool" where
  "mapping_ok m \<longleftrightarrow> clean_text 160 (sm_name m) \<and> list_all (clean_text 160) (sm_locations m) \<and>
     1 \<le> length (sm_locations m) \<and> length (sm_locations m) \<le> 256 \<and> distinct (map casefold (sm_locations m)) \<and>
     (case sm_version m of None \<Rightarrow> True | Some v \<Rightarrow> clean_text 64 v)"

lemma words_from_chars:
  "x \<in> set (words_from w s) \<Longrightarrow> \<forall>c \<in> set w. \<not> is_space c \<Longrightarrow>
     x \<noteq> [] \<and> (\<forall>c \<in> set x. \<not> is_space c \<and> c \<in> set w \<union> set s)"
proof (induction w s rule: words_from.induct)
  case (1 w)
  then show ?case by (auto split: if_splits)
next
  case (2 w c cs)
  consider (word) "is_space c" "x = w" "w \<noteq> []" | (later) "is_space c" "x \<in> set (words_from [] cs)" | (char) "\<not> is_space c"
    using "2.prems"(1) by (auto split: if_splits)
  then show ?case
  proof cases
    case later
    have none: "\<forall>c \<in> set ([] :: string). \<not> is_space c" by simp
    have "x \<noteq> [] \<and> (\<forall>c \<in> set x. \<not> is_space c \<and> c \<in> set [] \<union> set cs)"
      by (cases "w = []") (rule "2.IH"(1) [OF later(1) _ later(2) none] "2.IH"(2) [OF later(1) _ later(2) none], assumption)+
    then show ?thesis by simp
  next
    case char
    then have "x \<noteq> [] \<and> (\<forall>d \<in> set x. \<not> is_space d \<and> d \<in> set (w @ [c]) \<union> set cs)"
      using "2.prems" by (intro "2.IH"(3)) auto
    then show ?thesis by auto
  qed (use "2.prems" in auto)
qed

lemma set_join: "c \<in> set (join sep ws) \<Longrightarrow> c \<in> set sep \<or> (\<exists>x \<in> set ws. c \<in> set x)"
  by (induction sep ws rule: join.induct) auto

lemma join_first: "ws \<noteq> [] \<Longrightarrow> hd ws \<noteq> [] \<Longrightarrow> join sep ws \<noteq> [] \<and> hd (join sep ws) = hd (hd ws)"
  by (induction sep ws rule: join.induct) auto

lemma join_last: "ws \<noteq> [] \<Longrightarrow> \<forall>x \<in> set ws. x \<noteq> [] \<Longrightarrow> last (join sep ws) = last (last ws)"
proof (induction sep ws rule: join.induct)
  case (3 sep x y xs)
  have "join sep (y # xs) \<noteq> []" using join_first [of "y # xs" sep] 3(3) by simp
  then show ?case using 3 by simp
qed auto

lemma strip_id: "t \<noteq> [] \<Longrightarrow> \<not> is_space (hd t) \<Longrightarrow> \<not> is_space (last t) \<Longrightarrow> strip t = t"
proof -
  assume t: "t \<noteq> []" "\<not> is_space (hd t)" "\<not> is_space (last t)"
  then have "dropWhile is_space t = t" "dropWhile is_space (rev t) = rev t"
    unfolding dropWhile_eq_self_iff by (simp_all add: hd_rev)
  then show ?thesis by (simp add: strip_def rstrip_def)
qed

lemma bounded_text_clean:
  assumes "bounded_text j n = Inr t"
  shows "clean_text n t"
proof -
  obtain s where s: "j = JStr s" "\<forall>c \<in> set s. \<not> (of_char c :: nat) < 32" "t = join '' '' (split_words s)" "t \<noteq> []" "length t \<le> n"
    using assms by (auto simp: bounded_text_def normalize_string_def Let_def list_ex_iff split: json.splits if_splits)
  have w: "\<forall>x \<in> set (split_words s). x \<noteq> [] \<and> (\<forall>c \<in> set x. \<not> is_space c \<and> c \<in> set s)"
    using words_from_chars [of _ "[]" s] by (simp add: split_words_def)
  have ne: "split_words s \<noteq> []" using s(3,4) by auto
  have mem: "hd (split_words s) \<in> set (split_words s)" "last (split_words s) \<in> set (split_words s)" using ne by simp_all
  have "hd (hd (split_words s)) \<in> set (hd (split_words s))" "last (last (split_words s)) \<in> set (last (split_words s))"
    using w mem by simp_all
  moreover have "hd t = hd (hd (split_words s))" "last t = last (last (split_words s))"
    using join_first [OF ne, of "'' ''"] join_last [OF ne, of "'' ''"] w mem by (simp_all add: s(3))
  ultimately have e: "\<not> is_space (hd t)" "\<not> is_space (last t)" using w mem by simp_all
  have "32 \<le> (of_char c :: nat)" if "c \<in> set t" for c
    using set_join [of c "'' ''" "split_words s"] that w s(2,3) by (auto simp: not_less)
  then show ?thesis using s(4,5) strip_id [OF s(4) e] by (simp add: clean_text_def list_all_iff)
qed

lemma bounded_texts_clean: "bounded_texts js n = Inr ts \<Longrightarrow> list_all (clean_text n) ts \<and> length ts = length js"
  by (induction js n arbitrary: ts rule: bounded_texts.induct) (auto split: sum.splits dest: bounded_text_clean)

lemma mapping_from_value_parts:
  assumes "submarket_mapping_from_value j = Inr m"
  obtains kvs raw where "j = JObj kvs" "bounded_text (dict_get kvs ''name'') 160 = Inr (sm_name m)" "raw \<noteq> []"
    "length raw \<le> 256" "bounded_texts raw 160 = Inr (sm_locations m)" "distinct (map casefold (sm_locations m))"
    "case sm_version m of None \<Rightarrow> True | Some v \<Rightarrow> \<exists>w. bounded_text w 64 = Inr v"
proof -
  obtain kvs where kvs: "j = JObj kvs" using assms by (cases j) (auto simp: submarket_mapping_from_value_def)
  obtain name where name: "bounded_text (dict_get kvs ''name'') 160 = Inr name"
    using assms kvs by (auto simp: submarket_mapping_from_value_def Let_def split: if_splits sum.splits)
  obtain raw where raw: "dict_get kvs ''locations'' = JList raw" "raw \<noteq> []" "length raw \<le> 256"
    using assms kvs name
    by (cases "dict_get kvs ''locations''") (auto simp: submarket_mapping_from_value_def Let_def split: if_splits)
  obtain locs where locs: "bounded_texts raw 160 = Inr locs"
    using assms kvs name raw by (auto simp: submarket_mapping_from_value_def Let_def split: if_splits sum.splits)
  have "card (set (map casefold locs)) = length locs"
    using assms kvs name raw locs
    by (auto simp: submarket_mapping_from_value_def Let_def normalize_string_def comp_def split: if_splits)
  then have d: "distinct (map casefold locs)" using card_distinct [of "map casefold locs"] by simp
  have m: "sm_name m = name" "sm_locations m = locs"
      "case sm_version m of None \<Rightarrow> True | Some v \<Rightarrow> \<exists>w. bounded_text w 64 = Inr v"
    using assms kvs name raw locs
    by (auto simp: submarket_mapping_from_value_def Let_def split: if_splits option.splits sum.splits)
  show thesis using that [OF kvs] name raw locs d m by simp
qed

lemma mapping_from_value_ok:
  assumes "submarket_mapping_from_value j = Inr m"
  shows "mapping_ok m"
  using assms
proof (rule mapping_from_value_parts)
  fix kvs raw
  assume p: "bounded_text (dict_get kvs ''name'') 160 = Inr (sm_name m)" "raw \<noteq> []"
    "length raw \<le> 256" "bounded_texts raw 160 = Inr (sm_locations m)" "distinct (map casefold (sm_locations m))"
    "case sm_version m of None \<Rightarrow> True | Some v \<Rightarrow> \<exists>w. bounded_text w 64 = Inr v"
  then show ?thesis using bounded_text_clean [OF p(1)] bounded_texts_clean [OF p(4)]
    by (cases raw) (auto simp: mapping_ok_def dest: bounded_text_clean split: option.splits)
qed

section \<open>Validating twice\<close>

lemma words_from_word: "\<forall>c \<in> set x. \<not> is_space c \<Longrightarrow> words_from w (x @ s) = words_from (w @ x) s"
  by (induction x arbitrary: w) auto

lemma split_join:
  assumes "\<forall>x \<in> set ws. x \<noteq> [] \<and> (\<forall>c \<in> set x. \<not> is_space c)"
  shows "split_words (join '' '' ws) = ws"
  using assms
proof (induction "'' ''" ws rule: join.induct)
  case (2 x)
  then show ?case using words_from_word [of x "[]" "[]"] by (simp add: split_words_def)
next
  case (3 x y xs)
  have "is_space (CHR '' '')" by (simp add: is_space_def)
  then have "words_from [] (x @ '' '' @ join '' '' (y # xs)) = x # words_from [] (join '' '' (y # xs))"
    using 3(2) words_from_word [of x "[]" "'' '' @ join '' '' (y # xs)"] by simp
  then show ?case using 3 by (simp add: split_words_def)
qed (simp add: split_words_def)

lemma bounded_text_again:
  assumes "bounded_text j n = Inr t"
  shows "bounded_text (JStr t) n = Inr t"
proof -
  obtain s where s: "t = join '' '' (split_words s)"
    using assms by (auto simp: bounded_text_def Let_def split: json.splits if_splits)
  have w: "\<forall>x \<in> set (split_words s). x \<noteq> [] \<and> (\<forall>c \<in> set x. \<not> is_space c)"
    using words_from_chars [of _ "[]" s] by (simp add: split_words_def)
  have c: "clean_text n t" by (rule bounded_text_clean [OF assms])
  then have "\<not> list_ex (\<lambda>c. (of_char c :: nat) < 32) t" by (auto simp: clean_text_def list_ex_iff list_all_iff not_less)
  then show ?thesis using c split_join [OF w] s by (simp add: bounded_text_def normalize_string_def clean_text_def)
qed

lemma bounded_texts_again: "bounded_texts js n = Inr ts \<Longrightarrow> bounded_texts (map JStr ts) n = Inr ts"
  by (induction js n arbitrary: ts rule: bounded_texts.induct) (auto split: sum.splits dest: bounded_text_again)

text \<open>
  C40. Whatever the sandboxed parser sends back, a mapping that the parent accepts is well formed: the
  name and between 1 and 256 locations are non-empty texts of at most 160 characters without control
  characters or surrounding white space, the locations are distinct up to letter case, and a version
  has at most 64 characters. The check is stable: the mapping printed as JSON, which is what the
  child process sends, is accepted again as the same mapping.
\<close>

theorem submarket_mapping_roundtrip:
  assumes "submarket_mapping_from_value value = Inr m"
  shows "submarket_mapping_from_value (mapping_as_json m) = Inr m \<and>
    (\<forall>t \<in> set (sm_name m # sm_locations m). t \<noteq> [] \<and> length t \<le> 160 \<and> strip t = t \<and> (\<forall>c \<in> set t. 32 \<le> (of_char c :: nat))) \<and>
    1 \<le> length (sm_locations m) \<and> length (sm_locations m) \<le> 256 \<and> distinct (map casefold (sm_locations m)) \<and>
    (\<forall>t. sm_version m = Some t \<longrightarrow> t \<noteq> [] \<and> length t \<le> 64)"
proof -
  have ok: "mapping_ok m" by (rule mapping_from_value_ok [OF assms])
  obtain kvs raw where kvs: "value = JObj kvs" "bounded_text (dict_get kvs ''name'') 160 = Inr (sm_name m)"
      "bounded_texts raw 160 = Inr (sm_locations m)"
      "case sm_version m of None \<Rightarrow> True | Some t \<Rightarrow> \<exists>w. bounded_text w 64 = Inr t"
    by (rule mapping_from_value_parts [OF assms]) blast
  have name: "bounded_text (JStr (sm_name m)) 160 = Inr (sm_name m)" by (rule bounded_text_again [OF kvs(2)])
  have locs: "bounded_texts (map JStr (sm_locations m)) 160 = Inr (sm_locations m)" by (rule bounded_texts_again [OF kvs(3)])
  have ver: "bounded_text (JStr t) 64 = Inr t" if "sm_version m = Some t" for t
    using kvs(4) that bounded_text_again by auto
  have d: "card (set (map casefold (sm_locations m))) = length (sm_locations m)"
    using ok distinct_card [of "map casefold (sm_locations m)"] by (simp add: mapping_ok_def)
  have "submarket_mapping_from_value (mapping_as_json m) = Inr m"
  proof (cases "sm_version m")
    case None
    then show ?thesis using name locs d ok
      by (auto simp: submarket_mapping_from_value_def mapping_as_json_def dict_get_def normalize_string_def comp_def
          mapping_ok_def)
  next
    case (Some t)
    then show ?thesis using name locs d ok ver [OF Some]
      by (auto simp: submarket_mapping_from_value_def mapping_as_json_def dict_get_def normalize_string_def comp_def
          mapping_ok_def)
  qed
  then show ?thesis using ok by (auto simp: mapping_ok_def clean_text_def list_all_iff)
qed

theorem submarket_mapping_roundtrip_witness:
  "submarket_mapping_from_value (JObj [(''name'', JStr ''West  End''), (''locations'', JList [JStr ''Soho''])]) =
     Inr \<lparr>sm_name = ''West End'', sm_locations = [''Soho''], sm_version = None\<rparr> \<and>
   submarket_mapping_from_value (JObj [(''name'', JStr ''West End''), (''locations'', JList [JStr ''Soho''])]) =
     Inr \<lparr>sm_name = ''West End'', sm_locations = [''Soho''], sm_version = None\<rparr>"
proof -
  have "submarket_mapping_from_value (JObj [(''name'', JStr ''West  End''), (''locations'', JList [JStr ''Soho''])]) =
     Inr \<lparr>sm_name = ''West End'', sm_locations = [''Soho''], sm_version = None\<rparr>"
    by code_simp
  from this submarket_mapping_roundtrip [OF this] show ?thesis by (simp add: mapping_as_json_def)
qed

end
