(* ===== verification/Reviews.thy ===== *)
theory Reviews
  imports SubmarketMapping
begin

text \<open>
  Operator-supplied evidence, reviews and promotions: \<open>import_manual_evidence\<close>, \<open>review_tasks\<close>,
  \<open>decide_review\<close>, \<open>promote_review\<close> and \<open>revoke_promotion\<close> of \<open>OperationalStore\<close>, and the views
  \<open>current_run_promotion_v1\<close> and \<open>canonical_event_v1\<close> (\<open>storage/migrations/0003_canonical_views.sql\<close>)
  that decide which observations readers see.
\<close>

section \<open>Manual evidence\<close>

definition on_ledger :: "'a ledger_op \<Rightarrow> (vault, store_error, 'a) op" where
  "on_ledger m v = (case m (v_ledger v) of (res, l) \<Rightarrow> (res, v\<lparr>v_ledger := l\<rparr>))"

text \<open>What \<open>new_id\<close> and the clock return during one import; the clock is read once per step.\<close>

record import_ids =
  ii_instance :: string
  ii_enqueue :: enqueue_ids
  ii_token :: string
  ii_attempt :: string
  ii_run :: string
  ii_evidence :: string
  ii_observation :: string
  ii_review :: string
  ii_promotion :: string
  ii_audit :: "string \<Rightarrow> string"
  ii_clock :: "nat \<Rightarrow> instant"

record import_args =
  ia_datasource_id :: string
  ia_body :: string
  ia_media_type :: "string option"
  ia_source_url :: "string option"
  ia_attestation :: "string option"
  ia_retention_until :: "instant option"
  ia_actor_id :: string

record manual_evidence_result =
  mr_run_id :: string
  mr_evidence_id :: string
  mr_review_id :: "string option"
  mr_state :: string

definition submarket_datasource :: string where
  "submarket_datasource = ''custom.london_office_submarkets''"

definition import_attestation :: "import_args \<Rightarrow> store_error + string option" where
  "import_attestation a =
     (if ia_datasource_id a = submarket_datasource
      then case validate_submarket_mapping_submission (ia_media_type a) (ia_attestation a) of
             Inl (SubmarketMappingError m) \<Rightarrow> Inl (OperationalError m) | Inr t \<Rightarrow> Inr (Some t)
      else Inr (ia_attestation a))"

definition manual_enqueue_args :: "import_args \<Rightarrow> definition_descriptor \<Rightarrow> string option \<Rightarrow> string \<Rightarrow> enqueue_args" where
  "manual_enqueue_args a d attestation instance_id =
     (enqueue_defaults (ia_datasource_id a))\<lparr>
       ea_request := Some [(''manual_import'', JBool True), (''source_url'', opt_json JStr (ia_source_url a)),
         (''attestation'', opt_json JStr attestation)],
       ea_trigger := ''manual'', ea_lane := Some (dd_default_lane d),
       ea_request_instance_id := Some instance_id, ea_job_kind := Some ''manual_submission''\<rparr>"

definition manual_evidence_args :: "import_args \<Rightarrow> string option \<Rightarrow> evidence_args" where
  "manual_evidence_args a attestation =
     \<lparr>va_body = Some (ia_body a), va_artifact = None, va_role = ''primary'', va_media_type = ia_media_type a,
      va_request = Some [(''method'', JStr ''MANUAL_IMPORT''), (''source_url'', opt_json JStr (ia_source_url a))],
      va_response = Some [(''attestation'', opt_json JStr attestation)], va_source_id = None,
      va_required = True, va_retrieved_at = None, va_retention_until = ia_retention_until a\<rparr>"

fun error_class :: "store_error \<Rightarrow> string" where
  "error_class (OperationalError _) = ''OperationalError''"
| "error_class (RegistryError _) = ''RegistryError''"
| "error_class (MissingRuntimeBindingError _) = ''MissingRuntimeBindingError''"
| "error_class (IntegrityError _) = ''IntegrityError''"
| "error_class (StoreValueError _) = ''ValueError''"
| "error_class (StoreJobError _) = ''ValueError''"

definition fail_run ::
  "evidence_env \<Rightarrow> run_handle \<Rightarrow> (string \<times> json) list \<Rightarrow> instant \<Rightarrow> string \<Rightarrow> (vault, store_error, unit) op" where
  "fail_run E run err now promotion_id =
     on_ledger (on_store (finish_run (ee_env E) run A_FAILED False None err False now promotion_id))"

text \<open>
  The handler around the capture: the run is closed as failed, an \<open>OperationalError\<close> of that
  (a lease that was recovered meanwhile) is dropped, and the first error is raised again.
\<close>

definition capture_manual_evidence ::
  "evidence_env \<Rightarrow> run_handle \<Rightarrow> evidence_args \<Rightarrow> import_ids \<Rightarrow> (vault, store_error, string \<times> stored_artifact) op" where
  "capture_manual_evidence E run va ids v =
     (case persist_evidence E run va (ii_clock ids 3) (ii_evidence ids) v of
        (Inr ev, v') \<Rightarrow> (Inr ev, v')
      | (Inl e, v') \<Rightarrow>
          (case fail_run E run [(''schema_version'', JStr ''error.v1''), (''code'', JStr ''MANUAL_EVIDENCE_REJECTED''),
               (''stage'', JStr ''evidence''), (''retryable'', JBool False),
               (''details'', JObj [(''exception'', JStr (error_class e))])] (ii_clock ids 4) (ii_promotion ids) v' of
             (Inl (OperationalError _), w) \<Rightarrow> (Inl e, w)
           | (Inl e', w) \<Rightarrow> (Inl e', w)
           | (Inr _, w) \<Rightarrow> (Inl e, w)))"

definition observe_submarket ::
  "evidence_env \<Rightarrow> (string \<Rightarrow> string + json) \<Rightarrow> run_handle \<Rightarrow> string \<times> stored_artifact \<Rightarrow> import_ids \<Rightarrow>
   (vault, store_error, unit) op" where
  "observe_submarket E sandbox run ev ids v =
     (case persist_submarket_mapping_observation E sandbox run ev (ii_clock ids 4) (ii_observation ids) v of
        (Inl e, v') \<Rightarrow> (Inl e, v')
      | (Inr (Inr _), v') \<Rightarrow> (Inr (), v')
      | (Inr (Inl e), v') \<Rightarrow>
          bind_op (fail_run E run [(''code'', JStr (mapping_import_error_code e)), (''retryable'', JBool False)]
              (ii_clock ids 5) (ii_promotion ids))
            (\<lambda>_. raise_op (OperationalError (mapping_import_error_code e))) v')"

definition open_review ::
  "definition_descriptor \<Rightarrow> run_handle \<Rightarrow> string \<Rightarrow> string option \<Rightarrow> import_ids \<Rightarrow> string option ledger_op" where
  "open_review d run evidence_id attestation ids =
     (if dd_promotion_policy d = ''manual_review''
      then transaction (
        bind_op (read_op (\<lambda>l. require_running_run run (ii_clock ids 6) (l_store l))) (\<lambda>_.
        bind_op (insert_review \<lparr>rt_review_id = ii_review ids, rt_datasource_id = dd_datasource_id d,
          rt_definition_version = dd_definition_version d, rt_run_id = Some (rh_run_id run),
          rt_task_type = ''manual_evidence_review'', rt_state = R_OPEN,
          rt_payload = JObj [(''evidence_id'', JStr evidence_id), (''attestation'', opt_json JStr attestation)],
          rt_created_at = ii_clock ids 6, rt_completed_at = None\<rparr>) (\<lambda>_.
        return_op (Some (ii_review ids)))))
      else return_op None)"

definition import_manual_evidence ::
  "evidence_env \<Rightarrow> (string \<Rightarrow> string + json) \<Rightarrow> import_args \<Rightarrow> import_ids \<Rightarrow>
   (vault, store_error, manual_evidence_result) op" where
  "import_manual_evidence E sandbox a ids =
     (case import_attestation a of
        Inl e \<Rightarrow> raise_op e
      | Inr attestation \<Rightarrow>
     (case registry_lookup (en_registry (ee_env E)) (ia_datasource_id a) None of
        Inl e \<Rightarrow> raise_op e
      | Inr d \<Rightarrow>
          bind_op (on_ledger (on_store (enqueue (ee_env E) (ii_clock ids 0) (ii_enqueue ids)
            (manual_enqueue_args a d attestation (ii_instance ids))))) (\<lambda>queued.
          bind_op (on_ledger (on_store (claim_job (er_job_id queued) (ia_actor_id a) (ii_clock ids 1) 180
            (ii_audit ids) (ii_token ids)))) (\<lambda>claim.
          case claim of
            None \<Rightarrow> raise_op (OperationalError ''manual evidence job could not be claimed'')
          | Some c \<Rightarrow>
              bind_op (on_ledger (on_store (start_run c (ia_actor_id a) (ii_clock ids 2) (ii_attempt ids) (ii_run ids)))) (\<lambda>run.
              bind_op (capture_manual_evidence E run (manual_evidence_args a attestation) ids) (\<lambda>ev.
              bind_op (if ia_datasource_id a = submarket_datasource
                then observe_submarket E sandbox run ev ids else return_op ()) (\<lambda>_.
              bind_op (on_ledger (open_review d run (fst ev) attestation ids)) (\<lambda>review_id.
              bind_op (on_ledger (on_store (finish_run (ee_env E) run A_SUCCEEDED False None [] False
                (ii_clock ids 7) (ii_promotion ids)))) (\<lambda>_.
              return_op \<lparr>mr_run_id = rh_run_id run, mr_evidence_id = fst ev, mr_review_id = review_id,
                mr_state = ''succeeded''\<rparr>)))))))))"

section \<open>Review decisions\<close>

fun review_state_text :: "review_state \<Rightarrow> string" where
  "review_state_text R_OPEN = ''open''"
| "review_state_text R_APPROVED = ''approved''"
| "review_state_text R_REJECTED = ''rejected''"
| "review_state_text R_CANCELLED = ''cancelled''"

text \<open>The SELECT with its ordering; on an uninitialised database the code returns no row.\<close>

definition review_tasks :: "string option \<Rightarrow> ledger \<Rightarrow> store_error + review_row list" where
  "review_tasks state l =
     (if (case state of None \<Rightarrow> False | Some t \<Rightarrow> t \<notin> {''open'', ''approved'', ''rejected'', ''cancelled''})
      then Inl (OperationalError ''invalid review state'')
      else Inr (sort_key (\<lambda>r. (rt_created_at r, rt_review_id r))
        (filter (\<lambda>r. case state of None \<Rightarrow> True | Some t \<Rightarrow> review_state_text (rt_state r) = t) (l_reviews l))))"

definition update_reviews :: "(review_row \<Rightarrow> bool) \<Rightarrow> (review_row \<Rightarrow> review_row) \<Rightarrow> nat ledger_op" where
  "update_reviews P f l = (Inr (rowcount P (l_reviews l)), l\<lparr>l_reviews := update_where P f (l_reviews l)\<rparr>)"

text \<open>The body of the transaction: a task that is no longer open is left as it is.\<close>

definition record_decision ::
  "string \<Rightarrow> string \<Rightarrow> string \<Rightarrow> string option \<Rightarrow> instant \<Rightarrow> string \<Rightarrow> string \<Rightarrow> bool ledger_op" where
  "record_decision review_id decision actor_id reason now decision_id audit_id l =
     (case lookup_by rt_review_id review_id (l_reviews l) of
        None \<Rightarrow> (Inl (OperationalError ''unknown review task''), l)
      | Some r \<Rightarrow>
          if rt_state r \<noteq> R_OPEN then (Inr False, l)
          else bind_op (update_reviews (\<lambda>x. rt_review_id x = review_id \<and> rt_state x = R_OPEN)
              (\<lambda>x. x\<lparr>rt_state := (if decision = ''approved'' then R_APPROVED else R_REJECTED),
                 rt_completed_at := Some now\<rparr>)) (\<lambda>changed.
            if changed \<noteq> 0
            then bind_op (insert_decision \<lparr>de_decision_id = decision_id, de_review_id = review_id,
                   de_decision = decision, de_actor_id = actor_id, de_reason = reason, de_created_at = now\<rparr>) (\<lambda>_.
                 bind_op (on_store (audit audit_id ''operator'' actor_id ''review_decided'' ''review_task'' review_id
                   (JObj [(''decision'', JStr decision)]) now)) (\<lambda>_. return_op True))
            else return_op False) l)"

definition decide_review ::
  "string \<Rightarrow> string \<Rightarrow> string \<Rightarrow> string option \<Rightarrow> instant \<Rightarrow> string \<Rightarrow> string \<Rightarrow> bool ledger_op" where
  "decide_review review_id decision actor_id reason now decision_id audit_id =
     (if decision \<notin> {''approved'', ''rejected''}
      then raise_op (OperationalError ''review decision must be approved or rejected'')
      else if actor_id = [] then raise_op (OperationalError ''review actor is required'')
      else transaction (record_decision review_id decision actor_id reason now decision_id audit_id))"

section \<open>Promotions\<close>

record manual_promotion_result =
  pr_review_id :: string
  pr_run_id :: string
  pr_promotion_id :: string
  pr_created :: bool

definition approval_decision :: "string \<Rightarrow> ledger \<Rightarrow> decision_row option" where
  "approval_decision review_id l = max_by (\<lambda>d. (de_created_at d, de_decision_id d))
     (filter (\<lambda>d. de_review_id d = review_id \<and> de_decision d = ''approved'') (l_decisions l))"

text \<open>The joined row and the checks on it; the run and attempt are outer joins.\<close>

definition promotable_review ::
  "string \<Rightarrow> ledger \<Rightarrow> store_error + (review_row \<times> string \<times> decision_row)" where
  "promotable_review review_id l =
     (let s = l_store l
      in case lookup_by rt_review_id review_id (l_reviews l) of
           None \<Rightarrow> Inl (OperationalError ''unknown review task'')
         | Some r \<Rightarrow>
        (case lookup_by dr_key (rt_datasource_id r, rt_definition_version r) (s_definitions s) of
           None \<Rightarrow> Inl (OperationalError ''unknown review task'')
         | Some d \<Rightarrow>
             (let run = (case rt_run_id r of None \<Rightarrow> None | Some i \<Rightarrow> lookup_by r_run_id i (s_runs s));
                  attempt = (case run of None \<Rightarrow> None
                    | Some x \<Rightarrow> lookup_by a_attempt_id (r_attempt_id x) (s_attempts s))
              in if rt_state r \<noteq> R_APPROVED
                 then Inl (OperationalError ''review must be approved before promotion'')
                 else if dd_promotion_policy (dr_definition d) \<noteq> ''manual_review''
                 then Inl (OperationalError ''review datasource does not permit manual promotion'')
                 else if dd_status (dr_definition d) \<noteq> ''production''
                 then Inl (OperationalError ''manual promotion requires a production datasource'')
                 else if \<not> truthy (rt_run_id r)
                 then Inl (OperationalError ''review is not attached to an ingestion run'')
                 else if map_option r_lane run \<noteq> Some ''production_ingestion'' \<or>
                    map_option r_status run \<noteq> Some A_SUCCEEDED \<or> map_option a_status attempt \<noteq> Some A_SUCCEEDED
                 then Inl (OperationalError ''manual promotion requires a successful production ingestion run'')
                 else case approval_decision review_id l of
                   None \<Rightarrow> Inl (OperationalError ''approved review has no approval decision'')
                 | Some dec \<Rightarrow>
                     if lookup_by mp_run_id (the (rt_run_id r)) (l_manual_promotions l) \<noteq> None
                     then Inl (OperationalError ''run was already manually promoted by another review'')
                     else if list_ex (\<lambda>p. p_run_id p = the (rt_run_id r) \<and> p_decision p = ''approved'') (s_promotions s)
                     then Inl (OperationalError ''run already has an approved promotion'')
                     else Inr (r, the (rt_run_id r), dec))))"

definition insert_decided_promotion ::
  "string \<Rightarrow> string \<Rightarrow> string \<Rightarrow> string \<Rightarrow> instant \<Rightarrow> string \<Rightarrow> string option \<Rightarrow> json \<Rightarrow> unit store_op" where
  "insert_decided_promotion promotion_id run_id decision mode now actor_id reason details s =
     insert_promotion_row \<lparr>p_promotion_id = promotion_id, p_promotion_seq = next_promotion_seq s,
       p_run_id = run_id, p_decision = decision, p_approval_mode = mode, p_decision_at = now,
       p_actor_type = ''operator'', p_actor_id = actor_id, p_policy_version = ''v1'', p_reason = reason,
       p_details = details\<rparr> s"

definition promote_review ::
  "string \<Rightarrow> string \<Rightarrow> string option \<Rightarrow> instant \<Rightarrow> string \<Rightarrow> string \<Rightarrow> manual_promotion_result ledger_op" where
  "promote_review review_id actor_id reason now promotion_id audit_id =
     (if review_id = [] then raise_op (OperationalError ''review ID is required'')
      else if actor_id = [] then raise_op (OperationalError ''promotion actor is required'')
      else transaction (\<lambda>l.
        case lookup_by mp_review_id review_id (l_manual_promotions l) of
          Some m \<Rightarrow> (Inr \<lparr>pr_review_id = mp_review_id m, pr_run_id = mp_run_id m,
            pr_promotion_id = mp_promotion_id m, pr_created = False\<rparr>, l)
        | None \<Rightarrow>
            bind_op (read_op (promotable_review review_id)) (\<lambda>(r, run_id, dec).
            let details = JObj [(''review_id'', JStr review_id), (''datasource_id'', JStr (rt_datasource_id r)),
                  (''definition_version'', JInt (rt_definition_version r))]
            in bind_op (on_store (insert_decided_promotion promotion_id run_id ''approved'' ''manual'' now actor_id
                 reason details)) (\<lambda>_.
               bind_op (insert_manual_promotion \<lparr>mp_review_id = review_id, mp_decision_id = de_decision_id dec,
                 mp_run_id = run_id, mp_promotion_id = promotion_id, mp_actor_id = actor_id, mp_reason = reason,
                 mp_created_at = now\<rparr>) (\<lambda>_.
               bind_op (on_store (audit audit_id ''operator'' actor_id ''manual_promotion_approved'' ''run_promotion''
                 promotion_id details now)) (\<lambda>_.
               return_op \<lparr>pr_review_id = review_id, pr_run_id = run_id, pr_promotion_id = promotion_id,
                 pr_created = True\<rparr>)))) l))"

definition promotion_order :: "promotion_row \<Rightarrow> instant \<times> int" where
  "promotion_order p = (p_decision_at p, p_promotion_seq p)"

definition current_promotion :: "store \<Rightarrow> string \<Rightarrow> promotion_row option" where
  "current_promotion s run_id = max_by promotion_order (filter (\<lambda>p. p_run_id p = run_id) (s_promotions s))"

record promotion_revocation_result =
  pv_run_id :: string
  pv_promotion_id :: string
  pv_created :: bool

definition revoke_promotion ::
  "string \<Rightarrow> string \<Rightarrow> string option \<Rightarrow> instant \<Rightarrow> string \<Rightarrow> string \<Rightarrow> promotion_revocation_result store_op" where
  "revoke_promotion run_id actor_id reason now promotion_id audit_id =
     (if run_id = [] then raise_op (OperationalError ''run ID is required'')
      else if actor_id = [] then raise_op (OperationalError ''revocation actor is required'')
      else transaction (\<lambda>s.
        case (current_promotion s run_id, lookup_by r_run_id run_id (s_runs s)) of
          (Some p, Some r) \<Rightarrow>
            (case lookup_by a_attempt_id (r_attempt_id r) (s_attempts s) of
               None \<Rightarrow> (Inl (OperationalError ''run has no promotion to revoke''), s)
             | Some a \<Rightarrow>
                 if p_decision p = ''revoked''
                 then (Inr \<lparr>pv_run_id = run_id, pv_promotion_id = p_promotion_id p, pv_created = False\<rparr>, s)
                 else if p_decision p \<noteq> ''approved''
                 then (Inl (OperationalError ''only an approved promotion can be revoked''), s)
                 else if r_lane r \<noteq> ''production_ingestion'' \<or> r_status r \<noteq> A_SUCCEEDED \<or> a_status a \<noteq> A_SUCCEEDED
                 then (Inl (OperationalError ''revocation target must be a successful production run''), s)
                 else (let details = JObj [(''revokes_promotion_id'', JStr (p_promotion_id p)),
                             (''datasource_id'', JStr (r_datasource_id r)),
                             (''definition_version'', JInt (r_definition_version r))]
                       in bind_op (insert_decided_promotion promotion_id run_id ''revoked'' (p_approval_mode p) now
                            actor_id reason details) (\<lambda>_.
                          bind_op (audit audit_id ''operator'' actor_id ''promotion_revoked'' ''run_promotion'' promotion_id
                            details now) (\<lambda>_.
                          return_op \<lparr>pv_run_id = run_id, pv_promotion_id = promotion_id, pv_created = True\<rparr>)) s))
        | _ \<Rightarrow> (Inl (OperationalError ''run has no promotion to revoke''), s)))"

section \<open>What readers see\<close>

definition run_published :: "store \<Rightarrow> string \<Rightarrow> bool" where
  "run_published s run_id =
     (case (lookup_by r_run_id run_id (s_runs s), current_promotion s run_id) of
        (Some r, Some p) \<Rightarrow>
          (case lookup_by a_attempt_id (r_attempt_id r) (s_attempts s) of
             None \<Rightarrow> False
           | Some a \<Rightarrow> r_lane r = ''production_ingestion'' \<and> a_status a = A_SUCCEEDED \<and> p_decision p = ''approved'')
      | _ \<Rightarrow> False)"

definition canonical_events :: "ledger \<Rightarrow> (string \<times> observation_row) list" where
  "canonical_events l =
     concat (map (\<lambda>ro. map (Pair (ro_run_id ro)) (filter
        (\<lambda>x. ob_observation_id x = ro_observation_id ro \<and> ob_lane x = ''production_ingestion'') (l_observations l)))
      (filter (\<lambda>ro. run_published (l_store l) (ro_run_id ro)) (l_run_observations l)))"

end
