(* ===== verification/History.thy ===== *)
theory History
  imports Reviews
begin

text \<open>
  The append-only half of the database. The schema forbids updating or deleting provenance
  (\<open>storage/migrations/0005_append_only_guards.sql\<close>); here every operation of the store is shown to
  extend those tables and never to rewrite them, so an aborted trigger is unreachable. The commands
  of the whole store (job lifecycle, evidence, observations, snapshots, manual imports, reviews,
  promotions) are collected in \<open>vault_command\<close>.
\<close>

section \<open>Operations that move up an order\<close>

locale op_order =
  fixes le :: "'s \<Rightarrow> 's \<Rightarrow> bool"
  assumes le_refl: "le s s" and le_trans: "le s t \<Longrightarrow> le t u \<Longrightarrow> le s u"
begin

lemma return_le: "le s (snd (return_op a s))"
  by (simp add: return_op_def le_refl)

lemma raise_le: "le s (snd (raise_op e s))"
  by (simp add: raise_op_def le_refl)

lemma read_le: "le s (snd (read_op q s))"
  by (simp add: read_op_def le_refl)

lemma guard_le: "le s (snd (guard_op b e s))"
  by (simp add: guard_op_def le_refl)

lemma bind_le:
  assumes "le s (snd (m s))" and "\<And>a s'. le s' (snd (k a s'))"
  shows "le s (snd (bind_op m k s))"
  using assms by (auto simp: bind_op_def split: prod.splits sum.splits) (metis le_trans snd_conv)

lemma each_le:
  assumes "\<And>x s. le s (snd (f x s))"
  shows "le s (snd (each_op f xs s))"
proof (induction xs arbitrary: s)
  case (Cons x xs)
  have 1: "le s (snd (f x s))" by (rule assms)
  then show ?case
    using Cons.IH [of "snd (f x s)"] le_trans by (auto split: prod.splits sum.splits)
qed (simp add: le_refl)

lemma transaction_le: "le s (snd (m s)) \<Longrightarrow> le s (snd (transaction m s))"
  by (auto simp: transaction_def le_refl split: prod.splits sum.splits)

lemmas op_le = return_le raise_le read_le guard_le bind_le each_le transaction_le

end

section \<open>The control-plane tables\<close>

text \<open>
  An order that every single write of the job lifecycle moves up: rows may be appended to the
  registry and audit tables, attempts and schedules may change, jobs and runs keep their identity,
  and jobs may be added for the triggers that \<open>admits\<close> names. Every job command that promotes nothing
  and adds only such jobs then moves up the order; with automatic approvals among the writes, every
  such command does.
\<close>

definition job_identity ::
  "job_row \<Rightarrow> string \<times> string \<times> string option \<times> string option \<times> instant \<times> json" where
  "job_identity r = (j_job_id r, j_trigger r, j_request_instance_id r, j_datasource_id r, j_created_at r, j_request r)"

locale job_order = op_order le for le :: "store \<Rightarrow> store \<Rightarrow> bool" +
  fixes admits :: "string \<Rightarrow> bool"
  assumes le_jobs: "(\<And>j. job_identity (h j) = job_identity j) \<Longrightarrow> le s (s\<lparr>s_jobs := update_where Q h (s_jobs s)\<rparr>)"
    and le_new_job: "admits (j_trigger j) \<Longrightarrow> le s (s\<lparr>s_jobs := s_jobs s @ [j]\<rparr>)"
    and le_same: "le s (s\<lparr>s_attempts := as\<rparr>)" "le s (s\<lparr>s_schedules := ss\<rparr>)"
    and le_registry: "le s (s\<lparr>s_sources := s_sources s @ xs\<rparr>)" "le s (s\<lparr>s_definitions := s_definitions s @ ds\<rparr>)"
      "le s (s\<lparr>s_bindings := s_bindings s @ bs\<rparr>)"
    and le_audit: "le s (s\<lparr>s_audit := s_audit s @ es\<rparr>)"
    and le_new_run: "le s (s\<lparr>s_runs := s_runs s @ [r]\<rparr>)"
    and le_runs: "(\<And>r. r_run_id (f r) = r_run_id r) \<Longrightarrow> le s (s\<lparr>s_runs := update_where P f (s_runs s)\<rparr>)"
begin

lemma update_runs_le:
  "(\<And>r. r_run_id (f r) = r_run_id r) \<Longrightarrow> le s (snd (update_runs P f s))"
  by (simp add: update_runs_def le_runs)

lemma update_jobs_le:
  "(\<And>r. job_identity (f r) = job_identity r) \<Longrightarrow> le s (snd (update_jobs P f s))"
  by (simp add: update_jobs_def le_jobs)

lemma insert_job_le: "admits (j_trigger j) \<Longrightarrow> le s (snd (insert_job j s))"
  by (simp add: insert_job_def le_new_job le_refl)

lemma steps_le:
  "le s (snd (update_attempts Q g s))" "le s (snd (insert_attempt a s))" "le s (snd (insert_run r s))"
  "le s (snd (audit i1 i2 i3 i4 i5 i6 i7 i8 s))"
  by (simp_all add: update_attempts_def insert_attempt_def insert_run_def
      audit_def le_same le_audit le_new_run le_refl)

lemmas step_intros = op_le steps_le update_runs_le update_jobs_le insert_job_le le_refl

lemma sync_le: "le s (snd (sync_registry sha reg now s))"
  unfolding sync_registry_def sync_definition_def
  by (intro step_intros)
    (auto simp: insert_source_def insert_definition_def insert_binding_def insert_schedule_def Let_def
      le_same le_registry le_refl split: option.splits)

lemma enqueue_insert_le: "admits (ea_trigger a) \<Longrightarrow> le s (snd (enqueue_insert env ids a p now s))"
  unfolding enqueue_insert_def Let_def
  by (auto simp: enqueue_row_def split: option.splits intro!: step_intros)

lemma enqueue_le: "admits (ea_trigger a) \<Longrightarrow> le s (snd (enqueue env clock ids a s))"
  unfolding enqueue_def
  by (intro bind_le sync_le) (auto split: sum.splits intro!: step_intros enqueue_insert_le)

lemma recover_le: "le s (snd (recover_expired now aid s))"
proof -
  have "le s (snd (fail_running_attempt now err i s))" for s err i
  proof (cases "running_attempt i s")
    case (Some a)
    let ?s = "s\<lparr>s_attempts := update_where (\<lambda>x. a_attempt_id x = a_attempt_id a \<and> a_status x = A_RUNNING)
      (\<lambda>x. x\<lparr>a_status := A_FAILED, a_completed_at := Some now, a_heartbeat_at := now, a_error := Some err\<rparr>) (s_attempts s)\<rparr>"
    have "le ?s (?s\<lparr>s_runs := update_where (\<lambda>x. r_attempt_id x = a_attempt_id a \<and> r_status x = A_RUNNING)
        (\<lambda>x. x\<lparr>r_status := A_FAILED, r_completed_at := Some now, r_retrieved_at := Some now\<rparr>) (s_runs ?s)\<rparr>)"
      by (rule le_runs) simp
    then show ?thesis using le_trans [OF le_same(1)] by (simp add: fail_running_attempt_def Some)
  qed (simp add: fail_running_attempt_def le_refl)
  then have "le s (snd (recover_row now aid pr s))" for s pr
    unfolding recover_row_def
    by (cases pr) (auto simp: recover_update_def job_identity_def split: prod.splits intro!: step_intros)
  then show ?thesis unfolding recover_expired_def by (intro transaction_le each_le)
qed

lemma claim_le: "le s (snd (claim_with sel w now lease aid token s))"
  unfolding claim_with_def claim_row_def
  by (intro bind_le recover_le) (auto simp: job_identity_def split: sum.splits option.splits intro!: step_intros)

lemma start_attempt_le: "le s (snd (start_attempt m1 m2 m3 i t w now aid s))"
  unfolding start_attempt_def Let_def by (auto simp: job_identity_def split: option.splits intro!: step_intros)

lemma finish_run_with:
  assumes "\<And>d s. promote \<Longrightarrow> le s (snd (promote_finished d run now pid s))"
  shows "le s (snd (finish_run env run st retryable retry_at err promote now pid s))"
  unfolding finish_run_def close_attempt_def Let_def
  by (auto simp: job_identity_def finish_update_def split: sum.splits intro!: step_intros intro: assms)

lemma finish_unpromoted_le: "le s (snd (finish_run env run st retryable retry_at err False now pid s))"
  by (rule finish_run_with) simp

end

text \<open>The trigger of the jobs a command may add.\<close>

fun command_trigger :: "store_command \<Rightarrow> string option" where
  "command_trigger (SEnqueue env clock ids a) = Some (ea_trigger a)"
| "command_trigger (SBackfill env clock ids bid ds ws we lane) = Some ''backfill''"
| "command_trigger (SProjection env i aid dir anchor q trig) = Some trig"
| "command_trigger (SRetry env clock ids rid i) = Some ''manual''"
| "command_trigger _ = None"

locale store_order = job_order le admits for le :: "store \<Rightarrow> store \<Rightarrow> bool" and admits +
  assumes le_automatic: "p_approval_mode p = ''automatic'' \<Longrightarrow> le s (s\<lparr>s_promotions := s_promotions s @ [p]\<rparr>)"
begin

lemma finish_run_le: "le s (snd (finish_run env run st retryable retry_at err promote now pid s))"
  by (rule finish_run_with)
    (simp add: promote_finished_def insert_promotion_def insert_promotion_row_def le_automatic le_refl)

lemma store_exec_le:
  assumes "\<And>t. command_trigger c = Some t \<Longrightarrow> admits t"
  shows "le s (store_exec c s)"
  using assms
proof (cases c)
  case (SProjection env i aid dir anchor q trig)
  then show ?thesis
    using assms
    by (auto simp: enqueue_projection_delivery_def projection_row_def Let_def split: option.splits intro!: step_intros)
next
  case (SStartRun claim w now aid rid)
  then show ?thesis by (auto simp: start_run_def split: option.splits intro!: step_intros start_attempt_le)
next
  case (SRetry env clock ids rid i)
  then show ?thesis using assms by (auto simp: retry_def split: option.splits intro!: step_intros enqueue_le)
next
  case (SFinishSystem h st err now)
  then show ?thesis
    by (auto simp: finish_system_job_def close_attempt_def finish_update_def job_identity_def Let_def
        split: option.splits intro!: step_intros)
next
  case (SHeartbeat run now lease)
  then show ?thesis by (auto simp: heartbeat_def job_identity_def split: sum.splits intro!: step_intros)
next
  case (SBackfill env clock ids bid ds ws we lane)
  then show ?thesis using assms by (auto simp: enqueue_backfill_def intro!: step_intros enqueue_le)
qed (auto simp: claim_next_def claim_job_def start_system_job_def cancel_def job_identity_def
    intro!: step_intros sync_le enqueue_le claim_le start_attempt_le finish_run_le recover_le)

end

definition store_appends :: "store \<Rightarrow> store \<Rightarrow> bool" where
  "store_appends s s' \<longleftrightarrow> prefix (s_sources s) (s_sources s') \<and> prefix (s_definitions s) (s_definitions s') \<and>
     prefix (s_bindings s) (s_bindings s') \<and> prefix (s_promotions s) (s_promotions s') \<and>
     prefix (s_audit s) (s_audit s') \<and> prefix (map r_run_id (s_runs s)) (map r_run_id (s_runs s'))"

lemma map_run_ids:
  "(\<And>r. r_run_id (f r) = r_run_id r) \<Longrightarrow> map r_run_id (update_where P f rs) = map r_run_id rs"
  by (rule update_where_keys)

interpretation so: store_order store_appends "\<lambda>_. True"
  by unfold_locales (auto simp: store_appends_def map_run_ids intro: prefix_order.trans)

text \<open>The job lifecycle adds no promotion but automatic approvals.\<close>

definition only_automatic :: "store \<Rightarrow> store \<Rightarrow> bool" where
  "only_automatic s s' \<longleftrightarrow> (\<forall>p \<in> set (s_promotions s'). p \<in> set (s_promotions s) \<or> p_approval_mode p = ''automatic'')"

interpretation sa: store_order only_automatic "\<lambda>_. True"
  by unfold_locales (auto simp: only_automatic_def)

text \<open>A command that does not promote leaves the promotions alone.\<close>

interpretation sk: job_order "\<lambda>s s'. s_promotions s' = s_promotions s" "\<lambda>_. True"
  by unfold_locales simp_all

lemma promotion_row_appends: "store_appends s (snd (insert_promotion_row p s))"
  by (simp add: insert_promotion_row_def store_appends_def)

lemmas store_append_intros = so.step_intros promotion_row_appends

section \<open>The ledger\<close>

text \<open>
  Two families of commands on the ledger: those that capture data (evidence, observations,
  snapshots) and those that decide about it (reviews, promotions). What the writes of a family keep,
  every command of the family keeps.
\<close>

locale capture_order = op_order le for le :: "ledger \<Rightarrow> ledger \<Rightarrow> bool" +
  assumes le_inserts: "le l (snd (insert_observation o1 l))" "le l (snd (link_observation o2 l))"
      "le l (snd (insert_run_observation o2 l))" "le l (snd (link_evidence o3 l))"
      "le l (snd (insert_observation_evidence o3 l))" "le l (snd (insert_content o4 l))"
      "le l (snd (insert_evidence o5 l))" "le l (snd (insert_run_evidence o6 l))"
    and le_heads: "le l (snd (upsert_head h l))" "le l (snd (update_head i r l))"
    and le_runs: "(\<And>r. r_run_id (f r) = r_run_id r) \<Longrightarrow> le l (snd (on_store (update_runs P f) l))"
begin

lemmas capture_intros = op_le le_inserts le_heads le_runs le_refl

lemma persist_observation_le: "le l (snd (persist_observation env run a now i l))"
proof -
  have w: "le l (snd (write_record run a p sc now i l))" for l p sc
    unfolding write_record_def Let_def by (auto intro!: capture_intros)
  have g: "le l (snd ((\<lambda>l. guard_op (B l) e l) l))" for B :: "ledger \<Rightarrow> bool" and e l
    by (rule guard_le)
  have at: "le l (snd (attach_evidence env run j loc e l))" for l j loc e
    unfolding attach_evidence_def by (auto split: sum.splits intro!: capture_intros)
  have c: "le l (snd ((if n \<noteq> 0 then count_records run 1 else return_op 0) l))" for l and n :: nat
    unfolding count_records_def by (auto intro!: capture_intros)
  show ?thesis
  proof (cases "prepare_observation env run a")
    case (Inr p)
    show ?thesis unfolding persist_observation_def Inr sum.case
      by (intro op_le w g at c le_inserts)
  qed (simp add: persist_observation_def raise_le)
qed

lemma begin_le: "le l (snd (begin_full_snapshot env run sc now l))"
  unfolding begin_full_snapshot_def Let_def by (auto split: sum.splits intro!: capture_intros)

lemma tombstone_le: "le l (snd (tombstone_record env d run sh e now ids hx l))"
  unfolding tombstone_record_def Let_def by (auto intro!: capture_intros)

lemma complete_le: "le l (snd (complete_snapshot run payload n l))"
  unfolding complete_snapshot_def by (intro capture_intros) simp

lemma finalize_le: "le l (snd (finalize_full_snapshot env run pr now ids l))"
  unfolding finalize_full_snapshot_def
  by (auto split: sum.splits prod.splits intro!: capture_intros tombstone_le complete_le)

lemma record_evidence_le: "le l (snd (record_evidence E run a m media art now i l))"
  unfolding record_evidence_def by (intro capture_intros)

lemma persist_evidence_le: "le (v_ledger v) (v_ledger (snd (persist_evidence E run a now i v)))"
proof -
  have "le (v_ledger v) l" if "transaction (record_evidence E run a m media art now i) (v_ledger v) = (res, l)" for m media art res l
    using transaction_le [where m = "record_evidence E run a m media art now i", OF record_evidence_le] that by (metis snd_conv)
  then show ?thesis
    by (auto simp: persist_evidence_def le_refl split: sum.splits prod.splits)
qed

end

locale decision_order = op_order le for le :: "ledger \<Rightarrow> ledger \<Rightarrow> bool" +
  assumes le_inserts: "le l (snd (insert_review o7 l))" "le l (snd (insert_decision o8 l))"
      "le l (snd (insert_manual_promotion o9 l))"
      "le l (snd (update_reviews P (\<lambda>x. x\<lparr>rt_state := a1, rt_completed_at := a2\<rparr>) l))"
    and le_store: "le l (snd (on_store (audit i1 i2 i3 i4 i5 i6 i7 i8) l))"
      "le l (snd (on_store (insert_decided_promotion b1 b2 b3 b4 b5 b6 b7 b8) l))"
begin

lemmas decision_intros = op_le le_inserts le_store le_refl

lemma decide_review_le: "le l (snd (decide_review i dec actor reason now did aid l))"
proof -
  have "le l (snd (record_decision i dec actor reason now did aid l))" for l
    unfolding record_decision_def by (auto split: option.splits intro!: decision_intros)
  then show ?thesis unfolding decide_review_def by (auto intro: raise_le transaction_le)
qed

lemma promote_review_le: "le l (snd (promote_review i actor reason now pid aid l))"
  unfolding promote_review_def Let_def by (auto split: option.splits intro!: decision_intros)

lemma open_review_le: "le l (snd (open_review d run e att ids l))"
  unfolding open_review_def by (auto intro!: decision_intros)

end

definition ledger_appends :: "ledger \<Rightarrow> ledger \<Rightarrow> bool" where
  "ledger_appends l l' \<longleftrightarrow> store_appends (l_store l) (l_store l') \<and> prefix (l_contents l) (l_contents l') \<and>
     prefix (l_evidence l) (l_evidence l') \<and> prefix (l_run_evidence l) (l_run_evidence l') \<and>
     prefix (l_observations l) (l_observations l') \<and> prefix (l_run_observations l) (l_run_observations l') \<and>
     prefix (l_observation_evidence l) (l_observation_evidence l') \<and> prefix (l_decisions l) (l_decisions l') \<and>
     prefix (l_manual_promotions l) (l_manual_promotions l') \<and>
     prefix (map head_key (l_heads l)) (map head_key (l_heads l')) \<and>
     prefix (map rt_review_id (l_reviews l)) (map rt_review_id (l_reviews l'))"

lemma on_store_appends:
  assumes "\<And>s. store_appends s (snd (m s))"
  shows "ledger_appends l (snd (on_store m l))"
  using assms [of "l_store l"] by (auto simp: on_store_def ledger_appends_def split: prod.splits)

lemma map_head_keys:
  "map head_key (update_where P (\<lambda>g. g\<lparr>h_observation_id := a1, h_record_hash := a2, h_revision_no := a3,
     h_revision_action := a4, h_updated_at := a5\<rparr>) hs) = map head_key (hs :: head_row list)"
  by (rule update_where_keys) (simp add: head_key_def)

lemma map_review_ids:
  "map rt_review_id (update_where P (\<lambda>x. x\<lparr>rt_state := a1, rt_completed_at := a2\<rparr>) rs) =
     map rt_review_id (rs :: review_row list)"
  by (rule update_where_keys) simp

interpretation lo: capture_order ledger_appends
proof unfold_locales
  show "ledger_appends l (snd (on_store (update_runs P f) l))" if "\<And>r. r_run_id (f r) = r_run_id r" for f P l
    by (intro on_store_appends so.update_runs_le that)
qed (auto simp: insert_observation_def link_observation_def insert_run_observation_def link_evidence_def
    insert_observation_evidence_def insert_content_def insert_evidence_def insert_run_evidence_def
    upsert_head_def update_head_def map_head_keys ledger_appends_def so.le_refl
    intro: prefix_order.trans so.le_trans)

lemma decided_promotion_appends: "store_appends s (snd (insert_decided_promotion a b c d e f g h s))"
  unfolding insert_decided_promotion_def by (rule promotion_row_appends)

interpretation ld: decision_order ledger_appends
proof unfold_locales
  show "ledger_appends l (snd (on_store (audit i1 i2 i3 i4 i5 i6 i7 i8) l))" for l i1 i2 i3 i4 i5 i6 i7 i8
    by (intro on_store_appends so.steps_le)
  show "ledger_appends l (snd (on_store (insert_decided_promotion b1 b2 b3 b4 b5 b6 b7 b8) l))" for l b1 b2 b3 b4 b5 b6 b7 b8
    by (intro on_store_appends decided_promotion_appends)
qed (auto simp: insert_review_def insert_decision_def insert_manual_promotion_def update_reviews_def map_review_ids
    ledger_appends_def so.le_refl)

lemma revoke_appends: "store_appends s (snd (revoke_promotion i actor reason now pid aid s))"
  unfolding revoke_promotion_def Let_def
  by (auto split: option.splits intro!: store_append_intros decided_promotion_appends)

section \<open>The object store\<close>

definition vault_appends :: "vault \<Rightarrow> vault \<Rightarrow> bool" where
  "vault_appends v v' \<longleftrightarrow> ledger_appends (v_ledger v) (v_ledger v') \<and>
     (\<forall>path f. map_of (v_objects v) path = Some f \<longrightarrow> map_of (v_objects v') path = Some f)"

interpretation vo: op_order vault_appends
  by unfold_locales (auto simp: vault_appends_def intro: lo.le_refl lo.le_trans)

lemma on_ledger_appends:
  assumes "\<And>l. ledger_appends l (snd (m l))"
  shows "vault_appends v (snd (on_ledger m v))"
  using assms [of "v_ledger v"] by (auto simp: on_ledger_def vault_appends_def split: prod.splits)

lemma publish_keeps:
  assumes "publish_evidence E a media objects = (res, objects')" and "map_of objects path = Some f"
  shows "map_of objects' path = Some f"
proof (cases res)
  case (Inl e)
  have "objects' = objects"
    using assms(1) put_stream_Inl Inl by (auto simp: publish_evidence_def put_bytes_def split: option.splits)
  then show ?thesis using assms(2) by simp
next
  case (Inr art)
  then show ?thesis
    using assms put_stream_verified(2)
    by (auto simp: publish_evidence_def put_bytes_def split: option.splits)
qed

lemma persist_evidence_appends: "vault_appends v (snd (persist_evidence E run a now i v))"
proof -
  have "map_of (v_objects (snd (persist_evidence E run a now i v))) path = Some f" if "map_of (v_objects v) path = Some f" for path f
    using publish_keeps [OF _ that] that by (auto simp: persist_evidence_def split: sum.splits prod.splits)
  then show ?thesis using lo.persist_evidence_le by (simp add: vault_appends_def)
qed

end
