(* ===== verification/Provenance.thy ===== *)
theory Provenance
  imports History RecordStreams
begin

text \<open>
  The store as one system. \<open>vault_command\<close> lists the operations that write; the reachable vaults
  satisfy the stream invariant and the provenance invariant: every observation revision is linked to
  a run and to evidence that this run captured. A manual import is a run of these commands.
\<close>

section \<open>Commands\<close>

datatype vault_command =
    VJob store_command
  | VEvidence evidence_env run_handle evidence_args instant string
  | VObserve env run_handle observation_args instant string
  | VBegin env run_handle "(pykey \<times> pyval) list" instant
  | VFinalize env run_handle "(pykey \<times> pyval) list" instant "string \<Rightarrow> string"
  | VOpenReview definition_descriptor run_handle string "string option" import_ids
  | VDecide string string string "string option" instant string string
  | VPromote string string "string option" instant string string
  | VRevoke string string "string option" instant string string

fun vault_exec :: "vault_command \<Rightarrow> vault \<Rightarrow> vault" where
  "vault_exec (VJob c) v = v\<lparr>v_ledger := (v_ledger v)\<lparr>l_store := store_exec c (l_store (v_ledger v))\<rparr>\<rparr>"
| "vault_exec (VEvidence E run a now i) v = snd (persist_evidence E run a now i v)"
| "vault_exec (VObserve env run a now i) v = snd (on_ledger (persist_observation env run a now i) v)"
| "vault_exec (VBegin env run scope now) v = snd (on_ledger (begin_full_snapshot env run scope now) v)"
| "vault_exec (VFinalize env run pr now ids) v = snd (on_ledger (finalize_full_snapshot env run pr now ids) v)"
| "vault_exec (VOpenReview d run e att ids) v = snd (on_ledger (open_review d run e att ids) v)"
| "vault_exec (VDecide i dec actor reason now did aid) v =
     snd (on_ledger (decide_review i dec actor reason now did aid) v)"
| "vault_exec (VPromote i actor reason now pid aid) v = snd (on_ledger (promote_review i actor reason now pid aid) v)"
| "vault_exec (VRevoke i actor reason now pid aid) v =
     snd (on_ledger (on_store (revoke_promotion i actor reason now pid aid)) v)"

text \<open>SHA-256 digests are 64 hexadecimal characters long.\<close>

fun vault_admissible :: "vault_command \<Rightarrow> vault \<Rightarrow> bool" where
  "vault_admissible (VJob c) v = store_admissible c (l_store (v_ledger v))"
| "vault_admissible (VObserve env run a now i) v = (\<forall>x. length (en_sha env x) = 64)"
| "vault_admissible _ v = True"

lemma vault_exec_appends: "vault_appends v (vault_exec c v)"
proof (cases c)
  case (VJob c)
  then show ?thesis using so.store_exec_le by (simp add: vault_appends_def ledger_appends_def)
qed (auto intro!: on_ledger_appends on_store_appends persist_evidence_appends lo.persist_observation_le
    lo.begin_le lo.finalize_le ld.open_review_le ld.decide_review_le ld.promote_review_le revoke_appends)

lemma reaches_appends: "reaches vault_exec ok v cs v' \<Longrightarrow> vault_appends v v'"
proof (induction cs arbitrary: v)
  case (Cons c cs)
  then show ?case using vo.le_trans [OF vault_exec_appends] by auto
qed (simp add: vo.le_refl)

section \<open>The provenance invariant\<close>

definition evidenced :: "ledger \<Rightarrow> string \<Rightarrow> bool" where
  "evidenced l i \<longleftrightarrow> (\<exists>oe \<in> set (l_observation_evidence l). oe_observation_id oe = i)"

definition justified :: "ledger \<Rightarrow> observation_evidence_row \<Rightarrow> bool" where
  "justified l oe \<longleftrightarrow>
     (\<exists>ro \<in> set (l_run_observations l). ro_run_id ro = oe_run_id oe \<and> ro_observation_id ro = oe_observation_id oe) \<and>
     (\<exists>re \<in> set (l_run_evidence l). re_run_id re = oe_run_id oe \<and> re_evidence_id re = oe_evidence_id oe) \<and>
     (\<exists>ev \<in> set (l_evidence l). ev_evidence_id ev = oe_evidence_id oe)"

definition provenance_inv :: "ledger \<Rightarrow> bool" where
  "provenance_inv l \<longleftrightarrow> (\<forall>x \<in> set (l_observations l). evidenced l (ob_observation_id x)) \<and>
     (\<forall>oe \<in> set (l_observation_evidence l). justified l oe)"

lemma ledger_appends_sets:
  assumes "ledger_appends l l'"
  shows "set (l_observation_evidence l) \<subseteq> set (l_observation_evidence l')" "set (l_run_observations l) \<subseteq> set (l_run_observations l')"
    "set (l_run_evidence l) \<subseteq> set (l_run_evidence l')" "set (l_evidence l) \<subseteq> set (l_evidence l')"
    "set (l_observations l) \<subseteq> set (l_observations l')"
  using assms by (simp_all add: ledger_appends_def set_mono_prefix)

lemma provenance_mono:
  assumes "ledger_appends l l'"
  shows "evidenced l i \<Longrightarrow> evidenced l' i" and "justified l oe \<Longrightarrow> justified l' oe"
  using ledger_appends_sets [OF assms] unfolding evidenced_def justified_def by blast+

lemma provenance_inv_step:
  assumes "provenance_inv l" and "ledger_appends l l'"
    and "\<And>x. x \<in> set (l_observations l') \<Longrightarrow> x \<notin> set (l_observations l) \<Longrightarrow> evidenced l' (ob_observation_id x)"
    and "\<And>oe. oe \<in> set (l_observation_evidence l') \<Longrightarrow> oe \<notin> set (l_observation_evidence l) \<Longrightarrow> justified l' oe"
  shows "provenance_inv l'"
  using assms provenance_mono [OF assms(2)] unfolding provenance_inv_def by blast

lemma provenance_inv_frame:
  assumes "provenance_inv l" and "ledger_appends l l'" and "l_observations l' = l_observations l"
    and "l_observation_evidence l' = l_observation_evidence l"
  shows "provenance_inv l'"
  by (rule provenance_inv_step [OF assms(1,2)]) (simp_all add: assms(3,4))

lemma evidence_parents_justified:
  assumes "observation_evidence_parents l oe"
    and "\<exists>re \<in> set (l_run_evidence l). re_run_id re = oe_run_id oe \<and> re_evidence_id re = oe_evidence_id oe"
  shows "justified l oe"
proof -
  obtain ro ev where "lookup_by ro_key (oe_run_id oe, oe_observation_id oe) (l_run_observations l) = Some ro"
      "lookup_by ev_evidence_id (oe_evidence_id oe) (l_evidence l) = Some ev"
    using assms(1) by (auto simp: observation_evidence_parents_def)
  then have "ro \<in> set (l_run_observations l)" "ro_run_id ro = oe_run_id oe" "ro_observation_id ro = oe_observation_id oe"
      "ev \<in> set (l_evidence l)" "ev_evidence_id ev = oe_evidence_id oe"
    by (auto dest!: lookup_by_Some simp: ro_key_def)
  then show ?thesis using assms(2) unfolding justified_def by blast
qed

lemma write_record_observations:
  assumes "write_record run a p sc now obs_id l = (Inr i, l')"
  shows "x \<in> set (l_observations l') \<Longrightarrow> x \<in> set (l_observations l) \<or> ob_observation_id x = i"
  using assms by (cases rule: write_record_cases) (auto simp: revision_row_def Let_def)

lemma persist_observation_provenance:
  assumes "persist_observation env run a now obs_id l = (Inr i, l')" and inv: "provenance_inv l"
    and sha: "\<forall>x. length (en_sha env x) = 64"
  shows "provenance_inv l'"
  using assms(1)
proof (cases rule: persist_observation_cases)
  case (1 p q l1 n l2 m l3 us)
  note tail = persist_observation_tail [OF 1(6-8)]
  obtain rows where rows: "l' = l3\<lparr>l_observation_evidence := l_observation_evidence l3 @ rows\<rparr>"
      "\<forall>r \<in> set rows. oe_run_id r = rh_run_id run \<and> oe_observation_id r = i \<and> oe_evidence_id r \<in> set (oa_evidence a) \<and>
         observation_evidence_parents l3 r"
      and att: "\<forall>e \<in> set (oa_evidence a). attached env run i (oa_locator a) l' e"
    using attach_all_Inr [OF 1(8)] by blast
  have off: "off_streams l1 = off_streams l"
    using 1(5) by (cases rule: write_record_cases) auto
  have re: "l_run_evidence l' = l_run_evidence l" using tail(3) off_streamsD(4) [OF off] by simp
  have oe: "l_observation_evidence l' = l_observation_evidence l @ rows"
  proof -
    have "l_observation_evidence l3 = l_observation_evidence l2"
      using 1(7) by (auto simp: count_records_eq return_op_def split: if_splits)
    also have "\<dots> = l_observation_evidence l1" by (subst link_observation_Inr(2) [OF 1(6)]) simp
    finally show ?thesis using rows(1) off_streamsD(6) [OF off] by simp
  qed
  have "oa_evidence a \<noteq> []"
    using 1(1) by (auto simp: prepare_observation_def split: sum.splits if_splits)
  then obtain e where e: "e \<in> set (oa_evidence a)" by (cases "oa_evidence a") auto
  have ev: "evidenced l' i"
    using att e sha by (fastforce simp: attached_def evidenced_def locator_hash_def oe_key_def locator_row_def)
  show ?thesis
  proof (rule provenance_inv_step [OF inv])
    show "ledger_appends l l'" using lo.persist_observation_le [of l env run a now obs_id] assms(1) by simp
    show "evidenced l' (ob_observation_id x)" if "x \<in> set (l_observations l')" "x \<notin> set (l_observations l)" for x
      using write_record_observations [OF 1(5)] that tail(1) ev by auto
    fix r assume "r \<in> set (l_observation_evidence l')" "r \<notin> set (l_observation_evidence l)"
    then have r: "r \<in> set rows" by (auto simp: oe)
    have "observation_evidence_parents l3 r" using rows(2) r by blast
    then have "observation_evidence_parents l' r" by (simp add: rows(1) observation_evidence_parents_def)
    moreover have "\<exists>x \<in> set (l_run_evidence l). re_run_id x = rh_run_id run \<and> re_evidence_id x = oe_evidence_id r"
      using 1(3) rows(2) r by (auto simp: evidence_bound_def list_all_iff list_ex_iff)
    ultimately show "justified l' r" using rows(2) r re by (intro evidence_parents_justified) auto
  qed
qed

lemma tombstone_provenance:
  assumes step: "tombstone_record env d run sc e now ids hx l = (Inr i, l')" and inv: "provenance_inv l"
    and e: "\<exists>re \<in> set (l_run_evidence l). re_run_id re = rh_run_id run \<and> re_evidence_id re = e"
  shows "provenance_inv l' \<and> l_run_evidence l' = l_run_evidence l"
proof -
  let ?r = "tombstone_row env d run sc now (ids (h_record_key_hash (fst hx))) hx"
  let ?loc = "JObj [(''evidence_id'', JStr e), (''role'', JStr ''snapshot_tombstone'')]"
  let ?oe = "locator_row env run i e ?loc"
  have i: "i = ids (h_record_key_hash (fst hx))" "ob_observation_id ?r = i"
    using step by (auto simp: tombstone_record_def Let_def bind_op_Inr return_op_def tombstone_row_def split: prod.splits)
  obtain l1 l2 l3 where 1: "insert_observation ?r l = (Inr (), l1)" and 2: "update_head (h_observation_id (fst hx)) ?r l1 = (Inr (), l2)"
      and 3: "insert_run_observation (run_link run i) l2 = (Inr (), l3)"
      and 4: "insert_observation_evidence ?oe l3 = (Inr (), l')"
    using step i(1) by (auto simp: tombstone_record_def Let_def bind_op_Inr return_op_def run_link_def locator_row_def)
  have l1: "l1 = l\<lparr>l_observations := l_observations l @ [?r]\<rparr>" using 1 by (simp add: insert_observation_Inr)
  have l2: "l_observations l2 = l_observations l1" "off_streams l2 = off_streams l1"
    using 2 by (auto simp: update_head_def off_streams_def)
  have l3: "l3 = l2\<lparr>l_run_observations := l_run_observations l2 @ [run_link run i]\<rparr>"
    using 3 by (auto simp: insert_run_observation_def split: if_splits)
  have l4: "l' = l3\<lparr>l_observation_evidence := l_observation_evidence l3 @ [?oe]\<rparr>" "observation_evidence_parents l3 ?oe"
    using 4 by (auto simp: insert_observation_evidence_def split: if_splits)
  have off: "l_observation_evidence l2 = l_observation_evidence l" "l_run_evidence l2 = l_run_evidence l"
    using off_streamsD(4,6) [OF l2(2)] l1 by simp_all
  have ev: "l_run_evidence l' = l_run_evidence l" using off(2) by (simp add: l4(1) l3)
  have "provenance_inv l'"
  proof (rule provenance_inv_step [OF inv])
    show "ledger_appends l l'" using lo.tombstone_le [of l env d run sc e now ids hx] step by simp
    show "evidenced l' (ob_observation_id x)" if "x \<in> set (l_observations l')" "x \<notin> set (l_observations l)" for x
      using that i(2) by (auto simp: l4(1) l3 l2(1) l1 evidenced_def locator_row_def)
    show "justified l' r" if "r \<in> set (l_observation_evidence l')" "r \<notin> set (l_observation_evidence l)" for r
    proof -
      have r: "r = ?oe" using that by (auto simp: l4(1) l3 off(1))
      have "observation_evidence_parents l' ?oe" using l4 by (simp add: observation_evidence_parents_def)
      then show ?thesis unfolding r by (rule evidence_parents_justified) (use e ev in \<open>simp add: locator_row_def\<close>)
    qed
  qed
  then show ?thesis using ev by blast
qed

lemma finalize_provenance:
  assumes "finalize_full_snapshot env run pr now ids l = (Inr ts, l')" and inv: "provenance_inv l"
  shows "provenance_inv l'"
  using assms(1)
proof (cases rule: finalize_cases)
  case (1 d r sc e l1 payload)
  have e: "\<exists>re \<in> set (l_run_evidence l). re_run_id re = rh_run_id run \<and> re_evidence_id re = e"
  proof -
    have "required_evidence run l = Some e"
      using 1(4) by (auto simp: finalize_checks_def split: sum.splits option.splits if_splits)
    then obtain re where "min_by re_evidence_id (filter (\<lambda>r. re_run_id r = rh_run_id run \<and> re_required r) (l_run_evidence l)) = Some re"
        "re_evidence_id re = e"
      by (auto simp: required_evidence_def)
    then show ?thesis using min_by_Some [of re_evidence_id] by fastforce
  qed
  have "provenance_inv l1"
    if "each_op (tombstone_record env d run sc e now ids) hxs k = (Inr us, l1)" "provenance_inv k"
      "\<exists>re \<in> set (l_run_evidence k). re_run_id re = rh_run_id run \<and> re_evidence_id re = e" for hxs k us
    using that
  proof (induction hxs arbitrary: k us)
    case (Cons hx hxs)
    then obtain i k1 js where k: "tombstone_record env d run sc e now ids hx k = (Inr i, k1)"
        "each_op (tombstone_record env d run sc e now ids) hxs k1 = (Inr js, l1)"
      by (auto split: prod.splits sum.splits)
    note t = tombstone_provenance [OF k(1) Cons.prems(2,3)]
    show ?case by (rule Cons.IH [OF k(2)]) (use t Cons.prems(3) in simp_all)
  qed simp
  note inv1 = this [OF 1(5) inv e]
  show ?thesis
    using lo.complete_le [of l1 run payload "int (length ts)"]
    by (intro provenance_inv_frame [OF inv1])
      (simp_all add: 1(7) complete_snapshot_def on_store_def update_runs_def)
qed

section \<open>What each command leaves alone\<close>

text \<open>
  The job tables, the tables of the record streams, and the tables of the review process. Captures
  leave the job and review tables alone, decisions the job and stream tables.
\<close>

definition job_tables :: "store \<Rightarrow> job_row list \<times> attempt_row list" where
  "job_tables s = (s_jobs s, s_attempts s)"

definition jobs_part :: "ledger \<Rightarrow> job_row list \<times> attempt_row list" where
  "jobs_part l = job_tables (l_store l)"

definition streams_part :: "ledger \<Rightarrow> observation_row list \<times> head_row list \<times> observation_evidence_row list" where
  "streams_part l = (l_observations l, l_heads l, l_observation_evidence l)"

definition review_part :: "ledger \<Rightarrow> review_row list \<times> decision_row list \<times> manual_promotion_row list \<times> promotion_row list" where
  "review_part l = (l_reviews l, l_decisions l, l_manual_promotions l, s_promotions (l_store l))"

interpretation js: op_order "\<lambda>s s'. job_tables s' = job_tables s"
  by unfold_locales simp_all

lemma store_steps_jobs:
  "job_tables (snd (update_runs P f s)) = job_tables s" "job_tables (snd (audit i1 i2 i3 i4 i5 i6 i7 i8 s)) = job_tables s"
  "job_tables (snd (insert_decided_promotion a b c d e g h i s)) = job_tables s"
  by (simp_all add: update_runs_def audit_def insert_decided_promotion_def insert_promotion_row_def job_tables_def)

lemma on_store_jobs: "job_tables (snd (m (l_store l))) = job_tables (l_store l) \<Longrightarrow> jobs_part (snd (on_store m l)) = jobs_part l"
  by (auto simp: on_store_def jobs_part_def split: prod.splits)

lemma on_store_streams: "streams_part (snd (on_store m l)) = streams_part l"
  by (simp add: on_store_def streams_part_def split: prod.splits)

lemmas capture_steps = insert_observation_def link_observation_def insert_run_observation_def link_evidence_def
  insert_observation_evidence_def insert_content_def insert_evidence_def insert_run_evidence_def upsert_head_def
  update_head_def

lemmas decision_steps = insert_review_def insert_decision_def insert_manual_promotion_def update_reviews_def

interpretation cj: capture_order "\<lambda>l l'. jobs_part l' = jobs_part l"
  by unfold_locales (simp_all add: on_store_jobs store_steps_jobs, simp_all add: capture_steps jobs_part_def)

interpretation cr: capture_order "\<lambda>l l'. review_part l' = review_part l"
  by unfold_locales (simp_all add: capture_steps review_part_def on_store_def update_runs_def)

interpretation dj: decision_order "\<lambda>l l'. jobs_part l' = jobs_part l"
  by unfold_locales (simp_all add: on_store_jobs store_steps_jobs, simp_all add: decision_steps jobs_part_def)

interpretation ds: decision_order "\<lambda>l l'. streams_part l' = streams_part l"
  by unfold_locales (simp_all add: on_store_streams, simp_all add: decision_steps streams_part_def)

lemma revoke_jobs: "job_tables (snd (revoke_promotion i actor reason now pid aid s)) = job_tables s"
  unfolding revoke_promotion_def Let_def
  by (auto split: option.splits intro!: js.op_le store_steps_jobs)

lemma begin_streams: "streams_part (snd (begin_full_snapshot env run sc now l)) = streams_part l"
  unfolding begin_full_snapshot_def Let_def
  by (auto split: sum.splits intro!: ds.op_le on_store_streams)

lemma persist_evidence_streams: "streams_part (v_ledger (snd (persist_evidence E run a now i v))) = streams_part (v_ledger v)"
proof -
  have 1: "streams_part (snd (record_evidence E run a m media art now i l)) = streams_part l" for m media art l
    unfolding record_evidence_def
    by (intro ds.op_le on_store_streams) (simp_all add: capture_steps streams_part_def)
  have "streams_part l = streams_part (v_ledger v)"
    if "transaction (record_evidence E run a m media art now i) (v_ledger v) = (res, l)" for m media art res l
    using ds.transaction_le [where m = "record_evidence E run a m media art now i", OF 1] that by (metis snd_conv)
  then show ?thesis by (auto simp: persist_evidence_def split: sum.splits prod.splits)
qed

end
