(* ===== verification/LedgerDemo.thy ===== *)
theory LedgerDemo
  imports Reviews JobStoreCorrect
begin

text \<open>
  A small deployment for the witnesses about evidence, observations, snapshots and promotions: the
  running job of \<open>JobStoreCorrect\<close>, for a definition in \<open>full_snapshot\<close> mode, captures one item of
  evidence, declares its scope, records one observation and succeeds with a promotion.
\<close>

definition trial_definition :: definition_descriptor where
  "trial_definition = sample_definition\<lparr>dd_snapshot_mode := ''full_snapshot''\<rparr>"

definition trial_env :: env where
  "trial_env = \<lparr>en_registry = \<lparr>rg_sources = [sample_source], rg_definitions = [trial_definition]\<rparr>,
     en_urllib = sample_urllib, en_sha = sample_sha\<rparr>"

definition trial_evidence_env :: evidence_env where
  "trial_evidence_env = \<lparr>ee_env = trial_env,
     ee_ip = \<lparr>ip_text = (\<lambda>_. None), ip_is_global = (\<lambda>_. False), ip_is_multicast = (\<lambda>_. False)\<rparr>,
     ee_zip = (\<lambda>_. None)\<rparr>"

definition trial_evidence :: evidence_args where
  "trial_evidence = \<lparr>va_body = Some ''hi'', va_artifact = None, va_role = ''primary'', va_media_type = None,
     va_request = Some [(''method'', JStr ''MANUAL_IMPORT'')], va_response = None, va_source_id = None,
     va_required = True, va_retrieved_at = None, va_retention_until = Some 1000\<rparr>"

definition trial_observation :: observation_args where
  "trial_observation = \<lparr>oa_record_key = [''k''], oa_payload = [(KStr ''value'', PInt 5)], oa_record_type = ''rate'',
     oa_category = ''rates'', oa_evidence = [''evidence_1''], oa_source_date = None, oa_period_label = None,
     oa_unit = None, oa_definition_text = None, oa_limitations = [], oa_locator = None, oa_reason = ''ingest''\<rparr>"

definition trial_vault :: vault where
  "trial_vault = \<lparr>v_ledger = empty_ledger\<lparr>l_store := running_store\<rparr>, v_objects = []\<rparr>"

definition evidence_vault :: vault where
  "evidence_vault = snd (persist_evidence trial_evidence_env sample_run trial_evidence 21 ''evidence_1'' trial_vault)"

definition scoped_ledger :: ledger where
  "scoped_ledger = snd (begin_full_snapshot trial_env sample_run [] 22 (v_ledger evidence_vault))"

definition observed_ledger :: ledger where
  "observed_ledger = snd (persist_observation trial_env sample_run trial_observation 23 ''observation_1'' scoped_ledger)"

lemma trial_registry:
  "registry_lookup (en_registry trial_env) ''boe.rate'' (Some 1) = Inr trial_definition"
  "lookup_source (en_registry trial_env) ''boe'' (Some 1) = Inr sample_source"
  by (simp_all add: trial_env_def trial_definition_def registry_lookup_def lookup_source_def sample_simps
      dd_key_def sr_key_def)


lemma trial_evidence_metadata:
  "prepare_evidence_metadata trial_evidence_env sample_run trial_evidence 21 = Inr
     \<lparr>em_definition = trial_definition, em_binding = \<lparr>sb_source_id = ''boe'', sb_source_version = 1, sb_role = ''primary'',
        sb_required = True\<rparr>, em_retrieved = 21, em_retention = Some 1000\<rparr>"
  by (simp add: prepare_evidence_metadata_def trial_registry sample_run_def trial_evidence_env_def trial_evidence_def
      trial_definition_def sample_definition_def validate_evidence_provenance_def dict_or_empty_def dict_get_def
      retention_deadline_def)

lemmas start_eval = running_store_def start_run_def start_attempt_def owned_def sample_claimed_def
  bind_op_def transaction_def update_jobs_def insert_attempt_def insert_run_def return_op_def Let_def
  rowcount_def update_where_def claimed_store_fields queued_store_fields enqueue_row_def enqueue_defaults_def
  seconds_def definition_exists_def queued_definitions dr_key_def dd_key_def lanes_def max_attempts_def sample_simps

lemma running_tables: "s_sources running_store = s_sources claimed_store" "s_audit running_store = s_audit claimed_store"
  by (simp_all add: start_eval)

lemma running_sources: "map so_source (s_sources running_store) = [sample_source]"
proof -
  have "map so_source (s_sources queued_store) = [sample_source]"
    by (simp add: queued_store_def enqueue_eval sample_simps)
  moreover have "s_sources claimed_store = s_sources queued_store"
    by (simp add: claimed_store_def claim_eval queued_store_fields enqueue_row_def enqueue_defaults_def sample_simps)
  ultimately show ?thesis by (simp add: running_tables(1))
qed

lemma running_runs: "s_runs running_store = [\<lparr>r_run_id = ''run_1'', r_attempt_id = ''attempt_1'', r_job_id = ''job_1'',
   r_datasource_id = ''boe.rate'', r_definition_version = 1, r_definition_hash = replicate 64 (CHR ''0''),
   r_lane = ''production_ingestion'', r_trigger = ''manual'', r_retrieved_at = None, r_record_count = 0,
   r_accepted_record_count = 0, r_rejected_record_count = 0, r_snapshot_complete = False, r_snapshot_scope = None,
   r_snapshot_scope_hash = None, r_status = A_RUNNING, r_created_at = 20, r_completed_at = None\<rparr>]"
  by (simp add: start_eval)

lemma trial_running:
  "now < 60000000 \<Longrightarrow> \<exists>q. require_running_run sample_run now running_store = Inr q"
  by (simp add: require_running_run_def owned_def sample_run_def running_eval queued_definitions dr_key_def dd_key_def
      seconds_def)

lemma trial_media: "validate_artifact_bytes (\<lambda>_. None) ''hi'' None default_artifact_policy = None"
  by (simp add: validate_artifact_bytes_def validate_artifact_size_def default_artifact_policy_def validate_media_type_def
      normalized_media_def media_base_def strip_def rstrip_def lower_def zip_magic_def zip_media_types_def)

lemma trial_body:
  "validate_evidence_body trial_evidence_env trial_definition trial_evidence [] = Inr None"
proof -
  have "artifact_policy_for trial_definition = Inr default_artifact_policy"
    by (simp add: artifact_policy_for_def trial_definition_def sample_definition_def media_items_def bound_of_def
        default_artifact_policy_def artifact_policy_post_init_def)
  then show ?thesis
    by (simp add: validate_evidence_body_def trial_evidence_def trial_evidence_env_def trial_media)
qed

definition trial_artifact :: stored_artifact where
  "trial_artifact = \<lparr>sa_content_sha256 = replicate 64 (CHR ''0''), sa_byte_size = 2, sa_media_type = None, sa_created = True\<rparr>"

lemma trial_path: "object_path (replicate 64 (CHR ''0'')) = Inr (''00'', replicate 64 (CHR ''0''))"
  by (simp add: object_path_def validate_digest_def hex64_def list_all_iff numeral_2_eq_2)

lemma trial_publish:
  "publish_evidence trial_evidence_env trial_evidence None [] =
     (Inr trial_artifact, [((''00'', replicate 64 (CHR ''0'')), RegularFile ''hi'')])"
  by (simp add: publish_evidence_def trial_evidence_def trial_evidence_env_def trial_env_def put_bytes_def put_stream_def
      read_chunks.simps sample_sha_def trial_path trial_artifact_def Let_def)


definition trial_evidence_row :: evidence_row where
  "trial_evidence_row = \<lparr>ev_evidence_id = ''evidence_1'', ev_content_sha256 = replicate 64 (CHR ''0''),
     ev_media_type = None, ev_access_class = ''open'', ev_retention_until = Some 1000, ev_retrieved_at = 21,
     ev_request = JObj [(''method'', JStr ''MANUAL_IMPORT'')], ev_response = JObj [], ev_source_id = ''boe'',
     ev_source_version = 1, ev_created_at = 21\<rparr>"

lemma method_key: "lower ''method'' = ''method''" "\<not> sensitive_key ''method''"
proof -
  show low: "lower ''method'' = ''method''"
    by (simp add: lower_def lower_char_def char_of_def bit_0)
  show "\<not> sensitive_key ''method''"
    unfolding sensitive_key_def low by code_simp
qed

lemma trial_redacted:
  "redacted_json trial_evidence_env (va_request trial_evidence) = Inr (JObj [(''method'', JStr ''MANUAL_IMPORT'')])"
  "redacted_json trial_evidence_env (va_response trial_evidence) = Inr (JObj [])"
  by (simp_all add: redacted_json_def trial_evidence_def dict_or_empty_def method_key url_keys_def)

lemma trial_persist_evidence:
  "persist_evidence trial_evidence_env sample_run trial_evidence 21 ''evidence_1'' trial_vault =
     (Inr (''evidence_1'', trial_artifact), evidence_vault)"
  and evidence_vault_fields:
  "l_store (v_ledger evidence_vault) = running_store" "l_evidence (v_ledger evidence_vault) = [trial_evidence_row]"
  "l_run_evidence (v_ledger evidence_vault) = [\<lparr>re_run_id = ''run_1'', re_evidence_id = ''evidence_1'',
     re_role = ''primary'', re_required = True\<rparr>]"
  "l_observations (v_ledger evidence_vault) = []" "l_heads (v_ledger evidence_vault) = []"
  "l_run_observations (v_ledger evidence_vault) = []" "l_observation_evidence (v_ledger evidence_vault) = []"
  "v_objects evidence_vault = [((''00'', replicate 64 (CHR ''0'')), RegularFile ''hi'')]"
proof -
  obtain q where q: "require_running_run sample_run 21 running_store = Inr q" using trial_running [of 21] by auto
  obtain so where so: "s_sources running_store = [so]" "so_source so = sample_source"
    using running_sources by (cases "s_sources running_store") auto
  note eval = persist_evidence_def trial_vault_def trial_evidence_metadata trial_body q trial_publish record_evidence_def
    transaction_def bind_op_def read_op_def insert_content_def insert_evidence_def insert_run_evidence_def trial_redacted
  have one: "va_body trial_evidence \<noteq> None" "va_artifact trial_evidence = None" "va_role trial_evidence = ''primary''"
    "va_required trial_evidence" "dd_access_class trial_definition = ''open''" "rh_run_id sample_run = ''run_1''"
    by (simp_all add: trial_evidence_def trial_definition_def sample_definition_simps sample_run_def)
  have run: "persist_evidence trial_evidence_env sample_run trial_evidence 21 ''evidence_1'' trial_vault =
     (Inr (''evidence_1'', trial_artifact), \<lparr>v_ledger = empty_ledger\<lparr>l_store := running_store,
        l_contents := [\<lparr>co_content_sha256 = replicate 64 (CHR ''0''), co_byte_size = 2,
          co_artifact_uri = artifact_uri trial_artifact, co_created_at = 21, co_verified_at = 21\<rparr>],
        l_evidence := [trial_evidence_row], l_run_evidence := [\<lparr>re_run_id = ''run_1'', re_evidence_id = ''evidence_1'',
          re_role = ''primary'', re_required = True\<rparr>]\<rparr>,
        v_objects = [((''00'', replicate 64 (CHR ''0'')), RegularFile ''hi'')]\<rparr>)"
    by (simp add: eval one empty_ledger_def so so_key_def running_runs access_classes_def trial_artifact_def
        sample_source_simps sr_key_def trial_evidence_row_def)
  then show "persist_evidence trial_evidence_env sample_run trial_evidence 21 ''evidence_1'' trial_vault =
     (Inr (''evidence_1'', trial_artifact), evidence_vault)" by (simp add: evidence_vault_def)
  show "l_store (v_ledger evidence_vault) = running_store" "l_evidence (v_ledger evidence_vault) = [trial_evidence_row]"
    "l_run_evidence (v_ledger evidence_vault) = [\<lparr>re_run_id = ''run_1'', re_evidence_id = ''evidence_1'',
      re_role = ''primary'', re_required = True\<rparr>]"
    "l_observations (v_ledger evidence_vault) = []" "l_heads (v_ledger evidence_vault) = []"
    "l_run_observations (v_ledger evidence_vault) = []" "l_observation_evidence (v_ledger evidence_vault) = []"
    "v_objects evidence_vault = [((''00'', replicate 64 (CHR ''0'')), RegularFile ''hi'')]"
    by (simp_all add: evidence_vault_def run empty_ledger_def)
qed


text \<open>The declared scope, an observation in it, and the promotion of the run.\<close>

definition zeros :: string where
  "zeros = replicate 64 (CHR ''0'')"

lemma zeros_simps: "length zeros = 64" "zeros \<noteq> []" "request_hash (en_sha trial_env) j = zeros"
    "observation_hash (en_sha trial_env) e = zeros" "locator_hash (en_sha trial_env) j = zeros" "en_sha trial_env x = zeros"
  by (simp_all add: zeros_def trial_env_def sample_registry_simps observation_hash_def locator_hash_def sample_sha_def)

lemma run_handle_fields: "rh_run_id sample_run = ''run_1''" "rh_datasource_id sample_run = ''boe.rate''"
    "rh_definition_version sample_run = 1" "rh_lane sample_run = ''production_ingestion''"
    "rh_attempt_id sample_run = ''attempt_1''" "rh_job_id sample_run = ''job_1''"
  by (simp_all add: sample_run_def)

lemma trial_modes: "dd_snapshot_mode trial_definition = ''full_snapshot''" "dd_record_key_version trial_definition = ''v1''"
  by (simp_all add: trial_definition_def sample_definition_def)

lemma trial_begin:
  "begin_full_snapshot trial_env sample_run [] 22 (v_ledger evidence_vault) = (Inr zeros, scoped_ledger)"
  and scoped_ledger_eq: "scoped_ledger = (v_ledger evidence_vault)\<lparr>l_store := running_store\<lparr>s_runs :=
     map (\<lambda>r. r\<lparr>r_snapshot_scope := Some (JObj [(''scope'', JObj [])]), r_snapshot_scope_hash := Some zeros\<rparr>)
       (s_runs running_store)\<rparr>\<rparr>"
proof -
  obtain q where q: "require_running_run sample_run 22 running_store = Inr q" using trial_running [of 22] by auto
  have "begin_full_snapshot trial_env sample_run [] 22 (v_ledger evidence_vault) = (Inr zeros,
      (v_ledger evidence_vault)\<lparr>l_store := running_store\<lparr>s_runs :=
     map (\<lambda>r. r\<lparr>r_snapshot_scope := Some (JObj [(''scope'', JObj [])]), r_snapshot_scope_hash := Some zeros\<rparr>)
       (s_runs running_store)\<rparr>\<rparr>)"
    by (simp add: begin_full_snapshot_def run_handle_fields trial_registry trial_modes json_of_def zeros_simps
        transaction_def bind_op_def read_op_def evidence_vault_fields q on_store_def update_runs_def running_runs
        rowcount_def update_where_def return_op_def)
  then show "begin_full_snapshot trial_env sample_run [] 22 (v_ledger evidence_vault) = (Inr zeros, scoped_ledger)"
    "scoped_ledger = (v_ledger evidence_vault)\<lparr>l_store := running_store\<lparr>s_runs :=
     map (\<lambda>r. r\<lparr>r_snapshot_scope := Some (JObj [(''scope'', JObj [])]), r_snapshot_scope_hash := Some zeros\<rparr>)
       (s_runs running_store)\<rparr>\<rparr>"
    by (simp_all add: scoped_ledger_def)
qed

lemma trial_running_frame:
  "require_running_run sample_run now (running_store\<lparr>s_runs := rs\<rparr>) = require_running_run sample_run now running_store"
  by (simp add: require_running_run_def split: option.splits)

definition trial_prepared :: prepared_observation where
  "trial_prepared = \<lparr>po_definition = trial_definition, po_key_hash = zeros, po_record_hash = zeros,
     po_payload = JObj [(''value'', JInt 5)]\<rparr>"

definition trial_row :: observation_row where
  "trial_row = revision_row sample_run trial_observation trial_prepared (Some zeros) None 23 ''observation_1''"

lemma trial_strings: "normalize_string ''value'' = ''value''" "normalize_string ''evidence_id'' = ''evidence_id''"
    "normalize_string ''role'' = ''role''" "normalize_string ''primary'' = ''primary''"
    "normalize_string ''evidence_1'' = ''evidence_1''"
  by code_simp+

lemma trial_locator: "evidence_locator ''evidence_1'' None = Inr (JObj [(''evidence_id'', JStr ''evidence_1''), (''role'', JStr ''primary'')])"
  by (simp add: evidence_locator_def json_of_def trial_strings)

lemma trial_prepare: "prepare_observation trial_env sample_run trial_observation = Inr trial_prepared"
  by (simp add: prepare_observation_def run_handle_fields trial_registry trial_observation_def record_key_hash_def
      trial_modes zeros_simps json_of_def trial_prepared_def
      trial_strings)

lemma trial_observe:
  "persist_observation trial_env sample_run trial_observation 23 ''observation_1'' scoped_ledger =
     (Inr ''observation_1'', observed_ledger)"
  and observed_ledger_fields:
  "l_observations observed_ledger = [trial_row]" "l_heads observed_ledger = [head_of trial_row]"
  "l_run_observations observed_ledger = [\<lparr>ro_run_id = ''run_1'', ro_observation_id = ''observation_1''\<rparr>]"
  "l_run_evidence observed_ledger = l_run_evidence (v_ledger evidence_vault)"
  "l_evidence observed_ledger = [trial_evidence_row]"
  "map oe_observation_id (l_observation_evidence observed_ledger) = [''observation_1'']"
  "l_store observed_ledger = running_store\<lparr>s_runs :=
     map (\<lambda>r. r\<lparr>r_snapshot_scope := Some (JObj [(''scope'', JObj [])]), r_snapshot_scope_hash := Some zeros,
       r_record_count := 1, r_accepted_record_count := 1\<rparr>) (s_runs running_store)\<rparr>"
proof -
  obtain q where q: "require_running_run sample_run 23 running_store = Inr q" using trial_running [of 23] by auto
  let ?oe = "\<lparr>oe_run_id = ''run_1'', oe_observation_id = ''observation_1'', oe_evidence_id = ''evidence_1'',
    oe_locator = JObj [(''evidence_id'', JStr ''evidence_1''), (''role'', JStr ''primary'')], oe_locator_hash = zeros\<rparr>"
  have row: "ob_observation_id trial_row = ''observation_1''" "ob_lane trial_row = ''production_ingestion''"
      "ob_record_key_hash trial_row = zeros" "ob_record_hash trial_row = zeros" "ob_revision_no trial_row = 1"
      "ob_datasource_id trial_row = ''boe.rate''" "ob_definition_version trial_row = 1" "ob_supersedes_id trial_row = None"
    by (simp_all add: trial_row_def revision_row_def Let_def run_handle_fields trial_prepared_def)
  have w: "write_record sample_run trial_observation trial_prepared (Some zeros) 23 ''observation_1'' scoped_ledger =
      (Inr ''observation_1'', scoped_ledger\<lparr>l_observations := [trial_row], l_heads := [head_of trial_row]\<rparr>)"
    by (simp add: write_record_def Let_def scoped_ledger_eq evidence_vault_fields trial_row_def [symmetric] bind_op_def
        insert_observation_def observation_row_ok_def row lanes_def zeros_simps definition_exists_def running_eval
        queued_definitions dr_key_def dd_key_def upsert_head_def head_of_def return_op_def)
  let ?ro = "\<lparr>ro_run_id = ''run_1'', ro_observation_id = ''observation_1''\<rparr>"
  let ?l1 = "scoped_ledger\<lparr>l_observations := [trial_row], l_heads := [head_of trial_row]\<rparr>"
  let ?l2 = "?l1\<lparr>l_run_observations := [?ro]\<rparr>"
  let ?l3 = "?l2\<lparr>l_store := running_store\<lparr>s_runs :=
     map (\<lambda>r. r\<lparr>r_snapshot_scope := Some (JObj [(''scope'', JObj [])]), r_snapshot_scope_hash := Some zeros,
       r_record_count := 1, r_accepted_record_count := 1\<rparr>) (s_runs running_store)\<rparr>\<rparr>"
  have checks: "require_running_run sample_run 23 (l_store scoped_ledger) = Inr q"
      "evidence_bound sample_run [''evidence_1''] scoped_ledger" "run_scope sample_run scoped_ledger = Some zeros"
    by (simp_all add: scoped_ledger_eq q trial_running_frame evidence_bound_def evidence_vault_fields run_handle_fields
        run_scope_def running_runs)
  have link: "link_observation ?ro ?l1 = (Inr 1, ?l2)"
    by (simp add: link_observation_def run_observation_parents_def scoped_ledger_eq evidence_vault_fields running_runs row)
  have count: "count_records sample_run 1 ?l2 = (Inr 1, ?l3)"
    by (simp add: count_records_def on_store_def update_runs_def rowcount_def update_where_def scoped_ledger_eq
        running_runs run_handle_fields)
  have attach: "attach_evidence trial_env sample_run ''observation_1'' None ''evidence_1'' ?l3 =
      (Inr (), ?l3\<lparr>l_observation_evidence := [?oe]\<rparr>)"
    by (simp add: attach_evidence_def trial_locator link_evidence_def observation_evidence_parents_def ro_key_def
        run_handle_fields zeros_simps scoped_ledger_eq evidence_vault_fields trial_evidence_row_def)
  have args: "oa_evidence trial_observation = [''evidence_1'']" "oa_locator trial_observation = None"
    by (simp_all add: trial_observation_def)
  have run: "persist_observation trial_env sample_run trial_observation 23 ''observation_1'' scoped_ledger =
      (Inr ''observation_1'', ?l3\<lparr>l_observation_evidence := [?oe]\<rparr>)"
    by (simp add: persist_observation_def trial_prepare transaction_Inr bind_op_Inr read_op_def guard_op_def checks args
        zeros_simps w link count attach run_handle_fields return_op_def)
  show "persist_observation trial_env sample_run trial_observation 23 ''observation_1'' scoped_ledger =
     (Inr ''observation_1'', observed_ledger)" by (simp add: observed_ledger_def run)
  show
  "l_observations observed_ledger = [trial_row]" "l_heads observed_ledger = [head_of trial_row]"
  "l_run_observations observed_ledger = [\<lparr>ro_run_id = ''run_1'', ro_observation_id = ''observation_1''\<rparr>]"
  "l_run_evidence observed_ledger = l_run_evidence (v_ledger evidence_vault)"
  "l_evidence observed_ledger = [trial_evidence_row]"
  "map oe_observation_id (l_observation_evidence observed_ledger) = [''observation_1'']"
  "l_store observed_ledger = running_store\<lparr>s_runs :=
     map (\<lambda>r. r\<lparr>r_snapshot_scope := Some (JObj [(''scope'', JObj [])]), r_snapshot_scope_hash := Some zeros,
       r_record_count := 1, r_accepted_record_count := 1\<rparr>) (s_runs running_store)\<rparr>"
    unfolding observed_ledger_def run by (simp_all add: scoped_ledger_eq evidence_vault_fields)
qed


definition trial_proof :: "(pykey \<times> pyval) list" where
  "trial_proof = [(KStr ''complete'', PBool True), (KStr ''schema_version'', PStr ''v1''),
     (KStr ''snapshot_scope_hash'', PStr zeros)]"

definition completed_ledger :: ledger where
  "completed_ledger = snd (finalize_full_snapshot trial_env sample_run trial_proof 24 (\<lambda>k. ''tombstone_1'') observed_ledger)"

definition published_ledger :: ledger where
  "published_ledger = snd (on_store (finish_run trial_env sample_run A_SUCCEEDED False None [] True 30 ''promotion_1'')
     completed_ledger)"

lemma trial_proof_json: "\<exists>j. json_of (PDict trial_proof) = Inr j"
proof -
  have "normalize_string zeros = zeros" unfolding zeros_def by code_simp
  moreover have "normalize_string ''complete'' = ''complete''" "normalize_string ''schema_version'' = ''schema_version''"
    "normalize_string ''snapshot_scope_hash'' = ''snapshot_scope_hash''" "normalize_string ''v1'' = ''v1''"
    by code_simp+
  ultimately show ?thesis by (simp add: trial_proof_def json_of_def)
qed

lemma trial_row_fields:
  "ob_observation_id trial_row = ''observation_1''" "ob_lane trial_row = ''production_ingestion''"
  "ob_record_key_hash trial_row = zeros" "ob_record_hash trial_row = zeros" "ob_revision_no trial_row = 1"
  "ob_datasource_id trial_row = ''boe.rate''" "ob_definition_version trial_row = 1" "ob_supersedes_id trial_row = None"
  "ob_revision_action trial_row = Upsert" "ob_snapshot_scope_hash trial_row = Some zeros"
  "ob_record_key_version trial_row = ''v1''"
  by (simp_all add: trial_row_def revision_row_def Let_def run_handle_fields trial_prepared_def trial_modes)

lemma trial_checks:
  assumes "l_store l = l_store observed_ledger" and "l_run_evidence l = l_run_evidence observed_ledger"
  obtains r where "finalize_checks sample_run trial_proof 24 l = Inr (r, zeros, ''evidence_1'')"
    "r_snapshot_scope r = Some (JObj [(''scope'', JObj [])])"
proof -
  obtain q where q: "require_running_run sample_run 24 running_store = Inr q" using trial_running [of 24] by auto
  show thesis
    by (rule that, simp add: finalize_checks_def assms observed_ledger_fields evidence_vault_fields q trial_running_frame running_runs
      run_handle_fields zeros_simps proof_valid_def trial_proof_def py_get_def required_evidence_def, simp)
qed

lemma trial_finalize:
  "finalize_full_snapshot trial_env sample_run trial_proof 24 ids observed_ledger = (Inr [], completed_ledger)"
  and completed_ledger_eq: "\<exists>j. completed_ledger = observed_ledger\<lparr>l_store := running_store\<lparr>s_runs :=
     map (\<lambda>r. r\<lparr>r_snapshot_scope := Some j, r_snapshot_scope_hash := Some zeros, r_snapshot_complete := True,
       r_record_count := 1, r_accepted_record_count := 1\<rparr>) (s_runs running_store)\<rparr>\<rparr>"
proof -
  obtain r where r: "finalize_checks sample_run trial_proof 24 observed_ledger = Inr (r, zeros, ''evidence_1'')"
      "r_snapshot_scope r = Some (JObj [(''scope'', JObj [])])"
    using trial_checks by blast
  obtain j where j: "json_of (PDict trial_proof) = Inr j" using trial_proof_json by blast
  let ?p = "JObj (dict_set [(''scope'', JObj [])] ''completeness_proof'' j)"
  have none: "missing_heads trial_definition sample_run zeros observed_ledger = []"
    by (simp add: missing_heads_def scope_heads_def seen_keys_def observed_ledger_fields trial_row_fields head_of_def
        run_handle_fields trial_modes)
  let ?l = "observed_ledger\<lparr>l_store := running_store\<lparr>s_runs :=
     map (\<lambda>r. r\<lparr>r_snapshot_scope := Some ?p, r_snapshot_scope_hash := Some zeros, r_snapshot_complete := True,
       r_record_count := 1, r_accepted_record_count := 1\<rparr>) (s_runs running_store)\<rparr>\<rparr>"
  have c: "complete_snapshot sample_run ?p 0 observed_ledger = (Inr 1, ?l)"
    by (simp add: complete_snapshot_def on_store_def update_runs_def observed_ledger_fields running_runs rowcount_def
        update_where_def run_handle_fields)
  have nonempty: "trial_proof \<noteq> []" by (simp add: trial_proof_def)
  have run: "finalize_full_snapshot trial_env sample_run trial_proof 24 ids observed_ledger = (Inr [], ?l)" for ids
    using r c none
    by (simp add: finalize_full_snapshot_def run_handle_fields trial_registry trial_modes transaction_Inr bind_op_Inr
        read_op_def scope_payload_def j return_op_def nonempty)
  show "finalize_full_snapshot trial_env sample_run trial_proof 24 ids observed_ledger = (Inr [], completed_ledger)"
    by (simp add: completed_ledger_def run)
  show "\<exists>j. completed_ledger = observed_ledger\<lparr>l_store := running_store\<lparr>s_runs :=
     map (\<lambda>r. r\<lparr>r_snapshot_scope := Some j, r_snapshot_scope_hash := Some zeros, r_snapshot_complete := True,
       r_record_count := 1, r_accepted_record_count := 1\<rparr>) (s_runs running_store)\<rparr>\<rparr>"
    unfolding completed_ledger_def run by auto
qed

lemma trial_publication:
  "\<exists>r a p. s_runs (l_store published_ledger) = [r] \<and> r_run_id r = ''run_1'' \<and> r_attempt_id r = ''attempt_1'' \<and>
     r_lane r = ''production_ingestion'' \<and> r_status r = A_SUCCEEDED \<and>
     s_attempts (l_store published_ledger) = [a] \<and> a_attempt_id a = ''attempt_1'' \<and> a_status a = A_SUCCEEDED \<and>
     s_promotions (l_store published_ledger) = [p] \<and> p_promotion_id p = ''promotion_1'' \<and> p_run_id p = ''run_1'' \<and>
     p_decision p = ''approved'' \<and> p_decision_at p = 30 \<and> p_promotion_seq p = 1"
  "map ae_audit_id (s_audit (l_store published_ledger)) = [''audit_1'']"
  "l_observations published_ledger = [trial_row]"
  "l_run_observations published_ledger = [\<lparr>ro_run_id = ''run_1'', ro_observation_id = ''observation_1''\<rparr>]"
proof -
  obtain j where j: "completed_ledger = observed_ledger\<lparr>l_store := running_store\<lparr>s_runs :=
     map (\<lambda>r. r\<lparr>r_snapshot_scope := Some j, r_snapshot_scope_hash := Some zeros, r_snapshot_complete := True,
       r_record_count := 1, r_accepted_record_count := 1\<rparr>) (s_runs running_store)\<rparr>\<rparr>"
    using completed_ledger_eq by blast
  note eval = published_ledger_def on_store_def j finish_eval trial_env_def trial_definition_def running_runs
    running_eval
  show "\<exists>r a p. s_runs (l_store published_ledger) = [r] \<and> r_run_id r = ''run_1'' \<and> r_attempt_id r = ''attempt_1'' \<and>
     r_lane r = ''production_ingestion'' \<and> r_status r = A_SUCCEEDED \<and>
     s_attempts (l_store published_ledger) = [a] \<and> a_attempt_id a = ''attempt_1'' \<and> a_status a = A_SUCCEEDED \<and>
     s_promotions (l_store published_ledger) = [p] \<and> p_promotion_id p = ''promotion_1'' \<and> p_run_id p = ''run_1'' \<and>
     p_decision p = ''approved'' \<and> p_decision_at p = 30 \<and> p_promotion_seq p = 1"
    by (simp add: eval)
  show "map ae_audit_id (s_audit (l_store published_ledger)) = [''audit_1'']"
    by (simp add: eval running_tables(2) claimed_store_audit)
  show "l_observations published_ledger = [trial_row]"
  "l_run_observations published_ledger = [\<lparr>ro_run_id = ''run_1'', ro_observation_id = ''observation_1''\<rparr>]"
    by (simp_all add: eval observed_ledger_fields)
qed

end
