(* ===== verification/ReviewInv.thy ===== *)
theory ReviewInv
  imports History LedgerDemo
begin

text \<open>
  Reviews and promotions: a review is decided at most once and its state is the decision that was
  recorded; a manual approval of a run always rests on the recorded approval of a review of that run;
  a promotion is made once; a revocation withdraws the run from what readers see, provided the clock
  has not run backwards.
\<close>

section \<open>The review invariant\<close>

definition decisions_of :: "ledger \<Rightarrow> string \<Rightarrow> string list" where
  "decisions_of l i = map de_decision (filter (\<lambda>d. de_review_id d = i) (l_decisions l))"

fun expected_decisions :: "review_state \<Rightarrow> string list" where
  "expected_decisions R_APPROVED = [''approved'']"
| "expected_decisions R_REJECTED = [''rejected'']"
| "expected_decisions _ = []"

definition manually_backed :: "ledger \<Rightarrow> promotion_row \<Rightarrow> bool" where
  "manually_backed l p \<longleftrightarrow> (\<exists>m \<in> set (l_manual_promotions l). \<exists>r \<in> set (l_reviews l). \<exists>d \<in> set (l_decisions l).
     mp_promotion_id m = p_promotion_id p \<and> mp_run_id m = p_run_id p \<and> mp_review_id m = rt_review_id r \<and>
     mp_decision_id m = de_decision_id d \<and> rt_state r = R_APPROVED \<and> rt_run_id r = Some (p_run_id p) \<and>
     de_review_id d = rt_review_id r \<and> de_decision d = ''approved'')"

definition manual_approval :: "promotion_row \<Rightarrow> bool" where
  "manual_approval p \<longleftrightarrow> p_approval_mode p = ''manual'' \<and> p_decision p = ''approved''"

definition review_inv :: "ledger \<Rightarrow> bool" where
  "review_inv l \<longleftrightarrow> distinct (map rt_review_id (l_reviews l)) \<and>
     (\<forall>r \<in> set (l_reviews l). decisions_of l (rt_review_id r) = expected_decisions (rt_state r)) \<and>
     (\<forall>d \<in> set (l_decisions l). de_review_id d \<in> rt_review_id ` set (l_reviews l)) \<and>
     (\<forall>p \<in> set (s_promotions (l_store l)). manual_approval p \<longrightarrow> manually_backed l p)"

lemma review_inv_empty: "review_inv empty_ledger"
  by (simp add: review_inv_def empty_ledger_def empty_store_def)

lemma review_invI:
  assumes "distinct (map rt_review_id (l_reviews l))"
    and "\<And>r. r \<in> set (l_reviews l) \<Longrightarrow> decisions_of l (rt_review_id r) = expected_decisions (rt_state r)"
    and "\<And>d. d \<in> set (l_decisions l) \<Longrightarrow> de_review_id d \<in> rt_review_id ` set (l_reviews l)"
    and "\<And>p. p \<in> set (s_promotions (l_store l)) \<Longrightarrow> manual_approval p \<Longrightarrow> manually_backed l p"
  shows "review_inv l"
  using assms by (simp add: review_inv_def)

lemma review_invD:
  assumes "review_inv l"
  shows "distinct (map rt_review_id (l_reviews l))"
    and "\<And>r. r \<in> set (l_reviews l) \<Longrightarrow> decisions_of l (rt_review_id r) = expected_decisions (rt_state r)"
    and "\<And>d. d \<in> set (l_decisions l) \<Longrightarrow> de_review_id d \<in> rt_review_id ` set (l_reviews l)"
    and "\<And>p. p \<in> set (s_promotions (l_store l)) \<Longrightarrow> manual_approval p \<Longrightarrow> manually_backed l p"
  using assms by (simp_all add: review_inv_def)

text \<open>A command that only adds promotions which are no manual approvals keeps the invariant.\<close>

lemma review_inv_promotions:
  assumes "review_inv l" and "l_reviews l' = l_reviews l" and "l_decisions l' = l_decisions l"
    and "l_manual_promotions l' = l_manual_promotions l"
    and "\<And>p. p \<in> set (s_promotions (l_store l')) \<Longrightarrow> p \<in> set (s_promotions (l_store l)) \<or> \<not> manual_approval p"
  shows "review_inv l'"
proof -
  have same: "decisions_of l' = decisions_of l" "manually_backed l' = manually_backed l"
    by (simp_all add: fun_eq_iff decisions_of_def manually_backed_def assms(2-4))
  show ?thesis
    using assms(1,5) unfolding review_inv_def assms(2,3) same by blast
qed

section \<open>Opening and deciding\<close>

lemma set_update_one:
  assumes "distinct (map key rows)" and "r \<in> set rows" and "P r" and "\<And>x. P x \<Longrightarrow> key x = key r"
  shows "set (update_where P f rows) = insert (f r) {x \<in> set rows. key x \<noteq> key r}"
proof -
  have only: "x = r" if "x \<in> set rows" "key x = key r" for x
    using assms(1,2) that unfolding distinct_map by (blast dest: inj_onD)
  have "(if P x then f x else x) \<in> insert (f r) {x \<in> set rows. key x \<noteq> key r}" if "x \<in> set rows" for x
  proof (cases "key x = key r")
    case True
    then show ?thesis by (simp add: only [OF that True] assms(3))
  next
    case False
    then have "\<not> P x" using assms(4) by blast
    then show ?thesis using False that by simp
  qed
  moreover have "y \<in> (\<lambda>x. if P x then f x else x) ` set rows" if "y = f r \<or> y \<in> set rows \<and> key y \<noteq> key r" for y
  proof (cases "y = f r")
    case True
    then show ?thesis using assms(2,3) by (intro image_eqI [of _ _ r]) simp_all
  next
    case False
    then show ?thesis using that assms(4) [of y] by (intro image_eqI [of _ _ y]) auto
  qed
  ultimately show ?thesis unfolding set_update_where by blast
qed

lemma insert_review_inv:
  assumes "review_inv l" and "insert_review r l = (Inr (), l')" and "rt_state r = R_OPEN"
  shows "review_inv l'"
proof -
  have new: "rt_review_id r \<notin> rt_review_id ` set (l_reviews l)" and l': "l' = l\<lparr>l_reviews := l_reviews l @ [r]\<rparr>"
    using assms(2) by (auto simp: insert_review_def lookup_by_None_iff split: if_splits)
  show ?thesis
  proof (rule review_invI)
    show "distinct (map rt_review_id (l_reviews l'))" using new review_invD(1) [OF assms(1)] by (simp add: l')
    have "decisions_of l (rt_review_id r) = []"
    proof -
      have "de_review_id d \<noteq> rt_review_id r" if "d \<in> set (l_decisions l)" for d
        using review_invD(3) [OF assms(1) that] new by force
      then show ?thesis by (simp add: decisions_of_def filter_empty_conv)
    qed
    then have "decisions_of l (rt_review_id x) = expected_decisions (rt_state x)" if "x \<in> insert r (set (l_reviews l))" for x
      using that assms(3) review_invD(2) [OF assms(1), of x] by (cases "x = r") simp_all
    then show "decisions_of l' (rt_review_id x) = expected_decisions (rt_state x)" if "x \<in> set (l_reviews l')" for x
      using that by (simp add: l' decisions_of_def)
    show "de_review_id d \<in> rt_review_id ` set (l_reviews l')" if "d \<in> set (l_decisions l')" for d
      using that review_invD(3) [OF assms(1), of d] by (simp add: l')
    show "manually_backed l' p" if "p \<in> set (s_promotions (l_store l'))" "manual_approval p" for p
    proof -
      have "manually_backed l p" using that review_invD(4) [OF assms(1)] by (simp add: l')
      then show ?thesis unfolding manually_backed_def l' by simp blast
    qed
  qed
qed

lemma open_review_inv:
  assumes "review_inv l"
  shows "review_inv (snd (open_review d run e att ids l))"
  using assms insert_review_inv [OF assms]
  by (auto simp: open_review_def transaction_def bind_op_def read_op_def return_op_def split: sum.splits prod.splits)

lemma record_decision_cases [consumes 1, case_names same decided]:
  assumes "record_decision i dec actor reason now did aid l = (Inr b, l')"
  obtains (same) "\<not> b" "l' = l"
  | (decided) r where "b" "lookup_by rt_review_id i (l_reviews l) = Some r" "rt_state r = R_OPEN"
      "l_reviews l' = update_where (\<lambda>x. rt_review_id x = i \<and> rt_state x = R_OPEN)
         (\<lambda>x. x\<lparr>rt_state := (if dec = ''approved'' then R_APPROVED else R_REJECTED), rt_completed_at := Some now\<rparr>) (l_reviews l)"
      "l_decisions l' = l_decisions l @ [\<lparr>de_decision_id = did, de_review_id = i, de_decision = dec, de_actor_id = actor,
         de_reason = reason, de_created_at = now\<rparr>]"
      "l_manual_promotions l' = l_manual_promotions l" "s_promotions (l_store l') = s_promotions (l_store l)"
proof -
  obtain r where r: "lookup_by rt_review_id i (l_reviews l) = Some r"
    using assms by (auto simp: record_decision_def split: option.splits)
  show thesis
  proof (cases "rt_state r = R_OPEN")
    case False
    then show thesis using assms same by (simp add: record_decision_def r)
  next
    case True
    have "rowcount (\<lambda>x. rt_review_id x = i \<and> rt_state x = R_OPEN) (l_reviews l) \<noteq> 0"
      using lookup_by_Some [OF r] True by (auto simp: rowcount_def filter_empty_conv)
    then show thesis
      using decided [of r] assms r True
      by (auto simp: record_decision_def bind_op_Inr update_reviews_def insert_decision_def on_store_def audit_def
          return_op_def split: if_splits prod.splits)
  qed
qed

lemma record_decision_inv:
  assumes "record_decision i dec actor reason now did aid l = (Inr b, l')" and inv: "review_inv l"
    and dec: "dec \<in> {''approved'', ''rejected''}"
  shows "review_inv l'"
  using assms(1)
proof (cases rule: record_decision_cases)
  case same
  then show ?thesis using inv by simp
next
  case (decided r)
  let ?f = "\<lambda>x. x\<lparr>rt_state := (if dec = ''approved'' then R_APPROVED else R_REJECTED), rt_completed_at := Some now\<rparr>"
  have r: "r \<in> set (l_reviews l)" "rt_review_id r = i" using lookup_by_Some [OF decided(2)] by auto
  have only: "x = r" if "x \<in> set (l_reviews l)" "rt_review_id x = i" for x
    using lookup_by_unique [OF review_invD(1) [OF inv] that(1)] that(2) decided(2) by simp
  have set: "set (l_reviews l') = insert (?f r) {x \<in> set (l_reviews l). rt_review_id x \<noteq> rt_review_id r}"
    unfolding decided(4) using review_invD(1) [OF inv] r decided(3) by (intro set_update_one) simp_all
  have mem: "x \<in> set (l_reviews l') \<longleftrightarrow> x = ?f r \<or> (x \<in> set (l_reviews l) \<and> rt_review_id x \<noteq> i)" for x
    unfolding set by (simp add: r(2))
  have keys: "map rt_review_id (l_reviews l') = map rt_review_id (l_reviews l)"
    by (simp only: decided(4) map_review_ids)
  have ids: "rt_review_id ` set (l_reviews l') = rt_review_id ` set (l_reviews l)"
    using arg_cong [OF keys, of set] by simp
  have dof: "decisions_of l' j = decisions_of l j @ (if j = i then [dec] else [])" for j
    by (simp add: decisions_of_def decided(5))
  show ?thesis
  proof (rule review_invI)
    show "distinct (map rt_review_id (l_reviews l'))"
      using review_invD(1) [OF inv] by (simp only: keys)
    show "decisions_of l' (rt_review_id x) = expected_decisions (rt_state x)" if "x \<in> set (l_reviews l')" for x
    proof (cases "rt_review_id x = i")
      case True
      then have "x = ?f r" using that mem by blast
      moreover have "decisions_of l i = []" using review_invD(2) [OF inv r(1)] r(2) decided(3) by simp
      ultimately show ?thesis using dec r(2) by (auto simp: dof)
    next
      case False
      then have "x \<in> set (l_reviews l)" using that mem r(2) by auto
      then show ?thesis using False review_invD(2) [OF inv] by (simp add: dof)
    qed
    show "de_review_id d \<in> rt_review_id ` set (l_reviews l')" if "d \<in> set (l_decisions l')" for d
      using that review_invD(3) [OF inv] r by (auto simp: decided(5) ids)
    show "manually_backed l' p" if "p \<in> set (s_promotions (l_store l'))" "manual_approval p" for p
    proof -
      have "manually_backed l p" using that review_invD(4) [OF inv] by (simp add: decided(7))
      then obtain m x d where b: "m \<in> set (l_manual_promotions l)" "x \<in> set (l_reviews l)" "d \<in> set (l_decisions l)"
          "mp_promotion_id m = p_promotion_id p" "mp_run_id m = p_run_id p" "mp_review_id m = rt_review_id x"
          "mp_decision_id m = de_decision_id d" "rt_state x = R_APPROVED" "rt_run_id x = Some (p_run_id p)"
          "de_review_id d = rt_review_id x" "de_decision d = ''approved''"
        unfolding manually_backed_def by blast
      have "rt_review_id x \<noteq> i" using only [OF b(2)] b(8) decided(3) by auto
      then have "x \<in> set (l_reviews l')" "d \<in> set (l_decisions l')" using b(2,3) mem by (auto simp: decided(5))
      then show ?thesis using b unfolding manually_backed_def decided(6) by blast
    qed
  qed
qed

lemma decide_review_inv:
  assumes "review_inv l"
  shows "review_inv (snd (decide_review i dec actor reason now did aid l))"
  using assms record_decision_inv [OF _ assms]
  by (auto simp: decide_review_def raise_op_def transaction_def split: sum.splits prod.splits)

section \<open>Promoting\<close>

lemma promotable_reviewD:
  assumes "promotable_review i l = Inr (r, rid, dec)"
  shows "lookup_by rt_review_id i (l_reviews l) = Some r" and "rt_state r = R_APPROVED" and "rt_run_id r = Some rid"
    and "dec \<in> set (l_decisions l)" and "de_review_id dec = i" and "de_decision dec = ''approved''"
    and "\<forall>p \<in> set (s_promotions (l_store l)). p_run_id p = rid \<longrightarrow> p_decision p \<noteq> ''approved''"
proof -
  show "lookup_by rt_review_id i (l_reviews l) = Some r" "rt_state r = R_APPROVED" "rt_run_id r = Some rid"
    "\<forall>p \<in> set (s_promotions (l_store l)). p_run_id p = rid \<longrightarrow> p_decision p \<noteq> ''approved''"
    using assms by (auto simp: promotable_review_def Let_def list_ex_iff split: option.splits if_splits)
  have "approval_decision i l = Some dec"
    using assms by (auto simp: promotable_review_def Let_def split: option.splits if_splits)
  then show "dec \<in> set (l_decisions l)" "de_review_id dec = i" "de_decision dec = ''approved''"
    using max_by_Some by (fastforce simp: approval_decision_def)+
qed

lemma promote_review_cases [consumes 1, case_names again created]:
  assumes "promote_review i actor reason now pid aid l = (Inr res, l')"
  obtains (again) m where "lookup_by mp_review_id i (l_manual_promotions l) = Some m" "l' = l"
      "res = \<lparr>pr_review_id = i, pr_run_id = mp_run_id m, pr_promotion_id = mp_promotion_id m, pr_created = False\<rparr>"
  | (created) r rid dec p where "lookup_by mp_review_id i (l_manual_promotions l) = None"
      "promotable_review i l = Inr (r, rid, dec)"
      "res = \<lparr>pr_review_id = i, pr_run_id = rid, pr_promotion_id = pid, pr_created = True\<rparr>"
      "s_promotions (l_store l') = s_promotions (l_store l) @ [p]" "p_promotion_id p = pid" "p_run_id p = rid"
      "p_decision p = ''approved''" "p_approval_mode p = ''manual''"
      "l_manual_promotions l' = l_manual_promotions l @ [\<lparr>mp_review_id = i, mp_decision_id = de_decision_id dec,
         mp_run_id = rid, mp_promotion_id = pid, mp_actor_id = actor, mp_reason = reason, mp_created_at = now\<rparr>]"
      "l_reviews l' = l_reviews l" "l_decisions l' = l_decisions l"
proof -
  have ok: "i \<noteq> []" "actor \<noteq> []" using assms by (auto simp: promote_review_def raise_op_def split: if_splits)
  show thesis
  proof (cases "lookup_by mp_review_id i (l_manual_promotions l)")
    case (Some m)
    have "mp_review_id m = i" using lookup_by_Some [OF Some] by blast
    then show thesis
      using assms ok Some by (intro again [OF Some]) (simp_all add: promote_review_def transaction_Inr)
  next
    case None
    obtain r rid dec where p: "promotable_review i l = Inr (r, rid, dec)"
      using assms ok None
      by (cases "promotable_review i l") (auto simp: promote_review_def transaction_def bind_op_def read_op_def)
    let ?d = "JObj [(''review_id'', JStr i), (''datasource_id'', JStr (rt_datasource_id r)),
      (''definition_version'', JInt (rt_definition_version r))]"
    let ?m = "\<lparr>mp_review_id = i, mp_decision_id = de_decision_id dec, mp_run_id = rid, mp_promotion_id = pid,
      mp_actor_id = actor, mp_reason = reason, mp_created_at = now\<rparr>"
    have "bind_op (on_store (insert_decided_promotion pid rid ''approved'' ''manual'' now actor reason ?d)) (\<lambda>_.
        bind_op (insert_manual_promotion ?m) (\<lambda>_.
        bind_op (on_store (audit aid ''operator'' actor ''manual_promotion_approved'' ''run_promotion'' pid ?d now)) (\<lambda>_.
        return_op \<lparr>pr_review_id = i, pr_run_id = rid, pr_promotion_id = pid, pr_created = True\<rparr>))) l = (Inr res, l')"
      using assms ok None p
      by (simp add: promote_review_def transaction_Inr Let_def bind_op_def [of "read_op _"] read_op_def)
    then obtain l1 l2 where
        1: "on_store (insert_decided_promotion pid rid ''approved'' ''manual'' now actor reason ?d) l = (Inr (), l1)"
        and 2: "insert_manual_promotion ?m l1 = (Inr (), l2)"
        and 3: "on_store (audit aid ''operator'' actor ''manual_promotion_approved'' ''run_promotion'' pid ?d now) l2 = (Inr (), l')"
        and res: "res = \<lparr>pr_review_id = i, pr_run_id = rid, pr_promotion_id = pid, pr_created = True\<rparr>"
      by (auto simp: bind_op_Inr return_op_def)
    obtain q where q: "l1 = l\<lparr>l_store := (l_store l)\<lparr>s_promotions := s_promotions (l_store l) @ [q]\<rparr>\<rparr>"
        "p_promotion_id q = pid" "p_run_id q = rid" "p_decision q = ''approved''" "p_approval_mode q = ''manual''"
      using 1 by (auto simp: on_store_def insert_decided_promotion_def insert_promotion_row_def split: if_splits)
    have l2: "l2 = l1\<lparr>l_manual_promotions := l_manual_promotions l1 @ [?m]\<rparr>"
      using 2 by (simp add: insert_manual_promotion_def split: if_splits)
    have l3: "s_promotions (l_store l') = s_promotions (l_store l2)" "l_manual_promotions l' = l_manual_promotions l2"
        "l_reviews l' = l_reviews l2" "l_decisions l' = l_decisions l2"
      using 3 by (auto simp: on_store_def audit_def split: if_splits)
    show thesis by (rule created [OF None p res _ q(2-5)]) (simp_all add: l3 l2 q(1))
  qed
qed

lemma promote_review_fails: "promote_review i actor reason now pid aid l = (Inl e, l') \<Longrightarrow> l' = l"
  by (auto simp: promote_review_def raise_op_def transaction_def split: if_splits sum.splits prod.splits)

lemma promote_review_inv:
  assumes inv: "review_inv l"
  shows "review_inv (snd (promote_review i actor reason now pid aid l))"
proof (cases "promote_review i actor reason now pid aid l")
  case (Pair res l')
  show ?thesis
  proof (cases res)
    case (Inl e)
    then show ?thesis using promote_review_fails [of i actor reason now pid aid l e l'] Pair inv by simp
  next
    case (Inr x)
    have "promote_review i actor reason now pid aid l = (Inr x, l')" using Pair Inr by simp
    then have "review_inv l'"
    proof (cases rule: promote_review_cases)
      case (again m)
      then show ?thesis using inv by simp
    next
      case (created r rid dec p)
      note d = promotable_reviewD [OF created(2)]
      have r: "r \<in> set (l_reviews l)" "rt_review_id r = i" using lookup_by_Some [OF d(1)] by auto
      show ?thesis
      proof (rule review_invI)
        show "distinct (map rt_review_id (l_reviews l'))" using review_invD(1) [OF inv] by (simp only: created(10))
        show "decisions_of l' (rt_review_id y) = expected_decisions (rt_state y)" if "y \<in> set (l_reviews l')" for y
          using review_invD(2) [OF inv, of y] that by (simp add: created(10,11) decisions_of_def)
        show "de_review_id y \<in> rt_review_id ` set (l_reviews l')" if "y \<in> set (l_decisions l')" for y
          using review_invD(3) [OF inv, of y] that by (simp add: created(10,11))
        show "manually_backed l' q" if q: "q \<in> set (s_promotions (l_store l'))" "manual_approval q" for q
        proof (cases "q = p")
          case True
          then show ?thesis
            using r d(2-6) created(5,6) unfolding manually_backed_def created(9-11)
            by (intro bexI [of _ "\<lparr>mp_review_id = i, mp_decision_id = de_decision_id dec, mp_run_id = rid,
                mp_promotion_id = pid, mp_actor_id = actor, mp_reason = reason, mp_created_at = now\<rparr>"]
                bexI [of _ r] bexI [of _ dec]) simp_all
        next
          case False
          then have "manually_backed l q" using q review_invD(4) [OF inv, of q] by (simp add: created(4))
          then show ?thesis unfolding manually_backed_def created(9-11) by auto
        qed
      qed
    qed
    then show ?thesis using Pair by simp
  qed
qed


definition trial_review :: review_row where
  "trial_review = \<lparr>rt_review_id = ''review_1'', rt_datasource_id = ''boe.rate'', rt_definition_version = 1,
     rt_run_id = Some ''run_1'', rt_task_type = ''manual_evidence_review'', rt_state = R_APPROVED, rt_payload = JObj [],
     rt_created_at = 29, rt_completed_at = Some 35\<rparr>"

definition trial_decision :: decision_row where
  "trial_decision = \<lparr>de_decision_id = ''decision_1'', de_review_id = ''review_1'', de_decision = ''approved'',
     de_actor_id = ''ops'', de_reason = None, de_created_at = 35\<rparr>"

definition reviewed_ledger :: ledger where
  "reviewed_ledger = published_ledger\<lparr>l_store := (l_store published_ledger)\<lparr>s_promotions := [],
       s_definitions := [\<lparr>dr_definition = sample_definition\<lparr>dd_promotion_policy := ''manual_review''\<rparr>,
         dr_definition_hash = zeros, dr_created_at = 0\<rparr>]\<rparr>,
     l_reviews := [trial_review], l_decisions := [trial_decision], l_manual_promotions := []\<rparr>"

lemma trial_promotion:
  "\<exists>l'. promote_review ''review_1'' ''ops'' None 40 ''promotion_2'' ''audit_2'' reviewed_ledger =
     (Inr \<lparr>pr_review_id = ''review_1'', pr_run_id = ''run_1'', pr_promotion_id = ''promotion_2'', pr_created = True\<rparr>, l')"
proof -
  obtain r a p where r: "s_runs (l_store published_ledger) = [r]" "r_run_id r = ''run_1''" "r_attempt_id r = ''attempt_1''"
      "r_lane r = ''production_ingestion''" "r_status r = A_SUCCEEDED"
      "s_attempts (l_store published_ledger) = [a]" "a_attempt_id a = ''attempt_1''" "a_status a = A_SUCCEEDED"
    using trial_publication(1) by blast
  have aud: "lookup_by ae_audit_id ''audit_2'' (s_audit (l_store published_ledger)) = None"
    using arg_cong [OF trial_publication(2), of set] by (auto simp: lookup_by_None_iff)
  have ok: "promotable_review ''review_1'' reviewed_ledger = Inr (trial_review, ''run_1'', trial_decision)"
    using r by (simp add: promotable_review_def reviewed_ledger_def trial_review_def trial_decision_def approval_decision_def
        dr_key_def dd_key_def sample_definition_simps Let_def)
  show ?thesis
    using r aud ok
    by (simp add: promote_review_def transaction_Inr Let_def bind_op_Inr read_op_def on_store_def insert_decided_promotion_def
        insert_promotion_row_def next_promotion_seq_def insert_manual_promotion_def audit_def return_op_def
        reviewed_ledger_def trial_review_def trial_decision_def)
qed


section \<open>Revoking\<close>

lemma max_by_append1:
  "max_by k (xs @ [y]) = (case max_by k xs of None \<Rightarrow> Some y | Some x \<Rightarrow> Some (if k x < k y then y else x))"
  by (induction xs) (auto split: option.splits)

lemma revoke_promotion_cases [consumes 1, case_names again created]:
  assumes "revoke_promotion rid actor reason now pid aid s = (Inr res, s')"
  obtains (again) p where "current_promotion s rid = Some p" "p_decision p = ''revoked''" "s' = s"
      "res = \<lparr>pv_run_id = rid, pv_promotion_id = p_promotion_id p, pv_created = False\<rparr>"
  | (created) p q es where "current_promotion s rid = Some p" "p_decision p = ''approved''"
      "res = \<lparr>pv_run_id = rid, pv_promotion_id = pid, pv_created = True\<rparr>" "run_published s rid"
      "s' = s\<lparr>s_promotions := s_promotions s @ [q], s_audit := es\<rparr>" "p_run_id q = rid" "p_decision q = ''revoked''"
      "p_decision_at q = now" "p_promotion_seq q = next_promotion_seq s"
proof -
  have ok: "rid \<noteq> []" "actor \<noteq> []" using assms by (auto simp: revoke_promotion_def raise_op_def split: if_splits)
  obtain p r a where p: "current_promotion s rid = Some p" and r: "lookup_by r_run_id rid (s_runs s) = Some r"
      and a: "lookup_by a_attempt_id (r_attempt_id r) (s_attempts s) = Some a"
    using assms ok by (auto simp: revoke_promotion_def transaction_Inr split: option.splits)
  show thesis
  proof (cases "p_decision p = ''revoked''")
    case True
    then show thesis using assms ok
      by (intro again [OF p]) (simp_all add: revoke_promotion_def transaction_Inr p r a)
  next
    case False
    let ?d = "JObj [(''revokes_promotion_id'', JStr (p_promotion_id p)), (''datasource_id'', JStr (r_datasource_id r)),
      (''definition_version'', JInt (r_definition_version r))]"
    have ap: "p_decision p = ''approved''" and run: "r_lane r = ''production_ingestion''" "a_status a = A_SUCCEEDED"
      using assms ok False by (auto simp: revoke_promotion_def transaction_Inr p r a split: if_splits)
    have "bind_op (insert_decided_promotion pid rid ''revoked'' (p_approval_mode p) now actor reason ?d) (\<lambda>_.
        bind_op (audit aid ''operator'' actor ''promotion_revoked'' ''run_promotion'' pid ?d now) (\<lambda>_.
        return_op \<lparr>pv_run_id = rid, pv_promotion_id = pid, pv_created = True\<rparr>)) s = (Inr res, s')"
      using assms ok False by (simp add: revoke_promotion_def transaction_Inr p r a Let_def split: if_splits)
    then obtain s1 where 1: "insert_decided_promotion pid rid ''revoked'' (p_approval_mode p) now actor reason ?d s = (Inr (), s1)"
        and 2: "audit aid ''operator'' actor ''promotion_revoked'' ''run_promotion'' pid ?d now s1 = (Inr (), s')"
        and res: "res = \<lparr>pv_run_id = rid, pv_promotion_id = pid, pv_created = True\<rparr>"
      by (auto simp: bind_op_Inr return_op_def)
    obtain q where q: "s1 = s\<lparr>s_promotions := s_promotions s @ [q]\<rparr>" "p_run_id q = rid" "p_decision q = ''revoked''"
        "p_decision_at q = now" "p_promotion_seq q = next_promotion_seq s"
      using 1 by (auto simp: insert_decided_promotion_def insert_promotion_row_def split: if_splits)
    have "run_published s rid" using ap run by (simp add: run_published_def p r a)
    moreover have "s' = s1\<lparr>s_audit := s_audit s'\<rparr>" using 2 by (auto simp: audit_def split: if_splits)
    then have "s' = s\<lparr>s_promotions := s_promotions s @ [q], s_audit := s_audit s'\<rparr>" by (simp only: q(1))
    ultimately show thesis by (intro created [OF p ap res _ _ q(2-5)])
  qed
qed

lemma revoke_promotion_fails: "revoke_promotion rid actor reason now pid aid s = (Inl e, s') \<Longrightarrow> s' = s"
  by (auto simp: revoke_promotion_def raise_op_def transaction_def split: if_splits sum.splits prod.splits)

lemma current_promotion_append:
  "current_promotion (s\<lparr>s_promotions := s_promotions s @ [q], s_audit := es\<rparr>) i =
     (if i \<noteq> p_run_id q then current_promotion s i
      else case current_promotion s i of None \<Rightarrow> Some q
        | Some p \<Rightarrow> Some (if promotion_order p < promotion_order q then q else p))"
  by (simp add: current_promotion_def max_by_append1)

lemma revoke_promotion_inv:
  assumes "review_inv l"
  shows "review_inv (snd (on_store (revoke_promotion rid actor reason now pid aid) l))"
proof (cases "revoke_promotion rid actor reason now pid aid (l_store l)")
  case (Pair res s')
  have "p \<in> set (s_promotions (l_store l)) \<or> \<not> manual_approval p" if "p \<in> set (s_promotions s')" for p
  proof (cases res)
    case (Inl e)
    then show ?thesis using revoke_promotion_fails Pair that by metis
  next
    case (Inr x)
    then have "revoke_promotion rid actor reason now pid aid (l_store l) = (Inr x, s')" using Pair by simp
    then show ?thesis
      using that by (cases rule: revoke_promotion_cases) (auto simp: manual_approval_def)
  qed
  then show ?thesis using assms by (intro review_inv_promotions [OF assms]) (simp_all add: on_store_def Pair)
qed

lemma filter_events:
  "filter (\<lambda>(i, x). i \<noteq> rid) (concat (map (\<lambda>ro. map (Pair (ro_run_id ro)) (F ro)) ros)) =
     concat (map (\<lambda>ro. map (Pair (ro_run_id ro)) (F ro)) (filter (\<lambda>ro. ro_run_id ro \<noteq> rid) ros))"
  by (induction ros) (auto simp: filter_map o_def)

text \<open>The published run of \<open>LedgerDemo\<close> and its revocation.\<close>

lemma trial_revoke:
  "\<exists>s'. revoke_promotion ''run_1'' ''ops'' None now ''promotion_2'' ''audit_2'' (l_store published_ledger) =
     (Inr \<lparr>pv_run_id = ''run_1'', pv_promotion_id = ''promotion_2'', pv_created = True\<rparr>, s')"
proof -
  obtain r a p where r: "s_runs (l_store published_ledger) = [r]" "r_run_id r = ''run_1''" "r_attempt_id r = ''attempt_1''"
      "r_lane r = ''production_ingestion''" "r_status r = A_SUCCEEDED"
      "s_attempts (l_store published_ledger) = [a]" "a_attempt_id a = ''attempt_1''" "a_status a = A_SUCCEEDED"
      "s_promotions (l_store published_ledger) = [p]" "p_promotion_id p = ''promotion_1''" "p_run_id p = ''run_1''"
      "p_decision p = ''approved''" "p_decision_at p = 30" "p_promotion_seq p = 1"
    using trial_publication(1) by blast
  have aud: "lookup_by ae_audit_id ''audit_2'' (s_audit (l_store published_ledger)) = None"
    using arg_cong [OF trial_publication(2), of set] by (auto simp: lookup_by_None_iff)
  show ?thesis
    using r aud
    by (simp add: revoke_promotion_def transaction_Inr current_promotion_def Let_def bind_op_Inr insert_decided_promotion_def
        insert_promotion_row_def next_promotion_seq_def audit_def return_op_def)
qed

lemma trial_events: "canonical_events published_ledger = [(''run_1'', trial_row)]"
  using trial_publication(1)
  by (auto simp: canonical_events_def trial_publication(3,4) trial_row_fields run_published_def current_promotion_def)

text \<open>
  C18. Revoking takes effect at once: once \<open>revoke_promotion\<close> has returned, whether it appended a
  revocation or found one, readers of \<open>canonical_event_v1\<close> see exactly the events they saw before
  less those of the revoked run, provided no promotion of that run is dated after the revocation's
  clock.
\<close>

theorem revoke_withdraws:
  assumes "revoke_promotion rid actor reason now pid aid (l_store l) = (Inr res, s')"
    and "\<forall>p \<in> set (s_promotions (l_store l)). p_run_id p = rid \<longrightarrow> p_decision_at p \<le> now"
  shows "canonical_events (l\<lparr>l_store := s'\<rparr>) = filter (\<lambda>(i, x). i \<noteq> rid) (canonical_events l)"
proof -
  have pub: "run_published s' i = (i \<noteq> rid \<and> run_published (l_store l) i)" for i
    using assms(1)
  proof (cases rule: revoke_promotion_cases)
    case (again p)
    then show ?thesis by (auto simp: run_published_def split: option.splits)
  next
    case (created p q es)
    have "p \<in> set (s_promotions (l_store l))" "p_run_id p = rid"
      using max_by_Some [OF created(1) [unfolded current_promotion_def]] by auto
    then have "promotion_order p < promotion_order q"
      using assms(2) next_promotion_seq_fresh created(8,9) by (fastforce simp: promotion_order_def)
    then have "current_promotion s' i = (if i = rid then Some q else current_promotion (l_store l) i)"
      by (simp add: created(5,6) current_promotion_append created(1))
    moreover have "s_runs s' = s_runs (l_store l)" "s_attempts s' = s_attempts (l_store l)" by (simp_all add: created(5))
    ultimately show ?thesis
      using created(7) by (auto simp: run_published_def split: option.splits)
  qed
  show ?thesis unfolding canonical_events_def filter_events filter_filter by (simp add: pub conj_commute)
qed

theorem revoke_withdraws_witness:
  "\<exists>res s'. revoke_promotion ''run_1'' ''ops'' None 40 ''promotion_2'' ''audit_2'' (l_store published_ledger) = (Inr res, s') \<and>
     canonical_events published_ledger = [(''run_1'', trial_row)] \<and> canonical_events (published_ledger\<lparr>l_store := s'\<rparr>) = []"
proof -
  obtain res s' where run: "revoke_promotion ''run_1'' ''ops'' None 40 ''promotion_2'' ''audit_2'' (l_store published_ledger) = (Inr res, s')"
    using trial_revoke [of 40] by blast
  have "canonical_events (published_ledger\<lparr>l_store := s'\<rparr>) = filter (\<lambda>(i, x). i \<noteq> ''run_1'') (canonical_events published_ledger)"
    using trial_publication(1) by (intro revoke_withdraws [OF run]) auto
  then show ?thesis using run trial_events by auto
qed

text \<open>
  With a clock behind the approval's the revocation is recorded, reported as created and ignored by
  the view, which orders promotions by \<open>decision_at\<close> first.
\<close>

theorem revoke_in_the_past:
  assumes "revoke_promotion rid actor reason now pid aid s = (Inr res, s')" and "pv_created res"
    and "current_promotion s rid = Some p" and "now < p_decision_at p"
  shows "run_published s' rid"
  using assms(1)
proof (cases rule: revoke_promotion_cases)
  case (again q)
  then show ?thesis using assms(2) by simp
next
  case (created q q' es)
  have "\<not> promotion_order p < promotion_order q'" using assms(4) created(8) by (simp add: promotion_order_def)
  then have "current_promotion s' rid = Some p"
    using created(1) assms(3) by (simp add: created(5,6) current_promotion_append)
  moreover have "s_runs s' = s_runs s" "s_attempts s' = s_attempts s" by (simp_all add: created(5))
  ultimately show ?thesis using created(4) assms(3) by (auto simp: run_published_def split: option.splits)
qed

theorem revoke_in_the_past_witness:
  "\<exists>res s'. revoke_promotion ''run_1'' ''ops'' None 29 ''promotion_2'' ''audit_2'' (l_store published_ledger) = (Inr res, s') \<and>
     pv_created res \<and> run_published s' ''run_1''"
proof -
  obtain res s' where run: "revoke_promotion ''run_1'' ''ops'' None 29 ''promotion_2'' ''audit_2'' (l_store published_ledger) = (Inr res, s')"
      "pv_created res"
    using trial_revoke [of 29] by auto
  obtain p where "current_promotion (l_store published_ledger) ''run_1'' = Some p" "29 < p_decision_at p"
    using trial_publication(1) by (auto simp: current_promotion_def)
  then have "run_published s' ''run_1''" by (rule revoke_in_the_past [OF run])
  then show ?thesis using run by blast
qed

end
