(* ===== verification/LedgerCorrect.thy ===== *)
theory LedgerCorrect
  imports RecordStreams LedgerDemo
begin

text \<open>
  What \<open>OperationalStore\<close> guarantees about what it captures: evidence has approved provenance and can
  be read back; observations form versioned streams; a repeated write changes nothing; finalizing a
  full snapshot tombstones exactly the records that disappeared.
\<close>

section \<open>Evidence\<close>

text \<open>
  C15. Evidence enters the database only with approved provenance: the source is one the run's
  definition binds, the request was either a manual import or a GET answered with a 2xx status, and
  every URL it names (the requested and the final one, after redirects) is an HTTPS URL on that
  source's host allow-list. The row carries the source and the definition's access class, a retention
  deadline after retrieval unless the retention basis is the project's lifetime, and no secret.
\<close>

theorem evidence_provenance:
  assumes "persist_evidence E run a now i v = (Inr (j, art), v')"
  shows "\<exists>d b src row. registry_lookup (en_registry (ee_env E)) (rh_datasource_id run) (Some (rh_definition_version run)) = Inr d \<and>
    b \<in> set (dd_source_bindings d) \<and>
    lookup_source (en_registry (ee_env E)) (sb_source_id b) (Some (sb_source_version b)) = Inr src \<and>
    (let request = dict_or_empty (va_request a); response = dict_or_empty (va_response a);
         ok = approved_url (en_urllib (ee_env E)) (sr_allowed_hosts src)
     in dict_get request ''method'' = JStr ''MANUAL_IMPORT'' \<and>
          (dict_get request ''source_url'' = JNull \<or> (\<exists>u. dict_get request ''source_url'' = JStr u \<and> ok u)) \<or>
        (\<exists>meth u f n. dict_get request ''method'' = JStr meth \<and> upper meth = ''GET'' \<and>
           dict_get request ''url'' = JStr u \<and> dict_get response ''final_url'' = JStr f \<and>
           dict_get response ''status'' = JInt n \<and> 200 \<le> n \<and> n < 300 \<and> ok u \<and> ok f)) \<and>
    l_evidence (v_ledger v') = l_evidence (v_ledger v) @ [row] \<and> ev_evidence_id row = j \<and>
    ev_source_id row = sb_source_id b \<and> ev_source_version row = sb_source_version b \<and>
    ev_access_class row = dd_access_class d \<and> secret_free (ev_request row) \<and> secret_free (ev_response row) \<and>
    (case ev_retention_until row of
       None \<Rightarrow> dd_retention_policy d \<in> {''open_official'', ''internal_config''}
     | Some t \<Rightarrow> dd_retention_policy d \<notin> {''open_official'', ''internal_config''} \<and> ev_retrieved_at row < t)"
  using assms
proof (cases rule: persist_evidence_cases)
  case (1 m media q)
  note m = prepare_evidence_Inr [OF 1(2)]
  obtain row where row: "evidence_entry run a m art i row" "l_evidence (v_ledger v') = l_evidence (v_ledger v) @ [row]"
    by (rule record_evidence_Inr [OF 1(6)]) blast
  have ret: "case ev_retention_until row of
      None \<Rightarrow> dd_retention_policy (em_definition m) \<in> {''open_official'', ''internal_config''}
    | Some t \<Rightarrow> dd_retention_policy (em_definition m) \<notin> {''open_official'', ''internal_config''} \<and> ev_retrieved_at row < t"
    using m(4) row(1)
    by (cases "em_retention m") (auto simp: retention_deadline_def evidence_entry_def split: if_splits option.splits)
  have entry: "ev_evidence_id row = j" "ev_source_id row = sb_source_id (em_binding m)"
      "ev_source_version row = sb_source_version (em_binding m)" "ev_access_class row = dd_access_class (em_definition m)"
      "secret_free (ev_request row)" "secret_free (ev_response row)"
    using row(1) 1(7) by (simp_all add: evidence_entry_def)
  show ?thesis
  proof (rule provenance_cases [OF m(3)], goal_cases)
    case (1 src)
    show ?case unfolding Let_def
      by (intro exI [of _ "em_definition m"] exI [of _ "em_binding m"] exI [of _ src] exI [of _ row] conjI
          m(1,2) 1 row(2) entry ret)
  qed
qed

theorem evidence_provenance_witness:
  "\<exists>row. l_evidence (v_ledger evidence_vault) = l_evidence (v_ledger trial_vault) @ [row] \<and> ev_source_id row = ''boe'' \<and>
     ev_access_class row = ''open'' \<and> (\<exists>t. ev_retention_until row = Some t \<and> ev_retrieved_at row < t)"
proof -
  have d: "registry_lookup (en_registry (ee_env trial_evidence_env)) (rh_datasource_id sample_run)
      (Some (rh_definition_version sample_run)) = Inr trial_definition"
    by (simp add: trial_evidence_env_def trial_registry run_handle_fields)
  have pol: "dd_retention_policy trial_definition = ''open''" "dd_access_class trial_definition = ''open''"
      "map sb_source_id (dd_source_bindings trial_definition) = [''boe'']"
    by (simp_all add: trial_definition_def sample_definition_def)
  show ?thesis
    using evidence_provenance [OF trial_persist_evidence] unfolding d
    by (elim exE conjE) (use pol in \<open>fastforce split: option.splits\<close>)
qed

text \<open>
  C26. What was captured can be read back: after \<open>persist_evidence\<close> returned, \<open>read_evidence\<close> of the
  returned handle yields bytes with the recorded digest and length, namely the submitted body when
  the object was new, and every evidence handle that could be read before still yields the same
  bytes.
\<close>

theorem evidence_readback:
  assumes "persist_evidence E run a now i v = (Inr (j, art), v')" and "i \<noteq> []"
  shows "(\<exists>content. read_evidence E j v' = Inr content \<and> en_sha (ee_env E) content = sa_content_sha256 art \<and>
      int (length content) = sa_byte_size art \<and>
      (va_artifact a = None \<longrightarrow> en_sha (ee_env E) content = en_sha (ee_env E) (the (va_body a)) \<and>
        (sa_created art \<longrightarrow> content = the (va_body a)))) \<and>
    (\<forall>k content. read_evidence E k v = Inr content \<longrightarrow> read_evidence E k v' = Inr content)"
  using assms(1)
proof (cases rule: persist_evidence_cases)
  case (1 m media q)
  obtain row where row: "evidence_entry run a m art i row" "l_evidence (v_ledger v') = l_evidence (v_ledger v) @ [row]"
      "ev_evidence_id row \<notin> ev_evidence_id ` set (l_evidence (v_ledger v))"
    by (rule record_evidence_Inr [OF 1(6)]) blast
  have id: "ev_evidence_id row = i" "ev_content_sha256 row = sa_content_sha256 art"
    using row(1) by (simp_all add: evidence_entry_def)
  note pub = publish_evidence_Inr [OF 1(5) 1(3)]
  obtain f where f: "open_object (en_sha (ee_env E)) (sa_content_sha256 art) None (v_objects v') = Inr f"
      "en_sha (ee_env E) f = sa_content_sha256 art" "int (length f) = sa_byte_size art"
      "map_of (v_objects v') (take 2 (sa_content_sha256 art), sa_content_sha256 art) = Some (RegularFile f)"
    by (rule verified_open [OF pub(1)]) blast
  have look: "lookup_by ev_evidence_id i (l_evidence (v_ledger v')) = Some row"
  proof -
    have "lookup_by ev_evidence_id i (l_evidence (v_ledger v)) = None" using row(3) id by (simp add: lookup_by_None_iff)
    then show ?thesis using row(2) id by (simp add: lookup_by_append)
  qed
  have read: "read_evidence E j v' = Inr f"
    using look f(1) id 1(7) assms(2) by (simp add: read_evidence_def)
  have body: "va_artifact a = None \<longrightarrow> en_sha (ee_env E) f = en_sha (ee_env E) (the (va_body a)) \<and>
      (sa_created art \<longrightarrow> f = the (va_body a))"
    using pub(3,4) f(2,4) by auto
  have keep: "read_evidence E k v' = Inr c" if r0: "read_evidence E k v = Inr c" for k c
  proof -
    obtain r where r: "k \<noteq> []" "lookup_by ev_evidence_id k (l_evidence (v_ledger v)) = Some r"
        "open_object (en_sha (ee_env E)) (ev_content_sha256 r) None (v_objects v) = Inr c"
      using r0 by (auto simp: read_evidence_def split: if_splits option.splits sum.splits)
    have "open_object (en_sha (ee_env E)) (ev_content_sha256 r) None (v_objects v') = Inr c"
      using r(3) pub(2)
      by (auto simp: open_object_def verify_object_def split: sum.splits if_splits option.splits cas_file.splits)
    then show ?thesis using r row(2) by (simp add: read_evidence_def lookup_by_append)
  qed
  show ?thesis by (intro conjI exI [of _ f] allI impI read f(2,3) keep) (use body in blast)+
qed

theorem evidence_readback_witness: "read_evidence trial_evidence_env ''evidence_1'' evidence_vault = Inr ''hi''"
  using evidence_readback [OF trial_persist_evidence] by (auto simp: trial_evidence_def trial_artifact_def)

section \<open>Record streams\<close>

lemma trial_streams: "stream_inv (v_ledger evidence_vault)" "stream_inv scoped_ledger" "stream_inv observed_ledger"
proof -
  show ev: "stream_inv (v_ledger evidence_vault)"
    by (rule stream_inv_frame [OF stream_inv_empty]) (simp_all add: evidence_vault_fields empty_ledger_def)
  show sc: "stream_inv scoped_ledger"
    by (rule stream_inv_frame [OF ev]) (simp_all add: scoped_ledger_eq)
  show "stream_inv observed_ledger" by (rule persist_observation_inv [OF trial_observe sc])
qed

text \<open>
  C12. Observations are versioned streams: recording an observation leaves its version at the head of
  its stream, appends it to the stream's history unless it is the head already (a record that was
  tombstoned and reappears is a new version), and touches no other stream. The stream is the run's
  datasource and lane, the definition's record-key version and the hash of the record key; the
  version is the action with the hash of the record's canonical envelope.
\<close>

theorem persist_observation_refines:
  assumes inv: "stream_inv l" and prep: "prepare_observation env run a = Inr p"
    and run: "persist_observation env run a now i l = (Inr j, l')"
  defines "k \<equiv> (rh_datasource_id run, rh_lane run, dd_record_key_version (po_definition p), po_key_hash p)"
    and "v \<equiv> (Upsert, po_record_hash p)"
  shows "head_version l' k = Some v \<and>
    history l' k = (if head_version l k = Some v then history l k else history l k @ [v]) \<and>
    (\<forall>k'. k' \<noteq> k \<longrightarrow> history l' k' = history l k' \<and> head_version l' k' = head_version l k') \<and> stream_inv l'"
proof -
  have w: "persists k v l l'"
    unfolding persists_def k_def v_def record_stream_def using prep run by blast
  show ?thesis
    using streams.writes_head [OF inv w] streams.writes_history [OF inv w] streams.writes_other [OF inv w]
      streams.writes_inv [OF inv w]
    by auto
qed

theorem persist_observation_refines_witness:
  "head_version observed_ledger (''boe.rate'', ''production_ingestion'', ''v1'', zeros) = Some (Upsert, zeros) \<and>
   history observed_ledger (''boe.rate'', ''production_ingestion'', ''v1'', zeros) = [(Upsert, zeros)]"
proof -
  have "history scoped_ledger k = []" for k
    by (simp add: history_def revisions_of_def scoped_ledger_eq evidence_vault_fields)
  moreover have "head_version scoped_ledger k = None" for k
    by (simp add: head_version_def scoped_ledger_eq evidence_vault_fields)
  ultimately show ?thesis
    using persist_observation_refines [OF trial_streams(2) trial_prepare trial_observe]
    by (simp add: run_handle_fields trial_prepared_def trial_modes)
qed

text \<open>
  Recording is idempotent: repeating a call that succeeded, with another clock reading and
  another fresh identifier while the run still holds its lease, returns the same observation and
  leaves the whole ledger as it is: no revision, no link, no count is added.
\<close>

theorem persist_observation_idempotent:
  assumes "persist_observation env run a now i l = (Inr j, l')"
    and "require_running_run run now' (l_store l) = Inr q"
  shows "persist_observation env run a now' i' l' = (Inr j, l')"
  by (rule persist_observation_again [OF assms])

theorem persist_observation_idempotent_witness:
  "persist_observation trial_env sample_run trial_observation 29 ''observation_2'' observed_ledger =
     (Inr ''observation_1'', observed_ledger)"
proof -
  obtain q where q: "require_running_run sample_run 29 (l_store scoped_ledger) = Inr q"
    using trial_running [of 29] by (auto simp: scoped_ledger_eq trial_running_frame)
  show ?thesis by (rule persist_observation_idempotent [OF trial_observe q])
qed

section \<open>Full snapshots\<close>

lemma finalize_checksD:
  assumes "finalize_checks run pr now l = Inr (r, sc, e)"
  shows "r \<in> set (s_runs (l_store l))" and "r_run_id r = rh_run_id run" and "r_status r = A_RUNNING"
    and "r_snapshot_scope_hash r = Some sc" and "py_get pr ''complete'' = PBool True"
    and "py_get pr ''snapshot_scope_hash'' = PStr sc"
    and "\<exists>x \<in> set (l_run_evidence l). re_run_id x = rh_run_id run \<and> re_required x"
proof -
  obtain q where q: "require_running_run run now (l_store l) = Inr q"
    using assms by (auto simp: finalize_checks_def split: sum.splits)
  have r: "List.find (\<lambda>r. r_run_id r = rh_run_id run \<and> r_status r = A_RUNNING) (s_runs (l_store l)) = Some r"
      "truthy (r_snapshot_scope_hash r)" "sc = the (r_snapshot_scope_hash r)" "proof_valid pr sc"
      "required_evidence run l = Some e"
    using assms by (auto simp: finalize_checks_def q split: option.splits if_splits)
  show "r \<in> set (s_runs (l_store l))" "r_run_id r = rh_run_id run" "r_status r = A_RUNNING"
    using r(1) by (auto simp: find_Some_iff)
  show "r_snapshot_scope_hash r = Some sc" using r(2,3) by (cases "r_snapshot_scope_hash r") auto
  show "py_get pr ''complete'' = PBool True" "py_get pr ''snapshot_scope_hash'' = PStr sc"
    using r(4) by (simp_all add: proof_valid_def)
  obtain x where x: "min_by re_evidence_id (filter (\<lambda>r. re_run_id r = rh_run_id run \<and> re_required r) (l_run_evidence l)) = Some x"
    using r(5) by (auto simp: required_evidence_def)
  show "\<exists>x \<in> set (l_run_evidence l). re_run_id x = rh_run_id run \<and> re_required x"
    using min_by_in [OF x] by auto
qed

lemma tombstone_of_fields:
  "ob_revision_action (tombstone_of env d run sc now ids (head_of x, x)) = Tombstone"
  "ob_revision_no (tombstone_of env d run sc now ids (head_of x, x)) = ob_revision_no x + 1"
  "ob_supersedes_id (tombstone_of env d run sc now ids (head_of x, x)) = Some (ob_observation_id x)"
  "ob_snapshot_scope_hash (tombstone_of env d run sc now ids (head_of x, x)) = Some sc"
  by (simp_all add: tombstone_of_def tombstone_row_def head_of_def)

text \<open>
  C8. Finalizing a full snapshot infers exactly the deletions: a stream of the run's datasource,
  lane and key version gets one more revision, a tombstone that supersedes its last one, if and only
  if its last revision is an upsert in the declared scope whose key the run did not see; every other
  stream is left as it was. The call only succeeds for a full-snapshot definition, in an active run
  with a declared scope, with a proof of completeness for that very scope and with required evidence.
\<close>

theorem finalize_snapshot_exact:
  assumes "finalize_full_snapshot env run pr now ids l = (Inr ts, l')" and inv: "stream_inv l"
  shows "\<exists>d r sc. registry_lookup (en_registry env) (rh_datasource_id run) (Some (rh_definition_version run)) = Inr d \<and>
    dd_snapshot_mode d = ''full_snapshot'' \<and> r \<in> set (s_runs (l_store l)) \<and> r_run_id r = rh_run_id run \<and>
    r_status r = A_RUNNING \<and> r_snapshot_scope_hash r = Some sc \<and>
    py_get pr ''complete'' = PBool True \<and> py_get pr ''snapshot_scope_hash'' = PStr sc \<and>
    (\<exists>e \<in> set (l_run_evidence l). re_run_id e = rh_run_id run \<and> re_required e) \<and> stream_inv l' \<and>
    (\<forall>k. case newest (revisions_of l k) of
       None \<Rightarrow> revisions_of l' k = []
     | Some x \<Rightarrow>
         if k = (rh_datasource_id run, rh_lane run, dd_record_key_version d, ob_record_key_hash x) \<and>
            ob_revision_action x = Upsert \<and> ob_snapshot_scope_hash x = Some sc \<and>
            ob_record_key_hash x \<notin> set (seen_keys run l)
         then \<exists>t. revisions_of l' k = revisions_of l k @ [t] \<and> ob_revision_action t = Tombstone \<and>
              ob_revision_no t = ob_revision_no x + 1 \<and> ob_supersedes_id t = Some (ob_observation_id x) \<and>
              ob_observation_id t \<in> set ts \<and> ob_snapshot_scope_hash t = Some sc
         else revisions_of l' k = revisions_of l k)"
proof -
  obtain d r sc e where f:
      "registry_lookup (en_registry env) (rh_datasource_id run) (Some (rh_definition_version run)) = Inr d"
      "finalize_checks run pr now l = Inr (r, sc, e)" "stream_inv l'"
      "l_observations l' = l_observations l @ map (tombstone_of env d run sc now ids) (missing_heads d run sc l)"
      "ts = map (ob_observation_id \<circ> tombstone_of env d run sc now ids) (missing_heads d run sc l)"
    by (rule finalize_writes [OF assms]) blast
  have mode: "dd_snapshot_mode d = ''full_snapshot''"
    using assms(1) f(1) by (auto simp: finalize_full_snapshot_def raise_op_def split: if_splits)
  note stream = finalize_stream [OF inv f(4)]
  have exact: "case newest (revisions_of l k) of
       None \<Rightarrow> revisions_of l' k = []
     | Some x \<Rightarrow>
         if k = (rh_datasource_id run, rh_lane run, dd_record_key_version d, ob_record_key_hash x) \<and>
            ob_revision_action x = Upsert \<and> ob_snapshot_scope_hash x = Some sc \<and>
            ob_record_key_hash x \<notin> set (seen_keys run l)
         then \<exists>t. revisions_of l' k = revisions_of l k @ [t] \<and> ob_revision_action t = Tombstone \<and>
              ob_revision_no t = ob_revision_no x + 1 \<and> ob_supersedes_id t = Some (ob_observation_id x) \<and>
              ob_observation_id t \<in> set ts \<and> ob_snapshot_scope_hash t = Some sc
         else revisions_of l' k = revisions_of l k" for k
  proof (cases "newest (revisions_of l k)")
    case None
    then show ?thesis using stream(2) [of k] by simp
  next
    case (Some x)
    let ?t = "tombstone_of env d run sc now ids (head_of x, x)"
    show ?thesis
    proof (cases "k = (rh_datasource_id run, rh_lane run, dd_record_key_version d, ob_record_key_hash x) \<and>
            ob_revision_action x = Upsert \<and> ob_snapshot_scope_hash x = Some sc \<and>
            ob_record_key_hash x \<notin> set (seen_keys run l)")
      case True
      have t: "revisions_of l' k = revisions_of l k @ [?t]" using stream(1) [of k x] Some True by blast
      have key: "head_key (head_of x) = k" using newest_mem [OF Some] by simp
      have "(head_of x, x) \<in> set (missing_heads d run sc l)"
        unfolding set_missing_heads scope_head_newest [OF inv] key
        using Some True key by (auto simp: in_run_def head_of_def head_key_def)
      then have "ob_observation_id ?t \<in> set ts" unfolding f(5) by force
      then show ?thesis using t tombstone_of_fields [of env d run sc now ids x] Some True by auto
    next
      case False
      then show ?thesis using stream(2) [of k] Some by auto
    qed
  qed
  show ?thesis
    by (intro exI [of _ d] exI [of _ r] exI [of _ sc] conjI allI f(1,3) mode finalize_checksD [OF f(2)] exact)
qed

text \<open>For the witness, the observation of \<open>trial_row\<close> was recorded by an earlier run in the same scope.\<close>

definition unseen_ledger :: ledger where
  "unseen_ledger = observed_ledger\<lparr>l_run_observations := []\<rparr>"

lemma trial_tombstone:
  "\<exists>l'. finalize_full_snapshot trial_env sample_run trial_proof 24 (\<lambda>k. ''tombstone_1'') unseen_ledger = (Inr [''tombstone_1''], l')"
proof -
  obtain r where r: "finalize_checks sample_run trial_proof 24 unseen_ledger = Inr (r, zeros, ''evidence_1'')"
      "r_snapshot_scope r = Some (JObj [(''scope'', JObj [])])"
    using trial_checks [of unseen_ledger] by (auto simp: unseen_ledger_def)
  obtain j where j: "json_of (PDict trial_proof) = Inr j" using trial_proof_json by blast
  have miss: "missing_heads trial_definition sample_run zeros unseen_ledger = [(head_of trial_row, trial_row)]"
    by (simp add: missing_heads_def scope_heads_def seen_keys_def unseen_ledger_def observed_ledger_fields trial_row_fields
        head_of_def run_handle_fields trial_modes)
  have ids: "\<forall>oe \<in> set (l_observation_evidence observed_ledger). ''tombstone_1'' \<noteq> oe_observation_id oe"
    using observed_ledger_fields(6) by auto
  have t: "\<exists>l1. tombstone_record trial_env trial_definition sample_run zeros ''evidence_1'' 24 (\<lambda>k. ''tombstone_1'')
      (head_of trial_row, trial_row) unseen_ledger = (Inr ''tombstone_1'', l1)"
    using ids
    by (simp add: tombstone_record_def Let_def bind_op_def insert_observation_def observation_row_ok_def tombstone_row_def
        update_head_def insert_run_observation_def insert_observation_evidence_def unseen_ledger_def observed_ledger_fields
        trial_row_fields run_handle_fields stream_key_def head_of_def trial_modes lanes_def zeros_simps definition_exists_def
        running_eval queued_definitions dr_key_def dd_key_def run_observation_parents_def observation_evidence_parents_def
        ro_key_def running_runs trial_evidence_row_def lookup_by_None_iff oe_key_def image_iff return_op_def)
  have nonempty: "trial_proof \<noteq> []" by (simp add: trial_proof_def)
  show ?thesis
    using r miss t
    by (auto simp: finalize_full_snapshot_def run_handle_fields trial_registry trial_modes transaction_Inr bind_op_Inr
        read_op_def scope_payload_def j return_op_def nonempty complete_snapshot_def on_store_def update_runs_def)
qed

theorem finalize_snapshot_exact_witness:
  "\<exists>l' t. finalize_full_snapshot trial_env sample_run trial_proof 24 (\<lambda>k. ''tombstone_1'') unseen_ledger = (Inr [''tombstone_1''], l') \<and>
     revisions_of l' (''boe.rate'', ''production_ingestion'', ''v1'', zeros) = [trial_row, t] \<and>
     ob_revision_action t = Tombstone \<and> ob_supersedes_id t = Some ''observation_1''"
proof -
  obtain l' where run: "finalize_full_snapshot trial_env sample_run trial_proof 24 (\<lambda>k. ''tombstone_1'') unseen_ledger =
      (Inr [''tombstone_1''], l')"
    using trial_tombstone by blast
  have inv: "stream_inv unseen_ledger"
    by (rule stream_inv_frame [OF trial_streams(3)]) (simp_all add: unseen_ledger_def)
  let ?k = "(''boe.rate'', ''production_ingestion'', ''v1'', zeros)"
  have rev: "revisions_of unseen_ledger ?k = [trial_row]"
    by (simp add: revisions_of_def unseen_ledger_def observed_ledger_fields stream_key_def trial_row_fields)
  have seen: "seen_keys sample_run unseen_ledger = []" by (simp add: seen_keys_def unseen_ledger_def)
  have scope: "sc = zeros" if "r \<in> set (s_runs (l_store unseen_ledger))" "r_snapshot_scope_hash r = Some sc" for r sc
    using that by (simp add: unseen_ledger_def observed_ledger_fields running_runs)
  obtain d r sc where d: "registry_lookup (en_registry trial_env) (rh_datasource_id sample_run) (Some (rh_definition_version sample_run)) = Inr d"
      "r \<in> set (s_runs (l_store unseen_ledger))" "r_snapshot_scope_hash r = Some sc"
    and k: "\<And>k. case newest (revisions_of unseen_ledger k) of
       None \<Rightarrow> revisions_of l' k = []
     | Some x \<Rightarrow>
         if k = (rh_datasource_id sample_run, rh_lane sample_run, dd_record_key_version d, ob_record_key_hash x) \<and>
            ob_revision_action x = Upsert \<and> ob_snapshot_scope_hash x = Some sc \<and>
            ob_record_key_hash x \<notin> set (seen_keys sample_run unseen_ledger)
         then \<exists>t. revisions_of l' k = revisions_of unseen_ledger k @ [t] \<and> ob_revision_action t = Tombstone \<and>
              ob_revision_no t = ob_revision_no x + 1 \<and> ob_supersedes_id t = Some (ob_observation_id x) \<and>
              ob_observation_id t \<in> set [''tombstone_1''] \<and> ob_snapshot_scope_hash t = Some sc
         else revisions_of l' k = revisions_of unseen_ledger k"
    using finalize_snapshot_exact [OF run inv] by blast
  have "d = trial_definition" using d(1) by (simp add: run_handle_fields trial_registry)
  then show ?thesis
    using run k [of ?k] rev seen scope [OF d(2,3)]
    by (auto simp: newest_def run_handle_fields trial_modes trial_row_fields)
qed

end
