(* ===== verification/VaultSystem.thy ===== *)
theory VaultSystem
  imports Provenance ReviewInv
begin

text \<open>
  The invariant of the whole store. From an empty vault every sequence of commands reaches a vault in
  which the jobs are consistent with their attempts, the record streams are chained, every
  observation is traced to evidence of a run, and every decision and manual promotion is accounted
  for; nothing that was recorded is ever changed. The job tables still implement the lease protocol
  when evidence, reviews and promotions share the database with them.
\<close>

section \<open>The invariant\<close>

definition vault_inv :: "vault \<Rightarrow> bool" where
  "vault_inv v \<longleftrightarrow> store_inv (l_store (v_ledger v)) \<and> stream_inv (v_ledger v) \<and> provenance_inv (v_ledger v) \<and>
     review_inv (v_ledger v)"

definition empty_vault :: vault where
  "empty_vault = \<lparr>v_ledger = empty_ledger, v_objects = []\<rparr>"

lemma vault_inv_empty: "vault_inv empty_vault"
proof -
  have "l_store empty_ledger = empty_store" "l_observations empty_ledger = []" "l_observation_evidence empty_ledger = []"
    by (simp_all add: empty_ledger_def)
  then show ?thesis
    by (simp add: vault_inv_def empty_vault_def store_inv_empty stream_inv_empty review_inv_empty provenance_inv_def)
qed

lemma on_ledger_ledger: "v_ledger (snd (on_ledger m v)) = snd (m (v_ledger v))"
  by (simp add: on_ledger_def split: prod.splits)

lemma on_store_store: "l_store (snd (on_store m l)) = snd (m (l_store l))"
  by (simp add: on_store_def split: prod.splits)

text \<open>The jobs: only the job commands touch them.\<close>

lemma other_commands_jobs:
  assumes "\<And>sc. c \<noteq> VJob sc"
  shows "jobs_part (v_ledger (vault_exec c v)) = jobs_part (v_ledger v)"
proof (cases c)
  case (VJob sc)
  then show ?thesis using assms by blast
qed (simp_all add: on_ledger_ledger cj.persist_evidence_le cj.persist_observation_le cj.begin_le cj.finalize_le
      dj.open_review_le dj.decide_review_le dj.promote_review_le on_store_jobs revoke_jobs)

text \<open>A call that raised rolled back.\<close>

lemma after_call:
  assumes "\<And>a l'. m l = (Inr a, l') \<Longrightarrow> P l'" and "\<And>e l'. m l = (Inl e, l') \<Longrightarrow> l' = l" and "P l"
  shows "P (snd (m l))"
proof (cases "m l")
  case (Pair res l')
  then show ?thesis using assms by (cases res) auto
qed

lemma jobs_partD:
  assumes "jobs_part l' = jobs_part l"
  shows "s_jobs (l_store l') = s_jobs (l_store l)" and "s_attempts (l_store l') = s_attempts (l_store l)"
  using assms by (simp_all add: jobs_part_def job_tables_def)

text \<open>The streams and the links to evidence.\<close>

lemma streams_partD:
  assumes "streams_part l' = streams_part l"
  shows "l_observations l' = l_observations l" and "l_heads l' = l_heads l"
    and "l_observation_evidence l' = l_observation_evidence l"
  using assms by (simp_all add: streams_part_def)

lemma capture_fails:
  "persist_observation env run a now i l = (Inl e, l') \<Longrightarrow> l' = l"
  "finalize_full_snapshot env run pr now ids l = (Inl e, l') \<Longrightarrow> l' = l"
  by (auto simp: persist_observation_def finalize_full_snapshot_def raise_op_def dest: transaction_Inl split: sum.splits if_splits)

lemma other_commands_streams:
  assumes "\<And>env run a now i. c \<noteq> VObserve env run a now i" and "\<And>env run pr now ids. c \<noteq> VFinalize env run pr now ids"
  shows "streams_part (v_ledger (vault_exec c v)) = streams_part (v_ledger v)"
proof (cases c)
  case (VJob sc)
  then show ?thesis by (simp add: streams_part_def)
qed (use assms in \<open>simp_all add: on_ledger_ledger persist_evidence_streams begin_streams ds.open_review_le
    ds.decide_review_le ds.promote_review_le on_store_streams\<close>)

lemma vault_exec_streams:
  assumes inv: "stream_inv (v_ledger v)" "provenance_inv (v_ledger v)" and ok: "vault_admissible c v"
  shows "stream_inv (v_ledger (vault_exec c v)) \<and> provenance_inv (v_ledger (vault_exec c v))"
proof -
  have app: "ledger_appends (v_ledger v) (v_ledger (vault_exec c v))"
    using vault_exec_appends [of v c] by (simp add: vault_appends_def)
  consider (observe) env run a now i where "c = VObserve env run a now i"
    | (finalize) env run pr now ids where "c = VFinalize env run pr now ids"
    | (other) "streams_part (v_ledger (vault_exec c v)) = streams_part (v_ledger v)"
    using other_commands_streams by metis
  then show ?thesis
  proof cases
    case observe
    have sha: "\<forall>x. length (en_sha env x) = 64" using ok observe by simp
    have s: "stream_inv l' \<and> provenance_inv l'" if "persist_observation env run a now i (v_ledger v) = (Inr j, l')" for j l'
      using persist_observation_inv [OF that inv(1)] persist_observation_provenance [OF that inv(2) sha] by blast
    have "stream_inv (snd (persist_observation env run a now i (v_ledger v))) \<and>
        provenance_inv (snd (persist_observation env run a now i (v_ledger v)))"
      by (rule after_call [where P = "\<lambda>l. stream_inv l \<and> provenance_inv l", OF s capture_fails(1)]) (use inv in blast)+
    then show ?thesis using observe by (simp add: on_ledger_ledger)
  next
    case finalize
    have s: "stream_inv l' \<and> provenance_inv l'" if fin: "finalize_full_snapshot env run pr now ids (v_ledger v) = (Inr ts, l')" for ts l'
    proof -
      have "stream_inv l'" by (rule finalize_writes [OF fin inv(1)]) blast
      then show ?thesis using finalize_provenance [OF fin inv(2)] by blast
    qed
    have "stream_inv (snd (finalize_full_snapshot env run pr now ids (v_ledger v))) \<and>
        provenance_inv (snd (finalize_full_snapshot env run pr now ids (v_ledger v)))"
      by (rule after_call [where P = "\<lambda>l. stream_inv l \<and> provenance_inv l", OF s capture_fails(2)]) (use inv in blast)+
    then show ?thesis using finalize by (simp add: on_ledger_ledger)
  next
    case other
    note s = streams_partD [OF other]
    show ?thesis
      using stream_inv_frame [OF inv(1) s(1,2)] provenance_inv_frame [OF inv(2) app s(1,3)] by blast
  qed
qed

text \<open>The reviews.\<close>

lemma review_inv_frame: "review_inv l \<Longrightarrow> review_part l' = review_part l \<Longrightarrow> review_inv l'"
  by (rule review_inv_promotions [of l]) (simp_all add: review_part_def)

lemma vault_exec_reviews:
  assumes "review_inv (v_ledger v)"
  shows "review_inv (v_ledger (vault_exec c v))"
proof (cases c)
  case (VJob sc)
  have "only_automatic (l_store (v_ledger v)) (store_exec sc (l_store (v_ledger v)))" by (rule sa.store_exec_le) simp
  then show ?thesis
    using VJob by (intro review_inv_promotions [OF assms]) (auto simp: only_automatic_def manual_approval_def)
qed (simp_all add: on_ledger_ledger open_review_inv decide_review_inv promote_review_inv revoke_promotion_inv assms
    review_inv_frame [OF assms] cr.persist_evidence_le cr.persist_observation_le cr.begin_le cr.finalize_le)

section \<open>The store implements the lease protocol\<close>

text \<open>
  The third implementation of \<open>LeaseSpec\<close>: the job tables inside the whole database, with every
  command of the store.
\<close>

definition vault_view :: "vault \<Rightarrow> string \<Rightarrow> lease option" where
  "vault_view v = job_view (l_store (v_ledger v))"

lemma other_commands_view:
  assumes "\<And>sc. c \<noteq> VJob sc"
  shows "vault_view (vault_exec c v) = vault_view v"
    and "store_inv (l_store (v_ledger (vault_exec c v))) = store_inv (l_store (v_ledger v))"
proof -
  note same = jobs_partD [OF other_commands_jobs [OF assms]]
  show "vault_view (vault_exec c v) = vault_view v"
    by (simp add: vault_view_def job_view_def find_job_def fun_eq_iff same(1))
  show "store_inv (l_store (v_ledger (vault_exec c v))) = store_inv (l_store (v_ledger v))"
    by (rule store_inv_cong [OF same])
qed

interpretation lv: lease_system vault_inv vault_view vault_exec vault_admissible
proof
  fix v c j l
  assume v: "vault_inv v" and ok: "vault_admissible c v"
  then have parts: "store_inv (l_store (v_ledger v))" "stream_inv (v_ledger v)" "provenance_inv (v_ledger v)"
      "review_inv (v_ledger v)"
    by (simp_all add: vault_inv_def)
  show "vault_inv (vault_exec c v)"
  proof -
    have "store_inv (l_store (v_ledger (vault_exec c v)))"
    proof (cases "\<exists>sc. c = VJob sc")
      case True
      then show ?thesis using ls.exec_inv [OF parts(1)] ok by auto
    next
      case False
      then show ?thesis using other_commands_view(2) parts(1) by blast
    qed
    then show ?thesis
      using vault_exec_streams [OF parts(2,3) ok] vault_exec_reviews [OF parts(4), of c] by (simp add: vault_inv_def)
  qed
  show "\<exists>evs l'. vault_view (vault_exec c v) j = Some l' \<and> lease_run l evs l'" if "vault_view v j = Some l"
  proof (cases "\<exists>sc. c = VJob sc")
    case True
    then show ?thesis using ls.exec_lease [OF parts(1)] ok that by (auto simp: vault_view_def)
  next
    case False
    then show ?thesis using other_commands_view(1) that by (metis lease_run.Nil)
  qed
  show "new_lease l" if "vault_view v j = None" "vault_view (vault_exec c v) j = Some l"
  proof (cases "\<exists>sc. c = VJob sc")
    case True
    then show ?thesis using ls.exec_new [OF parts(1)] ok that by (auto simp: vault_view_def)
  next
    case False
    then show ?thesis using other_commands_view(1) that by (metis option.distinct(1))
  qed
qed

section \<open>Manual imports\<close>

text \<open>
  A manual import is a sequence of the store's own operations; what each of them keeps, the import
  keeps, on its error paths as well.
\<close>

locale import_order = op_order le for le :: "vault \<Rightarrow> vault \<Rightarrow> bool" +
  fixes E :: evidence_env
  assumes le_jobs: "le v (snd (on_ledger (on_store (enqueue (ee_env E) clock eids ea)) v))"
      "le v (snd (on_ledger (on_store (claim_job i w now lease aids token)) v))"
      "le v (snd (on_ledger (on_store (start_run claim w now aid rid)) v))"
      "le v (snd (on_ledger (on_store (finish_run (ee_env E) run st b t err False now pid)) v))"
    and le_evidence: "le v (snd (persist_evidence E run a now i v))"
    and le_observation: "le v (snd (on_ledger (persist_observation (ee_env E) run oa now i) v))"
    and le_review: "le v (snd (on_ledger (open_review d run e att ids) v))"
begin

lemma fail_run_le: "le v (snd (fail_run E run err now pid v))"
  unfolding fail_run_def by (rule le_jobs)

lemma capture_manual_le: "le v (snd (capture_manual_evidence E run va ids v))"
proof (cases "persist_evidence E run va (ii_clock ids 3) (ii_evidence ids) v")
  case (Pair res v1)
  have v1: "le v v1" using le_evidence [of v run va "ii_clock ids 3" "ii_evidence ids"] Pair by simp
  show ?thesis
  proof (cases res)
    case (Inl e)
    let ?f = "fail_run E run [(''schema_version'', JStr ''error.v1''), (''code'', JStr ''MANUAL_EVIDENCE_REJECTED''),
       (''stage'', JStr ''evidence''), (''retryable'', JBool False),
       (''details'', JObj [(''exception'', JStr (error_class e))])] (ii_clock ids 4) (ii_promotion ids) v1"
    have "snd (capture_manual_evidence E run va ids v) = snd ?f"
      by (auto simp: capture_manual_evidence_def Pair Inl split: prod.splits sum.splits store_error.splits)
    then show ?thesis using le_trans [OF v1 fail_run_le] by metis
  qed (use v1 Pair in \<open>simp add: capture_manual_evidence_def\<close>)
qed

lemma observe_submarket_le: "le v (snd (observe_submarket E sandbox run ev ids v))"
proof -
  let ?p = "persist_submarket_mapping_observation E sandbox run ev (ii_clock ids 4) (ii_observation ids) v"
  have "le v (snd ?p)"
  proof -
    have "le v (v\<lparr>v_ledger := l\<rparr>)"
      if "persist_observation (ee_env E) run oa now i (v_ledger v) = (res, l)" for oa now i res l
      using le_observation [of v run oa now i] that by (simp add: on_ledger_def)
    then show ?thesis
      by (auto simp: persist_submarket_mapping_observation_def le_refl split: sum.splits prod.splits)
  qed
  then have p: "le v v1" if "?p = (res, v1)" for res v1 using that by simp
  have f: "le v1 (snd (bind_op (fail_run E run err now pid) (\<lambda>_. raise_op e :: (vault, store_error, unit) op) v1))"
    for v1 err now pid e
    by (intro bind_le fail_run_le raise_le)
  show ?thesis
    unfolding observe_submarket_def
    by (auto split: prod.splits sum.splits intro: p le_trans [OF p f])
qed

lemma import_le: "le v (snd (import_manual_evidence E sandbox a ids v))"
  unfolding import_manual_evidence_def
  by (auto split: sum.splits option.splits
      intro!: raise_le return_le bind_le le_jobs capture_manual_le observe_submarket_le le_review)

end

text \<open>An import is a run of the commands.\<close>

definition vault_le :: "vault \<Rightarrow> vault \<Rightarrow> bool" where
  "vault_le v v' \<longleftrightarrow> (\<exists>cs. reaches vault_exec vault_admissible v cs v')"

lemma reaches_append:
  "reaches exec ok s cs s1 \<Longrightarrow> reaches exec ok s1 ds s2 \<Longrightarrow> reaches exec ok s (cs @ ds) s2"
  by (induction cs arbitrary: s) auto

lemma vault_le_step: "vault_admissible c v \<Longrightarrow> vault_le v (vault_exec c v)"
  unfolding vault_le_def by (rule exI [of _ "[c]"]) simp

interpretation vl: op_order vault_le
proof
  show "vault_le v v" for v unfolding vault_le_def by (rule exI [of _ "[]"]) simp
  show "vault_le v w" if "vault_le v u" "vault_le u w" for v u w
    using that unfolding vault_le_def by (meson reaches_append)
qed

lemma job_op_le:
  assumes "\<And>s. store_exec c s = snd (m s)" and "\<And>s. store_admissible c s"
  shows "vault_le v (snd (on_ledger (on_store m) v))"
proof -
  have "snd (on_ledger (on_store m) v) = vault_exec (VJob c) v"
    using assms(1) by (simp add: on_ledger_def on_store_def split: prod.splits)
  then show ?thesis using vault_le_step [of "VJob c" v] assms(2) by simp
qed

lemma job_ops_le:
  "vault_le v (snd (on_ledger (on_store (enqueue env clock eids ea)) v))"
  "vault_le v (snd (on_ledger (on_store (claim_job i w now lease aids token)) v))"
  "vault_le v (snd (on_ledger (on_store (start_run claim w now aid rid)) v))"
  "vault_le v (snd (on_ledger (on_store (finish_run env run st b t err p now pid)) v))"
proof -
  show "vault_le v (snd (on_ledger (on_store (enqueue env clock eids ea)) v))"
    by (rule job_op_le [where c = "SEnqueue env clock eids ea"]) simp_all
  show "vault_le v (snd (on_ledger (on_store (claim_job i w now lease aids token)) v))"
    by (rule job_op_le [where c = "SClaimJob i w now lease aids token"]) simp_all
  show "vault_le v (snd (on_ledger (on_store (start_run claim w now aid rid)) v))"
    by (rule job_op_le [where c = "SStartRun claim w now aid rid"]) simp_all
  show "vault_le v (snd (on_ledger (on_store (finish_run env run st b t err p now pid)) v))"
    by (rule job_op_le [where c = "SFinishRun env run st b t err p now pid"]) simp_all
qed

lemma ledger_ops_le:
  "vault_le v (snd (persist_evidence E run a now i v))"
  "vault_le v (snd (on_ledger (open_review d run e att ids) v))"
  "\<forall>x. length (en_sha env x) = 64 \<Longrightarrow> vault_le v (snd (on_ledger (persist_observation env run oa now i) v))"
  using vault_le_step [of "VEvidence E run a now i" v] vault_le_step [of "VOpenReview d run e att ids" v]
    vault_le_step [of "VObserve env run oa now i" v]
  by simp_all

interpretation ir: import_order "\<lambda>v v'. (\<forall>x. length (en_sha (ee_env E) x) = 64) \<longrightarrow> vault_le v v'" E for E
  by unfold_locales (auto intro: vl.le_refl vl.le_trans job_ops_le ledger_ops_le)

text \<open>Importing promotes nothing and decides nothing.\<close>

definition decided_part :: "vault \<Rightarrow> promotion_row list \<times> decision_row list \<times> manual_promotion_row list" where
  "decided_part v = (s_promotions (l_store (v_ledger v)), l_decisions (v_ledger v), l_manual_promotions (v_ledger v))"

interpretation vd: op_order "\<lambda>v v'. decided_part v' = decided_part v"
  by unfold_locales simp_all

lemma job_ops_decided:
  "decided_part (snd (on_ledger (on_store (enqueue env clock eids ea)) v)) = decided_part v"
  "decided_part (snd (on_ledger (on_store (claim_job i w now lease aids token)) v)) = decided_part v"
  "decided_part (snd (on_ledger (on_store (start_run claim w now aid rid)) v)) = decided_part v"
  "decided_part (snd (on_ledger (on_store (finish_run env run st b t err False now pid)) v)) = decided_part v"
proof -
  have frame: "decided_part (snd (on_ledger (on_store m) v)) = decided_part v"
    if "s_promotions (snd (m (l_store (v_ledger v)))) = s_promotions (l_store (v_ledger v))" for m :: "'z store_op"
    using that by (auto simp: on_ledger_def on_store_def decided_part_def split: prod.splits)
  show "decided_part (snd (on_ledger (on_store (enqueue env clock eids ea)) v)) = decided_part v"
    by (intro frame sk.enqueue_le TrueI)
  show "decided_part (snd (on_ledger (on_store (claim_job i w now lease aids token)) v)) = decided_part v"
    unfolding claim_job_def by (intro frame sk.claim_le)
  have "s_promotions (snd (start_run claim w now aid rid s)) = s_promotions s" for s
    by (auto simp: start_run_def split: option.splits intro!: sk.step_intros sk.start_attempt_le)
  then show "decided_part (snd (on_ledger (on_store (start_run claim w now aid rid)) v)) = decided_part v"
    by (rule frame)
  show "decided_part (snd (on_ledger (on_store (finish_run env run st b t err False now pid)) v)) = decided_part v"
    by (intro frame sk.finish_unpromoted_le)
qed

interpretation id: import_order "\<lambda>v v'. decided_part v' = decided_part v" E for E
proof unfold_locales
  fix v :: vault and run a now i oa d e att ids
  show "decided_part (snd (persist_evidence E run a now i v)) = decided_part v"
    using cr.persist_evidence_le [of E run a now i v] by (simp add: decided_part_def review_part_def)
  show "decided_part (snd (on_ledger (persist_observation (ee_env E) run oa now i) v)) = decided_part v"
    using cr.persist_observation_le [of "ee_env E" run oa now i "v_ledger v"]
    by (simp add: decided_part_def review_part_def on_ledger_ledger)
  show "decided_part (snd (on_ledger (open_review d run e att ids) v)) = decided_part v"
    by (auto simp: open_review_def on_ledger_ledger decided_part_def transaction_def bind_op_def read_op_def return_op_def
        insert_review_def split: sum.splits prod.splits if_splits)
qed (rule job_ops_decided)+

lemma import_steps:
  assumes "import_manual_evidence E sandbox a ids v = (Inr r, v')"
  obtains attestation d run ev v1 v2 v3 v4 where
    "registry_lookup (en_registry (ee_env E)) (ia_datasource_id a) None = Inr d"
    "capture_manual_evidence E run (manual_evidence_args a attestation) ids v1 = (Inr ev, v2)"
    "(if ia_datasource_id a = submarket_datasource then observe_submarket E sandbox run ev ids else return_op ()) v2 = (Inr (), v3)"
    "on_ledger (open_review d run (fst ev) attestation ids) v3 = (Inr (mr_review_id r), v4)"
    "on_ledger (on_store (finish_run (ee_env E) run A_SUCCEEDED False None [] False (ii_clock ids 7) (ii_promotion ids))) v4 = (Inr (), v')"
    "mr_run_id r = rh_run_id run" "mr_evidence_id r = fst ev"
proof -
  obtain attestation d where d: "import_attestation a = Inr attestation"
      "registry_lookup (en_registry (ee_env E)) (ia_datasource_id a) None = Inr d"
    using assms by (auto simp: import_manual_evidence_def raise_op_def split: sum.splits)
  note red = assms [unfolded import_manual_evidence_def d sum.case bind_op_Inr]
  then obtain claim v0 where c: "(case claim of None \<Rightarrow> raise_op (OperationalError ''manual evidence job could not be claimed'')
      | Some c \<Rightarrow> bind_op (on_ledger (on_store (start_run c (ia_actor_id a) (ii_clock ids 2) (ii_attempt ids) (ii_run ids)))) (\<lambda>run.
          bind_op (capture_manual_evidence E run (manual_evidence_args a attestation) ids) (\<lambda>ev.
          bind_op (if ia_datasource_id a = submarket_datasource then observe_submarket E sandbox run ev ids else return_op ()) (\<lambda>_.
          bind_op (on_ledger (open_review d run (fst ev) attestation ids)) (\<lambda>review_id.
          bind_op (on_ledger (on_store (finish_run (ee_env E) run A_SUCCEEDED False None [] False
            (ii_clock ids 7) (ii_promotion ids)))) (\<lambda>_.
          return_op \<lparr>mr_run_id = rh_run_id run, mr_evidence_id = fst ev, mr_review_id = review_id,
            mr_state = ''succeeded''\<rparr>)))))) v0 = (Inr r, v')"
    by blast
  obtain k where k: "claim = Some k" using c by (cases claim) (simp_all add: raise_op_def)
  obtain run v1 ev v2 v3 rid v4 where
      "capture_manual_evidence E run (manual_evidence_args a attestation) ids v1 = (Inr ev, v2)"
      "(if ia_datasource_id a = submarket_datasource then observe_submarket E sandbox run ev ids else return_op ()) v2 = (Inr (), v3)"
      "on_ledger (open_review d run (fst ev) attestation ids) v3 = (Inr rid, v4)"
      "on_ledger (on_store (finish_run (ee_env E) run A_SUCCEEDED False None [] False (ii_clock ids 7) (ii_promotion ids))) v4 = (Inr (), v')"
      "r = \<lparr>mr_run_id = rh_run_id run, mr_evidence_id = fst ev, mr_review_id = rid, mr_state = ''succeeded''\<rparr>"
    using c [unfolded k option.case bind_op_Inr] by (auto simp: return_op_def)
  then show thesis by (intro that [OF d(2)]) simp_all
qed

lemma open_review_Inr:
  assumes "open_review d run e att ids l = (Inr rid, l')"
  shows "case rid of
      None \<Rightarrow> dd_promotion_policy d \<noteq> ''manual_review''
    | Some i \<Rightarrow> \<exists>x \<in> set (l_reviews l'). rt_review_id x = i \<and> rt_state x = R_OPEN \<and> rt_run_id x = Some (rh_run_id run)"
  using assms
  by (auto simp: open_review_def return_op_def transaction_Inr bind_op_Inr insert_review_def split: if_splits)

lemma capture_manual_Inr:
  assumes "capture_manual_evidence E run va ids v = (Inr ev, v')"
  shows "persist_evidence E run va (ii_clock ids 3) (ii_evidence ids) v = (Inr ev, v')"
  using assms by (auto simp: capture_manual_evidence_def split: prod.splits sum.splits store_error.splits)

lemma evidence_recorded:
  assumes "persist_evidence E run va now i v = (Inr (j, art), v')"
  shows "\<exists>ev \<in> set (l_evidence (v_ledger v')). ev_evidence_id ev = j"
    and "\<exists>re \<in> set (l_run_evidence (v_ledger v')). re_run_id re = rh_run_id run \<and> re_evidence_id re = j \<and> re_required re = va_required va"
proof -
  have "(\<exists>ev \<in> set (l_evidence (v_ledger v')). ev_evidence_id ev = j) \<and>
      (\<exists>re \<in> set (l_run_evidence (v_ledger v')). re_run_id re = rh_run_id run \<and> re_evidence_id re = j \<and> re_required re = va_required va)"
    using assms
  proof (cases rule: persist_evidence_cases)
    case (1 m media q)
    show ?thesis by (rule record_evidence_Inr [OF 1(6)]) (simp add: 1(7) evidence_entry_def)
  qed
  then show "\<exists>ev \<in> set (l_evidence (v_ledger v')). ev_evidence_id ev = j"
    "\<exists>re \<in> set (l_run_evidence (v_ledger v')). re_run_id re = rh_run_id run \<and> re_evidence_id re = j \<and> re_required re = va_required va"
    by blast+
qed

end
