(* ===== verification/VaultDemo.thy ===== *)
theory VaultDemo
  imports VaultSystem
begin

text \<open>
  Sample histories of the whole store for the witnesses: a captured and reviewed observation, and a
  manual import from an empty database to an open review.
\<close>

section \<open>A captured observation and its review\<close>

definition desk_definition :: definition_descriptor where
  "desk_definition = sample_definition\<lparr>dd_promotion_policy := ''manual_review''\<rparr>"

definition desk_ids :: import_ids where
  "desk_ids = \<lparr>ii_instance = ''instance_1'', ii_enqueue = sample_ids, ii_token = ''claim_1'', ii_attempt = ''attempt_1'',
     ii_run = ''run_1'', ii_evidence = ''evidence_1'', ii_observation = ''observation_1'', ii_review = ''review_1'',
     ii_promotion = ''promotion_1'', ii_audit = (\<lambda>i. ''audit_2''), ii_clock = (\<lambda>n. 20 + int n)\<rparr>"

definition trial_commands :: "vault_command list" where
  "trial_commands = map VJob sample_commands @
     [VEvidence trial_evidence_env sample_run trial_evidence 21 ''evidence_1'',
      VBegin trial_env sample_run [] 22,
      VObserve trial_env sample_run trial_observation 23 ''observation_1'']"

lemma reaches_jobs:
  "reaches store_exec store_admissible s cs s' \<Longrightarrow>
     reaches vault_exec vault_admissible (v\<lparr>v_ledger := (v_ledger v)\<lparr>l_store := s\<rparr>\<rparr>) (map VJob cs)
       (v\<lparr>v_ledger := (v_ledger v)\<lparr>l_store := s'\<rparr>\<rparr>)"
  by (induction cs arbitrary: s) auto

lemma trial_reaches:
  "reaches vault_exec vault_admissible empty_vault trial_commands (evidence_vault\<lparr>v_ledger := observed_ledger\<rparr>)"
proof -
  have jobs: "reaches vault_exec vault_admissible empty_vault (map VJob sample_commands) trial_vault"
    using reaches_jobs [OF running_reaches, of empty_vault] by (simp add: empty_vault_def trial_vault_def empty_ledger_def)
  have e: "snd (persist_evidence trial_evidence_env sample_run trial_evidence 21 ''evidence_1'' trial_vault) = evidence_vault"
    by (simp add: trial_persist_evidence)
  have b: "snd (on_ledger (begin_full_snapshot trial_env sample_run [] 22) evidence_vault) = evidence_vault\<lparr>v_ledger := scoped_ledger\<rparr>"
    by (simp add: on_ledger_def trial_begin)
  have o: "snd (on_ledger (persist_observation trial_env sample_run trial_observation 23 ''observation_1'')
      (evidence_vault\<lparr>v_ledger := scoped_ledger\<rparr>)) = evidence_vault\<lparr>v_ledger := observed_ledger\<rparr>"
    by (simp add: on_ledger_def trial_observe)
  show ?thesis
    unfolding trial_commands_def by (rule reaches_append [OF jobs]) (simp add: e b o zeros_simps)
qed

definition reviewed_vault :: vault where
  "reviewed_vault = vault_exec (VDecide ''review_1'' ''approved'' ''ops'' None 27 ''decision_1'' ''audit_2'')
     (vault_exec (VOpenReview desk_definition sample_run ''evidence_1'' None desk_ids)
       (evidence_vault\<lparr>v_ledger := observed_ledger\<rparr>))"

lemma reviewed_reaches: "reaches vault_exec vault_admissible empty_vault
   (trial_commands @ [VOpenReview desk_definition sample_run ''evidence_1'' None desk_ids,
      VDecide ''review_1'' ''approved'' ''ops'' None 27 ''decision_1'' ''audit_2'']) reviewed_vault"
  by (rule reaches_append [OF trial_reaches]) (simp add: reviewed_vault_def)

lemma observed_reviews: "l_reviews observed_ledger = []" "l_decisions observed_ledger = []"
proof -
  have "review_part observed_ledger = review_part scoped_ledger"
    using cr.persist_observation_le [of trial_env sample_run trial_observation 23 "''observation_1''" scoped_ledger]
    by (simp add: trial_observe)
  also have "\<dots> = review_part (v_ledger evidence_vault)"
    using cr.begin_le [of trial_env sample_run "[]" 22 "v_ledger evidence_vault"] by (simp add: trial_begin)
  also have "\<dots> = review_part (v_ledger trial_vault)"
    using cr.persist_evidence_le [of trial_evidence_env sample_run trial_evidence 21 "''evidence_1''" trial_vault]
    by (simp add: trial_persist_evidence)
  finally show "l_reviews observed_ledger = []" "l_decisions observed_ledger = []"
    by (simp_all add: review_part_def trial_vault_def empty_ledger_def)
qed

lemma reviewed_rows:
  "\<exists>r d. l_reviews (v_ledger reviewed_vault) = [r] \<and> rt_review_id r = ''review_1'' \<and> rt_state r = R_APPROVED \<and>
     l_decisions (v_ledger reviewed_vault) = [d]"
proof -
  obtain q where q: "require_running_run sample_run 26 running_store = Inr q" using trial_running [of 26] by auto
  have aud: "lookup_by ae_audit_id ''audit_2'' (s_audit running_store) = None"
    using arg_cong [OF claimed_store_audit, of set] by (auto simp: running_tables(2) lookup_by_None_iff)
  have clk: "ii_clock desk_ids n = 20 + int n" "ii_review desk_ids = ''review_1''" for n by (simp_all add: desk_ids_def)
  have def: "dd_promotion_policy desk_definition = ''manual_review''" "dd_datasource_id desk_definition = ''boe.rate''"
      "dd_definition_version desk_definition = 1"
    by (simp_all add: desk_definition_def sample_definition_simps)
  obtain l1 x where l1: "open_review desk_definition sample_run ''evidence_1'' None desk_ids observed_ledger = (Inr (Some ''review_1''), l1)"
      "l1 = observed_ledger\<lparr>l_reviews := [x]\<rparr>" "rt_review_id x = ''review_1''" "rt_state x = R_OPEN"
    by (simp add: open_review_def def clk transaction_def bind_op_def read_op_def observed_ledger_fields q trial_running_frame
        insert_review_def observed_reviews definition_exists_def running_eval queued_definitions dr_key_def dd_key_def
        run_handle_fields running_runs return_op_def)
  show ?thesis
    by (simp add: reviewed_vault_def on_ledger_def l1 decide_review_def transaction_def record_decision_def bind_op_def
        update_reviews_def insert_decision_def rowcount_def update_where_def observed_reviews on_store_def audit_def
        observed_ledger_fields aud return_op_def)
qed

section \<open>A manual import\<close>

definition desk_env :: evidence_env where
  "desk_env = trial_evidence_env\<lparr>ee_env := \<lparr>en_registry = \<lparr>rg_sources = [sample_source], rg_definitions = [desk_definition]\<rparr>,
     en_urllib = sample_urllib, en_sha = sample_sha\<rparr>\<rparr>"

definition desk_args :: import_args where
  "desk_args = \<lparr>ia_datasource_id = ''boe.rate'', ia_body = ''hi'', ia_media_type = None, ia_source_url = None,
     ia_attestation = None, ia_retention_until = Some 1000, ia_actor_id = ''ops''\<rparr>"

definition desk_enqueue :: enqueue_args where
  "desk_enqueue = manual_enqueue_args desk_args desk_definition None ''instance_1''"

definition desk_request :: "(string \<times> json) list" where
  "desk_request = [(''manual_import'', JBool True), (''source_url'', JNull), (''attestation'', JNull)]"

lemma desk_keys: "\<not> sensitive_key ''manual_import''" "\<not> sensitive_key ''source_url''" "\<not> sensitive_key ''attestation''"
proof -
  have low: "lower ''manual_import'' = ''manual_import''" "lower ''source_url'' = ''source_url''" "lower ''attestation'' = ''attestation''"
    by (simp_all add: lower_def lower_char_def char_of_def bit_0)
  show "\<not> sensitive_key ''manual_import''" unfolding sensitive_key_def low by code_simp
  show "\<not> sensitive_key ''source_url''" unfolding sensitive_key_def low by code_simp
  show "\<not> sensitive_key ''attestation''" unfolding sensitive_key_def low by code_simp
qed

lemma desk_redacted: "redact_pairs sample_urllib desk_request = Inr desk_request"
  by (simp add: desk_request_def desk_keys)

definition desk_queued :: store where
  "desk_queued = snd (enqueue (ee_env desk_env) 20 sample_ids desk_enqueue empty_store)"

lemma desk_args_fields: "ea_request desk_enqueue = Some desk_request" "ea_trigger desk_enqueue = ''manual''"
  "ea_datasource_id desk_enqueue = ''boe.rate''" "ea_definition_version desk_enqueue = None"
  "ea_lane desk_enqueue = Some ''production_ingestion''" "ea_request_instance_id desk_enqueue = Some ''instance_1''"
  "ea_job_kind desk_enqueue = Some ''manual_submission''" "ea_window_start desk_enqueue = None" "ea_window_end desk_enqueue = None"
  "ea_schedule_id desk_enqueue = None" "ea_parent_job_id desk_enqueue = None" "ea_scheduled_for desk_enqueue = None"
  "ea_generation desk_enqueue = 0" "ea_priority desk_enqueue = 100"
  by (simp_all add: desk_enqueue_def manual_enqueue_args_def enqueue_defaults_def desk_request_def desk_args_def opt_json_def
     desk_definition_def sample_definition_simps)

lemma desk_env_fields: "en_registry (ee_env desk_env) = \<lparr>rg_sources = [sample_source], rg_definitions = [desk_definition]\<rparr>"
  "en_urllib (ee_env desk_env) = sample_urllib" "en_sha (ee_env desk_env) = sample_sha"
  by (simp_all add: desk_env_def)

definition desk_prepared :: prepared_job where
  "desk_prepared = \<lparr>pj_definition = desk_definition, pj_lane = ''production_ingestion'', pj_kind = ''manual_submission'',
     pj_request = desk_request\<rparr>"

lemma desk_prepare: "enqueue_prepare (ee_env desk_env) desk_enqueue = Inr desk_prepared"
  using desk_redacted
  by (simp add: enqueue_prepare_def registry_lookup_def desk_args_fields desk_env_fields desk_definition_def sample_definition_simps
     lanes_def triggers_def enqueue_job_kinds_def dd_key_def desk_request_def desk_prepared_def Let_def)

lemma desk_defs: "dd_datasource_id desk_definition = ''boe.rate''" "dd_definition_version desk_definition = 1"
  "dd_schedules desk_definition = []" "dd_source_bindings desk_definition = [\<lparr>sb_source_id = ''boe'', sb_source_version = 1, sb_role = ''primary'', sb_required = True\<rparr>]"
  "dd_access_class desk_definition = ''open''" "dd_status desk_definition = ''production''"
  "dd_retry_policy desk_definition = JObj [(''max_attempts'', JInt 2), (''base_delay_seconds'', JInt 30)]"
  "dd_default_lane desk_definition = ''production_ingestion''" "dd_promotion_policy desk_definition = ''manual_review''"
  "dd_approved_by desk_definition = Some ''architect''" "dd_approved_at desk_definition = Some ''2026-07-31T00:00:00.000000Z''"
  by (simp_all add: desk_definition_def sample_definition_def)

lemma desk_queued_fields:
  "enqueue (ee_env desk_env) 20 sample_ids desk_enqueue empty_store =
     (Inr \<lparr>er_job_id = ''job_1'', er_disposition = ''accepted'', er_state = QUEUED\<rparr>, desk_queued)"
  "s_jobs desk_queued = [enqueue_row (ee_env desk_env) desk_enqueue desk_prepared 20 ''job_1'' (Some ''instance_1'')]"
  "s_attempts desk_queued = []" "s_runs desk_queued = []" "s_promotions desk_queued = []"
  "map ae_audit_id (s_audit desk_queued) = [''audit_1'']"
  "map dr_definition (s_definitions desk_queued) = [desk_definition]"
  "map so_source (s_sources desk_queued) = [sample_source]"
  by (simp_all add: desk_queued_def enqueue_def sync_eval desk_env_fields desk_prepare desk_defs enqueue_insert_def enqueue_row_def
    desk_args_fields desk_prepared_def insert_job_def job_row_ok_def audit_def max_attempts_def sample_ids_def empty_store_def
    sample_source_simps sample_registry_simps triggers_def enqueue_dedupe_def)

definition desk_claim :: claimed_job where
  "desk_claim = \<lparr>cj_job_id = ''job_1'', cj_claim_token = ''claim_1'', cj_datasource_id = Some ''boe.rate'',
     cj_definition_version = Some 1, cj_lane = Some ''production_ingestion'', cj_job_kind = ''manual_submission'',
     cj_window_start = None, cj_window_end = None, cj_request = JObj desk_request\<rparr>"

definition desk_claimed :: store where
  "desk_claimed = snd (claim_job ''job_1'' ''ops'' 21 180 (\<lambda>i. ''audit_2'') ''claim_1'' desk_queued)"

lemma desk_claimed_fields:
  "claim_job ''job_1'' ''ops'' 21 180 (\<lambda>i. ''audit_2'') ''claim_1'' desk_queued = (Inr (Some desk_claim), desk_claimed)"
  "s_jobs desk_claimed = map (\<lambda>x. x\<lparr>j_state := CLAIMED, j_claim_token := Some ''claim_1'',
     j_claimed_by := Some ''ops'', j_claimed_at := Some 21, j_lease_expires_at := Some (21 + seconds 180),
     j_heartbeat_at := Some 21\<rparr>) (s_jobs desk_queued)"
  "s_attempts desk_claimed = []" "s_runs desk_claimed = []"
  "s_definitions desk_claimed = s_definitions desk_queued" "s_sources desk_claimed = s_sources desk_queued"
  by (simp_all add: desk_claimed_def claim_job_def claim_eval desk_queued_fields enqueue_row_def desk_args_fields desk_prepared_def
      desk_claim_def desk_defs)

definition desk_running :: store where
  "desk_running = snd (start_run desk_claim ''ops'' 22 ''attempt_1'' ''run_1'' desk_claimed)"

lemma desk_definitions: "\<exists>h. s_definitions desk_queued = [\<lparr>dr_definition = desk_definition, dr_definition_hash = h, dr_created_at = 20\<rparr>]"
  by (simp add: desk_queued_def enqueue_def sync_eval desk_env_fields desk_prepare desk_defs enqueue_insert_def enqueue_row_def
    desk_args_fields desk_prepared_def insert_job_def job_row_ok_def audit_def max_attempts_def sample_ids_def empty_store_def
    sample_source_simps sample_registry_simps triggers_def enqueue_dedupe_def)

lemma desk_running_fields:
  "start_run desk_claim ''ops'' 22 ''attempt_1'' ''run_1'' desk_claimed = (Inr sample_run, desk_running)"
  "s_jobs desk_running = map (\<lambda>x. x\<lparr>j_state := RUNNING, j_attempt_count := 1, j_started_at := Some 22,
     j_heartbeat_at := Some 22\<rparr>) (s_jobs desk_claimed)"
  "map a_attempt_id (s_attempts desk_running) = [''attempt_1'']" "map a_job_id (s_attempts desk_running) = [''job_1'']"
  "map a_status (s_attempts desk_running) = [A_RUNNING]"
  "map r_run_id (s_runs desk_running) = [''run_1'']" "s_promotions desk_running = s_promotions desk_claimed"
  "s_definitions desk_running = s_definitions desk_queued" "s_sources desk_running = s_sources desk_queued"
proof -
  obtain h where h: "s_definitions desk_queued = [\<lparr>dr_definition = desk_definition, dr_definition_hash = h, dr_created_at = 20\<rparr>]"
    using desk_definitions by blast
  note eval = desk_running_def start_run_def start_attempt_def owned_def desk_claim_def bind_op_def transaction_def
    update_jobs_def insert_attempt_def insert_run_def return_op_def Let_def rowcount_def update_where_def
    desk_claimed_fields desk_queued_fields enqueue_row_def desk_args_fields desk_prepared_def
    seconds_def definition_exists_def h dr_key_def dd_key_def lanes_def max_attempts_def desk_defs sample_run_def
    desk_env_fields sample_registry_simps
  show
  "start_run desk_claim ''ops'' 22 ''attempt_1'' ''run_1'' desk_claimed = (Inr sample_run, desk_running)"
  "s_jobs desk_running = map (\<lambda>x. x\<lparr>j_state := RUNNING, j_attempt_count := 1, j_started_at := Some 22,
     j_heartbeat_at := Some 22\<rparr>) (s_jobs desk_claimed)"
  "map a_attempt_id (s_attempts desk_running) = [''attempt_1'']" "map a_job_id (s_attempts desk_running) = [''job_1'']"
  "map a_status (s_attempts desk_running) = [A_RUNNING]"
  "map r_run_id (s_runs desk_running) = [''run_1'']" "s_promotions desk_running = s_promotions desk_claimed"
  "s_definitions desk_running = s_definitions desk_queued" "s_sources desk_running = s_sources desk_queued"
    by (simp_all add: eval)
qed


definition desk_vault :: vault where
  "desk_vault = \<lparr>v_ledger = empty_ledger\<lparr>l_store := desk_running\<rparr>, v_objects = []\<rparr>"

definition desk_evidence :: evidence_args where
  "desk_evidence = manual_evidence_args desk_args None"

lemma desk_evidence_fields: "va_body desk_evidence = Some ''hi''" "va_artifact desk_evidence = None" "va_role desk_evidence = ''primary''"
  "va_media_type desk_evidence = None" "va_required desk_evidence" "va_source_id desk_evidence = None" "va_retrieved_at desk_evidence = None"
  "va_retention_until desk_evidence = Some 1000"
  "va_request desk_evidence = Some [(''method'', JStr ''MANUAL_IMPORT''), (''source_url'', JNull)]"
  "va_response desk_evidence = Some [(''attestation'', JNull)]"
  by (simp_all add: desk_evidence_def manual_evidence_args_def desk_args_def opt_json_def)

lemma desk_runs: "now < 180000000 \<Longrightarrow> \<exists>q. require_running_run sample_run now desk_running = Inr q"
proof -
  obtain h where h: "s_definitions desk_queued = [\<lparr>dr_definition = desk_definition, dr_definition_hash = h, dr_created_at = 20\<rparr>]"
    using desk_definitions by blast
  obtain a where a: "s_attempts desk_running = [a]" "a_attempt_id a = ''attempt_1''" "a_job_id a = ''job_1''" "a_status a = A_RUNNING"
    using desk_running_fields(3-5) by (cases "s_attempts desk_running") auto
  assume "now < 180000000"
  then show ?thesis
    by (simp add: require_running_run_def owned_def sample_run_def desk_running_fields desk_claimed_fields desk_queued_fields
        enqueue_row_def desk_args_fields desk_prepared_def h dr_key_def dd_key_def desk_defs a seconds_def)
qed

lemma desk_metadata:
  "prepare_evidence_metadata desk_env sample_run desk_evidence 23 = Inr
     \<lparr>em_definition = desk_definition, em_binding = \<lparr>sb_source_id = ''boe'', sb_source_version = 1, sb_role = ''primary'',
        sb_required = True\<rparr>, em_retrieved = 23, em_retention = Some 1000\<rparr>"
proof -
  have reg: "registry_lookup (en_registry (ee_env desk_env)) ''boe.rate'' (Some 1) = Inr desk_definition"
      "lookup_source (en_registry (ee_env desk_env)) ''boe'' (Some 1) = Inr sample_source"
    by (simp_all add: desk_env_fields registry_lookup_def lookup_source_def dd_key_def sr_key_def desk_defs sample_source_simps)
  have "dd_retention_policy desk_definition = ''open''" by (simp add: desk_definition_def sample_definition_def)
  then show ?thesis
    by (simp add: prepare_evidence_metadata_def reg run_handle_fields desk_evidence_fields desk_defs
        validate_evidence_provenance_def dict_or_empty_def dict_get_def retention_deadline_def)
qed

lemma desk_body: "validate_evidence_body desk_env desk_definition desk_evidence [] = Inr None"
proof -
  have "artifact_policy_for desk_definition = Inr default_artifact_policy"
    by (simp add: artifact_policy_for_def desk_definition_def sample_definition_def media_items_def bound_of_def
        default_artifact_policy_def artifact_policy_post_init_def)
  then show ?thesis
    by (simp add: validate_evidence_body_def desk_evidence_fields desk_env_def trial_evidence_env_def trial_media)
qed

lemma desk_publish:
  "publish_evidence desk_env desk_evidence None [] =
     (Inr trial_artifact, [((''00'', replicate 64 (CHR ''0'')), RegularFile ''hi'')])"
  by (simp add: publish_evidence_def desk_evidence_fields desk_env_fields put_bytes_def put_stream_def
      read_chunks.simps sample_sha_def trial_path trial_artifact_def Let_def)

lemma desk_captured:
  "\<exists>v2. persist_evidence desk_env sample_run desk_evidence 23 ''evidence_1'' desk_vault = (Inr (''evidence_1'', trial_artifact), v2) \<and>
     l_store (v_ledger v2) = desk_running \<and> l_reviews (v_ledger v2) = []"
proof -
  obtain q where q: "require_running_run sample_run 23 desk_running = Inr q" using desk_runs [of 23] by auto
  obtain so where so: "s_sources desk_running = [so]" "so_source so = sample_source"
    using desk_queued_fields(8) desk_running_fields(9) by (cases "s_sources desk_running") auto
  obtain r where r: "s_runs desk_running = [r]" "r_run_id r = ''run_1''"
    using desk_running_fields(6) by (cases "s_runs desk_running") auto
  have red: "\<exists>j. redacted_json desk_env (va_request desk_evidence) = Inr j" "\<exists>j. redacted_json desk_env (va_response desk_evidence) = Inr j"
    by (simp_all add: redacted_json_def desk_evidence_fields dict_or_empty_def method_key url_keys_def desk_keys)
  then obtain j1 j2 where j: "redacted_json desk_env (va_request desk_evidence) = Inr j1" "redacted_json desk_env (va_response desk_evidence) = Inr j2"
    by blast
  show ?thesis
    using r so
    by (simp add: persist_evidence_def desk_vault_def desk_metadata desk_body q desk_publish record_evidence_def
      transaction_def bind_op_def read_op_def insert_content_def insert_evidence_def insert_run_evidence_def j
      desk_evidence_fields(1-3,5) run_handle_fields desk_defs empty_ledger_def so_key_def access_classes_def trial_artifact_def
      sample_source_simps sr_key_def)
qed


lemma desk_import: "\<exists>v'. import_manual_evidence desk_env sandbox desk_args desk_ids empty_vault =
   (Inr \<lparr>mr_run_id = ''run_1'', mr_evidence_id = ''evidence_1'', mr_review_id = Some ''review_1'', mr_state = ''succeeded''\<rparr>, v')"
proof -
  obtain v2 where v2: "persist_evidence desk_env sample_run desk_evidence 23 ''evidence_1'' desk_vault = (Inr (''evidence_1'', trial_artifact), v2)"
      "l_store (v_ledger v2) = desk_running" "l_reviews (v_ledger v2) = []"
    using desk_captured by blast
  obtain h where h: "s_definitions desk_queued = [\<lparr>dr_definition = desk_definition, dr_definition_hash = h, dr_created_at = 20\<rparr>]"
    using desk_definitions by blast
  obtain r where r: "s_runs desk_running = [r]" "r_run_id r = ''run_1''"
    using desk_running_fields(6) by (cases "s_runs desk_running") auto
  obtain q where q: "require_running_run sample_run 26 desk_running = Inr q" using desk_runs [of 26] by auto
  obtain q' where q': "require_running_run sample_run 27 desk_running = Inr q'" using desk_runs [of 27] by auto
  let ?v0 = "\<lambda>s. empty_vault\<lparr>v_ledger := (v_ledger empty_vault)\<lparr>l_store := s\<rparr>\<rparr>"
  have clk: "ii_clock desk_ids n = 20 + int n" "ii_review desk_ids = ''review_1''" for n by (simp_all add: desk_ids_def)
  have reg: "registry_lookup (en_registry (ee_env desk_env)) ''boe.rate'' None = Inr desk_definition"
      "registry_lookup (en_registry (ee_env desk_env)) ''boe.rate'' (Some 1) = Inr desk_definition"
    by (simp_all add: desk_env_fields registry_lookup_def dd_key_def desk_defs)
  have 1: "on_ledger (on_store (enqueue (ee_env desk_env) 20 sample_ids desk_enqueue)) empty_vault =
      (Inr \<lparr>er_job_id = ''job_1'', er_disposition = ''accepted'', er_state = QUEUED\<rparr>, ?v0 desk_queued)"
    by (simp add: on_ledger_def on_store_def empty_vault_def empty_ledger_def desk_queued_fields(1))
  have 2: "on_ledger (on_store (claim_job ''job_1'' ''ops'' 21 180 (\<lambda>i. ''audit_2'') ''claim_1'')) (?v0 desk_queued) =
      (Inr (Some desk_claim), ?v0 desk_claimed)"
    by (simp add: on_ledger_def on_store_def desk_claimed_fields(1))
  have 3: "on_ledger (on_store (start_run desk_claim ''ops'' 22 ''attempt_1'' ''run_1'')) (?v0 desk_claimed) = (Inr sample_run, desk_vault)"
    by (simp add: on_ledger_def on_store_def desk_running_fields(1) desk_vault_def empty_vault_def)
  have 4: "capture_manual_evidence desk_env sample_run desk_evidence desk_ids desk_vault = (Inr (''evidence_1'', trial_artifact), v2)"
    by (simp add: capture_manual_evidence_def clk v2(1)) (simp add: desk_ids_def v2(1))
  obtain x where 5: "on_ledger (open_review desk_definition sample_run ''evidence_1'' None desk_ids) v2 =
      (Inr (Some ''review_1''), v2\<lparr>v_ledger := (v_ledger v2)\<lparr>l_reviews := [x]\<rparr>\<rparr>)"
    using r by (simp add: on_ledger_def open_review_def desk_defs clk transaction_def bind_op_def read_op_def v2(2,3) q
        insert_review_def definition_exists_def desk_running_fields h dr_key_def dd_key_def run_handle_fields return_op_def)
  have 6: "\<exists>v'. on_ledger (on_store (finish_run (ee_env desk_env) sample_run A_SUCCEEDED False None [] False 27 pid))
      (v2\<lparr>v_ledger := (v_ledger v2)\<lparr>l_reviews := [x]\<rparr>\<rparr>) = (Inr (), v')" for pid
    using q' by (simp add: on_ledger_def on_store_def v2(2) finish_run_def run_handle_fields reg transaction_def close_attempt_def
        bind_op_def update_attempts_def update_runs_def update_jobs_def return_op_def Let_def split: prod.splits)
  obtain v' where v': "on_ledger (on_store (finish_run (ee_env desk_env) sample_run A_SUCCEEDED False None [] False 27 ''promotion_1''))
      (v2\<lparr>v_ledger := (v_ledger v2)\<lparr>l_reviews := [x]\<rparr>\<rparr>) = (Inr (), v')"
    using 6 by blast
  have args: "import_attestation desk_args = Inr None" "ia_datasource_id desk_args = ''boe.rate''" "ia_actor_id desk_args = ''ops''"
      "''boe.rate'' \<noteq> submarket_datasource"
    by (simp_all add: import_attestation_def desk_args_def submarket_datasource_def)
  have ids: "ii_clock desk_ids n = 20 + int n" "ii_enqueue desk_ids = sample_ids" "ii_instance desk_ids = ''instance_1''"
      "ii_audit desk_ids = (\<lambda>i. ''audit_2'')" "ii_token desk_ids = ''claim_1''" "ii_attempt desk_ids = ''attempt_1''"
      "ii_run desk_ids = ''run_1''" "ii_promotion desk_ids = ''promotion_1''" for n
    by (simp_all add: desk_ids_def)
  show ?thesis
    using v'
    by (simp add: import_manual_evidence_def args reg(1) desk_enqueue_def [symmetric] ids bind_op_Inr 1 2 3
        desk_evidence_def [symmetric] 4 5 return_op_def run_handle_fields)
qed

end
