(* ===== verification/VaultCorrect.thy ===== *)
theory VaultCorrect
  imports VaultSystem VaultDemo
begin

text \<open>
  What the whole store guarantees: in every state its commands can reach the record streams are
  chained, observations are traced to evidence and reviews and manual approvals are accounted for;
  nothing recorded is rewritten; a manual import keeps all of it.
\<close>

section \<open>Properties of every reachable store\<close>

lemma chained_nth:
  assumes "chained n prev rs" and "i < length rs"
  shows "ob_revision_no (rs ! i) = n + int i \<and>
    ob_supersedes_id (rs ! i) = (if i = 0 then prev else Some (ob_observation_id (rs ! (i - 1))))"
  using assms
proof (induction rs arbitrary: n prev i)
  case (Cons r rs)
  show ?case
  proof (cases i)
    case (Suc j)
    then show ?thesis using Cons.IH [of "n + 1" "Some (ob_observation_id r)" j] Cons.prems by (cases j) auto
  qed (use Cons.prems in simp)
qed simp

text \<open>
  C25. In every reachable store the revisions of a record stream are numbered 1, 2, 3, ... in the
  order they were written, the first supersedes nothing and every other one supersedes its
  predecessor, no two observations share an identifier, and the head table has exactly one row for
  the stream, equal to its last revision (none for an empty stream).
\<close>

theorem vault_streams:
  assumes "reaches vault_exec vault_admissible empty_vault cs v"
  defines "l \<equiv> v_ledger v"
  shows "distinct (map ob_observation_id (l_observations l)) \<and>
    (\<forall>k. let rs = filter (\<lambda>r. stream_key r = k) (l_observations l)
         in (\<forall>i. i < length rs \<longrightarrow> ob_revision_no (rs ! i) = int i + 1 \<and>
              ob_supersedes_id (rs ! i) = (if i = 0 then None else Some (ob_observation_id (rs ! (i - 1))))) \<and>
            filter (\<lambda>h. head_key h = k) (l_heads l) = (if rs = [] then [] else [head_of (last rs)]))"
proof -
  have inv: "stream_inv l"
    using lv.reaches_inv [OF assms(1) vault_inv_empty] by (simp add: vault_inv_def l_def)
  have heads: "filter (\<lambda>h. head_key h = k) (l_heads l) =
      (if revisions_of l k = [] then [] else [head_of (last (revisions_of l k))])" for k
  proof -
    have "distinct (map head_key (l_heads l))" "lookup_by head_key k (l_heads l) = map_option head_of (newest (revisions_of l k))"
      using inv unfolding stream_inv_def by blast+
    then show ?thesis
      using filter_by_key [of head_key "l_heads l" k "\<lambda>_. True"] by (auto simp: newest_def split: option.splits)
  qed
  have chain: "chained 1 None (revisions_of l k)" for k using inv unfolding stream_inv_def by blast
  have num: "ob_revision_no (revisions_of l k ! i) = int i + 1 \<and> ob_supersedes_id (revisions_of l k ! i) =
      (if i = 0 then None else Some (ob_observation_id (revisions_of l k ! (i - 1))))" if "i < length (revisions_of l k)" for k i
    using chained_nth [OF chain that] by simp
  have "distinct (map ob_observation_id (l_observations l))" using inv unfolding stream_inv_def by blast
  then show ?thesis
    using num heads unfolding revisions_of_def Let_def by blast
qed

theorem vault_streams_witness:
  "filter (\<lambda>h. head_key h = (''boe.rate'', ''production_ingestion'', ''v1'', zeros)) (l_heads observed_ledger) = [head_of trial_row] \<and>
   ob_supersedes_id trial_row = None"
proof -
  let ?k = "(''boe.rate'', ''production_ingestion'', ''v1'', zeros)"
  have rs: "filter (\<lambda>r. stream_key r = ?k) (l_observations observed_ledger) = [trial_row]"
    by (simp add: observed_ledger_fields stream_key_def trial_row_fields)
  show ?thesis
    using conjunct2 [OF vault_streams [OF trial_reaches], THEN spec, of ?k] by (simp add: rs)
qed

text \<open>
  C4. In every reachable store each observation can be traced to its source: some evidence link
  names it, and every evidence link joins an observation to evidence through one and the same run,
  which recorded the observation and captured that evidence.
\<close>

theorem vault_provenance:
  assumes "reaches vault_exec vault_admissible empty_vault cs v" and "x \<in> set (l_observations (v_ledger v))"
  shows "\<exists>oe \<in> set (l_observation_evidence (v_ledger v)). \<exists>ro \<in> set (l_run_observations (v_ledger v)).
    \<exists>re \<in> set (l_run_evidence (v_ledger v)). \<exists>ev \<in> set (l_evidence (v_ledger v)).
      oe_observation_id oe = ob_observation_id x \<and>
      ro_run_id ro = oe_run_id oe \<and> ro_observation_id ro = ob_observation_id x \<and>
      re_run_id re = oe_run_id oe \<and> re_evidence_id re = oe_evidence_id oe \<and> ev_evidence_id ev = oe_evidence_id oe"
proof -
  have "provenance_inv (v_ledger v)"
    using lv.reaches_inv [OF assms(1) vault_inv_empty] by (simp add: vault_inv_def)
  then show ?thesis using assms(2) unfolding provenance_inv_def evidenced_def justified_def by metis
qed

theorem vault_provenance_witness:
  "\<exists>oe \<in> set (l_observation_evidence observed_ledger). \<exists>ev \<in> set (l_evidence observed_ledger).
     oe_observation_id oe = ''observation_1'' \<and> ev_evidence_id ev = oe_evidence_id oe"
  using vault_provenance [OF trial_reaches, of trial_row] by (auto simp: observed_ledger_fields(1) trial_row_fields)

text \<open>
  C23. In every reachable store a review carries exactly the decision its state shows (an approved
  review one approval, a rejected one one rejection, an open one none), and a run approved by hand
  has an approved review attached to it, with the approving decision and the manual promotion on
  record.
\<close>

theorem vault_reviews:
  assumes "reaches vault_exec vault_admissible empty_vault cs v"
  defines "l \<equiv> v_ledger v"
  shows "(\<forall>r \<in> set (l_reviews l). map de_decision (filter (\<lambda>d. de_review_id d = rt_review_id r) (l_decisions l)) =
      (case rt_state r of R_APPROVED \<Rightarrow> [''approved''] | R_REJECTED \<Rightarrow> [''rejected''] | _ \<Rightarrow> [])) \<and>
    (\<forall>p \<in> set (s_promotions (l_store l)). p_approval_mode p = ''manual'' \<and> p_decision p = ''approved'' \<longrightarrow>
      (\<exists>r \<in> set (l_reviews l). \<exists>d \<in> set (l_decisions l). \<exists>m \<in> set (l_manual_promotions l).
         rt_state r = R_APPROVED \<and> rt_run_id r = Some (p_run_id p) \<and>
         de_review_id d = rt_review_id r \<and> de_decision d = ''approved'' \<and>
         mp_review_id m = rt_review_id r \<and> mp_decision_id m = de_decision_id d \<and>
         mp_run_id m = p_run_id p \<and> mp_promotion_id m = p_promotion_id p))"
proof -
  have inv: "review_inv l"
    using lv.reaches_inv [OF assms(1) vault_inv_empty] by (simp add: vault_inv_def l_def)
  have dec: "map de_decision (filter (\<lambda>d. de_review_id d = rt_review_id r) (l_decisions l)) =
      (case rt_state r of R_APPROVED \<Rightarrow> [''approved''] | R_REJECTED \<Rightarrow> [''rejected''] | _ \<Rightarrow> [])" if "r \<in> set (l_reviews l)" for r
    using review_invD(2) [OF inv that] by (simp add: decisions_of_def split: review_state.split)
  have "manually_backed l p" if "p \<in> set (s_promotions (l_store l))" "p_approval_mode p = ''manual'' \<and> p_decision p = ''approved''" for p
    using review_invD(4) [OF inv that(1)] that(2) by (simp add: manual_approval_def)
  then show ?thesis using dec unfolding manually_backed_def by blast
qed

theorem vault_reviews_witness:
  "\<exists>r d. l_reviews (v_ledger reviewed_vault) = [r] \<and> rt_state r = R_APPROVED \<and>
     l_decisions (v_ledger reviewed_vault) = [d] \<and> de_review_id d = rt_review_id r \<and> de_decision d = ''approved''"
proof -
  obtain r d where r: "l_reviews (v_ledger reviewed_vault) = [r]" "rt_state r = R_APPROVED"
      "l_decisions (v_ledger reviewed_vault) = [d]"
    using reviewed_rows by blast
  show ?thesis
    using conjunct1 [OF vault_reviews [OF reviewed_reaches]] r by (auto split: if_splits)
qed

text \<open>
  C19. Nothing recorded is ever rewritten: whatever commands run, in whatever order and with whatever
  outcome, the tables of sources, definitions, promotions, audit events, content, evidence,
  observations and of their links only grow at the end, the runs, record streams and reviews keep
  their identity and order, and a published object keeps its bytes.
\<close>

theorem vault_append_only:
  assumes "reaches vault_exec vault_admissible v cs v'"
  defines "l \<equiv> v_ledger v" and "l' \<equiv> v_ledger v'"
  shows "prefix (s_sources (l_store l)) (s_sources (l_store l')) \<and> prefix (s_definitions (l_store l)) (s_definitions (l_store l')) \<and>
    prefix (s_promotions (l_store l)) (s_promotions (l_store l')) \<and> prefix (s_audit (l_store l)) (s_audit (l_store l')) \<and>
    prefix (l_contents l) (l_contents l') \<and> prefix (l_evidence l) (l_evidence l') \<and>
    prefix (l_run_evidence l) (l_run_evidence l') \<and> prefix (l_observations l) (l_observations l') \<and>
    prefix (l_run_observations l) (l_run_observations l') \<and> prefix (l_observation_evidence l) (l_observation_evidence l') \<and>
    prefix (l_decisions l) (l_decisions l') \<and> prefix (l_manual_promotions l) (l_manual_promotions l') \<and>
    prefix (map r_run_id (s_runs (l_store l))) (map r_run_id (s_runs (l_store l'))) \<and>
    prefix (map head_key (l_heads l)) (map head_key (l_heads l')) \<and>
    prefix (map rt_review_id (l_reviews l)) (map rt_review_id (l_reviews l')) \<and>
    (\<forall>path f. map_of (v_objects v) path = Some f \<longrightarrow> map_of (v_objects v') path = Some f)"
  using reaches_appends [OF assms(1)]
  by (simp add: vault_appends_def ledger_appends_def store_appends_def l_def l'_def)

theorem vault_append_only_witness: "prefix (l_observations observed_ledger) (l_observations (v_ledger reviewed_vault))"
proof -
  have "reaches vault_exec vault_admissible (evidence_vault\<lparr>v_ledger := observed_ledger\<rparr>)
      [VOpenReview desk_definition sample_run ''evidence_1'' None desk_ids,
       VDecide ''review_1'' ''approved'' ''ops'' None 27 ''decision_1'' ''audit_2''] reviewed_vault"
    by (simp add: reviewed_vault_def)
  from vault_append_only [OF this] show ?thesis by simp
qed

section \<open>Manual imports\<close>

text \<open>
  C31. A manual import accounts for what it does: whatever its outcome, it is a sequence of the
  store's own commands, so a consistent store stays consistent, and it neither promotes a run nor
  decides a review. When it succeeds, the evidence it returns is on record as captured by the run it
  returns, and where the definition requires a manual review, an open review of that run awaits a
  decision.
\<close>

theorem import_accounted:
  assumes sha: "\<forall>x. length (en_sha (ee_env E) x) = 64"
    and run: "import_manual_evidence E sandbox a ids v = (res, v')"
  shows "(\<exists>cs. reaches vault_exec vault_admissible v cs v') \<and>
    s_promotions (l_store (v_ledger v')) = s_promotions (l_store (v_ledger v)) \<and>
    l_decisions (v_ledger v') = l_decisions (v_ledger v) \<and>
    (\<forall>r. res = Inr r \<longrightarrow>
      (\<exists>ev \<in> set (l_evidence (v_ledger v')). ev_evidence_id ev = mr_evidence_id r) \<and>
      (\<exists>re \<in> set (l_run_evidence (v_ledger v')). re_run_id re = mr_run_id r \<and> re_evidence_id re = mr_evidence_id r \<and> re_required re) \<and>
      (case mr_review_id r of
         None \<Rightarrow> \<exists>d. registry_lookup (en_registry (ee_env E)) (ia_datasource_id a) None = Inr d \<and>
           dd_promotion_policy d \<noteq> ''manual_review''
       | Some i \<Rightarrow> \<exists>x \<in> set (l_reviews (v_ledger v')). rt_review_id x = i \<and> rt_state x = R_OPEN \<and>
           rt_run_id x = Some (mr_run_id r)))"
proof (intro conjI allI impI)
  show "\<exists>cs. reaches vault_exec vault_admissible v cs v'"
    using ir.import_le [of E v sandbox a ids] sha run by (simp add: vault_le_def)
  have dec: "decided_part v' = decided_part v" using id.import_le [of E sandbox a ids v] run by simp
  then show "s_promotions (l_store (v_ledger v')) = s_promotions (l_store (v_ledger v))"
    "l_decisions (v_ledger v') = l_decisions (v_ledger v)"
    by (simp_all add: decided_part_def)
  fix r assume "res = Inr r"
  then have "import_manual_evidence E sandbox a ids v = (Inr r, v')" using run by simp
  then obtain attestation d run ev v1 v2 v3 v4 where s:
    "registry_lookup (en_registry (ee_env E)) (ia_datasource_id a) None = Inr d"
    "capture_manual_evidence E run (manual_evidence_args a attestation) ids v1 = (Inr ev, v2)"
    "(if ia_datasource_id a = submarket_datasource then observe_submarket E sandbox run ev ids else return_op ()) v2 = (Inr (), v3)"
    "on_ledger (open_review d run (fst ev) attestation ids) v3 = (Inr (mr_review_id r), v4)"
    "on_ledger (on_store (finish_run (ee_env E) run A_SUCCEEDED False None [] False (ii_clock ids 7) (ii_promotion ids))) v4 = (Inr (), v')"
    "mr_run_id r = rh_run_id run" "mr_evidence_id r = fst ev"
    by (rule import_steps)
  have "vault_le v2 v3"
    using ir.observe_submarket_le [of E v2 sandbox run ev ids] sha s(3) vl.le_refl by (auto simp: return_op_def split: if_splits)
  moreover have "vault_le v3 v4" using ledger_ops_le(2) [of v3 d run "fst ev" attestation ids] s(4) by simp
  moreover have "vault_le v4 v'"
    using job_ops_le(4) [of v4 "ee_env E" run A_SUCCEEDED False None "[]" False "ii_clock ids 7" "ii_promotion ids"] s(5) by simp
  ultimately have "vault_le v2 v'" using vl.le_trans by blast
  then have app: "ledger_appends (v_ledger v2) (v_ledger v')"
    using reaches_appends unfolding vault_le_def vault_appends_def by blast
  obtain art where "persist_evidence E run (manual_evidence_args a attestation) (ii_clock ids 3) (ii_evidence ids) v1 = (Inr (fst ev, art), v2)"
    using capture_manual_Inr [OF s(2)] by (cases ev) auto
  note cap = evidence_recorded [OF this]
  show "\<exists>x \<in> set (l_evidence (v_ledger v')). ev_evidence_id x = mr_evidence_id r"
    using cap(1) ledger_appends_sets(4) [OF app] s(7) by auto
  show "\<exists>re \<in> set (l_run_evidence (v_ledger v')). re_run_id re = mr_run_id r \<and> re_evidence_id re = mr_evidence_id r \<and> re_required re"
    using cap(2) ledger_appends_sets(3) [OF app] s(6,7) by (fastforce simp: manual_evidence_args_def)
  have "l_reviews (v_ledger v') = l_reviews (v_ledger v4)"
    using s(5) by (auto simp: on_ledger_def on_store_def split: prod.splits)
  moreover have "open_review d run (fst ev) attestation ids (v_ledger v3) = (Inr (mr_review_id r), v_ledger v4)"
    using s(4) by (auto simp: on_ledger_def split: prod.splits)
  note open_review_Inr [OF this]
  ultimately show "case mr_review_id r of
         None \<Rightarrow> \<exists>d. registry_lookup (en_registry (ee_env E)) (ia_datasource_id a) None = Inr d \<and>
           dd_promotion_policy d \<noteq> ''manual_review''
       | Some i \<Rightarrow> \<exists>x \<in> set (l_reviews (v_ledger v')). rt_review_id x = i \<and> rt_state x = R_OPEN \<and>
           rt_run_id x = Some (mr_run_id r)"
    using s(1,6) by (auto split: option.splits)
qed

theorem import_accounted_witness:
  "\<exists>r v'. import_manual_evidence desk_env (\<lambda>_. Inl ''PARSER_ISOLATION_UNAVAILABLE'') desk_args desk_ids empty_vault = (Inr r, v') \<and>
     (\<exists>x \<in> set (l_reviews (v_ledger v')). rt_review_id x = ''review_1'' \<and> rt_state x = R_OPEN \<and> rt_run_id x = Some ''run_1'') \<and>
     s_promotions (l_store (v_ledger v')) = []"
proof -
  obtain v' where run: "import_manual_evidence desk_env (\<lambda>_. Inl ''PARSER_ISOLATION_UNAVAILABLE'') desk_args desk_ids empty_vault =
      (Inr \<lparr>mr_run_id = ''run_1'', mr_evidence_id = ''evidence_1'', mr_review_id = Some ''review_1'', mr_state = ''succeeded''\<rparr>, v')"
    using desk_import by blast
  have sha: "\<forall>x. length (en_sha (ee_env desk_env) x) = 64" by (simp add: desk_env_fields sample_sha_def)
  show ?thesis
    using run import_accounted [OF sha run] by (auto simp: empty_vault_def empty_ledger_def empty_store_def)
qed

end
