(* ===== verification/JsonText.thy ===== *)
theory JsonText
  imports Json
begin

text \<open>
  The canonical text as an identity: two values with the same canonical text are equal up to the
  order of object keys, and the domain prefix keeps the hash inputs of different domains apart. Each
  piece of the text is shown to be readable from the left whatever follows it.
\<close>

section \<open>Characters and strings\<close>

lemma hex_digit_eq: "hex_digit m = hex_digit n \<longleftrightarrow> m mod 16 = n mod 16"
proof -
  have "distinct ''0123456789abcdef''" "length ''0123456789abcdef'' = 16" by simp_all
  then show ?thesis unfolding hex_digit_def by (simp only: nth_eq_iff_index_eq mod_less_divisor zero_less_numeral)
qed

lemma control_digits: "m < 32 \<Longrightarrow> n < 32 \<Longrightarrow> hex_digit (m div 16) = hex_digit (n div 16) \<Longrightarrow> hex_digit m = hex_digit n \<Longrightarrow> m = (n :: nat)"
proof -
  assume "m < 32" "n < 32" "hex_digit (m div 16) = hex_digit (n div 16)" "hex_digit m = hex_digit n"
  moreover from this have "m div 16 < 16" "n div 16 < 16" by simp_all
  ultimately have "m div 16 = n div 16" "m mod 16 = n mod 16" by (simp_all add: hex_digit_eq)
  then show "m = n" by (metis div_mult_mod_eq)
qed

lemma escape_cases:
  obtains (plain) "escape_char c = [c]" "c \<noteq> CHR 0x5C" "c \<noteq> CHR 0x22"
  | (short) d where "escape_char c = [CHR 0x5C, d]" "d \<noteq> CHR ''u''"
  | (long) "escape_char c = [CHR 0x5C, CHR ''u'', CHR ''0'', CHR ''0'', hex_digit (of_char c div 16), hex_digit (of_char c)]"
      "of_char c < (32 :: nat)"
proof -
  let ?n = "of_char c :: nat"
  consider "?n = 34 \<or> ?n = 92" | "?n \<in> {8, 9, 10, 12, 13}" | "?n \<notin> {8, 9, 10, 12, 13}" "?n < 32" | "?n \<noteq> 34" "?n \<noteq> 92" "32 \<le> ?n"
    by fastforce
  then show thesis
  proof cases
    case 1
    then have "c \<noteq> CHR ''u''" by auto
    then show ?thesis using 1 short by (simp add: escape_char_def Let_def)
  next
    case 2
    then show ?thesis using short by (auto simp: escape_char_def Let_def)
  next
    case 3
    then show ?thesis using long by (auto simp: escape_char_def Let_def)
  next
    case 4
    then have "c \<noteq> CHR 0x5C" "c \<noteq> CHR 0x22" by auto
    then show ?thesis using 4 plain by (simp add: escape_char_def Let_def)
  qed
qed

lemma short_code: "escape_char c = [CHR 0x5C, d] \<Longrightarrow> of_char c = (if d = CHR ''b'' then 8 else if d = CHR ''t'' then 9
    else if d = CHR ''n'' then 10 else if d = CHR ''f'' then 12 else if d = CHR ''r'' then 13 else of_char d :: nat)"
  unfolding escape_char_def Let_def by (auto split: if_splits)

lemma short_escape:
  assumes "escape_char c = [CHR 0x5C, d]" and "escape_char c' = [CHR 0x5C, d]"
  shows "c = c'"
proof -
  have "(of_char c :: nat) = of_char c'" using short_code [OF assms(1)] short_code [OF assms(2)] by simp
  then show ?thesis by (simp only: of_char_eq_iff)
qed

lemma escape_prefix:
  assumes "escape_char c @ x = escape_char c' @ x'"
  shows "c = c' \<and> x = x'"
proof (cases rule: escape_cases [of c])
  case plain
  then show ?thesis using assms by (cases rule: escape_cases [of c']) auto
next
  case (short d)
  then show ?thesis using assms short_escape [of c d c'] by (cases rule: escape_cases [of c']) auto
next
  case long
  then show ?thesis using assms
  proof (cases rule: escape_cases [of c'])
    case long': long
    then have "(of_char c :: nat) = of_char c'" using long assms by (intro control_digits) auto
    then have "c = c'" by (simp only: of_char_eq_iff)
    then show ?thesis using assms by simp
  qed auto
qed

lemma escape_no_quote: "CHR 0x22 # y \<noteq> escape_char c @ x"
  by (cases rule: escape_cases [of c]) auto

lemma quote_prefix: "quote_text s @ x = quote_text s' @ x' \<Longrightarrow> s = s' \<and> x = x'"
proof -
  have "concat (map escape_char s) @ CHR 0x22 # x = concat (map escape_char s') @ CHR 0x22 # x' \<Longrightarrow> s = s' \<and> x = x'"
  proof (induction s arbitrary: s')
    case Nil
    then show ?case using escape_no_quote by (cases s') auto
  next
    case (Cons c s)
    show ?case
    proof (cases s')
      case Nil
      then show ?thesis using Cons.prems escape_no_quote [of x' c, THEN not_sym] by auto
    next
      case (Cons c' s'')
      then show ?thesis using Cons.prems Cons.IH escape_prefix [of c _ c'] by fastforce
    qed
  qed
  then show "quote_text s @ x = quote_text s' @ x' \<Longrightarrow> s = s' \<and> x = x'" by (simp add: quote_text_def)
qed

section \<open>Numbers\<close>

lemma nat_digits_digits: "list_all is_digit (nat_digits n)"
proof (induction n rule: nat_digits.induct)
  case (1 n)
  then show ?case by (subst nat_digits.simps) auto
qed

lemma nat_digits_nonempty: "nat_digits n \<noteq> []"
  by (subst nat_digits.simps) simp

lemma undecimal_nat_digits: "undecimal (nat_digits n) = n"
proof (induction n rule: nat_digits.induct)
  case (1 n)
  have one: "undecimal [digit n] = n mod 10" using undecimal_snoc [of "[]" "digit n"] by (simp add: undecimal_def)
  show ?case
  proof (cases "n < 10")
    case True
    then show ?thesis using one by (subst nat_digits.simps) simp
  next
    case False
    then show ?thesis using 1 by (subst nat_digits.simps) (simp add: undecimal_snoc)
  qed
qed

definition stops :: "string \<Rightarrow> bool" where
  "stops x \<longleftrightarrow> x = [] \<or> \<not> is_digit (hd x)"

lemma digits_prefix:
  assumes "nat_digits n @ x = nat_digits m @ y" and "stops x" "stops y"
  shows "n = m \<and> x = y"
proof -
  have take: "takeWhile is_digit (nat_digits k @ z) = nat_digits k" if "stops z" for k z
    using that nat_digits_digits [of k] by (cases z) (auto simp: stops_def takeWhile_append2 list_all_iff takeWhile_eq_all_conv)
  have "nat_digits n = nat_digits m" using take [OF assms(2), of n] take [OF assms(3), of m] assms(1) by simp
  then show ?thesis using assms(1) undecimal_nat_digits by (metis append_same_eq same_append_eq)
qed

lemma int_prefix:
  assumes "int_text i @ x = int_text j @ y" and "stops x" "stops y"
  shows "i = j \<and> x = y"
proof -
  have no_minus: "nat_digits k @ z \<noteq> CHR ''-'' # w" for k z w
  proof -
    have "is_digit (hd (nat_digits k))" using nat_digits_digits [of k] nat_digits_nonempty [of k] by (cases "nat_digits k") auto
    moreover have "\<not> is_digit (CHR ''-'')" by (simp add: is_digit_def)
    ultimately show ?thesis using nat_digits_nonempty [of k] by (cases "nat_digits k") auto
  qed
  have sign: "i < 0 \<longleftrightarrow> j < 0"
    using assms(1) no_minus no_minus [THEN not_sym] by (auto simp: int_text_def split: if_splits)
  show ?thesis
  proof (cases "i < 0")
    case True
    then have "nat_digits (nat (- i)) @ x = nat_digits (nat (- j)) @ y" using assms(1) sign by (simp add: int_text_def)
    from digits_prefix [OF this assms(2,3)] show ?thesis using True sign by auto
  next
    case False
    then have "nat_digits (nat i) @ x = nat_digits (nat j) @ y" using assms(1) sign by (simp add: int_text_def)
    from digits_prefix [OF this assms(2,3)] show ?thesis using False sign by auto
  qed
qed


section \<open>Values\<close>

text \<open>Object keys in order, at every level.\<close>

fun sort_json :: "json \<Rightarrow> json" where
  "sort_json (JList js) = JList (map sort_json js)"
| "sort_json (JObj kvs) = JObj (sort_key fst (map (\<lambda>(k, v). (k, sort_json v)) kvs))"
| "sort_json j = j"

lemma sort_key_map_snd:
  fixes kvs :: "('k :: linorder \<times> 'v) list"
  shows "sort_key fst (map (\<lambda>(k, v). (k, f v)) kvs) = map (\<lambda>(k, v). (k, f v)) (sort_key fst kvs)"
proof -
  have "insort_key fst (case x of (k, v) \<Rightarrow> (k, f v)) (map (\<lambda>(k, v). (k, f v)) xs) = map (\<lambda>(k, v). (k, f v)) (insort_key fst x xs)"
    for x and xs
    by (induction xs) (auto split: prod.splits)
  note step = this
  show ?thesis
  proof (induction kvs)
    case (Cons x kvs)
    then show ?case using step [of x "sort_key fst kvs"] by simp
  qed simp
qed

lemma print_obj: "print_json (JObj kvs) =
    ''{'' @ join '','' (map (\<lambda>(k, v). quote_text k @ '':'' @ print_json v) (sort_key fst kvs)) @ ''}''"
  unfolding print_json.simps sort_key_map_snd by (simp add: comp_def case_prod_unfold)

text \<open>What reads from the left: the value, and what follows it.\<close>

definition reads :: "('a \<Rightarrow> string) \<Rightarrow> ('a \<Rightarrow> 'b) \<Rightarrow> 'a \<Rightarrow> bool" where
  "reads pr val a \<longleftrightarrow> (\<forall>b x y. pr a @ x = pr b @ y \<and> stops x \<and> stops y \<longrightarrow> val a = val b \<and> x = y)"

lemma join_Cons: "join sep (x # xs) = x @ (if xs = [] then [] else sep @ join sep xs)"
  by (cases xs) auto

lemma join_prefix:
  assumes "\<forall>a \<in> set as. reads pr val a" and "join '','' (map pr as) @ e # x = join '','' (map pr bs) @ e # y"
    and e: "\<not> is_digit e" "e \<noteq> CHR '',''" and no_end: "\<And>a z w. e # w \<noteq> pr a @ z"
  shows "map val as = map val bs \<and> x = y"
  using assms(1,2)
proof (induction as arbitrary: bs)
  case Nil
  then show ?case using no_end by (cases bs) (auto simp: join_Cons split: if_splits)
next
  case (Cons a as)
  show ?case
  proof (cases bs)
    case Nil
    then show ?thesis using Cons.prems(2) no_end [THEN not_sym] by (auto simp: join_Cons split: if_splits)
  next
    case (Cons b bs')
    have stop: "stops (e # z)" "stops (CHR '','' # z)" for z using e(1) by (simp_all add: stops_def is_digit_def)
    let ?x = "if as = [] then e # x else CHR '','' # join '','' (map pr as) @ e # x"
    let ?y = "if bs' = [] then e # y else CHR '','' # join '','' (map pr bs') @ e # y"
    have "pr a @ ?x = pr b @ ?y" using Cons.prems(2) unfolding Cons by (simp add: join_Cons split: if_splits)
    moreover have "stops ?x" "stops ?y" using stop by simp_all
    ultimately have eq: "val a = val b" "?x = ?y" using Cons.prems(1) unfolding reads_def list.set by blast+
    show ?thesis
    proof (cases "as = [] \<or> bs' = []")
      case True
      then show ?thesis using eq e(2) Cons by (auto split: if_splits)
    next
      case False
      then have "join '','' (map pr as) @ e # x = join '','' (map pr bs') @ e # y" using eq(2) by simp
      then show ?thesis using Cons.IH [of bs'] Cons.prems(1) eq(1) Cons by simp
    qed
  qed
qed


lemma int_text_head: "\<exists>c cs. int_text i = c # cs \<and> (c = CHR ''-'' \<or> is_digit c)"
proof -
  have "\<exists>c cs. nat_digits n = c # cs \<and> is_digit c" for n
    using nat_digits_digits [of n] nat_digits_nonempty [of n] by (cases "nat_digits n") auto
  then show ?thesis by (simp add: int_text_def) metis
qed

text \<open>The first character tells the kind of value.\<close>

fun json_kind :: "json \<Rightarrow> nat" where
  "json_kind JNull = 0" | "json_kind (JBool b) = (if b then 1 else 2)" | "json_kind (JInt i) = 3"
| "json_kind (JStr s) = 4" | "json_kind (JList js) = 5" | "json_kind (JObj kvs) = 6"

definition head_kind :: "char \<Rightarrow> nat" where
  "head_kind c = (if c = CHR ''n'' then 0 else if c = CHR ''t'' then 1 else if c = CHR ''f'' then 2
     else if c = CHR 0x22 then 4 else if c = CHR ''['' then 5 else if c = CHR ''{'' then 6
     else if c = CHR ''-'' \<or> is_digit c then 3 else 7)"

lemma print_head: "\<exists>c cs. print_json j = c # cs \<and> head_kind c = json_kind j"
proof (cases j)
  case (JInt i)
  obtain c cs where c: "int_text i = c # cs" "c = CHR ''-'' \<or> is_digit c" using int_text_head by blast
  then have "head_kind c = 3" by (auto simp: head_kind_def is_digit_def)
  then show ?thesis using JInt c by simp
qed (auto simp: head_kind_def quote_text_def)

lemma print_kind: "print_json j @ x = print_json j' @ y \<Longrightarrow> json_kind j = json_kind j'"
  using print_head [of j] print_head [of j'] by fastforce

lemma print_not: "head_kind e = 7 \<Longrightarrow> e # w \<noteq> print_json j @ z"
proof -
  have "json_kind j \<noteq> 7" by (cases j) auto
  then show "head_kind e = 7 \<Longrightarrow> e # w \<noteq> print_json j @ z" using print_head [of j] by auto
qed

lemma reads_entry:
  assumes "reads print_json sort_json v"
  shows "reads (\<lambda>(k, v). quote_text k @ '':'' @ print_json v) (\<lambda>(k, v). (k, sort_json v)) (k, v)"
  unfolding reads_def
proof (intro allI impI, goal_cases)
  case (1 b x y)
  obtain k' v' where b: "b = (k', v')" by fastforce
  have "quote_text k @ '':'' @ print_json v @ x = quote_text k' @ '':'' @ print_json v' @ y" using 1 b by simp
  then have "k = k'" "print_json v @ x = print_json v' @ y" using quote_prefix [of k _ k'] by fastforce+
  then show ?case using assms 1 b unfolding reads_def by auto
qed

lemma print_reads: "reads print_json sort_json j"
proof (induction j)
  case (JInt i)
  show ?case unfolding reads_def
  proof (intro allI impI, goal_cases)
    case (1 b x y)
    then obtain i' where "b = JInt i'" using print_kind [of "JInt i" x b y] by (cases b) (auto split: if_splits)
    then show ?case using 1 int_prefix [of i x i' y] by simp
  qed
next
  case (JStr s)
  show ?case unfolding reads_def
  proof (intro allI impI, goal_cases)
    case (1 b x y)
    then obtain s' where "b = JStr s'" using print_kind [of "JStr s" x b y] by (cases b) (auto split: if_splits)
    then show ?case using 1 quote_prefix [of s x s' y] by simp
  qed
next
  case (JList js)
  show ?case unfolding reads_def
  proof (intro allI impI, goal_cases)
    case (1 b x y)
    then obtain js' where b: "b = JList js'" using print_kind [of "JList js" x b y] by (cases b) (auto split: if_splits)
    have "join '','' (map print_json js) @ CHR '']'' # x = join '','' (map print_json js') @ CHR '']'' # y"
      using 1 b by simp
    then have "map sort_json js = map sort_json js' \<and> x = y"
      by (rule join_prefix [rotated]) (use JList in \<open>auto simp: is_digit_def print_not head_kind_def\<close>)
    then show ?case using b by simp
  qed
next
  case (JObj kvs)
  let ?pr = "\<lambda>(k, v). quote_text k @ '':'' @ print_json v"
  show ?case unfolding reads_def
  proof (intro allI impI, goal_cases)
    case (1 b x y)
    then obtain kvs' where b: "b = JObj kvs'" using print_kind [of "JObj kvs" x b y] by (cases b) (auto split: if_splits)
    have "join '','' (map ?pr (sort_key fst kvs)) @ CHR ''}'' # x = join '','' (map ?pr (sort_key fst kvs')) @ CHR ''}'' # y"
      using 1 unfolding b print_obj by simp
    then have "map (\<lambda>(k, v). (k, sort_json v)) (sort_key fst kvs) = map (\<lambda>(k, v). (k, sort_json v)) (sort_key fst kvs') \<and> x = y"
    proof (rule join_prefix [rotated])
      show "\<forall>a \<in> set (sort_key fst kvs). reads ?pr (\<lambda>(k, v). (k, sort_json v)) a"
        using reads_entry JObj by force
      show "CHR ''}'' # w \<noteq> ?pr a @ z" for a z w by (cases a) (simp add: quote_text_def)
    qed (simp_all add: is_digit_def)
    then show ?case using b by (simp add: sort_key_map_snd)
  qed
next
  case JNull
  show ?case unfolding reads_def
  proof (intro allI impI, goal_cases)
    case (1 b x y)
    then have "b = JNull" using print_kind [of JNull x b y] by (cases b) (auto split: if_splits)
    then show ?case using 1 by simp
  qed
next
  case (JBool t)
  show ?case unfolding reads_def
  proof (intro allI impI, goal_cases)
    case (1 b x y)
    then have "b = JBool t" using print_kind [of "JBool t" x b y] by (cases b) (auto split: if_splits)
    then show ?case using 1 by simp
  qed
qed

lemma print_sort: "print_json (sort_json j) = print_json j"
proof (induction j)
  case (JObj kvs)
  have "map (\<lambda>(k, v). quote_text k @ '':'' @ print_json v) (sort_key fst (map (\<lambda>(k, v). (k, sort_json v)) kvs)) =
      map (\<lambda>(k, v). quote_text k @ '':'' @ print_json v) (sort_key fst kvs)"
    unfolding sort_key_map_snd using JObj by auto
  then show ?case unfolding sort_json.simps print_obj by (simp add: sort_key_id_if_sorted)
qed (auto simp: comp_def cong: map_cong)

text \<open>Equal text, equal value up to the order of keys.\<close>

lemma print_json_iff: "print_json j = print_json j' \<longleftrightarrow> sort_json j = sort_json j'"
proof
  assume "print_json j = print_json j'"
  then have "print_json j @ [] = print_json j' @ []" by simp
  then show "sort_json j = sort_json j'" using print_reads [of j] unfolding reads_def stops_def by blast
next
  assume "sort_json j = sort_json j'"
  then show "print_json j = print_json j'" using print_sort by metis
qed

section \<open>Hash inputs\<close>

lemma utf8_Cons: "utf8 (c # s) = (let n = of_char c :: nat in if n < 128 then [c] else [char_of (192 + n div 64), char_of (128 + n mod 64)]) @ utf8 s"
  by (simp add: utf8_def)

lemma utf8_append: "utf8 (s @ t) = utf8 s @ utf8 t"
  by (simp add: utf8_def)

lemma of_char_less: "of_char c < (256 :: nat)"
  by (metis of_char_mod_256 mod_less_divisor zero_less_numeral)

lemma utf8_inject: "utf8 s = utf8 t \<longleftrightarrow> s = t"
proof
  show "utf8 s = utf8 t \<Longrightarrow> s = t"
  proof (induction s arbitrary: t)
    case Nil
    then show ?case by (cases t) (auto simp: utf8_Cons, auto simp: utf8_def Let_def split: if_splits)
  next
    case (Cons c s)
    then obtain d t' where t: "t = d # t'" by (cases t) (auto simp: utf8_Cons Let_def utf8_def split: if_splits)
    let ?n = "of_char c :: nat" and ?m = "of_char d :: nat"
    have small: "?n < 256" "?m < 256" by (rule of_char_less)+
    then have code: "(of_char (char_of (192 + k div 64) :: char) :: nat) = 192 + k div 64"
        "(of_char (char_of (128 + k mod 64) :: char) :: nat) = 128 + k mod 64" if "k < 256" for k :: nat
      using that by (simp_all add: of_char_of)
    have eq: "(if ?n < 128 then [c] else [char_of (192 + ?n div 64), char_of (128 + ?n mod 64)]) @ utf8 s =
        (if ?m < 128 then [d] else [char_of (192 + ?m div 64), char_of (128 + ?m mod 64)]) @ utf8 t'"
      using Cons.prems t by (simp add: utf8_Cons Let_def)
    have "?n = ?m \<and> utf8 s = utf8 t'"
    proof (cases "?n < 128"; cases "?m < 128")
      assume "\<not> ?n < 128" "\<not> ?m < 128"
      then have c: "char_of (192 + ?n div 64) = (char_of (192 + ?m div 64) :: char)"
          "char_of (128 + ?n mod 64) = (char_of (128 + ?m mod 64) :: char)" "utf8 s = utf8 t'" using eq by simp_all
      have "192 + ?n div 64 = 192 + ?m div 64" "128 + ?n mod 64 = 128 + ?m mod 64"
        using arg_cong [OF c(1), of "of_char :: char \<Rightarrow> nat"] arg_cong [OF c(2), of "of_char :: char \<Rightarrow> nat"] code small by simp_all
      then have "?n div 64 = ?m div 64" "?n mod 64 = ?m mod 64" by simp_all
      then show ?thesis using c(3) by (metis div_mult_mod_eq)
    next
      assume a: "?n < 128" "\<not> ?m < 128"
      then have "c = char_of (192 + ?m div 64)" using eq by simp
      then have "?n = 192 + ?m div 64" using code(1) small(2) by metis
      then show ?thesis using a by simp
    next
      assume a: "\<not> ?n < 128" "?m < 128"
      then have "d = char_of (192 + ?n div 64)" using eq by simp
      then have "?m = 192 + ?n div 64" using code(1) small(1) by metis
      then show ?thesis using a by simp
    qed (use eq in simp)
    then have "c = d" "utf8 s = utf8 t'" by (simp_all only: of_char_eq_iff)
    then show ?case using Cons.IH t by simp
  qed
qed simp

lemma domain_plain: "hash_domain_ok d \<Longrightarrow> CHR 0x00 \<notin> set d"
  by (auto simp: hash_domain_ok_def list_all_iff)

lemma take_domain: "CHR 0x00 \<notin> set p \<Longrightarrow> takeWhile (\<lambda>c. c \<noteq> CHR 0x00) (p @ CHR 0x00 # x) = p"
  by (induction p) auto

text \<open>
  C30. The canonical text is an identity: the inputs of two identity hashes are equal exactly when the
  domains are equal and the values are equal up to the order of object keys.
\<close>

theorem hash_input_identity:
  assumes "hash_domain_ok d" "hash_domain_ok d'"
  shows "hash_input d j = hash_input d' j' \<longleftrightarrow> d = d' \<and> sort_json j = sort_json j'"
proof -
  let ?p = "\<lambda>d. ''nan-fung/'' @ d @ ''/v1''"
  have plain: "CHR 0x00 \<notin> set (?p d)" "CHR 0x00 \<notin> set (?p d')" using assms domain_plain by simp_all
  have "hash_input d j = hash_input d' j' \<longleftrightarrow> ?p d @ CHR 0x00 # print_json j = ?p d' @ CHR 0x00 # print_json j'"
    unfolding hash_input_def utf8_append [symmetric] utf8_inject by simp
  also have "\<dots> \<longleftrightarrow> ?p d = ?p d' \<and> print_json j = print_json j'"
    using take_domain [OF plain(1), of "print_json j"] take_domain [OF plain(2), of "print_json j'"] by (metis append_same_eq list.inject same_append_eq)
  finally show ?thesis by (simp add: print_json_iff)
qed

theorem hash_input_identity_witness:
  "hash_input ''request'' (JObj [(''b'', JInt 1), (''a'', JNull)]) = hash_input ''request'' (JObj [(''a'', JNull), (''b'', JInt 1)]) \<and>
   hash_input ''request'' JNull \<noteq> hash_input ''source'' JNull"
proof -
  have ok: "hash_domain_ok ''request''" "hash_domain_ok ''source''" by (simp_all add: hash_domain_ok_def)
  have "(CHR ''b'' :: char) > CHR ''a''" by (simp add: less_char_def)
  then show ?thesis using hash_input_identity [OF ok(1,1)] hash_input_identity [OF ok] by simp
qed

end
