(* ===== verification/AgentRefresh.thy ===== *)
theory AgentRefresh
  imports Observations Schedules
begin

text \<open>
  The durable refresh requests of \<open>OperationalStore\<close> (\<open>operational.py\<close>): \<open>submit_agent_refresh\<close>
  with the request ledger, the recovery of a submission that was cut short between the two
  transactions it makes, the cooldown shared by equal requests, and the second confirmation that the
  daily ONSPD budget asks for; \<open>get_job\<close> and \<open>get_agent_refresh_job\<close>.

  \<open>datetime.fromisoformat\<close> and the zone Europe/London are arguments: \<open>ge_fromiso\<close> is \<open>None\<close> where
  it raises, \<open>Some None\<close> where the result is naive, and otherwise the datetime in UTC. The columns of
  the tables of this theory are written by \<open>_timestamp\<close> and read by \<open>_parse_timestamp\<close>, so they are
  instants; the timestamps inside a job's request are text.
\<close>

section \<open>State\<close>

text \<open>The exceptions; \<open>StoreError\<close> carries those of the methods the refresh methods call.\<close>

datatype agent_error =
    StoreError store_error
  | RefreshRequestAccessError string
  | RefreshRequestReplayError string
  | RefreshConfirmationError string
  | RefreshApprovalError string
  | RefreshApprovalAccessError string
  | RefreshApprovalExpiredError string
  | RefreshApprovalReplayError string
  | ApprovalDecisionConflictError string
  | AgentOverflowError

record refresh_row =
  rq_request_id :: string
  rq_principal :: string
  rq_request_fingerprint :: string
  rq_dedupe_key :: string
  rq_datasource_id :: string
  rq_definition_version :: int
  rq_request_profile :: string
  rq_job_id :: string
  rq_disposition :: string
  rq_initial_state :: string
  rq_submitted_at :: instant
  rq_cooldown_until :: instant

record confirmation_row =
  cf_confirmation_token :: string
  cf_request_id :: string
  cf_principal :: string
  cf_request_fingerprint :: string
  cf_datasource_id :: string
  cf_definition_version :: int
  cf_day_start_at :: instant
  cf_issued_at :: instant
  cf_expires_at :: instant

record approval_row =
  ap_approval_id :: string
  ap_refresh_request_id :: string
  ap_principal :: string
  ap_capability_scope_id :: string
  ap_capability_id :: string
  ap_manifest_version :: string
  ap_profile_version :: string
  ap_request_fingerprint :: string
  ap_request_snapshot :: json
  ap_issued_at :: instant
  ap_expires_at :: instant

record approval_event_row =
  av_event_id :: string
  av_approval_id :: string
  av_event_seq :: int
  av_event_type :: string
  av_decision :: string
  av_actor_type :: string
  av_actor_id :: string
  av_details :: json
  av_created_at :: instant

record agent_db =
  ag_store :: store
  ag_requests :: "refresh_row list"
  ag_confirmations :: "confirmation_row list"
  ag_approvals :: "approval_row list"
  ag_events :: "approval_event_row list"

type_synonym 'a agent_op = "(agent_db, agent_error, 'a) op"

record agent_env =
  ge_env :: env
  ge_fromiso :: "string \<Rightarrow> datetime option option"
  ge_london :: zoneinfo

definition on_jobs :: "'a store_op \<Rightarrow> 'a agent_op" where
  "on_jobs m g = (case m (ag_store g) of (res, s) \<Rightarrow> (map_sum StoreError id res, g\<lparr>ag_store := s\<rparr>))"

abbreviation operational_error :: "string \<Rightarrow> agent_error" where
  "operational_error m \<equiv> StoreError (OperationalError m)"

section \<open>Inserts with their constraints\<close>

definition insert_refresh_request :: "refresh_row \<Rightarrow> unit agent_op" where
  "insert_refresh_request r g =
     (if lookup_by rq_request_id (rq_request_id r) (ag_requests g) = None \<and>
         length (rq_request_fingerprint r) = 64 \<and> length (rq_dedupe_key r) = 64 \<and>
         rq_disposition r \<in> {''accepted'', ''deduplicated''} \<and> rq_submitted_at r \<le> rq_cooldown_until r \<and>
         definition_exists (ag_store g) (rq_datasource_id r) (rq_definition_version r) \<and>
         lookup_by j_job_id (rq_job_id r) (s_jobs (ag_store g)) \<noteq> None
      then (Inr (), g\<lparr>ag_requests := ag_requests g @ [r]\<rparr>)
      else (Inl (StoreError (IntegrityError ''refresh_request'')), g))"

definition insert_refresh_confirmation :: "confirmation_row \<Rightarrow> unit agent_op" where
  "insert_refresh_confirmation r g =
     (if lookup_by cf_confirmation_token (cf_confirmation_token r) (ag_confirmations g) = None \<and>
         lookup_by cf_request_id (cf_request_id r) (ag_confirmations g) = None \<and>
         length (cf_request_fingerprint r) = 64 \<and> cf_issued_at r < cf_expires_at r \<and>
         definition_exists (ag_store g) (cf_datasource_id r) (cf_definition_version r)
      then (Inr (), g\<lparr>ag_confirmations := ag_confirmations g @ [r]\<rparr>)
      else (Inl (StoreError (IntegrityError ''refresh_confirmation'')), g))"

section \<open>Arguments and results\<close>

record refresh_args =
  ra_request_id :: string
  ra_principal :: string
  ra_request_fingerprint :: string
  ra_dedupe_key :: string
  ra_datasource_id :: string
  ra_definition_version :: int
  ra_request_profile :: string
  ra_lane :: string
  ra_bounded_scope :: "(string \<times> string list) list"
  ra_intent :: string
  ra_submitted_at :: instant
  ra_cooldown_until :: instant
  ra_confirmation_token :: "string option"

record refresh_result =
  rr_job_id :: "string option"
  rr_disposition :: string
  rr_initial_state :: string
  rr_submitted_at :: instant
  rr_confirmation_token :: "string option"
  rr_confirmation_expires_at :: "instant option"

definition refresh_result_of :: "string option \<Rightarrow> string \<Rightarrow> string \<Rightarrow> instant \<Rightarrow> refresh_result" where
  "refresh_result_of job_id disposition initial_state submitted_at =
     \<lparr>rr_job_id = job_id, rr_disposition = disposition, rr_initial_state = initial_state,
      rr_submitted_at = submitted_at, rr_confirmation_token = None, rr_confirmation_expires_at = None\<rparr>"

text \<open>What \<open>new_id\<close> returns inside \<open>submit_agent_refresh\<close>.\<close>

record refresh_ids =
  ri_enqueue :: enqueue_ids
  ri_token :: string
  ri_audit :: string

section \<open>Constants and checks\<close>

definition onspd_refresh_datasource_id :: string where
  "onspd_refresh_datasource_id = ''ons.onspd.postcode''"

definition onspd_refresh_daily_limit :: nat where
  "onspd_refresh_daily_limit = 20"

definition refresh_confirmation_ttl :: duration where
  "refresh_confirmation_ttl = seconds 600"

definition bounded_identifier :: "string \<Rightarrow> bool" where
  "bounded_identifier v \<longleftrightarrow> v \<noteq> [] \<and> length v \<le> 256"

definition require_refresh_identifier :: "string \<Rightarrow> string \<Rightarrow> agent_error option" where
  "require_refresh_identifier name v =
     (if bounded_identifier v then None
      else Some (operational_error (name @ '' must be a non-empty string of at most 256 characters'')))"

definition require_refresh_digest :: "string \<Rightarrow> string \<Rightarrow> agent_error option" where
  "require_refresh_digest name v =
     (if hex64 v then None else Some (operational_error (name @ '' must be a SHA-256 hex digest'')))"

definition require_optional_refresh_confirmation_token :: "string option \<Rightarrow> agent_error option" where
  "require_optional_refresh_confirmation_token v =
     (case v of None \<Rightarrow> None
      | Some t \<Rightarrow> if bounded_identifier t then None
          else Some (RefreshConfirmationError ''confirmation token must be a non-empty string of at most 256 characters''))"

text \<open>Checks in the order of the code: the first error counts.\<close>

fun first_failure :: "'e option list \<Rightarrow> 'e option" where
  "first_failure [] = None"
| "first_failure (Some e # es) = Some e"
| "first_failure (None # es) = first_failure es"

lemma first_failure_None: "first_failure es = None \<longleftrightarrow> (\<forall>e \<in> set es. e = None)"
  by (induction es rule: first_failure.induct) auto

definition submit_checks :: "refresh_args \<Rightarrow> agent_error option" where
  "submit_checks a = first_failure
     [require_refresh_identifier ''request_id'' (ra_request_id a),
      require_refresh_identifier ''principal'' (ra_principal a),
      require_refresh_digest ''request_fingerprint'' (ra_request_fingerprint a),
      require_refresh_digest ''dedupe_key'' (ra_dedupe_key a),
      (if ra_request_profile a = [] \<or> ra_intent a = []
       then Some (operational_error ''refresh profile and intent are required'') else None),
      require_optional_refresh_confirmation_token (ra_confirmation_token a),
      (if ra_confirmation_token a \<noteq> None \<and> ra_datasource_id a \<noteq> onspd_refresh_datasource_id
       then Some (RefreshConfirmationError ''confirmation is only supported for the ONSPD refresh tool'') else None),
      (if ra_cooldown_until a < ra_submitted_at a
       then Some (operational_error ''refresh cooldown cannot precede submission'') else None)]"

text \<open>\<open>_parse_timestamp\<close>\<close>

definition parse_persisted :: "agent_env \<Rightarrow> string \<Rightarrow> agent_error + instant" where
  "parse_persisted G v =
     (case ge_fromiso G (concat (map (\<lambda>c. if c = CHR ''Z'' then ''+00:00'' else [c]) v)) of
        None \<Rightarrow> Inl (operational_error ''invalid persisted timestamp'')
      | Some None \<Rightarrow> Inl (operational_error ''timestamps must be timezone-aware'')
      | Some (Some t) \<Rightarrow> Inr (to_instant t))"

section \<open>The control data kept with a refresh job\<close>

record refresh_control =
  rc_principal :: string
  rc_request_fingerprint :: string
  rc_dedupe_key :: string
  rc_submitted_at :: instant
  rc_cooldown_until :: instant
  rc_initial_state :: string

definition control_text :: "(string \<times> json) list \<Rightarrow> string \<Rightarrow> string option" where
  "control_text kvs k = (case dict_get kvs k of JStr s \<Rightarrow> if s = [] then None else Some s | _ \<Rightarrow> None)"

text \<open>\<open>_refresh_control\<close>, with the two timestamps parsed as every caller does next.\<close>

definition refresh_control_of :: "agent_env \<Rightarrow> json \<Rightarrow> agent_error + refresh_control" where
  "refresh_control_of G request =
     (case request of
        JObj req \<Rightarrow>
          (case dict_get req ''_refresh_control'' of
             JObj c \<Rightarrow>
               (case (control_text c ''principal'', control_text c ''request_fingerprint'', control_text c ''dedupe_key'',
                      control_text c ''submitted_at'', control_text c ''cooldown_until'', control_text c ''initial_state'') of
                  (Some p, Some f, Some d, Some sub, Some cool, Some st) \<Rightarrow>
                    (case first_failure [require_refresh_identifier ''principal'' p,
                        require_refresh_digest ''request_fingerprint'' f, require_refresh_digest ''dedupe_key'' d,
                        (if st \<noteq> ''queued'' then Some (operational_error ''durable refresh request initial state is invalid'') else None)] of
                       Some e \<Rightarrow> Inl e
                     | None \<Rightarrow>
                    (case parse_persisted G sub of Inl e \<Rightarrow> Inl e
                     | Inr submitted \<Rightarrow>
                    (case parse_persisted G cool of Inl e \<Rightarrow> Inl e
                     | Inr cooldown \<Rightarrow>
                         if cooldown < submitted
                         then Inl (operational_error ''durable refresh request cooldown is invalid'')
                         else Inr \<lparr>rc_principal = p, rc_request_fingerprint = f, rc_dedupe_key = d,
                           rc_submitted_at = submitted, rc_cooldown_until = cooldown, rc_initial_state = st\<rparr>)))
                | _ \<Rightarrow> Inl (operational_error ''durable refresh request metadata is invalid''))
           | _ \<Rightarrow> Inl (operational_error ''durable refresh request metadata is missing''))
      | _ \<Rightarrow> Inl (operational_error ''durable refresh request metadata is invalid''))"

section \<open>Reads\<close>

definition agent_job :: "job_row \<Rightarrow> bool" where
  "agent_job r \<longleftrightarrow> j_trigger r = ''agent_request''"

text \<open>\<open>_refresh_job_by_request_id\<close>\<close>

definition refresh_job_by_request_id :: "string \<Rightarrow> store \<Rightarrow> agent_error + job_row option" where
  "refresh_job_by_request_id i s =
     (case filter (\<lambda>r. j_request_instance_id r = Some i \<and> agent_job r) (s_jobs s) of
        [] \<Rightarrow> Inr None
      | [r] \<Rightarrow> Inr (Some r)
      | _ \<Rightarrow> Inl (operational_error ''ambiguous durable refresh request ID''))"

text \<open>
  \<open>_active_refresh_dedupe\<close>: the newest request of the cohort whose cooldown still runs, among the
  ledger and the jobs that no ledger row names yet.
\<close>

record dedupe_candidate =
  dc_job_id :: string
  dc_initial_state :: string
  dc_cooldown_until :: instant
  dc_submitted_at :: instant

definition ledger_candidates :: "string \<Rightarrow> instant \<Rightarrow> agent_db \<Rightarrow> dedupe_candidate list" where
  "ledger_candidates key anchor g =
     (case max_by (\<lambda>r. (rq_submitted_at r, rq_request_id r))
          (filter (\<lambda>r. rq_dedupe_key r = key \<and> anchor < rq_cooldown_until r) (ag_requests g)) of
        None \<Rightarrow> []
      | Some r \<Rightarrow> [\<lparr>dc_job_id = rq_job_id r, dc_initial_state = rq_initial_state r,
          dc_cooldown_until = rq_cooldown_until r, dc_submitted_at = rq_submitted_at r\<rparr>])"

definition orphan_jobs :: "agent_db \<Rightarrow> job_row list" where
  "orphan_jobs g = filter (\<lambda>r. agent_job r \<and> \<not> list_ex (\<lambda>q. rq_job_id q = j_job_id r) (ag_requests g))
     (s_jobs (ag_store g))"

definition has_refresh_control :: "json \<Rightarrow> bool" where
  "has_refresh_control j = (case j of JObj kvs \<Rightarrow> ''_refresh_control'' \<in> fst ` set kvs | _ \<Rightarrow> False)"

fun orphan_candidates :: "agent_env \<Rightarrow> string \<Rightarrow> instant \<Rightarrow> job_row list \<Rightarrow> agent_error + dedupe_candidate list" where
  "orphan_candidates G key anchor [] = Inr []"
| "orphan_candidates G key anchor (r # rs) =
     (if \<not> has_refresh_control (j_request r) then orphan_candidates G key anchor rs
      else case refresh_control_of G (j_request r) of
        Inl e \<Rightarrow> Inl e
      | Inr c \<Rightarrow>
          (case orphan_candidates G key anchor rs of
             Inl e \<Rightarrow> Inl e
           | Inr cs \<Rightarrow> Inr (if rc_dedupe_key c = key \<and> anchor < rc_cooldown_until c
               then \<lparr>dc_job_id = j_job_id r, dc_initial_state = rc_initial_state c,
                 dc_cooldown_until = rc_cooldown_until c, dc_submitted_at = rc_submitted_at c\<rparr> # cs
               else cs)))"

definition active_refresh_dedupe ::
  "agent_env \<Rightarrow> string \<Rightarrow> instant \<Rightarrow> agent_db \<Rightarrow> agent_error + dedupe_candidate option" where
  "active_refresh_dedupe G key anchor g =
     (case orphan_candidates G key anchor (orphan_jobs g) of
        Inl e \<Rightarrow> Inl e
      | Inr cs \<Rightarrow> Inr (max_by (\<lambda>c. (dc_submitted_at c, dc_job_id c)) (ledger_candidates key anchor g @ cs)))"

section \<open>Writes\<close>

definition validate_existing_refresh_request ::
  "refresh_args \<Rightarrow> refresh_row \<Rightarrow> agent_error + refresh_result" where
  "validate_existing_refresh_request a row =
     (if rq_principal row \<noteq> ra_principal a
      then Inl (RefreshRequestAccessError ''request_instance_id belongs to another principal'')
      else if rq_request_fingerprint row \<noteq> ra_request_fingerprint a
      then Inl (RefreshRequestReplayError ''request_instance_id was reused for a different request'')
      else Inr (refresh_result_of (Some (rq_job_id row)) (rq_disposition row) (rq_initial_state row) (rq_submitted_at row)))"

definition record_refresh_request ::
  "refresh_args \<Rightarrow> string \<Rightarrow> string \<Rightarrow> string \<Rightarrow> string \<Rightarrow> instant \<Rightarrow> instant \<Rightarrow> refresh_result agent_op" where
  "record_refresh_request a dedupe_key job_id disposition initial_state submitted_at cooldown_until =
     bind_op (transaction (insert_refresh_request
       \<lparr>rq_request_id = ra_request_id a, rq_principal = ra_principal a,
        rq_request_fingerprint = ra_request_fingerprint a, rq_dedupe_key = dedupe_key,
        rq_datasource_id = ra_datasource_id a, rq_definition_version = ra_definition_version a,
        rq_request_profile = ra_request_profile a, rq_job_id = job_id, rq_disposition = disposition,
        rq_initial_state = initial_state, rq_submitted_at = submitted_at, rq_cooldown_until = cooldown_until\<rparr>))
     (\<lambda>_. return_op (refresh_result_of (Some job_id) disposition initial_state submitted_at))"

text \<open>A job without a ledger row: the submission was cut short between its two transactions.\<close>

definition recover_refresh_request :: "agent_env \<Rightarrow> refresh_args \<Rightarrow> job_row \<Rightarrow> refresh_result agent_op" where
  "recover_refresh_request G a job =
     (case refresh_control_of G (j_request job) of
        Inl e \<Rightarrow> raise_op e
      | Inr c \<Rightarrow>
          if rc_principal c \<noteq> ra_principal a
          then raise_op (RefreshRequestAccessError ''request_instance_id belongs to another principal'')
          else if rc_request_fingerprint c \<noteq> ra_request_fingerprint a
          then raise_op (RefreshRequestReplayError ''request_instance_id was reused for a different request'')
          else record_refresh_request a (rc_dedupe_key c) (j_job_id job) ''accepted'' (rc_initial_state c)
            (rc_submitted_at c) (rc_cooldown_until c))"

subsection \<open>The second confirmation\<close>

text \<open>
  \<open>_london_day_window\<close>: the midnights before and after; adding a day to the last date of the
  calendar overflows.
\<close>

definition midnight :: "nat \<Rightarrow> datetime" where
  "midnight n = (case ord2ymd n of (y, m, d) \<Rightarrow>
     \<lparr>dt_year = y, dt_month = m, dt_day = d, dt_hour = 0, dt_minute = 0, dt_second = 0, dt_microsecond = 0\<rparr>)"

definition london_day_window :: "agent_env \<Rightarrow> instant \<Rightarrow> agent_error + (instant \<times> instant)" where
  "london_day_window G t =
     (let day = date_ord (zi_local (ge_london G) t)
      in if max_ordinal < day + 1 then Inl AgentOverflowError
         else Inr (zi_utc (ge_london G) (midnight day), zi_utc (ge_london G) (midnight (day + 1))))"

definition onspd_jobs_between :: "instant \<Rightarrow> instant \<Rightarrow> store \<Rightarrow> job_row list" where
  "onspd_jobs_between day_start day_end s =
     filter (\<lambda>r. j_datasource_id r = Some onspd_refresh_datasource_id \<and> agent_job r \<and>
        day_start \<le> j_created_at r \<and> j_created_at r < day_end) (s_jobs s)"

definition refresh_jobs_in_london_day :: "agent_env \<Rightarrow> instant \<Rightarrow> store \<Rightarrow> agent_error + nat" where
  "refresh_jobs_in_london_day G t s =
     (case london_day_window G t of
        Inl e \<Rightarrow> Inl e
      | Inr (day_start, day_end) \<Rightarrow> Inr (length (onspd_jobs_between day_start day_end s)))"

definition confirmation_identity_error :: "refresh_args \<Rightarrow> confirmation_row \<Rightarrow> agent_error option" where
  "confirmation_identity_error a row =
     (if cf_principal row \<noteq> ra_principal a
      then Some (RefreshRequestAccessError ''request_instance_id belongs to another principal'')
      else if cf_request_fingerprint row \<noteq> ra_request_fingerprint a
      then Some (RefreshRequestReplayError ''request_instance_id was reused for a different request'')
      else if cf_datasource_id row \<noteq> ra_datasource_id a \<or> cf_definition_version row \<noteq> ra_definition_version a
      then Some (RefreshRequestReplayError ''request_instance_id was reused for a different datasource'')
      else None)"

definition validate_refresh_confirmation :: "confirmation_row \<Rightarrow> string \<Rightarrow> instant \<Rightarrow> agent_error option" where
  "validate_refresh_confirmation row token submitted_at =
     (if cf_confirmation_token row \<noteq> token then Some (RefreshConfirmationError ''refresh confirmation is invalid'')
      else if cf_expires_at row \<le> submitted_at
      then Some (RefreshConfirmationError ''refresh confirmation expired; create a new request'')
      else None)"

definition confirmation_required :: "instant \<Rightarrow> string \<Rightarrow> instant \<Rightarrow> refresh_result" where
  "confirmation_required issued_at token expires_at =
     \<lparr>rr_job_id = None, rr_disposition = ''confirmation_required'', rr_initial_state = ''confirmation_required'',
      rr_submitted_at = issued_at, rr_confirmation_token = Some token, rr_confirmation_expires_at = Some expires_at\<rparr>"

definition issue_refresh_confirmation ::
  "agent_env \<Rightarrow> refresh_args \<Rightarrow> confirmation_row option \<Rightarrow> refresh_ids \<Rightarrow> refresh_result agent_op" where
  "issue_refresh_confirmation G a pending ids =
     (case pending of
        Some row \<Rightarrow>
          if cf_expires_at row \<le> ra_submitted_at a
          then raise_op (RefreshConfirmationError ''refresh confirmation expired; create a new request'')
          else return_op (confirmation_required (cf_issued_at row) (cf_confirmation_token row) (cf_expires_at row))
      | None \<Rightarrow>
          let issued_at = ra_submitted_at a; expires_at = issued_at + refresh_confirmation_ttl
          in if \<not> instant_ok expires_at then raise_op AgentOverflowError
             else (case london_day_window G issued_at of
               Inl e \<Rightarrow> raise_op e
             | Inr (day_start, _) \<Rightarrow>
                 bind_op (transaction
                   (bind_op (insert_refresh_confirmation
                      \<lparr>cf_confirmation_token = ri_token ids, cf_request_id = ra_request_id a,
                       cf_principal = ra_principal a, cf_request_fingerprint = ra_request_fingerprint a,
                       cf_datasource_id = ra_datasource_id a, cf_definition_version = ra_definition_version a,
                       cf_day_start_at = day_start, cf_issued_at = issued_at, cf_expires_at = expires_at\<rparr>) (\<lambda>_.
                    on_jobs (audit (ri_audit ids) ''agent'' (ra_principal a) ''refresh_confirmation_issued''
                      ''refresh_confirmation'' (ra_request_id a)
                      (JObj [(''datasource_id'', JStr (ra_datasource_id a)), (''request_id'', JStr (ra_request_id a)),
                        (''daily_limit'', JInt (int onspd_refresh_daily_limit))]) issued_at))))
                 (\<lambda>_. return_op (confirmation_required issued_at (ri_token ids) expires_at))))"

text \<open>\<open>_onspd_refresh_confirmation\<close>: \<open>None\<close> lets the submission go on.\<close>

definition onspd_refresh_confirmation ::
  "agent_env \<Rightarrow> refresh_args \<Rightarrow> confirmation_row option \<Rightarrow> refresh_ids \<Rightarrow> refresh_result option agent_op" where
  "onspd_refresh_confirmation G a pending ids g =
     (if ra_datasource_id a \<noteq> onspd_refresh_datasource_id then (Inr None, g)
      else case refresh_jobs_in_london_day G (ra_submitted_at a) (ag_store g) of
        Inl e \<Rightarrow> (Inl e, g)
      | Inr n \<Rightarrow>
          if n < onspd_refresh_daily_limit
          then (if ra_confirmation_token a \<noteq> None
                then (Inl (RefreshConfirmationError ''confirmation is not required while the ONSPD daily quota remains''), g)
                else (Inr None, g))
          else (case ra_confirmation_token a of
            None \<Rightarrow> bind_op (issue_refresh_confirmation G a pending ids) (\<lambda>r. return_op (Some r)) g
          | Some token \<Rightarrow>
              (case pending of
                 None \<Rightarrow> (Inl (RefreshConfirmationError ''refresh confirmation is unknown''), g)
               | Some row \<Rightarrow>
                   (case validate_refresh_confirmation row token (ra_submitted_at a) of
                      Some e \<Rightarrow> (Inl e, g) | None \<Rightarrow> (Inr None, g)))))"

subsection \<open>Submission\<close>

definition refresh_control_json :: "refresh_control \<Rightarrow> json" where
  "refresh_control_json c = JObj
     [(''principal'', JStr (rc_principal c)), (''request_fingerprint'', JStr (rc_request_fingerprint c)),
      (''dedupe_key'', JStr (rc_dedupe_key c)), (''submitted_at'', ts_json (rc_submitted_at c)),
      (''cooldown_until'', ts_json (rc_cooldown_until c)), (''initial_state'', JStr (rc_initial_state c))]"

definition new_refresh_control :: "refresh_args \<Rightarrow> refresh_control" where
  "new_refresh_control a =
     \<lparr>rc_principal = ra_principal a, rc_request_fingerprint = ra_request_fingerprint a,
      rc_dedupe_key = ra_dedupe_key a, rc_submitted_at = ra_submitted_at a,
      rc_cooldown_until = ra_cooldown_until a, rc_initial_state = ''queued''\<rparr>"

text \<open>The merged dictionary: a key of the default request that occurs again takes the new value.\<close>

definition refresh_request_payload :: "refresh_args \<Rightarrow> definition_descriptor \<Rightarrow> (string \<times> json) list" where
  "refresh_request_payload a d =
     dict_set (dict_set (dict_set (dict_set (dd_default_request d)
       ''refresh_profile'' (JStr (ra_request_profile a)))
       ''scope'' (JObj (map (\<lambda>(k, vs). (k, JList (map JStr vs))) (ra_bounded_scope a))))
       ''intent'' (JStr (ra_intent a)))
       ''_refresh_control'' (refresh_control_json (new_refresh_control a))"

definition refresh_enqueue_args :: "refresh_args \<Rightarrow> definition_descriptor \<Rightarrow> enqueue_args" where
  "refresh_enqueue_args a d = (enqueue_defaults (ra_datasource_id a))\<lparr>
     ea_definition_version := Some (ra_definition_version a), ea_request := Some (refresh_request_payload a d),
     ea_trigger := ''agent_request'', ea_lane := Some (ra_lane a), ea_scheduled_for := Some (ra_submitted_at a),
     ea_request_instance_id := Some (ra_request_id a)\<rparr>"

definition accept_refresh ::
  "agent_env \<Rightarrow> refresh_args \<Rightarrow> definition_descriptor \<Rightarrow> instant \<Rightarrow> refresh_ids \<Rightarrow> refresh_result agent_op" where
  "accept_refresh G a d clock ids =
     bind_op (on_jobs (enqueue (ge_env G) clock (ri_enqueue ids) (refresh_enqueue_args a d))) (\<lambda>queued.
       if er_disposition queued \<noteq> ''accepted''
       then raise_op (operational_error ''refresh job was not accepted for ledger binding'')
       else record_refresh_request a (ra_dedupe_key a) (er_job_id queued) ''accepted''
         (job_state_text (er_state queued)) (ra_submitted_at a) (ra_cooldown_until a))"

definition submit_new ::
  "agent_env \<Rightarrow> refresh_args \<Rightarrow> definition_descriptor \<Rightarrow> confirmation_row option \<Rightarrow> instant \<Rightarrow> refresh_ids \<Rightarrow>
   refresh_result agent_op" where
  "submit_new G a d pending clock ids =
     bind_op (read_op (active_refresh_dedupe G (ra_dedupe_key a) (ra_submitted_at a))) (\<lambda>prior.
       case prior of
         Some c \<Rightarrow> record_refresh_request a (ra_dedupe_key a) (dc_job_id c) ''deduplicated'' (dc_initial_state c)
           (ra_submitted_at a) (dc_cooldown_until c)
       | None \<Rightarrow>
           bind_op (onspd_refresh_confirmation G a pending ids) (\<lambda>confirmation.
             case confirmation of
               Some r \<Rightarrow> return_op r
             | None \<Rightarrow> accept_refresh G a d clock ids))"

definition submit_known ::
  "agent_env \<Rightarrow> refresh_args \<Rightarrow> definition_descriptor \<Rightarrow> instant \<Rightarrow> refresh_ids \<Rightarrow> refresh_result agent_op" where
  "submit_known G a d clock ids g =
     (case lookup_by rq_request_id (ra_request_id a) (ag_requests g) of
        Some row \<Rightarrow> (validate_existing_refresh_request a row, g)
      | None \<Rightarrow>
          let pending = lookup_by cf_request_id (ra_request_id a) (ag_confirmations g)
          in case (case pending of None \<Rightarrow> None | Some row \<Rightarrow> confirmation_identity_error a row) of
               Some e \<Rightarrow> (Inl e, g)
             | None \<Rightarrow>
                 (case refresh_job_by_request_id (ra_request_id a) (ag_store g) of
                    Inl e \<Rightarrow> (Inl e, g)
                  | Inr (Some job) \<Rightarrow> recover_refresh_request G a job g
                  | Inr None \<Rightarrow> submit_new G a d pending clock ids g))"

definition submit_agent_refresh ::
  "agent_env \<Rightarrow> refresh_args \<Rightarrow> instant \<Rightarrow> refresh_ids \<Rightarrow> refresh_result agent_op" where
  "submit_agent_refresh G a clock ids =
     (case submit_checks a of
        Some e \<Rightarrow> raise_op e
      | None \<Rightarrow>
          bind_op (on_jobs (sync_registry (en_sha (ge_env G)) (en_registry (ge_env G)) (ra_submitted_at a))) (\<lambda>_.
            case registry_lookup (en_registry (ge_env G)) (ra_datasource_id a) (Some (ra_definition_version a)) of
              Inl (RegistryError m) \<Rightarrow> raise_op (operational_error m)
            | Inl e \<Rightarrow> raise_op (StoreError e)
            | Inr d \<Rightarrow> submit_known G a d clock ids))"

section \<open>Status\<close>

record job_status =
  js_job :: job_row
  js_attempts :: "attempt_row list"
  js_run :: "run_row option"
  js_promotions :: "promotion_row list"

text \<open>\<open>get_job\<close>; the error columns are JSON values in the rows.\<close>

definition get_job :: "string \<Rightarrow> store \<Rightarrow> job_status option" where
  "get_job job_id s =
     (case lookup_by j_job_id job_id (s_jobs s) of
        None \<Rightarrow> None
      | Some job \<Rightarrow>
          let run = max_by r_created_at (filter (\<lambda>r. r_job_id r = job_id) (s_runs s))
          in Some \<lparr>js_job = job,
               js_attempts = sort_key a_attempt_no (filter (\<lambda>a. a_job_id a = job_id) (s_attempts s)),
               js_run = run,
               js_promotions = (case run of None \<Rightarrow> []
                 | Some r \<Rightarrow> sort_key p_promotion_seq (filter (\<lambda>p. p_run_id p = r_run_id r) (s_promotions s)))\<rparr>)"

definition get_agent_refresh_job :: "string \<Rightarrow> string \<Rightarrow> agent_db \<Rightarrow> agent_error + job_status option" where
  "get_agent_refresh_job job_id caller g =
     (case first_failure [require_refresh_identifier ''job_id'' job_id, require_refresh_identifier ''principal'' caller] of
        Some e \<Rightarrow> Inl e
      | None \<Rightarrow>
          if list_ex (\<lambda>r. rq_job_id r = job_id \<and> rq_principal r = caller) (ag_requests g)
          then Inr (get_job job_id (ag_store g))
          else Inl (RefreshRequestAccessError ''job is not visible to this context''))"

end
