(* ===== verification/AgentApproval.thy ===== *)
theory AgentApproval
  imports AgentRefresh
begin

text \<open>
  The host-only approvals of \<open>OperationalStore\<close> (\<open>operational.py\<close>): an approval binds a refresh that
  needs a second confirmation to a principal, a capability and the exact request; it never holds the
  confirmation token, which \<open>recover_agent_refresh_approval\<close> reads back for the caller that proves the
  same identity before the approval expires. Decisions are an append-only log.

  A snapshot arrives from the host or from the stored JSON, so its parts are JSON values; a scope
  value is a string or a list of strings (the tuples of the host are lists).
\<close>

section \<open>Snapshots\<close>

record refresh_snapshot =
  sn_datasource_id :: string
  sn_request_profile :: string
  sn_bounded_scope :: "(string \<times> string list) list"
  sn_intent :: string

definition approval_identifier_error :: "string \<Rightarrow> agent_error" where
  "approval_identifier_error name = RefreshApprovalError (name @ '' must be a non-empty string of at most 256 characters'')"

definition require_agent_approval_identifier :: "string \<Rightarrow> string \<Rightarrow> agent_error option" where
  "require_agent_approval_identifier name v =
     (if bounded_identifier v then None else Some (approval_identifier_error name))"

text \<open>The same check on a value that need not be a string.\<close>

fun approval_identifier :: "string \<Rightarrow> json \<Rightarrow> agent_error + string" where
  "approval_identifier name (JStr v) =
     (if bounded_identifier v then Inr v else Inl (approval_identifier_error name))"
| "approval_identifier name _ = Inl (approval_identifier_error name)"

fun json_strings :: "json list \<Rightarrow> string list option" where
  "json_strings [] = Some []"
| "json_strings (JStr s # js) = map_option ((#) s) (json_strings js)"
| "json_strings (_ # js) = None"

definition scope_values :: "json \<Rightarrow> agent_error + string list" where
  "scope_values v =
     (case (case v of JStr s \<Rightarrow> Some [s] | JList js \<Rightarrow> json_strings js | _ \<Rightarrow> None) of
        None \<Rightarrow> Inl (RefreshApprovalError ''approval scope values must contain strings'')
      | Some vs \<Rightarrow>
          if vs = [] \<or> 100 < length vs \<or> list_ex (\<lambda>s. s = [] \<or> 256 < length s) vs
          then Inl (RefreshApprovalError ''approval scope values are invalid'')
          else Inr vs)"

text \<open>The loop over the scope, with the number of values seen so far.\<close>

fun normalized_scope :: "nat \<Rightarrow> (string \<times> json) list \<Rightarrow> agent_error + (string \<times> string list) list" where
  "normalized_scope n [] = Inr []"
| "normalized_scope n ((k, v) # kvs) =
     (case require_agent_approval_identifier ''approval scope key'' k of
        Some e \<Rightarrow> Inl e
      | None \<Rightarrow>
     (case scope_values v of
        Inl e \<Rightarrow> Inl e
      | Inr vs \<Rightarrow>
          if 100 < n + length vs then Inl (RefreshApprovalError ''approval scope has too many values'')
          else (case normalized_scope (n + length vs) kvs of
                  Inl e \<Rightarrow> Inl e
                | Inr rest \<Rightarrow> Inr ((k, vs) # rest))))"

definition agent_refresh_snapshot :: "json \<Rightarrow> json \<Rightarrow> json \<Rightarrow> json \<Rightarrow> agent_error + refresh_snapshot" where
  "agent_refresh_snapshot datasource_id request_profile bounded_scope intent =
     (case approval_identifier ''datasource_id'' datasource_id of
        Inl e \<Rightarrow> Inl e
      | Inr ds \<Rightarrow>
     (case approval_identifier ''request_profile'' request_profile of
        Inl e \<Rightarrow> Inl e
      | Inr profile \<Rightarrow>
     (case (case intent of JStr i \<Rightarrow> if i = [] \<or> 240 < length i then None else Some i | _ \<Rightarrow> None) of
        None \<Rightarrow> Inl (RefreshApprovalError ''approval intent must be between 1 and 240 characters'')
      | Some i \<Rightarrow>
     (case bounded_scope of
        JObj kvs \<Rightarrow>
          if 100 < length kvs then Inl (RefreshApprovalError ''approval scope must be a bounded mapping'')
          else (case normalized_scope 0 kvs of
                  Inl e \<Rightarrow> Inl e
                | Inr sc \<Rightarrow> Inr \<lparr>sn_datasource_id = ds, sn_request_profile = profile,
                    sn_bounded_scope = sort_key fst sc, sn_intent = i\<rparr>)
      | _ \<Rightarrow> Inl (RefreshApprovalError ''approval scope must be a bounded mapping'')))))"

definition snapshot_json :: "refresh_snapshot \<Rightarrow> json" where
  "snapshot_json sn = JObj
     [(''datasource_id'', JStr (sn_datasource_id sn)), (''request_profile'', JStr (sn_request_profile sn)),
      (''bounded_scope'', JObj (map (\<lambda>(k, vs). (k, JList (map JStr vs))) (sn_bounded_scope sn))),
      (''intent'', JStr (sn_intent sn))]"

definition snapshot_fingerprint :: "(string \<Rightarrow> string) \<Rightarrow> refresh_snapshot \<Rightarrow> string" where
  "snapshot_fingerprint sha sn = sha (utf8 (print_json (snapshot_json sn)))"

section \<open>Approvals\<close>

record agent_refresh_approval =
  aa_approval_id :: string
  aa_refresh_request_id :: string
  aa_principal :: string
  aa_capability_scope_id :: string
  aa_capability_id :: string
  aa_manifest_version :: string
  aa_profile_version :: string
  aa_request_fingerprint :: string
  aa_snapshot :: refresh_snapshot
  aa_issued_at :: instant
  aa_expires_at :: instant

text \<open>What the host says of itself and of the request when it names an approval.\<close>

record host_identity =
  hi_principal :: string
  hi_capability_scope_id :: string
  hi_capability_id :: string
  hi_manifest_version :: string
  hi_profile_version :: string
  hi_request_fingerprint :: string

definition identity_checks :: "host_identity \<Rightarrow> agent_error option list" where
  "identity_checks h =
     [require_refresh_identifier ''principal'' (hi_principal h),
      require_agent_approval_identifier ''capability_scope_id'' (hi_capability_scope_id h),
      require_agent_approval_identifier ''capability_id'' (hi_capability_id h),
      require_agent_approval_identifier ''manifest_version'' (hi_manifest_version h),
      require_agent_approval_identifier ''profile_version'' (hi_profile_version h),
      require_refresh_digest ''request_fingerprint'' (hi_request_fingerprint h)]"

definition snapshot_keys :: "string set" where
  "snapshot_keys = {''datasource_id'', ''request_profile'', ''bounded_scope'', ''intent''}"

definition stored_snapshot :: "json \<Rightarrow> agent_error + refresh_snapshot" where
  "stored_snapshot j =
     (case j of
        JObj kvs \<Rightarrow>
          if fst ` set kvs \<noteq> snapshot_keys then Inl (RefreshApprovalError ''durable approval snapshot is invalid'')
          else agent_refresh_snapshot (dict_get kvs ''datasource_id'') (dict_get kvs ''request_profile'')
            (dict_get kvs ''bounded_scope'') (dict_get kvs ''intent'')
      | _ \<Rightarrow> Inl (RefreshApprovalError ''durable approval snapshot is invalid''))"

definition agent_refresh_approval_from_row ::
  "agent_env \<Rightarrow> approval_row \<Rightarrow> agent_error + agent_refresh_approval" where
  "agent_refresh_approval_from_row G row =
     (case stored_snapshot (ap_request_snapshot row) of
        Inl e \<Rightarrow> Inl e
      | Inr sn \<Rightarrow>
          (case first_failure [require_agent_approval_identifier ''approval_id'' (ap_approval_id row),
              require_refresh_identifier ''refresh_request_id'' (ap_refresh_request_id row),
              require_refresh_identifier ''principal'' (ap_principal row),
              require_agent_approval_identifier ''capability_scope_id'' (ap_capability_scope_id row),
              require_agent_approval_identifier ''capability_id'' (ap_capability_id row),
              require_agent_approval_identifier ''manifest_version'' (ap_manifest_version row),
              require_agent_approval_identifier ''profile_version'' (ap_profile_version row),
              require_refresh_digest ''request_fingerprint'' (ap_request_fingerprint row)] of
             Some e \<Rightarrow> Inl e
           | None \<Rightarrow>
               if snapshot_fingerprint (en_sha (ge_env G)) sn \<noteq> ap_request_fingerprint row
               then Inl (RefreshApprovalReplayError ''durable approval snapshot fingerprint is invalid'')
               else Inr \<lparr>aa_approval_id = ap_approval_id row, aa_refresh_request_id = ap_refresh_request_id row,
                 aa_principal = ap_principal row, aa_capability_scope_id = ap_capability_scope_id row,
                 aa_capability_id = ap_capability_id row, aa_manifest_version = ap_manifest_version row,
                 aa_profile_version = ap_profile_version row, aa_request_fingerprint = ap_request_fingerprint row,
                 aa_snapshot = sn, aa_issued_at = ap_issued_at row, aa_expires_at = ap_expires_at row\<rparr>))"

definition validate_agent_refresh_approval ::
  "agent_refresh_approval \<Rightarrow> host_identity \<Rightarrow> instant \<Rightarrow> agent_error option" where
  "validate_agent_refresh_approval ap h anchor =
     (if aa_principal ap \<noteq> hi_principal h \<or> aa_capability_scope_id ap \<noteq> hi_capability_scope_id h
      then Some (RefreshApprovalAccessError ''approval is not available to this host context'')
      else if aa_capability_id ap \<noteq> hi_capability_id h \<or> aa_manifest_version ap \<noteq> hi_manifest_version h \<or>
        aa_profile_version ap \<noteq> hi_profile_version h \<or> aa_request_fingerprint ap \<noteq> hi_request_fingerprint h
      then Some (RefreshApprovalReplayError ''approval policy or request identity changed'')
      else if aa_expires_at ap \<le> anchor
      then Some (RefreshApprovalExpiredError ''approval expired; create a new refresh request'')
      else None)"

definition validate_approval_confirmation ::
  "confirmation_row \<Rightarrow> string \<Rightarrow> string \<Rightarrow> string \<Rightarrow> instant \<Rightarrow> agent_error option" where
  "validate_approval_confirmation row caller request_fingerprint datasource_id anchor =
     (if \<not> (cf_principal row = caller \<and> cf_request_fingerprint row = request_fingerprint \<and>
        cf_datasource_id row = datasource_id)
      then Some (RefreshApprovalReplayError ''refresh confirmation identity changed'')
      else if cf_expires_at row \<le> anchor
      then Some (RefreshApprovalExpiredError ''approval expired; create a new refresh request'')
      else None)"

section \<open>Inserts with their constraints\<close>

definition insert_approval :: "approval_row \<Rightarrow> unit agent_op" where
  "insert_approval r g =
     (if lookup_by ap_approval_id (ap_approval_id r) (ag_approvals g) = None \<and>
         lookup_by ap_refresh_request_id (ap_refresh_request_id r) (ag_approvals g) = None \<and>
         length (ap_request_fingerprint r) = 64 \<and> ap_issued_at r < ap_expires_at r \<and>
         lookup_by cf_request_id (ap_refresh_request_id r) (ag_confirmations g) \<noteq> None
      then (Inr (), g\<lparr>ag_approvals := ag_approvals g @ [r]\<rparr>)
      else (Inl (StoreError (IntegrityError ''agent_refresh_approval'')), g))"

definition events_of :: "string \<Rightarrow> agent_db \<Rightarrow> approval_event_row list" where
  "events_of i g = filter (\<lambda>e. av_approval_id e = i) (ag_events g)"

text \<open>\<open>SELECT COALESCE(MAX(event_seq), 0) + 1\<close>\<close>

definition next_event_seq :: "string \<Rightarrow> agent_db \<Rightarrow> int" where
  "next_event_seq i g = (case max_by av_event_seq (events_of i g) of None \<Rightarrow> 1 | Some e \<Rightarrow> av_event_seq e + 1)"

text \<open>The column checks, the keys and the three triggers of the event table.\<close>

definition insert_approval_event :: "approval_event_row \<Rightarrow> unit agent_op" where
  "insert_approval_event r g =
     (if lookup_by av_event_id (av_event_id r) (ag_events g) = None \<and> 0 < av_event_seq r \<and>
         av_event_type r \<in> {''decision'', ''replay''} \<and> av_decision r \<in> {''approve'', ''deny''} \<and>
         av_actor_type r = ''host'' \<and>
         lookup_by ap_approval_id (av_approval_id r) (ag_approvals g) \<noteq> None \<and>
         \<not> list_ex (\<lambda>e. av_event_seq e = av_event_seq r) (events_of (av_approval_id r) g) \<and>
         av_event_seq r = next_event_seq (av_approval_id r) g \<and>
         \<not> (av_event_type r = ''decision'' \<and> list_ex (\<lambda>e. av_event_type e = ''decision'') (events_of (av_approval_id r) g)) \<and>
         \<not> (av_event_type r = ''replay'' \<and>
           \<not> list_ex (\<lambda>e. av_event_type e = ''decision'' \<and> av_decision e = av_decision r) (events_of (av_approval_id r) g))
      then (Inr (), g\<lparr>ag_events := ag_events g @ [r]\<rparr>)
      else (Inl (StoreError (IntegrityError ''agent_refresh_approval_event'')), g))"

section \<open>Operations\<close>

record approval_args =
  pa_refresh_request_id :: string
  pa_identity :: host_identity
  pa_datasource_id :: string
  pa_request_profile :: string
  pa_bounded_scope :: json
  pa_intent :: string

definition create_approval_checks :: "(string \<Rightarrow> string) \<Rightarrow> approval_args \<Rightarrow> agent_error + refresh_snapshot" where
  "create_approval_checks sha a =
     (case first_failure (require_refresh_identifier ''refresh_request_id'' (pa_refresh_request_id a) #
         identity_checks (pa_identity a)) of
        Some e \<Rightarrow> Inl e
      | None \<Rightarrow>
     (case agent_refresh_snapshot (JStr (pa_datasource_id a)) (JStr (pa_request_profile a)) (pa_bounded_scope a)
         (JStr (pa_intent a)) of
        Inl e \<Rightarrow> Inl e
      | Inr sn \<Rightarrow>
          if snapshot_fingerprint sha sn \<noteq> hi_request_fingerprint (pa_identity a)
          then Inl (RefreshApprovalReplayError ''approval snapshot does not match the durable refresh request'')
          else Inr sn))"

definition bind_approval ::
  "agent_env \<Rightarrow> approval_args \<Rightarrow> refresh_snapshot \<Rightarrow> instant \<Rightarrow> string \<Rightarrow> agent_refresh_approval agent_op" where
  "bind_approval G a sn anchor approval_id g =
     (let h = pa_identity a
      in case lookup_by cf_request_id (pa_refresh_request_id a) (ag_confirmations g) of
           None \<Rightarrow> (Inl (RefreshApprovalError ''refresh confirmation is not available''), g)
         | Some cf \<Rightarrow>
        (case validate_approval_confirmation cf (hi_principal h) (hi_request_fingerprint h) (pa_datasource_id a) anchor of
           Some e \<Rightarrow> (Inl e, g)
         | None \<Rightarrow>
        (case lookup_by ap_refresh_request_id (pa_refresh_request_id a) (ag_approvals g) of
           Some row \<Rightarrow>
             (case agent_refresh_approval_from_row G row of
                Inl e \<Rightarrow> (Inl e, g)
              | Inr ap \<Rightarrow>
                  (case validate_agent_refresh_approval ap h anchor of Some e \<Rightarrow> (Inl e, g) | None \<Rightarrow> (Inr ap, g)))
         | None \<Rightarrow>
             bind_op (insert_approval
               \<lparr>ap_approval_id = approval_id, ap_refresh_request_id = pa_refresh_request_id a,
                ap_principal = hi_principal h, ap_capability_scope_id = hi_capability_scope_id h,
                ap_capability_id = hi_capability_id h, ap_manifest_version = hi_manifest_version h,
                ap_profile_version = hi_profile_version h, ap_request_fingerprint = hi_request_fingerprint h,
                ap_request_snapshot = snapshot_json sn, ap_issued_at = cf_issued_at cf, ap_expires_at = cf_expires_at cf\<rparr>)
             (\<lambda>_. return_op
               \<lparr>aa_approval_id = approval_id, aa_refresh_request_id = pa_refresh_request_id a,
                aa_principal = hi_principal h, aa_capability_scope_id = hi_capability_scope_id h,
                aa_capability_id = hi_capability_id h, aa_manifest_version = hi_manifest_version h,
                aa_profile_version = hi_profile_version h, aa_request_fingerprint = hi_request_fingerprint h,
                aa_snapshot = sn, aa_issued_at = cf_issued_at cf, aa_expires_at = cf_expires_at cf\<rparr>) g)))"

definition create_agent_refresh_approval ::
  "agent_env \<Rightarrow> approval_args \<Rightarrow> instant \<Rightarrow> string \<Rightarrow> agent_refresh_approval agent_op" where
  "create_agent_refresh_approval G a now approval_id =
     (case create_approval_checks (en_sha (ge_env G)) a of
        Inl e \<Rightarrow> raise_op e
      | Inr sn \<Rightarrow> transaction (bind_approval G a sn now approval_id))"

text \<open>\<open>recover_agent_refresh_approval\<close>: the approval joined with its confirmation, and the token.\<close>

definition recover_agent_refresh_approval ::
  "agent_env \<Rightarrow> string \<Rightarrow> host_identity \<Rightarrow> instant \<Rightarrow> agent_db \<Rightarrow> agent_error + (agent_refresh_approval \<times> string)" where
  "recover_agent_refresh_approval G approval_id h now g =
     (case first_failure (require_agent_approval_identifier ''approval_id'' approval_id # identity_checks h) of
        Some e \<Rightarrow> Inl e
      | None \<Rightarrow>
     (case lookup_by ap_approval_id approval_id (ag_approvals g) of
        None \<Rightarrow> Inl (RefreshApprovalAccessError ''approval is not available to this host context'')
      | Some row \<Rightarrow>
     (case lookup_by cf_request_id (ap_refresh_request_id row) (ag_confirmations g) of
        None \<Rightarrow> Inl (RefreshApprovalAccessError ''approval is not available to this host context'')
      | Some cf \<Rightarrow>
     (case agent_refresh_approval_from_row G row of
        Inl e \<Rightarrow> Inl e
      | Inr ap \<Rightarrow>
     (case first_failure [validate_agent_refresh_approval ap h now,
         validate_approval_confirmation cf (aa_principal ap) (aa_request_fingerprint ap)
           (sn_datasource_id (aa_snapshot ap)) now] of
        Some e \<Rightarrow> Inl e
      | None \<Rightarrow>
          if cf_issued_at cf \<noteq> aa_issued_at ap \<or> cf_expires_at cf \<noteq> aa_expires_at ap
          then Inl (RefreshApprovalReplayError ''approval confirmation metadata changed'')
          else (case require_optional_refresh_confirmation_token (Some (cf_confirmation_token cf)) of
                  Some e \<Rightarrow> Inl e
                | None \<Rightarrow> Inr (ap, cf_confirmation_token cf)))))))"

definition lookup_agent_refresh_approval ::
  "agent_env \<Rightarrow> string \<Rightarrow> instant \<Rightarrow> agent_db \<Rightarrow> agent_error + agent_refresh_approval" where
  "lookup_agent_refresh_approval G approval_id now g =
     (case require_agent_approval_identifier ''approval_id'' approval_id of
        Some e \<Rightarrow> Inl e
      | None \<Rightarrow>
     (case lookup_by ap_approval_id approval_id (ag_approvals g) of
        None \<Rightarrow> Inl (RefreshApprovalAccessError ''approval is not available to this host context'')
      | Some row \<Rightarrow>
     (case agent_refresh_approval_from_row G row of
        Inl e \<Rightarrow> Inl e
      | Inr ap \<Rightarrow>
          if aa_expires_at ap \<le> now then Inl (RefreshApprovalExpiredError ''approval has expired'') else Inr ap)))"

record agent_approval_decision =
  ad_approval_id :: string
  ad_event_id :: string
  ad_decision :: string
  ad_outcome :: string
  ad_decided_at :: instant

definition prior_decision :: "string \<Rightarrow> agent_db \<Rightarrow> string option" where
  "prior_decision i g = map_option av_decision (List.find (\<lambda>e. av_event_type e = ''decision'') (events_of i g))"

definition append_decision ::
  "agent_env \<Rightarrow> string \<Rightarrow> string \<Rightarrow> host_identity \<Rightarrow> string \<Rightarrow> instant \<Rightarrow> string \<Rightarrow> agent_approval_decision agent_op" where
  "append_decision G approval_id decision h actor_id anchor event_id g =
     (case lookup_by ap_approval_id approval_id (ag_approvals g) of
        None \<Rightarrow> (Inl (RefreshApprovalAccessError ''approval is not available to this host context''), g)
      | Some row \<Rightarrow>
     (case agent_refresh_approval_from_row G row of
        Inl e \<Rightarrow> (Inl e, g)
      | Inr ap \<Rightarrow>
     (case validate_agent_refresh_approval ap h anchor of
        Some e \<Rightarrow> (Inl e, g)
      | None \<Rightarrow>
          let prior = prior_decision approval_id g;
              outcome = (if prior \<noteq> None then ''replay'' else ''decision'')
          in if prior \<noteq> None \<and> prior \<noteq> Some decision
             then (Inl (ApprovalDecisionConflictError ''approval already has a conflicting immutable decision''), g)
             else bind_op (insert_approval_event
               \<lparr>av_event_id = event_id, av_approval_id = approval_id, av_event_seq = next_event_seq approval_id g,
                av_event_type = outcome, av_decision = decision, av_actor_type = ''host'', av_actor_id = actor_id,
                av_details = JObj [(''refresh_request_id'', JStr (aa_refresh_request_id ap))], av_created_at = anchor\<rparr>)
             (\<lambda>_. return_op \<lparr>ad_approval_id = approval_id, ad_event_id = event_id, ad_decision = decision,
                ad_outcome = (if outcome = ''replay'' then ''replayed'' else ''recorded''), ad_decided_at = anchor\<rparr>) g)))"

definition decide_agent_refresh_approval ::
  "agent_env \<Rightarrow> string \<Rightarrow> string \<Rightarrow> host_identity \<Rightarrow> string \<Rightarrow> instant \<Rightarrow> string \<Rightarrow> agent_approval_decision agent_op" where
  "decide_agent_refresh_approval G approval_id decision h actor_id now event_id =
     (case first_failure ([require_agent_approval_identifier ''approval_id'' approval_id,
         (if decision \<notin> {''approve'', ''deny''}
          then Some (RefreshApprovalError ''approval decision must be approve or deny'') else None)] @
         identity_checks h @ [require_agent_approval_identifier ''actor_id'' actor_id]) of
        Some e \<Rightarrow> raise_op e
      | None \<Rightarrow> transaction (append_decision G approval_id decision h actor_id now event_id))"

end
