(* ===== verification/RefreshSpec.thy ===== *)
theory RefreshSpec
  imports AgentApproval History
begin

text \<open>
  What a refresh submission promises, as an abstract step relation. The abstract state has the
  refresh jobs, the request ledger and the confirmations; a step is one transaction that changes
  them: a confirmation is issued, a job is created, a request is bound to a job. Between two steps
  the process may stop. A submission is a sequence of such steps (\<open>submit_refines\<close>), and the
  invariant of the steps holds at every point where it can be cut short.
\<close>

section \<open>The abstract state\<close>

record refresh_job =
  fj_job_id :: string
  fj_request_id :: "string option"
  fj_datasource_id :: "string option"
  fj_created_at :: instant
  fj_request :: json

record refresh_state =
  rf_jobs :: "refresh_job list"
  rf_requests :: "refresh_row list"
  rf_confirmations :: "confirmation_row list"

definition refresh_job_of :: "job_row \<Rightarrow> refresh_job" where
  "refresh_job_of r = \<lparr>fj_job_id = j_job_id r, fj_request_id = j_request_instance_id r,
     fj_datasource_id = j_datasource_id r, fj_created_at = j_created_at r, fj_request = j_request r\<rparr>"

lemma refresh_job_fields [simp]:
  "fj_job_id (refresh_job_of r) = j_job_id r" "fj_request_id (refresh_job_of r) = j_request_instance_id r"
  "fj_datasource_id (refresh_job_of r) = j_datasource_id r" "fj_created_at (refresh_job_of r) = j_created_at r"
  "fj_request (refresh_job_of r) = j_request r"
  by (simp_all add: refresh_job_of_def)

definition refresh_jobs :: "store \<Rightarrow> refresh_job list" where
  "refresh_jobs s = map refresh_job_of (filter agent_job (s_jobs s))"

definition refresh_state_of :: "agent_db \<Rightarrow> refresh_state" where
  "refresh_state_of g = \<lparr>rf_jobs = refresh_jobs (ag_store g), rf_requests = ag_requests g,
     rf_confirmations = ag_confirmations g\<rparr>"

section \<open>The control data of a job\<close>

definition control_ok :: "refresh_control \<Rightarrow> bool" where
  "control_ok c \<longleftrightarrow> bounded_identifier (rc_principal c) \<and> hex64 (rc_request_fingerprint c) \<and> hex64 (rc_dedupe_key c) \<and>
     instant_ok (rc_submitted_at c) \<and> instant_ok (rc_cooldown_until c) \<and> rc_submitted_at c \<le> rc_cooldown_until c \<and>
     rc_initial_state c = ''queued''"

definition carries :: "refresh_control \<Rightarrow> refresh_job \<Rightarrow> bool" where
  "carries c j \<longleftrightarrow> control_ok c \<and> (\<exists>kvs. fj_request j = JObj kvs \<and> map_of kvs ''_refresh_control'' = Some (refresh_control_json c))"

text \<open>\<open>datetime.fromisoformat\<close> reads back what \<open>isoformat\<close> prints for an aware datetime in UTC.\<close>

definition iso_ok :: "agent_env \<Rightarrow> bool" where
  "iso_ok G \<longleftrightarrow> (\<forall>t. valid_datetime t \<longrightarrow> ge_fromiso G (butlast (timestamp t) @ ''+00:00'') = Some (Some t))"

lemma instant_roundtrip: "instant_ok i \<Longrightarrow> valid_datetime (of_instant i) \<and> to_instant (of_instant i) = i"
  using of_instant_spec by blast

lemma digits_no_Z: "list_all is_digit s \<Longrightarrow> CHR ''Z'' \<notin> set s"
  by (auto simp: list_all_iff is_digit_def)

lemma timestamp_Z: "timestamp t = butlast (timestamp t) @ ''Z'' \<and> CHR ''Z'' \<notin> set (butlast (timestamp t))"
proof -
  have d: "CHR ''Z'' \<notin> set (decimal w n)" for w n using digits_no_Z [OF decimal_is_digit] .
  show ?thesis by (auto simp: timestamp_def butlast_append d simp del: decimal.simps)
qed

lemma parse_persisted_timestamp:
  assumes "iso_ok G" and "instant_ok i"
  shows "parse_persisted G (timestamp (of_instant i)) = Inr i"
proof -
  let ?t = "timestamp (of_instant i)"
  have keep: "concat (map (\<lambda>c. if c = CHR ''Z'' then ''+00:00'' else [c]) s) = s" if "CHR ''Z'' \<notin> set s" for s
    using that by (induction s) auto
  obtain b where b: "?t = b @ ''Z''" "CHR ''Z'' \<notin> set b" "butlast ?t = b" using timestamp_Z by metis
  have "concat (map (\<lambda>c. if c = CHR ''Z'' then ''+00:00'' else [c]) ?t) = butlast ?t @ ''+00:00''"
    unfolding b(3) b(1) using keep [OF b(2)] by simp
  then show ?thesis
    using assms instant_roundtrip [OF assms(2)] by (simp add: parse_persisted_def iso_ok_def)
qed

lemma timestamp_nonempty: "timestamp t \<noteq> []"
  using timestamp_Z by (metis append_is_Nil_conv list.distinct(1))

lemma control_parses:
  assumes "iso_ok G" and "carries c j"
  shows "refresh_control_of G (fj_request j) = Inr c"
proof -
  have ok: "control_ok c" using assms(2) by (simp add: carries_def)
  obtain kvs where kvs: "fj_request j = JObj kvs" "dict_get kvs ''_refresh_control'' = refresh_control_json c"
    using assms(2) by (auto simp: carries_def dict_get_def)
  let ?c = "[(''principal'', JStr (rc_principal c)), (''request_fingerprint'', JStr (rc_request_fingerprint c)),
      (''dedupe_key'', JStr (rc_dedupe_key c)), (''submitted_at'', ts_json (rc_submitted_at c)),
      (''cooldown_until'', ts_json (rc_cooldown_until c)), (''initial_state'', JStr (rc_initial_state c))]"
  have ne: "rc_principal c \<noteq> []" "rc_request_fingerprint c \<noteq> []" "rc_dedupe_key c \<noteq> []" "rc_initial_state c = ''queued''"
    using ok by (auto simp: control_ok_def bounded_identifier_def hex64_def)
  have t: "control_text ?c ''principal'' = Some (rc_principal c)"
      "control_text ?c ''request_fingerprint'' = Some (rc_request_fingerprint c)"
      "control_text ?c ''dedupe_key'' = Some (rc_dedupe_key c)"
      "control_text ?c ''submitted_at'' = Some (timestamp (of_instant (rc_submitted_at c)))"
      "control_text ?c ''cooldown_until'' = Some (timestamp (of_instant (rc_cooldown_until c)))"
      "control_text ?c ''initial_state'' = Some (rc_initial_state c)"
    by (simp_all add: control_text_def dict_get_def ts_json_def ne timestamp_nonempty)
  have p: "parse_persisted G (timestamp (of_instant (rc_submitted_at c))) = Inr (rc_submitted_at c)"
      "parse_persisted G (timestamp (of_instant (rc_cooldown_until c))) = Inr (rc_cooldown_until c)"
    using ok parse_persisted_timestamp [OF assms(1)] by (auto simp: control_ok_def)
  show ?thesis
    unfolding refresh_control_of_def kvs(1) json.case kvs(2) refresh_control_json_def t option.case prod.case
    using ok by (simp add: p control_ok_def require_refresh_identifier_def require_refresh_digest_def)
qed

lemma has_control: "carries c (refresh_job_of r) \<Longrightarrow> has_refresh_control (j_request r)"
  by (auto simp: carries_def refresh_job_of_def has_refresh_control_def dest!: map_of_SomeD intro!: rev_image_eqI)

subsection \<open>Redaction keeps it\<close>

lemma plain_pairs:
  "\<forall>(k, v) \<in> set kvs. \<not> sensitive_key k \<and> lower k \<notin> set url_keys \<and> (\<exists>s. v = JStr s) \<Longrightarrow> redact_pairs ul kvs = Inr kvs"
  by (induction kvs) auto

lemma redact_pairs_kept:
  assumes "redact_pairs ul kvs = Inr kvs'" and "map_of kvs k = Some (JObj x)" and "\<not> sensitive_key k"
    and "lower k \<noteq> ''headers''" and "redact_pairs ul x = Inr x"
  shows "map_of kvs' k = Some (JObj x)"
  using assms(1,2)
proof (induction kvs arbitrary: kvs')
  case (Cons kv kvs)
  obtain key item where kv: "kv = (key, item)" by (cases kv)
  show ?case
  proof (cases "key = k")
    case True
    then have "item = JObj x" using Cons.prems(2) kv by simp
    then show ?thesis using Cons.prems(1) True assms(3-5) unfolding kv by (auto split: sum.splits)
  next
    case False
    obtain v vs where vs: "kvs' = (key, v) # vs" "redact_pairs ul kvs = Inr vs"
      using Cons.prems(1) unfolding kv by (auto simp: Let_def split: sum.splits)
    then show ?thesis using Cons.IH [OF vs(2)] Cons.prems(2) False kv by simp
  qed
qed simp

lemma control_keys_plain:
  "\<forall>k \<in> set [''_refresh_control'', ''principal'', ''request_fingerprint'', ''dedupe_key'', ''submitted_at'',
     ''cooldown_until'', ''initial_state'']. \<not> sensitive_key k \<and> lower k \<notin> set url_keys \<and> lower k \<noteq> ''headers''"
  by code_simp

lemma dict_set_same: "map_of (dict_set d k v) k = Some v"
proof (cases "k \<in> fst ` set d")
  case True
  then have "map_of (map (\<lambda>(x, y). (x, if x = k then v else y)) d) k = Some v"
    by (induction d) auto
  then show ?thesis using True by (simp add: dict_set_def)
next
  case False
  then have "map_of d k = None" by (simp add: map_of_eq_None_iff)
  then show ?thesis using False by (simp add: dict_set_def map_add_def)
qed

lemma control_kept:
  assumes "enqueue_prepare env (refresh_enqueue_args a d) = Inr p"
  shows "map_of (pj_request p) ''_refresh_control'' = Some (refresh_control_json (new_refresh_control a))"
proof -
  let ?q = "refresh_request_payload a d"
  have got: "map_of ?q ''_refresh_control'' = Some (refresh_control_json (new_refresh_control a))"
    unfolding refresh_request_payload_def by (rule dict_set_same)
  then have "?q \<noteq> []" by auto
  then have red: "redact_pairs (en_urllib env) ?q = Inr (pj_request p)"
    using assms
    by (auto simp: enqueue_prepare_def refresh_enqueue_args_def Let_def
        split: sum.splits store_error.splits if_splits option.splits list.splits)
  show ?thesis
    using redact_pairs_kept [OF red got [unfolded refresh_control_json_def]] control_keys_plain
    by (simp add: refresh_control_json_def plain_pairs ts_json_def)
qed

section \<open>Steps\<close>

definition day_jobs :: "instant \<Rightarrow> instant \<Rightarrow> refresh_job list \<Rightarrow> refresh_job list" where
  "day_jobs day_start day_end js = filter (\<lambda>j. fj_datasource_id j = Some onspd_refresh_datasource_id \<and>
     day_start \<le> fj_created_at j \<and> fj_created_at j < day_end) js"

text \<open>A request that may become a job: within the daily budget, or confirmed by its own token in time.\<close>

definition confirmed_by :: "refresh_args \<Rightarrow> confirmation_row \<Rightarrow> bool" where
  "confirmed_by a c \<longleftrightarrow> cf_request_id c = ra_request_id a \<and> cf_principal c = ra_principal a \<and>
     cf_request_fingerprint c = ra_request_fingerprint a \<and> ra_confirmation_token a = Some (cf_confirmation_token c) \<and>
     ra_submitted_at a < cf_expires_at c"

definition within_budget :: "agent_env \<Rightarrow> refresh_args \<Rightarrow> refresh_state \<Rightarrow> bool" where
  "within_budget G a x \<longleftrightarrow> (\<exists>day_start day_end. london_day_window G (ra_submitted_at a) = Inr (day_start, day_end) \<and>
     length (day_jobs day_start day_end (rf_jobs x)) < onspd_refresh_daily_limit)"

definition cleared :: "agent_env \<Rightarrow> refresh_args \<Rightarrow> refresh_state \<Rightarrow> bool" where
  "cleared G a x \<longleftrightarrow> ra_datasource_id a = onspd_refresh_datasource_id \<longrightarrow>
     within_budget G a x \<or> (\<exists>c \<in> set (rf_confirmations x). confirmed_by a c)"

text \<open>No cooldown of the cohort runs: neither one of the ledger nor one of a job the ledger does not name.\<close>

definition cohort_idle :: "agent_env \<Rightarrow> refresh_args \<Rightarrow> refresh_state \<Rightarrow> bool" where
  "cohort_idle G a x \<longleftrightarrow>
     (\<forall>r \<in> set (rf_requests x). rq_dedupe_key r = ra_dedupe_key a \<longrightarrow> rq_cooldown_until r \<le> ra_submitted_at a) \<and>
     (\<forall>j \<in> set (rf_jobs x). \<forall>c. fj_job_id j \<notin> rq_job_id ` set (rf_requests x) \<and> has_refresh_control (fj_request j) \<and>
        refresh_control_of G (fj_request j) = Inr c \<and> rc_dedupe_key c = ra_dedupe_key a \<longrightarrow>
        rc_cooldown_until c \<le> ra_submitted_at a)"

definition own_row :: "refresh_args \<Rightarrow> refresh_job \<Rightarrow> refresh_control \<Rightarrow> refresh_row \<Rightarrow> bool" where
  "own_row a j c r \<longleftrightarrow> fj_request_id j = Some (ra_request_id a) \<and> rc_principal c = ra_principal a \<and>
     rc_request_fingerprint c = ra_request_fingerprint a \<and> rq_job_id r = fj_job_id j \<and> rq_disposition r = ''accepted'' \<and>
     rq_dedupe_key r = rc_dedupe_key c \<and> rq_initial_state r = rc_initial_state c \<and>
     rq_submitted_at r = rc_submitted_at c \<and> rq_cooldown_until r = rc_cooldown_until c"

definition shared_row :: "refresh_args \<Rightarrow> string \<Rightarrow> instant \<Rightarrow> string \<Rightarrow> refresh_row \<Rightarrow> bool" where
  "shared_row a job_id cooldown initial_state r \<longleftrightarrow> rq_job_id r = job_id \<and> rq_disposition r = ''deduplicated'' \<and>
     rq_dedupe_key r = ra_dedupe_key a \<and> rq_initial_state r = initial_state \<and>
     rq_submitted_at r = ra_submitted_at a \<and> rq_cooldown_until r = cooldown \<and> ra_submitted_at a < cooldown"

definition new_request :: "refresh_args \<Rightarrow> refresh_state \<Rightarrow> refresh_row \<Rightarrow> bool" where
  "new_request a x r \<longleftrightarrow> ra_request_id a \<notin> rq_request_id ` set (rf_requests x) \<and> rq_request_id r = ra_request_id a \<and>
     rq_principal r = ra_principal a \<and> rq_request_fingerprint r = ra_request_fingerprint a \<and>
     rq_datasource_id r = ra_datasource_id a \<and> rq_definition_version r = ra_definition_version a"

inductive refresh_step :: "agent_env \<Rightarrow> refresh_args \<Rightarrow> refresh_state \<Rightarrow> refresh_state \<Rightarrow> bool"
  for G :: agent_env and a :: refresh_args
where
  confirm: "\<lbrakk>ra_datasource_id a = onspd_refresh_datasource_id; \<not> within_budget G a x;
      ra_request_id a \<notin> cf_request_id ` set (rf_confirmations x);
      cf_confirmation_token c \<notin> cf_confirmation_token ` set (rf_confirmations x);
      cf_request_id c = ra_request_id a; cf_principal c = ra_principal a;
      cf_request_fingerprint c = ra_request_fingerprint a; cf_datasource_id c = ra_datasource_id a;
      cf_issued_at c = ra_submitted_at a; cf_expires_at c = ra_submitted_at a + refresh_confirmation_ttl\<rbrakk>
    \<Longrightarrow> refresh_step G a x (x\<lparr>rf_confirmations := rf_confirmations x @ [c]\<rparr>)"
| create: "\<lbrakk>submit_checks a = None; ra_request_id a \<notin> rq_request_id ` set (rf_requests x);
      Some (ra_request_id a) \<notin> fj_request_id ` set (rf_jobs x); cohort_idle G a x; cleared G a x;
      fj_job_id j \<notin> fj_job_id ` set (rf_jobs x); fj_request_id j = Some (ra_request_id a);
      fj_datasource_id j = Some (ra_datasource_id a); fj_created_at j = ra_submitted_at a;
      carries (new_refresh_control a) j\<rbrakk>
    \<Longrightarrow> refresh_step G a x (x\<lparr>rf_jobs := rf_jobs x @ [j]\<rparr>)"
| bind_own: "\<lbrakk>new_request a x r; j \<in> set (rf_jobs x); own_row a j c r;
      carries c j \<or> refresh_control_of G (fj_request j) = Inr c\<rbrakk>
    \<Longrightarrow> refresh_step G a x (x\<lparr>rf_requests := rf_requests x @ [r]\<rparr>)"
| share_request: "\<lbrakk>new_request a x r; q \<in> set (rf_requests x); rq_dedupe_key q = ra_dedupe_key a;
      shared_row a (rq_job_id q) (rq_cooldown_until q) (rq_initial_state q) r\<rbrakk>
    \<Longrightarrow> refresh_step G a x (x\<lparr>rf_requests := rf_requests x @ [r]\<rparr>)"
| share_job: "\<lbrakk>new_request a x r; j \<in> set (rf_jobs x); fj_job_id j \<notin> rq_job_id ` set (rf_requests x);
      refresh_control_of G (fj_request j) = Inr c; rc_dedupe_key c = ra_dedupe_key a;
      shared_row a (fj_job_id j) (rc_cooldown_until c) (rc_initial_state c) r\<rbrakk>
    \<Longrightarrow> refresh_step G a x (x\<lparr>rf_requests := rf_requests x @ [r]\<rparr>)"

section \<open>The invariant\<close>

text \<open>
  A refresh job carries the control data of the request it was made for and no two are made for the
  same request; in a cohort, a job is only created once the cooldowns of the earlier jobs are over; a
  ledger row names a job and agrees with its control data.
\<close>

definition bound_row :: "refresh_state \<Rightarrow> refresh_row \<Rightarrow> bool" where
  "bound_row x r \<longleftrightarrow> (\<exists>j \<in> set (rf_jobs x). \<exists>c. carries c j \<and> rq_job_id r = fj_job_id j \<and>
     rq_dedupe_key r = rc_dedupe_key c \<and> rq_cooldown_until r = rc_cooldown_until c \<and> rq_initial_state r = rc_initial_state c \<and>
     (if rq_disposition r = ''accepted''
      then fj_request_id j = Some (rq_request_id r) \<and> rq_principal r = rc_principal c \<and>
        rq_request_fingerprint r = rc_request_fingerprint c \<and> rq_submitted_at r = rc_submitted_at c
      else rq_disposition r = ''deduplicated'' \<and> rq_submitted_at r < rc_cooldown_until c))"

definition refresh_inv :: "refresh_state \<Rightarrow> bool" where
  "refresh_inv x \<longleftrightarrow>
     distinct (map fj_job_id (rf_jobs x)) \<and> distinct (map fj_request_id (rf_jobs x)) \<and>
     distinct (map rq_request_id (rf_requests x)) \<and> distinct (map cf_request_id (rf_confirmations x)) \<and>
     (\<forall>j \<in> set (rf_jobs x). \<exists>c. carries c j \<and> fj_created_at j = rc_submitted_at c) \<and>
     sorted_wrt (\<lambda>j j'. \<forall>c c'. carries c j \<and> carries c' j' \<and> rc_dedupe_key c = rc_dedupe_key c' \<longrightarrow>
       rc_cooldown_until c \<le> rc_submitted_at c') (rf_jobs x) \<and>
     (\<forall>r \<in> set (rf_requests x). bound_row x r)"

end
