(* ===== verification/RefreshRefine.thy ===== *)
theory RefreshRefine
  imports RefreshSpec
begin

text \<open>
  The submission of \<open>AgentRefresh\<close> implements the steps of \<open>RefreshSpec\<close>, the steps keep the invariant,
  and the other commands of the store leave the refresh state alone.
\<close>

section \<open>The store below\<close>

lemma refresh_jobs_update:
  assumes "\<And>j. job_identity (h j) = job_identity j"
  shows "map refresh_job_of (filter agent_job (update_where Q h js)) = map refresh_job_of (filter agent_job js)"
proof -
  have "agent_job (h j) = agent_job j" "refresh_job_of (h j) = refresh_job_of j" for j
    using assms [of j] by (simp_all add: job_identity_def agent_job_def refresh_job_of_def)
  then show ?thesis by (induction js) (auto simp: update_where_def)
qed

interpretation rj: store_order "\<lambda>s s'. refresh_jobs s' = refresh_jobs s" "\<lambda>t. t \<noteq> ''agent_request''"
proof unfold_locales
  show "refresh_jobs (s\<lparr>s_jobs := update_where Q h (s_jobs s)\<rparr>) = refresh_jobs s"
    if "\<And>j. job_identity (h j) = job_identity j" for Q h s
    using refresh_jobs_update [OF that] by (simp add: refresh_jobs_def)
qed (simp_all add: refresh_jobs_def agent_job_def)

lemma agent_job_lookup:
  assumes "refresh_job_by_request_id i s = Inr None"
  shows "Some i \<notin> fj_request_id ` set (refresh_jobs s)"
proof -
  have "filter (\<lambda>r. j_request_instance_id r = Some i \<and> agent_job r) (s_jobs s) = []"
    using assms by (auto simp: refresh_job_by_request_id_def split: list.splits)
  then show ?thesis by (auto simp: refresh_jobs_def refresh_job_of_def filter_empty_conv)
qed

lemma agent_job_found:
  assumes "refresh_job_by_request_id i s = Inr (Some r)"
  shows "r \<in> set (s_jobs s)" "agent_job r" "j_request_instance_id r = Some i"
proof -
  have "filter (\<lambda>r. j_request_instance_id r = Some i \<and> agent_job r) (s_jobs s) = [r]"
    using assms by (auto simp: refresh_job_by_request_id_def split: list.splits)
  then have "r \<in> set (filter (\<lambda>r. j_request_instance_id r = Some i \<and> agent_job r) (s_jobs s))" by simp
  then show "r \<in> set (s_jobs s)" "agent_job r" "j_request_instance_id r = Some i" by simp_all
qed

lemma refresh_job_mem: "r \<in> set (s_jobs s) \<Longrightarrow> agent_job r \<Longrightarrow> refresh_job_of r \<in> set (refresh_jobs s)"
  by (simp add: refresh_jobs_def)

section \<open>Recording a request\<close>

definition result_of_row :: "refresh_row \<Rightarrow> refresh_result" where
  "result_of_row r = refresh_result_of (Some (rq_job_id r)) (rq_disposition r) (rq_initial_state r) (rq_submitted_at r)"

lemma record_refresh_cases:
  assumes "record_refresh_request a key job_id disp st sub cool g = (res, g')"
  obtains (failed) e where "res = Inl e" "g' = g"
  | (row) r where "res = Inr (result_of_row r)" "g' = g\<lparr>ag_requests := ag_requests g @ [r]\<rparr>"
      "new_request a (refresh_state_of g) r" "rq_job_id r = job_id" "rq_disposition r = disp" "rq_dedupe_key r = key"
      "rq_initial_state r = st" "rq_submitted_at r = sub" "rq_cooldown_until r = cool"
      "rq_request_profile r = ra_request_profile a"
proof -
  let ?r = "\<lparr>rq_request_id = ra_request_id a, rq_principal = ra_principal a,
        rq_request_fingerprint = ra_request_fingerprint a, rq_dedupe_key = key,
        rq_datasource_id = ra_datasource_id a, rq_definition_version = ra_definition_version a,
        rq_request_profile = ra_request_profile a, rq_job_id = job_id, rq_disposition = disp,
        rq_initial_state = st, rq_submitted_at = sub, rq_cooldown_until = cool\<rparr>"
  show thesis
  proof (cases "fst (insert_refresh_request ?r g)")
    case (Inl e)
    then show ?thesis
      using assms by (intro failed [of e])
        (auto simp: record_refresh_request_def bind_op_def transaction_def insert_refresh_request_def split: if_splits)
  next
    case (Inr u)
    then have ins: "insert_refresh_request ?r g = (Inr (), g\<lparr>ag_requests := ag_requests g @ [?r]\<rparr>)"
      "lookup_by rq_request_id (ra_request_id a) (ag_requests g) = None"
      by (auto simp: insert_refresh_request_def split: if_splits)
    then have "res = Inr (result_of_row ?r)" "g' = g\<lparr>ag_requests := ag_requests g @ [?r]\<rparr>"
      using assms by (auto simp: record_refresh_request_def bind_op_def transaction_def return_op_def result_of_row_def)
    moreover have "new_request a (refresh_state_of g) ?r"
      using ins(2) by (simp add: new_request_def refresh_state_of_def lookup_by_None_iff)
    ultimately show ?thesis by (intro row [of ?r]) simp_all
  qed
qed

lemma bind_state: "refresh_state_of (g\<lparr>ag_requests := rs\<rparr>) = (refresh_state_of g)\<lparr>rf_requests := rs\<rparr>"
  by (simp add: refresh_state_of_def)

section \<open>The branches of a submission\<close>

text \<open>What a submission may do to the refresh state, and what it then answers.\<close>

definition answers :: "refresh_args \<Rightarrow> agent_db \<Rightarrow> agent_error + refresh_result \<Rightarrow> bool" where
  "answers a g res \<longleftrightarrow> (case res of Inl e \<Rightarrow> True
     | Inr v \<Rightarrow> if rr_job_id v = None then rr_disposition v = ''confirmation_required''
         else \<exists>r \<in> set (ag_requests g). rq_request_id r = ra_request_id a \<and> rq_principal r = ra_principal a \<and>
           rq_request_fingerprint r = ra_request_fingerprint a \<and> v = result_of_row r)"

lemma answers_row: "new_request a x r \<Longrightarrow> answers a (g\<lparr>ag_requests := rs @ [r]\<rparr>) (Inr (result_of_row r))"
  by (auto simp: answers_def new_request_def result_of_row_def refresh_result_of_def)

lemma answers_Inl [simp]: "answers a g (Inl e)"
  by (simp add: answers_def)

lemma existing_answers:
  assumes "lookup_by rq_request_id (ra_request_id a) (ag_requests g) = Some row"
  shows "answers a g (validate_existing_refresh_request a row)"
  using lookup_by_Some [OF assms]
  by (auto simp: answers_def validate_existing_refresh_request_def result_of_row_def refresh_result_of_def)

lemma recover_request_step:
  assumes job: "refresh_job_by_request_id (ra_request_id a) (ag_store g) = Inr (Some job)"
    and run: "recover_refresh_request G a job g = (res, g')"
  shows "answers a g' res \<and> ag_store g' = ag_store g \<and> ag_confirmations g' = ag_confirmations g \<and>
    ag_approvals g' = ag_approvals g \<and> ag_events g' = ag_events g \<and>
    (refresh_state_of g' = refresh_state_of g \<or> refresh_step G a (refresh_state_of g) (refresh_state_of g'))"
proof (cases "\<exists>e. res = Inl e \<and> g' = g")
  case False
  obtain c where c: "refresh_control_of G (j_request job) = Inr c" "rc_principal c = ra_principal a"
      "rc_request_fingerprint c = ra_request_fingerprint a"
      "record_refresh_request a (rc_dedupe_key c) (j_job_id job) ''accepted'' (rc_initial_state c)
        (rc_submitted_at c) (rc_cooldown_until c) g = (res, g')"
    using run False by (auto simp: recover_refresh_request_def raise_op_def split: sum.splits if_splits)
  from c(4) show ?thesis
  proof (cases rule: record_refresh_cases)
    case (row r)
    have "refresh_step G a (refresh_state_of g) (refresh_state_of g')"
      unfolding row(2) bind_state
      using refresh_step.bind_own [where x = "refresh_state_of g", OF row(3), of "refresh_job_of job" c]
        refresh_job_mem [OF agent_job_found(1,2) [OF job]] agent_job_found(3) [OF job] row c
      by (simp add: own_row_def refresh_job_of_def refresh_state_of_def)
    then show ?thesis using row answers_row [OF row(3)] by simp
  qed (use False in auto)
qed auto

lemma orphan_candidates_from:
  assumes "orphan_candidates G key anchor js = Inr cs" and "c \<in> set cs"
  shows "\<exists>r \<in> set js. \<exists>d. refresh_control_of G (j_request r) = Inr d \<and> rc_dedupe_key d = key \<and> anchor < rc_cooldown_until d \<and>
    dc_job_id c = j_job_id r \<and> dc_initial_state c = rc_initial_state d \<and> dc_cooldown_until c = rc_cooldown_until d"
  using assms
  by (induction js arbitrary: cs) (fastforce split: if_splits sum.splits)+

lemma orphan_candidates_all:
  assumes "orphan_candidates G key anchor js = Inr []" and "r \<in> set js" and "has_refresh_control (j_request r)"
    and "refresh_control_of G (j_request r) = Inr d" and "rc_dedupe_key d = key"
  shows "rc_cooldown_until d \<le> anchor"
  using assms
  by (induction js) (auto split: if_splits sum.splits)

lemma dedupe_idle:
  assumes "active_refresh_dedupe G (ra_dedupe_key a) (ra_submitted_at a) g = Inr None"
  shows "cohort_idle G a (refresh_state_of g)"
proof -
  have orphans: "orphan_candidates G (ra_dedupe_key a) (ra_submitted_at a) (orphan_jobs g) = Inr []"
    and ledger: "ledger_candidates (ra_dedupe_key a) (ra_submitted_at a) g = []"
    using assms by (auto simp: active_refresh_dedupe_def split: sum.splits)
  have "\<forall>r \<in> set (ag_requests g). rq_dedupe_key r = ra_dedupe_key a \<longrightarrow> rq_cooldown_until r \<le> ra_submitted_at a"
    using ledger by (auto simp: ledger_candidates_def filter_empty_conv not_less split: option.splits)
  moreover have "rc_cooldown_until c \<le> ra_submitted_at a"
    if "r \<in> set (s_jobs (ag_store g))" "agent_job r" "j_job_id r \<notin> rq_job_id ` set (ag_requests g)"
      "has_refresh_control (j_request r)" "refresh_control_of G (j_request r) = Inr c" "rc_dedupe_key c = ra_dedupe_key a" for r c
    by (rule orphan_candidates_all [OF orphans _ that(4-6)])
      (use that in \<open>auto simp: orphan_jobs_def list_ex_iff image_iff\<close>)
  ultimately show ?thesis
    by (auto simp: cohort_idle_def refresh_state_of_def refresh_jobs_def refresh_job_of_def)
qed

lemma share_step:
  assumes act: "active_refresh_dedupe G (ra_dedupe_key a) (ra_submitted_at a) g = Inr (Some c)"
    and run: "record_refresh_request a (ra_dedupe_key a) (dc_job_id c) ''deduplicated'' (dc_initial_state c)
      (ra_submitted_at a) (dc_cooldown_until c) g = (res, g')"
  shows "answers a g' res \<and> ag_store g' = ag_store g \<and> ag_confirmations g' = ag_confirmations g \<and>
    ag_approvals g' = ag_approvals g \<and> ag_events g' = ag_events g \<and>
    (refresh_state_of g' = refresh_state_of g \<or> refresh_step G a (refresh_state_of g) (refresh_state_of g'))"
  using run
proof (cases rule: record_refresh_cases)
  case (row r)
  obtain cs where cs: "orphan_candidates G (ra_dedupe_key a) (ra_submitted_at a) (orphan_jobs g) = Inr cs"
      "max_by (\<lambda>c. (dc_submitted_at c, dc_job_id c)) (ledger_candidates (ra_dedupe_key a) (ra_submitted_at a) g @ cs) = Some c"
    using act by (auto simp: active_refresh_dedupe_def split: sum.splits)
  have "refresh_step G a (refresh_state_of g) (refresh_state_of g')"
  proof (cases "c \<in> set cs")
    case True
    obtain j d where j: "j \<in> set (orphan_jobs g)" "refresh_control_of G (j_request j) = Inr d" "rc_dedupe_key d = ra_dedupe_key a"
        "ra_submitted_at a < rc_cooldown_until d" "dc_job_id c = j_job_id j" "dc_initial_state c = rc_initial_state d"
        "dc_cooldown_until c = rc_cooldown_until d"
      using orphan_candidates_from [OF cs(1) True] by auto
    have mem: "refresh_job_of j \<in> set (refresh_jobs (ag_store g))" "j_job_id j \<notin> rq_job_id ` set (ag_requests g)"
      using j(1) by (auto simp: orphan_jobs_def list_ex_iff intro: refresh_job_mem)
    show ?thesis unfolding row(2) bind_state
      using refresh_step.share_job [where x = "refresh_state_of g", OF row(3), of "refresh_job_of j" G d] mem j row
      by (simp add: shared_row_def refresh_job_of_def refresh_state_of_def)
  next
    case False
    then have "c \<in> set (ledger_candidates (ra_dedupe_key a) (ra_submitted_at a) g)" using max_by_Some [OF cs(2)] by auto
    then obtain q where q: "max_by (\<lambda>r. (rq_submitted_at r, rq_request_id r))
          (filter (\<lambda>r. rq_dedupe_key r = ra_dedupe_key a \<and> ra_submitted_at a < rq_cooldown_until r) (ag_requests g)) = Some q"
        "dc_job_id c = rq_job_id q" "dc_initial_state c = rq_initial_state q" "dc_cooldown_until c = rq_cooldown_until q"
      by (auto simp: ledger_candidates_def split: option.splits dest!: sym [of "Some _"])
    show ?thesis unfolding row(2) bind_state
      using refresh_step.share_request [where x = "refresh_state_of g", OF row(3), of q G] max_by_Some [OF q(1)] q row
      by (simp add: shared_row_def refresh_state_of_def)
  qed
  then show ?thesis using row answers_row [OF row(3)] by simp
qed auto

text \<open>The second confirmation: nothing changes when the submission goes on.\<close>

lemma onspd_day_jobs: "length (onspd_jobs_between x y s) = length (day_jobs x y (refresh_jobs s))"
  unfolding onspd_jobs_between_def day_jobs_def refresh_jobs_def filter_map length_map filter_filter
  by (rule arg_cong [where f = length], rule filter_cong) (auto simp: refresh_job_of_def)

lemma day_count:
  "refresh_jobs_in_london_day G t (ag_store g) = Inr n \<Longrightarrow>
     \<exists>day_start day_end. london_day_window G t = Inr (day_start, day_end) \<and>
       n = length (day_jobs day_start day_end (rf_jobs (refresh_state_of g)))"
  by (auto simp: refresh_jobs_in_london_day_def refresh_state_of_def onspd_day_jobs split: sum.splits)

lemma confirmation_clears:
  assumes "onspd_refresh_confirmation G a (lookup_by cf_request_id (ra_request_id a) (ag_confirmations g)) ids g = (Inr None, g')"
    and ident: "case lookup_by cf_request_id (ra_request_id a) (ag_confirmations g) of None \<Rightarrow> True
      | Some row \<Rightarrow> confirmation_identity_error a row = None"
  shows "g' = g" and "cleared G a (refresh_state_of g)"
proof -
  show "g' = g" using assms(1)
    by (auto simp: onspd_refresh_confirmation_def bind_op_Inr return_op_def split: sum.splits if_splits option.splits)
  show "cleared G a (refresh_state_of g)"
  proof (cases "ra_datasource_id a = onspd_refresh_datasource_id")
    case True
    obtain n where n: "refresh_jobs_in_london_day G (ra_submitted_at a) (ag_store g) = Inr n"
      using assms(1) True by (auto simp: onspd_refresh_confirmation_def split: sum.splits)
    show ?thesis
    proof (cases "n < onspd_refresh_daily_limit")
      case True
      then show ?thesis using day_count [OF n] by (auto simp: cleared_def within_budget_def)
    next
      case False
      then obtain token row where row: "ra_confirmation_token a = Some token"
          "lookup_by cf_request_id (ra_request_id a) (ag_confirmations g) = Some row"
          "validate_refresh_confirmation row token (ra_submitted_at a) = None"
        using assms(1) True n
        by (auto simp: onspd_refresh_confirmation_def bind_op_Inr return_op_def split: option.splits)
      then have "confirmed_by a row"
        using ident lookup_by_Some [OF row(2)]
        by (auto simp: confirmed_by_def confirmation_identity_error_def validate_refresh_confirmation_def split: if_splits)
      then show ?thesis using lookup_by_Some [OF row(2)] by (auto simp: cleared_def refresh_state_of_def)
    qed
  qed (simp add: cleared_def)
qed

lemma confirmation_step:
  assumes run: "onspd_refresh_confirmation G a (lookup_by cf_request_id (ra_request_id a) (ag_confirmations g)) ids g = (res, g')"
    and res: "res \<noteq> Inr None"
  shows "(case res of Inr (Some v) \<Rightarrow> answers a g' (Inr v) | _ \<Rightarrow> True) \<and> ag_requests g' = ag_requests g \<and>
    s_jobs (ag_store g') = s_jobs (ag_store g) \<and> s_attempts (ag_store g') = s_attempts (ag_store g) \<and>
    ag_approvals g' = ag_approvals g \<and> ag_events g' = ag_events g \<and>
    (refresh_state_of g' = refresh_state_of g \<or> refresh_step G a (refresh_state_of g) (refresh_state_of g'))"
proof (cases "g' = g")
  case True
  then show ?thesis using run res
    by (auto simp: onspd_refresh_confirmation_def bind_op_def return_op_def issue_refresh_confirmation_def raise_op_def
        confirmation_required_def answers_def Let_def split: sum.splits if_splits option.splits prod.splits)
next
  case False
  let ?pending = "lookup_by cf_request_id (ra_request_id a) (ag_confirmations g)"
  obtain n where n: "ra_datasource_id a = onspd_refresh_datasource_id"
      "refresh_jobs_in_london_day G (ra_submitted_at a) (ag_store g) = Inr n" "\<not> n < onspd_refresh_daily_limit"
      "bind_op (issue_refresh_confirmation G a ?pending ids) (\<lambda>r. return_op (Some r)) g = (res, g')"
    using run False by (auto simp: onspd_refresh_confirmation_def split: sum.splits if_splits option.splits)
  obtain day_start day_end where day: "london_day_window G (ra_submitted_at a) = Inr (day_start, day_end)"
      "n = length (day_jobs day_start day_end (rf_jobs (refresh_state_of g)))"
    using day_count [OF n(2)] by blast
  let ?c = "\<lparr>cf_confirmation_token = ri_token ids, cf_request_id = ra_request_id a,
                       cf_principal = ra_principal a, cf_request_fingerprint = ra_request_fingerprint a,
                       cf_datasource_id = ra_datasource_id a, cf_definition_version = ra_definition_version a,
                       cf_day_start_at = day_start, cf_issued_at = ra_submitted_at a,
                       cf_expires_at = ra_submitted_at a + refresh_confirmation_ttl\<rparr>"
  have none: "?pending = None" using n(4) False
    by (auto simp: bind_op_def return_op_def issue_refresh_confirmation_def raise_op_def
        split: sum.splits if_splits option.splits prod.splits)
  have g': "res = Inr (Some (confirmation_required (ra_submitted_at a) (ri_token ids) (ra_submitted_at a + refresh_confirmation_ttl)))"
      "ag_confirmations g' = ag_confirmations g @ [?c]" "ag_requests g' = ag_requests g" "ag_approvals g' = ag_approvals g"
      "ag_events g' = ag_events g" "s_jobs (ag_store g') = s_jobs (ag_store g)" "s_attempts (ag_store g') = s_attempts (ag_store g)"
      "lookup_by cf_confirmation_token (ri_token ids) (ag_confirmations g) = None"
    using n(4) False none day(1)
    by (auto simp: issue_refresh_confirmation_def bind_op_def return_op_def raise_op_def transaction_def on_jobs_def audit_def
        insert_refresh_confirmation_def Let_def split: if_splits)
  have "refresh_step G a (refresh_state_of g) ((refresh_state_of g)\<lparr>rf_confirmations := rf_confirmations (refresh_state_of g) @ [?c]\<rparr>)"
  proof (rule refresh_step.confirm)
    show "\<not> within_budget G a (refresh_state_of g)" using n(3) day by (simp add: within_budget_def)
  qed (use none g'(8) n(1) in \<open>simp_all add: refresh_state_of_def lookup_by_None_iff\<close>)
  moreover have "refresh_state_of g' = (refresh_state_of g)\<lparr>rf_confirmations := rf_confirmations (refresh_state_of g) @ [?c]\<rparr>"
    using g' by (simp add: refresh_state_of_def refresh_jobs_def)
  ultimately show ?thesis using g' by (simp add: answers_def confirmation_required_def)
qed

subsection \<open>Creating the job\<close>

lemma enqueue_triggered:
  assumes run: "enqueue env clock ids a s = (res, s')" and trig: "ea_trigger a \<noteq> ''manual''"
  defines "now \<equiv> (case ea_scheduled_for a of None \<Rightarrow> clock | Some t \<Rightarrow> t)"
  obtains (same) "s_jobs s' = s_jobs s" "\<forall>x. res = Inr x \<longrightarrow> er_disposition x \<noteq> ''accepted''"
  | (added) p where "enqueue_prepare env a = Inr p"
      "s_jobs s' = s_jobs s @ [enqueue_row env a p now (ei_job ids) (ea_request_instance_id a)]"
      "ei_job ids \<notin> j_job_id ` set (s_jobs s)"
      "res = Inr \<lparr>er_job_id = ei_job ids, er_disposition = ''accepted'', er_state = QUEUED\<rparr>"
proof -
  obtain y s1 where sync: "sync_registry (en_sha env) (en_registry env) clock s = (y, s1)" by fastforce
  have jobs: "s_jobs s1 = s_jobs s" using sync_registry_frame [of "en_sha env" "en_registry env" clock s] sync by simp
  show thesis
  proof (cases "\<exists>x. res = Inr x \<and> er_disposition x = ''accepted''")
    case True
    then obtain x p where x: "res = Inr x" "er_disposition x = ''accepted''" "enqueue_prepare env a = Inr p"
        "enqueue_insert env ids a p now s1 = (Inr x, s')"
      using run sync by (auto simp: enqueue_def now_def bind_op_def raise_op_def transaction_Inr split: sum.splits)
    let ?r = "enqueue_row env a p now (ei_job ids) (ea_request_instance_id a)"
    obtain s2 where s2: "insert_job ?r s1 = (Inr (), s2)" "s_jobs s' = s_jobs s2"
        "x = \<lparr>er_job_id = ei_job ids, er_disposition = ''accepted'', er_state = QUEUED\<rparr>"
      using x(2,4) trig by (auto simp: enqueue_insert_def Let_def bind_op_Inr return_op_def split: option.splits if_splits
          dest!: audit_frame)
    have "s_jobs s2 = s_jobs s @ [?r]" "job_row_ok s1 ?r"
      using s2(1) jobs by (auto simp: insert_job_def split: if_splits)
    moreover from this(2) have "ei_job ids \<notin> j_job_id ` set (s_jobs s)"
      by (simp add: job_row_ok_def lookup_by_None_iff jobs enqueue_row_def)
    ultimately show ?thesis using added [OF x(3)] x(1) s2 by simp
  next
    case False
    have "s_jobs s' = s_jobs s1"
    proof (cases res)
      case (Inl e)
      then show ?thesis using run sync by (auto simp: enqueue_def bind_op_def raise_op_def dest: transaction_Inl split: sum.splits)
    next
      case (Inr x)
      then obtain p where "enqueue_insert env ids a p now s1 = (Inr x, s')"
        using run sync by (auto simp: enqueue_def now_def bind_op_def raise_op_def transaction_Inr split: sum.splits)
      then show ?thesis using False Inr trig
        by (auto simp: enqueue_insert_def Let_def bind_op_Inr return_op_def split: option.splits if_splits)
    qed
    then show ?thesis using same jobs False by auto
  qed
qed

definition times_ok :: "refresh_args \<Rightarrow> bool" where
  "times_ok a \<longleftrightarrow> instant_ok (ra_submitted_at a) \<and> instant_ok (ra_cooldown_until a)"

lemma new_control_ok:
  assumes "submit_checks a = None" and "times_ok a"
  shows "control_ok (new_refresh_control a)"
  using assms
  by (auto simp: submit_checks_def first_failure_None control_ok_def new_refresh_control_def times_ok_def
      require_refresh_identifier_def require_refresh_digest_def not_less split: if_splits)

lemma accept_step:
  assumes ok: "submit_checks a = None" "times_ok a"
    and free: "lookup_by rq_request_id (ra_request_id a) (ag_requests g) = None"
      "refresh_job_by_request_id (ra_request_id a) (ag_store g) = Inr None"
      "cohort_idle G a (refresh_state_of g)" "cleared G a (refresh_state_of g)"
    and run: "accept_refresh G a d clock ids g = (res, g')"
  shows "answers a g' res \<and> ag_confirmations g' = ag_confirmations g \<and> ag_approvals g' = ag_approvals g \<and>
    ag_events g' = ag_events g \<and>
    (ag_requests g' = ag_requests g \<and>
       (refresh_state_of g' = refresh_state_of g \<or> refresh_step G a (refresh_state_of g) (refresh_state_of g')) \<or>
     (\<exists>x. refresh_step G a (refresh_state_of g) x \<and> refresh_step G a x (refresh_state_of g') \<and>
        x = (refresh_state_of g')\<lparr>rf_requests := ag_requests g\<rparr>))"
proof -
  let ?e = "refresh_enqueue_args a d" and ?x = "refresh_state_of g"
  obtain q s1 where enq: "enqueue (ge_env G) clock (ri_enqueue ids) ?e (ag_store g) = (q, s1)" by fastforce
  let ?g1 = "g\<lparr>ag_store := s1\<rparr>"
  have trig: "ea_trigger ?e \<noteq> ''manual''" by (simp add: refresh_enqueue_args_def)
  from enq trig show ?thesis
  proof (cases rule: enqueue_triggered)
    case same
    then have "\<exists>e. res = Inl e \<and> g' = ?g1"
      using run enq by (cases q) (auto simp: accept_refresh_def bind_op_def on_jobs_def raise_op_def)
    moreover have "refresh_state_of ?g1 = ?x" using same by (simp add: refresh_state_of_def refresh_jobs_def)
    ultimately show ?thesis by auto
  next
    case (added p)
    let ?r = "enqueue_row (ge_env G) ?e p (ra_submitted_at a) (ei_job (ri_enqueue ids)) (Some (ra_request_id a))"
    have row: "s_jobs s1 = s_jobs (ag_store g) @ [?r]" "agent_job ?r"
      using added(2) by (simp_all add: refresh_enqueue_args_def enqueue_row_def agent_job_def)
    have x1: "refresh_state_of ?g1 = ?x\<lparr>rf_jobs := rf_jobs ?x @ [refresh_job_of ?r]\<rparr>"
      using row by (simp add: refresh_state_of_def refresh_jobs_def)
    have car: "carries (new_refresh_control a) (refresh_job_of ?r)"
      using new_control_ok [OF ok] control_kept [OF added(1)] by (simp add: carries_def refresh_job_of_def enqueue_row_def)
    have step: "refresh_step G a ?x (refresh_state_of ?g1)"
      unfolding x1
    proof (rule refresh_step.create [OF ok(1) _ _ free(3,4) _ _ _ _ car])
      show "ra_request_id a \<notin> rq_request_id ` set (rf_requests ?x)" using free(1) by (simp add: refresh_state_of_def lookup_by_None_iff)
      show "Some (ra_request_id a) \<notin> fj_request_id ` set (rf_jobs ?x)"
        using agent_job_lookup [OF free(2)] by (simp add: refresh_state_of_def)
      show "fj_job_id (refresh_job_of ?r) \<notin> fj_job_id ` set (rf_jobs ?x)"
        using added(3) by (auto simp: refresh_state_of_def refresh_jobs_def refresh_job_of_def enqueue_row_def)
    qed (simp_all add: refresh_job_of_def enqueue_row_def refresh_enqueue_args_def enqueue_defaults_def)
    have "record_refresh_request a (ra_dedupe_key a) (ei_job (ri_enqueue ids)) ''accepted'' ''queued''
        (ra_submitted_at a) (ra_cooldown_until a) ?g1 = (res, g')"
      using run enq added(4) by (auto simp: accept_refresh_def bind_op_def on_jobs_def)
    then show ?thesis
    proof (cases rule: record_refresh_cases)
      case (failed e)
      then show ?thesis using step by simp
    next
      case (row r)
      have "refresh_step G a (refresh_state_of ?g1) (refresh_state_of g')"
        unfolding row(2) bind_state
        using refresh_step.bind_own [OF row(3), of "refresh_job_of ?r" "new_refresh_control a" G] row car x1
        by (simp add: own_row_def refresh_job_of_def enqueue_row_def new_refresh_control_def refresh_state_of_def)
      then show ?thesis using step row answers_row [OF row(3)]
        by (auto simp: bind_state refresh_state_of_def)
    qed
  qed
qed

section \<open>The whole submission\<close>

text \<open>A new job is for this request, within the budget or confirmed, and no cooldown of its cohort runs.\<close>

definition job_added :: "agent_env \<Rightarrow> refresh_args \<Rightarrow> refresh_state \<Rightarrow> refresh_state \<Rightarrow> bool" where
  "job_added G a x y \<longleftrightarrow> (\<exists>j. rf_jobs y = rf_jobs x @ [j] \<and> fj_request_id j = Some (ra_request_id a) \<and>
     fj_datasource_id j = Some (ra_datasource_id a) \<and> Some (ra_request_id a) \<notin> fj_request_id ` set (rf_jobs x) \<and>
     cleared G a x \<and> cohort_idle G a x)"

lemma step_jobs: "refresh_step G a x y \<Longrightarrow> rf_jobs y = rf_jobs x \<or> job_added G a x y"
  by (cases rule: refresh_step.cases) (auto simp: job_added_def)

definition submit_effect :: "agent_env \<Rightarrow> refresh_args \<Rightarrow> agent_db \<Rightarrow> agent_error + refresh_result \<Rightarrow> agent_db \<Rightarrow> bool" where
  "submit_effect G a g res g' \<longleftrightarrow> answers a g' res \<and> ag_approvals g' = ag_approvals g \<and> ag_events g' = ag_events g \<and>
     (rf_jobs (refresh_state_of g') = rf_jobs (refresh_state_of g) \<or> job_added G a (refresh_state_of g) (refresh_state_of g')) \<and>
     (refresh_step G a)\<^sup>*\<^sup>* (refresh_state_of g) (refresh_state_of g') \<and>
     (refresh_step G a)\<^sup>*\<^sup>* (refresh_state_of g) ((refresh_state_of g')\<lparr>rf_requests := ag_requests g\<rparr>)"

lemma effect_quiet:
  assumes "answers a g' res" "ag_approvals g' = ag_approvals g" "ag_events g' = ag_events g"
    and "refresh_state_of g' = refresh_state_of g"
  shows "submit_effect G a g res g'"
  using assms by (simp add: submit_effect_def) (simp add: refresh_state_of_def)

lemma effect_step:
  assumes "answers a g' res" "ag_approvals g' = ag_approvals g" "ag_events g' = ag_events g"
    and "refresh_state_of g' = refresh_state_of g \<or> refresh_step G a (refresh_state_of g) (refresh_state_of g')"
    and "ag_requests g' = ag_requests g \<or> ag_store g' = ag_store g \<and> ag_confirmations g' = ag_confirmations g"
  shows "submit_effect G a g res g'"
proof -
  have "(refresh_state_of g')\<lparr>rf_requests := ag_requests g\<rparr> = (if ag_requests g' = ag_requests g then refresh_state_of g' else refresh_state_of g)"
    using assms(5) by (auto simp: refresh_state_of_def)
  then show ?thesis using assms(1-4) step_jobs by (auto simp: submit_effect_def)
qed

lemma effect_two_steps:
  assumes "answers a g' res" "ag_approvals g' = ag_approvals g" "ag_events g' = ag_events g"
    and x: "refresh_step G a (refresh_state_of g) x" "refresh_step G a x (refresh_state_of g')"
      "x = (refresh_state_of g')\<lparr>rf_requests := ag_requests g\<rparr>"
  shows "submit_effect G a g res g'"
proof -
  have "rf_jobs (refresh_state_of g') = rf_jobs x" using x(3) by simp
  then have "rf_jobs (refresh_state_of g') = rf_jobs (refresh_state_of g) \<or> job_added G a (refresh_state_of g) (refresh_state_of g')"
    using step_jobs [OF x(1)] by (simp add: job_added_def)
  then show ?thesis using assms by (auto simp: submit_effect_def)
qed

lemma submit_new_effect:
  assumes ok: "submit_checks a = None" "times_ok a"
    and free: "lookup_by rq_request_id (ra_request_id a) (ag_requests g) = None"
      "refresh_job_by_request_id (ra_request_id a) (ag_store g) = Inr None"
      "case lookup_by cf_request_id (ra_request_id a) (ag_confirmations g) of None \<Rightarrow> True
       | Some row \<Rightarrow> confirmation_identity_error a row = None"
    and run: "submit_new G a d (lookup_by cf_request_id (ra_request_id a) (ag_confirmations g)) clock ids g = (res, g')"
  shows "submit_effect G a g res g'"
proof -
  let ?pending = "lookup_by cf_request_id (ra_request_id a) (ag_confirmations g)"
  consider e where "active_refresh_dedupe G (ra_dedupe_key a) (ra_submitted_at a) g = Inl e"
    | c where "active_refresh_dedupe G (ra_dedupe_key a) (ra_submitted_at a) g = Inr (Some c)"
    | "active_refresh_dedupe G (ra_dedupe_key a) (ra_submitted_at a) g = Inr None"
    by (cases "active_refresh_dedupe G (ra_dedupe_key a) (ra_submitted_at a) g") auto
  then show ?thesis
  proof cases
    case 1
    then show ?thesis using run by (intro effect_quiet) (auto simp: submit_new_def bind_op_def read_op_def)
  next
    case (2 c)
    then have "record_refresh_request a (ra_dedupe_key a) (dc_job_id c) ''deduplicated'' (dc_initial_state c)
        (ra_submitted_at a) (dc_cooldown_until c) g = (res, g')"
      using run by (simp add: submit_new_def bind_op_def read_op_def)
    note share_step [OF 2 this]
    then show ?thesis by (intro effect_step) auto
  next
    case 3
    obtain q g1 where q: "onspd_refresh_confirmation G a ?pending ids g = (q, g1)" by fastforce
    show ?thesis
    proof (cases "q = Inr None")
      case True
      have "accept_refresh G a d clock ids g = (res, g')"
        using run 3 q True confirmation_clears(1) [OF q [unfolded True] free(3)]
        by (simp add: submit_new_def bind_op_def read_op_def)
      note acc = accept_step [OF ok free(1,2) dedupe_idle [OF 3] confirmation_clears(2) [OF q [unfolded True] free(3)] this]
      show ?thesis
      proof (cases "ag_requests g' = ag_requests g")
        case True
        then show ?thesis using acc by (intro effect_step) (auto simp: refresh_state_of_def)
      next
        case False
        then show ?thesis using acc effect_two_steps by blast
      qed
    next
      case False
      have "g' = g1 \<and> (case q of Inr (Some v) \<Rightarrow> res = Inr v | Inr None \<Rightarrow> True | Inl e \<Rightarrow> res = Inl e)"
        using run 3 q False by (auto simp: submit_new_def bind_op_def read_op_def return_op_def split: sum.splits option.splits)
      then show ?thesis
        using confirmation_step [OF q False] False by (intro effect_step) (auto split: sum.splits option.splits)
    qed
  qed
qed

lemma submit_known_effect:
  assumes ok: "submit_checks a = None" "times_ok a" and run: "submit_known G a d clock ids g = (res, g')"
  shows "submit_effect G a g res g'"
proof (cases "lookup_by rq_request_id (ra_request_id a) (ag_requests g)")
  case (Some row)
  then show ?thesis using run existing_answers [OF Some] by (intro effect_quiet) (auto simp: submit_known_def)
next
  case None
  note free = None
  let ?pending = "lookup_by cf_request_id (ra_request_id a) (ag_confirmations g)"
  show ?thesis
  proof (cases "case ?pending of None \<Rightarrow> None | Some row \<Rightarrow> confirmation_identity_error a row")
    case (Some e)
    then show ?thesis using run None by (intro effect_quiet) (auto simp: submit_known_def)
  next
    case None
    then have ident: "case ?pending of None \<Rightarrow> True | Some row \<Rightarrow> confirmation_identity_error a row = None"
      by (auto split: option.splits)
    consider e where "refresh_job_by_request_id (ra_request_id a) (ag_store g) = Inl e"
      | job where "refresh_job_by_request_id (ra_request_id a) (ag_store g) = Inr (Some job)"
      | "refresh_job_by_request_id (ra_request_id a) (ag_store g) = Inr None"
      by (cases "refresh_job_by_request_id (ra_request_id a) (ag_store g)") auto
    then show ?thesis
    proof cases
      case 1
      then show ?thesis using run free None by (intro effect_quiet) (auto simp: submit_known_def Let_def)
    next
      case (2 job)
      then have "recover_refresh_request G a job g = (res, g')" using run free None by (simp add: submit_known_def Let_def)
      note recover_request_step [OF 2 this]
      then show ?thesis by (intro effect_step) auto
    next
      case 3
      then have "submit_new G a d ?pending clock ids g = (res, g')" using run free None by (simp add: submit_known_def Let_def)
      then show ?thesis by (rule submit_new_effect [OF ok free 3 ident])
    qed
  qed
qed

lemma submit_refines:
  assumes "times_ok a" and run: "submit_agent_refresh G a clock ids g = (res, g')"
  shows "submit_effect G a g res g'"
proof (cases "submit_checks a")
  case (Some e)
  then show ?thesis using run by (intro effect_quiet) (auto simp: submit_agent_refresh_def raise_op_def)
next
  case None
  obtain y s1 where sync: "sync_registry (en_sha (ge_env G)) (en_registry (ge_env G)) (ra_submitted_at a) (ag_store g) = (y, s1)"
    by fastforce
  let ?g1 = "g\<lparr>ag_store := s1\<rparr>"
  have same: "refresh_state_of ?g1 = refresh_state_of g"
    using sync_registry_frame [of "en_sha (ge_env G)" "en_registry (ge_env G)" "ra_submitted_at a" "ag_store g"] sync
    by (simp add: refresh_state_of_def refresh_jobs_def)
  show ?thesis
  proof (cases "\<exists>d z. y = Inr z \<and> registry_lookup (en_registry (ge_env G)) (ra_datasource_id a) (Some (ra_definition_version a)) = Inr d")
    case True
    then obtain d where "submit_known G a d clock ids ?g1 = (res, g')"
      using run None sync by (auto simp: submit_agent_refresh_def bind_op_def on_jobs_def)
    from submit_known_effect [OF None assms(1) this] show ?thesis by (simp add: submit_effect_def same)
  next
    case False
    have "\<exists>e. res = Inl e \<and> g' = ?g1"
      using run None sync False
      by (cases y) (auto simp: submit_agent_refresh_def bind_op_def on_jobs_def raise_op_def split: sum.splits store_error.splits)
    then show ?thesis using same by (intro effect_quiet) auto
  qed
qed

end
