(* ===== verification/RefreshInv.thy ===== *)
theory RefreshInv
  imports RefreshRefine
begin

text \<open>
  The invariant of the refresh steps, and the store with its agent commands as a system: job
  commands, submissions, submissions that stop before their last transaction, approvals and
  decisions. It implements the lease protocol as the stores below it do.
\<close>

section \<open>Steps keep the invariant\<close>

lemma ts_json_inj: "instant_ok i \<Longrightarrow> instant_ok k \<Longrightarrow> ts_json i = ts_json k \<Longrightarrow> i = k"
  using instant_roundtrip [of i] instant_roundtrip [of k] parse_fields_timestamp by (metis json.inject(3) ts_json_def)

lemma carries_unique:
  assumes "carries c j" and "carries c' j"
  shows "c = c'"
proof -
  have "refresh_control_json c = refresh_control_json c'" "control_ok c" "control_ok c'"
    using assms by (auto simp: carries_def)
  then show ?thesis
    using ts_json_inj by (intro refresh_control.equality) (auto simp: refresh_control_json_def control_ok_def)
qed

lemma refresh_invD:
  assumes "refresh_inv x"
  shows "distinct (map fj_job_id (rf_jobs x))" "distinct (map fj_request_id (rf_jobs x))"
    "distinct (map rq_request_id (rf_requests x))" "distinct (map cf_request_id (rf_confirmations x))"
    "j \<in> set (rf_jobs x) \<Longrightarrow> \<exists>c. carries c j \<and> fj_created_at j = rc_submitted_at c"
    "sorted_wrt (\<lambda>j j'. \<forall>c c'. carries c j \<and> carries c' j' \<and> rc_dedupe_key c = rc_dedupe_key c' \<longrightarrow>
       rc_cooldown_until c \<le> rc_submitted_at c') (rf_jobs x)"
    "r \<in> set (rf_requests x) \<Longrightarrow> bound_row x r"
  using assms by (simp_all add: refresh_inv_def)

lemma job_by_id:
  "distinct (map fj_job_id js) \<Longrightarrow> j \<in> set js \<Longrightarrow> j' \<in> set js \<Longrightarrow> fj_job_id j = fj_job_id j' \<Longrightarrow> j = j'"
  by (simp add: distinct_map inj_on_def)

lemma parsed_carries:
  assumes "refresh_inv x" and "iso_ok G" and "j \<in> set (rf_jobs x)" and "refresh_control_of G (fj_request j) = Inr c"
  shows "carries c j"
  using refresh_invD(5) [OF assms(1,3)] control_parses [OF assms(2)] assms(4) by force

lemma bound_more: "bound_row x r \<Longrightarrow> set (rf_jobs x) \<subseteq> set (rf_jobs y) \<Longrightarrow> bound_row y r"
  unfolding bound_row_def by blast

lemma cohort_gap:
  assumes inv: "refresh_inv x" and "iso_ok G" and idle: "cohort_idle G a x" and j: "j \<in> set (rf_jobs x)" "carries c j"
    and key: "rc_dedupe_key c = ra_dedupe_key a"
  shows "rc_cooldown_until c \<le> ra_submitted_at a"
proof (cases "fj_job_id j \<in> rq_job_id ` set (rf_requests x)")
  case True
  then obtain r where r: "r \<in> set (rf_requests x)" "rq_job_id r = fj_job_id j" by auto
  from refresh_invD(7) [OF inv r(1)] obtain j' c' where j': "j' \<in> set (rf_jobs x)" "carries c' j'" "rq_job_id r = fj_job_id j'"
      "rq_dedupe_key r = rc_dedupe_key c'" "rq_cooldown_until r = rc_cooldown_until c'"
    unfolding bound_row_def by blast
  have "j' = j" using job_by_id [OF refresh_invD(1) [OF inv] j'(1) j(1)] j'(3) r(2) by simp
  then have "c' = c" using carries_unique j(2) j'(2) by blast
  then show ?thesis using idle r(1) j'(4,5) key unfolding cohort_idle_def by metis
next
  case False
  have "has_refresh_control (fj_request j)"
    using j(2) by (auto simp: carries_def has_refresh_control_def dest!: map_of_SomeD intro!: rev_image_eqI)
  then show ?thesis using idle j(1) False control_parses [OF assms(2) j(2)] key unfolding cohort_idle_def by blast
qed

lemma request_added:
  assumes inv: "refresh_inv x" and new: "new_request a x r" and bound: "bound_row x r"
  shows "refresh_inv (x\<lparr>rf_requests := rf_requests x @ [r]\<rparr>)"
proof -
  let ?y = "x\<lparr>rf_requests := rf_requests x @ [r]\<rparr>"
  have "bound_row ?y q" if "bound_row x q" for q using bound_more [OF that] by simp
  then show ?thesis using assms by (auto simp: refresh_inv_def new_request_def)
qed

lemma refresh_step_inv:
  assumes "refresh_step G a x y" and inv: "refresh_inv x" and G: "iso_ok G" and a: "times_ok a"
  shows "refresh_inv y"
  using assms(1)
proof cases
  case (confirm c)
  then show ?thesis using inv by (auto simp: refresh_inv_def bound_row_def)
next
  case (create j)
  have old: "rc_cooldown_until c \<le> rc_submitted_at c'"
    if "i \<in> set (rf_jobs x)" "carries c i" "carries c' j" "rc_dedupe_key c = rc_dedupe_key c'" for i c c'
    using cohort_gap [OF inv G create(5) that(1,2)] carries_unique [OF that(3) create(11)] that(4)
    by (simp add: new_refresh_control_def)
  have "bound_row y r" if "r \<in> set (rf_requests x)" for r
    by (rule bound_more [OF refresh_invD(7) [OF inv that]]) (use create in auto)
  then show ?thesis
    using inv create old unfolding refresh_inv_def
    by (auto simp: sorted_wrt_append new_refresh_control_def)
next
  case (bind_own r j c)
  then have "carries c j" using parsed_carries [OF inv G] by blast
  then have "bound_row x r"
    unfolding bound_row_def using bind_own by (intro bexI [of _ j] exI [of _ c]) (simp_all add: own_row_def new_request_def)
  then show ?thesis using request_added [OF inv bind_own(2)] bind_own(1) by simp
next
  case (share_request r q)
  from refresh_invD(7) [OF inv share_request(3)] obtain j c where "j \<in> set (rf_jobs x)" "carries c j" "rq_job_id q = fj_job_id j"
      "rq_dedupe_key q = rc_dedupe_key c" "rq_cooldown_until q = rc_cooldown_until c" "rq_initial_state q = rc_initial_state c"
    unfolding bound_row_def by blast
  then have "bound_row x r"
    unfolding bound_row_def using share_request by (intro bexI [of _ j] exI [of _ c]) (simp_all add: shared_row_def)
  then show ?thesis using request_added [OF inv share_request(2)] share_request(1) by simp
next
  case (share_job r j c)
  then have "carries c j" using parsed_carries [OF inv G] by blast
  then have "bound_row x r"
    unfolding bound_row_def using share_job by (intro bexI [of _ j] exI [of _ c]) (simp_all add: shared_row_def)
  then show ?thesis using request_added [OF inv share_job(2)] share_job(1) by simp
qed

lemma refresh_steps_inv:
  "(refresh_step G a)\<^sup>*\<^sup>* x y \<Longrightarrow> refresh_inv x \<Longrightarrow> iso_ok G \<Longrightarrow> times_ok a \<Longrightarrow> refresh_inv y"
  by (induction rule: rtranclp_induct) (auto intro: refresh_step_inv)

text \<open>Requests and confirmations are only ever added; so are jobs.\<close>

lemma refresh_step_grows:
  "refresh_step G a x y \<Longrightarrow> prefix (rf_jobs x) (rf_jobs y) \<and> prefix (rf_requests x) (rf_requests y) \<and>
     prefix (rf_confirmations x) (rf_confirmations y)"
  by (cases rule: refresh_step.cases) auto

lemma refresh_steps_grow:
  "(refresh_step G a)\<^sup>*\<^sup>* x y \<Longrightarrow> prefix (rf_jobs x) (rf_jobs y) \<and> prefix (rf_requests x) (rf_requests y) \<and>
     prefix (rf_confirmations x) (rf_confirmations y)"
  by (induction rule: rtranclp_induct) (auto dest!: refresh_step_grows intro: prefix_order.trans)

end
