(* ===== verification/AgentSystem.thy ===== *)
theory AgentSystem
  imports RefreshInv
begin

text \<open>
  The store with its agent commands as one system: job commands, submissions, submissions cut short
  before their last transaction, approvals and decisions. Its invariant joins those of the job
  tables, of the refresh state and of the approvals; it implements the lease protocol (the fourth
  interpretation of \<open>lease_system\<close>).
\<close>

section \<open>Approvals\<close>

text \<open>The log of an approval: numbered from 1, one decision first, then only replays of it.\<close>

definition decision_log :: "approval_event_row list \<Rightarrow> bool" where
  "decision_log es \<longleftrightarrow> map av_event_seq es = map int [1..<Suc (length es)] \<and>
     (\<forall>e \<in> set es. av_decision e = av_decision (hd es)) \<and>
     map av_event_type es = take (length es) (''decision'' # replicate (length es - 1) ''replay'')"

text \<open>An approval is bound to the confirmation of its request and lives exactly as long.\<close>

definition approval_bound :: "agent_db \<Rightarrow> approval_row \<Rightarrow> bool" where
  "approval_bound g r \<longleftrightarrow> (\<exists>c \<in> set (ag_confirmations g). cf_request_id c = ap_refresh_request_id r \<and>
     cf_principal c = ap_principal r \<and> cf_request_fingerprint c = ap_request_fingerprint r \<and>
     cf_issued_at c = ap_issued_at r \<and> cf_expires_at c = ap_expires_at r)"

definition approval_inv :: "agent_db \<Rightarrow> bool" where
  "approval_inv g \<longleftrightarrow> distinct (map ap_approval_id (ag_approvals g)) \<and>
     distinct (map ap_refresh_request_id (ag_approvals g)) \<and> (\<forall>r \<in> set (ag_approvals g). approval_bound g r) \<and>
     (\<forall>i. decision_log (events_of i g))"

lemma decision_log_Nil: "decision_log []"
  by (simp add: decision_log_def)

lemma decision_log_last:
  assumes "decision_log es"
  shows "max_by av_event_seq es = None \<longleftrightarrow> es = []"
    and "max_by av_event_seq es = Some e \<Longrightarrow> av_event_seq e = int (length es)"
proof -
  show "max_by av_event_seq es = None \<longleftrightarrow> es = []" by simp
  assume e: "max_by av_event_seq es = Some e"
  have seq: "av_event_seq ` set es = int ` {1..<Suc (length es)}"
    using assms unfolding decision_log_def by (metis atLeastLessThan_upt list.set_map)
  have "es \<noteq> []" using e by auto
  then have "int (length es) \<in> av_event_seq ` set es" unfolding seq by (intro image_eqI [of _ _ "length es"]) (auto simp: Suc_le_eq)
  moreover have "\<forall>x \<in> av_event_seq ` set es. x \<le> int (length es)" unfolding seq by auto
  moreover have "av_event_seq e \<in> av_event_seq ` set es" "\<forall>x \<in> av_event_seq ` set es. x \<le> av_event_seq e"
    using max_by_Some [OF e] by auto
  ultimately show "av_event_seq e = int (length es)" by (intro antisym) blast+
qed

lemma prior_decision_hd:
  assumes "decision_log (events_of i g)"
  shows "prior_decision i g = (if events_of i g = [] then None else Some (av_decision (hd (events_of i g))))"
proof (cases "events_of i g")
  case (Cons e es)
  have "av_event_type e = ''decision''" using assms by (simp add: decision_log_def Cons)
  then show ?thesis by (simp add: prior_decision_def Cons)
qed (simp add: prior_decision_def)

lemma decision_log_snoc:
  assumes log: "decision_log es" and "av_event_seq r = int (length es) + 1"
    and "es = [] \<or> av_decision r = av_decision (hd es)" and "av_event_type r = (if es = [] then ''decision'' else ''replay'')"
  shows "decision_log (es @ [r])"
proof (cases es)
  case Nil
  then show ?thesis using assms by (simp add: decision_log_def)
next
  case (Cons e rest)
  have "map av_event_type rest = replicate (length rest) ''replay''" "av_event_type e = ''decision''"
    using log by (simp_all add: decision_log_def Cons)
  then show ?thesis using assms
    by (auto simp: decision_log_def Cons replicate_append_same [symmetric] simp del: upt_Suc) (simp_all add: upt_Suc_append)
qed

lemma decide_cases:
  assumes "decide_agent_refresh_approval G i decision h actor now eid g = (res, g')"
  obtains (failed) e where "res = Inl e" "g' = g"
  | (event) r ap where "g' = g\<lparr>ag_events := ag_events g @ [r]\<rparr>" "av_approval_id r = i" "av_decision r = decision"
      "av_event_seq r = next_event_seq i g" "av_event_type r = (if prior_decision i g \<noteq> None then ''replay'' else ''decision'')"
      "prior_decision i g = None \<or> prior_decision i g = Some decision" "decision \<in> {''approve'', ''deny''}"
      "lookup_by ap_approval_id i (ag_approvals g) = Some ap" "ap_principal ap = hi_principal h"
      "ap_capability_scope_id ap = hi_capability_scope_id h" "ap_capability_id ap = hi_capability_id h"
      "ap_manifest_version ap = hi_manifest_version h" "ap_profile_version ap = hi_profile_version h"
      "ap_request_fingerprint ap = hi_request_fingerprint h" "now < ap_expires_at ap"
      "res = Inr \<lparr>ad_approval_id = i, ad_event_id = eid, ad_decision = decision,
         ad_outcome = (if prior_decision i g \<noteq> None then ''replayed'' else ''recorded''), ad_decided_at = now\<rparr>"
proof (cases "\<exists>e. res = Inl e \<and> g' = g")
  case True
  then show thesis using failed by blast
next
  case False
  have dec: "decision \<in> {''approve'', ''deny''}" and tr: "transaction (append_decision G i decision h actor now eid) g = (res, g')"
    using assms False
    by (auto simp: decide_agent_refresh_approval_def raise_op_def first_failure_None split: option.splits if_splits)
  obtain x where x: "res = Inr x" "append_decision G i decision h actor now eid g = (Inr x, g')"
    using tr False transaction_Inl by (cases res) (auto simp: transaction_Inr dest: transaction_Inl)
  obtain row ap where row: "lookup_by ap_approval_id i (ag_approvals g) = Some row" "agent_refresh_approval_from_row G row = Inr ap"
      "validate_agent_refresh_approval ap h now = None" "prior_decision i g = None \<or> prior_decision i g = Some decision"
    using x(2) by (auto simp: append_decision_def Let_def split: option.splits sum.splits if_splits)
  let ?r = "\<lparr>av_event_id = eid, av_approval_id = i, av_event_seq = next_event_seq i g,
      av_event_type = (if prior_decision i g \<noteq> None then ''replay'' else ''decision''), av_decision = decision,
      av_actor_type = ''host'', av_actor_id = actor,
      av_details = JObj [(''refresh_request_id'', JStr (aa_refresh_request_id ap))], av_created_at = now\<rparr>"
  have out: "g' = g\<lparr>ag_events := ag_events g @ [?r]\<rparr>" "x = \<lparr>ad_approval_id = i, ad_event_id = eid, ad_decision = decision,
      ad_outcome = (if prior_decision i g \<noteq> None then ''replayed'' else ''recorded''), ad_decided_at = now\<rparr>"
    using x(2) row
    by (auto simp: append_decision_def Let_def bind_op_Inr return_op_def insert_approval_event_def split: if_splits)
  have ap: "aa_principal ap = ap_principal row" "aa_capability_scope_id ap = ap_capability_scope_id row"
      "aa_capability_id ap = ap_capability_id row" "aa_manifest_version ap = ap_manifest_version row"
      "aa_profile_version ap = ap_profile_version row" "aa_request_fingerprint ap = ap_request_fingerprint row"
      "aa_expires_at ap = ap_expires_at row"
    using row(2) by (auto simp: agent_refresh_approval_from_row_def split: sum.splits option.splits if_splits)
  show thesis
    by (rule event [of ?r row])
      (use out row dec x(1) ap in \<open>auto simp: validate_agent_refresh_approval_def not_le split: if_splits\<close>)
qed

lemma decide_inv:
  assumes inv: "approval_inv g"
  shows "approval_inv (snd (decide_agent_refresh_approval G i decision h actor now eid g))"
proof -
  obtain res g' where run: "decide_agent_refresh_approval G i decision h actor now eid g = (res, g')" by fastforce
  from run show ?thesis
  proof (cases rule: decide_cases)
    case (event r ap)
    have log: "decision_log (events_of k g)" for k using inv by (simp add: approval_inv_def)
    have seq: "av_event_seq r = int (length (events_of i g)) + 1"
      using event(4) decision_log_last [OF log [of i]] by (auto simp: next_event_seq_def split: option.splits)
    have "decision_log (events_of i g @ [r])"
      by (rule decision_log_snoc [OF log seq])
        (use event(3,5,6) prior_decision_hd [OF log [of i]] in \<open>auto split: if_splits\<close>)
    moreover have "events_of k g' = (if k = i then events_of i g @ [r] else events_of k g)" for k
      using event(1,2) by (simp add: events_of_def)
    ultimately show ?thesis using inv log run event(1) by (auto simp: approval_inv_def approval_bound_def)
  qed (use run inv in simp)
qed

text \<open>Creating an approval adds at most one, bound to a live confirmation of the same request.\<close>

lemma create_cases:
  assumes "create_agent_refresh_approval G a now i g = (res, g')"
  obtains (same) "g' = g"
  | (created) r c where "g' = g\<lparr>ag_approvals := ag_approvals g @ [r]\<rparr>" "c \<in> set (ag_confirmations g)"
      "cf_request_id c = ap_refresh_request_id r" "cf_principal c = ap_principal r"
      "cf_request_fingerprint c = ap_request_fingerprint r" "cf_issued_at c = ap_issued_at r" "cf_expires_at c = ap_expires_at r"
      "ap_approval_id r \<notin> ap_approval_id ` set (ag_approvals g)"
      "ap_refresh_request_id r \<notin> ap_refresh_request_id ` set (ag_approvals g)"
proof (cases "g' = g")
  case False
  obtain sn where sn: "create_approval_checks (en_sha (ge_env G)) a = Inr sn" "transaction (bind_approval G a sn now i) g = (res, g')"
    using assms False by (auto simp: create_agent_refresh_approval_def raise_op_def split: sum.splits)
  obtain x where x: "bind_approval G a sn now i g = (Inr x, g')"
    using sn(2) False by (cases res) (auto simp: transaction_Inr dest: transaction_Inl)
  obtain c where c: "lookup_by cf_request_id (pa_refresh_request_id a) (ag_confirmations g) = Some c"
      "validate_approval_confirmation c (hi_principal (pa_identity a)) (hi_request_fingerprint (pa_identity a)) (pa_datasource_id a) now = None"
      "lookup_by ap_refresh_request_id (pa_refresh_request_id a) (ag_approvals g) = None"
    using x False by (auto simp: bind_approval_def Let_def split: option.splits sum.splits)
  let ?r = "\<lparr>ap_approval_id = i, ap_refresh_request_id = pa_refresh_request_id a,
                ap_principal = hi_principal (pa_identity a), ap_capability_scope_id = hi_capability_scope_id (pa_identity a),
                ap_capability_id = hi_capability_id (pa_identity a), ap_manifest_version = hi_manifest_version (pa_identity a),
                ap_profile_version = hi_profile_version (pa_identity a), ap_request_fingerprint = hi_request_fingerprint (pa_identity a),
                ap_request_snapshot = snapshot_json sn, ap_issued_at = cf_issued_at c, ap_expires_at = cf_expires_at c\<rparr>"
  have ins: "insert_approval ?r g = (Inr (), g')"
    using x c by (auto simp: bind_approval_def Let_def bind_op_Inr return_op_def)
  then have "g' = g\<lparr>ag_approvals := ag_approvals g @ [?r]\<rparr>" "i \<notin> ap_approval_id ` set (ag_approvals g)"
    by (auto simp: insert_approval_def lookup_by_None_iff split: if_splits)
  then show thesis
    using created [of ?r c] lookup_by_Some [OF c(1)] c(2,3)
    by (auto simp: validate_approval_confirmation_def lookup_by_None_iff split: if_splits)
qed

lemma create_inv:
  assumes inv: "approval_inv g"
  shows "approval_inv (snd (create_agent_refresh_approval G a now i g))"
proof -
  obtain res g' where run: "create_agent_refresh_approval G a now i g = (res, g')" by fastforce
  from run show ?thesis
  proof (cases rule: create_cases)
    case (created r c)
    then have "approval_bound g' r" by (auto simp: approval_bound_def)
    then show ?thesis using inv created run by (auto simp: approval_inv_def approval_bound_def events_of_def)
  qed (use run inv in simp)
qed

lemma approval_inv_frame:
  assumes "approval_inv g" and "ag_approvals g' = ag_approvals g" and "ag_events g' = ag_events g"
    and "set (ag_confirmations g) \<subseteq> set (ag_confirmations g')"
  shows "approval_inv g'"
  using assms unfolding approval_inv_def approval_bound_def events_of_def by (metis subsetD)

section \<open>Commands\<close>

datatype agent_command =
    GJob store_command
  | GSubmit agent_env refresh_args instant refresh_ids
  | GCut agent_env refresh_args instant refresh_ids
  | GApprove agent_env approval_args instant string
  | GDecide agent_env string string host_identity string instant string

text \<open>
  The ledger row is the last transaction of a submission; \<open>GCut\<close> is a submission after which the
  process stopped before it.
\<close>

fun agent_exec :: "agent_command \<Rightarrow> agent_db \<Rightarrow> agent_db" where
  "agent_exec (GJob c) g = g\<lparr>ag_store := store_exec c (ag_store g)\<rparr>"
| "agent_exec (GSubmit G a clock ids) g = snd (submit_agent_refresh G a clock ids g)"
| "agent_exec (GCut G a clock ids) g = (snd (submit_agent_refresh G a clock ids g))\<lparr>ag_requests := ag_requests g\<rparr>"
| "agent_exec (GApprove G a now i) g = snd (create_agent_refresh_approval G a now i g)"
| "agent_exec (GDecide G i decision h actor now eid) g = snd (decide_agent_refresh_approval G i decision h actor now eid g)"

text \<open>Jobs with the trigger \<open>agent_request\<close> come from submissions only; the clock shows valid datetimes.\<close>

fun agent_admissible :: "agent_command \<Rightarrow> agent_db \<Rightarrow> bool" where
  "agent_admissible (GJob c) g \<longleftrightarrow> store_admissible c (ag_store g) \<and> command_trigger c \<noteq> Some ''agent_request''"
| "agent_admissible (GSubmit G a clock ids) g \<longleftrightarrow> iso_ok G \<and> times_ok a"
| "agent_admissible (GCut G a clock ids) g \<longleftrightarrow> iso_ok G \<and> times_ok a"
| "agent_admissible _ g \<longleftrightarrow> True"

definition empty_agent_db :: agent_db where
  "empty_agent_db = \<lparr>ag_store = empty_store, ag_requests = [], ag_confirmations = [], ag_approvals = [], ag_events = []\<rparr>"

definition agent_inv :: "agent_db \<Rightarrow> bool" where
  "agent_inv g \<longleftrightarrow> store_inv (ag_store g) \<and> refresh_inv (refresh_state_of g) \<and> approval_inv g"

lemma agent_inv_empty: "agent_inv empty_agent_db"
  by (simp add: agent_inv_def empty_agent_db_def store_inv_empty refresh_inv_def refresh_state_of_def refresh_jobs_def
      approval_inv_def events_of_def decision_log_Nil) (simp add: empty_store_def)

subsection \<open>A submission moves the job tables as the lease protocol allows\<close>

lemma record_refresh_store: "ag_store (snd (record_refresh_request a k i d st sub cool g)) = ag_store g"
proof -
  obtain res g' where run: "record_refresh_request a k i d st sub cool g = (res, g')" by fastforce
  then have "ag_store g' = ag_store g" by (cases rule: record_refresh_cases) auto
  then show ?thesis using run by simp
qed

lemma grows_same: "store_inv s \<Longrightarrow> s_jobs s' = s_jobs s \<Longrightarrow> s_attempts s' = s_attempts s \<Longrightarrow> grows s s'"
  by (simp add: grows_def moves_same)

lemma accept_store:
  "ag_store (snd (accept_refresh G a d clock ids g)) = snd (enqueue (ge_env G) clock (ri_enqueue ids) (refresh_enqueue_args a d) (ag_store g))"
  using record_refresh_store
  by (cases "enqueue (ge_env G) clock (ri_enqueue ids) (refresh_enqueue_args a d) (ag_store g)")
    (auto simp: accept_refresh_def bind_op_def on_jobs_def raise_op_def split: sum.splits)

text \<open>A submission leaves the job and attempt tables alone, or it is one \<open>enqueue\<close> on them.\<close>

lemma submit_known_store:
  "s_jobs (ag_store (snd (submit_known G a d clock ids g))) = s_jobs (ag_store g) \<and>
     s_attempts (ag_store (snd (submit_known G a d clock ids g))) = s_attempts (ag_store g) \<or>
   ag_store (snd (submit_known G a d clock ids g)) =
     snd (enqueue (ge_env G) clock (ri_enqueue ids) (refresh_enqueue_args a d) (ag_store g))"
  (is "?same (submit_known G a d clock ids g) \<or> ?one (submit_known G a d clock ids g)")
proof -
  let ?pending = "lookup_by cf_request_id (ra_request_id a) (ag_confirmations g)"
  let ?next = "bind_op (onspd_refresh_confirmation G a ?pending ids)
      (\<lambda>c. case c of Some r \<Rightarrow> return_op r | None \<Rightarrow> accept_refresh G a d clock ids) g"
  have rec: "ag_store (snd (recover_refresh_request G a job g)) = ag_store g" for job
    by (auto simp: recover_refresh_request_def raise_op_def record_refresh_store split: sum.splits)
  have conf: "?same ?next \<or> ?one ?next"
  proof -
    obtain q g1 where q: "onspd_refresh_confirmation G a ?pending ids g = (q, g1)" by fastforce
    show ?thesis
    proof (cases "q = Inr None")
      case True
      then have "g1 = g" using q
        by (auto simp: onspd_refresh_confirmation_def bind_op_Inr return_op_def split: sum.splits if_splits option.splits)
      then show ?thesis using q True by (simp add: bind_op_def accept_store)
    next
      case False
      then have "snd ?next = g1" using q by (auto simp: bind_op_def return_op_def split: sum.splits option.splits)
      then show ?thesis using confirmation_step [OF q False] by simp
    qed
  qed
  have new: "?same (submit_new G a d ?pending clock ids g) \<or> ?one (submit_new G a d ?pending clock ids g)"
    using conf
    by (auto simp: submit_new_def bind_op_def [of "read_op q" for q] read_op_def record_refresh_store split: sum.splits option.splits)
  show ?thesis using rec new by (auto simp: submit_known_def Let_def split: option.splits sum.splits)
qed

lemma submit_known_grows:
  assumes inv: "store_inv (ag_store g)"
  shows "grows (ag_store g) (ag_store (snd (submit_known G a d clock ids g)))"
  using submit_known_store [of G a d clock ids g] grows_same [OF inv] enqueue_grows [OF inv]
  by metis

lemma submit_grows:
  assumes inv: "store_inv (ag_store g)"
  shows "grows (ag_store g) (ag_store (snd (submit_agent_refresh G a clock ids g)))"
proof -
  obtain y s1 where sync: "sync_registry (en_sha (ge_env G)) (en_registry (ge_env G)) (ra_submitted_at a) (ag_store g) = (y, s1)"
    by fastforce
  have eq: "s_jobs s1 = s_jobs (ag_store g)" "s_attempts s1 = s_attempts (ag_store g)"
    using sync_registry_frame [of "en_sha (ge_env G)" "en_registry (ge_env G)" "ra_submitted_at a" "ag_store g"] sync by simp_all
  then have inv1: "store_inv s1" using inv store_inv_cong by blast
  have k: "grows s1 (ag_store (snd (submit_known G a d clock ids (g\<lparr>ag_store := s1\<rparr>))))" for d
    using submit_known_grows [of "g\<lparr>ag_store := s1\<rparr>"] inv1 by simp
  have "grows s1 (ag_store (snd (submit_agent_refresh G a clock ids g))) \<or> submit_checks a \<noteq> None"
    using k sync grows_refl [OF inv1]
    by (cases y) (auto simp: submit_agent_refresh_def bind_op_def on_jobs_def raise_op_def split: option.splits sum.splits store_error.splits)
  moreover have "grows (ag_store g) (ag_store (snd (submit_agent_refresh G a clock ids g)))" if "submit_checks a \<noteq> None"
    using that grows_refl [OF inv] by (auto simp: submit_agent_refresh_def raise_op_def)
  ultimately show ?thesis using grows_cong [OF eq] by blast
qed

subsection \<open>Every command keeps the invariant\<close>

lemma submit_keeps:
  assumes inv: "agent_inv g" and ok: "iso_ok G" "times_ok a"
  shows "agent_inv (snd (submit_agent_refresh G a clock ids g))"
    and "agent_inv ((snd (submit_agent_refresh G a clock ids g))\<lparr>ag_requests := ag_requests g\<rparr>)"
proof -
  obtain res g' where run: "submit_agent_refresh G a clock ids g = (res, g')" by fastforce
  have eff: "submit_effect G a g res g'" by (rule submit_refines [OF ok(2) run])
  have store: "store_inv (ag_store g')"
    using grows_inv [OF submit_grows, of g G a clock ids] inv run by (simp add: agent_inv_def)
  have conf: "set (ag_confirmations g) \<subseteq> set (ag_confirmations g')"
    using eff refresh_steps_grow [of G a "refresh_state_of g" "refresh_state_of g'"]
    by (auto simp: submit_effect_def refresh_state_of_def dest: set_mono_prefix)
  have ap: "approval_inv g'" "approval_inv (g'\<lparr>ag_requests := ag_requests g\<rparr>)"
    using eff conf inv approval_inv_frame [of g] by (auto simp: submit_effect_def agent_inv_def)
  have "refresh_inv (refresh_state_of g')" "refresh_inv ((refresh_state_of g')\<lparr>rf_requests := ag_requests g\<rparr>)"
    using eff inv refresh_steps_inv ok by (auto simp: submit_effect_def agent_inv_def)
  then show "agent_inv (snd (submit_agent_refresh G a clock ids g))"
    "agent_inv ((snd (submit_agent_refresh G a clock ids g))\<lparr>ag_requests := ag_requests g\<rparr>)"
    using run store ap by (simp_all add: agent_inv_def bind_state)
qed

lemma approval_frame:
  "ag_store (snd (create_agent_refresh_approval G pa now i g)) = ag_store g"
  "refresh_state_of (snd (create_agent_refresh_approval G pa now i g)) = refresh_state_of g"
  "ag_store (snd (decide_agent_refresh_approval G i dec h actor now eid g)) = ag_store g"
  "refresh_state_of (snd (decide_agent_refresh_approval G i dec h actor now eid g)) = refresh_state_of g"
proof -
  obtain res g' where run: "create_agent_refresh_approval G pa now i g = (res, g')" by fastforce
  then have "ag_store g' = ag_store g \<and> refresh_state_of g' = refresh_state_of g"
    by (cases rule: create_cases) (auto simp: refresh_state_of_def)
  then show "ag_store (snd (create_agent_refresh_approval G pa now i g)) = ag_store g"
    "refresh_state_of (snd (create_agent_refresh_approval G pa now i g)) = refresh_state_of g"
    using run by simp_all
  obtain res g' where run: "decide_agent_refresh_approval G i dec h actor now eid g = (res, g')" by fastforce
  then have "ag_store g' = ag_store g \<and> refresh_state_of g' = refresh_state_of g"
    by (cases rule: decide_cases) (auto simp: refresh_state_of_def)
  then show "ag_store (snd (decide_agent_refresh_approval G i dec h actor now eid g)) = ag_store g"
    "refresh_state_of (snd (decide_agent_refresh_approval G i dec h actor now eid g)) = refresh_state_of g"
    using run by simp_all
qed

lemma agent_exec_inv:
  assumes inv: "agent_inv g" and ok: "agent_admissible c g"
  shows "agent_inv (agent_exec c g)"
proof (cases c)
  case (GJob sc)
  have "refresh_jobs (store_exec sc (ag_store g)) = refresh_jobs (ag_store g)"
    by (rule rj.store_exec_le) (use ok GJob in auto)
  moreover have "store_inv (store_exec sc (ag_store g))" using ls.exec_inv inv ok GJob by (simp add: agent_inv_def)
  moreover have "approval_inv (g\<lparr>ag_store := s\<rparr>)" for s using inv approval_inv_frame [of g] by (auto simp: agent_inv_def)
  ultimately show ?thesis using inv GJob by (simp add: agent_inv_def refresh_state_of_def)
next
  case (GApprove G a now i)
  then show ?thesis using inv create_inv approval_frame by (simp add: agent_inv_def)
next
  case (GDecide G i decision h actor now eid)
  then show ?thesis using inv decide_inv approval_frame by (simp add: agent_inv_def)
qed (use submit_keeps [OF inv] ok in auto)

lemma agent_exec_grows:
  assumes inv: "agent_inv g" and ok: "agent_admissible c g"
  shows "grows (ag_store g) (ag_store (agent_exec c g))"
proof -
  have s: "store_inv (ag_store g)" using inv by (simp add: agent_inv_def)
  show ?thesis
    using store_exec_grows [OF s] submit_grows [OF s] grows_refl [OF s] ok by (cases c) (auto simp: approval_frame)
qed

interpretation la: lease_system agent_inv "\<lambda>g. job_view (ag_store g)" agent_exec agent_admissible
proof
  fix g c j l
  assume g: "agent_inv g" "agent_admissible c g"
  then show "agent_inv (agent_exec c g)" by (rule agent_exec_inv)
  show "job_view (ag_store g) j = Some l \<Longrightarrow> \<exists>evs l'. job_view (ag_store (agent_exec c g)) j = Some l' \<and> lease_run l evs l'"
    by (rule grows_view(1) [OF agent_exec_grows [OF g]])
  show "job_view (ag_store g) j = None \<Longrightarrow> job_view (ag_store (agent_exec c g)) j = Some l \<Longrightarrow> new_lease l"
    by (rule grows_view(2) [OF agent_exec_grows [OF g]])
qed

end
