(* ===== verification/AgentDemo.thy ===== *)
theory AgentDemo
  imports AgentSystem JobStoreCorrect
begin

text \<open>
  A small deployment for the witnesses about refresh requests: two versions of the ONSPD definition,
  each with its own digest function, two submissions of one cohort, and a confirmation with its
  approval. \<open>demo_fromiso\<close> reads the timestamps that \<open>isoformat\<close> prints in UTC.
\<close>

definition demo_fromiso :: "string \<Rightarrow> datetime option option" where
  "demo_fromiso s = (case parse_timestamp (take (length s - 6) s @ ''Z'') of Inl e \<Rightarrow> None | Inr t \<Rightarrow> Some (Some t))"

definition demo_definition :: "int \<Rightarrow> definition_descriptor" where
  "demo_definition n = sample_definition\<lparr>dd_datasource_id := ''ons.onspd.postcode'', dd_definition_version := n,
     dd_source_bindings := [\<lparr>sb_source_id = ''boe'', sb_source_version = n, sb_role = ''primary'', sb_required = True\<rparr>]\<rparr>"

definition demo_agent_env :: "int \<Rightarrow> char \<Rightarrow> agent_env" where
  "demo_agent_env n ch = \<lparr>ge_env = \<lparr>en_registry = \<lparr>rg_sources = [sample_source\<lparr>sr_source_version := n\<rparr>],
       rg_definitions = [demo_definition n]\<rparr>, en_urllib = sample_urllib, en_sha = (\<lambda>_. replicate 64 ch)\<rparr>,
     ge_fromiso = demo_fromiso, ge_london = utc_zone\<rparr>"

definition demo_refresh :: "string \<Rightarrow> int \<Rightarrow> instant \<Rightarrow> refresh_args" where
  "demo_refresh i n t = \<lparr>ra_request_id = i, ra_principal = ''agent'', ra_request_fingerprint = replicate 64 (CHR ''0''),
     ra_dedupe_key = replicate 64 (CHR ''0''), ra_datasource_id = ''ons.onspd.postcode'', ra_definition_version = n,
     ra_request_profile = ''onspd'', ra_lane = ''production_ingestion'', ra_bounded_scope = [], ra_intent = ''refresh'',
     ra_submitted_at = t, ra_cooldown_until = t + 300000000, ra_confirmation_token = None\<rparr>"

definition demo_refresh_ids :: "string \<Rightarrow> string \<Rightarrow> refresh_ids" where
  "demo_refresh_ids job aud = \<lparr>ri_enqueue = \<lparr>ei_manual_request = ''m'', ei_job = job, ei_audit = aud\<rparr>, ri_token = ''token'', ri_audit = ''audit''\<rparr>"

lemma demo_iso: "iso_ok (demo_agent_env n ch)"
proof -
  have "demo_fromiso (butlast (timestamp t) @ ''+00:00'') = Some (Some t)" if "valid_datetime t" for t
  proof -
    have "butlast (timestamp t) @ ''Z'' = timestamp t" using timestamp_Z [of t] by simp
    then show ?thesis using that
      by (simp add: demo_fromiso_def parse_timestamp_def parse_fields_timestamp timestamp_re_timestamp)
  qed
  then show ?thesis by (simp add: iso_ok_def demo_agent_env_def)
qed

lemma demo_env_fields [simp]:
  "en_registry (ge_env (demo_agent_env n ch)) = \<lparr>rg_sources = [sample_source\<lparr>sr_source_version := n\<rparr>], rg_definitions = [demo_definition n]\<rparr>"
  "en_sha (ge_env (demo_agent_env n ch)) = (\<lambda>_. replicate 64 ch)" "en_urllib (ge_env (demo_agent_env n ch)) = sample_urllib"
  "ge_london (demo_agent_env n ch) = utc_zone" "ge_fromiso (demo_agent_env n ch) = demo_fromiso"
  by (simp_all add: demo_agent_env_def)

lemma demo_day: "london_day_window (demo_agent_env n ch) 0 = Inr (0, 86400000000)"
    "london_day_window (demo_agent_env n ch) 300000000 = Inr (0, 86400000000)"
proof -
  let ?t = "\<lparr>dt_year = 1970, dt_month = 1, dt_day = 1, dt_hour = 0, dt_minute = 5, dt_second = 0, dt_microsecond = 0\<rparr>"
  have "of_instant (to_instant ?t) = ?t"
    by (rule of_instant_to_instant) (simp add: valid_datetime_def valid_date_def days_in_month_def)
  then have t: "of_instant 300000000 = ?t"
    by (simp add: to_instant_def ymd2ord_def days_before_year_def)
  show "london_day_window (demo_agent_env n ch) 0 = Inr (0, 86400000000)"
    "london_day_window (demo_agent_env n ch) 300000000 = Inr (0, 86400000000)"
    by (simp_all add: london_day_window_def clamp_def of_instant_0 t date_ord_def ymd2ord_def days_before_year_def
        max_ordinal_def midnight_def ord2ymd_1970 to_instant_def utc_zone_def)
qed

lemma demo_times: "times_ok (demo_refresh i n 0)" "times_ok (demo_refresh i n 300000000)"
  by (simp_all add: times_ok_def demo_refresh_def instant_ok_def)

lemma demo_checks: "bounded_identifier i \<Longrightarrow> submit_checks (demo_refresh i n t) = None"
  by (simp add: submit_checks_def demo_refresh_def require_refresh_identifier_def require_refresh_digest_def
      bounded_identifier_def hex64_def list_all_iff require_optional_refresh_confirmation_token_def)


section \<open>The first submission\<close>

definition demo_prepared :: "string \<Rightarrow> int \<Rightarrow> instant \<Rightarrow> prepared_job" where
  "demo_prepared i n t = \<lparr>pj_definition = demo_definition n, pj_lane = ''production_ingestion'', pj_kind = ''on_demand_refresh'',
     pj_request = refresh_request_payload (demo_refresh i n t) (demo_definition n)\<rparr>"

lemma demo_payload: "refresh_request_payload (demo_refresh i n t) (demo_definition n) =
    [(''refresh_profile'', JStr ''onspd''), (''scope'', JObj []), (''intent'', JStr ''refresh''),
     (''_refresh_control'', refresh_control_json (new_refresh_control (demo_refresh i n t)))]"
  by (simp add: refresh_request_payload_def demo_refresh_def demo_definition_def sample_definition_simps sample_definition_def dict_set_def)

lemma demo_keys_plain: "\<forall>k \<in> set [''refresh_profile'', ''scope'', ''intent'']. \<not> sensitive_key k \<and> lower k \<notin> set url_keys \<and> lower k \<noteq> ''headers''"
  by code_simp

lemma demo_redacted: "redact_pairs ul (refresh_request_payload (demo_refresh i n t) (demo_definition n)) =
    Inr (refresh_request_payload (demo_refresh i n t) (demo_definition n))"
proof -
  let ?c = "new_refresh_control (demo_refresh i n t)"
  have "redact_pairs ul [(''principal'', JStr (rc_principal ?c)), (''request_fingerprint'', JStr (rc_request_fingerprint ?c)),
      (''dedupe_key'', JStr (rc_dedupe_key ?c)), (''submitted_at'', ts_json (rc_submitted_at ?c)),
      (''cooldown_until'', ts_json (rc_cooldown_until ?c)), (''initial_state'', JStr (rc_initial_state ?c))] =
    Inr [(''principal'', JStr (rc_principal ?c)), (''request_fingerprint'', JStr (rc_request_fingerprint ?c)),
      (''dedupe_key'', JStr (rc_dedupe_key ?c)), (''submitted_at'', ts_json (rc_submitted_at ?c)),
      (''cooldown_until'', ts_json (rc_cooldown_until ?c)), (''initial_state'', JStr (rc_initial_state ?c))]"
    using control_keys_plain by (intro plain_pairs) (auto simp: ts_json_def)
  then show ?thesis
    unfolding demo_payload refresh_control_json_def using control_keys_plain demo_keys_plain
    by (auto simp: Let_def split: sum.splits)
qed

lemmas demo_args = demo_refresh_def enqueue_defaults_def refresh_enqueue_args_def

lemma demo_definition_fields:
  "dd_datasource_id (demo_definition n) = ''ons.onspd.postcode''" "dd_definition_version (demo_definition n) = n"
  "dd_schedules (demo_definition n) = []"
  "dd_source_bindings (demo_definition n) = [\<lparr>sb_source_id = ''boe'', sb_source_version = n, sb_role = ''primary'', sb_required = True\<rparr>]"
  "dd_access_class (demo_definition n) = ''open''" "dd_status (demo_definition n) = ''production''"
  "dd_retry_policy (demo_definition n) = JObj [(''max_attempts'', JInt 2), (''base_delay_seconds'', JInt 30)]"
  "dd_default_lane (demo_definition n) = ''production_ingestion''"
  "dd_promotion_policy (demo_definition n) = dd_promotion_policy sample_definition"
  by (simp_all add: demo_definition_def sample_definition_def)

lemma demo_prepare: "enqueue_prepare (ge_env (demo_agent_env n ch)) (refresh_enqueue_args (demo_refresh i n t) (demo_definition n)) = Inr (demo_prepared i n t)"
  using demo_redacted [of sample_urllib i n t] demo_payload [of i n t]
  by (simp add: enqueue_prepare_def registry_lookup_def demo_args demo_definition_fields lanes_def triggers_def
      enqueue_job_kinds_def dd_key_def demo_prepared_def Let_def)


definition demo_first :: agent_db where
  "demo_first = snd (submit_agent_refresh (demo_agent_env 1 (CHR ''0'')) (demo_refresh ''req_1'' 1 0) 0 (demo_refresh_ids ''job_1'' ''audit_1'') empty_agent_db)"

definition demo_job :: "string \<Rightarrow> int \<Rightarrow> instant \<Rightarrow> char \<Rightarrow> string \<Rightarrow> job_row" where
  "demo_job i n t ch job = enqueue_row (ge_env (demo_agent_env n ch)) (refresh_enqueue_args (demo_refresh i n t) (demo_definition n))
     (demo_prepared i n t) t job (Some i)"

definition demo_row :: "string \<Rightarrow> int \<Rightarrow> instant \<Rightarrow> string \<Rightarrow> refresh_row" where
  "demo_row i n t job = \<lparr>rq_request_id = i, rq_principal = ''agent'', rq_request_fingerprint = replicate 64 (CHR ''0''),
     rq_dedupe_key = replicate 64 (CHR ''0''), rq_datasource_id = ''ons.onspd.postcode'', rq_definition_version = n,
     rq_request_profile = ''onspd'', rq_job_id = job, rq_disposition = ''accepted'', rq_initial_state = ''queued'',
     rq_submitted_at = t, rq_cooldown_until = t + 300000000\<rparr>"

lemma demo_job_fields:
  "j_job_id (demo_job i n t ch job) = job" "j_dedupe_key (demo_job i n t ch job) = replicate 64 ch"
  "j_job_kind (demo_job i n t ch job) = ''on_demand_refresh''" "j_datasource_id (demo_job i n t ch job) = Some ''ons.onspd.postcode''"
  "j_definition_version (demo_job i n t ch job) = Some n" "j_request_instance_id (demo_job i n t ch job) = Some i"
  "j_lane (demo_job i n t ch job) = Some ''production_ingestion''" "j_trigger (demo_job i n t ch job) = ''agent_request''"
  "j_created_at (demo_job i n t ch job) = t" "j_state (demo_job i n t ch job) = QUEUED" "j_attempt_count (demo_job i n t ch job) = 0"
  "j_max_attempts (demo_job i n t ch job) = 2" "j_request (demo_job i n t ch job) = JObj (refresh_request_payload (demo_refresh i n t) (demo_definition n))"
  "j_schedule_id (demo_job i n t ch job) = None" "j_parent_job_id (demo_job i n t ch job) = None"
  "j_window_start (demo_job i n t ch job) = None" "j_window_end (demo_job i n t ch job) = None" "j_generation (demo_job i n t ch job) = 0"
  "j_request_hash (demo_job i n t ch job) = replicate 64 ch" "j_definition_hash (demo_job i n t ch job) = Some (replicate 64 ch)"
  by (simp_all add: definition_hash_def demo_job_def enqueue_row_def demo_prepared_def enqueue_dedupe_def demo_args request_hash_def max_attempts_def demo_definition_fields)

lemma demo_refresh_fields [simp]:
  "ra_request_id (demo_refresh i n t) = i" "ra_principal (demo_refresh i n t) = ''agent''"
  "ra_request_fingerprint (demo_refresh i n t) = replicate 64 (CHR ''0'')" "ra_dedupe_key (demo_refresh i n t) = replicate 64 (CHR ''0'')"
  "ra_datasource_id (demo_refresh i n t) = ''ons.onspd.postcode''" "ra_definition_version (demo_refresh i n t) = n"
  "ra_request_profile (demo_refresh i n t) = ''onspd''" "ra_submitted_at (demo_refresh i n t) = t"
  "ra_cooldown_until (demo_refresh i n t) = t + 300000000" "ra_confirmation_token (demo_refresh i n t) = None"
  by (simp_all add: demo_refresh_def)

lemma demo_enqueue_fields:
  "ea_request_instance_id (refresh_enqueue_args (demo_refresh i n t) d) = Some i"
  "ea_scheduled_for (refresh_enqueue_args (demo_refresh i n t) d) = Some t"
  "ea_trigger (refresh_enqueue_args (demo_refresh i n t) d) = ''agent_request''"
  "ea_datasource_id (refresh_enqueue_args (demo_refresh i n t) d) = ''ons.onspd.postcode''"
  by (simp_all add: demo_args)

lemma demo_ids [simp]: "ri_enqueue (demo_refresh_ids job aud) = \<lparr>ei_manual_request = ''m'', ei_job = job, ei_audit = aud\<rparr>"
  by (simp add: demo_refresh_ids_def)

lemma demo_hashes: "enqueue_dedupe (\<lambda>_. replicate 64 ch) a p t x = replicate 64 ch"
    "definition_hash (\<lambda>_. replicate 64 ch) d = replicate 64 ch" "source_hash (\<lambda>_. replicate 64 ch) c = replicate 64 ch"
    "dd_approved_by (demo_definition n) = Some ''architect''" "dd_approved_at (demo_definition n) = Some ''2026-07-31T00:00:00.000000Z''"
  by (simp_all add: enqueue_dedupe_def request_hash_def definition_hash_def source_hash_def demo_definition_def sample_definition_def)

lemmas submit_eval = submit_agent_refresh_def on_jobs_def registry_lookup_def submit_known_def submit_new_def
  refresh_job_by_request_id_def active_refresh_dedupe_def ledger_candidates_def orphan_jobs_def onspd_refresh_confirmation_def
  refresh_jobs_in_london_day_def onspd_jobs_between_def onspd_refresh_daily_limit_def accept_refresh_def record_refresh_request_def
  insert_refresh_request_def read_op_def agent_job_def onspd_refresh_datasource_id_def enqueue_def enqueue_insert_def
  insert_job_def job_row_ok_def audit_def demo_job_def [symmetric] demo_hashes sync_eval

lemma sample_source_same: "sample_source\<lparr>sr_source_version := 1\<rparr> = sample_source"
  by (simp add: sample_source_def)

lemma demo_first_run:
  "submit_agent_refresh (demo_agent_env 1 (CHR ''0'')) (demo_refresh ''req_1'' 1 0) 0 (demo_refresh_ids ''job_1'' ''audit_1'') empty_agent_db =
     (Inr (refresh_result_of (Some ''job_1'') ''accepted'' ''queued'' 0), demo_first)"
  "s_jobs (ag_store demo_first) = [demo_job ''req_1'' 1 0 (CHR ''0'') ''job_1'']"
  "ag_requests demo_first = [demo_row ''req_1'' 1 0 ''job_1'']" "ag_confirmations demo_first = []"
  "s_sources (ag_store demo_first) = [\<lparr>so_source = sample_source, so_source_hash = replicate 64 (CHR ''0''), so_created_at = 0\<rparr>]"
  "s_definitions (ag_store demo_first) = [\<lparr>dr_definition = demo_definition 1, dr_definition_hash = replicate 64 (CHR ''0''), dr_created_at = 0\<rparr>]"
  "s_bindings (ag_store demo_first) = [\<lparr>br_datasource_id = ''ons.onspd.postcode'', br_definition_version = 1, br_source_id = ''boe'',
     br_source_version = 1, br_role = ''primary'', br_required = True\<rparr>]"
  "map ae_audit_id (s_audit (ag_store demo_first)) = [''audit_1'']"
  by (simp_all add: demo_first_def submit_eval demo_checks bounded_identifier_def empty_agent_db_def empty_store_def
     demo_day demo_prepare demo_definition_fields sample_source_simps demo_enqueue_fields demo_job_fields demo_row_def sample_source_same)


section \<open>A second submission of the cohort\<close>

definition demo_second :: agent_db where
  "demo_second = snd (submit_agent_refresh (demo_agent_env 2 (CHR ''1'')) (demo_refresh ''req_2'' 2 300000000) 300000000
     (demo_refresh_ids ''job_2'' ''audit_2'') demo_first)"

lemma demo_second_run:
  "submit_agent_refresh (demo_agent_env 2 (CHR ''1'')) (demo_refresh ''req_2'' 2 300000000) 300000000
     (demo_refresh_ids ''job_2'' ''audit_2'') demo_first =
     (Inr (refresh_result_of (Some ''job_2'') ''accepted'' ''queued'' 300000000), demo_second)"
  "s_jobs (ag_store demo_second) = [demo_job ''req_1'' 1 0 (CHR ''0'') ''job_1'', demo_job ''req_2'' 2 300000000 (CHR ''1'') ''job_2'']"
proof -
  have "lookup_by ae_audit_id ''audit_2'' (s_audit (ag_store demo_first)) = None"
    using demo_first_run(8) by (auto simp: lookup_by_None_iff map_eq_Cons_conv)
  then show "submit_agent_refresh (demo_agent_env 2 (CHR ''1'')) (demo_refresh ''req_2'' 2 300000000) 300000000
     (demo_refresh_ids ''job_2'' ''audit_2'') demo_first =
     (Inr (refresh_result_of (Some ''job_2'') ''accepted'' ''queued'' 300000000), demo_second)"
    "s_jobs (ag_store demo_second) = [demo_job ''req_1'' 1 0 (CHR ''0'') ''job_1'', demo_job ''req_2'' 2 300000000 (CHR ''1'') ''job_2'']"
    by (simp_all add: demo_second_def submit_eval demo_checks bounded_identifier_def demo_first_run
     demo_day demo_prepare demo_definition_fields sample_source_simps demo_enqueue_fields demo_job_fields demo_row_def)
qed

section \<open>A cut submission and its control data\<close>

definition demo_cut :: agent_db where
  "demo_cut = demo_first\<lparr>ag_requests := []\<rparr>"

lemma demo_reaches:
  "reaches agent_exec agent_admissible empty_agent_db
     [GSubmit (demo_agent_env 1 (CHR ''0'')) (demo_refresh ''req_1'' 1 0) 0 (demo_refresh_ids ''job_1'' ''audit_1'')] demo_first"
  "reaches agent_exec agent_admissible empty_agent_db
     [GSubmit (demo_agent_env 1 (CHR ''0'')) (demo_refresh ''req_1'' 1 0) 0 (demo_refresh_ids ''job_1'' ''audit_1''),
      GSubmit (demo_agent_env 2 (CHR ''1'')) (demo_refresh ''req_2'' 2 300000000) 300000000 (demo_refresh_ids ''job_2'' ''audit_2'')] demo_second"
  "reaches agent_exec agent_admissible empty_agent_db
     [GCut (demo_agent_env 1 (CHR ''0'')) (demo_refresh ''req_1'' 1 0) 0 (demo_refresh_ids ''job_1'' ''audit_1'')] demo_cut"
  by (simp_all add: demo_first_run(1) demo_second_run(1) demo_iso demo_times demo_cut_def) (simp add: empty_agent_db_def)

lemma demo_control:
  assumes "t = 0 \<or> t = 300000000"
  shows "refresh_control_of (demo_agent_env m x) (j_request (demo_job i n t ch job)) = Inr (new_refresh_control (demo_refresh i n t))"
proof -
  have "carries (new_refresh_control (demo_refresh i n t)) (refresh_job_of (demo_job i n t ch job))"
    using assms
    by (auto simp: carries_def refresh_job_of_def demo_job_fields demo_payload control_ok_def new_refresh_control_def instant_ok_def
        bounded_identifier_def hex64_def list_all_iff)
  from control_parses [OF demo_iso this] show ?thesis by (simp add: refresh_job_of_def)
qed

lemma demo_known: "registry_lookup (en_registry (ge_env (demo_agent_env n ch))) ''ons.onspd.postcode'' (Some n) = Inr (demo_definition n)"
  by (simp add: registry_lookup_def dd_key_def demo_definition_fields)

lemma demo_sync:
  assumes "g = demo_first \<or> g = demo_cut"
  shows "\<exists>y. sync_registry (en_sha (ge_env (demo_agent_env 1 (CHR ''0'')))) (en_registry (ge_env (demo_agent_env 1 (CHR ''0'')))) t (ag_store g) = (Inr y, ag_store g)"
  using assms
  by (auto simp: demo_cut_def sync_eval demo_first_run demo_definition_fields sample_source_simps demo_hashes sample_source_same)

section \<open>A confirmation and its approval\<close>

definition demo_confirmation :: confirmation_row where
  "demo_confirmation = \<lparr>cf_confirmation_token = ''token'', cf_request_id = ''req_1'', cf_principal = ''agent'',
     cf_request_fingerprint = replicate 64 (CHR ''0''), cf_datasource_id = ''ons.onspd.postcode'', cf_definition_version = 1,
     cf_day_start_at = 0, cf_issued_at = 0, cf_expires_at = 600000000\<rparr>"

definition demo_host :: host_identity where
  "demo_host = \<lparr>hi_principal = ''agent'', hi_capability_scope_id = ''scope'', hi_capability_id = ''refresh'',
     hi_manifest_version = ''1'', hi_profile_version = ''1'', hi_request_fingerprint = replicate 64 (CHR ''0'')\<rparr>"

definition demo_approval_args :: approval_args where
  "demo_approval_args = \<lparr>pa_refresh_request_id = ''req_1'', pa_identity = demo_host, pa_datasource_id = ''ons.onspd.postcode'',
     pa_request_profile = ''onspd'', pa_bounded_scope = JObj [(''area'', JStr ''SE1'')], pa_intent = ''refresh''\<rparr>"

definition demo_confirmed :: agent_db where
  "demo_confirmed = empty_agent_db\<lparr>ag_confirmations := [demo_confirmation]\<rparr>"

definition demo_approval :: agent_refresh_approval where
  "demo_approval = \<lparr>aa_approval_id = ''approval_1'', aa_refresh_request_id = ''req_1'', aa_principal = ''agent'',
     aa_capability_scope_id = ''scope'', aa_capability_id = ''refresh'', aa_manifest_version = ''1'', aa_profile_version = ''1'',
     aa_request_fingerprint = replicate 64 (CHR ''0''),
     aa_snapshot = \<lparr>sn_datasource_id = ''ons.onspd.postcode'', sn_request_profile = ''onspd'', sn_bounded_scope = [(''area'', [''SE1''])], sn_intent = ''refresh''\<rparr>,
     aa_issued_at = 0, aa_expires_at = 600000000\<rparr>"

definition demo_approved :: agent_db where
  "demo_approved = snd (create_agent_refresh_approval (demo_agent_env 1 (CHR ''0'')) demo_approval_args 1 ''approval_1'' demo_confirmed)"

definition demo_decided :: agent_db where
  "demo_decided = snd (decide_agent_refresh_approval (demo_agent_env 1 (CHR ''0'')) ''approval_1'' ''deny'' demo_host ''host'' 3 ''event_1'' demo_approved)"

lemma demo_confirmed_inv: "agent_inv demo_confirmed"
  by (simp add: demo_confirmed_def agent_inv_def empty_agent_db_def store_inv_empty refresh_inv_def refresh_state_of_def refresh_jobs_def
      approval_inv_def events_of_def decision_log_Nil) (simp add: empty_store_def)

lemmas approval_eval = create_agent_refresh_approval_def create_approval_checks_def demo_approval_args_def demo_host_def
  identity_checks_def require_refresh_identifier_def require_agent_approval_identifier_def require_refresh_digest_def bounded_identifier_def
  hex64_def list_all_iff agent_refresh_snapshot_def scope_values_def snapshot_fingerprint_def bind_approval_def
  demo_confirmation_def validate_approval_confirmation_def insert_approval_def bind_op_def return_op_def transaction_def
  demo_approval_def Let_def

definition demo_approval_row :: approval_row where
  "demo_approval_row = \<lparr>ap_approval_id = ''approval_1'', ap_refresh_request_id = ''req_1'', ap_principal = ''agent'',
     ap_capability_scope_id = ''scope'', ap_capability_id = ''refresh'', ap_manifest_version = ''1'', ap_profile_version = ''1'',
     ap_request_fingerprint = replicate 64 (CHR ''0''), ap_request_snapshot = snapshot_json (aa_snapshot demo_approval),
     ap_issued_at = 0, ap_expires_at = 600000000\<rparr>"

lemma demo_approved_run:
  "create_agent_refresh_approval (demo_agent_env 1 (CHR ''0'')) demo_approval_args 1 ''approval_1'' demo_confirmed =
     (Inr demo_approval, demo_approved)"
  "demo_approved = empty_agent_db\<lparr>ag_confirmations := [demo_confirmation], ag_approvals := [demo_approval_row]\<rparr>"
  by (simp_all add: demo_approved_def approval_eval demo_confirmed_def empty_agent_db_def demo_approval_row_def)

lemma demo_readback: "agent_refresh_approval_from_row (demo_agent_env 1 (CHR ''0'')) demo_approval_row = Inr demo_approval"
  by (simp add: agent_refresh_approval_from_row_def demo_approval_row_def stored_snapshot_def snapshot_json_def snapshot_keys_def
      approval_eval dict_get_def)

lemma demo_approval_row_keys [simp]: "ap_approval_id demo_approval_row = ''approval_1''" "ap_refresh_request_id demo_approval_row = ''req_1''"
  by (simp_all add: demo_approval_row_def)

lemma demo_recovered:
  "recover_agent_refresh_approval (demo_agent_env 1 (CHR ''0'')) ''approval_1'' demo_host 2 demo_approved = Inr (demo_approval, ''token'')"
  unfolding demo_approved_run(2)
  by (simp add: recover_agent_refresh_approval_def demo_readback approval_eval
      validate_agent_refresh_approval_def require_optional_refresh_confirmation_token_def)

lemma demo_decided_run:
  "decide_agent_refresh_approval (demo_agent_env 1 (CHR ''0'')) ''approval_1'' ''deny'' demo_host ''host'' 3 ''event_1'' demo_approved =
     (Inr \<lparr>ad_approval_id = ''approval_1'', ad_event_id = ''event_1'', ad_decision = ''deny'', ad_outcome = ''recorded'', ad_decided_at = 3\<rparr>,
      demo_decided)"
  "length (events_of ''approval_1'' demo_decided) = 1"
  by (simp_all add: demo_decided_def decide_agent_refresh_approval_def append_decision_def demo_readback approval_eval
        validate_agent_refresh_approval_def insert_approval_event_def demo_approved_run(2) prior_decision_def events_of_def empty_agent_db_def
        next_event_seq_def)

end
