(* ===== verification/AgentCorrect.thy ===== *)
theory AgentCorrect
  imports AgentDemo "HOL-Library.Multiset"
begin

text \<open>
  What the refresh ledger and the approvals guarantee, for every reachable store: one job per
  request, also across interrupted submissions; cooldowns and the daily budget are honoured; a
  replay answers as before; the confirmation token goes only to the host it was bound to, in time;
  decisions are final.
\<close>

section \<open>The registry after synchronisation\<close>

definition known_definition :: "definition_descriptor \<Rightarrow> unit store_op" where
  "known_definition d s = (if lookup_by dr_key (dd_key d) (s_definitions s) \<noteq> None then Inr () else Inl (OperationalError ''unknown''), s)"

lemma settles_weaken: "settles again z m \<Longrightarrow> settles (return_op y) y m"
  by (auto simp: settles_def return_op_def)

lemma settles_known: "settles (known_definition d) () (insert_definition sha d now)"
  unfolding settles_def
proof (intro allI impI, goal_cases)
  case (1 s a s1)
  obtain row where row: "lookup_by dr_key (dd_key d) (s_definitions s1) = Some row" "registry_grows s s1"
    using 1 by (auto simp: insert_definition_def lookup_by_append dr_key_def registry_grows_def split: option.splits if_splits)
  show ?case using row registry_keeps_lookup(2) [OF _ row(1)] by (auto simp: known_definition_def)
qed

lemma settles_known_definition: "settles (bind_op (known_definition d) (\<lambda>_. return_op ())) () (sync_definition sha now d)"
  unfolding sync_definition_def
  by (rule settles_bind [OF settles_known], rule settles_weaken, rule settles_bind [OF settles_each [OF settles_insert_binding]],
      rule settles_bind [OF settles_each [OF settles_insert_schedule] settles_return])

lemma each_known:
  "each_op (\<lambda>d. bind_op (known_definition d) (\<lambda>_. return_op ())) ds s = (Inr us, s') \<Longrightarrow> d \<in> set ds \<Longrightarrow>
     lookup_by dr_key (dd_key d) (s_definitions s) \<noteq> None"
  by (induction ds arbitrary: us)
    (auto simp: bind_op_def known_definition_def return_op_def split: sum.splits prod.splits if_splits)

lemma sync_definition_exists:
  assumes sync: "sync_registry sha reg now s = (Inr x, s')" and d: "registry_lookup reg i (Some v) = Inr d"
  shows "definition_exists s' i v"
proof -
  obtain srcs s1 defs where run: "each_op (\<lambda>src. insert_source sha src now) (rg_sources reg) s = (Inr srcs, s1)"
      "each_op (sync_definition sha now) (rg_definitions reg) s1 = (Inr defs, s')"
    using sync by (auto simp: sync_registry_def transaction_Inr bind_op_Inr return_op_def)
  have "settles (each_op (\<lambda>d. bind_op (known_definition d) (\<lambda>_. return_op ())) (rg_definitions reg))
      (replicate (length (rg_definitions reg)) ()) (each_op (sync_definition sha now) (rg_definitions reg))"
    by (rule settles_each) (rule settles_known_definition)
  then have "each_op (\<lambda>d. bind_op (known_definition d) (\<lambda>_. return_op ())) (rg_definitions reg) s' =
      (Inr (replicate (length (rg_definitions reg)) ()), s')"
    using run(2) registry_keeps_refl by (auto simp: settles_def)
  moreover have "d \<in> set (rg_definitions reg)" "dd_key d = (i, v)"
    using d by (auto simp: registry_lookup_def dest!: lookup_by_Some split: option.splits if_splits)
  ultimately show ?thesis using each_known by (fastforce simp: definition_exists_def)
qed

section \<open>What later commands keep\<close>

definition agent_appends :: "agent_db \<Rightarrow> agent_db \<Rightarrow> bool" where
  "agent_appends g g' \<longleftrightarrow> prefix (ag_requests g) (ag_requests g') \<and> prefix (ag_confirmations g) (ag_confirmations g') \<and>
     prefix (ag_approvals g) (ag_approvals g') \<and> prefix (ag_events g) (ag_events g')"

lemma agent_exec_appends:
  assumes "agent_admissible c g"
  shows "agent_appends g (agent_exec c g)"
proof -
  have submit: "agent_appends g g' \<and> agent_appends g (g'\<lparr>ag_requests := ag_requests g\<rparr>)"
    if "submit_agent_refresh G a clock ids g = (res, g')" "times_ok a" for G a clock ids res g'
    using submit_refines [OF that(2,1)] refresh_steps_grow [of G a "refresh_state_of g" "refresh_state_of g'"]
    by (simp add: submit_effect_def refresh_state_of_def agent_appends_def)
  show ?thesis
  proof (cases c)
    case (GApprove G a now i)
    obtain res g' where run: "create_agent_refresh_approval G a now i g = (res, g')" by fastforce
    then have "agent_appends g g'" by (cases rule: create_cases) (auto simp: agent_appends_def)
    then show ?thesis using GApprove run by simp
  next
    case (GDecide G i decision h actor now eid)
    obtain res g' where run: "decide_agent_refresh_approval G i decision h actor now eid g = (res, g')" by fastforce
    then have "agent_appends g g'" by (cases rule: decide_cases) (auto simp: agent_appends_def)
    then show ?thesis using GDecide run by simp
  next
    case (GSubmit G a clock ids)
    then show ?thesis using submit assms by (cases "submit_agent_refresh G a clock ids g") auto
  next
    case (GCut G a clock ids)
    then show ?thesis using submit assms by (cases "submit_agent_refresh G a clock ids g") auto
  qed (simp add: agent_appends_def)
qed

lemma reaches_agent_appends: "reaches agent_exec agent_admissible g cs g' \<Longrightarrow> agent_appends g g'"
proof (induction cs arbitrary: g)
  case (Cons c cs)
  then show ?case using agent_exec_appends [of c g] by (auto simp: agent_appends_def intro: prefix_order.trans)
qed (simp add: agent_appends_def)

lemma reachable_inv: "reaches agent_exec agent_admissible empty_agent_db cs g \<Longrightarrow> agent_inv g"
  by (rule la.reaches_inv [OF _ agent_inv_empty])

text \<open>A submission whose checks pass, on a synchronised registry, goes on with the request tables as they are.\<close>

lemma submit_synced:
  assumes "submit_checks a = None"
    and "sync_registry (en_sha (ge_env G)) (en_registry (ge_env G)) (ra_submitted_at a) (ag_store g) = (Inr y, s1)"
    and "registry_lookup (en_registry (ge_env G)) (ra_datasource_id a) (Some (ra_definition_version a)) = Inr d"
  shows "submit_agent_refresh G a clock ids g = submit_known G a d clock ids (g\<lparr>ag_store := s1\<rparr>)"
    and "refresh_state_of (g\<lparr>ag_store := s1\<rparr>) = refresh_state_of g" and "s_jobs s1 = s_jobs (ag_store g)"
proof -
  show "submit_agent_refresh G a clock ids g = submit_known G a d clock ids (g\<lparr>ag_store := s1\<rparr>)"
    using assms by (simp add: submit_agent_refresh_def bind_op_def on_jobs_def)
  show jobs: "s_jobs s1 = s_jobs (ag_store g)" using sync_registry_jobs [OF assms(2)] by simp
  then show "refresh_state_of (g\<lparr>ag_store := s1\<rparr>) = refresh_state_of g" by (simp add: refresh_state_of_def refresh_jobs_def)
qed

section \<open>Requests\<close>

text \<open>
  C3. A refresh request is bound to one job for good. In every reachable store, whatever submissions
  were cut short, no two refresh jobs were made for the same request, no request has two ledger rows,
  and every ledger row names an existing refresh job of its cohort: the job made for that very
  request, by the same principal with the same fingerprint, when the request was accepted, and
  otherwise a job whose cooldown was running when the request came.
\<close>

theorem refresh_requests_bound:
  assumes "reaches agent_exec agent_admissible empty_agent_db cs g" and "iso_ok G"
  defines "js \<equiv> filter agent_job (s_jobs (ag_store g))"
  shows "distinct (map j_request_instance_id js) \<and> distinct (map rq_request_id (ag_requests g)) \<and>
    (\<forall>r \<in> set (ag_requests g). \<exists>j \<in> set js. \<exists>c. refresh_control_of G (j_request j) = Inr c \<and>
       rq_job_id r = j_job_id j \<and> rq_dedupe_key r = rc_dedupe_key c \<and> rq_cooldown_until r = rc_cooldown_until c \<and>
       (if rq_disposition r = ''accepted''
        then j_request_instance_id j = Some (rq_request_id r) \<and> rq_principal r = rc_principal c \<and>
          rq_request_fingerprint r = rc_request_fingerprint c \<and> rq_submitted_at r = rc_submitted_at c
        else rq_disposition r = ''deduplicated'' \<and> rq_submitted_at r < rc_cooldown_until c))"
proof -
  have inv: "refresh_inv (refresh_state_of g)" using reachable_inv [OF assms(1)] by (simp add: agent_inv_def)
  have jobs: "rf_jobs (refresh_state_of g) = map refresh_job_of js"
    by (simp add: refresh_state_of_def refresh_jobs_def js_def)
  have "distinct (map j_request_instance_id js)" "distinct (map rq_request_id (ag_requests g))"
    using refresh_invD(2,3) [OF inv] by (simp_all add: jobs comp_def refresh_job_of_def, simp add: refresh_state_of_def)
  moreover have "\<exists>j \<in> set js. \<exists>c. refresh_control_of G (j_request j) = Inr c \<and>
       rq_job_id r = j_job_id j \<and> rq_dedupe_key r = rc_dedupe_key c \<and> rq_cooldown_until r = rc_cooldown_until c \<and>
       (if rq_disposition r = ''accepted''
        then j_request_instance_id j = Some (rq_request_id r) \<and> rq_principal r = rc_principal c \<and>
          rq_request_fingerprint r = rc_request_fingerprint c \<and> rq_submitted_at r = rc_submitted_at c
        else rq_disposition r = ''deduplicated'' \<and> rq_submitted_at r < rc_cooldown_until c)" if "r \<in> set (ag_requests g)" for r
  proof -
    have "bound_row (refresh_state_of g) r" using refresh_invD(7) [OF inv] that by (simp add: refresh_state_of_def)
    then obtain j c where j: "j \<in> set js" "carries c (refresh_job_of j)" "rq_job_id r = fj_job_id (refresh_job_of j)"
        "rq_dedupe_key r = rc_dedupe_key c" "rq_cooldown_until r = rc_cooldown_until c"
        "if rq_disposition r = ''accepted''
        then fj_request_id (refresh_job_of j) = Some (rq_request_id r) \<and> rq_principal r = rc_principal c \<and>
          rq_request_fingerprint r = rc_request_fingerprint c \<and> rq_submitted_at r = rc_submitted_at c
        else rq_disposition r = ''deduplicated'' \<and> rq_submitted_at r < rc_cooldown_until c"
      unfolding bound_row_def jobs by auto
    then show ?thesis using control_parses [OF assms(2) j(2)]
      by (intro bexI [of _ j] exI [of _ c]) auto
  qed
  ultimately show ?thesis by blast
qed

theorem refresh_requests_bound_witness:
  "distinct (map j_request_instance_id (filter agent_job (s_jobs (ag_store demo_first)))) \<and>
    (\<exists>j \<in> set (filter agent_job (s_jobs (ag_store demo_first))). rq_job_id (demo_row ''req_1'' 1 0 ''job_1'') = j_job_id j)"
proof -
  have "demo_row ''req_1'' 1 0 ''job_1'' \<in> set (ag_requests demo_first)" by (simp add: demo_first_run(3))
  then show ?thesis using refresh_requests_bound [OF demo_reaches(1) demo_iso, of 1 "CHR ''0''"] by blast
qed

text \<open>
  C7. Cooldowns hold: of two refresh jobs of one cohort, the later one was submitted no sooner than
  the cooldown of the earlier one ended, whatever was interrupted, replayed or confirmed in between.
\<close>

theorem refresh_cohort_spacing:
  assumes "reaches agent_exec agent_admissible empty_agent_db cs g" and "iso_ok G"
    and "filter agent_job (s_jobs (ag_store g)) = js @ j # js'" and "k \<in> set js'"
    and "refresh_control_of G (j_request j) = Inr c" and "refresh_control_of G (j_request k) = Inr d"
    and "rc_dedupe_key c = rc_dedupe_key d"
  shows "rc_cooldown_until c \<le> rc_submitted_at d \<and> rc_cooldown_until c \<le> j_created_at k"
proof -
  have inv: "refresh_inv (refresh_state_of g)" using reachable_inv [OF assms(1)] by (simp add: agent_inv_def)
  have jobs: "rf_jobs (refresh_state_of g) = map refresh_job_of js @ refresh_job_of j # map refresh_job_of js'"
    by (simp add: refresh_state_of_def refresh_jobs_def assms(3))
  have mem: "refresh_job_of j \<in> set (rf_jobs (refresh_state_of g))" "refresh_job_of k \<in> set (rf_jobs (refresh_state_of g))"
    using assms(4) by (auto simp: jobs)
  have car: "carries c (refresh_job_of j)" "carries d (refresh_job_of k)"
    using parsed_carries [OF inv assms(2) mem(1)] parsed_carries [OF inv assms(2) mem(2)] assms(5,6)
    by (simp_all add: refresh_job_of_def)
  have "rc_cooldown_until c \<le> rc_submitted_at d"
    using refresh_invD(6) [OF inv] car assms(4,7) unfolding jobs by (fastforce simp: sorted_wrt_append)
  moreover obtain d' where "carries d' (refresh_job_of k)" "fj_created_at (refresh_job_of k) = rc_submitted_at d'"
    using refresh_invD(5) [OF inv mem(2)] by blast
  ultimately show ?thesis using carries_unique [OF car(2)] by (auto simp: refresh_job_of_def)
qed

theorem refresh_cohort_spacing_witness:
  "rc_cooldown_until (new_refresh_control (demo_refresh ''req_1'' 1 0)) \<le> rc_submitted_at (new_refresh_control (demo_refresh ''req_2'' 2 300000000))"
proof -
  let ?j = "demo_job ''req_1'' 1 0 (CHR ''0'') ''job_1''" and ?k = "demo_job ''req_2'' 2 300000000 (CHR ''1'') ''job_2''"
  have jobs: "filter agent_job (s_jobs (ag_store demo_second)) = [] @ ?j # [?k]"
    by (simp add: demo_second_run(2) agent_job_def demo_job_fields)
  have later: "?k \<in> set [?k]" by simp
  have control: "refresh_control_of (demo_agent_env 1 (CHR ''0'')) (j_request ?j) = Inr (new_refresh_control (demo_refresh ''req_1'' 1 0))"
      "refresh_control_of (demo_agent_env 1 (CHR ''0'')) (j_request ?k) = Inr (new_refresh_control (demo_refresh ''req_2'' 2 300000000))"
    by (simp_all add: demo_control)
  have cohort: "rc_dedupe_key (new_refresh_control (demo_refresh ''req_1'' 1 0)) = rc_dedupe_key (new_refresh_control (demo_refresh ''req_2'' 2 300000000))"
    by (simp add: new_refresh_control_def)
  from refresh_cohort_spacing [OF demo_reaches(2) demo_iso jobs later control cohort] show ?thesis by simp
qed

text \<open>
  C17. A replay answers as before: once a submission has been given a job, every further submission
  under the same request identifier, at any later time and after any further commands, returns that
  very answer to the same principal for the same request, refuses every other principal and every
  other request, and creates no job, no ledger row and no confirmation.
\<close>

theorem refresh_replay:
  assumes first: "reaches agent_exec agent_admissible empty_agent_db cs g" "iso_ok G" "times_ok a"
      "submit_agent_refresh G a clock ids g = (Inr v, g')" "rr_job_id v \<noteq> None"
    and later: "reaches agent_exec agent_admissible g' cs' g''"
    and again: "ra_request_id b = ra_request_id a" "submit_checks b = None"
      "sync_registry (en_sha (ge_env G')) (en_registry (ge_env G')) (ra_submitted_at b) (ag_store g'') = (Inr y, s1)"
      "registry_lookup (en_registry (ge_env G')) (ra_datasource_id b) (Some (ra_definition_version b)) = Inr d"
  shows "submit_agent_refresh G' b clock' ids' g'' =
    (if ra_principal b \<noteq> ra_principal a then Inl (RefreshRequestAccessError ''request_instance_id belongs to another principal'')
     else if ra_request_fingerprint b \<noteq> ra_request_fingerprint a
     then Inl (RefreshRequestReplayError ''request_instance_id was reused for a different request'') else Inr v,
     g''\<lparr>ag_store := s1\<rparr>) \<and> s_jobs s1 = s_jobs (ag_store g'')"
proof -
  have inv: "agent_inv g" by (rule reachable_inv [OF first(1)])
  have inv': "agent_inv g'" using submit_keeps(1) [OF inv first(2,3)] first(4) by (metis snd_conv)
  have inv'': "agent_inv g''" by (rule la.reaches_inv [OF later inv'])
  have "answers a g' (Inr v)" using submit_refines [OF first(3,4)] by (simp add: submit_effect_def)
  then obtain r where r: "r \<in> set (ag_requests g')" "rq_request_id r = ra_request_id a" "rq_principal r = ra_principal a"
      "rq_request_fingerprint r = ra_request_fingerprint a" "v = result_of_row r"
    using first(5) by (auto simp: answers_def)
  have "r \<in> set (ag_requests g'')" using reaches_agent_appends [OF later] r(1) set_mono_prefix unfolding agent_appends_def by blast
  moreover have "distinct (map rq_request_id (ag_requests g''))"
    using inv'' refresh_invD(3) [of "refresh_state_of g''"] by (simp add: agent_inv_def refresh_state_of_def)
  ultimately have "lookup_by rq_request_id (ra_request_id b) (ag_requests g'') = Some r"
    using lookup_by_unique r(2) again(1) by metis
  then show ?thesis
    using submit_synced [OF again(2-4)] r again(1)
    by (simp add: submit_known_def validate_existing_refresh_request_def result_of_row_def)
qed

theorem refresh_replay_witness:
  "fst (submit_agent_refresh (demo_agent_env 1 (CHR ''0'')) (demo_refresh ''req_1'' 1 0) 0 (demo_refresh_ids ''job_9'' ''audit_9'') demo_first) =
     Inr (refresh_result_of (Some ''job_1'') ''accepted'' ''queued'' 0)"
proof -
  let ?G = "demo_agent_env 1 (CHR ''0'')" and ?a = "demo_refresh ''req_1'' 1 0"
  have start: "reaches agent_exec agent_admissible empty_agent_db [] empty_agent_db"
    and still: "reaches agent_exec agent_admissible demo_first [] demo_first" by simp_all
  have job: "rr_job_id (refresh_result_of (Some ''job_1'') ''accepted'' ''queued'' 0) \<noteq> None" by (simp add: refresh_result_of_def)
  obtain y where y: "sync_registry (en_sha (ge_env ?G)) (en_registry (ge_env ?G)) (ra_submitted_at ?a) (ag_store demo_first) = (Inr y, ag_store demo_first)"
    using demo_sync by blast
  have known: "registry_lookup (en_registry (ge_env ?G)) (ra_datasource_id ?a) (Some (ra_definition_version ?a)) = Inr (demo_definition 1)"
    using demo_known by simp
  have "submit_checks ?a = None" by (rule demo_checks) (simp add: bounded_identifier_def)
  from refresh_replay [OF start demo_iso demo_times(1) demo_first_run(1) job still refl this y known] show ?thesis by simp
qed

lemma filter_unique: "distinct (map f xs) \<Longrightarrow> x \<in> set xs \<Longrightarrow> filter (\<lambda>y. f y = f x) xs = [x]"
  by (induction xs) (auto simp: filter_empty_conv image_iff)

lemma refresh_job_found:
  assumes inv: "refresh_inv (refresh_state_of g)" and j: "j \<in> set (s_jobs (ag_store g))" "agent_job j"
    and i: "j_request_instance_id j = Some i"
  shows "refresh_job_by_request_id i (ag_store g) = Inr (Some j)"
proof -
  have "distinct (map j_request_instance_id (filter agent_job (s_jobs (ag_store g))))"
    using refresh_invD(2) [OF inv] by (simp add: refresh_state_of_def refresh_jobs_def comp_def refresh_job_of_def)
  then have "filter (\<lambda>y. j_request_instance_id y = j_request_instance_id j) (filter agent_job (s_jobs (ag_store g))) = [j]"
    by (rule filter_unique) (use j in simp)
  then show ?thesis by (simp add: refresh_job_by_request_id_def filter_filter i conj_commute)
qed



text \<open>
  C10. The daily budget holds: a submission creates a job for the ONSPD datasource only while fewer
  than twenty such jobs were created on the London day of its submission, or with the confirmation
  token that was issued earlier for this very request to the same principal, before it expires. In
  either case the request had no job before.
\<close>

theorem refresh_budget:
  assumes "times_ok a" and "submit_agent_refresh G a clock ids g = (res, g')"
    and "refresh_jobs (ag_store g') \<noteq> refresh_jobs (ag_store g)" and "ra_datasource_id a = ''ons.onspd.postcode''"
  shows "((\<exists>day_start day_end. london_day_window G (ra_submitted_at a) = Inr (day_start, day_end) \<and>
       length (onspd_jobs_between day_start day_end (ag_store g)) < 20) \<or>
     (\<exists>c \<in> set (ag_confirmations g). cf_request_id c = ra_request_id a \<and> cf_principal c = ra_principal a \<and>
        cf_request_fingerprint c = ra_request_fingerprint a \<and>
        ra_confirmation_token a = Some (cf_confirmation_token c) \<and> ra_submitted_at a < cf_expires_at c)) \<and>
    (\<forall>r \<in> set (s_jobs (ag_store g)). agent_job r \<longrightarrow> j_request_instance_id r \<noteq> Some (ra_request_id a))"
proof -
  have "job_added G a (refresh_state_of g) (refresh_state_of g')"
    using submit_refines [OF assms(1,2)] assms(3) by (auto simp: submit_effect_def refresh_state_of_def)
  then have "cleared G a (refresh_state_of g)" "Some (ra_request_id a) \<notin> fj_request_id ` set (refresh_jobs (ag_store g))"
    by (auto simp: job_added_def refresh_state_of_def)
  then show ?thesis
    using assms(4)
    by (auto simp: cleared_def within_budget_def confirmed_by_def onspd_refresh_datasource_id_def onspd_refresh_daily_limit_def
        onspd_day_jobs refresh_state_of_def refresh_jobs_def refresh_job_of_def image_iff)
qed

theorem refresh_budget_witness:
  "\<exists>day_start day_end. london_day_window (demo_agent_env 1 (CHR ''0'')) 0 = Inr (day_start, day_end) \<and>
     length (onspd_jobs_between day_start day_end (ag_store empty_agent_db)) < 20"
proof -
  have "refresh_jobs (ag_store demo_first) \<noteq> refresh_jobs (ag_store empty_agent_db)"
    by (simp add: refresh_jobs_def demo_first_run agent_job_def demo_job_fields empty_agent_db_def empty_store_def)
  from refresh_budget [OF demo_times(1) demo_first_run(1) this] show ?thesis by (simp add: empty_agent_db_def)
qed

section \<open>Approvals\<close>

subsection \<open>Snapshots read back\<close>

definition scope_ok :: "(string \<times> string list) list \<Rightarrow> bool" where
  "scope_ok sc \<longleftrightarrow> (\<forall>(k, vs) \<in> set sc. bounded_identifier k \<and> vs \<noteq> [] \<and> length vs \<le> 100 \<and> (\<forall>s \<in> set vs. s \<noteq> [] \<and> length s \<le> 256))"

lemma json_strings_map: "json_strings (map JStr vs) = Some vs"
  by (induction vs) auto

lemma normalized_scope_ok:
  "normalized_scope n kvs = Inr sc \<Longrightarrow> scope_ok sc \<and> length sc = length kvs \<and> (sc \<noteq> [] \<longrightarrow> n + sum_list (map (\<lambda>a. length (snd a)) sc) \<le> 100)"
proof (induction n kvs arbitrary: sc rule: normalized_scope.induct)
  case (2 n k v kvs)
  then obtain vs rest where p: "require_agent_approval_identifier ''approval scope key'' k = None" "scope_values v = Inr vs"
      "n + length vs \<le> 100" "normalized_scope (n + length vs) kvs = Inr rest" "sc = (k, vs) # rest"
    by (auto simp: not_less split: option.splits sum.splits if_splits)
  have "scope_ok rest \<and> length rest = length kvs \<and> (rest \<noteq> [] \<longrightarrow> n + length vs + sum_list (map (\<lambda>a. length (snd a)) rest) \<le> 100)"
    by (rule "2.IH") (use p in \<open>simp_all add: not_less\<close>)
  moreover have "bounded_identifier k" using p(1) by (simp add: require_agent_approval_identifier_def split: if_splits)
  moreover have "vs \<noteq> [] \<and> length vs \<le> 100 \<and> (\<forall>s \<in> set vs. s \<noteq> [] \<and> length s \<le> 256)"
    using p(2) by (auto simp: scope_values_def list_ex_iff not_less split: option.splits if_splits)
  ultimately show ?case using p(3,5) by (cases "rest = []") (auto simp: scope_ok_def)
qed (simp add: scope_ok_def)

lemma normalized_scope_again:
  "scope_ok sc \<Longrightarrow> n + sum_list (map (\<lambda>a. length (snd a)) sc) \<le> 100 \<Longrightarrow>
     normalized_scope n (map (\<lambda>(k, vs). (k, JList (map JStr vs))) sc) = Inr sc"
proof (induction sc arbitrary: n)
  case (Cons x sc)
  obtain k vs where x: "x = (k, vs)" by (cases x)
  have "scope_values (JList (map JStr vs)) = Inr vs"
    using Cons.prems(1) by (auto simp: scope_ok_def x scope_values_def json_strings_map list_ex_iff)
  then show ?case using Cons by (auto simp: x scope_ok_def require_agent_approval_identifier_def)
qed simp

lemma snapshot_roundtrip:
  assumes "agent_refresh_snapshot ds profile scope intent = Inr sn"
  shows "stored_snapshot (snapshot_json sn) = Inr sn"
proof -
  obtain kvs sc where p: "normalized_scope 0 kvs = Inr sc" "length kvs \<le> 100" "sn_bounded_scope sn = sort_key fst sc"
      "bounded_identifier (sn_datasource_id sn)" "bounded_identifier (sn_request_profile sn)"
      "sn_intent sn \<noteq> []" "length (sn_intent sn) \<le> 240"
    using assms
    by (auto simp: agent_refresh_snapshot_def not_less split: sum.splits json.splits if_splits option.splits elim!: approval_identifier.elims)
  note sc = normalized_scope_ok [OF p(1)]
  have "sum_mset (mset (map (\<lambda>a. length (snd a)) (sort_key fst sc))) = sum_mset (mset (map (\<lambda>a. length (snd a)) sc))"
    by simp
  then have "sum_list (map (\<lambda>a. length (snd a)) (sort_key fst sc)) = sum_list (map (\<lambda>a. length (snd a)) sc)"
    by (simp only: sum_mset_sum_list)
  moreover have "scope_ok (sort_key fst sc)" using sc by (simp add: scope_ok_def)
  moreover have "sum_list (map (\<lambda>a. length (snd a)) sc) \<le> 100" using sc by (cases "sc = []") auto
  ultimately have again: "normalized_scope 0 (map (\<lambda>(k, vs). (k, JList (map JStr vs))) (sort_key fst sc)) = Inr (sort_key fst sc)"
    by (intro normalized_scope_again) simp_all
  have keys: "fst ` set [(''datasource_id'', JStr (sn_datasource_id sn)), (''request_profile'', JStr (sn_request_profile sn)),
      (''bounded_scope'', JObj (map (\<lambda>(k, vs). (k, JList (map JStr vs))) (sn_bounded_scope sn))),
      (''intent'', JStr (sn_intent sn))] = snapshot_keys"
    by (simp add: snapshot_keys_def)
  have "agent_refresh_snapshot (JStr (sn_datasource_id sn)) (JStr (sn_request_profile sn))
      (JObj (map (\<lambda>(k, vs). (k, JList (map JStr vs))) (sn_bounded_scope sn))) (JStr (sn_intent sn)) = Inr sn"
    using p(2,4-7) sc again by (simp add: agent_refresh_snapshot_def p(3) sort_key_id_if_sorted)
  then show ?thesis using keys by (simp add: stored_snapshot_def snapshot_json_def dict_get_def)
qed

subsection \<open>Properties\<close>

text \<open>
  C9. The confirmation token reaches only the host it is bound to: \<open>recover_agent_refresh_approval\<close>
  returns a token only for a recorded approval whose principal, capability scope, capability, manifest
  and profile versions and request fingerprint are the caller's, while neither the approval nor the
  confirmation has expired; the token is the one issued to that principal for that request, and the
  snapshot it comes with has the caller's fingerprint.
\<close>

theorem approval_token_guarded:
  assumes "recover_agent_refresh_approval G i h now g = Inr (ap, token)"
  shows "\<exists>row \<in> set (ag_approvals g). \<exists>cf \<in> set (ag_confirmations g).
    ap_approval_id row = i \<and> ap_principal row = hi_principal h \<and> ap_capability_scope_id row = hi_capability_scope_id h \<and>
    ap_capability_id row = hi_capability_id h \<and> ap_manifest_version row = hi_manifest_version h \<and>
    ap_profile_version row = hi_profile_version h \<and> ap_request_fingerprint row = hi_request_fingerprint h \<and>
    now < ap_expires_at row \<and> cf_request_id cf = ap_refresh_request_id row \<and> cf_principal cf = hi_principal h \<and>
    cf_request_fingerprint cf = hi_request_fingerprint h \<and> cf_expires_at cf = ap_expires_at row \<and>
    token = cf_confirmation_token cf \<and> cf_datasource_id cf = sn_datasource_id (aa_snapshot ap) \<and>
    snapshot_fingerprint (en_sha (ge_env G)) (aa_snapshot ap) = hi_request_fingerprint h"
proof -
  obtain row cf where row: "lookup_by ap_approval_id i (ag_approvals g) = Some row"
      "lookup_by cf_request_id (ap_refresh_request_id row) (ag_confirmations g) = Some cf"
      "agent_refresh_approval_from_row G row = Inr ap" "validate_agent_refresh_approval ap h now = None"
      "validate_approval_confirmation cf (aa_principal ap) (aa_request_fingerprint ap) (sn_datasource_id (aa_snapshot ap)) now = None"
      "cf_expires_at cf = aa_expires_at ap" "token = cf_confirmation_token cf"
    using assms
    by (auto simp: recover_agent_refresh_approval_def split: option.splits sum.splits if_splits) (auto simp: first_failure_None)
  have ap: "aa_principal ap = ap_principal row" "aa_capability_scope_id ap = ap_capability_scope_id row"
      "aa_capability_id ap = ap_capability_id row" "aa_manifest_version ap = ap_manifest_version row"
      "aa_profile_version ap = ap_profile_version row" "aa_request_fingerprint ap = ap_request_fingerprint row"
      "aa_expires_at ap = ap_expires_at row" "snapshot_fingerprint (en_sha (ge_env G)) (aa_snapshot ap) = ap_request_fingerprint row"
    using row(3) by (auto simp: agent_refresh_approval_from_row_def split: sum.splits option.splits if_splits)
  show ?thesis
    using lookup_by_Some [OF row(1)] lookup_by_Some [OF row(2)] row(4-7) ap
    by (intro bexI [of _ row] bexI [of _ cf])
      (auto simp: validate_agent_refresh_approval_def validate_approval_confirmation_def not_le split: if_splits)
qed

theorem approval_token_guarded_witness:
  "\<exists>row \<in> set (ag_approvals demo_approved). ap_capability_scope_id row = ''scope'' \<and> 2 < ap_expires_at row"
  using approval_token_guarded [OF demo_recovered] by (auto simp: demo_host_def)

text \<open>
  C27. An approval survives a restart: when \<open>create_agent_refresh_approval\<close> makes a new approval, what it
  returned is what \<open>recover_agent_refresh_approval\<close> rebuilds from the stored rows for the same host at
  any later time before it expires, after any further commands, together with the token of the
  request's confirmation.
\<close>

theorem approval_roundtrip:
  assumes inv: "agent_inv g" and made: "create_agent_refresh_approval G a now i g = (Inr ap, g')"
    and fresh: "pa_refresh_request_id a \<notin> ap_refresh_request_id ` set (ag_approvals g)"
    and later: "reaches agent_exec agent_admissible g' cs g''" and live: "now' < aa_expires_at ap"
    and ids: "bounded_identifier i" "\<forall>c \<in> set (ag_confirmations g). bounded_identifier (cf_confirmation_token c)"
  shows "\<exists>c \<in> set (ag_confirmations g). cf_request_id c = pa_refresh_request_id a \<and>
    recover_agent_refresh_approval G (aa_approval_id ap) (pa_identity a) now' g'' = Inr (ap, cf_confirmation_token c)"
proof -
  let ?h = "pa_identity a"
  obtain sn where sn: "create_approval_checks (en_sha (ge_env G)) a = Inr sn" "bind_approval G a sn now i g = (Inr ap, g')"
    using made by (auto simp: create_agent_refresh_approval_def raise_op_def transaction_Inr split: sum.splits)
  have checks: "first_failure (identity_checks ?h) = None" "bounded_identifier (pa_refresh_request_id a)"
      "agent_refresh_snapshot (JStr (pa_datasource_id a)) (JStr (pa_request_profile a)) (pa_bounded_scope a) (JStr (pa_intent a)) = Inr sn"
      "snapshot_fingerprint (en_sha (ge_env G)) sn = hi_request_fingerprint ?h"
    using sn(1) by (auto simp: create_approval_checks_def require_refresh_identifier_def split: option.splits sum.splits if_splits)
  have ds: "sn_datasource_id sn = pa_datasource_id a"
    using checks(3) by (auto simp: agent_refresh_snapshot_def split: sum.splits json.splits if_splits option.splits)
  obtain c where c: "lookup_by cf_request_id (pa_refresh_request_id a) (ag_confirmations g) = Some c"
      "validate_approval_confirmation c (hi_principal ?h) (hi_request_fingerprint ?h) (pa_datasource_id a) now = None"
    using sn(2) by (auto simp: bind_approval_def Let_def split: option.splits)
  have none: "lookup_by ap_refresh_request_id (pa_refresh_request_id a) (ag_approvals g) = None"
    using fresh by (simp add: lookup_by_None_iff)
  let ?r = "\<lparr>ap_approval_id = i, ap_refresh_request_id = pa_refresh_request_id a,
      ap_principal = hi_principal ?h, ap_capability_scope_id = hi_capability_scope_id ?h,
      ap_capability_id = hi_capability_id ?h, ap_manifest_version = hi_manifest_version ?h,
      ap_profile_version = hi_profile_version ?h, ap_request_fingerprint = hi_request_fingerprint ?h,
      ap_request_snapshot = snapshot_json sn, ap_issued_at = cf_issued_at c, ap_expires_at = cf_expires_at c\<rparr>"
  have new: "?r \<in> set (ag_approvals g')" and ap: "ap = \<lparr>aa_approval_id = i, aa_refresh_request_id = pa_refresh_request_id a,
      aa_principal = hi_principal ?h, aa_capability_scope_id = hi_capability_scope_id ?h,
      aa_capability_id = hi_capability_id ?h, aa_manifest_version = hi_manifest_version ?h,
      aa_profile_version = hi_profile_version ?h, aa_request_fingerprint = hi_request_fingerprint ?h,
      aa_snapshot = sn, aa_issued_at = cf_issued_at c, aa_expires_at = cf_expires_at c\<rparr>"
    using sn(2) c none by (auto simp: bind_approval_def Let_def bind_op_Inr return_op_def insert_approval_def split: if_splits)
  have app: "agent_appends g g'" "agent_appends g' g''"
    using agent_exec_appends [of "GApprove G a now i" g] made reaches_agent_appends [OF later] by simp_all
  have inv'': "agent_inv g''"
    using la.reaches_inv [OF later] agent_exec_inv [OF inv, of "GApprove G a now i"] made by simp
  have row: "lookup_by ap_approval_id i (ag_approvals g'') = Some ?r"
  proof -
    have "?r \<in> set (ag_approvals g'')" using new app(2) set_mono_prefix unfolding agent_appends_def by blast
    moreover have "distinct (map ap_approval_id (ag_approvals g''))" using inv'' by (simp add: agent_inv_def approval_inv_def)
    ultimately show ?thesis using lookup_by_unique [of ap_approval_id "ag_approvals g''" ?r] by simp
  qed
  have conf: "lookup_by cf_request_id (pa_refresh_request_id a) (ag_confirmations g'') = Some c"
  proof -
    have "c \<in> set (ag_confirmations g'')"
      using lookup_by_Some [OF c(1)] app set_mono_prefix unfolding agent_appends_def by blast
    moreover have "distinct (map cf_request_id (ag_confirmations g''))"
      using inv'' refresh_invD(4) [of "refresh_state_of g''"] by (simp add: agent_inv_def refresh_state_of_def)
    ultimately show ?thesis using lookup_by_unique [of cf_request_id "ag_confirmations g''" c] lookup_by_Some [OF c(1)] by simp
  qed
  have "agent_refresh_approval_from_row G ?r = Inr ap"
    using checks ids(1) snapshot_roundtrip [OF checks(3)]
    by (simp add: agent_refresh_approval_from_row_def ap first_failure_None identity_checks_def
        require_agent_approval_identifier_def require_refresh_identifier_def)
  moreover have "validate_agent_refresh_approval ap ?h now' = None"
    "validate_approval_confirmation c (aa_principal ap) (aa_request_fingerprint ap) (sn_datasource_id (aa_snapshot ap)) now' = None"
    using c(2) live ds by (auto simp: ap validate_agent_refresh_approval_def validate_approval_confirmation_def split: if_splits)
  moreover have "require_optional_refresh_confirmation_token (Some (cf_confirmation_token c)) = None"
    using ids(2) lookup_by_Some [OF c(1)] by (simp add: require_optional_refresh_confirmation_token_def)
  ultimately have "recover_agent_refresh_approval G i ?h now' g'' = Inr (ap, cf_confirmation_token c)"
    using row conf checks(1) ids(1)
    by (simp add: recover_agent_refresh_approval_def require_agent_approval_identifier_def ap)
  then show ?thesis using lookup_by_Some [OF c(1)] by (intro bexI [of _ c]) (simp_all add: ap)
qed

theorem approval_roundtrip_witness:
  "recover_agent_refresh_approval (demo_agent_env 1 (CHR ''0'')) ''approval_1'' demo_host 2 demo_decided = Inr (demo_approval, ''token'')"
proof -
  have fresh: "pa_refresh_request_id demo_approval_args \<notin> ap_refresh_request_id ` set (ag_approvals demo_confirmed)"
      "bounded_identifier ''approval_1''" "\<forall>c \<in> set (ag_confirmations demo_confirmed). bounded_identifier (cf_confirmation_token c)"
    by (simp_all add: demo_confirmed_def empty_agent_db_def bounded_identifier_def demo_confirmation_def)
  have later: "reaches agent_exec agent_admissible demo_approved
      [GDecide (demo_agent_env 1 (CHR ''0'')) ''approval_1'' ''deny'' demo_host ''host'' 3 ''event_1''] demo_decided"
    by (simp add: demo_decided_def)
  have live: "2 < aa_expires_at demo_approval" by (simp add: demo_approval_def)
  from approval_roundtrip [OF demo_confirmed_inv demo_approved_run(1) fresh(1) later live fresh(2,3)] show ?thesis
    by (simp add: demo_confirmed_def empty_agent_db_def demo_approval_def demo_approval_args_def demo_confirmation_def)
qed

text \<open>
  C24. A decision is final: once a host has decided an approval, its log holds exactly one decision,
  numbered 1, every later entry replays it under the next number, and a contradicting decision, by
  whatever host and at whatever time, raises and changes nothing.
\<close>

theorem approval_decision_final:
  assumes inv: "agent_inv g" and first: "decide_agent_refresh_approval G i decision h actor now eid g = (Inr x, g')"
    and later: "reaches agent_exec agent_admissible g' cs g''" and other: "decision' \<noteq> decision"
  shows "map av_event_seq (events_of i g'') = map int [1..<Suc (length (events_of i g''))] \<and>
    map av_event_type (events_of i g'') = ''decision'' # replicate (length (events_of i g'') - 1) ''replay'' \<and>
    (\<forall>e \<in> set (events_of i g''). av_decision e = decision) \<and>
    (\<exists>e. decide_agent_refresh_approval G' i decision' h' actor' now' eid' g'' = (Inl e, g''))"
proof -
  have inv': "agent_inv g'" using agent_exec_inv [OF inv, of "GDecide G i decision h actor now eid"] first by simp
  have inv'': "agent_inv g''" by (rule la.reaches_inv [OF later inv'])
  obtain r where r: "r \<in> set (events_of i g')" "av_decision r = decision"
    using first by (cases rule: decide_cases) (auto simp: events_of_def)
  have mem: "r \<in> set (events_of i g'')"
    using r(1) reaches_agent_appends [OF later] set_mono_prefix unfolding agent_appends_def events_of_def by fastforce
  have log: "decision_log (events_of i g'')" using inv'' by (simp add: agent_inv_def approval_inv_def)
  then have all: "\<forall>e \<in> set (events_of i g''). av_decision e = decision"
    using mem r(2) unfolding decision_log_def by metis
  have ne: "events_of i g'' \<noteq> []" using mem by auto
  have prior: "prior_decision i g'' = Some decision" using prior_decision_hd [OF log] ne all by simp
  obtain res g3 where run: "decide_agent_refresh_approval G' i decision' h' actor' now' eid' g'' = (res, g3)" by fastforce
  then have "\<exists>e. res = Inl e \<and> g3 = g''" by (cases rule: decide_cases) (use prior other in auto)
  then show ?thesis using run log all ne by (auto simp: decision_log_def neq_Nil_conv)
qed

theorem approval_decision_final_witness:
  "map av_event_seq (events_of ''approval_1'' demo_decided) = [1] \<and>
    (\<exists>e. decide_agent_refresh_approval (demo_agent_env 1 (CHR ''0'')) ''approval_1'' ''approve'' demo_host ''host'' 4 ''event_2'' demo_decided = (Inl e, demo_decided))"
proof -
  have inv: "agent_inv demo_approved"
    using agent_exec_inv [OF demo_confirmed_inv, of "GApprove (demo_agent_env 1 (CHR ''0'')) demo_approval_args 1 ''approval_1''"] demo_approved_run(1) by simp
  have still: "reaches agent_exec agent_admissible demo_decided [] demo_decided" by simp
  have other: "''approve'' \<noteq> ''deny''" by simp
  show ?thesis
    using approval_decision_final [OF inv demo_decided_run(1) still other] by (simp add: demo_decided_run(2))
qed

end
