(* ===== verification/RefreshContracts.thy ===== *)
theory RefreshContracts
  imports AgentApproval
begin

text \<open>
  The refresh contracts (\<open>refresh_api/contracts.py\<close>): the public request, the host's context, the
  approved profiles, what crosses the boundary to a backend and comes back, each with the checks of
  its constructor, and the in-memory backend. A datetime argument is naive or an instant (what
  \<open>normalise_utc\<close> makes of an aware one); a scope is a mapping with string keys, and a tuple of
  strings is a list.
\<close>

section \<open>Errors and shared checks\<close>

text \<open>\<open>BackendError\<close> carries an exception of the store that no layer catches.\<close>

datatype broker_error =
    InvalidRefreshRequest string
  | RefreshAccessDenied string
  | BrokerValueError string
  | BrokerOverflowError
  | BackendError agent_error

datatype refresh_disposition = ACCEPTED | DEDUPLICATED | ALREADY_FRESH | CONFIRMATION_REQUIRED

text \<open>\<open>RefreshDisposition(text)\<close>\<close>

definition refresh_disposition_of :: "string \<Rightarrow> broker_error + refresh_disposition" where
  "refresh_disposition_of v =
     (if v = ''accepted'' then Inr ACCEPTED
      else if v = ''deduplicated'' then Inr DEDUPLICATED
      else if v = ''already_fresh'' then Inr ALREADY_FRESH
      else if v = ''confirmation_required'' then Inr CONFIRMATION_REQUIRED
      else Inl (BrokerValueError (repr_string v @ '' is not a valid RefreshDisposition'')))"

datatype stamp = Naive | Aware instant

fun normalise_utc :: "stamp \<Rightarrow> broker_error + instant" where
  "normalise_utc Naive = Inl (InvalidRefreshRequest ''timestamps must be timezone-aware'')"
| "normalise_utc (Aware t) = Inr t"

definition blank :: "string \<Rightarrow> bool" where
  "blank v \<longleftrightarrow> v = [] \<or> strip v = []"

definition post_init :: "broker_error option list \<Rightarrow> 'a \<Rightarrow> broker_error + 'a" where
  "post_init checks x = (case first_failure checks of Some e \<Rightarrow> Inl e | None \<Rightarrow> Inr x)"

definition check :: "bool \<Rightarrow> broker_error \<Rightarrow> broker_error option" where
  "check bad e = (if bad then Some e else None)"

fun normalise_scope :: "(string \<times> json) list \<Rightarrow> broker_error + (string \<times> string list) list" where
  "normalise_scope [] = Inr []"
| "normalise_scope ((key, v) # scope) =
     (if key = [] then Inl (InvalidRefreshRequest ''scope keys must be non-empty strings'')
      else case (case v of JStr s \<Rightarrow> Some [s] | JList js \<Rightarrow> json_strings js | _ \<Rightarrow> None) of
        None \<Rightarrow> Inl (InvalidRefreshRequest (''scope '' @ repr_string key @ '' must contain strings''))
      | Some vs \<Rightarrow>
          if vs = [] \<or> list_ex (\<lambda>s. s = []) vs
          then Inl (InvalidRefreshRequest (''scope '' @ repr_string key @ '' must not be empty''))
          else if list_ex (\<lambda>s. 256 < length s) vs
          then Inl (InvalidRefreshRequest (''scope '' @ repr_string key @ '' contains an overlong value''))
          else (case normalise_scope scope of Inl e \<Rightarrow> Inl e | Inr rest \<Rightarrow> Inr ((key, vs) # rest)))"

section \<open>Context, request and profile\<close>

record refresh_context =
  rx_principal :: string
  rx_request_instance_id :: string
  rx_allowed_profiles :: "string set"

definition refresh_context_init :: "refresh_context \<Rightarrow> broker_error + refresh_context" where
  "refresh_context_init c = post_init
     [check (blank (rx_principal c)) (BrokerValueError ''RefreshContext.principal must be non-empty''),
      check (256 < length (rx_principal c)) (BrokerValueError ''RefreshContext.principal must be at most 256 characters''),
      check (blank (rx_request_instance_id c)) (BrokerValueError ''RefreshContext.request_instance_id must be non-empty''),
      check (256 < length (rx_request_instance_id c))
        (BrokerValueError ''RefreshContext.request_instance_id must be at most 256 characters''),
      check (rx_allowed_profiles c = {} \<or> (\<exists>p \<in> rx_allowed_profiles c. blank p))
        (BrokerValueError ''RefreshContext.allowed_profiles must be non-empty'')] c"

record refresh_request =
  qt_datasource_id :: string
  qt_request_profile :: string
  qt_bounded_scope :: "(string \<times> string list) list"
  qt_intent :: string
  qt_confirmation_token :: "string option"

definition token_check :: "string option \<Rightarrow> broker_error option" where
  "token_check token = check (case token of None \<Rightarrow> False | Some t \<Rightarrow> t = [] \<or> 256 < length t)
     (InvalidRefreshRequest ''confirmation_token must be a non-empty string'')"

definition refresh_request_init ::
  "string \<Rightarrow> string \<Rightarrow> (string \<times> json) list \<Rightarrow> string \<Rightarrow> string option \<Rightarrow> broker_error + refresh_request" where
  "refresh_request_init datasource_id request_profile bounded_scope intent token =
     (case first_failure
        [check (blank datasource_id) (InvalidRefreshRequest ''datasource_id must be non-empty''),
         check (blank request_profile) (InvalidRefreshRequest ''request_profile must be non-empty''),
         check (intent = [] \<or> 240 < length intent) (InvalidRefreshRequest ''intent must be between 1 and 240 characters''),
         token_check token] of
        Some e \<Rightarrow> Inl e
      | None \<Rightarrow>
          (case normalise_scope bounded_scope of
             Inl e \<Rightarrow> Inl e
           | Inr sc \<Rightarrow> Inr \<lparr>qt_datasource_id = datasource_id, qt_request_profile = request_profile,
               qt_bounded_scope = sc, qt_intent = intent, qt_confirmation_token = token\<rparr>))"

record refresh_profile =
  pf_profile_id :: string
  pf_datasource_id :: string
  pf_definition_version :: int
  pf_effective_lane :: string
  pf_allowed_scope_keys :: "string set"
  pf_required_scope_keys :: "string set"
  pf_single_value_scope_keys :: "string set"
  pf_max_scope_values :: int
  pf_cooldown :: duration
  pf_poll_after :: duration
  pf_promotion_policy :: string

definition refresh_profile_init :: "refresh_profile \<Rightarrow> broker_error + refresh_profile" where
  "refresh_profile_init p = post_init
     [check (pf_profile_id p = [] \<or> pf_datasource_id p = []) (BrokerValueError ''profile_id and datasource_id must be non-empty''),
      check (pf_definition_version p < 1) (BrokerValueError ''definition_version must be positive''),
      check (pf_effective_lane p \<notin> lanes) (BrokerValueError ''effective_lane is not valid''),
      check (\<exists>k \<in> pf_allowed_scope_keys p. blank k) (BrokerValueError ''allowed scope keys must be non-empty''),
      check (\<not> pf_required_scope_keys p \<subseteq> pf_allowed_scope_keys p) (BrokerValueError ''required scope keys must be allowed''),
      check (\<not> pf_single_value_scope_keys p \<subseteq> pf_allowed_scope_keys p)
        (BrokerValueError ''single-value scope keys must be allowed''),
      check (\<not> (1 \<le> pf_max_scope_values p \<and> pf_max_scope_values p \<le> 100))
        (BrokerValueError ''max_scope_values must be between 1 and 100''),
      check (pf_cooldown p < 0) (BrokerValueError ''cooldown must not be negative''),
      check (pf_poll_after p \<le> 0) (BrokerValueError ''poll_after must be positive'')] p"

section \<open>Across the backend boundary\<close>

record refresh_submission =
  su_request_id :: string
  su_dedupe_key :: string
  su_principal :: string
  su_datasource_id :: string
  su_definition_version :: int
  su_request_profile :: string
  su_effective_lane :: string
  su_bounded_scope :: "(string \<times> string list) list"
  su_intent :: string
  su_submitted_at :: instant
  su_promotion_policy :: string
  su_request_fingerprint :: string
  su_cooldown_until :: instant
  su_confirmation_token :: "string option"

definition refresh_submission_init :: "refresh_submission \<Rightarrow> broker_error + refresh_submission" where
  "refresh_submission_init q = post_init
     (map (\<lambda>(name, v). check (v = []) (InvalidRefreshRequest (name @ '' must be a non-empty string'')))
        [(''request_id'', su_request_id q), (''principal'', su_principal q), (''dedupe_key'', su_dedupe_key q),
         (''request_fingerprint'', su_request_fingerprint q)] @
      map (\<lambda>(name, v). check (\<not> hex64 v) (InvalidRefreshRequest (name @ '' must be a SHA-256 hex digest'')))
        [(''dedupe_key'', su_dedupe_key q), (''request_fingerprint'', su_request_fingerprint q)] @
      [check (su_cooldown_until q < su_submitted_at q) (InvalidRefreshRequest ''cooldown_until must not precede submitted_at''),
       token_check (su_confirmation_token q)]) q"

record backend_result =
  bs_disposition :: refresh_disposition
  bs_job_id :: "string option"
  bs_initial_state :: string
  bs_canonical_anchor :: "instant option"
  bs_submitted_at :: "instant option"
  bs_confirmation_token :: "string option"
  bs_confirmation_expires_at :: "instant option"

definition backend_result_init :: "backend_result \<Rightarrow> broker_error + backend_result" where
  "backend_result_init r = post_init
     [check (bs_disposition r \<notin> {ALREADY_FRESH, CONFIRMATION_REQUIRED} \<and> bs_job_id r \<in> {None, Some []})
        (BrokerValueError ''a queued refresh result requires a job_id''),
      (if bs_disposition r = CONFIRMATION_REQUIRED
       then first_failure
         [check (bs_job_id r \<noteq> None) (BrokerValueError ''a confirmation-required result must not have a job_id''),
          check (bs_confirmation_token r \<in> {None, Some []} \<or> bs_confirmation_expires_at r = None)
            (BrokerValueError ''a confirmation-required result needs confirmation details'')]
       else check (bs_confirmation_token r \<noteq> None \<or> bs_confirmation_expires_at r \<noteq> None)
         (BrokerValueError ''confirmation details require confirmation_required''))] r"

record refresh_acknowledgement =
  ak_schema_version :: string
  ak_request_id :: string
  ak_job_id :: "string option"
  ak_disposition :: refresh_disposition
  ak_effective_lane :: string
  ak_initial_state :: string
  ak_submitted_at :: instant
  ak_poll_after :: duration
  ak_canonical_anchor :: "instant option"
  ak_confirmation_token :: "string option"
  ak_confirmation_expires_at :: "instant option"

definition acknowledgement_init :: "refresh_acknowledgement \<Rightarrow> broker_error + refresh_acknowledgement" where
  "acknowledgement_init k = post_init
     [(if ak_disposition k = CONFIRMATION_REQUIRED
       then first_failure
         [check (ak_job_id k \<noteq> None) (BrokerValueError ''a confirmation-required acknowledgement must not have a job_id''),
          check (ak_confirmation_token k \<in> {None, Some []} \<or> ak_confirmation_expires_at k = None)
            (BrokerValueError ''a confirmation-required acknowledgement needs confirmation details'')]
       else check (ak_confirmation_token k \<noteq> None \<or> ak_confirmation_expires_at k \<noteq> None)
         (BrokerValueError ''confirmation details require confirmation_required'')),
      check (case ak_confirmation_expires_at k of None \<Rightarrow> False | Some t \<Rightarrow> t \<le> ak_submitted_at k)
        (BrokerValueError ''confirmation expiry must follow submission'')] k"

record refresh_status =
  fs_schema_version :: string
  fs_job_id :: string
  fs_job_state :: string
  fs_latest_attempt_status :: "string option"
  fs_retry_after :: "duration option"
  fs_terminal_run_id :: "string option"
  fs_terminal_error :: "(string \<times> json) list option"
  fs_promotion_status :: "string option"
  fs_canonical_changed :: "bool option"
  fs_result_ref :: "string option"
  fs_observation_ids :: "string list"
  fs_evidence_ids :: "string list"
  fs_datasource_health :: "(string \<times> json) list"

definition refresh_status_init :: "refresh_status \<Rightarrow> broker_error + refresh_status" where
  "refresh_status_init st = post_init
     [check (fs_job_id st = []) (BrokerValueError ''job_id must be non-empty''),
      check (case fs_retry_after st of None \<Rightarrow> False | Some d \<Rightarrow> d < 0) (BrokerValueError ''retry_after must not be negative''),
      check ([] \<in> set (fs_observation_ids st @ fs_evidence_ids st)) (BrokerValueError ''lineage IDs must be non-empty'')] st"

definition refresh_schema_version :: string where
  "refresh_schema_version = ''refresh_api.v1''"

text \<open>A status with the defaults of the optional fields.\<close>

definition plain_status :: "string \<Rightarrow> string \<Rightarrow> refresh_status" where
  "plain_status job_id state = \<lparr>fs_schema_version = refresh_schema_version, fs_job_id = job_id, fs_job_state = state,
     fs_latest_attempt_status = None, fs_retry_after = None, fs_terminal_run_id = None, fs_terminal_error = None,
     fs_promotion_status = None, fs_canonical_changed = None, fs_result_ref = None, fs_observation_ids = [],
     fs_evidence_ids = [], fs_datasource_health = []\<rparr>"

section \<open>The in-memory backend\<close>

record memory_backend =
  mb_status_by_job :: "string \<rightharpoonup> refresh_status"
  mb_requests :: "string \<rightharpoonup> string \<times> string \<times> backend_result"
  mb_dedupe :: "string \<rightharpoonup> instant \<times> backend_result"
  mb_job_principals :: "string \<rightharpoonup> string set"
  mb_counter :: int

definition empty_memory_backend :: memory_backend where
  "empty_memory_backend = \<lparr>mb_status_by_job = Map.empty, mb_requests = Map.empty, mb_dedupe = Map.empty,
     mb_job_principals = Map.empty, mb_counter = 0\<rparr>"

definition queued_result :: "refresh_disposition \<Rightarrow> string option \<Rightarrow> string \<Rightarrow> instant option \<Rightarrow> instant \<Rightarrow> backend_result" where
  "queued_result disposition job_id initial_state anchor submitted_at =
     \<lparr>bs_disposition = disposition, bs_job_id = job_id, bs_initial_state = initial_state, bs_canonical_anchor = anchor,
      bs_submitted_at = Some submitted_at, bs_confirmation_token = None, bs_confirmation_expires_at = None\<rparr>"

text \<open>The end of \<open>submit\<close>: the answer is kept under the request and shown to its principal.\<close>

definition memory_remember :: "refresh_submission \<Rightarrow> backend_result \<Rightarrow> memory_backend \<Rightarrow> memory_backend" where
  "memory_remember q r b =
     (let b1 = b\<lparr>mb_requests := (mb_requests b)(su_request_id q \<mapsto> (su_principal q, su_request_fingerprint q, r))\<rparr>
      in case bs_job_id r of
           None \<Rightarrow> b1
         | Some j \<Rightarrow> b1\<lparr>mb_job_principals := (mb_job_principals b1)(j \<mapsto>
             insert (su_principal q) (case mb_job_principals b1 j of None \<Rightarrow> {} | Some ps \<Rightarrow> ps))\<rparr>)"

definition memory_accept :: "refresh_submission \<Rightarrow> memory_backend \<Rightarrow> (broker_error + backend_result) \<times> memory_backend" where
  "memory_accept q b =
     (let b1 = b\<lparr>mb_counter := mb_counter b + 1\<rparr>;
          job_id = ''job_in_memory_'' @ int_text (mb_counter b1)
      in case backend_result_init (queued_result ACCEPTED (Some job_id) ''queued'' None (su_submitted_at q)) of
           Inl e \<Rightarrow> (Inl e, b1)
         | Inr r \<Rightarrow>
        (case refresh_status_init (plain_status job_id ''queued'') of
           Inl e \<Rightarrow> (Inl e, b1)
         | Inr st \<Rightarrow> (Inr r, memory_remember q r
             (b1\<lparr>mb_status_by_job := (mb_status_by_job b1)(job_id \<mapsto> st),
                mb_dedupe := (mb_dedupe b1)(su_dedupe_key q \<mapsto> (su_cooldown_until q, r))\<rparr>))))"

definition memory_submit :: "refresh_submission \<Rightarrow> memory_backend \<Rightarrow> (broker_error + backend_result) \<times> memory_backend" where
  "memory_submit q b =
     (case mb_requests b (su_request_id q) of
        Some (caller, fingerprint, r) \<Rightarrow>
          if caller \<noteq> su_principal q then (Inl (RefreshAccessDenied ''request_instance_id belongs to another principal''), b)
          else if fingerprint \<noteq> su_request_fingerprint q
          then (Inl (InvalidRefreshRequest ''request_instance_id was reused for a different request''), b)
          else (Inr r, b)
      | None \<Rightarrow>
          (case mb_dedupe b (su_dedupe_key q) of
             Some (cooldown, prior) \<Rightarrow>
               if su_submitted_at q < cooldown
               then (case backend_result_init (queued_result DEDUPLICATED (bs_job_id prior) (bs_initial_state prior)
                       (bs_canonical_anchor prior) (su_submitted_at q)) of
                       Inl e \<Rightarrow> (Inl e, b)
                     | Inr r \<Rightarrow> (Inr r, memory_remember q r b))
               else memory_accept q b
           | None \<Rightarrow> memory_accept q b))"

definition memory_get_status :: "string \<Rightarrow> string \<Rightarrow> memory_backend \<Rightarrow> broker_error + refresh_status option" where
  "memory_get_status job_id caller b =
     (if caller \<notin> (case mb_job_principals b job_id of None \<Rightarrow> {} | Some ps \<Rightarrow> ps)
      then Inl (RefreshAccessDenied ''job is not visible to this context'')
      else Inr (mb_status_by_job b job_id))"

definition memory_set_status :: "refresh_status \<Rightarrow> memory_backend \<Rightarrow> memory_backend" where
  "memory_set_status st b = b\<lparr>mb_status_by_job := (mb_status_by_job b)(fs_job_id st \<mapsto> st)\<rparr>"

end
