(* ===== verification/RefreshBroker.thy ===== *)
theory RefreshBroker
  imports RefreshContracts
begin

text \<open>
  The trusted broker (\<open>refresh_api/broker.py\<close>) and the backend that keeps refresh requests in the
  operational store (\<open>refresh_api/operational_backend.py\<close>). The broker calls its backend through the
  protocol \<open>RefreshBackend\<close>: \<open>broker_request\<close> and \<open>broker_get_status\<close> take its two methods as
  arguments. The clock of a call is an argument too.
\<close>

section \<open>The broker\<close>

record broker =
  bk_profiles :: "(string \<times> refresh_profile) list"
  bk_maximum_status_wait :: duration

definition broker_init :: "(string \<times> refresh_profile) list \<Rightarrow> duration \<Rightarrow> broker_error + broker" where
  "broker_init profiles maximum_status_wait = post_init
     [check (maximum_status_wait \<le> 0) (BrokerValueError ''maximum_status_wait must be positive''),
      check (profiles = []) (BrokerValueError ''at least one refresh profile is required''),
      check (list_ex (\<lambda>(key, p). key \<noteq> pf_profile_id p) profiles) (BrokerValueError ''profile mapping keys must match profile_id'')]
     \<lparr>bk_profiles = profiles, bk_maximum_status_wait = maximum_status_wait\<rparr>"

definition profile_for :: "broker \<Rightarrow> refresh_context \<Rightarrow> refresh_request \<Rightarrow> broker_error + refresh_profile" where
  "profile_for bk ctx req =
     (if qt_request_profile req \<notin> rx_allowed_profiles ctx
      then Inl (RefreshAccessDenied ''refresh profile is not granted to this context'')
      else case map_of (bk_profiles bk) (qt_request_profile req) of
        None \<Rightarrow> Inl (InvalidRefreshRequest ''refresh profile is not registered'')
      | Some p \<Rightarrow>
          if pf_datasource_id p \<noteq> qt_datasource_id req
          then Inl (InvalidRefreshRequest ''profile is not valid for this datasource'')
          else Inr p)"

definition network_key :: "string \<Rightarrow> bool" where
  "network_key key \<longleftrightarrow> lower key \<in> {''url'', ''host'', ''endpoint'', ''path''}"

definition network_value :: "string \<Rightarrow> bool" where
  "network_value v \<longleftrightarrow> prefix ''http://'' v \<or> prefix ''https://'' v"

fun validate_scope_entries :: "refresh_profile \<Rightarrow> (string \<times> string list) list \<Rightarrow> broker_error option" where
  "validate_scope_entries p [] = None"
| "validate_scope_entries p ((key, vs) # scope) =
     (if int (length vs) > pf_max_scope_values p then Some (InvalidRefreshRequest ''scope exceeds the profile value limit'')
      else if key \<in> pf_single_value_scope_keys p \<and> length vs \<noteq> 1
      then Some (InvalidRefreshRequest ''scope key requires exactly one value'')
      else if network_key key \<or> list_ex network_value vs
      then Some (InvalidRefreshRequest ''refresh scope cannot supply a network location'')
      else validate_scope_entries p scope)"

definition validate_scope :: "refresh_profile \<Rightarrow> refresh_request \<Rightarrow> broker_error option" where
  "validate_scope p req =
     (let keys = fst ` set (qt_bounded_scope req)
      in if \<not> keys \<subseteq> pf_allowed_scope_keys p then Some (InvalidRefreshRequest ''scope has keys not allowed by this profile'')
         else if \<not> pf_required_scope_keys p \<subseteq> keys then Some (InvalidRefreshRequest ''scope is missing a required key'')
         else validate_scope_entries p (qt_bounded_scope req))"

text \<open>The identity hashes: \<open>json.dumps\<close> prints the object with its keys in order.\<close>

definition scope_json :: "(string \<times> string list) list \<Rightarrow> json" where
  "scope_json sc = JObj (map (\<lambda>(k, vs). (k, JList (map JStr vs))) (sort_key fst sc))"

definition request_fingerprint :: "(string \<Rightarrow> string) \<Rightarrow> refresh_request \<Rightarrow> string" where
  "request_fingerprint sha req = sha (utf8 (print_json (JObj
     [(''datasource_id'', JStr (qt_datasource_id req)), (''request_profile'', JStr (qt_request_profile req)),
      (''bounded_scope'', scope_json (qt_bounded_scope req)), (''intent'', JStr (qt_intent req))])))"

definition broker_dedupe_key :: "(string \<Rightarrow> string) \<Rightarrow> refresh_profile \<Rightarrow> refresh_request \<Rightarrow> string" where
  "broker_dedupe_key sha p req = sha (utf8 (print_json (JObj
     [(''datasource_id'', JStr (pf_datasource_id p)), (''definition_version'', JInt (pf_definition_version p)),
      (''profile'', JStr (pf_profile_id p)), (''scope'', scope_json (qt_bounded_scope req))])))"

text \<open>The first half of \<open>request\<close>: the profile and what is submitted.\<close>

definition broker_submission ::
  "(string \<Rightarrow> string) \<Rightarrow> broker \<Rightarrow> stamp \<Rightarrow> refresh_context \<Rightarrow> refresh_request \<Rightarrow>
   broker_error + (refresh_profile \<times> instant \<times> refresh_submission)" where
  "broker_submission sha bk clock ctx req =
     (case profile_for bk ctx req of
        Inl e \<Rightarrow> Inl e
      | Inr p \<Rightarrow>
     (case validate_scope p req of
        Some e \<Rightarrow> Inl e
      | None \<Rightarrow>
     (case normalise_utc clock of
        Inl e \<Rightarrow> Inl e
      | Inr submitted_at \<Rightarrow>
          if \<not> instant_ok (submitted_at + pf_cooldown p) then Inl BrokerOverflowError
          else map_sum id (\<lambda>q. (p, submitted_at, q)) (refresh_submission_init
            \<lparr>su_request_id = rx_request_instance_id ctx, su_dedupe_key = broker_dedupe_key sha p req,
             su_principal = rx_principal ctx, su_datasource_id = pf_datasource_id p,
             su_definition_version = pf_definition_version p, su_request_profile = pf_profile_id p,
             su_effective_lane = pf_effective_lane p, su_bounded_scope = qt_bounded_scope req,
             su_intent = qt_intent req, su_submitted_at = submitted_at, su_promotion_policy = pf_promotion_policy p,
             su_request_fingerprint = request_fingerprint sha req, su_cooldown_until = submitted_at + pf_cooldown p,
             su_confirmation_token = qt_confirmation_token req\<rparr>))))"

definition acknowledgement ::
  "refresh_profile \<Rightarrow> refresh_context \<Rightarrow> instant \<Rightarrow> backend_result \<Rightarrow> broker_error + refresh_acknowledgement" where
  "acknowledgement p ctx submitted_at r = acknowledgement_init
     \<lparr>ak_schema_version = refresh_schema_version, ak_request_id = rx_request_instance_id ctx, ak_job_id = bs_job_id r,
      ak_disposition = bs_disposition r, ak_effective_lane = pf_effective_lane p, ak_initial_state = bs_initial_state r,
      ak_submitted_at = (case bs_submitted_at r of None \<Rightarrow> submitted_at | Some t \<Rightarrow> t),
      ak_poll_after = pf_poll_after p, ak_canonical_anchor = bs_canonical_anchor r,
      ak_confirmation_token = bs_confirmation_token r, ak_confirmation_expires_at = bs_confirmation_expires_at r\<rparr>"

type_synonym 's backend_submit = "refresh_submission \<Rightarrow> 's \<Rightarrow> (broker_error + backend_result) \<times> 's"

definition broker_request ::
  "(string \<Rightarrow> string) \<Rightarrow> broker \<Rightarrow> 's backend_submit \<Rightarrow> stamp \<Rightarrow> refresh_context \<Rightarrow> refresh_request \<Rightarrow>
   's \<Rightarrow> (broker_error + refresh_acknowledgement) \<times> 's" where
  "broker_request sha bk submit clock ctx req s =
     (case broker_submission sha bk clock ctx req of
        Inl e \<Rightarrow> (Inl e, s)
      | Inr (p, submitted_at, q) \<Rightarrow>
          (case submit q s of
             (Inl e, s') \<Rightarrow> (Inl e, s')
           | (Inr r, s') \<Rightarrow> (acknowledgement p ctx submitted_at r, s')))"

definition broker_get_status ::
  "broker \<Rightarrow> (string \<Rightarrow> string \<Rightarrow> 's \<Rightarrow> broker_error + refresh_status option) \<Rightarrow> stamp \<Rightarrow> refresh_context \<Rightarrow> string \<Rightarrow>
   stamp option \<Rightarrow> 's \<Rightarrow> broker_error + refresh_status option" where
  "broker_get_status bk get_status clock ctx job_id wait_deadline s =
     (if job_id = [] then Inl (InvalidRefreshRequest ''job_id must be non-empty'')
      else case (case wait_deadline of
          None \<Rightarrow> Inr ()
        | Some v \<Rightarrow>
            (case normalise_utc v of
               Inl e \<Rightarrow> Inl e
             | Inr deadline \<Rightarrow>
            (case normalise_utc clock of
               Inl e \<Rightarrow> Inl e
             | Inr now \<Rightarrow>
                 if deadline < now \<or> deadline - now > bk_maximum_status_wait bk
                 then Inl (InvalidRefreshRequest ''wait_deadline exceeds the broker wait budget'')
                 else Inr ()))) of
        Inl e \<Rightarrow> Inl e
      | Inr _ \<Rightarrow> get_status job_id (rx_principal ctx) s)"

section \<open>The backend on the operational store\<close>

fun refresh_failure :: "agent_error \<Rightarrow> broker_error" where
  "refresh_failure (RefreshRequestAccessError m) = RefreshAccessDenied m"
| "refresh_failure (RefreshRequestReplayError m) = InvalidRefreshRequest m"
| "refresh_failure (RefreshConfirmationError m) = InvalidRefreshRequest m"
| "refresh_failure e = BackendError e"

definition submission_args :: "refresh_submission \<Rightarrow> refresh_args" where
  "submission_args q =
     \<lparr>ra_request_id = su_request_id q, ra_principal = su_principal q, ra_request_fingerprint = su_request_fingerprint q,
      ra_dedupe_key = su_dedupe_key q, ra_datasource_id = su_datasource_id q,
      ra_definition_version = su_definition_version q, ra_request_profile = su_request_profile q,
      ra_lane = su_effective_lane q, ra_bounded_scope = su_bounded_scope q, ra_intent = su_intent q,
      ra_submitted_at = su_submitted_at q, ra_cooldown_until = su_cooldown_until q,
      ra_confirmation_token = su_confirmation_token q\<rparr>"

definition backend_result_of :: "refresh_result \<Rightarrow> broker_error + backend_result" where
  "backend_result_of v =
     (case refresh_disposition_of (rr_disposition v) of
        Inl e \<Rightarrow> Inl e
      | Inr disposition \<Rightarrow> backend_result_init
          \<lparr>bs_disposition = disposition, bs_job_id = rr_job_id v, bs_initial_state = rr_initial_state v,
           bs_canonical_anchor = None, bs_submitted_at = Some (rr_submitted_at v),
           bs_confirmation_token = rr_confirmation_token v, bs_confirmation_expires_at = rr_confirmation_expires_at v\<rparr>)"

definition operational_submit :: "agent_env \<Rightarrow> instant \<Rightarrow> refresh_ids \<Rightarrow> agent_db backend_submit" where
  "operational_submit G clock ids q g =
     (case registry_lookup (en_registry (ge_env G)) (su_datasource_id q) (Some (su_definition_version q)) of
        Inl e \<Rightarrow> (Inl (BackendError (StoreError e)), g)
      | Inr d \<Rightarrow>
          if su_promotion_policy q \<notin> {''registry_selected'', dd_promotion_policy d}
          then (Inl (InvalidRefreshRequest ''refresh profile promotion policy does not match its definition''), g)
          else (case submit_agent_refresh G (submission_args q) clock ids g of
                  (Inl e, g') \<Rightarrow> (Inl (refresh_failure e), g')
                | (Inr v, g') \<Rightarrow> (backend_result_of v, g')))"

fun attempt_status_text :: "attempt_status \<Rightarrow> string" where
  "attempt_status_text A_RUNNING = ''running''"
| "attempt_status_text A_SUCCEEDED = ''succeeded''"
| "attempt_status_text A_EMPTY = ''empty''"
| "attempt_status_text A_PARTIAL = ''partial''"
| "attempt_status_text A_FAILED = ''failed''"
| "attempt_status_text A_CANCELLED = ''cancelled''"

definition status_of_job :: "string \<Rightarrow> job_status \<Rightarrow> refresh_status" where
  "status_of_job job_id st =
     (let job = js_job st
      in (plain_status job_id (job_state_text (j_state job)))\<lparr>
        fs_latest_attempt_status := (if js_attempts st = [] then None else Some (attempt_status_text (a_status (last (js_attempts st))))),
        fs_terminal_run_id := (case js_run st of None \<Rightarrow> None
          | Some r \<Rightarrow> if j_completed_at job \<noteq> None then Some (r_run_id r) else None),
        fs_terminal_error := (case j_last_error job of Some (JObj kvs) \<Rightarrow> Some kvs | _ \<Rightarrow> None),
        fs_promotion_status := (if js_promotions st = [] then None else Some (p_decision (last (js_promotions st)))),
        fs_canonical_changed := (if js_promotions st = [] then None else Some True),
        fs_result_ref := (case js_run st of None \<Rightarrow> None
          | Some r \<Rightarrow> if j_lane job \<in> {Some ''source_discovery'', Some ''ad_hoc_research''} \<and>
              j_state job \<in> {SUCCEEDED, EMPTY, FAILED, DEAD_LETTER} then Some (r_run_id r) else None)\<rparr>)"

definition operational_get_status :: "string \<Rightarrow> string \<Rightarrow> agent_db \<Rightarrow> broker_error + refresh_status option" where
  "operational_get_status job_id caller g =
     (case get_agent_refresh_job job_id caller g of
        Inl (RefreshRequestAccessError m) \<Rightarrow> Inl (RefreshAccessDenied m)
      | Inl e \<Rightarrow> Inl (BackendError e)
      | Inr None \<Rightarrow> Inr None
      | Inr (Some st) \<Rightarrow> map_sum id Some (refresh_status_init (status_of_job job_id st)))"

end
