(* ===== verification/BrokerContract.thy ===== *)
theory BrokerContract
  imports RefreshBroker AgentCorrect
begin

text \<open>
  What the broker relies on from a backend (the protocol \<open>RefreshBackend\<close>), as a locale: an answer
  with a job is recorded under its request for good, a request that was answered is answered the same
  or refused, and a job's status is shown to those it was given to and to nobody else. The broker's
  guarantees are proved once from these laws; the in-memory backend and the backend on the
  operational store are its two interpretations.
\<close>

section \<open>The contract\<close>

locale refresh_backend =
  fixes inv :: "'s \<Rightarrow> bool"
    and evolves :: "'s \<Rightarrow> 's \<Rightarrow> bool"
    and ready :: "'e \<Rightarrow> refresh_submission \<Rightarrow> bool"
    and submit :: "'e \<Rightarrow> 's backend_submit"
    and get_status :: "string \<Rightarrow> string \<Rightarrow> 's \<Rightarrow> broker_error + refresh_status option"
    and answered :: "'s \<Rightarrow> string \<Rightarrow> (string \<times> string \<times> backend_result) option"
  assumes evolves_inv: "inv s \<Longrightarrow> evolves s s' \<Longrightarrow> inv s'"
    and evolves_trans: "evolves s s' \<Longrightarrow> evolves s' s'' \<Longrightarrow> evolves s s''"
    and answered_stays: "inv s \<Longrightarrow> evolves s s' \<Longrightarrow> answered s i = Some x \<Longrightarrow> answered s' i = Some x"
    and submit_evolves: "inv s \<Longrightarrow> ready e q \<Longrightarrow> evolves s (snd (submit e q s))"
    and submit_records: "inv s \<Longrightarrow> ready e q \<Longrightarrow> submit e q s = (Inr r, s') \<Longrightarrow> bs_job_id r \<noteq> None \<Longrightarrow>
       answered s' (su_request_id q) = Some (su_principal q, su_request_fingerprint q, r)"
    and submit_replays: "inv s \<Longrightarrow> answered s (su_request_id q) = Some (p, f, r) \<Longrightarrow> submit e q s = (Inr r', s') \<Longrightarrow>
       su_principal q = p \<and> su_request_fingerprint q = f \<and> r' = r"
    and status_private: "inv s \<Longrightarrow> get_status j p s = Inr st \<Longrightarrow>
       \<exists>i f r. answered s i = Some (p, f, r) \<and> bs_job_id r = Some j"
    and status_shown: "inv s \<Longrightarrow> answered s i = Some (p, f, r) \<Longrightarrow> bs_job_id r = Some j \<Longrightarrow>
       bounded_identifier j \<Longrightarrow> bounded_identifier p \<Longrightarrow> \<exists>st. get_status j p s = Inr (Some st)"
begin

lemma request_cases:
  assumes "broker_request sha bk (submit e) clock ctx req s = (Inr k, s')"
  obtains p now q r where "broker_submission sha bk clock ctx req = Inr (p, now, q)" "submit e q s = (Inr r, s')"
    "acknowledgement p ctx now r = Inr k"
  using assms by (auto simp: broker_request_def split: sum.splits prod.splits)

end

lemma submission_fields:
  assumes "broker_submission sha bk clock ctx req = Inr (p, now, q)"
  shows "su_request_id q = rx_request_instance_id ctx" "su_principal q = rx_principal ctx"
    "su_request_fingerprint q = request_fingerprint sha req" "su_submitted_at q = now" "su_cooldown_until q = now + pf_cooldown p"
    "clock = Aware now" "instant_ok (su_cooldown_until q)" "su_datasource_id q = pf_datasource_id p"
    "su_definition_version q = pf_definition_version p" "su_effective_lane q = pf_effective_lane p"
    "su_promotion_policy q = pf_promotion_policy p" "su_bounded_scope q = qt_bounded_scope req"
    "profile_for bk ctx req = Inr p" "validate_scope p req = None"
proof -
  have c: "clock = Aware now"
    using assms by (cases clock) (auto simp: broker_submission_def refresh_submission_init_def post_init_def split: sum.splits option.splits if_splits)
  show "su_request_id q = rx_request_instance_id ctx" "su_principal q = rx_principal ctx"
    "su_request_fingerprint q = request_fingerprint sha req" "su_submitted_at q = now" "su_cooldown_until q = now + pf_cooldown p"
    "clock = Aware now" "instant_ok (su_cooldown_until q)" "su_datasource_id q = pf_datasource_id p"
    "su_definition_version q = pf_definition_version p" "su_effective_lane q = pf_effective_lane p"
    "su_promotion_policy q = pf_promotion_policy p" "su_bounded_scope q = qt_bounded_scope req"
    "profile_for bk ctx req = Inr p" "validate_scope p req = None"
    using assms unfolding c
    by (auto simp: broker_submission_def refresh_submission_init_def post_init_def split: sum.splits option.splits if_splits)
qed

lemma acknowledgement_fields:
  assumes "acknowledgement p ctx now r = Inr k"
  shows "ak_job_id k = bs_job_id r" "ak_disposition k = bs_disposition r" "ak_initial_state k = bs_initial_state r"
    "ak_request_id k = rx_request_instance_id ctx" "bs_submitted_at r = Some t \<Longrightarrow> ak_submitted_at k = t"
    "ak_effective_lane k = pf_effective_lane p"
  using assms by (auto simp: acknowledgement_def acknowledgement_init_def post_init_def split: option.splits)

context refresh_backend
begin

text \<open>An acknowledged request is answered the same ever after, and to its principal only.\<close>

lemma request_replayed:
  assumes inv: "inv s" and ready: "\<And>p now q. broker_submission sha bk clock ctx req = Inr (p, now, q) \<Longrightarrow> ready e q"
    and first: "broker_request sha bk (submit e) clock ctx req s = (Inr k, s1)" "ak_job_id k \<noteq> None"
    and later: "evolves s1 s2" and same: "rx_request_instance_id ctx' = rx_request_instance_id ctx"
    and again: "broker_request sha' bk' (submit e') clock' ctx' req' s2 = (Inr k', s3)"
  shows "rx_principal ctx' = rx_principal ctx \<and> request_fingerprint sha' req' = request_fingerprint sha req \<and>
    ak_job_id k' = ak_job_id k \<and> ak_disposition k' = ak_disposition k \<and> ak_initial_state k' = ak_initial_state k"
proof -
  from first(1) obtain p now q r where q: "broker_submission sha bk clock ctx req = Inr (p, now, q)"
      "submit e q s = (Inr r, s1)" "acknowledgement p ctx now r = Inr k" by (rule request_cases)
  from again obtain p' now' q' r' where q': "broker_submission sha' bk' clock' ctx' req' = Inr (p', now', q')"
      "submit e' q' s2 = (Inr r', s3)" "acknowledgement p' ctx' now' r' = Inr k'" by (rule request_cases)
  have inv1: "inv s1" using evolves_inv [OF inv] submit_evolves [OF inv ready [OF q(1)]] q(2) by (metis snd_conv)
  have "answered s1 (su_request_id q) = Some (su_principal q, su_request_fingerprint q, r)"
    by (rule submit_records [OF inv ready [OF q(1)] q(2)]) (use first(2) acknowledgement_fields(1) [OF q(3)] in simp)
  then have "answered s2 (su_request_id q') = Some (su_principal q, su_request_fingerprint q, r)"
    using answered_stays [OF inv1 later] same submission_fields(1) [OF q(1)] submission_fields(1) [OF q'(1)] by simp
  from submit_replays [OF evolves_inv [OF inv1 later] this q'(2)] show ?thesis
    using submission_fields(2,3) [OF q(1)] submission_fields(2,3) [OF q'(1)]
      acknowledgement_fields(1-3) [OF q(3)] acknowledgement_fields(1-3) [OF q'(3)] by simp
qed

text \<open>From the acknowledgement on, the status of the job can be read by the principal it was given to.\<close>

lemma status_follows:
  assumes inv: "inv s" and ready: "\<And>p now q. broker_submission sha bk clock ctx req = Inr (p, now, q) \<Longrightarrow> ready e q"
    and first: "broker_request sha bk (submit e) clock ctx req s = (Inr k, s1)" "ak_job_id k = Some j"
    and later: "evolves s1 s2" and ids: "bounded_identifier j" "bounded_identifier (rx_principal ctx)"
    and reader: "rx_principal ctx' = rx_principal ctx"
  shows "\<exists>st. broker_get_status bk' get_status clock' ctx' j None s2 = Inr (Some st)"
proof -
  from first(1) obtain p now q r where q: "broker_submission sha bk clock ctx req = Inr (p, now, q)"
      "submit e q s = (Inr r, s1)" "acknowledgement p ctx now r = Inr k" by (rule request_cases)
  have inv1: "inv s1" using evolves_inv [OF inv] submit_evolves [OF inv ready [OF q(1)]] q(2) by (metis snd_conv)
  have job: "bs_job_id r = Some j" using first(2) acknowledgement_fields(1) [OF q(3)] by simp
  have "answered s1 (su_request_id q) = Some (rx_principal ctx, su_request_fingerprint q, r)"
    using submit_records [OF inv ready [OF q(1)] q(2)] job submission_fields(2) [OF q(1)] by simp
  from status_shown [OF evolves_inv [OF inv1 later] answered_stays [OF inv1 later this] job ids]
  show ?thesis using reader ids(1) by (auto simp: broker_get_status_def bounded_identifier_def)
qed

lemma status_only_given:
  assumes "inv s" and "broker_get_status bk get_status clock ctx j deadline s = Inr st"
  shows "\<exists>i f r. answered s i = Some (rx_principal ctx, f, r) \<and> bs_job_id r = Some j"
  using assms status_private by (auto simp: broker_get_status_def split: if_splits sum.splits)

end

section \<open>The in-memory backend\<close>

definition memory_inv :: "memory_backend \<Rightarrow> bool" where
  "memory_inv b \<longleftrightarrow>
     (\<forall>i p f r j. mb_requests b i = Some (p, f, r) \<and> bs_job_id r = Some j \<longrightarrow>
        (\<exists>ps. mb_job_principals b j = Some ps \<and> p \<in> ps) \<and> mb_status_by_job b j \<noteq> None) \<and>
     (\<forall>k c r j. mb_dedupe b k = Some (c, r) \<and> bs_job_id r = Some j \<longrightarrow> mb_status_by_job b j \<noteq> None) \<and>
     (\<forall>j ps p. mb_job_principals b j = Some ps \<and> p \<in> ps \<longrightarrow>
        (\<exists>i f r. mb_requests b i = Some (p, f, r) \<and> bs_job_id r = Some j))"

inductive memory_step :: "memory_backend \<Rightarrow> memory_backend \<Rightarrow> bool" where
  "memory_step b (snd (memory_submit q b))"
| "memory_step b (memory_set_status st b)"

lemma backend_result_init_Inr: "backend_result_init r = Inr r' \<Longrightarrow> r' = r"
  by (auto simp: backend_result_init_def post_init_def split: option.splits)

lemma memory_remember_fields:
  "mb_requests (memory_remember q r b) = (mb_requests b)(su_request_id q \<mapsto> (su_principal q, su_request_fingerprint q, r))"
  "mb_status_by_job (memory_remember q r b) = mb_status_by_job b" "mb_dedupe (memory_remember q r b) = mb_dedupe b"
  "mb_job_principals (memory_remember q r b) = (case bs_job_id r of None \<Rightarrow> mb_job_principals b
     | Some j \<Rightarrow> (mb_job_principals b)(j \<mapsto> insert (su_principal q) (case mb_job_principals b j of None \<Rightarrow> {} | Some ps \<Rightarrow> ps)))"
  by (auto simp: memory_remember_def Let_def split: option.splits)

lemma memory_remember_inv:
  assumes inv: "memory_inv b" and new: "mb_requests b (su_request_id q) = None"
    and job: "\<And>j. bs_job_id r = Some j \<Longrightarrow> mb_status_by_job b j \<noteq> None"
  shows "memory_inv (memory_remember q r b)"
  unfolding memory_inv_def memory_remember_fields
proof (intro conjI allI impI, goal_cases)
  case (1 i p f r' j)
  then show ?case using inv unfolding memory_inv_def
    by (cases "bs_job_id r"; cases "i = su_request_id q") (fastforce split: option.splits)+
next
  case (2 i p f r' j)
  then show ?case using inv job unfolding memory_inv_def by (auto split: if_splits)
next
  case (3 k c r' j)
  then show ?case using inv unfolding memory_inv_def by blast
next
  case (4 j ps p)
  have old: "\<exists>i f r'. ((mb_requests b)(su_request_id q \<mapsto> (su_principal q, su_request_fingerprint q, r))) i = Some (p, f, r') \<and> bs_job_id r' = Some j"
    if given: "mb_job_principals b j = Some ps'" "p \<in> ps'" for ps'
  proof -
    obtain i f r' where "mb_requests b i = Some (p, f, r')" "bs_job_id r' = Some j"
      using inv given unfolding memory_inv_def by blast
    then show ?thesis using new by (intro exI [of _ i] exI [of _ f] exI [of _ r']) auto
  qed
  show ?case using 4 old by (auto split: option.splits if_splits) blast+
qed

lemma memory_accept_cases:
  obtains r b1 where "memory_accept q b = (Inr r, memory_remember q r b1)" "mb_requests b1 = mb_requests b"
    "memory_inv b \<Longrightarrow> memory_inv b1" "\<And>j. bs_job_id r = Some j \<Longrightarrow> mb_status_by_job b1 j \<noteq> None"
proof -
  let ?j = "''job_in_memory_'' @ int_text (mb_counter b + 1)"
  let ?r = "queued_result ACCEPTED (Some ?j) ''queued'' None (su_submitted_at q)"
  let ?b1 = "b\<lparr>mb_counter := mb_counter b + 1, mb_status_by_job := (mb_status_by_job b)(?j \<mapsto> plain_status ?j ''queued''),
      mb_dedupe := (mb_dedupe b)(su_dedupe_key q \<mapsto> (su_cooldown_until q, ?r))\<rparr>"
  have run: "memory_accept q b = (Inr ?r, memory_remember q ?r ?b1)"
    by (simp add: memory_accept_def Let_def backend_result_init_def post_init_def check_def queued_result_def
        refresh_status_init_def plain_status_def)
  have keeps: "memory_inv b \<Longrightarrow> memory_inv ?b1"
    unfolding memory_inv_def by (auto simp: queued_result_def)
  show thesis by (rule that [OF run _ keeps]) (simp_all add: queued_result_def)
qed

lemma memory_submit_cases:
  assumes "memory_submit q b = (res, b')"
  obtains (refused) e where "res = Inl e" "b' = b"
  | (replayed) r where "res = Inr r" "b' = b" "mb_requests b (su_request_id q) = Some (su_principal q, su_request_fingerprint q, r)"
  | (recorded) r b1 where "res = Inr r" "mb_requests b (su_request_id q) = None" "b' = memory_remember q r b1"
      "mb_requests b1 = mb_requests b" "memory_inv b \<Longrightarrow> memory_inv b1"
      "memory_inv b \<Longrightarrow> \<forall>j. bs_job_id r = Some j \<longrightarrow> mb_status_by_job b1 j \<noteq> None"
proof (cases "mb_requests b (su_request_id q)")
  case (Some x)
  then show thesis using assms refused replayed by (cases x) (auto simp: memory_submit_def split: if_splits)
next
  case None
  show thesis
  proof (cases "\<exists>c prior. mb_dedupe b (su_dedupe_key q) = Some (c, prior) \<and> su_submitted_at q < c")
    case True
    then obtain c prior where prior: "mb_dedupe b (su_dedupe_key q) = Some (c, prior)" "su_submitted_at q < c" by blast
    let ?r = "queued_result DEDUPLICATED (bs_job_id prior) (bs_initial_state prior) (bs_canonical_anchor prior) (su_submitted_at q)"
    have "memory_inv b \<Longrightarrow> \<forall>j. bs_job_id ?r = Some j \<longrightarrow> mb_status_by_job b j \<noteq> None"
      using prior(1) unfolding memory_inv_def by (auto simp: queued_result_def)
    moreover have "memory_submit q b = (case backend_result_init ?r of Inl e \<Rightarrow> (Inl e, b) | Inr r \<Rightarrow> (Inr r, memory_remember q r b))"
      using None prior by (simp add: memory_submit_def)
    ultimately show thesis using assms None refused recorded [of ?r b] backend_result_init_Inr
      by (auto split: sum.splits)
  next
    case False
    then have "memory_submit q b = memory_accept q b"
      using None by (auto simp: memory_submit_def split: option.splits)
    then show thesis using memory_accept_cases [of q b] assms None recorded by (metis prod.inject)
  qed
qed

lemma memory_submit_inv: "memory_inv b \<Longrightarrow> memory_inv (snd (memory_submit q b))"
proof -
  assume inv: "memory_inv b"
  obtain res b' where run: "memory_submit q b = (res, b')" by fastforce
  then have "memory_inv b'"
    by (cases rule: memory_submit_cases) (use inv memory_remember_inv in auto)
  then show ?thesis using run by simp
qed

lemma memory_step_keeps:
  assumes "memory_step b b'"
  shows "memory_inv b \<Longrightarrow> memory_inv b'" and "mb_requests b i = Some x \<Longrightarrow> mb_requests b' i = Some x"
proof -
  show "memory_inv b'" if "memory_inv b"
    using assms that by (cases rule: memory_step.cases) (auto simp: memory_submit_inv, auto simp: memory_inv_def memory_set_status_def)
  show "mb_requests b' i = Some x" if "mb_requests b i = Some x"
    using assms
  proof cases
    case (1 q)
    obtain res b'' where run: "memory_submit q b = (res, b'')" by fastforce
    then have "mb_requests b'' i = Some x"
      by (cases rule: memory_submit_cases) (use that in \<open>auto simp: memory_remember_fields\<close>)
    then show ?thesis using 1 run by simp
  qed (use that in \<open>simp add: memory_set_status_def\<close>)
qed

lemma memory_steps_keep:
  assumes "memory_step\<^sup>*\<^sup>* b b'"
  shows "memory_inv b \<Longrightarrow> memory_inv b'" and "mb_requests b i = Some x \<Longrightarrow> mb_requests b' i = Some x"
  using assms by (induction rule: rtranclp_induct) (auto dest: memory_step_keeps)

interpretation mb: refresh_backend memory_inv "memory_step\<^sup>*\<^sup>*" "\<lambda>_ _. True" "\<lambda>_::unit. memory_submit" memory_get_status mb_requests
proof (unfold_locales, goal_cases)
  case (4 s e q)
  then show ?case by (simp add: memory_step.intros r_into_rtranclp)
next
  case (5 s e q r s')
  from 5(3) show ?case by (cases rule: memory_submit_cases) (auto simp: memory_remember_fields)
next
  case (6 s q p f r e r' s')
  from 6(3) show ?case by (cases rule: memory_submit_cases) (use 6 in auto)
next
  case (7 s j p st)
  then show ?case by (auto simp: memory_get_status_def memory_inv_def split: if_splits option.splits)
next
  case (8 s i p f r j)
  then obtain ps st where "mb_job_principals s j = Some ps" "p \<in> ps" "mb_status_by_job s j = Some st"
    unfolding memory_inv_def by blast
  then show ?case by (simp add: memory_get_status_def)
qed (auto dest: memory_steps_keep)


section \<open>The backend on the operational store\<close>

definition row_backend_result :: "refresh_row \<Rightarrow> backend_result" where
  "row_backend_result r = queued_result (if rq_disposition r = ''accepted'' then ACCEPTED else DEDUPLICATED)
     (Some (rq_job_id r)) (rq_initial_state r) None (rq_submitted_at r)"

definition operational_answered :: "agent_db \<Rightarrow> string \<Rightarrow> (string \<times> string \<times> backend_result) option" where
  "operational_answered g i = map_option (\<lambda>r. (rq_principal r, rq_request_fingerprint r, row_backend_result r))
     (lookup_by rq_request_id i (ag_requests g))"

definition agent_evolves :: "agent_db \<Rightarrow> agent_db \<Rightarrow> bool" where
  "agent_evolves g g' \<longleftrightarrow> (\<exists>cs. reaches agent_exec agent_admissible g cs g')"

definition operational_ready :: "agent_env \<times> instant \<times> refresh_ids \<Rightarrow> refresh_submission \<Rightarrow> bool" where
  "operational_ready e q \<longleftrightarrow> iso_ok (fst e) \<and> times_ok (submission_args q)"

lemma reaches_trans: "reaches exec ok s cs s' \<Longrightarrow> reaches exec ok s' cs' s'' \<Longrightarrow> reaches exec ok s (cs @ cs') s''"
  by (induction cs arbitrary: s) auto

lemma submission_args_fields [simp]:
  "ra_request_id (submission_args q) = su_request_id q" "ra_principal (submission_args q) = su_principal q"
  "ra_request_fingerprint (submission_args q) = su_request_fingerprint q" "ra_datasource_id (submission_args q) = su_datasource_id q"
  "ra_definition_version (submission_args q) = su_definition_version q" "ra_lane (submission_args q) = su_effective_lane q"
  "ra_submitted_at (submission_args q) = su_submitted_at q" "ra_cooldown_until (submission_args q) = su_cooldown_until q"
  by (simp_all add: submission_args_def)

lemma operational_submit_cases:
  assumes "operational_submit G clock ids q g = (res, g')"
  obtains (refused) e where "res = Inl e" "g' = g"
  | (submitted) v where "submit_agent_refresh G (submission_args q) clock ids g = (v, g')"
      "res = (case v of Inl e \<Rightarrow> Inl (refresh_failure e) | Inr r \<Rightarrow> backend_result_of r)"
  using assms by (auto simp: operational_submit_def split: sum.splits if_splits prod.splits)

lemma backend_result_row:
  assumes "backend_result_of (result_of_row r) = Inr b" and "rq_disposition r \<in> {''accepted'', ''deduplicated''}"
  shows "b = row_backend_result r"
  using assms
  by (auto simp: backend_result_of_def result_of_row_def refresh_result_of_def row_backend_result_def queued_result_def
      refresh_disposition_of_def dest!: backend_result_init_Inr)

lemma bound_disposition: "bound_row x r \<Longrightarrow> rq_disposition r \<in> {''accepted'', ''deduplicated''}"
  by (auto simp: bound_row_def split: if_splits)

text \<open>Ledger rows are found by their identifier, and name a job that exists.\<close>

lemma ledger_lookup:
  assumes "agent_inv g" and "r \<in> set (ag_requests g)"
  shows "lookup_by rq_request_id (rq_request_id r) (ag_requests g) = Some r"
    and "rq_disposition r \<in> {''accepted'', ''deduplicated''}" and "lookup_by j_job_id (rq_job_id r) (s_jobs (ag_store g)) \<noteq> None"
proof -
  have inv: "refresh_inv (refresh_state_of g)" using assms(1) by (simp add: agent_inv_def)
  have "distinct (map rq_request_id (ag_requests g))" using refresh_invD(3) [OF inv] by (simp add: refresh_state_of_def)
  then show "lookup_by rq_request_id (rq_request_id r) (ag_requests g) = Some r" using lookup_by_unique assms(2) by metis
  have bound: "bound_row (refresh_state_of g) r" using refresh_invD(7) [OF inv] assms(2) by (simp add: refresh_state_of_def)
  then show "rq_disposition r \<in> {''accepted'', ''deduplicated''}" by (rule bound_disposition)
  from bound obtain j where "j \<in> set (refresh_jobs (ag_store g))" "rq_job_id r = fj_job_id j"
    by (auto simp: bound_row_def refresh_state_of_def)
  then show "lookup_by j_job_id (rq_job_id r) (s_jobs (ag_store g)) \<noteq> None"
    by (auto simp: refresh_jobs_def lookup_by_None_iff)
qed

lemma operational_evolves:
  assumes "operational_ready (G, clock, ids) q"
  shows "agent_evolves g (snd (operational_submit G clock ids q g))"
proof -
  obtain res g' where run: "operational_submit G clock ids q g = (res, g')" by fastforce
  then have "agent_evolves g g'"
  proof (cases rule: operational_submit_cases)
    case refused
    then show ?thesis by (auto simp: agent_evolves_def intro: exI [of _ "[]"])
  next
    case (submitted v)
    then show ?thesis using assms
      by (auto simp: agent_evolves_def operational_ready_def intro!: exI [of _ "[GSubmit G (submission_args q) clock ids]"])
  qed
  then show ?thesis using run by simp
qed

lemma operational_records:
  assumes inv: "agent_inv g" and ready: "operational_ready (G, clock, ids) q"
    and run: "operational_submit G clock ids q g = (Inr b, g')" and job: "bs_job_id b \<noteq> None"
  shows "operational_answered g' (su_request_id q) = Some (su_principal q, su_request_fingerprint q, b)"
  using run
proof (cases rule: operational_submit_cases)
  case (submitted w)
  obtain v where v: "w = Inr v" "backend_result_of v = Inr b" using submitted(2) by (cases w) auto
  have ok: "iso_ok G" "times_ok (submission_args q)" using ready by (auto simp: operational_ready_def)
  have inv': "agent_inv g'" using submit_keeps(1) [OF inv ok] submitted(1) by (metis snd_conv)
  have "rr_job_id v \<noteq> None"
    using v(2) job by (auto simp: backend_result_of_def split: sum.splits dest!: backend_result_init_Inr)
  then obtain r where r: "r \<in> set (ag_requests g')" "rq_request_id r = su_request_id q" "rq_principal r = su_principal q"
      "rq_request_fingerprint r = su_request_fingerprint q" "v = result_of_row r"
    using submit_refines [OF ok(2) submitted(1)] v(1) by (auto simp: submit_effect_def answers_def)
  have "lookup_by rq_request_id (su_request_id q) (ag_requests g') = Some r" "b = row_backend_result r"
    using ledger_lookup [OF inv' r(1)] r(2) backend_result_row v(2) r(5) by auto
  then show ?thesis using r by (simp add: operational_answered_def)
qed simp

lemma operational_replays:
  assumes inv: "agent_inv g" and known: "operational_answered g (su_request_id q) = Some (p, f, b)"
    and run: "operational_submit G clock ids q g = (Inr b', g')"
  shows "su_principal q = p \<and> su_request_fingerprint q = f \<and> b' = b"
  using run
proof (cases rule: operational_submit_cases)
  case (submitted w)
  obtain v where v: "w = Inr v" "backend_result_of v = Inr b'" using submitted(2) by (cases w) auto
  obtain r where r: "lookup_by rq_request_id (su_request_id q) (ag_requests g) = Some r" "p = rq_principal r"
      "f = rq_request_fingerprint r" "b = row_backend_result r"
    using known by (auto simp: operational_answered_def)
  have "validate_existing_refresh_request (submission_args q) r = Inr v"
    using submitted(1) v(1) r(1)
    by (auto simp: submit_agent_refresh_def submit_known_def bind_op_def on_jobs_def raise_op_def
        split: option.splits prod.splits sum.splits store_error.splits)
  then have "su_principal q = p" "su_request_fingerprint q = f" "v = result_of_row r"
    using r by (auto simp: validate_existing_refresh_request_def result_of_row_def split: if_splits)
  moreover have "b' = b"
    using backend_result_row [of r b'] v(2) r(4) ledger_lookup(2) [OF inv] lookup_by_Some [OF r(1)] calculation(3) by blast
  ultimately show ?thesis by simp
qed simp

interpretation ob: refresh_backend agent_inv agent_evolves operational_ready
  "\<lambda>e. operational_submit (fst e) (fst (snd e)) (snd (snd e))" operational_get_status operational_answered
proof (unfold_locales, goal_cases)
  case (1 s s')
  then show ?case using la.reaches_inv by (auto simp: agent_evolves_def)
next
  case (2 s s' s'')
  then show ?case by (auto simp: agent_evolves_def intro: reaches_trans)
next
  case (3 s s' i x)
  obtain r where r: "lookup_by rq_request_id i (ag_requests s) = Some r"
      "x = (rq_principal r, rq_request_fingerprint r, row_backend_result r)"
    using 3(3) by (auto simp: operational_answered_def)
  obtain cs where cs: "reaches agent_exec agent_admissible s cs s'" using 3(2) by (auto simp: agent_evolves_def)
  have "r \<in> set (ag_requests s')"
    using reaches_agent_appends [OF cs] lookup_by_Some [OF r(1)] set_mono_prefix unfolding agent_appends_def by blast
  then show ?case
    using ledger_lookup(1) [OF la.reaches_inv [OF cs 3(1)]] lookup_by_Some [OF r(1)] r(2) by (auto simp: operational_answered_def)
next
  case (4 s e q)
  then show ?case using operational_evolves by (cases e) auto
next
  case (5 s e q r s')
  then show ?case using operational_records by (cases e) auto
next
  case (6 s q p f r e r' s')
  then show ?case using operational_replays by blast
next
  case (7 s j p st)
  then have "list_ex (\<lambda>r. rq_job_id r = j \<and> rq_principal r = p) (ag_requests s)"
    by (auto simp: operational_get_status_def get_agent_refresh_job_def split: option.splits sum.splits agent_error.splits if_splits)
  then obtain r where r: "r \<in> set (ag_requests s)" "rq_job_id r = j" "rq_principal r = p" by (auto simp: list_ex_iff)
  then show ?case using ledger_lookup(1) [OF 7(1) r(1)]
    by (intro exI [of _ "rq_request_id r"] exI [of _ "rq_request_fingerprint r"] exI [of _ "row_backend_result r"]) (simp add: operational_answered_def row_backend_result_def queued_result_def)
next
  case (8 s i p f r j)
  then obtain row where row: "row \<in> set (ag_requests s)" "rq_principal row = p" "rq_job_id row = j"
    by (auto simp: operational_answered_def row_backend_result_def queued_result_def dest!: lookup_by_Some)
  obtain x where "lookup_by j_job_id j (s_jobs (ag_store s)) = Some x" using ledger_lookup(3) [OF 8(1) row(1)] row(3) by auto
  moreover have "list_ex (\<lambda>r. rq_job_id r = j \<and> rq_principal r = p) (ag_requests s)" using row by (auto simp: list_ex_iff)
  ultimately show ?case using 8(4,5)
    by (simp add: operational_get_status_def get_agent_refresh_job_def require_refresh_identifier_def get_job_def Let_def
        refresh_status_init_def post_init_def check_def status_of_job_def plain_status_def bounded_identifier_def)
qed

end
