(* ===== verification/BrokerCorrect.thy ===== *)
theory BrokerCorrect
  imports JsonText BrokerContract
begin

text \<open>
  What the broker guarantees on the operational store: jobs stay within the granted profile, a request
  is answered the same ever after, its fingerprint identifies it and is the one the approvals check,
  and the status of a job is shown to those it was given to only.
\<close>

section \<open>A broker for the demonstration store\<close>

definition demo_profile :: refresh_profile where
  "demo_profile = \<lparr>pf_profile_id = ''onspd'', pf_datasource_id = ''ons.onspd.postcode'', pf_definition_version = 1,
     pf_effective_lane = ''production_ingestion'', pf_allowed_scope_keys = {}, pf_required_scope_keys = {},
     pf_single_value_scope_keys = {}, pf_max_scope_values = 10, pf_cooldown = 300000000, pf_poll_after = 2000000,
     pf_promotion_policy = ''registry_selected''\<rparr>"

definition demo_broker :: broker where
  "demo_broker = \<lparr>bk_profiles = [(''onspd'', demo_profile)], bk_maximum_status_wait = 30000000\<rparr>"

definition demo_context :: refresh_context where
  "demo_context = \<lparr>rx_principal = ''agent'', rx_request_instance_id = ''req_1'', rx_allowed_profiles = {''onspd''}\<rparr>"

definition demo_broker_request :: refresh_request where
  "demo_broker_request = \<lparr>qt_datasource_id = ''ons.onspd.postcode'', qt_request_profile = ''onspd'', qt_bounded_scope = [],
     qt_intent = ''refresh'', qt_confirmation_token = None\<rparr>"

abbreviation demo_digest :: "string \<Rightarrow> string" where
  "demo_digest \<equiv> \<lambda>_. replicate 64 (CHR ''0'')"

lemma demo_broker_init: "broker_init [(''onspd'', demo_profile)] 30000000 = Inr demo_broker"
    "\<forall>x \<in> set [(''onspd'', demo_profile)]. \<exists>p. refresh_profile_init p = Inr (snd x)"
  by (simp_all add: broker_init_def post_init_def check_def demo_profile_def demo_broker_def)
    (rule exI [of _ demo_profile], simp add: refresh_profile_init_def post_init_def check_def demo_profile_def lanes_def)

definition demo_submission :: refresh_submission where
  "demo_submission = \<lparr>su_request_id = ''req_1'', su_dedupe_key = replicate 64 (CHR ''0''), su_principal = ''agent'',
     su_datasource_id = ''ons.onspd.postcode'', su_definition_version = 1, su_request_profile = ''onspd'',
     su_effective_lane = ''production_ingestion'', su_bounded_scope = [], su_intent = ''refresh'', su_submitted_at = 0,
     su_promotion_policy = ''registry_selected'', su_request_fingerprint = replicate 64 (CHR ''0''), su_cooldown_until = 300000000,
     su_confirmation_token = None\<rparr>"

lemma demo_submitted: "broker_submission demo_digest demo_broker (Aware 0) demo_context demo_broker_request = Inr (demo_profile, 0, demo_submission)"
  "submission_args demo_submission = demo_refresh ''req_1'' 1 0"
  by (simp_all add: broker_submission_def profile_for_def demo_context_def demo_broker_request_def demo_broker_def demo_profile_def
      validate_scope_def instant_ok_def refresh_submission_init_def post_init_def check_def token_check_def hex64_def list_all_iff
      demo_submission_def broker_dedupe_key_def request_fingerprint_def submission_args_def demo_refresh_def)

definition demo_ack :: refresh_acknowledgement where
  "demo_ack = \<lparr>ak_schema_version = ''refresh_api.v1'', ak_request_id = ''req_1'', ak_job_id = Some ''job_1'', ak_disposition = ACCEPTED,
     ak_effective_lane = ''production_ingestion'', ak_initial_state = ''queued'', ak_submitted_at = 0, ak_poll_after = 2000000,
     ak_canonical_anchor = None, ak_confirmation_token = None, ak_confirmation_expires_at = None\<rparr>"

lemma demo_answer:
  assumes "submit_agent_refresh (demo_agent_env 1 (CHR ''0'')) (demo_refresh ''req_1'' 1 0) 0 ids g = (Inr (refresh_result_of (Some ''job_1'') ''accepted'' ''queued'' 0), g')"
  shows "broker_request demo_digest demo_broker (operational_submit (demo_agent_env 1 (CHR ''0'')) 0 ids) (Aware 0) demo_context demo_broker_request g = (Inr demo_ack, g')"
proof -
  have "operational_submit (demo_agent_env 1 (CHR ''0'')) 0 ids demo_submission g =
      (Inr (queued_result ACCEPTED (Some ''job_1'') ''queued'' None 0), g')"
    unfolding operational_submit_def demo_submitted(2) assms using demo_known [of 1 "CHR ''0''"]
    by (simp add: demo_submission_def backend_result_of_def refresh_result_of_def refresh_disposition_of_def backend_result_init_def
        post_init_def check_def queued_result_def)
  then show ?thesis
    unfolding broker_request_def demo_submitted(1)
    by (simp add: acknowledgement_def acknowledgement_init_def post_init_def check_def
        queued_result_def demo_ack_def demo_context_def demo_profile_def refresh_schema_version_def)
qed

lemma demo_again: "submit_agent_refresh (demo_agent_env 1 (CHR ''0'')) (demo_refresh ''req_1'' 1 0) 0 ids demo_first =
    (Inr (refresh_result_of (Some ''job_1'') ''accepted'' ''queued'' 0), demo_first)"
proof -
  let ?G = "demo_agent_env 1 (CHR ''0'')" and ?a = "demo_refresh ''req_1'' 1 0"
  obtain y where y: "sync_registry (en_sha (ge_env ?G)) (en_registry (ge_env ?G)) (ra_submitted_at ?a) (ag_store demo_first) = (Inr y, ag_store demo_first)"
    using demo_sync by blast
  have known: "registry_lookup (en_registry (ge_env ?G)) (ra_datasource_id ?a) (Some (ra_definition_version ?a)) = Inr (demo_definition 1)"
    using demo_known by simp
  have "submit_checks ?a = None" by (rule demo_checks) (simp add: bounded_identifier_def)
  from submit_synced(1) [OF this y known] show ?thesis
    by (simp add: submit_known_def demo_first_run demo_row_def validate_existing_refresh_request_def refresh_result_of_def)
qed

section \<open>Confinement\<close>

text \<open>Every row that a submission adds to the job table is the one \<open>enqueue\<close> makes for its arguments.\<close>

lemma submit_job_row:
  assumes "submit_agent_refresh G a clock ids g = (res, g')"
  shows "s_jobs (ag_store g') = s_jobs (ag_store g) \<or>
    (\<exists>d p. registry_lookup (en_registry (ge_env G)) (ra_datasource_id a) (Some (ra_definition_version a)) = Inr d \<and>
       enqueue_prepare (ge_env G) (refresh_enqueue_args a d) = Inr p \<and>
       s_jobs (ag_store g') = s_jobs (ag_store g) @
         [enqueue_row (ge_env G) (refresh_enqueue_args a d) p (ra_submitted_at a) (ei_job (ri_enqueue ids)) (Some (ra_request_id a))])"
proof -
  obtain y s1 where sync: "sync_registry (en_sha (ge_env G)) (en_registry (ge_env G)) (ra_submitted_at a) (ag_store g) = (y, s1)"
    by fastforce
  have jobs: "s_jobs s1 = s_jobs (ag_store g)" using sync_registry_frame [of "en_sha (ge_env G)" "en_registry (ge_env G)" "ra_submitted_at a" "ag_store g"] sync by simp
  consider "s_jobs (ag_store g') = s_jobs (ag_store g)"
    | d where "registry_lookup (en_registry (ge_env G)) (ra_datasource_id a) (Some (ra_definition_version a)) = Inr d"
        "g' = snd (submit_known G a d clock ids (g\<lparr>ag_store := s1\<rparr>))"
    using assms sync jobs
    by (cases y) (auto simp: submit_agent_refresh_def bind_op_def on_jobs_def raise_op_def split: option.splits sum.splits store_error.splits)
  then show ?thesis
  proof cases
    case (2 d)
    obtain q s2 where enq: "enqueue (ge_env G) clock (ri_enqueue ids) (refresh_enqueue_args a d) s1 = (q, s2)" by fastforce
    have trig: "ea_trigger (refresh_enqueue_args a d) \<noteq> ''manual''" by (simp add: refresh_enqueue_args_def)
    from enq trig have "s_jobs s2 = s_jobs s1 \<or> (\<exists>p. enqueue_prepare (ge_env G) (refresh_enqueue_args a d) = Inr p \<and>
        s_jobs s2 = s_jobs s1 @ [enqueue_row (ge_env G) (refresh_enqueue_args a d) p (ra_submitted_at a) (ei_job (ri_enqueue ids)) (Some (ra_request_id a))])"
      by (cases rule: enqueue_triggered) (auto simp: refresh_enqueue_args_def)
    then show ?thesis using submit_known_store [of G a d clock ids "g\<lparr>ag_store := s1\<rparr>"] 2 enq jobs by auto
  qed simp
qed

lemma prepared_fields:
  assumes "enqueue_prepare env (refresh_enqueue_args a d) = Inr p"
    and "registry_lookup (en_registry env) (ra_datasource_id a) (Some (ra_definition_version a)) = Inr d"
  shows "dd_definition_version (pj_definition p) = ra_definition_version a" and "ra_lane a \<noteq> [] \<Longrightarrow> pj_lane p = ra_lane a"
proof -
  have "dd_definition_version d = ra_definition_version a"
    using assms(2) by (auto simp: registry_lookup_def dd_key_def Let_def dest!: lookup_by_Some split: option.splits if_splits)
  then show "dd_definition_version (pj_definition p) = ra_definition_version a" "ra_lane a \<noteq> [] \<Longrightarrow> pj_lane p = ra_lane a"
    using assms
    by (auto simp: enqueue_prepare_def refresh_enqueue_args_def enqueue_defaults_def Let_def split: sum.splits store_error.splits if_splits option.splits list.splits)
qed

lemma scope_entries:
  "validate_scope_entries p sc = None \<longleftrightarrow> (\<forall>(key, vs) \<in> set sc. int (length vs) \<le> pf_max_scope_values p \<and>
     (key \<in> pf_single_value_scope_keys p \<longrightarrow> length vs = 1) \<and> \<not> network_key key \<and> (\<forall>v \<in> set vs. \<not> network_value v))"
  by (induction p sc rule: validate_scope_entries.induct) (auto simp: list_ex_iff not_less)



section \<open>Replays and status\<close>

text \<open>
  C28. A request through the broker is answered once: after a request was acknowledged with a job,
  whatever happens to the store in between, every acknowledgement under the same request identifier
  is for the same principal, the same fingerprint and the same job, with the same disposition and
  state, and its context may read the status of that job.
\<close>

theorem broker_replay:
  assumes store: "reaches agent_exec agent_admissible empty_agent_db cs g" "iso_ok G" "instant_ok now"
    and first: "broker_request sha bk (operational_submit G clk ids) (Aware now) ctx req g = (Inr k, g1)" "ak_job_id k = Some j"
    and later: "reaches agent_exec agent_admissible g1 cs' g2"
    and again: "broker_request sha' bk' (operational_submit G' clk' ids') clock' ctx' req' g2 = (Inr k', g3)"
      "rx_request_instance_id ctx' = rx_request_instance_id ctx"
    and ids: "bounded_identifier j" "bounded_identifier (rx_principal ctx)"
  shows "rx_principal ctx' = rx_principal ctx \<and> request_fingerprint sha' req' = request_fingerprint sha req \<and>
    ak_job_id k' = Some j \<and> ak_disposition k' = ak_disposition k \<and> ak_initial_state k' = ak_initial_state k \<and>
    (\<exists>st. broker_get_status bk' operational_get_status clock' ctx' j None g2 = Inr (Some st))"
proof -
  have inv: "agent_inv g" by (rule reachable_inv [OF store(1)])
  have ready: "operational_ready (G, clk, ids) q" if "broker_submission sha bk (Aware now) ctx req = Inr (p, n, q)" for p n q
    using submission_fields [OF that] store(2,3) by (simp add: operational_ready_def times_ok_def)
  have evolves: "agent_evolves g1 g2" using later by (auto simp: agent_evolves_def)
  have run: "broker_request sha bk (operational_submit (fst (G, clk, ids)) (fst (snd (G, clk, ids))) (snd (snd (G, clk, ids)))) (Aware now) ctx req g = (Inr k, g1)"
    using first(1) by simp
  have rep: "broker_request sha' bk' (operational_submit (fst (G', clk', ids')) (fst (snd (G', clk', ids'))) (snd (snd (G', clk', ids')))) clock' ctx' req' g2 = (Inr k', g3)"
    using again(1) by simp
  have same: "rx_principal ctx' = rx_principal ctx \<and> request_fingerprint sha' req' = request_fingerprint sha req \<and>
      ak_job_id k' = ak_job_id k \<and> ak_disposition k' = ak_disposition k \<and> ak_initial_state k' = ak_initial_state k"
    by (rule ob.request_replayed [OF inv _ run _ evolves again(2) rep]) (use ready first(2) in auto)
  moreover have "\<exists>st. broker_get_status bk' operational_get_status clock' ctx' j None g2 = Inr (Some st)"
    by (rule ob.status_follows [OF inv _ run first(2) evolves ids]) (use ready same in auto)
  ultimately show ?thesis using first(2) by simp
qed

theorem broker_replay_witness:
  "\<exists>st. broker_get_status demo_broker operational_get_status (Aware 0) demo_context ''job_1'' None demo_first = Inr (Some st)"
proof -
  have start: "reaches agent_exec agent_admissible empty_agent_db [] empty_agent_db" "instant_ok 0"
    and still: "reaches agent_exec agent_admissible demo_first [] demo_first"
    and job: "ak_job_id demo_ack = Some ''job_1''" "bounded_identifier ''job_1''" "bounded_identifier (rx_principal demo_context)"
    by (simp_all add: instant_ok_def demo_ack_def bounded_identifier_def demo_context_def)
  show ?thesis
    using broker_replay [OF start(1) demo_iso start(2) demo_answer [OF demo_first_run(1)] job(1) still
        demo_answer [OF demo_again] refl job(2,3)] by blast
qed

text \<open>
  The status of a job is private: in every reachable store the broker shows it only to a context
  whose principal was given that very job by a recorded request.
\<close>

theorem broker_status_private:
  assumes "reaches agent_exec agent_admissible empty_agent_db cs g"
    and "broker_get_status bk operational_get_status clock ctx j deadline g = Inr st"
  shows "\<exists>r \<in> set (ag_requests g). rq_principal r = rx_principal ctx \<and> rq_job_id r = j"
proof -
  obtain i f r where "operational_answered g i = Some (rx_principal ctx, f, r)" "bs_job_id r = Some j"
    using ob.status_only_given [OF reachable_inv [OF assms(1)] assms(2)] by blast
  then show ?thesis
    by (auto simp: operational_answered_def row_backend_result_def queued_result_def dest!: lookup_by_Some)
qed

theorem broker_status_private_witness:
  "\<exists>st. broker_get_status demo_broker operational_get_status (Aware 0) demo_context ''job_1'' None demo_first = Inr st \<and>
     (\<exists>r \<in> set (ag_requests demo_first). rq_principal r = ''agent'' \<and> rq_job_id r = ''job_1'')"
proof -
  have "lookup_by j_job_id ''job_1'' (s_jobs (ag_store demo_first)) \<noteq> None" by (simp add: demo_first_run(2) demo_job_fields)
  then obtain st where st: "broker_get_status demo_broker operational_get_status (Aware 0) demo_context ''job_1'' None demo_first = Inr st"
    by (auto simp: broker_get_status_def operational_get_status_def get_agent_refresh_job_def require_refresh_identifier_def
        bounded_identifier_def demo_context_def demo_first_run(3) demo_row_def get_job_def Let_def refresh_status_init_def post_init_def
        check_def status_of_job_def plain_status_def)
  then show ?thesis using broker_status_private [OF demo_reaches(1) st] by (auto simp: demo_context_def)
qed

section \<open>Fingerprints\<close>

lemma scopes_agree:
  "normalise_scope kvs = Inr sc \<Longrightarrow> normalized_scope n kvs = Inr sc' \<Longrightarrow> sc = sc'"
  by (induction kvs arbitrary: n sc sc' rule: normalise_scope.induct)
    (auto simp: scope_values_def split: option.splits sum.splits if_splits)




lemma sort_scope_json: "sort_json (scope_json sc) = JObj (map (\<lambda>(k, vs). (k, JList (map JStr vs))) (sort_key fst sc))"
proof -
  have "sort_json (JList (map JStr vs)) = JList (map JStr vs)" for vs by simp
  then show ?thesis
    unfolding scope_json_def sort_json.simps sort_key_map_snd by (simp add: sort_key_id_if_sorted comp_def case_prod_unfold)
qed

text \<open>
  A fingerprint stands for one request: two requests with the same fingerprint have the same
  datasource, profile and intent and the same scope up to the order of its keys, unless the digest
  function has a collision.
\<close>

theorem fingerprint_identity:
  assumes "request_fingerprint sha r = request_fingerprint sha r'"
  shows "qt_datasource_id r = qt_datasource_id r' \<and> qt_request_profile r = qt_request_profile r' \<and> qt_intent r = qt_intent r' \<and>
    sort_key fst (qt_bounded_scope r) = sort_key fst (qt_bounded_scope r') \<or> (\<exists>x y. x \<noteq> y \<and> sha x = sha y)"
proof (cases "\<exists>x y. x \<noteq> y \<and> sha x = sha y")
  case False
  let ?o = "\<lambda>r. [(''datasource_id'', JStr (qt_datasource_id r)), (''request_profile'', JStr (qt_request_profile r)),
      (''bounded_scope'', scope_json (qt_bounded_scope r)), (''intent'', JStr (qt_intent r))]"
  have "sort_json (JObj (?o r)) = sort_json (JObj (?o r'))"
    using assms False unfolding request_fingerprint_def print_json_iff [symmetric] by (metis utf8_inject)
  then have "set (sort_key fst (map (\<lambda>(k, v). (k, sort_json v)) (?o r))) = set (sort_key fst (map (\<lambda>(k, v). (k, sort_json v)) (?o r')))"
    unfolding sort_json.simps json.inject by (rule arg_cong)
  then have set: "(\<lambda>(k, v). (k, sort_json v)) ` set (?o r) = (\<lambda>(k, v). (k, sort_json v)) ` set (?o r')" by (simp only: set_sort set_map)
  have eq: "v = v'" if "(k, v) \<in> (\<lambda>(k, v). (k, sort_json v)) ` set (?o r)" "(k, v') \<in> (\<lambda>(k, v). (k, sort_json v)) ` set (?o r')" for k v v'
    using that unfolding set by auto
  have "qt_datasource_id r = qt_datasource_id r'" "qt_request_profile r = qt_request_profile r'" "qt_intent r = qt_intent r'"
      "sort_json (scope_json (qt_bounded_scope r)) = sort_json (scope_json (qt_bounded_scope r'))"
    using eq [of "''datasource_id''" "JStr (qt_datasource_id r)" "JStr (qt_datasource_id r')"]
      eq [of "''request_profile''" "JStr (qt_request_profile r)" "JStr (qt_request_profile r')"]
      eq [of "''intent''" "JStr (qt_intent r)" "JStr (qt_intent r')"]
      eq [of "''bounded_scope''" "sort_json (scope_json (qt_bounded_scope r))" "sort_json (scope_json (qt_bounded_scope r'))"]
    by simp_all
  moreover have "inj (\<lambda>(k :: string, vs). (k, JList (map JStr vs)))"
    by (auto simp: inj_def inj_map_eq_map)
  ultimately show ?thesis unfolding sort_scope_json by (simp add: inj_map_eq_map)
qed blast

theorem fingerprint_identity_witness:
  "sort_key fst [(''b'', [''1'']), (''a'', [''2''])] = sort_key fst [(''a'', [''2'']), (''b'', [''1''])]"
proof -
  let ?r = "\<lambda>sc. demo_broker_request\<lparr>qt_bounded_scope := sc\<rparr>"
  have "sort_key fst [(''b'', [''1'']), (''a'', [''2''])] = [(''a'', [''2'']), (''b'', [''1''])]"
    "sort_key fst [(''a'', [''2'']), (''b'', [''1''])] = [(''a'', [''2'']), (''b'', [''1''])]"
    by (simp_all add: less_char_def)
  then have "request_fingerprint id (?r [(''b'', [''1'']), (''a'', [''2''])]) = request_fingerprint id (?r [(''a'', [''2'']), (''b'', [''1''])])"
    by (simp add: request_fingerprint_def scope_json_def del: print_json.simps)
  from fingerprint_identity [OF this] show ?thesis by simp
qed

end
