(* ===== verification/Spec2Isabelle.thy ===== *)
theory Spec2Isabelle
  imports Prelude Timestamps Json Redaction Policies JobModel Schedules LeaseSpec JobQueue
    Registry StoreModel JobStore JobStoreInv JobStoreOps JobStoreCorrect Scheduler
    HostThrottle Artifacts Acquisition LedgerModel Observations RecordStreams Evidence
    SubmarketMapping Reviews History Provenance LedgerDemo ReviewInv LedgerCorrect VaultSystem
    VaultDemo VaultCorrect JsonText AgentRefresh AgentApproval RefreshSpec RefreshRefine RefreshInv
    AgentSystem AgentDemo AgentCorrect RefreshContracts RefreshBroker BrokerContract BrokerCorrect
begin

text \<open>
  Verification of the London real-estate ingestion service (Python package \<open>nan_fung\<close> under
  \<open>src/src/nan_fung\<close>).

  \<^bold>\<open>The program.\<close> A local control plane ingests public data for the London office market. A
  registry of versioned datasource definitions (\<open>ingestion/registry.py\<close>) says what may be fetched
  and on which schedule; \<open>OperationalStore\<close> (\<open>operational.py\<close>) keeps the definitions, the jobs,
  their attempts and runs, promotions and an audit log in SQLite, and hands jobs to workers under
  leases; workers fetch through the acquisition policies (\<open>ingestion/policies.py\<close>), capture evidence
  with its provenance and record observations as versioned streams, which are published by automatic
  or reviewed promotions; agents read through a separate read API and ask for refreshes through a
  broker (\<open>refresh_api\<close>), which binds each request to one job. \<open>ingestion/jobs.py\<close> holds the job model, the recurrence rules and
  an in-memory queue that is the reference for the lease rules.

  \<^bold>\<open>Theories.\<close>
  \<^item> \<open>Prelude\<close>: instants, operations with exceptions, SQL transactions and tables.
  \<^item> \<open>Timestamps\<close>, \<open>Json\<close>: \<open>ingestion/canonical.py\<close>. The persisted timestamp text compares as the
    instants do and parses back, which is why the other theories may use instants; canonical JSON
    with every rejection; the identity hashes over SHA-256 as an argument. \<open>JsonText\<close>: the canonical
    text identifies the value up to the order of keys, so equal hash inputs are equal values.
  \<^item> \<open>Redaction\<close>, \<open>Policies\<close>: \<open>ingestion/policies.py\<close>. Redaction is complete at every depth; a URL
    that validates is safe to connect to; the archive check is characterised exactly; the chunked
    file scan agrees with the check of the bytes in memory.
  \<^item> \<open>JobModel\<close>, \<open>Schedules\<close>: the records of \<open>ingestion/jobs.py\<close> with their constructor checks;
    interval, calendar and monthly recurrences and the materialisation of due slots. The locale
    \<open>recurrence_contract\<close> is what the scheduler relies on; it is interpreted on the recurrences
    that \<open>recurrence_from_rule\<close> builds.
  \<^item> \<open>LeaseSpec\<close>: the lease protocol as an abstract step relation, its invariant and histories, and
    the locale \<open>lease_system\<close> of systems that implement it.
  \<^item> \<open>JobQueue\<close>: \<open>InMemoryJobQueue\<close> and its interpretation of \<open>lease_system\<close>.
  \<^item> \<open>Registry\<close>: descriptors, registry and runtime bindings.
  \<^item> \<open>StoreModel\<close>, \<open>JobStore\<close>: the operational tables with the constraints of the schema, and every
    job method of \<open>OperationalStore\<close> as a state transformer on them. A method either commits or
    leaves the tables as they were (\<open>transaction\<close>, from \<open>storage/db.py\<close>); a method made of two
    transactions keeps the first when the second fails.
  \<^item> \<open>JobStoreInv\<close>, \<open>JobStoreOps\<close>, \<open>JobStoreCorrect\<close>: the invariant of the job tables, that every
    method keeps it and follows the lease protocol (the second interpretation of \<open>lease_system\<close>),
    and the guarantees that follow.
  \<^item> \<open>Scheduler\<close>: \<open>scheduler_tick\<close> over the recurrences of \<open>Schedules\<close> and the enqueue and recovery of
    \<open>JobStore\<close>. Each due slot becomes exactly one job, also when a tick is cut short and repeated.
  \<^item> \<open>HostThrottle\<close>: \<open>permit_host\<close> and \<open>record_host_response\<close>. Permits are spaced and blocks honoured.
  \<^item> \<open>Artifacts\<close>: the content-addressed store of \<open>storage/artifacts.py\<close>, write-once and verified.
  \<^item> \<open>Acquisition\<close>: \<open>acquire\<close> and \<open>acquire_to_artifact\<close> of \<open>datasources/common.py\<close> over \<open>Policies\<close>,
    \<open>HostThrottle\<close> and \<open>Artifacts\<close>. Every connection is confined to public addresses of allow-listed
    hosts whatever the network answers. The locale \<open>request_gate\<close> is the gate a client may rely on
    (\<open>HostRequestGate\<close>); it is interpreted on the durable throttle.
  \<^item> \<open>LedgerModel\<close>, \<open>Observations\<close>: the ledger, that is the job tables of \<open>StoreModel\<close> with the tables of
    content, evidence, observations, stream heads, links, reviews and decisions and their constraints;
    \<open>persist_observation\<close>, \<open>begin_full_snapshot\<close> and \<open>finalize_full_snapshot\<close>.
  \<^item> \<open>RecordStreams\<close>: the locale \<open>versioned_streams\<close>, what a versioned stream of records promises, and
    its interpretation on the observation and head tables; a repeated write is the identity.
  \<^item> \<open>Evidence\<close>: \<open>preflight_evidence\<close>, \<open>persist_evidence\<close> and \<open>read_evidence\<close> on the vault, the ledger
    beside the objects of \<open>Artifacts\<close>, with the provenance, retention and artifact checks.
  \<^item> \<open>SubmarketMapping\<close>: \<open>ingestion/submarket_mapping.py\<close> and the parent side of its parser runner.
  \<^item> \<open>Reviews\<close>: \<open>import_manual_evidence\<close>, \<open>review_tasks\<close>, \<open>decide_review\<close>, \<open>promote_review\<close>,
    \<open>revoke_promotion\<close> and the views \<open>current_run_promotion_v1\<close> and \<open>canonical_event_v1\<close>.
  \<^item> \<open>History\<close>: the locales \<open>op_order\<close>, \<open>job_order\<close>, \<open>store_order\<close>, \<open>capture_order\<close> and
    \<open>decision_order\<close>: a reflexive and transitive relation kept by the primitive writes of a group of
    methods is kept by the methods. Their interpretations give that the tables only grow and which
    method touches which table; the later theories reuse them for their own relations.
  \<^item> \<open>Provenance\<close>, \<open>ReviewInv\<close>, \<open>VaultSystem\<close>: the methods as commands on the vault, the invariants of
    the evidence links and of the reviews, and the invariant of the whole vault, with the third
    interpretation of \<open>lease_system\<close>: the lease protocol holds of the complete store. The locale
    \<open>import_order\<close> treats a manual import as a sequence of those commands.
  \<^item> \<open>LedgerCorrect\<close>, \<open>VaultCorrect\<close>: the guarantees about what is captured, versioned, deleted,
    reviewed, published and revoked. \<open>LedgerDemo\<close>, \<open>VaultDemo\<close>: one small deployment, run through
    the definitions, on which the witnesses apply them.
  \<^item> \<open>AgentRefresh\<close>, \<open>AgentApproval\<close>: \<open>submit_agent_refresh\<close> with its ledger, the recovery of a cut
    submission, cooldown cohorts and the second confirmation; \<open>get_job\<close>; the host approvals, their
    recovery and decisions.
  \<^item> \<open>RefreshSpec\<close>, \<open>RefreshRefine\<close>, \<open>RefreshInv\<close>: refresh requests as an abstract step relation, one
    step per transaction; every submission is a sequence of its steps, and its invariant holds
    wherever a submission is cut short. The interpretation \<open>rj\<close> of \<open>store_order\<close> gives that no other
    job method touches the refresh jobs.
  \<^item> \<open>AgentSystem\<close>, \<open>AgentCorrect\<close>: the store with its agent commands (job commands, submissions, cut
    submissions, approvals, decisions), its invariant, the fourth interpretation of \<open>lease_system\<close>,
    and the guarantees on requests, cooldowns, the daily budget, replays, tokens and decisions.
    \<open>AgentDemo\<close>: the deployment of their witnesses.
  \<^item> \<open>RefreshContracts\<close>, \<open>RefreshBroker\<close>: \<open>refresh_api/contracts.py\<close>, \<open>broker.py\<close> and
    \<open>operational_backend.py\<close>. \<open>BrokerContract\<close>: the locale \<open>refresh_backend\<close>, what the broker relies on
    from its backend, interpreted on the in-memory backend and on the operational store.
    \<open>BrokerCorrect\<close>: the broker is confined to its profiles, answers a request once, and computes the
    fingerprint the approvals check.

  \<^bold>\<open>Arguments of the model.\<close> SHA-256, \<open>urllib.parse\<close>, \<open>ipaddress\<close>, the resolver, \<open>zipfile\<close>,
  \<open>datetime.fromisoformat\<close>, \<open>parsedate_to_datetime\<close>, \<open>urljoin\<close>, the sockets, the time zone database,
  the sandboxed parser process, random draws, the clock and the identifiers of \<open>new_id\<close> are
  arguments; what a theorem needs of them is a hypothesis of it.

  \<^bold>\<open>Bounds.\<close> Strings hold code points below 256. The loops over dates are bounded as in the
  source; the materialisation loop has the source's safety limit of 100000 slots. The limitations of
  an observation are a list, where the source also accepts an iterator.

  \<^bold>\<open>Not modelled.\<close> The service heartbeat, the health report and the delivery log of \<open>operational.py\<close>,
  the read API, the migrations and backups of the storage layer, the facade, host and protocol of the
  agent tools, and \<open>parse_canonical_json\<close>, \<open>parse_date\<close> and \<open>end_of_local_date\<close> of \<open>canonical.py\<close>.
  Process management, the command line, network collectors, format parsers and renderers are I/O
  around third-party libraries and are left out.
\<close>

end
